(* ===== verification/Gpq_Prelude.thy ===== *)
theory Gpq_Prelude
  imports
    Main
    "HOL-Library.Word"
    "HOL-Library.Char_ord"
    "HOL-Library.List_Lexorder"
    "HOL-Library.Product_Lexorder"
begin

text \<open>
  Shared vocabulary of the development: the machine types of the program,
  \<^typ>\<open>'e + 'a\<close> as Rust's \<^verbatim>\<open>Result\<close>, the integer operations of the standard library
  that the program uses (\<^verbatim>\<open>saturating_mul\<close>, \<^verbatim>\<open>div_ceil\<close>, \<^verbatim>\<open>is_multiple_of\<close>), the iterator and
  string operations (\<^verbatim>\<open>min_by_key\<close>, \<^verbatim>\<open>str::trim\<close>), the SQL table primitives over row
  lists, and the generic lemmas and fact collections the components share.
\<close>

section \<open>Fact collections\<close>

named_theorems result_simps \<open>case analysis of a result value\<close>
named_theorems table_simps \<open>membership and counting in updated tables\<close>
named_theorems op_defs \<open>unfolding of table operations\<close>

section \<open>Machine types\<close>

type_synonym u8 = "8 word"
type_synonym u16 = "16 word"
type_synonym u32 = "32 word"
type_synonym u64 = "64 word"
type_synonym i64 = "64 word"
type_synonym f32 = "32 word"
type_synonym uuid = "128 word"

text \<open>
  A \<^verbatim>\<open>DateTime<Utc>\<close> and a PostgreSQL \<^verbatim>\<open>timestamptz\<close> are nanoseconds since the epoch, a
  \<^verbatim>\<open>std::time::Duration\<close> is a count of nanoseconds.
\<close>

type_synonym datetime = int
type_synonym duration = nat

definition from_secs :: "nat \<Rightarrow> duration" where
  "from_secs s = s * 1000000000"

definition from_mins :: "nat \<Rightarrow> duration" where
  "from_mins m = from_secs (m * 60)"

definition from_hours :: "nat \<Rightarrow> duration" where
  "from_hours h = from_mins (h * 60)"

text \<open>
  An \<^verbatim>\<open>f32\<close> is kept as its IEEE bit pattern: the program only copies floats and asks
  whether they are finite, that is whether the exponent bits are not all ones.
\<close>

definition is_finite :: "f32 \<Rightarrow> bool" where
  "is_finite x \<longleftrightarrow> drop_bit 23 (take_bit 31 x) \<noteq> 255"

section \<open>Results\<close>

abbreviation Ok :: "'a \<Rightarrow> 'e + 'a" where
  "Ok \<equiv> Inr"

abbreviation Err :: "'e \<Rightarrow> 'e + 'a" where
  "Err \<equiv> Inl"

definition is_ok :: "'e + 'a \<Rightarrow> bool" where
  "is_ok r = (case r of Err _ \<Rightarrow> False | Ok _ \<Rightarrow> True)"

definition rbind :: "'e + 'a \<Rightarrow> ('a \<Rightarrow> 'e + 'b) \<Rightarrow> 'e + 'b" where
  "rbind r f = (case r of Err e \<Rightarrow> Err e | Ok v \<Rightarrow> f v)"

definition map_err :: "('e \<Rightarrow> 'f) \<Rightarrow> 'e + 'a \<Rightarrow> 'f + 'a" where
  "map_err f r = (case r of Err e \<Rightarrow> Err (f e) | Ok v \<Rightarrow> Ok v)"

lemma is_ok_simps [simp]:
  "is_ok (Ok v)" "\<not> is_ok (Err e)"
  by (simp_all add: is_ok_def)

lemma is_ok_unit: "is_ok r \<longleftrightarrow> r = Ok ()"
  by (cases r) simp_all

lemma rbind_simps [simp]:
  "rbind (Ok v) f = f v" "rbind (Err e) f = Err e"
  by (simp_all add: rbind_def)

lemma map_err_simps [simp]:
  "map_err f (Ok v) = Ok v" "map_err f (Err e) = Err (f e)"
  by (simp_all add: map_err_def)

lemma rbind_eq_Ok [result_simps]: "rbind r f = Ok v \<longleftrightarrow> (\<exists>w. r = Ok w \<and> f w = Ok v)"
  by (cases r) simp_all

lemma rbind_eq_Err [result_simps]:
  "rbind r f = Err e \<longleftrightarrow> r = Err e \<or> (\<exists>w. r = Ok w \<and> f w = Err e)"
  by (cases r) auto

lemma map_err_eq_Ok [result_simps]: "map_err f r = Ok v \<longleftrightarrow> r = Ok v"
  by (cases r) simp_all

lemma map_err_eq_Err [result_simps]: "map_err f r = Err e \<longleftrightarrow> (\<exists>d. r = Err d \<and> f d = e)"
  by (cases r) auto

lemma is_ok_map_err [simp]: "is_ok (map_err f r) = is_ok r"
  by (cases r) simp_all

lemma not_Ok_unit_ex: "r \<noteq> Ok () \<longleftrightarrow> (\<exists>e. r = Err e)"
  by (cases r) simp_all

text \<open>Collecting an iterator of results: the values, or the first error.\<close>

fun rmap :: "('a \<Rightarrow> 'e + 'b) \<Rightarrow> 'a list \<Rightarrow> 'e + 'b list" where
  "rmap f [] = Ok []"
| "rmap f (x # xs) = rbind (f x) (\<lambda>y. rbind (rmap f xs) (\<lambda>ys. Ok (y # ys)))"

lemma rmap_Ok_iff: "rmap f xs = Ok ys \<longleftrightarrow> list_all2 (\<lambda>x y. f x = Ok y) xs ys"
  by (induction xs arbitrary: ys) (auto simp: rbind_eq_Ok list_all2_Cons1)

lemma rmap_Ok_set: "rmap f xs = Ok ys \<Longrightarrow> y \<in> set ys \<longleftrightarrow> (\<exists>x \<in> set xs. f x = Ok y)"
  unfolding rmap_Ok_iff by (induction rule: list_all2_induct) auto

section \<open>Integer operations of the standard library\<close>

definition saturating_mul :: "'w::len word \<Rightarrow> 'w word \<Rightarrow> 'w word" where
  "saturating_mul a b = (if unat a * unat b < 2 ^ LENGTH('w) then a * b else - 1)"

definition is_multiple_of :: "'w::len word \<Rightarrow> 'w word \<Rightarrow> bool" where
  "is_multiple_of a b = (if b = 0 then a = 0 else a mod b = 0)"

definition div_ceil :: "'w::len word \<Rightarrow> 'w word \<Rightarrow> 'w word" where
  "div_ceil a b = (let q = a div b; r = a mod b in if r > 0 then q + 1 else q)"

lemma unat_saturating_mul:
  "unat (saturating_mul a (b :: 'w::len word)) = min (unat a * unat b) (2 ^ LENGTH('w) - 1)"
proof (cases "unat a * unat b < 2 ^ LENGTH('w)")
  case True
  then show ?thesis
    by (simp add: saturating_mul_def unat_word_ariths)
next
  case False
  then show ?thesis
    by (simp add: saturating_mul_def unsigned_minus_1_eq_mask mask_eq_exp_minus_1)
qed

lemma is_multiple_of_iff: "is_multiple_of a b \<longleftrightarrow> unat b dvd unat a"
proof (cases "b = 0")
  case True
  then show ?thesis by (simp add: is_multiple_of_def unat_eq_0)
next
  case False
  have "a mod b = 0 \<longleftrightarrow> unat (a mod b) = 0"
    by (simp only: unat_eq_0)
  with False show ?thesis
    by (simp add: is_multiple_of_def unat_mod_distrib dvd_eq_mod_eq_0)
qed

lemma unat_div_ceil:
  fixes a b :: "'b::len word"
  assumes "b \<noteq> 0"
  shows "unat (div_ceil a b) = (unat a + unat b - 1) div unat b"
proof -
  define m n where "m = unat a" and "n = unat b"
  have n: "0 < n" using assms by (simp add: n_def unat_gt_0)
  have m: "m = n * (m div n) + m mod n" by simp
  show ?thesis
  proof (cases "m mod n = 0")
    case True
    then have "a mod b = 0"
      by (metis m_def n_def unat_eq_0 unat_mod_distrib)
    moreover have "(m + n - 1) div n = m div n"
    proof -
      have "m + n - 1 = (n - 1) + n * (m div n)" using m True n by linarith
      then have "(m + n - 1) div n = (n - 1) div n + m div n"
        using n by (metis add.commute div_mult_self2 neq0_conv)
      then show ?thesis using n by simp
    qed
    ultimately show ?thesis
      by (simp add: div_ceil_def unat_div_distrib m_def n_def)
  next
    case False
    then have pos: "a mod b > 0"
      by (metis m_def n_def unat_gt_0 unat_mod_distrib neq0_conv word_gt_0)
    have "n \<noteq> 1" using False by auto
    then have "m div n < 2 ^ LENGTH('b) - 1"
    proof -
      assume n1: "n \<noteq> 1"
      have "m div n \<le> m div 2" using n n1 by (intro div_le_mono2) auto
      moreover have "m < 2 ^ LENGTH('b)" by (simp add: m_def)
      moreover have "m > 0" using False by (cases m) auto
      ultimately show ?thesis by linarith
    qed
    then have "unat (a div b + 1) = m div n + 1"
      by (simp add: unat_word_ariths unat_div_distrib m_def n_def)
    moreover have "(m + n - 1) div n = m div n + 1"
    proof (rule div_nat_eqI)
      show "n * (m div n + 1) \<le> m + n - 1"
        using m False by (simp only: distrib_left mult_1_right)
      show "m + n - 1 < n * Suc (m div n + 1)"
        using m mod_less_divisor [OF n, of m] n
        by (simp only: mult_Suc_right distrib_left mult_1_right)
    qed
    ultimately show ?thesis using pos by (simp add: div_ceil_def m_def n_def)
  qed
qed

lemma unat_of_nat_small: "m < 2 ^ LENGTH('w) \<Longrightarrow> unat (of_nat m :: 'w::len word) = m"
  by (simp add: unsigned_of_nat take_bit_nat_eq_self)

lemma unat_ucast_32_64 [simp]: "unat (ucast (w :: u32) :: u64) = unat w"
proof -
  have "unat w < 2 ^ 64" by (rule less_trans [OF unsigned_less]) simp
  then show ?thesis by (simp add: unsigned_ucast_eq take_bit_nat_eq_self)
qed

section \<open>Iterators\<close>

text \<open>\<^verbatim>\<open>Iterator::min_by_key\<close> returns the first of the elements with the least key.\<close>

fun min_by_key :: "('a \<Rightarrow> 'k::linorder) \<Rightarrow> 'a list \<Rightarrow> 'a option" where
  "min_by_key k [] = None"
| "min_by_key k (x # xs) =
     (case min_by_key k xs of
        None \<Rightarrow> Some x
      | Some y \<Rightarrow> if k x \<le> k y then Some x else Some y)"

lemma min_by_key_None [simp]: "min_by_key k xs = None \<longleftrightarrow> xs = []"
  by (cases xs) (auto split: option.splits)

lemma min_by_key_SomeD:
  "min_by_key k xs = Some x \<Longrightarrow> x \<in> set xs \<and> (\<forall>y \<in> set xs. k x \<le> k y)"
  by (induction xs arbitrary: x) (auto split: option.splits if_splits)

text \<open>A \<^verbatim>\<open>BTreeSet\<close> is the sorted list of its distinct elements.\<close>

definition btree_set :: "'a::linorder list \<Rightarrow> 'a list" where
  "btree_set xs = sort (remdups xs)"

lemma set_btree_set [simp]: "set (btree_set xs) = set xs"
  by (simp add: btree_set_def)

lemma distinct_btree_set [simp]: "distinct (btree_set xs)"
  by (simp add: btree_set_def)

lemma sorted_btree_set [simp]: "sorted (btree_set xs)"
  by (simp add: btree_set_def)

text \<open>Pushing each element that is not yet there: the order-keeping de-duplication loop.\<close>

fun push_distinct :: "'a list \<Rightarrow> 'a list \<Rightarrow> 'a list" where
  "push_distinct ids [] = ids"
| "push_distinct ids (x # xs) = push_distinct (if x \<in> set ids then ids else ids @ [x]) xs"

lemma set_push_distinct [simp]: "set (push_distinct ids xs) = set ids \<union> set xs"
  by (induction ids xs rule: push_distinct.induct) auto

lemma distinct_push_distinct: "distinct ids \<Longrightarrow> distinct (push_distinct ids xs)"
  by (induction ids xs rule: push_distinct.induct) auto

lemma push_distinct_filter:
  "push_distinct ids xs = ids @ filter (\<lambda>x. x \<notin> set ids) (push_distinct [] xs)"
proof (induction xs arbitrary: ids)
  case Nil
  then show ?case by simp
next
  case (Cons x xs)
  show ?case
    using Cons.IH [of "if x \<in> set ids then ids else ids @ [x]"] Cons.IH [of "[x]"]
    by (auto intro: filter_cong)
qed

lemma push_distinct_eq: "push_distinct [] xs = rev (remdups (rev xs))"
proof (induction xs rule: rev_induct)
  case Nil
  then show ?case by simp
next
  case (snoc x xs)
  have step: "push_distinct ids (ys @ [x]) =
      (if x \<in> set (push_distinct ids ys) then push_distinct ids ys else push_distinct ids ys @ [x])"
    for ids ys
    by (induction ids ys rule: push_distinct.induct) auto
  show ?case using snoc by (simp add: step)
qed

section \<open>UTF-8 text\<close>

text \<open>
  A Rust \<^verbatim>\<open>String\<close> is its sequence of UTF-8 bytes. \<^verbatim>\<open>utf8_chars\<close> splits it at the scalar
  values, read off the lead byte, and \<^verbatim>\<open>is_whitespace\<close> is Unicode's \<^verbatim>\<open>White_Space\<close>.
\<close>

abbreviation byte_val :: "char \<Rightarrow> nat" where
  "byte_val \<equiv> of_char"

definition utf8_width :: "char \<Rightarrow> nat" where
  "utf8_width c =
     (if byte_val c < 192 then 1 else if byte_val c < 224 then 2
      else if byte_val c < 240 then 3 else 4)"

lemma utf8_width_pos [simp]: "0 < utf8_width c"
  by (simp add: utf8_width_def)

function utf8_chars :: "string \<Rightarrow> nat list list" where
  "utf8_chars [] = []"
| "utf8_chars (c # cs) =
     map byte_val (c # take (utf8_width c - 1) cs) # utf8_chars (drop (utf8_width c - 1) cs)"
  by pat_completeness auto
termination by (relation "measure length") auto

fun is_whitespace :: "nat list \<Rightarrow> bool" where
  "is_whitespace [a] \<longleftrightarrow> 9 \<le> a \<and> a \<le> 13 \<or> a = 32"
| "is_whitespace [a, b] \<longleftrightarrow> a = 194 \<and> (b = 133 \<or> b = 160)"
| "is_whitespace [a, b, c] \<longleftrightarrow>
     a = 225 \<and> b = 154 \<and> c = 128 \<or>
     a = 226 \<and> b = 128 \<and> (128 \<le> c \<and> c \<le> 138 \<or> c = 168 \<or> c = 169 \<or> c = 175) \<or>
     a = 226 \<and> b = 129 \<and> c = 159 \<or>
     a = 227 \<and> b = 128 \<and> c = 128"
| "is_whitespace _ \<longleftrightarrow> False"

definition trim_chars :: "nat list list \<Rightarrow> nat list list" where
  "trim_chars cs = rev (dropWhile is_whitespace (rev (dropWhile is_whitespace cs)))"

definition trim :: "string \<Rightarrow> string" where
  "trim s = map char_of (concat (trim_chars (utf8_chars s)))"

definition starts_with :: "string \<Rightarrow> string \<Rightarrow> bool" where
  "starts_with s p = (take (length p) s = p)"

definition split_first :: "char \<Rightarrow> string \<Rightarrow> string" where
  "split_first c s = takeWhile (\<lambda>x. x \<noteq> c) s"

lemma utf8_chars_nonempty: "c \<in> set (utf8_chars s) \<Longrightarrow> c \<noteq> []"
  by (induction s rule: utf8_chars.induct) auto

lemma trim_chars_Nil: "trim_chars cs = [] \<longleftrightarrow> (\<forall>c \<in> set cs. is_whitespace c)"
proof -
  have "dropWhile is_whitespace (rev (dropWhile is_whitespace cs)) = [] \<longleftrightarrow>
        (\<forall>c \<in> set (dropWhile is_whitespace cs). is_whitespace c)"
    by (simp add: dropWhile_eq_Nil_conv)
  also have "\<dots> \<longleftrightarrow> (\<forall>c \<in> set cs. is_whitespace c)"
    by (induction cs) auto
  finally show ?thesis by (simp add: trim_chars_def)
qed

lemma set_trim_chars: "set (trim_chars cs) \<subseteq> set cs"
  unfolding trim_chars_def by (auto dest!: set_dropWhileD)

lemma trim_empty_iff: "trim s = [] \<longleftrightarrow> (\<forall>c \<in> set (utf8_chars s). is_whitespace c)"
proof -
  have "trim s = [] \<longleftrightarrow> trim_chars (utf8_chars s) = []"
    using set_trim_chars [of "utf8_chars s"] utf8_chars_nonempty [of _ s]
    by (cases "trim_chars (utf8_chars s)") (auto simp: trim_def)
  then show ?thesis by (simp add: trim_chars_Nil)
qed

section \<open>Keyset pagination\<close>

text \<open>In a strictly decreasing listing, the rows below the cursor are those after it.\<close>

lemma filter_after:
  fixes k :: "'a \<Rightarrow> 'b :: linorder"
  assumes "sorted_wrt (\<lambda>x y. k y < k x) L" "0 < m" "m \<le> length L"
  shows "filter (\<lambda>x. k x < k (L ! (m - 1))) L = drop m L"
proof -
  have nth: "k (L ! j) < k (L ! i)" if "i < j" "j < length L" for i j
    using assms(1) that by (simp add: sorted_wrt_iff_nth_less)
  have "\<not> k x < k (L ! (m - 1))" if x: "x \<in> set (take m L)" for x
  proof -
    obtain i where i: "i < m" "i < length L" "x = L ! i"
      using x by (auto simp: in_set_conv_nth)
    then show ?thesis using nth [of i "m - 1"] assms(2,3) by (cases "i = m - 1") force+
  qed
  then have "filter (\<lambda>x. k x < k (L ! (m - 1))) (take m L) = []" by (simp add: filter_empty_conv)
  moreover have "k x < k (L ! (m - 1))" if x: "x \<in> set (drop m L)" for x
  proof -
    obtain i where "i < length L - m" "x = L ! (m + i)" using x by (auto simp: in_set_conv_nth)
    then show ?thesis using nth [of "m - 1" "m + i"] assms(2) by simp
  qed
  then have "filter (\<lambda>x. k x < k (L ! (m - 1))) (drop m L) = drop m L" by simp
  ultimately show ?thesis
    by (metis append_Nil append_take_drop_id filter_append)
qed

lemma sorted_wrt_rev_sort_key:
  fixes k :: "'a \<Rightarrow> 'b :: linorder"
  assumes "distinct (map k xs)"
  shows "sorted_wrt (\<lambda>x y. k y < k x) (rev (sort_key k xs))"
proof -
  have "distinct (map k (sort_key k xs))" using assms by (simp add: distinct_map)
  then have "sorted_wrt (<) (map k (sort_key k xs))" by (simp add: strict_sorted_iff)
  then show ?thesis by (simp add: sorted_wrt_rev sorted_wrt_map)
qed

end
