(* ===== verification/Domain_State.thy ===== *)
theory Domain_State
  imports Gpq_Prelude
begin

text \<open>
  The lifecycle state machines of \<^verbatim>\<open>gpq-domain/src/state.rs\<close> and the failure
  classification with its retry policy of \<^verbatim>\<open>gpq-domain/src/failure.rs\<close>. Two interfaces are
  stated as locales: \<^verbatim>\<open>stable_names\<close>, the contract of the \<^verbatim>\<open>state_enum!\<close> macro (a bijection
  between the variants and their stored names), and \<^verbatim>\<open>lifecycle\<close>, the contract of a
  monotone state machine whose terminal states are final. Every enum and every machine
  interprets them.
\<close>

section \<open>Stable names\<close>

datatype UnknownState = UnknownState string

locale stable_names =
  fixes as_str :: "'s \<Rightarrow> string"
    and from_str :: "string \<Rightarrow> UnknownState + 's"
    and all :: "'s list"
  assumes parse_print: "from_str (as_str v) = Ok v"
    and parse_sound: "from_str s = Ok v \<Longrightarrow> as_str v = s"
    and parse_error: "from_str s = Err e \<Longrightarrow> e = UnknownState s"
    and all_complete: "v \<in> set all"
    and all_distinct: "distinct all"
begin

lemma from_str_Ok_iff: "from_str s = Ok v \<longleftrightarrow> s = as_str v"
  using parse_print parse_sound by blast

lemma from_str_Err_iff: "from_str s = Err e \<longleftrightarrow> s \<notin> as_str ` set all \<and> e = UnknownState s"
proof (cases "from_str s")
  case (Inl d)
  then show ?thesis
    using parse_error [of s d] parse_print by auto
next
  case (Inr v)
  then show ?thesis
    using parse_sound [of s v] all_complete by auto
qed

lemma inj_as_str: "inj as_str"
  by (rule injI) (metis parse_print sum.inject(2))

lemma distinct_names: "distinct (map as_str all)"
  using all_distinct inj_as_str by (simp add: distinct_map inj_on_def inj_def)

end

section \<open>Lifecycles\<close>

datatype TransitionError = TransitionError (from_name: string) (to_name: string)

locale lifecycle =
  fixes can_transition_to :: "'s \<Rightarrow> 's \<Rightarrow> bool"
    and is_terminal :: "'s \<Rightarrow> bool"
    and as_str :: "'s \<Rightarrow> string"
    and transition :: "'s \<Rightarrow> 's \<Rightarrow> TransitionError + 's"
  assumes terminal_iff: "is_terminal s \<longleftrightarrow> (\<forall>t. \<not> can_transition_to s t)"
    and irreflexive: "\<not> can_transition_to s s"
    and transition_ok: "can_transition_to s t \<Longrightarrow> transition s t = Ok t"
    and transition_err:
      "\<not> can_transition_to s t \<Longrightarrow> transition s t = Err (TransitionError (as_str s) (as_str t))"
begin

lemma transition_Ok_iff: "transition s t = Ok u \<longleftrightarrow> can_transition_to s t \<and> u = t"
  using transition_ok transition_err by (cases "can_transition_to s t") auto

lemma terminal_transition:
  "is_terminal s \<Longrightarrow> transition s t = Err (TransitionError (as_str s) (as_str t))"
  using terminal_iff transition_err by blast

lemma terminal_final: "can_transition_to\<^sup>*\<^sup>* s t \<Longrightarrow> is_terminal s \<Longrightarrow> t = s"
  by (induction rule: converse_rtranclp_induct) (auto simp: terminal_iff)

lemma moves_trans:
  "can_transition_to\<^sup>*\<^sup>* s t \<Longrightarrow> can_transition_to\<^sup>*\<^sup>* t u \<Longrightarrow> can_transition_to\<^sup>*\<^sup>* s u"
  by (rule rtranclp_trans)

end

section \<open>Generation states\<close>

datatype GenerationState =
    Queued
  | Running
  | Cancelling
  | Succeeded
  | Failed
  | Cancelled
  | Expired

fun GenerationState_as_str :: "GenerationState \<Rightarrow> string" where
  "GenerationState_as_str GenerationState.Queued = ''queued''"
| "GenerationState_as_str GenerationState.Running = ''running''"
| "GenerationState_as_str GenerationState.Cancelling = ''cancelling''"
| "GenerationState_as_str GenerationState.Succeeded = ''succeeded''"
| "GenerationState_as_str GenerationState.Failed = ''failed''"
| "GenerationState_as_str GenerationState.Cancelled = ''cancelled''"
| "GenerationState_as_str GenerationState.Expired = ''expired''"

definition GenerationState_all :: "GenerationState list" where
  "GenerationState_all =
     [GenerationState.Queued,
      GenerationState.Running,
      GenerationState.Cancelling,
      GenerationState.Succeeded,
      GenerationState.Failed,
      GenerationState.Cancelled,
      GenerationState.Expired]"

definition GenerationState_from_str :: "string \<Rightarrow> UnknownState + GenerationState" where
  "GenerationState_from_str s =
     (if s = ''queued'' then Ok GenerationState.Queued
      else if s = ''running'' then Ok GenerationState.Running
      else if s = ''cancelling'' then Ok GenerationState.Cancelling
      else if s = ''succeeded'' then Ok GenerationState.Succeeded
      else if s = ''failed'' then Ok GenerationState.Failed
      else if s = ''cancelled'' then Ok GenerationState.Cancelled
      else if s = ''expired'' then Ok GenerationState.Expired
      else Err (UnknownState s))"

interpretation gen_names: stable_names GenerationState_as_str GenerationState_from_str GenerationState_all
proof
  show "GenerationState_from_str (GenerationState_as_str v) = Ok v" for v
    by (cases v) (simp_all add: GenerationState_from_str_def)
  show "GenerationState_from_str s = Ok v \<Longrightarrow> GenerationState_as_str v = s" for s v
    by (auto simp: GenerationState_from_str_def split: if_splits)
  show "GenerationState_from_str s = Err e \<Longrightarrow> e = UnknownState s" for s e
    by (auto simp: GenerationState_from_str_def split: if_splits)
  show "v \<in> set GenerationState_all" for v
    by (cases v) (simp_all add: GenerationState_all_def)
  show "distinct GenerationState_all"
    by (simp add: GenerationState_all_def)
qed

section \<open>Attempt states\<close>

datatype AttemptState =
    Leased
  | Running
  | Succeeded
  | Failed
  | Cancelled
  | LeaseExpired

fun AttemptState_as_str :: "AttemptState \<Rightarrow> string" where
  "AttemptState_as_str AttemptState.Leased = ''leased''"
| "AttemptState_as_str AttemptState.Running = ''running''"
| "AttemptState_as_str AttemptState.Succeeded = ''succeeded''"
| "AttemptState_as_str AttemptState.Failed = ''failed''"
| "AttemptState_as_str AttemptState.Cancelled = ''cancelled''"
| "AttemptState_as_str AttemptState.LeaseExpired = ''lease_expired''"

definition AttemptState_all :: "AttemptState list" where
  "AttemptState_all =
     [AttemptState.Leased,
      AttemptState.Running,
      AttemptState.Succeeded,
      AttemptState.Failed,
      AttemptState.Cancelled,
      AttemptState.LeaseExpired]"

definition AttemptState_from_str :: "string \<Rightarrow> UnknownState + AttemptState" where
  "AttemptState_from_str s =
     (if s = ''leased'' then Ok AttemptState.Leased
      else if s = ''running'' then Ok AttemptState.Running
      else if s = ''succeeded'' then Ok AttemptState.Succeeded
      else if s = ''failed'' then Ok AttemptState.Failed
      else if s = ''cancelled'' then Ok AttemptState.Cancelled
      else if s = ''lease_expired'' then Ok AttemptState.LeaseExpired
      else Err (UnknownState s))"

interpretation att_names: stable_names AttemptState_as_str AttemptState_from_str AttemptState_all
proof
  show "AttemptState_from_str (AttemptState_as_str v) = Ok v" for v
    by (cases v) (simp_all add: AttemptState_from_str_def)
  show "AttemptState_from_str s = Ok v \<Longrightarrow> AttemptState_as_str v = s" for s v
    by (auto simp: AttemptState_from_str_def split: if_splits)
  show "AttemptState_from_str s = Err e \<Longrightarrow> e = UnknownState s" for s e
    by (auto simp: AttemptState_from_str_def split: if_splits)
  show "v \<in> set AttemptState_all" for v
    by (cases v) (simp_all add: AttemptState_all_def)
  show "distinct AttemptState_all"
    by (simp add: AttemptState_all_def)
qed

section \<open>Artifact states\<close>

datatype ArtifactState =
    Pending
  | Available
  | Delivering
  | Consumed
  | Expired
  | Lost

fun ArtifactState_as_str :: "ArtifactState \<Rightarrow> string" where
  "ArtifactState_as_str ArtifactState.Pending = ''pending''"
| "ArtifactState_as_str ArtifactState.Available = ''available''"
| "ArtifactState_as_str ArtifactState.Delivering = ''delivering''"
| "ArtifactState_as_str ArtifactState.Consumed = ''consumed''"
| "ArtifactState_as_str ArtifactState.Expired = ''expired''"
| "ArtifactState_as_str ArtifactState.Lost = ''lost''"

definition ArtifactState_all :: "ArtifactState list" where
  "ArtifactState_all =
     [ArtifactState.Pending,
      ArtifactState.Available,
      ArtifactState.Delivering,
      ArtifactState.Consumed,
      ArtifactState.Expired,
      ArtifactState.Lost]"

definition ArtifactState_from_str :: "string \<Rightarrow> UnknownState + ArtifactState" where
  "ArtifactState_from_str s =
     (if s = ''pending'' then Ok ArtifactState.Pending
      else if s = ''available'' then Ok ArtifactState.Available
      else if s = ''delivering'' then Ok ArtifactState.Delivering
      else if s = ''consumed'' then Ok ArtifactState.Consumed
      else if s = ''expired'' then Ok ArtifactState.Expired
      else if s = ''lost'' then Ok ArtifactState.Lost
      else Err (UnknownState s))"

interpretation art_names: stable_names ArtifactState_as_str ArtifactState_from_str ArtifactState_all
proof
  show "ArtifactState_from_str (ArtifactState_as_str v) = Ok v" for v
    by (cases v) (simp_all add: ArtifactState_from_str_def)
  show "ArtifactState_from_str s = Ok v \<Longrightarrow> ArtifactState_as_str v = s" for s v
    by (auto simp: ArtifactState_from_str_def split: if_splits)
  show "ArtifactState_from_str s = Err e \<Longrightarrow> e = UnknownState s" for s e
    by (auto simp: ArtifactState_from_str_def split: if_splits)
  show "v \<in> set ArtifactState_all" for v
    by (cases v) (simp_all add: ArtifactState_all_def)
  show "distinct ArtifactState_all"
    by (simp add: ArtifactState_all_def)
qed

section \<open>Failure kinds\<close>

datatype FailureKind =
    InvalidInput
  | UnsupportedCapability
  | ModelUnavailable
  | OutOfMemory
  | BackendCrashed
  | ExecutionTimedOut
  | Cancelled
  | TransferFailed
  | Internal
  | WorkerLost
  | LeaseExpired

fun FailureKind_as_str :: "FailureKind \<Rightarrow> string" where
  "FailureKind_as_str FailureKind.InvalidInput = ''invalid_input''"
| "FailureKind_as_str FailureKind.UnsupportedCapability = ''unsupported_capability''"
| "FailureKind_as_str FailureKind.ModelUnavailable = ''model_unavailable''"
| "FailureKind_as_str FailureKind.OutOfMemory = ''out_of_memory''"
| "FailureKind_as_str FailureKind.BackendCrashed = ''backend_crashed''"
| "FailureKind_as_str FailureKind.ExecutionTimedOut = ''execution_timed_out''"
| "FailureKind_as_str FailureKind.Cancelled = ''cancelled''"
| "FailureKind_as_str FailureKind.TransferFailed = ''transfer_failed''"
| "FailureKind_as_str FailureKind.Internal = ''internal''"
| "FailureKind_as_str FailureKind.WorkerLost = ''worker_lost''"
| "FailureKind_as_str FailureKind.LeaseExpired = ''lease_expired''"

definition FailureKind_all :: "FailureKind list" where
  "FailureKind_all =
     [FailureKind.InvalidInput,
      FailureKind.UnsupportedCapability,
      FailureKind.ModelUnavailable,
      FailureKind.OutOfMemory,
      FailureKind.BackendCrashed,
      FailureKind.ExecutionTimedOut,
      FailureKind.Cancelled,
      FailureKind.TransferFailed,
      FailureKind.Internal,
      FailureKind.WorkerLost,
      FailureKind.LeaseExpired]"

definition FailureKind_from_str :: "string \<Rightarrow> UnknownState + FailureKind" where
  "FailureKind_from_str s =
     (if s = ''invalid_input'' then Ok FailureKind.InvalidInput
      else if s = ''unsupported_capability'' then Ok FailureKind.UnsupportedCapability
      else if s = ''model_unavailable'' then Ok FailureKind.ModelUnavailable
      else if s = ''out_of_memory'' then Ok FailureKind.OutOfMemory
      else if s = ''backend_crashed'' then Ok FailureKind.BackendCrashed
      else if s = ''execution_timed_out'' then Ok FailureKind.ExecutionTimedOut
      else if s = ''cancelled'' then Ok FailureKind.Cancelled
      else if s = ''transfer_failed'' then Ok FailureKind.TransferFailed
      else if s = ''internal'' then Ok FailureKind.Internal
      else if s = ''worker_lost'' then Ok FailureKind.WorkerLost
      else if s = ''lease_expired'' then Ok FailureKind.LeaseExpired
      else Err (UnknownState s))"

interpretation fail_names: stable_names FailureKind_as_str FailureKind_from_str FailureKind_all
proof
  show "FailureKind_from_str (FailureKind_as_str v) = Ok v" for v
    by (cases v) (simp_all add: FailureKind_from_str_def)
  show "FailureKind_from_str s = Ok v \<Longrightarrow> FailureKind_as_str v = s" for s v
    by (auto simp: FailureKind_from_str_def split: if_splits)
  show "FailureKind_from_str s = Err e \<Longrightarrow> e = UnknownState s" for s e
    by (auto simp: FailureKind_from_str_def split: if_splits)
  show "v \<in> set FailureKind_all" for v
    by (cases v) (simp_all add: FailureKind_all_def)
  show "distinct FailureKind_all"
    by (simp add: FailureKind_all_def)
qed

section \<open>Generation lifecycle\<close>

definition GenerationState_is_terminal :: "GenerationState \<Rightarrow> bool" where
  "GenerationState_is_terminal s =
     (case s of GenerationState.Succeeded \<Rightarrow> True | GenerationState.Failed \<Rightarrow> True
      | GenerationState.Cancelled \<Rightarrow> True | GenerationState.Expired \<Rightarrow> True | _ \<Rightarrow> False)"

definition GenerationState_is_active :: "GenerationState \<Rightarrow> bool" where
  "GenerationState_is_active s =
     (case s of GenerationState.Running \<Rightarrow> True | GenerationState.Cancelling \<Rightarrow> True | _ \<Rightarrow> False)"

definition GenerationState_is_leasable :: "GenerationState \<Rightarrow> bool" where
  "GenerationState_is_leasable s = (case s of GenerationState.Queued \<Rightarrow> True | _ \<Rightarrow> False)"

fun GenerationState_can_transition_to :: "GenerationState \<Rightarrow> GenerationState \<Rightarrow> bool" where
  "GenerationState_can_transition_to GenerationState.Queued to =
     (to \<in> {GenerationState.Running, GenerationState.Cancelled, GenerationState.Failed,
            GenerationState.Expired})"
| "GenerationState_can_transition_to GenerationState.Running to =
     (to \<in> {GenerationState.Queued, GenerationState.Cancelling, GenerationState.Succeeded,
            GenerationState.Failed, GenerationState.Cancelled, GenerationState.Expired})"
| "GenerationState_can_transition_to GenerationState.Cancelling to =
     (to \<in> {GenerationState.Cancelled, GenerationState.Succeeded, GenerationState.Failed})"
| "GenerationState_can_transition_to _ to = False"

definition GenerationState_transition ::
  "GenerationState \<Rightarrow> GenerationState \<Rightarrow> TransitionError + GenerationState" where
  "GenerationState_transition s to =
     (if GenerationState_can_transition_to s to then Ok to
      else Err (TransitionError (GenerationState_as_str s) (GenerationState_as_str to)))"

interpretation gen_life: lifecycle GenerationState_can_transition_to GenerationState_is_terminal
  GenerationState_as_str GenerationState_transition
proof
  show "GenerationState_is_terminal s \<longleftrightarrow> (\<forall>t. \<not> GenerationState_can_transition_to s t)" for s
    by (cases s) (auto simp: GenerationState_is_terminal_def)
  show "\<not> GenerationState_can_transition_to s s" for s
    by (cases s) auto
qed (simp_all add: GenerationState_transition_def)

section \<open>Attempt lifecycle\<close>

definition AttemptState_is_terminal :: "AttemptState \<Rightarrow> bool" where
  "AttemptState_is_terminal s =
     (case s of AttemptState.Succeeded \<Rightarrow> True | AttemptState.Failed \<Rightarrow> True
      | AttemptState.Cancelled \<Rightarrow> True | AttemptState.LeaseExpired \<Rightarrow> True | _ \<Rightarrow> False)"

definition AttemptState_is_live :: "AttemptState \<Rightarrow> bool" where
  "AttemptState_is_live s =
     (case s of AttemptState.Leased \<Rightarrow> True | AttemptState.Running \<Rightarrow> True | _ \<Rightarrow> False)"

fun AttemptState_can_transition_to :: "AttemptState \<Rightarrow> AttemptState \<Rightarrow> bool" where
  "AttemptState_can_transition_to AttemptState.Leased to =
     (to \<in> {AttemptState.Running, AttemptState.Succeeded, AttemptState.Failed,
            AttemptState.Cancelled, AttemptState.LeaseExpired})"
| "AttemptState_can_transition_to AttemptState.Running to =
     (to \<in> {AttemptState.Succeeded, AttemptState.Failed, AttemptState.Cancelled,
            AttemptState.LeaseExpired})"
| "AttemptState_can_transition_to _ to = False"

definition AttemptState_transition ::
  "AttemptState \<Rightarrow> AttemptState \<Rightarrow> TransitionError + AttemptState" where
  "AttemptState_transition s to =
     (if AttemptState_can_transition_to s to then Ok to
      else Err (TransitionError (AttemptState_as_str s) (AttemptState_as_str to)))"

interpretation att_life: lifecycle AttemptState_can_transition_to AttemptState_is_terminal
  AttemptState_as_str AttemptState_transition
proof
  show "AttemptState_is_terminal s \<longleftrightarrow> (\<forall>t. \<not> AttemptState_can_transition_to s t)" for s
    by (cases s) (auto simp: AttemptState_is_terminal_def)
  show "\<not> AttemptState_can_transition_to s s" for s
    by (cases s) auto
qed (simp_all add: AttemptState_transition_def)

lemma attempt_live_iff_nonterminal: "AttemptState_is_live s \<longleftrightarrow> \<not> AttemptState_is_terminal s"
  by (cases s) (simp_all add: AttemptState_is_live_def AttemptState_is_terminal_def)

section \<open>Artifact lifecycle\<close>

definition ArtifactState_is_terminal :: "ArtifactState \<Rightarrow> bool" where
  "ArtifactState_is_terminal s =
     (case s of ArtifactState.Consumed \<Rightarrow> True | ArtifactState.Expired \<Rightarrow> True
      | ArtifactState.Lost \<Rightarrow> True | _ \<Rightarrow> False)"

definition ArtifactState_is_downloadable :: "ArtifactState \<Rightarrow> bool" where
  "ArtifactState_is_downloadable s = (case s of ArtifactState.Available \<Rightarrow> True | _ \<Rightarrow> False)"

fun ArtifactState_can_transition_to :: "ArtifactState \<Rightarrow> ArtifactState \<Rightarrow> bool" where
  "ArtifactState_can_transition_to ArtifactState.Pending to =
     (to \<in> {ArtifactState.Available, ArtifactState.Expired, ArtifactState.Lost})"
| "ArtifactState_can_transition_to ArtifactState.Available to =
     (to \<in> {ArtifactState.Delivering, ArtifactState.Expired, ArtifactState.Lost})"
| "ArtifactState_can_transition_to ArtifactState.Delivering to =
     (to \<in> {ArtifactState.Consumed, ArtifactState.Expired, ArtifactState.Lost})"
| "ArtifactState_can_transition_to _ to = False"

definition ArtifactState_transition ::
  "ArtifactState \<Rightarrow> ArtifactState \<Rightarrow> TransitionError + ArtifactState" where
  "ArtifactState_transition s to =
     (if ArtifactState_can_transition_to s to then Ok to
      else Err (TransitionError (ArtifactState_as_str s) (ArtifactState_as_str to)))"

interpretation art_life: lifecycle ArtifactState_can_transition_to ArtifactState_is_terminal
  ArtifactState_as_str ArtifactState_transition
proof
  show "ArtifactState_is_terminal s \<longleftrightarrow> (\<forall>t. \<not> ArtifactState_can_transition_to s t)" for s
    by (cases s) (auto simp: ArtifactState_is_terminal_def)
  show "\<not> ArtifactState_can_transition_to s s" for s
    by (cases s) auto
qed (simp_all add: ArtifactState_transition_def)

section \<open>Failures and the retry policy\<close>

definition MAX_ATTEMPTS :: u32 where
  "MAX_ATTEMPTS = 3"

definition FailureKind_is_retryable :: "FailureKind \<Rightarrow> bool" where
  "FailureKind_is_retryable k =
     (case k of FailureKind.OutOfMemory \<Rightarrow> True | FailureKind.BackendCrashed \<Rightarrow> True
      | FailureKind.TransferFailed \<Rightarrow> True | FailureKind.WorkerLost \<Rightarrow> True
      | FailureKind.LeaseExpired \<Rightarrow> True | _ \<Rightarrow> False)"

definition invalidates_slot_capability :: "FailureKind \<Rightarrow> bool" where
  "invalidates_slot_capability k = (case k of FailureKind.OutOfMemory \<Rightarrow> True | _ \<Rightarrow> False)"

definition is_capability_failure :: "FailureKind \<Rightarrow> bool" where
  "is_capability_failure k =
     (case k of FailureKind.UnsupportedCapability \<Rightarrow> True | FailureKind.ModelUnavailable \<Rightarrow> True
      | FailureKind.OutOfMemory \<Rightarrow> True | _ \<Rightarrow> False)"

datatype RetryDecision = Requeue | Fail

definition retry_decision :: "FailureKind \<Rightarrow> u32 \<Rightarrow> bool \<Rightarrow> RetryDecision" where
  "retry_decision kind attempts_used eligible_candidates_remain =
     (if \<not> FailureKind_is_retryable kind then Fail
      else if attempts_used \<ge> MAX_ATTEMPTS then Fail
      else if invalidates_slot_capability kind \<and> \<not> eligible_candidates_remain then Fail
      else Requeue)"

lemma retry_decision_Requeue_iff:
  "retry_decision k n c = Requeue \<longleftrightarrow>
     FailureKind_is_retryable k \<and> n < MAX_ATTEMPTS \<and> (k = FailureKind.OutOfMemory \<longrightarrow> c)"
  by (cases k) (auto simp: retry_decision_def invalidates_slot_capability_def)

lemma unat_MAX_ATTEMPTS [simp]: "unat MAX_ATTEMPTS = 3"
  by (simp add: MAX_ATTEMPTS_def)

section \<open>Properties\<close>

text \<open>Parsing a stored state name inverts printing it, and any other text is rejected with
  the text itself, for the Generation, Attempt and Artifact states and the failure kinds.\<close>
theorem state_names_round_trip:
  "(GenerationState_from_str s = Ok g \<longleftrightarrow> s = GenerationState_as_str g) \<and>
   (AttemptState_from_str s = Ok a \<longleftrightarrow> s = AttemptState_as_str a) \<and>
   (ArtifactState_from_str s = Ok r \<longleftrightarrow> s = ArtifactState_as_str r) \<and>
   (FailureKind_from_str s = Ok k \<longleftrightarrow> s = FailureKind_as_str k) \<and>
   (GenerationState_from_str s = Err e \<longleftrightarrow>
      s \<notin> GenerationState_as_str ` set GenerationState_all \<and> e = UnknownState s)"
  by (simp add: gen_names.from_str_Ok_iff att_names.from_str_Ok_iff art_names.from_str_Ok_iff
      fail_names.from_str_Ok_iff gen_names.from_str_Err_iff)

text \<open>Terminal states are final in all three lifecycles: no sequence of legal transitions
  leaves one, and the transition functions reject every edge out of one.\<close>
theorem terminal_states_final:
  "(GenerationState_can_transition_to\<^sup>*\<^sup>* g g' \<longrightarrow> GenerationState_is_terminal g \<longrightarrow> g' = g) \<and>
   (AttemptState_can_transition_to\<^sup>*\<^sup>* a a' \<longrightarrow> AttemptState_is_terminal a \<longrightarrow> a' = a) \<and>
   (ArtifactState_can_transition_to\<^sup>*\<^sup>* r r' \<longrightarrow> ArtifactState_is_terminal r \<longrightarrow> r' = r) \<and>
   (GenerationState_is_terminal g \<longrightarrow> \<not> is_ok (GenerationState_transition g g')) \<and>
   (AttemptState_is_terminal a \<longrightarrow> \<not> is_ok (AttemptState_transition a a')) \<and>
   (ArtifactState_is_terminal r \<longrightarrow> \<not> is_ok (ArtifactState_transition r r'))"
  by (simp add: gen_life.terminal_final att_life.terminal_final art_life.terminal_final
      gen_life.terminal_transition att_life.terminal_transition art_life.terminal_transition)

theorem terminal_states_final_witness:
  "GenerationState_is_terminal GenerationState.Failed \<and>
   \<not> is_ok (GenerationState_transition GenerationState.Failed GenerationState.Queued)"
  using terminal_states_final [of GenerationState.Failed GenerationState.Queued]
  by (simp add: GenerationState_is_terminal_def)

text \<open>The retry policy: a failed Attempt is retried exactly when its cause is one of the
  five transient ones, fewer than three Attempts have been used and, after running out of
  memory, another capable Slot remains. A capability failure other than running out of memory
  is never retried.\<close>
theorem retry_policy:
  "(retry_decision k used candidates = Requeue \<longleftrightarrow>
      k \<in> {FailureKind.OutOfMemory, FailureKind.BackendCrashed, FailureKind.TransferFailed,
           FailureKind.WorkerLost, FailureKind.LeaseExpired} \<and>
      unat used < 3 \<and> (k \<noteq> FailureKind.OutOfMemory \<or> candidates)) \<and>
   (retry_decision k used candidates = Fail \<longleftrightarrow> retry_decision k used candidates \<noteq> Requeue) \<and>
   (is_capability_failure k \<and> FailureKind_is_retryable k \<longleftrightarrow> invalidates_slot_capability k)"
proof -
  have lt: "used < MAX_ATTEMPTS \<longleftrightarrow> unat used < 3"
    by (simp add: word_less_nat_alt)
  have "retry_decision k used candidates = Requeue \<longleftrightarrow>
      k \<in> {FailureKind.OutOfMemory, FailureKind.BackendCrashed, FailureKind.TransferFailed,
           FailureKind.WorkerLost, FailureKind.LeaseExpired} \<and>
      unat used < 3 \<and> (k \<noteq> FailureKind.OutOfMemory \<or> candidates)"
    unfolding retry_decision_Requeue_iff lt by (cases k) (simp_all add: FailureKind_is_retryable_def)
  moreover have "is_capability_failure k \<and> FailureKind_is_retryable k \<longleftrightarrow>
      invalidates_slot_capability k"
    by (cases k) (simp_all add: is_capability_failure_def FailureKind_is_retryable_def
        invalidates_slot_capability_def)
  moreover have "retry_decision k used candidates = Fail \<longleftrightarrow>
      retry_decision k used candidates \<noteq> Requeue"
    by (cases "retry_decision k used candidates") simp_all
  ultimately show ?thesis by (intro conjI)
qed

theorem retry_policy_witness:
  "retry_decision FailureKind.OutOfMemory 1 True = Requeue \<and>
   retry_decision FailureKind.OutOfMemory 1 False = Fail \<and>
   retry_decision FailureKind.WorkerLost 3 True = Fail"
  using retry_policy [of FailureKind.OutOfMemory 1 True]
    retry_policy [of FailureKind.OutOfMemory 1 False]
    retry_policy [of FailureKind.WorkerLost 3 True]
  by simp_all

end
