(* ===== verification/Domain_Hash.thy ===== *)
theory Domain_Hash
  imports Gpq_Prelude
begin

text \<open>
  Content hashes and typed identifiers: \<^verbatim>\<open>gpq-domain/src/hash.rs\<close> and
  \<^verbatim>\<open>gpq-domain/src/id.rs\<close>. The \<^verbatim>\<open>hex\<close> and \<^verbatim>\<open>sha2\<close> crates are parameters: \<^verbatim>\<open>hex_laws\<close> and
  \<^verbatim>\<open>sha256_laws\<close> state the documented behaviour the program relies on.
\<close>

section \<open>Identifiers\<close>

text \<open>
  Each \<^verbatim>\<open>typed_id!\<close> newtype wraps a UUID and derives its order from it, which is the
  order of the sixteen bytes, hence of the 128-bit number.
\<close>

type_synonym TenantId = uuid
type_synonym GenerationId = uuid
type_synonym AttemptId = uuid
type_synonym WorkerId = uuid
type_synonym DevicePoolId = uuid
type_synonym SlotId = uuid
type_synonym ArtifactId = uuid

section \<open>Content hashes\<close>

datatype ContentHash = ContentHash (as_bytes: "u8 list")

datatype ContentHashError = HashLength nat | HashEncoding

definition wf_hash :: "ContentHash \<Rightarrow> bool" where
  "wf_hash h \<longleftrightarrow> length (as_bytes h) = 32"

instantiation ContentHash :: linorder
begin

definition less_eq_ContentHash :: "ContentHash \<Rightarrow> ContentHash \<Rightarrow> bool" where
  "a \<le> b \<longleftrightarrow> as_bytes a \<le> as_bytes b"

definition less_ContentHash :: "ContentHash \<Rightarrow> ContentHash \<Rightarrow> bool" where
  "a < b \<longleftrightarrow> as_bytes a < as_bytes b"

instance
  by standard
    (auto simp: less_eq_ContentHash_def less_ContentHash_def intro: ContentHash.expand)

end

definition from_bytes :: "u8 list \<Rightarrow> ContentHash" where
  "from_bytes bytes = ContentHash bytes"

definition digest :: "(u8 list \<Rightarrow> u8 list) \<Rightarrow> u8 list \<Rightarrow> ContentHash" where
  "digest sha256 bytes = ContentHash (sha256 bytes)"

definition to_hex :: "(u8 list \<Rightarrow> string) \<Rightarrow> ContentHash \<Rightarrow> string" where
  "to_hex encode h = encode (as_bytes h)"

definition ContentHash_from_str ::
  "(string \<Rightarrow> u8 list option) \<Rightarrow> string \<Rightarrow> ContentHashError + ContentHash" where
  "ContentHash_from_str decode s =
     (if length s \<noteq> 64 then Err (HashLength (length s))
      else case decode s of None \<Rightarrow> Err HashEncoding | Some bytes \<Rightarrow> Ok (ContentHash bytes))"

section \<open>The incremental hasher\<close>

datatype 'c Hasher = Hasher 'c

definition Hasher_new :: "'c \<Rightarrow> 'c Hasher" where
  "Hasher_new sha_new = Hasher sha_new"

fun Hasher_update :: "('c \<Rightarrow> u8 list \<Rightarrow> 'c) \<Rightarrow> 'c Hasher \<Rightarrow> u8 list \<Rightarrow> 'c Hasher" where
  "Hasher_update sha_update (Hasher c) chunk = Hasher (sha_update c chunk)"

fun Hasher_finish :: "('c \<Rightarrow> u8 list) \<Rightarrow> 'c Hasher \<Rightarrow> ContentHash" where
  "Hasher_finish sha_finalize (Hasher c) = ContentHash (sha_finalize c)"

section \<open>What the crates promise\<close>

text \<open>
  \<^verbatim>\<open>hex::encode\<close> writes two characters per byte, \<^verbatim>\<open>hex::decode_to_slice\<close> accepts exactly
  the texts of twice the buffer length and inverts the encoding. SHA-256 digests have 32
  bytes, and feeding chunks one by one digests their concatenation.
\<close>

definition hex_laws :: "(u8 list \<Rightarrow> string) \<Rightarrow> (string \<Rightarrow> u8 list option) \<Rightarrow> bool" where
  "hex_laws encode decode \<longleftrightarrow>
     (\<forall>b. length (encode b) = 2 * length b) \<and>
     (\<forall>b. decode (encode b) = Some b) \<and>
     (\<forall>s b. decode s = Some b \<longrightarrow> length s = 2 * length b)"

definition sha256_laws ::
  "(u8 list \<Rightarrow> u8 list) \<Rightarrow> 'c \<Rightarrow> ('c \<Rightarrow> u8 list \<Rightarrow> 'c) \<Rightarrow> ('c \<Rightarrow> u8 list) \<Rightarrow> bool" where
  "sha256_laws sha256 sha_new sha_update sha_finalize \<longleftrightarrow>
     (\<forall>b. length (sha256 b) = 32) \<and>
     (\<forall>chunks. sha_finalize (foldl sha_update sha_new chunks) = sha256 (concat chunks))"

lemma from_str_to_hex:
  assumes "hex_laws encode decode" "wf_hash h"
  shows "ContentHash_from_str decode (to_hex encode h) = Ok h"
  using assms by (cases h) (simp add: ContentHash_from_str_def to_hex_def hex_laws_def wf_hash_def)

lemma from_str_wf:
  assumes "hex_laws encode decode" "ContentHash_from_str decode s = Ok h"
  shows "wf_hash h"
proof -
  from assms(2) have "length s = 64" "decode s = Some (as_bytes h)"
    by (auto simp: ContentHash_from_str_def split: if_splits option.splits)
  moreover have "length s = 2 * length (as_bytes h)"
    using conjunct2 [OF conjunct2 [OF assms(1) [unfolded hex_laws_def]]] calculation(2)
    by (elim allE impE)
  ultimately show ?thesis by (simp add: wf_hash_def)
qed

lemma to_hex_inj:
  assumes "hex_laws encode decode" "wf_hash a" "wf_hash b" "to_hex encode a = to_hex encode b"
  shows "a = b"
  using from_str_to_hex [OF assms(1,2)] from_str_to_hex [OF assms(1,3)] assms(4)
  by (metis sum.inject(2))

lemma hasher_fold:
  "foldl (Hasher_update upd) (Hasher c) chunks = Hasher (foldl upd c chunks)"
  by (induction chunks arbitrary: c) simp_all

lemma hasher_digest:
  assumes "sha256_laws sha256 sha_new sha_update sha_finalize"
  shows "Hasher_finish sha_finalize (foldl (Hasher_update sha_update) (Hasher_new sha_new) chunks) =
         digest sha256 (concat chunks)"
  using assms by (simp add: Hasher_new_def hasher_fold digest_def sha256_laws_def)

text \<open>SHA-256 of a whole text and its incremental interface.\<close>

record 'c sha_libs =
  sl_sha256 :: "u8 list \<Rightarrow> u8 list"
  sl_new :: 'c
  sl_update :: "'c \<Rightarrow> u8 list \<Rightarrow> 'c"
  sl_finalize :: "'c \<Rightarrow> u8 list"

definition sha_laws :: "'c sha_libs \<Rightarrow> bool" where
  "sha_laws H \<longleftrightarrow> sha256_laws (sl_sha256 H) (sl_new H) (sl_update H) (sl_finalize H)"

lemma sha_digest:
  assumes "sha_laws H"
  shows "Hasher_finish (sl_finalize H) (foldl (Hasher_update (sl_update H)) (Hasher_new (sl_new H)) chunks) =
    digest (sl_sha256 H) (concat chunks)"
  by (rule hasher_digest [OF assms [unfolded sha_laws_def]])

section \<open>A reference codec\<close>

text \<open>Lowercase base-16, as the crate documents it; it shows that \<^verbatim>\<open>hex_laws\<close> can hold.\<close>

definition ref_digit :: "nat \<Rightarrow> char" where
  "ref_digit n = (if n < 10 then char_of (48 + n) else char_of (87 + n))"

definition ref_value :: "char \<Rightarrow> nat option" where
  "ref_value c =
     (let n = byte_val c in
      if 48 \<le> n \<and> n \<le> 57 then Some (n - 48)
      else if 97 \<le> n \<and> n \<le> 102 then Some (n - 87)
      else if 65 \<le> n \<and> n \<le> 70 then Some (n - 55)
      else None)"

definition ref_encode :: "u8 list \<Rightarrow> string" where
  "ref_encode bytes =
     concat (map (\<lambda>b. [ref_digit (unat b div 16), ref_digit (unat b mod 16)]) bytes)"

fun ref_decode :: "string \<Rightarrow> u8 list option" where
  "ref_decode [] = Some []"
| "ref_decode [c] = None"
| "ref_decode (a # b # cs) =
     (case (ref_value a, ref_value b, ref_decode cs) of
        (Some x, Some y, Some bytes) \<Rightarrow> Some (of_nat (16 * x + y) # bytes)
      | _ \<Rightarrow> None)"

lemma ref_value_digit: "n < 16 \<Longrightarrow> ref_value (ref_digit n) = Some n"
  by (auto simp: ref_value_def ref_digit_def Let_def of_char_of)

lemma ref_decode_encode: "ref_decode (ref_encode bytes) = Some bytes"
proof (induction bytes)
  case Nil
  then show ?case by (simp add: ref_encode_def)
next
  case (Cons b bytes)
  have "unat b < 256" using unsigned_less [of b] by simp
  then have "ref_value (ref_digit (unat b div 16)) = Some (unat b div 16)"
    "ref_value (ref_digit (unat b mod 16)) = Some (unat b mod 16)"
    by (intro ref_value_digit; simp)+
  moreover have "(of_nat (16 * (unat b div 16) + unat b mod 16) :: u8) = b"
    by (simp only: mult_div_mod_eq of_nat_unat ucast_id)
  ultimately show ?case using Cons by (simp add: ref_encode_def del: of_nat_add of_nat_mult)
qed

lemma ref_decode_length: "ref_decode s = Some bytes \<Longrightarrow> length s = 2 * length bytes"
  by (induction s arbitrary: bytes rule: ref_decode.induct) (auto split: option.splits)

lemma ref_encode_length: "length (ref_encode bytes) = 2 * length bytes"
  by (induction bytes) (simp_all add: ref_encode_def)

lemma ref_hex_laws: "hex_laws ref_encode ref_decode"
  unfolding hex_laws_def using ref_decode_encode ref_decode_length ref_encode_length by blast

section \<open>Properties\<close>

text \<open>The textual form of a content hash round-trips and identifies the hash: parsing the
  hex of a hash gives the hash back, two hashes with the same hex are equal, whatever parses
  has 32 bytes, and a text whose length is not 64 is rejected with its length.\<close>
theorem content_hash_round_trip:
  assumes "hex_laws encode decode" "wf_hash h" "wf_hash h'"
  shows "ContentHash_from_str decode (to_hex encode h) = Ok h \<and>
         (to_hex encode h = to_hex encode h' \<longleftrightarrow> h = h') \<and>
         (\<forall>s g. ContentHash_from_str decode s = Ok g \<longrightarrow> wf_hash g \<and> length s = 64) \<and>
         (\<forall>s. length s \<noteq> 64 \<longrightarrow> ContentHash_from_str decode s = Err (HashLength (length s)))"
proof (intro conjI allI impI)
  show "ContentHash_from_str decode (to_hex encode h) = Ok h"
    by (rule from_str_to_hex [OF assms(1,2)])
  show "to_hex encode h = to_hex encode h' \<longleftrightarrow> h = h'"
    using to_hex_inj [OF assms] by blast
  fix s g
  assume "ContentHash_from_str decode s = Ok g"
  then show "wf_hash g" "length s = 64"
    using from_str_wf [OF assms(1)]
    by (auto simp: ContentHash_from_str_def split: if_splits)
qed (simp add: ContentHash_from_str_def)

theorem content_hash_round_trip_witness:
  "ContentHash_from_str ref_decode (to_hex ref_encode (ContentHash (replicate 32 171))) =
     Ok (ContentHash (replicate 32 171))"
  using content_hash_round_trip
    [OF ref_hex_laws, of "ContentHash (replicate 32 171)" "ContentHash (replicate 32 171)"]
  by (simp add: wf_hash_def)

end
