(* ===== verification/Domain_Model.thy ===== *)
theory Domain_Model
  imports Domain_State Domain_Hash
begin

text \<open>
  The value types of \<^verbatim>\<open>gpq-domain\<close>: modality (\<^verbatim>\<open>modality.rs\<close>), model manifests and the
  sampling preset with its resolution (\<^verbatim>\<open>version.rs\<close>), generation parameters and their
  validation (\<^verbatim>\<open>generation.rs\<close>), tenant settings (\<^verbatim>\<open>tenant.rs\<close>), leases (\<^verbatim>\<open>lease.rs\<close>) and
  artifact manifests (\<^verbatim>\<open>artifact.rs\<close>). Each validator returns the first error in the
  source's order.
\<close>

section \<open>Modality\<close>

datatype Modality =
    Image
  | Video

fun Modality_as_str :: "Modality \<Rightarrow> string" where
  "Modality_as_str Modality.Image = ''image''"
| "Modality_as_str Modality.Video = ''video''"

definition Modality_all :: "Modality list" where
  "Modality_all =
     [Modality.Image,
      Modality.Video]"

definition Modality_from_str :: "string \<Rightarrow> UnknownState + Modality" where
  "Modality_from_str s =
     (if s = ''image'' then Ok Modality.Image
      else if s = ''video'' then Ok Modality.Video
      else Err (UnknownState s))"

interpretation mod_names: stable_names Modality_as_str Modality_from_str Modality_all
proof
  show "Modality_from_str (Modality_as_str v) = Ok v" for v
    by (cases v) (simp_all add: Modality_from_str_def)
  show "Modality_from_str s = Ok v \<Longrightarrow> Modality_as_str v = s" for s v
    by (auto simp: Modality_from_str_def split: if_splits)
  show "Modality_from_str s = Err e \<Longrightarrow> e = UnknownState s" for s e
    by (auto simp: Modality_from_str_def split: if_splits)
  show "v \<in> set Modality_all" for v
    by (cases v) (simp_all add: Modality_all_def)
  show "distinct Modality_all"
    by (simp add: Modality_all_def)
qed

definition default_execution_timeout :: "Modality \<Rightarrow> duration" where
  "default_execution_timeout m =
     (case m of Modality.Image \<Rightarrow> from_hours 2 | Modality.Video \<Rightarrow> from_hours 24)"

section \<open>Model families and sampling presets\<close>

record ExecutionLimits =
  execution_timeout :: "duration option"
  estimated_memory_bytes :: "u64 option"

datatype ModelFamily = QwenImage21 | MinimaxH3

definition ModelFamily_modality :: "ModelFamily \<Rightarrow> Modality" where
  "ModelFamily_modality f =
     (case f of QwenImage21 \<Rightarrow> Modality.Image | MinimaxH3 \<Rightarrow> Modality.Video)"

record SamplingPreset =
  sp_steps :: u32
  sp_cfg_scale :: f32
  sp_sigmas :: "f32 list"

definition default_sampling_preset :: "ModelFamily \<Rightarrow> SamplingPreset" where
  "default_sampling_preset f =
     (case f of
        QwenImage21 \<Rightarrow> \<lparr>sp_steps = 40, sp_cfg_scale = 0x40C00000, sp_sigmas = []\<rparr>
      | MinimaxH3 \<Rightarrow>
          \<lparr>sp_steps = 4, sp_cfg_scale = 0x3F800000,
           sp_sigmas = [0x3F800000, 0x3F772C1F, 0x3F638E3B, 0x3F2DE300, 0]\<rparr>)"

datatype ModelAssetRole = Diffusion | TextEncoder | VisionEncoder | Vae | AudioVae

record LoraSelection =
  lora_sha256 :: ContentHash
  lora_scale :: f32

record ResolvedSampling =
  rs_steps :: u32
  rs_cfg_scale :: f32
  rs_sigmas :: "f32 list"

datatype SamplingError =
    InvalidSteps
  | NonFiniteCfgScale
  | NonFiniteSigma
  | InvalidSigmaSchedule
  | SigmaStepCountOverflow
  | StepsMismatch

definition sigma_step_count :: "f32 list \<Rightarrow> SamplingError + u32 option" where
  "sigma_step_count sigmas =
     (if \<exists>sigma \<in> set sigmas. \<not> is_finite sigma then Err SamplingError.NonFiniteSigma
      else if sigmas = [] then Ok None
      else if length sigmas < 2 then Err SamplingError.InvalidSigmaSchedule
      else if length sigmas - 1 < 2 ^ 32 then Ok (Some (of_nat (length sigmas - 1)))
      else Err SamplingError.SigmaStepCountOverflow)"

definition SamplingPreset_validate :: "SamplingPreset \<Rightarrow> SamplingError + unit" where
  "SamplingPreset_validate p =
     (if sp_steps p = 0 then Err SamplingError.InvalidSteps
      else if \<not> is_finite (sp_cfg_scale p) then Err SamplingError.NonFiniteCfgScale
      else rbind (sigma_step_count (sp_sigmas p)) (\<lambda>n.
        case n of
          Some steps \<Rightarrow> if steps \<noteq> sp_steps p then Err SamplingError.StepsMismatch else Ok ()
        | None \<Rightarrow> Ok ()))"

definition SamplingPreset_resolve ::
  "SamplingPreset \<Rightarrow> u32 option \<Rightarrow> f32 option \<Rightarrow> f32 list option \<Rightarrow> SamplingError + ResolvedSampling"
where
  "SamplingPreset_resolve p steps cfg_scale sigmas =
     rbind (SamplingPreset_validate p) (\<lambda>_.
       if steps = Some 0 then Err SamplingError.InvalidSteps
       else if (case cfg_scale of Some scale \<Rightarrow> \<not> is_finite scale | None \<Rightarrow> False)
       then Err SamplingError.NonFiniteCfgScale
       else
         let selected = (case sigmas of Some schedule \<Rightarrow> if schedule \<noteq> [] then schedule else sp_sigmas p
                                      | None \<Rightarrow> sp_sigmas p)
         in rbind (sigma_step_count selected) (\<lambda>scheduled.
           rbind (case scheduled of
                    Some scheduled_steps \<Rightarrow>
                      if (case steps of Some requested \<Rightarrow> requested \<noteq> scheduled_steps | None \<Rightarrow> False)
                      then Err SamplingError.StepsMismatch
                      else Ok scheduled_steps
                  | None \<Rightarrow> Ok (case steps of Some n \<Rightarrow> n | None \<Rightarrow> sp_steps p))
             (\<lambda>n. Ok \<lparr>rs_steps = n,
                      rs_cfg_scale = (case cfg_scale of Some c \<Rightarrow> c | None \<Rightarrow> sp_cfg_scale p),
                      rs_sigmas = selected\<rparr>)))"

section \<open>Model manifests\<close>

record ModelManifest =
  mm_family :: ModelFamily
  mm_assets :: "ModelAssetRole \<rightharpoonup> ContentHash"
  mm_default_loras :: "LoraSelection list"
  mm_sampling :: SamplingPreset

datatype ModelManifestError =
    MissingAsset ModelAssetRole
  | InvalidSamplingSteps
  | NonFiniteSamplingScale
  | NonFiniteSigma
  | NonFiniteLoraScale
  | InvalidSigmaSchedule
  | SigmaStepCountOverflow
  | SamplingStepsMismatch

fun manifest_error_of_sampling :: "SamplingError \<Rightarrow> ModelManifestError" where
  "manifest_error_of_sampling SamplingError.InvalidSteps = InvalidSamplingSteps"
| "manifest_error_of_sampling SamplingError.NonFiniteCfgScale = NonFiniteSamplingScale"
| "manifest_error_of_sampling SamplingError.NonFiniteSigma = ModelManifestError.NonFiniteSigma"
| "manifest_error_of_sampling SamplingError.InvalidSigmaSchedule =
     ModelManifestError.InvalidSigmaSchedule"
| "manifest_error_of_sampling SamplingError.SigmaStepCountOverflow =
     ModelManifestError.SigmaStepCountOverflow"
| "manifest_error_of_sampling SamplingError.StepsMismatch =
     ModelManifestError.SamplingStepsMismatch"

definition ModelManifest_modality :: "ModelManifest \<Rightarrow> Modality" where
  "ModelManifest_modality m = ModelFamily_modality (mm_family m)"

definition required_assets :: "ModelFamily \<Rightarrow> ModelAssetRole list" where
  "required_assets f =
     (case f of
        QwenImage21 \<Rightarrow> [Diffusion, TextEncoder, VisionEncoder, Vae]
      | MinimaxH3 \<Rightarrow> [Diffusion, TextEncoder, Vae, AudioVae])"

fun check_assets ::
  "(ModelAssetRole \<rightharpoonup> ContentHash) \<Rightarrow> ModelAssetRole list \<Rightarrow> ModelManifestError + unit" where
  "check_assets assets [] = Ok ()"
| "check_assets assets (role # roles) =
     (if assets role = None then Err (MissingAsset role) else check_assets assets roles)"

definition ModelManifest_validate :: "ModelManifest \<Rightarrow> ModelManifestError + unit" where
  "ModelManifest_validate m =
     rbind (check_assets (mm_assets m) (required_assets (mm_family m))) (\<lambda>_.
     rbind (map_err manifest_error_of_sampling (SamplingPreset_validate (mm_sampling m))) (\<lambda>_.
       if \<exists>lora \<in> set (mm_default_loras m). \<not> is_finite (lora_scale lora)
       then Err ModelManifestError.NonFiniteLoraScale
       else Ok ()))"

text \<open>
  \<^verbatim>\<open>serde_json::to_vec\<close> is a parameter that yields the bytes or fails; \<^verbatim>\<open>sha256\<close> is the
  digest function.
\<close>

definition canonical_hash ::
  "(ModelManifest \<Rightarrow> u8 list option) \<Rightarrow> (u8 list \<Rightarrow> u8 list) \<Rightarrow> ModelManifest \<Rightarrow> ContentHash option"
where
  "canonical_hash to_vec sha256 m = map_option (digest sha256) (to_vec m)"

definition resolve_execution_timeout ::
  "Modality \<Rightarrow> ExecutionLimits \<Rightarrow> duration option \<Rightarrow> duration \<Rightarrow> duration" where
  "resolve_execution_timeout modality version requested tenant_ceiling =
     (let base = (case execution_timeout version of
                    Some t \<Rightarrow> t | None \<Rightarrow> default_execution_timeout modality);
          shortened = (case requested of None \<Rightarrow> base | Some r \<Rightarrow> min r base)
      in min shortened tenant_ceiling)"

section \<open>Priority and seed\<close>

datatype Priority = Priority (Priority_get: u8)

datatype PriorityOutOfRange = PriorityOutOfRange u16

definition Priority_MIN :: Priority where "Priority_MIN = Priority 0"
definition Priority_MAX :: Priority where "Priority_MAX = Priority 9"
definition Priority_DEFAULT :: Priority where "Priority_DEFAULT = Priority 5"

definition Priority_new :: "u8 \<Rightarrow> PriorityOutOfRange + Priority" where
  "Priority_new v =
     (if v \<le> Priority_get Priority_MAX then Ok (Priority v)
      else Err (PriorityOutOfRange (ucast v)))"

text \<open>The conversion from \<^verbatim>\<open>i32\<close>, over the integer the value denotes.\<close>

definition Priority_try_from_i32 :: "int \<Rightarrow> PriorityOutOfRange + Priority" where
  "Priority_try_from_i32 v =
     (if 0 \<le> v \<and> v < 2 ^ 8 then Priority_new (of_int v)
      else Err (PriorityOutOfRange (if \<bar>v\<bar> < 2 ^ 16 then of_int \<bar>v\<bar> else - 1)))"

definition wf_priority :: "Priority \<Rightarrow> bool" where
  "wf_priority p \<longleftrightarrow> Priority_get p \<le> 9"

definition MAX_PROMPT_BYTES :: nat where "MAX_PROMPT_BYTES = 16 * 1024"
definition MAX_IMAGE_REFERENCES :: nat where "MAX_IMAGE_REFERENCES = 10"
definition MAX_NATIVE_SEED :: u64 where "MAX_NATIVE_SEED = 2 ^ 63 - 1"
definition MAX_VP8_DIMENSION :: u32 where "MAX_VP8_DIMENSION = 16383"

datatype SeedOutOfRange = SeedOutOfRange u64

definition validate_seed :: "u64 \<Rightarrow> SeedOutOfRange + i64" where
  "validate_seed seed = (if unat seed < 2 ^ 63 then Ok seed else Err (SeedOutOfRange seed))"

section \<open>Generation parameters\<close>

datatype ParameterValidationError =
    EmptyPrompt
  | PromptTooLong
  | InvalidDimensions
  | InvalidSteps
  | NonFiniteCfgScale
  | TooManyReferences
  | NonFiniteLoraScale
  | InvalidSigmas
  | SamplingStepsMismatch
  | InvalidVideoFrames
  | VideoDimensionLimit
  | LastFrameRequiresFirst
  | FamilyModalityMismatch

fun parameter_error_of_sampling :: "SamplingError \<Rightarrow> ParameterValidationError" where
  "parameter_error_of_sampling SamplingError.InvalidSteps = ParameterValidationError.InvalidSteps"
| "parameter_error_of_sampling SamplingError.NonFiniteCfgScale =
     ParameterValidationError.NonFiniteCfgScale"
| "parameter_error_of_sampling SamplingError.NonFiniteSigma = InvalidSigmas"
| "parameter_error_of_sampling SamplingError.InvalidSigmaSchedule = InvalidSigmas"
| "parameter_error_of_sampling SamplingError.SigmaStepCountOverflow = InvalidSigmas"
| "parameter_error_of_sampling SamplingError.StepsMismatch =
     ParameterValidationError.SamplingStepsMismatch"

definition validate_prompt :: "string \<Rightarrow> bool \<Rightarrow> ParameterValidationError + unit" where
  "validate_prompt prompt may_be_empty =
     (if length prompt > MAX_PROMPT_BYTES then Err PromptTooLong
      else if \<not> may_be_empty \<and> trim prompt = [] then Err EmptyPrompt
      else Ok ())"

definition validate_dimensions :: "u32 \<Rightarrow> u32 \<Rightarrow> ParameterValidationError + unit" where
  "validate_dimensions width height =
     (if width = 0 \<or> height = 0 \<or> \<not> is_multiple_of width 32 \<or> \<not> is_multiple_of height 32
      then Err InvalidDimensions
      else Ok ())"

record ImageParameters =
  img_prompt :: string
  img_negative_prompt :: string
  img_width :: u32
  img_height :: u32
  img_steps :: "u32 option"
  img_cfg_scale :: "f32 option"
  img_references :: "ArtifactId list"
  img_loras :: "LoraSelection list"
  img_sigmas :: "f32 list option"

definition ImageParameters_validate :: "ImageParameters \<Rightarrow> ParameterValidationError + unit" where
  "ImageParameters_validate p =
     rbind (validate_prompt (img_prompt p) False) (\<lambda>_.
     rbind (validate_prompt (img_negative_prompt p) True) (\<lambda>_.
     rbind (validate_dimensions (img_width p) (img_height p)) (\<lambda>_.
       if img_steps p = Some 0 then Err ParameterValidationError.InvalidSteps
       else if (case img_cfg_scale p of Some scale \<Rightarrow> \<not> is_finite scale | None \<Rightarrow> False)
       then Err ParameterValidationError.NonFiniteCfgScale
       else if length (img_references p) > MAX_IMAGE_REFERENCES then Err TooManyReferences
       else if \<exists>lora \<in> set (img_loras p). \<not> is_finite (lora_scale lora)
       then Err ParameterValidationError.NonFiniteLoraScale
       else if (case img_sigmas p of Some sigmas \<Rightarrow> \<not> is_ok (sigma_step_count sigmas) | None \<Rightarrow> False)
       then Err InvalidSigmas
       else Ok ())))"

record VideoParameters =
  vid_prompt :: string
  vid_negative_prompt :: string
  vid_width :: u32
  vid_height :: u32
  vid_frames :: u32
  vid_first_frame :: "ArtifactId option"
  vid_last_frame :: "ArtifactId option"

definition VideoParameters_validate :: "VideoParameters \<Rightarrow> ParameterValidationError + unit" where
  "VideoParameters_validate p =
     rbind (validate_prompt (vid_prompt p) False) (\<lambda>_.
     rbind (validate_prompt (vid_negative_prompt p) True) (\<lambda>_.
     rbind (validate_dimensions (vid_width p) (vid_height p)) (\<lambda>_.
       if vid_width p > MAX_VP8_DIMENSION \<or> vid_height p > MAX_VP8_DIMENSION
       then Err VideoDimensionLimit
       else if vid_frames p < 5 \<or> \<not> is_multiple_of (vid_frames p - 5) 17
       then Err InvalidVideoFrames
       else if vid_last_frame p \<noteq> None \<and> vid_first_frame p = None
       then Err LastFrameRequiresFirst
       else Ok ())))"

datatype GenerationParameters = Image ImageParameters | Video VideoParameters

fun validate_for_family ::
  "GenerationParameters \<Rightarrow> ModelFamily \<Rightarrow> ParameterValidationError + unit" where
  "validate_for_family (GenerationParameters.Image img) QwenImage21 = ImageParameters_validate img"
| "validate_for_family (GenerationParameters.Video video) MinimaxH3 = VideoParameters_validate video"
| "validate_for_family _ _ = Err FamilyModalityMismatch"

fun GenerationParameters_modality :: "GenerationParameters \<Rightarrow> Modality" where
  "GenerationParameters_modality (GenerationParameters.Image _) = Modality.Image"
| "GenerationParameters_modality (GenerationParameters.Video _) = Modality.Video"

fun staging_artifact_ids :: "GenerationParameters \<Rightarrow> ArtifactId list" where
  "staging_artifact_ids (GenerationParameters.Video video) =
     (let ids = (case vid_first_frame video of Some first \<Rightarrow> [first] | None \<Rightarrow> [])
      in case vid_last_frame video of
           Some lst \<Rightarrow> if lst \<notin> set ids then ids @ [lst] else ids
         | None \<Rightarrow> ids)"
| "staging_artifact_ids (GenerationParameters.Image img) = push_distinct [] (img_references img)"

record ExecutionTarget =
  et_version :: ContentHash
  et_modality :: Modality

definition ExecutionTarget_for_model :: "ContentHash \<Rightarrow> ModelFamily \<Rightarrow> ExecutionTarget" where
  "ExecutionTarget_for_model version family =
     \<lparr>et_version = version, et_modality = ModelFamily_modality family\<rparr>"

section \<open>Tenant settings and leases\<close>

record TenantSettings =
  maximum_queue_age :: duration
  max_queued_generations :: u32
  max_input_artifact_bytes :: u64
  max_output_artifact_bytes :: u64
  execution_timeout_ceiling :: duration
  default_priority :: Priority

definition DEFAULT_MAXIMUM_QUEUE_AGE :: duration where
  "DEFAULT_MAXIMUM_QUEUE_AGE = from_mins 30"

definition TenantSettings_default :: TenantSettings where
  "TenantSettings_default =
     \<lparr>maximum_queue_age = DEFAULT_MAXIMUM_QUEUE_AGE,
      max_queued_generations = 1000,
      max_input_artifact_bytes = 256 * 1024 * 1024,
      max_output_artifact_bytes = 2 * 1024 * 1024 * 1024,
      execution_timeout_ceiling = from_hours 24,
      default_priority = Priority_DEFAULT\<rparr>"

definition is_overdue :: "TenantSettings \<Rightarrow> duration \<Rightarrow> bool" where
  "is_overdue settings age \<longleftrightarrow> age \<ge> maximum_queue_age settings"

definition HEARTBEAT_INTERVAL :: duration where "HEARTBEAT_INTERVAL = from_secs 10"
definition LEASE_TTL :: duration where "LEASE_TTL = from_secs 45"

definition lease_expiry_from :: "datetime \<Rightarrow> datetime" where
  "lease_expiry_from now = now + int LEASE_TTL"

section \<open>Artifact manifests\<close>

definition TRANSFER_CHUNK_BYTES :: u64 where "TRANSFER_CHUNK_BYTES = 1024 * 1024"
definition OUTPUT_ARTIFACT_TTL :: duration where "OUTPUT_ARTIFACT_TTL = from_hours 1"

datatype MediaKind =
    Image
  | Video
  | Audio
  | Text
  | Binary

fun MediaKind_as_str :: "MediaKind \<Rightarrow> string" where
  "MediaKind_as_str MediaKind.Image = ''image''"
| "MediaKind_as_str MediaKind.Video = ''video''"
| "MediaKind_as_str MediaKind.Audio = ''audio''"
| "MediaKind_as_str MediaKind.Text = ''text''"
| "MediaKind_as_str MediaKind.Binary = ''binary''"

definition MediaKind_all :: "MediaKind list" where
  "MediaKind_all =
     [MediaKind.Image,
      MediaKind.Video,
      MediaKind.Audio,
      MediaKind.Text,
      MediaKind.Binary]"

definition MediaKind_from_str :: "string \<Rightarrow> UnknownState + MediaKind" where
  "MediaKind_from_str s =
     (if s = ''image'' then Ok MediaKind.Image
      else if s = ''video'' then Ok MediaKind.Video
      else if s = ''audio'' then Ok MediaKind.Audio
      else if s = ''text'' then Ok MediaKind.Text
      else if s = ''binary'' then Ok MediaKind.Binary
      else Err (UnknownState s))"

interpretation kind_names: stable_names MediaKind_as_str MediaKind_from_str MediaKind_all
proof
  show "MediaKind_from_str (MediaKind_as_str v) = Ok v" for v
    by (cases v) (simp_all add: MediaKind_from_str_def)
  show "MediaKind_from_str s = Ok v \<Longrightarrow> MediaKind_as_str v = s" for s v
    by (auto simp: MediaKind_from_str_def split: if_splits)
  show "MediaKind_from_str s = Err e \<Longrightarrow> e = UnknownState s" for s e
    by (auto simp: MediaKind_from_str_def split: if_splits)
  show "v \<in> set MediaKind_all" for v
    by (cases v) (simp_all add: MediaKind_all_def)
  show "distinct MediaKind_all"
    by (simp add: MediaKind_all_def)
qed

definition MediaKind_from_mime :: "string \<Rightarrow> MediaKind" where
  "MediaKind_from_mime mime =
     (let essence = trim (split_first (CHR '';'') mime) in
      if starts_with essence ''image/'' then MediaKind.Image
      else if starts_with essence ''video/'' then MediaKind.Video
      else if starts_with essence ''audio/'' then MediaKind.Audio
      else if starts_with essence ''text/'' then MediaKind.Text
      else MediaKind.Binary)"

datatype ArtifactPlacement =
    ObjectStore
  | WorkerLocal
  | RemoteLocal

fun ArtifactPlacement_as_str :: "ArtifactPlacement \<Rightarrow> string" where
  "ArtifactPlacement_as_str ArtifactPlacement.ObjectStore = ''object_store''"
| "ArtifactPlacement_as_str ArtifactPlacement.WorkerLocal = ''worker_local''"
| "ArtifactPlacement_as_str ArtifactPlacement.RemoteLocal = ''remote_local''"

definition ArtifactPlacement_all :: "ArtifactPlacement list" where
  "ArtifactPlacement_all =
     [ArtifactPlacement.ObjectStore,
      ArtifactPlacement.WorkerLocal,
      ArtifactPlacement.RemoteLocal]"

definition ArtifactPlacement_from_str :: "string \<Rightarrow> UnknownState + ArtifactPlacement" where
  "ArtifactPlacement_from_str s =
     (if s = ''object_store'' then Ok ArtifactPlacement.ObjectStore
      else if s = ''worker_local'' then Ok ArtifactPlacement.WorkerLocal
      else if s = ''remote_local'' then Ok ArtifactPlacement.RemoteLocal
      else Err (UnknownState s))"

interpretation place_names: stable_names ArtifactPlacement_as_str ArtifactPlacement_from_str ArtifactPlacement_all
proof
  show "ArtifactPlacement_from_str (ArtifactPlacement_as_str v) = Ok v" for v
    by (cases v) (simp_all add: ArtifactPlacement_from_str_def)
  show "ArtifactPlacement_from_str s = Ok v \<Longrightarrow> ArtifactPlacement_as_str v = s" for s v
    by (auto simp: ArtifactPlacement_from_str_def split: if_splits)
  show "ArtifactPlacement_from_str s = Err e \<Longrightarrow> e = UnknownState s" for s e
    by (auto simp: ArtifactPlacement_from_str_def split: if_splits)
  show "v \<in> set ArtifactPlacement_all" for v
    by (cases v) (simp_all add: ArtifactPlacement_all_def)
  show "distinct ArtifactPlacement_all"
    by (simp add: ArtifactPlacement_all_def)
qed

definition requires_object_store :: "ArtifactPlacement \<Rightarrow> bool" where
  "requires_object_store p = (case p of ArtifactPlacement.ObjectStore \<Rightarrow> True | _ \<Rightarrow> False)"

record ArtifactManifest =
  am_size_bytes :: u64
  am_digest :: ContentHash
  am_kind :: MediaKind
  am_mime_type :: string

datatype ManifestMismatch =
    MismatchSize (declared_size: u64) (received_size: u64)
  | MismatchDigest (declared_digest: ContentHash) (received_digest: ContentHash)

definition ArtifactManifest_verify ::
  "ArtifactManifest \<Rightarrow> u64 \<Rightarrow> ContentHash \<Rightarrow> ManifestMismatch + unit" where
  "ArtifactManifest_verify m received_bytes dig =
     (if received_bytes \<noteq> am_size_bytes m then Err (MismatchSize (am_size_bytes m) received_bytes)
      else if dig \<noteq> am_digest m then Err (MismatchDigest (am_digest m) dig)
      else Ok ())"

definition chunk_count :: "ArtifactManifest \<Rightarrow> u64" where
  "chunk_count m = div_ceil (am_size_bytes m) TRANSFER_CHUNK_BYTES"

definition fits_within :: "ArtifactManifest \<Rightarrow> u64 \<Rightarrow> bool" where
  "fits_within m limit_bytes \<longleftrightarrow> am_size_bytes m \<le> limit_bytes"

section \<open>Sampling resolution\<close>

definition schedule_of :: "SamplingPreset \<Rightarrow> f32 list option \<Rightarrow> f32 list" where
  "schedule_of p sigmas = (if sigmas = None \<or> sigmas = Some [] then sp_sigmas p else the sigmas)"

definition valid_schedule :: "f32 list \<Rightarrow> bool" where
  "valid_schedule sigmas \<longleftrightarrow>
     (\<forall>sigma \<in> set sigmas. is_finite sigma) \<and> length sigmas \<noteq> 1 \<and> length sigmas \<le> 2 ^ 32"

lemma sigma_step_count_is_ok: "is_ok (sigma_step_count sigmas) \<longleftrightarrow> valid_schedule sigmas"
  by (cases sigmas) (auto simp: sigma_step_count_def valid_schedule_def)

lemma sigma_step_count_Ok_iff:
  "sigma_step_count sigmas = Ok n \<longleftrightarrow>
     valid_schedule sigmas \<and>
     n = (if sigmas = [] then None else Some (of_nat (length sigmas - 1)))"
  by (cases sigmas) (auto simp: sigma_step_count_def valid_schedule_def)

lemma sigma_step_count_unat:
  assumes "sigma_step_count sigmas = Ok (Some n)"
  shows "length sigmas = unat n + 1 \<and> 0 < n"
proof -
  from assms have v: "valid_schedule sigmas" "sigmas \<noteq> []" "n = of_nat (length sigmas - 1)"
    by (auto simp: sigma_step_count_Ok_iff split: if_splits)
  then have lt: "length sigmas - 1 < 2 ^ 32" and pos: "length sigmas > 1"
    by (auto simp: valid_schedule_def) (cases sigmas; simp)+
  then have "unat n = length sigmas - 1" unfolding v(3) using lt by (intro unat_of_nat_small) simp
  with pos show ?thesis by (simp add: word_less_nat_alt)
qed

definition valid_preset :: "SamplingPreset \<Rightarrow> bool" where
  "valid_preset p \<longleftrightarrow>
     0 < sp_steps p \<and> is_finite (sp_cfg_scale p) \<and> valid_schedule (sp_sigmas p) \<and>
     (sp_sigmas p \<noteq> [] \<longrightarrow> length (sp_sigmas p) = unat (sp_steps p) + 1)"

lemma SamplingPreset_validate_iff: "SamplingPreset_validate p = Ok () \<longleftrightarrow> valid_preset p"
proof (cases "sigma_step_count (sp_sigmas p)")
  case (Inl e)
  then have "\<not> valid_schedule (sp_sigmas p)"
    using sigma_step_count_is_ok [of "sp_sigmas p"] by simp
  with Inl show ?thesis by (simp add: SamplingPreset_validate_def valid_preset_def)
next
  case (Inr n)
  then have v: "valid_schedule (sp_sigmas p)" using sigma_step_count_Ok_iff by blast
  show ?thesis
  proof (cases n)
    case None
    with Inr have "sp_sigmas p = []"
      by (simp add: sigma_step_count_Ok_iff split: if_splits)
    with Inr None v show ?thesis
      by (auto simp: SamplingPreset_validate_def valid_preset_def word_neq_0_conv)
  next
    case (Some m)
    with Inr have "length (sp_sigmas p) = unat m + 1" "sp_sigmas p \<noteq> []"
      using sigma_step_count_unat by fastforce+
    moreover have "m = sp_steps p \<longleftrightarrow> unat m = unat (sp_steps p)"
      by (simp add: word_unat_eq_iff)
    ultimately show ?thesis using Inr Some v
      by (auto simp: SamplingPreset_validate_def valid_preset_def word_neq_0_conv)
  qed
qed

text \<open>
  The request overrides that a preset accepts, and the step count they resolve to: the
  length of the selected schedule when there is one, else the request's or preset's count.
\<close>

definition resolvable ::
  "SamplingPreset \<Rightarrow> u32 option \<Rightarrow> f32 option \<Rightarrow> f32 list option \<Rightarrow> bool" where
  "resolvable p steps cfg_scale sigmas \<longleftrightarrow>
     valid_preset p \<and> steps \<noteq> Some 0 \<and> (\<forall>c. cfg_scale = Some c \<longrightarrow> is_finite c) \<and>
     valid_schedule (schedule_of p sigmas) \<and>
     (schedule_of p sigmas \<noteq> [] \<longrightarrow>
       (\<forall>n. steps = Some n \<longrightarrow> length (schedule_of p sigmas) = unat n + 1))"

definition resolved_steps :: "SamplingPreset \<Rightarrow> u32 option \<Rightarrow> f32 list option \<Rightarrow> nat" where
  "resolved_steps p steps sigmas =
     (if schedule_of p sigmas \<noteq> [] then length (schedule_of p sigmas) - 1
      else case steps of Some n \<Rightarrow> unat n | None \<Rightarrow> unat (sp_steps p))"

lemma SamplingPreset_resolve_eq:
  "SamplingPreset_resolve p steps cfg_scale sigmas =
     rbind (SamplingPreset_validate p) (\<lambda>_.
       if steps = Some 0 then Err SamplingError.InvalidSteps
       else if \<exists>c. cfg_scale = Some c \<and> \<not> is_finite c then Err SamplingError.NonFiniteCfgScale
       else rbind (sigma_step_count (schedule_of p sigmas)) (\<lambda>scheduled.
         rbind (case scheduled of
                  Some m \<Rightarrow> if \<exists>n. steps = Some n \<and> n \<noteq> m then Err SamplingError.StepsMismatch else Ok m
                | None \<Rightarrow> Ok (case steps of Some n \<Rightarrow> n | None \<Rightarrow> sp_steps p))
           (\<lambda>n. Ok \<lparr>rs_steps = n,
                    rs_cfg_scale = (case cfg_scale of Some c \<Rightarrow> c | None \<Rightarrow> sp_cfg_scale p),
                    rs_sigmas = schedule_of p sigmas\<rparr>)))"
proof -
  have a: "(case sigmas of Some schedule \<Rightarrow> if schedule \<noteq> [] then schedule else sp_sigmas p
         | None \<Rightarrow> sp_sigmas p) = schedule_of p sigmas"
    by (auto simp: schedule_of_def split: option.splits)
  have b: "(case cfg_scale of Some c \<Rightarrow> \<not> is_finite c | None \<Rightarrow> False) \<longleftrightarrow>
      (\<exists>c. cfg_scale = Some c \<and> \<not> is_finite c)"
    by (auto split: option.splits)
  have c: "(case steps of Some n \<Rightarrow> n \<noteq> m | None \<Rightarrow> False) \<longleftrightarrow>
      (\<exists>n. steps = Some n \<and> n \<noteq> m)" for m
    by (auto split: option.splits)
  show ?thesis
    by (simp only: SamplingPreset_resolve_def Let_def a b c)
qed

lemma resolve_Ok:
  assumes "SamplingPreset_resolve p steps cfg_scale sigmas = Ok r"
  shows "resolvable p steps cfg_scale sigmas \<and> unat (rs_steps r) = resolved_steps p steps sigmas \<and>
         0 < rs_steps r \<and> rs_sigmas r = schedule_of p sigmas \<and>
         rs_cfg_scale r = (case cfg_scale of Some c \<Rightarrow> c | None \<Rightarrow> sp_cfg_scale p)"
proof -
  from assms obtain scheduled where
      pre: "valid_preset p" "steps \<noteq> Some 0" "\<not> (\<exists>c. cfg_scale = Some c \<and> \<not> is_finite c)"
    and sc: "sigma_step_count (schedule_of p sigmas) = Ok scheduled"
    and n: "(case scheduled of
                  Some m \<Rightarrow> if \<exists>n. steps = Some n \<and> n \<noteq> m then Err SamplingError.StepsMismatch else Ok m
                | None \<Rightarrow> Ok (case steps of Some n \<Rightarrow> n | None \<Rightarrow> sp_steps p)) = Ok (rs_steps r)"
    and r: "rs_sigmas r = schedule_of p sigmas"
      "rs_cfg_scale r = (case cfg_scale of Some c \<Rightarrow> c | None \<Rightarrow> sp_cfg_scale p)"
    by (auto simp: SamplingPreset_resolve_eq rbind_eq_Ok SamplingPreset_validate_iff
        split: if_splits)
  from sc have v: "valid_schedule (schedule_of p sigmas)" by (simp add: sigma_step_count_Ok_iff)
  show ?thesis
  proof (cases scheduled)
    case None
    with sc have "schedule_of p sigmas = []"
      by (simp add: sigma_step_count_Ok_iff split: if_splits)
    with None n pre r v show ?thesis
      by (auto simp: resolvable_def resolved_steps_def valid_preset_def word_neq_0_conv
          split: option.splits)
  next
    case (Some m)
    with n have m: "rs_steps r = m" "\<And>k. steps = Some k \<Longrightarrow> k = m"
      by (auto split: if_splits)
    from sc Some have "length (schedule_of p sigmas) = unat m + 1" "0 < m"
      using sigma_step_count_unat by auto
    with m pre r v show ?thesis
      by (auto simp: resolvable_def resolved_steps_def)
  qed
qed

lemma resolve_complete:
  assumes "resolvable p steps cfg_scale sigmas"
  shows "is_ok (SamplingPreset_resolve p steps cfg_scale sigmas)"
proof -
  from assms have v: "valid_schedule (schedule_of p sigmas)" by (simp add: resolvable_def)
  have pv: "SamplingPreset_validate p = Ok ()"
    using assms by (simp add: resolvable_def SamplingPreset_validate_iff)
  show ?thesis
  proof (cases "schedule_of p sigmas = []")
    case True
    then show ?thesis using assms pv v
      by (auto simp: SamplingPreset_resolve_eq sigma_step_count_def resolvable_def)
  next
    case False
    then have "sigma_step_count (schedule_of p sigmas) =
        Ok (Some (of_nat (length (schedule_of p sigmas) - 1)))"
      using v by (simp add: sigma_step_count_Ok_iff)
    then show ?thesis using assms pv False
      by (auto simp: SamplingPreset_resolve_eq resolvable_def)
  qed
qed

lemma resolve_valid_preset:
  "valid_preset p \<Longrightarrow> \<exists>r. SamplingPreset_resolve p None None None = Ok r"
  using resolve_complete [of p None None None]
  by (cases "SamplingPreset_resolve p None None None")
    (auto simp: resolvable_def schedule_of_def valid_preset_def)

section \<open>Manifest validation\<close>

definition valid_manifest :: "ModelManifest \<Rightarrow> bool" where
  "valid_manifest m \<longleftrightarrow>
     set (required_assets (mm_family m)) \<subseteq> dom (mm_assets m) \<and> valid_preset (mm_sampling m) \<and>
     (\<forall>lora \<in> set (mm_default_loras m). is_finite (lora_scale lora))"

lemma check_assets_iff: "check_assets assets roles = Ok () \<longleftrightarrow> set roles \<subseteq> dom assets"
  by (induction roles) auto

lemma ModelManifest_validate_iff: "ModelManifest_validate m = Ok () \<longleftrightarrow> valid_manifest m"
  by (auto simp: ModelManifest_validate_def rbind_eq_Ok map_err_eq_Ok check_assets_iff
      SamplingPreset_validate_iff valid_manifest_def)

section \<open>Parameter validation\<close>

definition valid_dimensions :: "u32 \<Rightarrow> u32 \<Rightarrow> bool" where
  "valid_dimensions w h \<longleftrightarrow> 0 < w \<and> 0 < h \<and> 32 dvd unat w \<and> 32 dvd unat h"

definition valid_prompt :: "string \<Rightarrow> bool" where
  "valid_prompt p \<longleftrightarrow> length p \<le> 16384 \<and> (\<exists>c \<in> set (utf8_chars p). \<not> is_whitespace c)"

definition valid_image :: "ImageParameters \<Rightarrow> bool" where
  "valid_image p \<longleftrightarrow>
     valid_prompt (img_prompt p) \<and> length (img_negative_prompt p) \<le> 16384 \<and>
     valid_dimensions (img_width p) (img_height p) \<and> img_steps p \<noteq> Some 0 \<and>
     (\<forall>c. img_cfg_scale p = Some c \<longrightarrow> is_finite c) \<and> length (img_references p) \<le> 10 \<and>
     (\<forall>lora \<in> set (img_loras p). is_finite (lora_scale lora)) \<and>
     (\<forall>s. img_sigmas p = Some s \<longrightarrow> valid_schedule s)"

definition video_frame_count :: "u32 \<Rightarrow> bool" where
  "video_frame_count f \<longleftrightarrow> (\<exists>k. unat f = 17 * k + 5)"

definition valid_video :: "VideoParameters \<Rightarrow> bool" where
  "valid_video p \<longleftrightarrow>
     valid_prompt (vid_prompt p) \<and> length (vid_negative_prompt p) \<le> 16384 \<and>
     valid_dimensions (vid_width p) (vid_height p) \<and>
     unat (vid_width p) \<le> 16383 \<and> unat (vid_height p) \<le> 16383 \<and>
     video_frame_count (vid_frames p) \<and>
     (vid_last_frame p \<noteq> None \<longrightarrow> vid_first_frame p \<noteq> None)"

lemma validate_prompt_iff:
  "validate_prompt p may_be_empty = Ok () \<longleftrightarrow>
     length p \<le> 16384 \<and> (may_be_empty \<or> (\<exists>c \<in> set (utf8_chars p). \<not> is_whitespace c))"
  by (auto simp: validate_prompt_def MAX_PROMPT_BYTES_def trim_empty_iff)

lemma validate_dimensions_iff: "validate_dimensions w h = Ok () \<longleftrightarrow> valid_dimensions w h"
  by (auto simp: validate_dimensions_def valid_dimensions_def is_multiple_of_iff word_neq_0_conv)

lemma frames_guard_iff:
  "\<not> (f < 5 \<or> \<not> is_multiple_of (f - 5) 17) \<longleftrightarrow> video_frame_count (f :: u32)"
proof (cases "f < 5")
  case True
  then have "unat f < 5" by (simp add: word_less_nat_alt)
  with True show ?thesis by (auto simp: video_frame_count_def)
next
  case False
  then have ge: "5 \<le> unat f" and le: "5 \<le> f" by (simp_all add: word_less_nat_alt word_le_nat_alt)
  then have "unat (f - 5) = unat f - 5" by (simp add: unat_sub_if')
  then show ?thesis using False ge
    by (auto simp: is_multiple_of_iff video_frame_count_def dvd_def)
      (metis le_add_diff_inverse2)
qed

lemma ImageParameters_validate_iff: "ImageParameters_validate p = Ok () \<longleftrightarrow> valid_image p"
  by (auto simp: ImageParameters_validate_def rbind_eq_Ok validate_prompt_iff validate_dimensions_iff
      valid_image_def valid_prompt_def MAX_IMAGE_REFERENCES_def sigma_step_count_is_ok
      split: option.splits)

lemma VideoParameters_validate_iff: "VideoParameters_validate p = Ok () \<longleftrightarrow> valid_video p"
proof -
  have vp8: "w > MAX_VP8_DIMENSION \<longleftrightarrow> \<not> unat w \<le> 16383" for w
    by (simp add: MAX_VP8_DIMENSION_def word_less_nat_alt not_le)
  show ?thesis
    using frames_guard_iff [of "vid_frames p"]
    by (auto simp: VideoParameters_validate_def rbind_eq_Ok validate_prompt_iff
        validate_dimensions_iff valid_video_def valid_prompt_def vp8)
qed

section \<open>Properties\<close>

text \<open>Sampling resolution accepts exactly the consistent override sets and returns what
  they mean: a positive step count equal to the selected schedule's length minus one when a
  schedule is selected (the request's, unless absent or empty, else the preset's) and to the
  requested or preset count otherwise, the requested or preset guidance scale, and the
  selected schedule.\<close>
theorem sampling_resolution_exact:
  "((\<exists>r. SamplingPreset_resolve p steps cfg_scale sigmas = Ok r) \<longleftrightarrow>
      resolvable p steps cfg_scale sigmas) \<and>
   (\<forall>r. SamplingPreset_resolve p steps cfg_scale sigmas = Ok r \<longrightarrow>
      0 < rs_steps r \<and> unat (rs_steps r) = resolved_steps p steps sigmas \<and>
      rs_sigmas r = schedule_of p sigmas \<and>
      rs_cfg_scale r = (case cfg_scale of Some c \<Rightarrow> c | None \<Rightarrow> sp_cfg_scale p))"
  using resolve_Ok [of p steps cfg_scale sigmas] resolve_complete [of p steps cfg_scale sigmas]
  by (cases "SamplingPreset_resolve p steps cfg_scale sigmas") auto

theorem sampling_resolution_exact_witness:
  "\<exists>r. SamplingPreset_resolve (default_sampling_preset MinimaxH3) None None (Some []) = Ok r \<and>
       rs_steps r = 4"
proof -
  have "resolvable (default_sampling_preset MinimaxH3) None None (Some [])"
    by (simp add: resolvable_def default_sampling_preset_def schedule_of_def valid_preset_def
        valid_schedule_def is_finite_def word_less_nat_alt)
  then obtain r where r: "SamplingPreset_resolve (default_sampling_preset MinimaxH3) None None
      (Some []) = Ok r"
    using sampling_resolution_exact [of "default_sampling_preset MinimaxH3" None None "Some []"]
    by blast
  then have "unat (rs_steps r) = 4"
    using sampling_resolution_exact [of "default_sampling_preset MinimaxH3" None None "Some []"]
    by (simp add: resolved_steps_def schedule_of_def default_sampling_preset_def)
  then have "rs_steps r = 4" by (simp add: word_unat_eq_iff)
  with r show ?thesis by blast
qed

text \<open>C35: The resolved execution timeout is the greatest duration below the Tenant ceiling, the
  requested timeout when there is one, and the model's timeout or the modality default: a
  request or a Tenant can only shorten it.\<close>
theorem execution_timeout_resolution:
  "t \<le> resolve_execution_timeout modality version requested ceiling \<longleftrightarrow>
     t \<le> ceiling \<and> (\<forall>r. requested = Some r \<longrightarrow> t \<le> r) \<and>
     t \<le> (case execution_timeout version of Some l \<Rightarrow> l | None \<Rightarrow> default_execution_timeout modality)"
  by (auto simp: resolve_execution_timeout_def Let_def split: option.splits)

theorem execution_timeout_resolution_witness:
  "from_hours 1 \<le> resolve_execution_timeout Modality.Image
     \<lparr>execution_timeout = None, estimated_memory_bytes = None\<rparr> (Some (from_hours 1)) (from_hours 24)"
  using execution_timeout_resolution [of "from_hours 1" Modality.Image
      "\<lparr>execution_timeout = None, estimated_memory_bytes = None\<rparr>" "Some (from_hours 1)"
      "from_hours 24"]
  by (simp add: default_execution_timeout_def from_hours_def from_mins_def from_secs_def)

text \<open>C34: Request validation accepts exactly the well-formed requests of the family's
  modality: a nonblank prompt of at most 16 KiB, positive dimensions that are multiples of 32,
  and for images positive steps, finite scales, at most ten references and a well-formed
  schedule, for videos VP8 dimensions, a frame count of the form 17k+5 and no last frame
  without a first one.\<close>
theorem request_validation_exact:
  "validate_for_family parameters family = Ok () \<longleftrightarrow>
     (case parameters of
        GenerationParameters.Image p \<Rightarrow> family = QwenImage21 \<and> valid_image p
      | GenerationParameters.Video p \<Rightarrow> family = MinimaxH3 \<and> valid_video p)"
  by (cases parameters; cases family)
    (simp_all add: ImageParameters_validate_iff VideoParameters_validate_iff)

text \<open>The staged inputs of a request are its references (for a video the first frame, then
  the last) in order with later duplicates dropped: no identifier is staged twice and none
  is missed.\<close>
theorem staging_inputs_in_order:
  "staging_artifact_ids parameters =
     rev (remdups (rev (case parameters of
       GenerationParameters.Image p \<Rightarrow> img_references p
     | GenerationParameters.Video p \<Rightarrow>
         (case vid_first_frame p of Some a \<Rightarrow> [a] | None \<Rightarrow> []) @
         (case vid_last_frame p of Some a \<Rightarrow> [a] | None \<Rightarrow> [])))) \<and>
   distinct (staging_artifact_ids parameters)"
proof -
  have "staging_artifact_ids parameters =
     rev (remdups (rev (case parameters of
       GenerationParameters.Image p \<Rightarrow> img_references p
     | GenerationParameters.Video p \<Rightarrow>
         (case vid_first_frame p of Some a \<Rightarrow> [a] | None \<Rightarrow> []) @
         (case vid_last_frame p of Some a \<Rightarrow> [a] | None \<Rightarrow> []))))"
    by (cases parameters) (auto simp: push_distinct_eq split: option.splits)
  then show ?thesis by simp
qed

text \<open>A Worker-local transfer uses exactly the chunks the size needs: every chunk before
  the last is full, the last is not empty, and an empty Artifact has none.\<close>
theorem chunk_count_exact:
  "unat (am_size_bytes m) \<le> unat (chunk_count m) * 1048576 \<and>
   (0 < unat (am_size_bytes m) \<longrightarrow>
      0 < unat (chunk_count m) \<and>
      (unat (chunk_count m) - 1) * 1048576 < unat (am_size_bytes m)) \<and>
   (am_size_bytes m = 0 \<longrightarrow> chunk_count m = 0)"
proof -
  define s where "s = unat (am_size_bytes m)"
  have c: "unat (chunk_count m) = (s + 1048575) div 1048576"
    unfolding chunk_count_def s_def
    by (subst unat_div_ceil) (simp_all add: TRANSFER_CHUNK_BYTES_def)
  define q r where "q = (s + 1048575) div 1048576" and "r = (s + 1048575) mod 1048576"
  have qr: "s + 1048575 = q * 1048576 + r" "r < 1048576"
    by (simp_all add: q_def r_def)
  have "s \<le> q * 1048576" using qr by linarith
  moreover have "0 < q" if "0 < s"
    using qr that by (cases q) linarith+
  moreover have "(q - 1) * 1048576 < s" if "0 < q"
    using qr that by (cases q) auto
  moreover have "am_size_bytes m = 0 \<longrightarrow> chunk_count m = 0"
    by (simp add: chunk_count_def div_ceil_def)
  ultimately show ?thesis using c by (simp add: s_def q_def)
qed

theorem chunk_count_exact_witness:
  "unat (chunk_count \<lparr>am_size_bytes = 1048577, am_digest = ContentHash [],
      am_kind = MediaKind.Image, am_mime_type = ''image/png''\<rparr>) = 2"
proof -
  have "a \<noteq> (0::nat) \<Longrightarrow> (a - Suc 0) * 1048576 < 1048577 \<Longrightarrow> 1048577 \<le> a * 1048576 \<Longrightarrow> a = 2" for a
    by linarith
  then show ?thesis
    using chunk_count_exact [of "\<lparr>am_size_bytes = 1048577, am_digest = ContentHash [],
        am_kind = MediaKind.Image, am_mime_type = ''image/png''\<rparr>"]
    by simp
qed

end
