(* ===== verification/Domain_Capability.thy ===== *)
theory Domain_Capability
  imports Domain_Model
begin

text \<open>
  Capability matching, \<^verbatim>\<open>gpq-domain/src/capability.rs\<close>: the requirement a Generation puts on a
  Slot, what a Slot advertises, and the admission decision with its first reason for
  exclusion. The pixel products are 64-bit words with the source's plain and saturating
  multiplications.
\<close>

section \<open>Requirements\<close>

record GenerationShape =
  sh_width :: u32
  sh_height :: u32
  sh_steps :: "u32 option"
  sh_frames :: "u32 option"

record ShapeLimits =
  max_image_pixels :: "u64 option"
  max_video_pixels :: "u64 option"
  max_video_frames :: "u32 option"
  max_steps :: "u32 option"

record Requirement =
  rq_tenant_id :: TenantId
  rq_modality :: Modality
  rq_version :: ContentHash
  rq_required_loras :: "ContentHash list"
  rq_shape :: GenerationShape

datatype RequirementError =
    RequirementManifest ModelManifestError
  | RequirementParameters ParameterValidationError
  | ManifestHash
  | ManifestHashMismatch (requested_version: ContentHash) (actual_version: ContentHash)

fun shape_of ::
  "SamplingPreset \<Rightarrow> GenerationParameters \<Rightarrow> ParameterValidationError + GenerationShape" where
  "shape_of sampling (GenerationParameters.Image img) =
     rbind (map_err parameter_error_of_sampling
              (SamplingPreset_resolve sampling (img_steps img) (img_cfg_scale img) (img_sigmas img)))
       (\<lambda>s. Ok \<lparr>sh_width = img_width img, sh_height = img_height img,
                sh_steps = Some (rs_steps s), sh_frames = None\<rparr>)"
| "shape_of sampling (GenerationParameters.Video video) =
     rbind (map_err parameter_error_of_sampling (SamplingPreset_resolve sampling None None None))
       (\<lambda>s. Ok \<lparr>sh_width = vid_width video, sh_height = vid_height video,
                sh_steps = Some (rs_steps s), sh_frames = Some (vid_frames video)\<rparr>)"

fun required_loras_of :: "GenerationParameters \<Rightarrow> ContentHash list" where
  "required_loras_of (GenerationParameters.Image img) = btree_set (map lora_sha256 (img_loras img))"
| "required_loras_of (GenerationParameters.Video _) = []"

definition for_generation ::
  "(ModelManifest \<Rightarrow> u8 list option) \<Rightarrow> (u8 list \<Rightarrow> u8 list) \<Rightarrow> TenantId \<Rightarrow> ContentHash \<Rightarrow>
   ModelManifest \<Rightarrow> GenerationParameters \<Rightarrow> RequirementError + Requirement"
where
  "for_generation to_vec sha256 tenant_id version manifest parameters =
     rbind (map_err RequirementManifest (ModelManifest_validate manifest)) (\<lambda>_.
     rbind (map_err RequirementParameters (validate_for_family parameters (mm_family manifest))) (\<lambda>_.
     rbind (case canonical_hash to_vec sha256 manifest of
              None \<Rightarrow> Err ManifestHash | Some actual \<Rightarrow> Ok actual) (\<lambda>actual.
       if actual \<noteq> version then Err (ManifestHashMismatch version actual)
       else rbind (map_err RequirementParameters (shape_of (mm_sampling manifest) parameters)) (\<lambda>shape.
         Ok \<lparr>rq_tenant_id = tenant_id,
             rq_modality = ModelManifest_modality manifest,
             rq_version = version,
             rq_required_loras = required_loras_of parameters,
             rq_shape = shape\<rparr>))))"

section \<open>Slots\<close>

record SlotCapability =
  sc_tenant_id :: TenantId
  sc_worker_id :: WorkerId
  sc_pool_id :: DevicePoolId
  sc_slot_id :: SlotId
  sc_accelerator :: string
  sc_accelerator_version :: string
  sc_model_manifests :: "ContentHash \<rightharpoonup> ModelManifest"
  sc_image_loras :: "ContentHash list"
  sc_resident_model :: "ContentHash option"
  sc_accelerator_memory_bytes :: "u64 option"
  sc_shape_limits :: ShapeLimits

datatype IncapableReason =
    TenantMismatch
  | MissingModel ContentHash
  | ModelModalityMismatch (required_modality: Modality) (found_modality: Modality)
  | MissingLora ContentHash
  | InvalidShape
  | ImagePixelLimit u64 u64
  | VideoPixelLimit u64 u64
  | VideoFrameLimit u32 u32
  | StepLimit u32 u32

definition over_limit :: "'a::linorder \<Rightarrow> 'a option \<Rightarrow> bool" where
  "over_limit requested limit = (case limit of Some maximum \<Rightarrow> requested > maximum | None \<Rightarrow> False)"

definition frames_of :: "GenerationShape \<Rightarrow> u32 option" where
  "frames_of shape =
     (case sh_frames shape of
        Some frames \<Rightarrow> if frames \<ge> 5 \<and> (frames - 5) mod 17 = 0 then Some frames else None
      | None \<Rightarrow> None)"

definition admits_modality_shape ::
  "ShapeLimits \<Rightarrow> Modality \<Rightarrow> GenerationShape \<Rightarrow> IncapableReason + unit" where
  "admits_modality_shape limits modality shape =
     (let image_pixels = ucast (sh_width shape) * ucast (sh_height shape) :: u64 in
      case modality of
        Modality.Image \<Rightarrow>
          if sh_frames shape \<noteq> None then Err InvalidShape
          else if over_limit image_pixels (max_image_pixels limits)
          then Err (ImagePixelLimit image_pixels (the (max_image_pixels limits)))
          else Ok ()
      | Modality.Video \<Rightarrow>
          (case frames_of shape of
             None \<Rightarrow> Err InvalidShape
           | Some frames \<Rightarrow>
               if over_limit frames (max_video_frames limits)
               then Err (VideoFrameLimit frames (the (max_video_frames limits)))
               else
                 let video_pixels = saturating_mul image_pixels (ucast frames) in
                 if over_limit video_pixels (max_video_pixels limits)
                 then Err (VideoPixelLimit video_pixels (the (max_video_pixels limits)))
                 else Ok ()))"

definition admits_shape :: "SlotCapability \<Rightarrow> Requirement \<Rightarrow> IncapableReason + unit" where
  "admits_shape slot requirement =
     (let shape = rq_shape requirement; limits = sc_shape_limits slot in
      if sh_width shape = 0 \<or> sh_height shape = 0 \<or>
         \<not> is_multiple_of (sh_width shape) 32 \<or> \<not> is_multiple_of (sh_height shape) 32 \<or>
         (case sh_steps shape of None \<Rightarrow> True | Some steps \<Rightarrow> steps = 0)
      then Err InvalidShape
      else rbind (admits_modality_shape limits (rq_modality requirement) shape) (\<lambda>_.
        case sh_steps shape of
          Some steps \<Rightarrow>
            if over_limit steps (max_steps limits) then Err (StepLimit steps (the (max_steps limits)))
            else Ok ()
        | None \<Rightarrow> Ok ()))"

fun check_loras :: "ContentHash list \<Rightarrow> ContentHash list \<Rightarrow> IncapableReason + unit" where
  "check_loras available [] = Ok ()"
| "check_loras available (lora # loras) =
     (if lora \<notin> set available then Err (MissingLora lora) else check_loras available loras)"

definition admits :: "SlotCapability \<Rightarrow> Requirement \<Rightarrow> IncapableReason + unit" where
  "admits slot requirement =
     (if sc_tenant_id slot \<noteq> rq_tenant_id requirement then Err TenantMismatch
      else case sc_model_manifests slot (rq_version requirement) of
        None \<Rightarrow> Err (MissingModel (rq_version requirement))
      | Some manifest \<Rightarrow>
          if ModelManifest_modality manifest \<noteq> rq_modality requirement
          then Err (ModelModalityMismatch (rq_modality requirement) (ModelManifest_modality manifest))
          else rbind (check_loras (sc_image_loras slot) (rq_required_loras requirement)) (\<lambda>_.
            admits_shape slot requirement))"

definition holds_resident_model :: "SlotCapability \<Rightarrow> Requirement \<Rightarrow> bool" where
  "holds_resident_model slot requirement \<longleftrightarrow>
     sc_resident_model slot = Some (rq_version requirement)"

definition any_candidate_remains :: "SlotCapability list \<Rightarrow> Requirement \<Rightarrow> bool" where
  "any_candidate_remains slots requirement \<longleftrightarrow>
     (\<exists>slot \<in> set slots. is_ok (admits slot requirement))"

section \<open>Specification\<close>

text \<open>The total pixels a shape asks for, as an unbounded number.\<close>

definition total_pixels :: "GenerationShape \<Rightarrow> nat" where
  "total_pixels shape =
     unat (sh_width shape) * unat (sh_height shape) *
     (case sh_frames shape of Some f \<Rightarrow> unat f | None \<Rightarrow> 1)"

definition below :: "nat \<Rightarrow> 'w::len word option \<Rightarrow> bool" where
  "below n limit \<longleftrightarrow> (\<forall>m. limit = Some m \<longrightarrow> n \<le> unat m)"

definition shape_admissible :: "ShapeLimits \<Rightarrow> Modality \<Rightarrow> GenerationShape \<Rightarrow> bool" where
  "shape_admissible limits modality shape \<longleftrightarrow>
     valid_dimensions (sh_width shape) (sh_height shape) \<and>
     (\<exists>steps. sh_steps shape = Some steps \<and> 0 < steps \<and> below (unat steps) (max_steps limits)) \<and>
     (case modality of
        Modality.Image \<Rightarrow> sh_frames shape = None \<and> below (total_pixels shape) (max_image_pixels limits)
      | Modality.Video \<Rightarrow>
          (\<exists>f. sh_frames shape = Some f \<and> video_frame_count f \<and>
               below (unat f) (max_video_frames limits) \<and>
               below (min (total_pixels shape) (2 ^ 64 - 1)) (max_video_pixels limits)))"

lemma over_limit_word: "over_limit n limit \<longleftrightarrow> \<not> below (unat n) limit"
  by (auto simp: over_limit_def below_def word_less_nat_alt not_le split: option.splits)

lemma frames_of_eq:
  "frames_of shape = Some f \<longleftrightarrow> sh_frames shape = Some f \<and> video_frame_count f"
proof -
  have "(f \<ge> 5 \<and> (f - 5) mod 17 = 0) = (\<not> (f < 5 \<or> \<not> is_multiple_of (f - 5) 17))" for f :: u32
    by (cases "(f - 5) mod 17 = 0") (simp_all add: is_multiple_of_def not_less)
  then show ?thesis
    unfolding frames_guard_iff by (auto simp: frames_of_def split: option.splits if_splits)
qed

lemma image_pixels_exact:
  "unat (ucast (w :: u32) * ucast (h :: u32) :: u64) = unat w * unat h"
proof -
  have "unat w < 2 ^ 32" "unat h < 2 ^ 32"
    using unsigned_less [of w] unsigned_less [of h] by simp_all
  then have "unat w * unat h < 2 ^ 32 * 2 ^ 32"
    by (intro mult_strict_mono) simp_all
  then have lt: "unat w * unat h < 2 ^ 64" by simp
  then show ?thesis by (simp add: unat_word_ariths)
qed

lemma video_pixels_exact:
  "unat (saturating_mul (ucast (w :: u32) * ucast (h :: u32) :: u64) (ucast (f :: u32))) =
     min (unat w * unat h * unat f) (2 ^ 64 - 1)"
  by (simp only: unat_saturating_mul image_pixels_exact unat_ucast_32_64 len_num1 len_bit0) simp

lemma admits_modality_shape_iff:
  "admits_modality_shape limits modality shape = Ok () \<longleftrightarrow>
     (case modality of
        Modality.Image \<Rightarrow> sh_frames shape = None \<and> below (total_pixels shape) (max_image_pixels limits)
      | Modality.Video \<Rightarrow>
          (\<exists>f. sh_frames shape = Some f \<and> video_frame_count f \<and>
               below (unat f) (max_video_frames limits) \<and>
               below (min (total_pixels shape) (2 ^ 64 - 1)) (max_video_pixels limits)))"
proof (cases modality)
  case Image
  then show ?thesis
    by (auto simp: admits_modality_shape_def Let_def over_limit_word image_pixels_exact total_pixels_def)
next
  case Video
  show ?thesis
  proof (cases "frames_of shape")
    case None
    then have "\<not> (sh_frames shape = Some f \<and> video_frame_count f)" for f
      using frames_of_eq [of shape f] by simp
    with None Video show ?thesis
      by (auto simp: admits_modality_shape_def Let_def)
  next
    case (Some f)
    then have "sh_frames shape = Some f" "video_frame_count f" using frames_of_eq by blast+
    with Some Video show ?thesis
      by (simp add: admits_modality_shape_def Let_def over_limit_word video_pixels_exact
          total_pixels_def)
  qed
qed

lemma admits_shape_iff:
  "admits_shape slot r = Ok () \<longleftrightarrow>
     shape_admissible (sc_shape_limits slot) (rq_modality r) (rq_shape r)"
proof -
  have guard: "(w = 0 \<or> h = 0 \<or> \<not> is_multiple_of w 32 \<or> \<not> is_multiple_of h 32) \<longleftrightarrow>
      \<not> valid_dimensions w h" for w h :: u32
    by (auto simp: valid_dimensions_def is_multiple_of_iff word_neq_0_conv)
  show ?thesis
  proof (cases "valid_dimensions (sh_width (rq_shape r)) (sh_height (rq_shape r))")
    case False
    then show ?thesis
      using guard [of "sh_width (rq_shape r)" "sh_height (rq_shape r)"]
      by (auto simp: admits_shape_def Let_def shape_admissible_def)
  next
    case True
    then have dims: "sh_width (rq_shape r) \<noteq> 0" "sh_height (rq_shape r) \<noteq> 0"
      "is_multiple_of (sh_width (rq_shape r)) 32" "is_multiple_of (sh_height (rq_shape r)) 32"
      using guard by blast+
    show ?thesis
      using True
      by (cases "sh_steps (rq_shape r)")
        (auto simp: admits_shape_def Let_def dims shape_admissible_def rbind_eq_Ok
          admits_modality_shape_iff over_limit_word word_neq_0_conv)
  qed
qed

lemma check_loras_iff: "check_loras available loras = Ok () \<longleftrightarrow> set loras \<subseteq> set available"
  by (induction loras) auto

definition slot_capable :: "SlotCapability \<Rightarrow> Requirement \<Rightarrow> bool" where
  "slot_capable slot r \<longleftrightarrow>
     sc_tenant_id slot = rq_tenant_id r \<and>
     (\<exists>m. sc_model_manifests slot (rq_version r) = Some m \<and>
          ModelManifest_modality m = rq_modality r) \<and>
     set (rq_required_loras r) \<subseteq> set (sc_image_loras slot) \<and>
     shape_admissible (sc_shape_limits slot) (rq_modality r) (rq_shape r)"

lemma admits_iff: "admits slot r = Ok () \<longleftrightarrow> slot_capable slot r"
  by (auto simp: admits_def slot_capable_def rbind_eq_Ok check_loras_iff admits_shape_iff
      split: option.splits)

section \<open>Requirements of validated requests\<close>

lemma shape_of_OkD:
  assumes "shape_of sampling parameters = Ok shape"
  shows "\<exists>steps. sh_steps shape = Some steps \<and> 0 < steps"
  using assms
  by (cases parameters) (auto simp: rbind_eq_Ok map_err_eq_Ok dest!: resolve_Ok)

lemma shape_of_image:
  "shape_of s (GenerationParameters.Image p) = Ok sh \<Longrightarrow>
     sh_width sh = img_width p \<and> sh_height sh = img_height p \<and> sh_frames sh = None"
  by (auto simp: rbind_eq_Ok)

lemma shape_of_video:
  "shape_of s (GenerationParameters.Video p) = Ok sh \<Longrightarrow>
     sh_width sh = vid_width p \<and> sh_height sh = vid_height p \<and> sh_frames sh = Some (vid_frames p)"
  by (auto simp: rbind_eq_Ok)

lemma for_generation_OkD:
  assumes "for_generation to_vec sha256 t version manifest parameters = Ok r"
  shows "valid_manifest manifest \<and> validate_for_family parameters (mm_family manifest) = Ok () \<and>
         canonical_hash to_vec sha256 manifest = Some version \<and>
         shape_of (mm_sampling manifest) parameters = Ok (rq_shape r) \<and>
         rq_tenant_id r = t \<and> rq_version r = version \<and>
         rq_modality r = ModelManifest_modality manifest \<and>
         rq_required_loras r = required_loras_of parameters"
  using assms
  by (auto simp: for_generation_def rbind_eq_Ok map_err_eq_Ok ModelManifest_validate_iff
      split: if_splits option.splits)

text \<open>A Slot without shape limits admits the shape of every validated request.\<close>

definition unlimited :: ShapeLimits where
  "unlimited = \<lparr>max_image_pixels = None, max_video_pixels = None, max_video_frames = None,
                max_steps = None\<rparr>"

lemma for_generation_shape:
  assumes "for_generation to_vec sha256 t version manifest parameters = Ok r"
  shows "shape_admissible unlimited (rq_modality r) (rq_shape r)"
proof -
  from for_generation_OkD [OF assms] have
      val: "validate_for_family parameters (mm_family manifest) = Ok ()"
    and shape: "shape_of (mm_sampling manifest) parameters = Ok (rq_shape r)"
    and modality: "rq_modality r = ModelFamily_modality (mm_family manifest)"
    by (auto simp: ModelManifest_modality_def)
  obtain steps where steps: "sh_steps (rq_shape r) = Some steps" "0 < steps"
    using shape_of_OkD [OF shape] by blast
  show ?thesis
  proof (cases parameters)
    case (Image p)
    with val have "mm_family manifest = QwenImage21" "valid_image p"
      by (cases "mm_family manifest"; simp add: ImageParameters_validate_iff)+
    then show ?thesis
      using shape_of_image [OF shape [unfolded Image]] modality steps
      by (simp add: shape_admissible_def ModelFamily_modality_def unlimited_def below_def
          valid_image_def)
  next
    case (Video p)
    with val have "mm_family manifest = MinimaxH3" "valid_video p"
      by (cases "mm_family manifest"; simp add: VideoParameters_validate_iff)+
    then show ?thesis
      using shape_of_video [OF shape [unfolded Video]] modality steps
      by (simp add: shape_admissible_def ModelFamily_modality_def unlimited_def below_def
          valid_video_def)
  qed
qed

lemma admits_modality_shape_no_InvalidShape:
  assumes "shape_admissible unlimited modality shape"
  shows "admits_modality_shape limits modality shape \<noteq> Err InvalidShape"
proof (cases modality)
  case Image
  with assms show ?thesis
    by (auto simp: shape_admissible_def admits_modality_shape_def Let_def)
next
  case Video
  with assms obtain f where "frames_of shape = Some f"
    by (auto simp: shape_admissible_def frames_of_eq)
  with Video show ?thesis by (auto simp: admits_modality_shape_def Let_def)
qed

lemma admits_shape_no_InvalidShape:
  assumes "shape_admissible unlimited (rq_modality r) (rq_shape r)"
  shows "admits_shape slot r \<noteq> Err InvalidShape"
proof -
  from assms obtain steps where "sh_steps (rq_shape r) = Some steps" "0 < steps"
    "valid_dimensions (sh_width (rq_shape r)) (sh_height (rq_shape r))"
    by (auto simp: shape_admissible_def)
  then show ?thesis
    using admits_modality_shape_no_InvalidShape [OF assms, of "sc_shape_limits slot"]
    by (auto simp: admits_shape_def Let_def rbind_eq_Err valid_dimensions_def is_multiple_of_iff)
qed

lemma check_loras_Err: "check_loras available loras = Err e \<Longrightarrow> \<exists>h. e = MissingLora h"
  by (induction loras) (auto split: if_splits)

section \<open>Example values\<close>

definition example_manifest :: ModelManifest where
  "example_manifest =
     \<lparr>mm_family = QwenImage21, mm_assets = (\<lambda>_. Some (ContentHash (replicate 32 1))), mm_default_loras = [],
      mm_sampling = default_sampling_preset QwenImage21\<rparr>"

definition example_image :: ImageParameters where
  "example_image =
     \<lparr>img_prompt = ''a cat'', img_negative_prompt = [], img_width = 512, img_height = 512,
      img_steps = Some 20, img_cfg_scale = None, img_references = [], img_loras = [],
      img_sigmas = None\<rparr>"

definition example_version :: ContentHash where
  "example_version = ContentHash (replicate 32 0)"

definition example_requirement :: "TenantId \<Rightarrow> Requirement" where
  "example_requirement t =
     \<lparr>rq_tenant_id = t, rq_modality = Modality.Image, rq_version = example_version,
      rq_required_loras = [],
      rq_shape = \<lparr>sh_width = 512, sh_height = 512, sh_steps = Some 20, sh_frames = None\<rparr>\<rparr>"

definition example_slot :: "TenantId \<Rightarrow> SlotCapability" where
  "example_slot t =
     \<lparr>sc_tenant_id = t, sc_worker_id = 1, sc_pool_id = 2, sc_slot_id = 3, sc_accelerator = ''metal'',
      sc_accelerator_version = ''1'', sc_model_manifests = [example_version \<mapsto> example_manifest],
      sc_image_loras = [], sc_resident_model = None, sc_accelerator_memory_bytes = None,
      sc_shape_limits = unlimited\<rparr>"

lemma example_for_generation:
  "for_generation (\<lambda>_. Some []) (\<lambda>_. replicate 32 0) t example_version example_manifest
     (GenerationParameters.Image example_image) = Ok (example_requirement t)"
proof -
  have m: "ModelManifest_validate example_manifest = Ok ()"
    unfolding ModelManifest_validate_iff
    by (auto simp: valid_manifest_def example_manifest_def default_sampling_preset_def
        valid_preset_def valid_schedule_def is_finite_def)
  have p: "ImageParameters_validate example_image = Ok ()"
    unfolding ImageParameters_validate_iff
    by (simp add: valid_image_def example_image_def valid_prompt_def utf8_width_def
        valid_dimensions_def)
  have s: "SamplingPreset_resolve (mm_sampling example_manifest) (img_steps example_image)
      (img_cfg_scale example_image) (img_sigmas example_image) =
      Ok \<lparr>rs_steps = 20, rs_cfg_scale = 0x40C00000, rs_sigmas = []\<rparr>"
    by (simp add: SamplingPreset_resolve_def SamplingPreset_validate_def default_sampling_preset_def
        sigma_step_count_def is_finite_def example_manifest_def example_image_def)
  have f: "mm_family example_manifest = QwenImage21" "img_loras example_image = []"
    "img_width example_image = 512" "img_height example_image = 512"
    by (simp_all add: example_manifest_def example_image_def)
  show ?thesis
    by (simp add: for_generation_def m p s f canonical_hash_def digest_def example_requirement_def
        example_version_def ModelManifest_modality_def ModelFamily_modality_def btree_set_def)
qed

section \<open>Properties\<close>

text \<open>C33: Slot admission is exact: a Slot admits a requirement if and only if it belongs to the
  same Tenant, advertises the pinned model with the required modality, has every selected
  LoRA, and the shape is well formed and within each configured limit, where the pixel totals
  are those of unbounded arithmetic (a video total saturates at the largest 64-bit value). A
  requirement has a candidate exactly when some Slot admits it.\<close>
theorem slot_admission_exact:
  "(is_ok (admits slot r) \<longleftrightarrow> slot_capable slot r) \<and>
   (any_candidate_remains slots r \<longleftrightarrow> (\<exists>s \<in> set slots. slot_capable s r))"
  by (simp add: is_ok_unit admits_iff any_candidate_remains_def)

text \<open>Admission control and scheduling agree: the requirement built for a validated request
  is admitted by every Slot of the Tenant that has the pinned model and the LoRAs and sets no
  shape limit, and no Slot at all rejects it as malformed or, given its own model manifest, for
  its modality.\<close>
theorem validated_request_is_schedulable:
  assumes "for_generation to_vec sha256 t version manifest parameters = Ok r"
    and "sc_tenant_id slot = t"
    and "sc_model_manifests slot version = Some manifest"
    and "set (required_loras_of parameters) \<subseteq> set (sc_image_loras slot)"
  shows "admits slot r \<noteq> Err InvalidShape \<and>
         (\<forall>m m'. admits slot r \<noteq> Err (ModelModalityMismatch m m')) \<and>
         (sc_shape_limits slot = unlimited \<longrightarrow> admits slot r = Ok ())"
proof -
  note shape = for_generation_shape [OF assms(1)]
  from for_generation_OkD [OF assms(1)] assms(2-4) have eq: "admits slot r = admits_shape slot r"
    using check_loras_iff [of "sc_image_loras slot" "required_loras_of parameters"]
    by (simp add: admits_def)
  have mod: "admits_shape slot r \<noteq> Err (ModelModalityMismatch m m')" for m m'
    by (auto simp: admits_shape_def admits_modality_shape_def Let_def rbind_eq_Err
        split: if_splits option.splits Modality.splits)
  show ?thesis
    using shape admits_shape_no_InvalidShape [OF shape, of slot] mod
    by (simp add: eq admits_shape_iff)
qed

theorem validated_request_is_schedulable_witness:
  "admits (example_slot 7) (example_requirement 7) = Ok ()"
  using validated_request_is_schedulable
    [OF example_for_generation, of "example_slot 7" 7]
  by (simp add: example_slot_def example_image_def btree_set_def)

end
