(* ===== verification/Domain_Schedule.thy ===== *)
theory Domain_Schedule
  imports Domain_Capability
begin

text \<open>
  The utilization-first scheduling order, \<^verbatim>\<open>gpq-domain/src/schedule.rs\<close>: the next
  Generation for a Slot and the batch that shares its model. Sort keys are tuples under the
  lexicographic order, as in the source.
\<close>

section \<open>Candidates and Slots\<close>

record Candidate =
  cd_generation_id :: GenerationId
  cd_created_at :: datetime
  cd_priority :: Priority
  cd_requirement :: Requirement

definition Candidate_age :: "Candidate \<Rightarrow> datetime \<Rightarrow> duration" where
  "Candidate_age c now = nat (now - cd_created_at c)"

definition Candidate_version :: "Candidate \<Rightarrow> ContentHash" where
  "Candidate_version c = rq_version (cd_requirement c)"

record SlotContext =
  cx_capability :: SlotCapability
  cx_free_slots :: u32
  cx_settings :: TenantSettings
  cx_now :: datetime

definition cx_eligible :: "SlotContext \<Rightarrow> Candidate \<Rightarrow> bool" where
  "cx_eligible cx c \<longleftrightarrow> is_ok (admits (cx_capability cx) (cd_requirement c))"

definition cx_is_overdue :: "SlotContext \<Rightarrow> Candidate \<Rightarrow> bool" where
  "cx_is_overdue cx c \<longleftrightarrow> is_overdue (cx_settings cx) (Candidate_age c (cx_now cx))"

section \<open>Selection\<close>

definition age_key :: "Candidate \<Rightarrow> datetime \<times> GenerationId" where
  "age_key c = (cd_created_at c, cd_generation_id c)"

definition batch_key :: "Candidate \<Rightarrow> u8 \<times> datetime \<times> GenerationId" where
  "batch_key c =
     (Priority_get Priority_MAX - Priority_get (cd_priority c), cd_created_at c, cd_generation_id c)"

definition affinity_key :: "SlotContext \<Rightarrow> Candidate \<Rightarrow> u8 \<times> u8 \<times> datetime \<times> GenerationId" where
  "affinity_key cx c =
     (if \<not> holds_resident_model (cx_capability cx) (cd_requirement c) then 1 else 0,
      Priority_get Priority_MAX - Priority_get (cd_priority c),
      cd_created_at c, cd_generation_id c)"

definition select_next :: "SlotContext \<Rightarrow> Candidate list \<Rightarrow> Candidate option" where
  "select_next cx candidates =
     (if cx_free_slots cx = 0 then None
      else
        let eligible = filter (cx_eligible cx) candidates;
            overdue = min_by_key age_key (filter (cx_is_overdue cx) eligible)
        in if overdue \<noteq> None then overdue else min_by_key (affinity_key cx) eligible)"

definition select_batch :: "SlotContext \<Rightarrow> Candidate list \<Rightarrow> Candidate list" where
  "select_batch cx candidates =
     (case select_next cx candidates of
        None \<Rightarrow> []
      | Some primary \<Rightarrow>
          let companions = filter (\<lambda>c. cd_generation_id c \<noteq> cd_generation_id primary \<and>
                                       Candidate_version c = Candidate_version primary \<and>
                                       cx_eligible cx c) candidates
          in primary # take (unat (cx_free_slots cx) - 1) (sort_key batch_key companions))"

section \<open>Lemmas\<close>

lemma select_next_SomeD:
  assumes "select_next cx candidates = Some c"
  shows "c \<in> set candidates \<and> cx_eligible cx c \<and> 0 < cx_free_slots cx"
  using assms
  by (auto simp: select_next_def Let_def word_neq_0_conv dest!: min_by_key_SomeD
      split: if_splits)

lemma select_next_None_iff:
  "select_next cx candidates = None \<longleftrightarrow>
     cx_free_slots cx = 0 \<or> (\<forall>c \<in> set candidates. \<not> cx_eligible cx c)"
  by (auto simp: select_next_def Let_def filter_empty_conv)

lemma select_next_overdue:
  assumes "select_next cx candidates = Some c"
    and "d \<in> set candidates" "cx_eligible cx d" "cx_is_overdue cx d"
  shows "cx_is_overdue cx c \<and> age_key c \<le> age_key d"
proof -
  define pool where "pool = filter (cx_is_overdue cx) (filter (cx_eligible cx) candidates)"
  have "d \<in> set pool" using assms(2-4) by (simp add: pool_def)
  then obtain m where m: "min_by_key age_key pool = Some m"
    by (cases "min_by_key age_key pool") auto
  with assms(1) have "m = c"
    by (auto simp: select_next_def Let_def pool_def split: if_splits)
  with min_by_key_SomeD [OF m] \<open>d \<in> set pool\<close> show ?thesis by (auto simp: pool_def)
qed

lemma select_next_affinity:
  assumes "select_next cx candidates = Some c" "\<not> cx_is_overdue cx c"
    and "d \<in> set candidates" "cx_eligible cx d"
  shows "affinity_key cx c \<le> affinity_key cx d"
proof -
  have "\<not> cx_is_overdue cx d"
    using select_next_overdue [OF assms(1,3,4)] assms(2) by blast
  moreover have "filter (cx_is_overdue cx) (filter (cx_eligible cx) candidates) = []"
    using select_next_overdue [OF assms(1)] assms(2) by (auto simp: filter_empty_conv)
  ultimately have "min_by_key (affinity_key cx) (filter (cx_eligible cx) candidates) = Some c"
    using assms(1) by (simp add: select_next_def Let_def split: if_splits)
  from min_by_key_SomeD [OF this] assms(3,4) show ?thesis by simp
qed

lemma min_by_key_permutation:
  assumes "set xs = set ys" "inj_on k (set xs)"
  shows "min_by_key k xs = min_by_key k ys"
proof (cases "min_by_key k xs")
  case None
  then show ?thesis using assms(1) by simp
next
  case (Some x)
  then obtain y where y: "min_by_key k ys = Some y"
    using assms(1) by (cases "min_by_key k ys") auto
  from min_by_key_SomeD [OF Some] min_by_key_SomeD [OF y] assms(1)
  have "x \<in> set xs" "y \<in> set xs" "k x = k y" by (auto intro: antisym)
  with assms(2) have "x = y" by (auto dest: inj_onD)
  with Some y show ?thesis by simp
qed

lemma affinity_key_inj:
  "inj_on cd_generation_id A \<Longrightarrow> inj_on (affinity_key cx) A"
  by (auto simp: inj_on_def affinity_key_def)

lemma age_key_inj: "inj_on cd_generation_id A \<Longrightarrow> inj_on age_key A"
  by (auto simp: inj_on_def age_key_def)

lemma select_next_permutation:
  assumes "set xs = set ys" "inj_on cd_generation_id (set xs)"
  shows "select_next cx xs = select_next cx ys"
proof -
  have inj: "inj_on cd_generation_id (set (filter P xs))" for P
    using assms(2) by (rule inj_on_subset) auto
  have "min_by_key age_key (filter (cx_is_overdue cx) (filter (cx_eligible cx) xs)) =
        min_by_key age_key (filter (cx_is_overdue cx) (filter (cx_eligible cx) ys))"
    using assms by (intro min_by_key_permutation age_key_inj) (auto intro: inj_on_subset)
  moreover have "min_by_key (affinity_key cx) (filter (cx_eligible cx) xs) =
        min_by_key (affinity_key cx) (filter (cx_eligible cx) ys)"
    using assms(1) inj by (intro min_by_key_permutation affinity_key_inj) auto
  ultimately show ?thesis by (simp add: select_next_def Let_def)
qed

text \<open>The companions of a batch, in the order they are taken.\<close>

definition companions :: "SlotContext \<Rightarrow> Candidate \<Rightarrow> Candidate list \<Rightarrow> Candidate list" where
  "companions cx primary candidates =
     sort_key batch_key
       (filter (\<lambda>c. cd_generation_id c \<noteq> cd_generation_id primary \<and>
                    Candidate_version c = Candidate_version primary \<and> cx_eligible cx c) candidates)"

lemma select_batch_eq:
  "select_batch cx candidates =
     (case select_next cx candidates of
        None \<Rightarrow> []
      | Some primary \<Rightarrow> primary # take (unat (cx_free_slots cx) - 1) (companions cx primary candidates))"
  by (simp add: select_batch_def companions_def Let_def split: option.split)

lemma set_companions:
  "set (companions cx primary candidates) =
     {c \<in> set candidates. cd_generation_id c \<noteq> cd_generation_id primary \<and>
        Candidate_version c = Candidate_version primary \<and> cx_eligible cx c}"
  by (auto simp: companions_def)

lemma distinct_companions:
  "distinct (map cd_generation_id candidates) \<Longrightarrow>
     distinct (map cd_generation_id (companions cx primary candidates))"
  by (auto simp: companions_def distinct_map intro: inj_on_subset)

lemma select_batch_cases:
  assumes "c \<in> set (select_batch cx candidates)"
  shows "\<exists>primary. select_next cx candidates = Some primary \<and>
           c \<in> set candidates \<and> cx_eligible cx c \<and>
           Candidate_version c = Candidate_version primary"
proof (cases "select_next cx candidates")
  case None
  with assms show ?thesis by (simp add: select_batch_eq)
next
  case (Some primary)
  with assms have "c = primary \<or> c \<in> set (companions cx primary candidates)"
    by (auto simp: select_batch_eq dest: in_set_takeD)
  with Some select_next_SomeD [OF Some] show ?thesis by (auto simp: set_companions)
qed

lemma select_batch_length: "length (select_batch cx candidates) \<le> unat (cx_free_slots cx)"
proof (cases "select_next cx candidates")
  case None
  then show ?thesis by (simp add: select_batch_eq)
next
  case (Some primary)
  then have "0 < unat (cx_free_slots cx)"
    using select_next_SomeD [OF Some] by (simp add: word_less_nat_alt)
  with Some show ?thesis by (simp add: select_batch_eq)
qed

lemma select_batch_distinct:
  assumes "distinct (map cd_generation_id candidates)"
  shows "distinct (map cd_generation_id (select_batch cx candidates))"
proof (cases "select_next cx candidates")
  case None
  then show ?thesis by (simp add: select_batch_eq)
next
  case (Some primary)
  have "cd_generation_id primary \<notin> cd_generation_id ` set (take n (companions cx primary candidates))"
    for n
    using set_take_subset [of n "companions cx primary candidates"] by (auto simp: set_companions)
  moreover have "distinct (map cd_generation_id (take n (companions cx primary candidates)))" for n
    using distinct_companions [OF assms, of cx primary] by (metis distinct_take take_map)
  ultimately show ?thesis using Some by (simp add: select_batch_eq)
qed

lemma length_filter_remove_key:
  assumes "distinct (map f xs)" "x \<in> set xs" "Q x"
  shows "length (filter Q xs) = Suc (length (filter (\<lambda>c. f c \<noteq> f x \<and> Q c) xs))"
  using assms
proof (induction xs)
  case (Cons y ys)
  show ?case
  proof (cases "y = x")
    case True
    then have "filter (\<lambda>c. f c \<noteq> f x \<and> Q c) ys = filter Q ys"
      using Cons.prems(1) by (intro filter_cong) (auto simp: image_iff)
    with True Cons.prems show ?thesis by simp
  next
    case False
    with Cons.prems have "x \<in> set ys" by simp
    then have "f y \<noteq> f x"
      using Cons.prems(1) by (auto simp: image_iff)
    with Cons False \<open>x \<in> set ys\<close> show ?thesis by simp
  qed
qed simp

lemma select_batch_size:
  assumes "distinct (map cd_generation_id candidates)" "select_next cx candidates = Some primary"
  shows "length (select_batch cx candidates) =
           min (unat (cx_free_slots cx))
             (length (filter (\<lambda>c. Candidate_version c = Candidate_version primary \<and>
                                   cx_eligible cx c) candidates))"
proof -
  have prim: "primary \<in> set candidates" "cx_eligible cx primary" "0 < unat (cx_free_slots cx)"
    using select_next_SomeD [OF assms(2)] by (auto simp: word_less_nat_alt)
  have len: "length (filter (\<lambda>c. Candidate_version c = Candidate_version primary \<and> cx_eligible cx c)
        candidates) = Suc (length (companions cx primary candidates))"
    using length_filter_remove_key [OF assms(1) prim(1), of
        "\<lambda>c. Candidate_version c = Candidate_version primary \<and> cx_eligible cx c"] prim(2)
    by (simp add: companions_def)
  show ?thesis
    unfolding len using prim(3) by (auto simp: select_batch_eq assms(2) min_def)
qed

lemma select_batch_hd: "select_next cx candidates = Some primary \<Longrightarrow> hd (select_batch cx candidates) = primary"
  by (simp add: select_batch_eq)

lemma select_batch_Nil_iff: "select_batch cx candidates = [] \<longleftrightarrow> select_next cx candidates = None"
  by (simp add: select_batch_eq split: option.splits)

section \<open>Properties\<close>

text \<open>C32: The scheduler's choice is optimal: it exists exactly when the Slot has capacity and
  some candidate is eligible, it is eligible, when any eligible candidate is overdue it is the
  oldest overdue one whatever its priority or model, and otherwise it is least by (model not
  resident, priority from high to low, submission time, identifier). The choice depends only on
  the set of candidates, not on the order they are listed in.\<close>
theorem select_next_optimal:
  assumes "distinct (map cd_generation_id candidates)"
  shows "(select_next cx candidates = None \<longleftrightarrow>
            cx_free_slots cx = 0 \<or> (\<forall>d \<in> set candidates. \<not> cx_eligible cx d)) \<and>
         (\<forall>c. select_next cx candidates = Some c \<longrightarrow>
            c \<in> set candidates \<and> cx_eligible cx c \<and>
            (\<forall>d \<in> set candidates. cx_eligible cx d \<longrightarrow>
               (cx_is_overdue cx d \<longrightarrow> cx_is_overdue cx c \<and> age_key c \<le> age_key d) \<and>
               (\<not> cx_is_overdue cx c \<longrightarrow> affinity_key cx c \<le> affinity_key cx d))) \<and>
         (\<forall>others. set others = set candidates \<longrightarrow> select_next cx others = select_next cx candidates)"
proof -
  have inj: "inj_on cd_generation_id (set candidates)" using assms by (simp add: distinct_map)
  have perm: "select_next cx others = select_next cx candidates" if "set others = set candidates" for others
    using select_next_permutation [OF that [symmetric] inj] by simp
  have best: "c \<in> set candidates \<and> cx_eligible cx c \<and>
      (\<forall>d \<in> set candidates. cx_eligible cx d \<longrightarrow>
         (cx_is_overdue cx d \<longrightarrow> cx_is_overdue cx c \<and> age_key c \<le> age_key d) \<and>
         (\<not> cx_is_overdue cx c \<longrightarrow> affinity_key cx c \<le> affinity_key cx d))"
    if "select_next cx candidates = Some c" for c
    using select_next_SomeD [OF that] select_next_overdue [OF that] select_next_affinity [OF that]
    by blast
  show ?thesis
    by (intro best perm select_next_None_iff allI impI conjI)
qed

definition example_candidate :: "GenerationId \<Rightarrow> u8 \<Rightarrow> datetime \<Rightarrow> Candidate" where
  "example_candidate g p t =
     \<lparr>cd_generation_id = g, cd_created_at = t, cd_priority = Priority p,
      cd_requirement = example_requirement 7\<rparr>"

definition example_context :: "u32 \<Rightarrow> SlotContext" where
  "example_context n =
     \<lparr>cx_capability = example_slot 7, cx_free_slots = n, cx_settings = TenantSettings_default,
      cx_now = 10\<rparr>"

lemma example_eligible: "cx_eligible (example_context n) (example_candidate g p t)"
  by (simp add: cx_eligible_def example_context_def example_candidate_def is_ok_unit admits_iff
      slot_capable_def example_slot_def example_requirement_def ModelManifest_modality_def
      example_manifest_def ModelFamily_modality_def shape_admissible_def valid_dimensions_def
      unlimited_def below_def)

theorem select_next_optimal_witness:
  "distinct (map cd_generation_id [example_candidate 1 5 0, example_candidate 2 9 3]) \<and>
   select_next (example_context 1) [example_candidate 1 5 0, example_candidate 2 9 3] \<noteq> None"
proof -
  have d: "distinct (map cd_generation_id [example_candidate 1 5 0, example_candidate 2 9 3])"
    by (simp add: example_candidate_def)
  have "cx_free_slots (example_context 1) \<noteq> 0" by (simp add: example_context_def)
  then show ?thesis
    using d select_next_optimal [OF d, of "example_context 1", THEN conjunct1]
    by (simp add: example_eligible)
qed

text \<open>A batch never exceeds the Slot's free capacity, starts with the scheduler's choice,
  contains only eligible candidates pinned to that choice's model version, leases no
  Generation twice, and is as large as capacity and the matching candidates allow.\<close>
theorem select_batch_sound:
  assumes "distinct (map cd_generation_id candidates)"
  shows "length (select_batch cx candidates) \<le> unat (cx_free_slots cx) \<and>
         (select_batch cx candidates = [] \<longleftrightarrow> select_next cx candidates = None) \<and>
         (\<forall>primary. select_next cx candidates = Some primary \<longrightarrow>
            hd (select_batch cx candidates) = primary \<and>
            (\<forall>c \<in> set (select_batch cx candidates).
               c \<in> set candidates \<and> cx_eligible cx c \<and>
               Candidate_version c = Candidate_version primary) \<and>
            length (select_batch cx candidates) =
              min (unat (cx_free_slots cx))
                (length (filter (\<lambda>c. Candidate_version c = Candidate_version primary \<and>
                                      cx_eligible cx c) candidates))) \<and>
         distinct (map cd_generation_id (select_batch cx candidates))"
proof -
  have members: "\<forall>c \<in> set (select_batch cx candidates).
      c \<in> set candidates \<and> cx_eligible cx c \<and> Candidate_version c = Candidate_version primary"
    if "select_next cx candidates = Some primary" for primary
    using select_batch_cases that by fastforce
  show ?thesis
    by (intro conjI allI impI select_batch_length select_batch_Nil_iff select_batch_hd members
        select_batch_size [OF assms] select_batch_distinct [OF assms])
qed

theorem select_batch_sound_witness:
  "distinct (map cd_generation_id [example_candidate 1 5 0, example_candidate 2 9 3]) \<and>
   length (select_batch (example_context 1) [example_candidate 1 5 0, example_candidate 2 9 3]) \<le> 1"
proof -
  have d: "distinct (map cd_generation_id [example_candidate 1 5 0, example_candidate 2 9 3])"
    by (simp add: example_candidate_def)
  show ?thesis
    using d select_batch_sound [OF d, of "example_context 1", THEN conjunct1]
    by (simp add: example_context_def)
qed

end
