(* ===== verification/Store.thy ===== *)
theory Store
  imports Domain_Schedule
begin

text \<open>
  The relational store of the Remote: the tables of \<^verbatim>\<open>gpq-remote/migrations\<close> that the
  \<^verbatim>\<open>gpq-remote/src/db\<close> modules read and write, as row lists in a record, with the SQL
  primitives over them and the store invariant. A row belongs to a Tenant and is keyed by the
  Tenant and its identifier. State, modality, kind and placement columns hold the datatype
  their stored name denotes, and hash columns the hash their hex denotes: the check
  constraints admit only those names, and the name and hex round trips are proved in
  \<^verbatim>\<open>Domain_State\<close> and \<^verbatim>\<open>Domain_Hash\<close>.

  A database error rolls the transaction back, so an operation that can fail returns
  \<^verbatim>\<open>sql_error + 'a \<times> db\<close> and leaves no state behind when it does.
\<close>

section \<open>Rows\<close>

datatype json =
    JNull
  | JBool bool
  | JNumber int
  | JString string
  | JArray "json list"
  | JObject "(string \<times> json) list"

text \<open>A PostgreSQL interval as the driver delivers it.\<close>

record PgInterval =
  iv_months :: int
  iv_days :: int
  iv_microseconds :: int

record tenant_row =
  tn_id :: TenantId
  tn_name :: string
  tn_maximum_queue_age :: PgInterval
  tn_max_queued_generations :: int
  tn_max_input_artifact_bytes :: int
  tn_max_output_artifact_bytes :: int
  tn_execution_timeout_ceiling :: PgInterval
  tn_default_priority :: int
  tn_created_at :: datetime
  tn_updated_at :: datetime
  tn_deleted_at :: "datetime option"

record master_key_row =
  mk_tenant :: TenantId
  mk_id :: uuid
  mk_key_hash :: "u8 list"
  mk_label :: string
  mk_created_at :: datetime
  mk_expires_at :: "datetime option"
  mk_revoked_at :: "datetime option"

record worker_row =
  w_tenant :: TenantId
  w_id :: WorkerId
  w_name :: string
  w_host_descriptor :: string
  w_worker_version :: string
  w_protocol_major :: int
  w_protocol_minor :: int
  w_credential_hash :: "u8 list"
  w_session_id :: "string option"
  w_enrolled_at :: datetime
  w_last_seen_at :: "datetime option"
  w_revoked_at :: "datetime option"

record pool_row =
  p_tenant :: TenantId
  p_id :: DevicePoolId
  p_worker_id :: WorkerId
  p_pool_key :: string
  p_accelerator :: string
  p_backend_version :: string
  p_ready :: bool
  p_unready_reason :: string
  p_total_slots :: int
  p_claimed_slots :: int
  p_resident_model :: "ContentHash option"
  p_accelerator_memory_bytes :: "int option"
  p_shape_limits :: ShapeLimits
  p_image_loras :: "ContentHash list"
  p_probes :: "(string \<times> bool) list"
  p_updated_at :: datetime

record pool_model_row =
  pm_tenant :: TenantId
  pm_pool_id :: DevicePoolId
  pm_content :: ContentHash

record model_version_row =
  mv_tenant :: TenantId
  mv_id :: uuid
  mv_content :: ContentHash
  mv_family :: ModelFamily
  mv_modality :: Modality
  mv_manifest :: json
  mv_execution_timeout :: "PgInterval option"
  mv_estimated_memory_bytes :: "int option"
  mv_first_seen_at :: datetime

record model_alias_row =
  al_tenant :: TenantId
  al_alias :: string
  al_content :: ContentHash
  al_created_at :: datetime
  al_updated_at :: datetime

record GenerationRow =
  g_tenant :: TenantId
  g_id :: GenerationId
  g_state :: GenerationState
  g_modality :: Modality
  g_alias :: string
  g_version :: ContentHash
  g_parameters :: json
  g_priority :: int
  g_seed :: "int option"
  g_execution_timeout :: duration
  g_output_placement :: ArtifactPlacement
  g_attempt_count :: int
  g_accepted_attempt :: "AttemptId option"
  g_latest_progress :: "json option"
  g_failure_kind :: "FailureKind option"
  g_failure_message :: string
  g_created_at :: datetime
  g_updated_at :: datetime
  g_started_at :: "datetime option"
  g_terminated_at :: "datetime option"

record AttemptRow =
  a_tenant :: TenantId
  a_id :: AttemptId
  a_generation :: GenerationId
  a_attempt_number :: int
  a_state :: AttemptState
  a_worker :: WorkerId
  a_pool :: DevicePoolId
  a_slot_key :: string
  a_lease_expires_at :: datetime
  a_execution_deadline :: "datetime option"
  a_created_at :: datetime
  a_started_at :: "datetime option"
  a_finished_at :: "datetime option"
  a_last_heartbeat_at :: "datetime option"
  a_failure_kind :: "FailureKind option"
  a_failure_message :: string
  a_worker_retry_hint :: bool
  a_cancel_requested_at :: "datetime option"

record rejection_row =
  r_tenant :: TenantId
  r_generation :: GenerationId
  r_pool :: DevicePoolId

datatype ArtifactDirection = Input | Output

record ArtifactRow =
  f_tenant :: TenantId
  f_id :: ArtifactId
  f_generation :: "GenerationId option"
  f_attempt :: "AttemptId option"
  f_direction :: ArtifactDirection
  f_state :: ArtifactState
  f_placement :: ArtifactPlacement
  f_size_bytes :: int
  f_digest :: ContentHash
  f_kind :: MediaKind
  f_mime_type :: string
  f_object_key :: "string option"
  f_worker :: "WorkerId option"
  f_delivery_token :: "string option"
  f_committed_offset :: int
  f_created_at :: datetime
  f_available_at :: "datetime option"
  f_expires_at :: "datetime option"
  f_terminated_at :: "datetime option"
  f_content :: "u8 list option"

record idempotency_row =
  k_tenant :: TenantId
  k_key :: string
  k_request_digest :: "u8 list"
  k_generation :: GenerationId

datatype EventKind = StateChanged | Progress | AttemptCreated

record event_row =
  e_tenant :: TenantId
  e_id :: uuid
  e_generation :: GenerationId
  e_sequence :: int
  e_kind :: EventKind
  e_payload :: json
  e_created_at :: datetime

record db =
  db_workers :: "worker_row list"
  db_pools :: "pool_row list"
  db_pool_models :: "pool_model_row list"
  db_model_versions :: "model_version_row list"
  db_generations :: "GenerationRow list"
  db_attempts :: "AttemptRow list"
  db_rejections :: "rejection_row list"
  db_artifacts :: "ArtifactRow list"
  db_idempotency :: "idempotency_row list"
  db_events :: "event_row list"
  db_aliases :: "model_alias_row list"
  db_tenants :: "tenant_row list"
  db_master_keys :: "master_key_row list"

text \<open>
  The clocks of one statement: \<^verbatim>\<open>now()\<close>, fixed for the transaction,
  and \<^verbatim>\<open>clock_timestamp()\<close>/\<^verbatim>\<open>statement_timestamp()\<close>.
\<close>

record clocks =
  sql_now :: datetime
  sql_clock :: datetime

text \<open>
  The code outside the repository that the store's clients call: \<^verbatim>\<open>serde_json\<close> (the canonical
  bytes of a manifest, its JSON value and the two typed decoders), \<^verbatim>\<open>sha2\<close>, and the conversion of a duration
  into a PostgreSQL interval, which may be refused.
\<close>

record env =
  x_manifest_to_vec :: "ModelManifest \<Rightarrow> u8 list option"
  x_sha256 :: "u8 list \<Rightarrow> u8 list"
  x_manifest_from_json :: "json \<Rightarrow> ModelManifest option"
  x_params_from_json :: "json \<Rightarrow> GenerationParameters option"
  x_interval :: "duration \<Rightarrow> duration option"
  x_manifest_to_json :: "ModelManifest \<Rightarrow> json option"

datatype sql_error =
    RowNotFound
  | UniqueViolation string
  | ForeignKeyViolation string
  | NotNullViolation string
  | CheckViolation string
  | DecodeError string
  | EncodeError string
  | ConfigurationError

type_synonym 'a tx = "sql_error + 'a \<times> db"

section \<open>Keys\<close>

definition gkey :: "GenerationRow \<Rightarrow> TenantId \<times> GenerationId" where
  "gkey g = (g_tenant g, g_id g)"

definition akey :: "AttemptRow \<Rightarrow> TenantId \<times> AttemptId" where
  "akey a = (a_tenant a, a_id a)"

definition agen :: "AttemptRow \<Rightarrow> TenantId \<times> GenerationId" where
  "agen a = (a_tenant a, a_generation a)"

definition apool :: "AttemptRow \<Rightarrow> TenantId \<times> DevicePoolId" where
  "apool a = (a_tenant a, a_pool a)"

definition aworker :: "AttemptRow \<Rightarrow> TenantId \<times> WorkerId" where
  "aworker a = (a_tenant a, a_worker a)"

definition pkey :: "pool_row \<Rightarrow> TenantId \<times> DevicePoolId" where
  "pkey p = (p_tenant p, p_id p)"

definition wkey :: "worker_row \<Rightarrow> TenantId \<times> WorkerId" where
  "wkey w = (w_tenant w, w_id w)"

definition fkey :: "ArtifactRow \<Rightarrow> TenantId \<times> ArtifactId" where
  "fkey f = (f_tenant f, f_id f)"

lemmas key_defs = gkey_def akey_def agen_def apool_def aworker_def pkey_def wkey_def fkey_def

abbreviation is_live :: "AttemptRow \<Rightarrow> bool" where
  "is_live a \<equiv> AttemptState_is_live (a_state a)"

text \<open>
  The states in which a Generation may have a live Attempt. A cancelled Generation may still
  have one: an acknowledgement from an Attempt that had already settled cancels the Generation
  without ending the Attempt that runs now.
\<close>

definition hosts :: "GenerationState \<Rightarrow> bool" where
  "hosts s \<longleftrightarrow> GenerationState_is_active s \<or> s = GenerationState.Cancelled"

lemma hosts_simps [simp]:
  "hosts GenerationState.Running" "hosts GenerationState.Cancelling" "hosts GenerationState.Cancelled"
  "\<not> hosts GenerationState.Queued" "\<not> hosts GenerationState.Succeeded"
  "\<not> hosts GenerationState.Failed" "\<not> hosts GenerationState.Expired"
  by (simp_all add: hosts_def GenerationState_is_active_def)

abbreviation hosts_live :: "GenerationRow \<Rightarrow> bool" where
  "hosts_live g \<equiv> hosts (g_state g)"

section \<open>SQL primitives\<close>

text \<open>
  \<^verbatim>\<open>SELECT \<dots> WHERE\<close> on a key is \<^verbatim>\<open>find\<close>, \<^verbatim>\<open>UPDATE \<dots> WHERE\<close> is \<^verbatim>\<open>update_where\<close>,
  \<^verbatim>\<open>rows_affected\<close> counts the matching rows, and \<^verbatim>\<open>ORDER BY \<dots> LIMIT\<close> is a stable sort
  followed by \<^verbatim>\<open>take\<close>.
\<close>

definition update_where :: "('r \<Rightarrow> bool) \<Rightarrow> ('r \<Rightarrow> 'r) \<Rightarrow> 'r list \<Rightarrow> 'r list" where
  "update_where P f rows = map (\<lambda>r. if P r then f r else r) rows"

definition delete_where :: "('r \<Rightarrow> bool) \<Rightarrow> 'r list \<Rightarrow> 'r list" where
  "delete_where P rows = filter (\<lambda>r. \<not> P r) rows"

definition rows_affected :: "('r \<Rightarrow> bool) \<Rightarrow> 'r list \<Rightarrow> nat" where
  "rows_affected P rows = length (filter P rows)"

lemma set_update_where:
  "set (update_where P f rows) = (\<lambda>r. if P r then f r else r) ` set rows"
  by (simp add: update_where_def)

lemma map_update_where:
  "(\<And>r. P r \<Longrightarrow> k (f r) = k r) \<Longrightarrow> map k (update_where P f rows) = map k rows"
  by (simp add: update_where_def)

lemma update_where_none: "(\<And>r. r \<in> set rows \<Longrightarrow> \<not> P r) \<Longrightarrow> update_where P f rows = rows"
  by (induction rows) (auto simp: update_where_def)

lemma set_delete_where: "set (delete_where P rows) = {r \<in> set rows. \<not> P r}"
  by (auto simp: delete_where_def)

lemma distinct_delete_where: "distinct (map k rows) \<Longrightarrow> distinct (map k (delete_where P rows))"
  by (auto simp: delete_where_def distinct_map intro: inj_on_subset)

lemma rows_affected_0: "rows_affected P rows = 0 \<longleftrightarrow> (\<forall>r \<in> set rows. \<not> P r)"
  by (auto simp: rows_affected_def filter_empty_conv)

lemma find_snoc:
  "find P (xs @ [x]) = (case find P xs of Some y \<Rightarrow> Some y | None \<Rightarrow> if P x then Some x else None)"
  by (induction xs) simp_all

section \<open>Keyed tables\<close>

text \<open>
  A table of the store with its primary key: what a client may rely on when it looks a row up
  by key and updates the rows a guard selects among that key's.
\<close>

locale keyed_table =
  fixes rows :: "'db \<Rightarrow> 'r list"
    and set_rows :: "'r list \<Rightarrow> 'db \<Rightarrow> 'db"
    and key :: "'r \<Rightarrow> 'k"
  assumes rows_set: "rows (set_rows rs d) = rs"
    and set_set: "set_rows rs (set_rows rs' d) = set_rows rs d"
    and set_same: "set_rows (rows d) d = d"
begin

abbreviation unique_keys :: "'db \<Rightarrow> bool" where
  "unique_keys d \<equiv> distinct (map key (rows d))"

abbreviation lookup :: "'k \<Rightarrow> 'db \<Rightarrow> 'r option" where
  "lookup k d \<equiv> find (\<lambda>r. key r = k) (rows d)"

lemma lookup_SomeD: "lookup k d = Some r \<Longrightarrow> r \<in> set (rows d) \<and> key r = k"
  by (auto simp: find_Some_iff)

lemma lookup_None_iff: "lookup k d = None \<longleftrightarrow> (\<forall>r \<in> set (rows d). key r \<noteq> k)"
  by (auto simp: find_None_iff)

lemma key_unique:
  "unique_keys d \<Longrightarrow> r \<in> set (rows d) \<Longrightarrow> s \<in> set (rows d) \<Longrightarrow> key r = key s \<Longrightarrow> r = s"
  by (auto simp: distinct_map dest: inj_onD)

lemma lookup_Some_iff:
  "unique_keys d \<Longrightarrow> lookup k d = Some r \<longleftrightarrow> r \<in> set (rows d) \<and> key r = k"
  using lookup_SomeD [of k d] lookup_None_iff [of k d] key_unique [of d]
  by (cases "lookup k d") auto

lemma unique_update:
  assumes "\<And>r. P r \<Longrightarrow> key (f r) = key r"
  shows "unique_keys (set_rows (update_where P f (rows d)) d) = unique_keys d"
  using map_update_where [of P key f "rows d"] assms by (simp add: rows_set)

lemma lookup_update:
  assumes "\<And>r. P r \<Longrightarrow> key (f r) = key r"
  shows "lookup k (set_rows (update_where P f (rows d)) d) =
         map_option (\<lambda>r. if P r then f r else r) (lookup k d)"
proof -
  have "find (\<lambda>r. key r = k) (update_where P f rs) =
        map_option (\<lambda>r. if P r then f r else r) (find (\<lambda>r. key r = k) rs)" for rs
    using assms by (induction rs) (auto simp: update_where_def)
  then show ?thesis by (simp add: rows_set)
qed

lemma affected_one:
  assumes "unique_keys d" "\<And>r. P r \<Longrightarrow> key r = k"
  shows "rows_affected P (rows d) = 1 \<longleftrightarrow> (\<exists>r. lookup k d = Some r \<and> P r)"
    and "rows_affected P (rows d) \<le> 1"
proof -
  have le: "rows_affected P rs \<le> 1 \<and> (rows_affected P rs = 1 \<longleftrightarrow> (\<exists>r \<in> set rs. P r))"
    if "distinct (map key rs)" for rs
    using that
  proof (induction rs)
    case (Cons r rs)
    have "P r \<Longrightarrow> s \<in> set rs \<Longrightarrow> \<not> P s" for s
      using Cons.prems assms(2) [of r] assms(2) [of s] by (auto simp: image_iff)
    then have "P r \<Longrightarrow> filter P rs = []" by (simp add: filter_empty_conv)
    with Cons show ?case by (auto simp: rows_affected_def)
  qed (simp add: rows_affected_def)
  show "rows_affected P (rows d) = 1 \<longleftrightarrow> (\<exists>r. lookup k d = Some r \<and> P r)"
    using le [OF assms(1)] lookup_Some_iff [OF assms(1), of k] assms(2) by metis
  show "rows_affected P (rows d) \<le> 1" using le [OF assms(1)] by simp
qed

end

interpretation gens: keyed_table db_generations "\<lambda>rs d. d\<lparr>db_generations := rs\<rparr>" gkey
  by unfold_locales simp_all

interpretation atts: keyed_table db_attempts "\<lambda>rs d. d\<lparr>db_attempts := rs\<rparr>" akey
  by unfold_locales simp_all

interpretation pools: keyed_table db_pools "\<lambda>rs d. d\<lparr>db_pools := rs\<rparr>" pkey
  by unfold_locales simp_all

interpretation wrks: keyed_table db_workers "\<lambda>rs d. d\<lparr>db_workers := rs\<rparr>" wkey
  by unfold_locales simp_all

interpretation arts: keyed_table db_artifacts "\<lambda>rs d. d\<lparr>db_artifacts := rs\<rparr>" fkey
  by unfold_locales simp_all

end
