(* ===== verification/Store_Invariant.thy ===== *)
theory Store_Invariant
  imports Store
begin

text \<open>
  The invariant of the store and the lemmas by which the operations keep it. The invariant
  says that the keys are unique, the foreign keys resolve, every Pool's \<^verbatim>\<open>claimed_slots\<close> counter
  equals the number of live Attempts on it and fits its capacity, Attempt numbers are
  distinct and bounded by the Generation's counter, a live Attempt is the newest of an active
  Generation, and Generations have succeeded exactly when they have an accepted Attempt, which
  is the successful one.
\<close>

section \<open>The invariant\<close>

definition live_count :: "TenantId \<times> DevicePoolId \<Rightarrow> AttemptRow list \<Rightarrow> nat" where
  "live_count k atts = length (filter (\<lambda>a. is_live a \<and> apool a = k) atts)"

definition inv_keys :: "db \<Rightarrow> bool" where
  "inv_keys d \<longleftrightarrow>
     distinct (map gkey (db_generations d)) \<and> distinct (map akey (db_attempts d)) \<and>
     distinct (map pkey (db_pools d)) \<and> distinct (map wkey (db_workers d)) \<and>
     distinct (map fkey (db_artifacts d))"

definition inv_refs :: "db \<Rightarrow> bool" where
  "inv_refs d \<longleftrightarrow>
     (\<forall>a \<in> set (db_attempts d).
        agen a \<in> gkey ` set (db_generations d) \<and>
        apool a \<in> pkey ` set (db_pools d) \<and>
        aworker a \<in> wkey ` set (db_workers d))"

definition inv_slots :: "db \<Rightarrow> bool" where
  "inv_slots d \<longleftrightarrow>
     (\<forall>p \<in> set (db_pools d).
        p_claimed_slots p = int (live_count (pkey p) (db_attempts d)) \<and>
        p_claimed_slots p \<le> p_total_slots p)"

definition inv_numbers :: "db \<Rightarrow> bool" where
  "inv_numbers d \<longleftrightarrow>
     distinct (map (\<lambda>a. (agen a, a_attempt_number a)) (db_attempts d)) \<and>
     (\<forall>g \<in> set (db_generations d). 0 \<le> g_attempt_count g \<and> g_attempt_count g \<le> 3) \<and>
     (\<forall>a \<in> set (db_attempts d). \<forall>g \<in> set (db_generations d). agen a = gkey g \<longrightarrow>
        1 \<le> a_attempt_number a \<and> a_attempt_number a \<le> g_attempt_count g \<and>
        (is_live a \<longrightarrow> a_attempt_number a = g_attempt_count g \<and> hosts_live g))"

definition inv_results :: "db \<Rightarrow> bool" where
  "inv_results d \<longleftrightarrow>
     (\<forall>g \<in> set (db_generations d).
        (g_state g = GenerationState.Succeeded \<longleftrightarrow> g_accepted_attempt g \<noteq> None) \<and>
        (g_state g = GenerationState.Failed \<longrightarrow> g_failure_kind g \<noteq> None) \<and>
        (\<forall>i. g_accepted_attempt g = Some i \<longrightarrow>
           (\<exists>a \<in> set (db_attempts d). akey a = (g_tenant g, i) \<and> agen a = gkey g \<and>
              a_state a = AttemptState.Succeeded))) \<and>
     (\<forall>a \<in> set (db_attempts d). \<forall>g \<in> set (db_generations d).
        agen a = gkey g \<and> a_state a = AttemptState.Succeeded \<longrightarrow>
        g_accepted_attempt g = Some (a_id a))"

definition inv_outputs :: "db \<Rightarrow> bool" where
  "inv_outputs d \<longleftrightarrow>
     (\<forall>f \<in> set (db_artifacts d). \<forall>i. f_attempt f = Some i \<longrightarrow>
        (\<exists>a \<in> set (db_attempts d). akey a = (f_tenant f, i) \<and> a_state a = AttemptState.Succeeded))"

definition store_inv :: "db \<Rightarrow> bool" where
  "store_inv d \<longleftrightarrow>
     inv_keys d \<and> inv_refs d \<and> inv_slots d \<and> inv_numbers d \<and> inv_results d \<and> inv_outputs d"

lemmas inv_defs = inv_keys_def inv_refs_def inv_slots_def inv_numbers_def inv_results_def
  inv_outputs_def

definition empty_db :: db where
  "empty_db =
     \<lparr>db_workers = [], db_pools = [], db_pool_models = [], db_model_versions = [],
      db_generations = [], db_attempts = [], db_rejections = [], db_artifacts = [],
      db_idempotency = [], db_events = [], db_aliases = [], db_tenants = [], db_master_keys = []\<rparr>"

lemma store_inv_empty: "store_inv empty_db"
  by (simp add: store_inv_def inv_defs empty_db_def)

lemma store_invI [intro?]:
  "inv_keys d \<Longrightarrow> inv_refs d \<Longrightarrow> inv_slots d \<Longrightarrow> inv_numbers d \<Longrightarrow> inv_results d \<Longrightarrow>
   inv_outputs d \<Longrightarrow> store_inv d"
  by (simp add: store_inv_def)

lemma store_invD:
  assumes "store_inv d"
  shows "inv_keys d" "inv_refs d" "inv_slots d" "inv_numbers d" "inv_results d" "inv_outputs d"
  using assms by (simp_all add: store_inv_def)

text \<open>The tables the invariant does not mention.\<close>

lemma store_inv_other [simp]:
  "store_inv (d\<lparr>db_pool_models := x1\<rparr>) = store_inv d"
  "store_inv (d\<lparr>db_model_versions := x2\<rparr>) = store_inv d"
  "store_inv (d\<lparr>db_rejections := x3\<rparr>) = store_inv d"
  "store_inv (d\<lparr>db_idempotency := x4\<rparr>) = store_inv d"
  "store_inv (d\<lparr>db_events := x5\<rparr>) = store_inv d"
  "store_inv (d\<lparr>db_aliases := x6\<rparr>) = store_inv d"
  "store_inv (d\<lparr>db_tenants := x7\<rparr>) = store_inv d"
  "store_inv (d\<lparr>db_master_keys := x8\<rparr>) = store_inv d"
  by (simp_all add: store_inv_def inv_defs)

lemma inv_update_workers:
  assumes "store_inv d" "distinct (map wkey ws)" "wkey ` set (db_workers d) \<subseteq> wkey ` set ws"
  shows "store_inv (d\<lparr>db_workers := ws\<rparr>)"
  using assms by (auto simp: store_inv_def inv_defs)

section \<open>Consequences\<close>

lemma live_not_succeeded: "AttemptState_is_live s \<Longrightarrow> s \<noteq> AttemptState.Succeeded"
  by (auto simp: AttemptState_is_live_def)

lemma terminal_not_live: "AttemptState_is_terminal s \<Longrightarrow> \<not> AttemptState_is_live s"
  by (simp add: attempt_live_iff_nonterminal)

lemma hosts_not_succeeded: "hosts s \<Longrightarrow> s \<noteq> GenerationState.Succeeded"
  by auto

lemma inv_attempt_generation:
  assumes "store_inv d" "a \<in> set (db_attempts d)"
  obtains g where "g \<in> set (db_generations d)" "gkey g = agen a"
    "find (\<lambda>g. gkey g = agen a) (db_generations d) = Some g"
proof -
  obtain g where g: "g \<in> set (db_generations d)" "agen a = gkey g"
    using store_invD(2) [OF assms(1)] assms(2) by (auto simp: inv_refs_def)
  then have "find (\<lambda>g. gkey g = agen a) (db_generations d) = Some g"
    using store_invD(1) [OF assms(1)] by (subst gens.lookup_Some_iff) (simp_all add: inv_keys_def)
  with g that show thesis by simp
qed

lemma inv_live_unique:
  assumes "store_inv d" "a \<in> set (db_attempts d)" "b \<in> set (db_attempts d)"
    and "is_live a" "is_live b" "agen a = agen b"
  shows "a = b"
proof -
  obtain g where g: "g \<in> set (db_generations d)" "gkey g = agen a"
    by (rule inv_attempt_generation [OF assms(1,2)])
  have "a_attempt_number a = g_attempt_count g" "a_attempt_number b = g_attempt_count g"
    using store_invD(4) [OF assms(1)] assms(2-) g by (auto simp: inv_numbers_def)
  moreover have "inj_on (\<lambda>a. (agen a, a_attempt_number a)) (set (db_attempts d))"
    using store_invD(4) [OF assms(1)] by (simp add: inv_numbers_def distinct_map)
  ultimately show ?thesis using assms(2,3,6) by (auto dest: inj_onD)
qed

lemma inv_live_active:
  assumes "store_inv d" "a \<in> set (db_attempts d)" "is_live a" "g \<in> set (db_generations d)"
    and "agen a = gkey g"
  shows "hosts_live g" "a_attempt_number a = g_attempt_count g"
  using store_invD(4) [OF assms(1)] assms(2-) by (auto simp: inv_numbers_def)

lemma inv_pool_of:
  assumes "store_inv d" "a \<in> set (db_attempts d)"
  obtains p where "p \<in> set (db_pools d)" "pkey p = apool a"
  using store_invD(2) [OF assms(1)] assms(2) by (fastforce simp: inv_refs_def)

lemma inv_pool_counts:
  assumes "store_inv d" "p \<in> set (db_pools d)"
  shows "p_claimed_slots p = int (live_count (pkey p) (db_attempts d))"
    "p_claimed_slots p \<le> p_total_slots p"
  using store_invD(3) [OF assms(1)] assms(2) unfolding inv_slots_def by blast+

lemma live_count_pos:
  "a \<in> set atts \<Longrightarrow> is_live a \<Longrightarrow> 0 < live_count (apool a) atts"
  by (auto simp: live_count_def filter_empty_conv)

lemma bex_update_where:
  assumes "\<exists>r \<in> set rows. Q r" "\<And>r. P r \<Longrightarrow> Q r \<Longrightarrow> Q (f r)"
  shows "\<exists>r \<in> set (update_where P f rows). Q r"
proof -
  obtain r where r: "r \<in> set rows" "Q r" using assms(1) by blast
  then have "(if P r then f r else r) \<in> set (update_where P f rows)"
    unfolding set_update_where by blast
  moreover have "Q (if P r then f r else r)" using r assms(2) by simp
  ultimately show ?thesis by blast
qed

lemma set_update_one:
  assumes "a \<in> set rows" "\<And>r. r \<in> set rows \<Longrightarrow> P r \<longleftrightarrow> r = a"
  shows "set (update_where P f rows) = insert (f a) (set rows - {a})"
proof -
  have "(\<lambda>r. if P r then f r else r) ` set rows = (\<lambda>r. if r = a then f a else r) ` set rows"
    using assms(2) by (intro image_cong) auto
  also have "\<dots> = insert (f a) (set rows - {a})" using assms(1) by auto
  finally show ?thesis by (simp add: set_update_where)
qed

section \<open>Counting\<close>

lemma length_filter_update_one:
  assumes "distinct (map key rows)" "x \<in> set rows" "\<And>r. r \<in> set rows \<Longrightarrow> P r \<longleftrightarrow> key r = key x"
  shows "length (filter Q (update_where P f rows)) + (if Q x then 1 else 0) =
         length (filter Q rows) + (if Q (f x) then 1 else 0)"
  using assms
proof (induction rows)
  case (Cons r rows)
  show ?case
  proof (cases "key r = key x")
    case True
    then have "r = x" using Cons.prems(1,2) by (auto simp: image_iff)
    moreover have "update_where P f rows = rows"
      using Cons.prems(1,3) True by (intro update_where_none) (auto simp: image_iff)
    ultimately show ?thesis using Cons.prems(3) [of x] by (simp add: update_where_def)
  next
    case False
    then have "x \<in> set rows" "\<not> P r" using Cons.prems(2,3) by auto
    with Cons.IH Cons.prems show ?thesis by (simp add: update_where_def)
  qed
qed simp

lemma length_filter_delete_one:
  assumes "distinct (map key rows)" "x \<in> set rows" "\<And>r. r \<in> set rows \<Longrightarrow> P r \<longleftrightarrow> key r = key x"
  shows "length (filter Q (delete_where P rows)) + (if Q x then 1 else 0) = length (filter Q rows)"
  using assms
proof (induction rows)
  case (Cons r rows)
  show ?case
  proof (cases "key r = key x")
    case True
    then have "r = x" using Cons.prems(1,2) by (auto simp: image_iff)
    moreover have "delete_where P rows = rows"
      using Cons.prems(1,3) True by (auto simp: delete_where_def filter_id_conv image_iff)
    ultimately show ?thesis using Cons.prems(3) [of x] by (simp add: delete_where_def)
  next
    case False
    then have "x \<in> set rows" "\<not> P r" using Cons.prems(2,3) by auto
    with Cons.IH Cons.prems show ?thesis by (simp add: delete_where_def)
  qed
qed simp

lemma live_count_cong:
  assumes "\<And>a. P a \<Longrightarrow> is_live (f a) = is_live a \<and> apool (f a) = apool a"
  shows "live_count k (update_where P f atts) = live_count k atts"
  using assms by (induction atts) (auto simp: live_count_def update_where_def)

section \<open>Updating one table\<close>

text \<open>Generation rows: the key, counter and result stay, and an inactive new state needs that
  no live Attempt is left.\<close>

lemma inv_recount_generations:
  assumes inv: "store_inv d"
    and keep: "\<And>g. P g \<Longrightarrow> g \<in> set (db_generations d) \<Longrightarrow>
      gkey (f g) = gkey g \<and> g_accepted_attempt (f g) = g_accepted_attempt g \<and>
      (g_state (f g) = GenerationState.Succeeded \<longleftrightarrow> g_state g = GenerationState.Succeeded) \<and>
      (g_state (f g) = GenerationState.Failed \<longrightarrow> g_failure_kind (f g) \<noteq> None) \<and>
      0 \<le> g_attempt_count (f g) \<and> g_attempt_count (f g) \<le> 3"
    and nums: "\<And>g a. P g \<Longrightarrow> g \<in> set (db_generations d) \<Longrightarrow> a \<in> set (db_attempts d) \<Longrightarrow>
      agen a = gkey g \<Longrightarrow> a_attempt_number a \<le> g_attempt_count (f g) \<and>
        (is_live a \<longrightarrow> a_attempt_number a = g_attempt_count (f g) \<and> hosts_live (f g))"
  shows "store_inv (d\<lparr>db_generations := update_where P f (db_generations d)\<rparr>)"
proof -
  let ?d = "d\<lparr>db_generations := update_where P f (db_generations d)\<rparr>"
  have keys: "map gkey (update_where P f (db_generations d)) = map gkey (db_generations d)"
    using keep by (auto simp: update_where_def)
  then have kset: "gkey ` set (update_where P f (db_generations d)) = gkey ` set (db_generations d)"
    by (metis set_map)
  show ?thesis
  proof
    show "inv_keys ?d" using store_invD(1) [OF inv] keys by (simp add: inv_keys_def)
    show "inv_refs ?d" using store_invD(2) [OF inv] kset by (simp add: inv_refs_def)
    show "inv_slots ?d" using store_invD(3) [OF inv] by (auto simp: inv_slots_def)
    show "inv_outputs ?d" using store_invD(6) [OF inv] by (simp add: inv_outputs_def)
    show "inv_numbers ?d"
      using store_invD(4) [OF inv] keep nums
      unfolding inv_numbers_def by (fastforce simp: set_update_where)
    show "inv_results ?d"
      using store_invD(5) [OF inv] keep unfolding inv_results_def
      by (fastforce simp: set_update_where key_defs)
  qed
qed

lemma inv_update_generations:
  assumes inv: "store_inv d"
    and keep: "\<And>g. P g \<Longrightarrow> g \<in> set (db_generations d) \<Longrightarrow>
      gkey (f g) = gkey g \<and> g_attempt_count (f g) = g_attempt_count g \<and>
      g_accepted_attempt (f g) = g_accepted_attempt g \<and>
      (g_state (f g) = GenerationState.Succeeded \<longleftrightarrow> g_state g = GenerationState.Succeeded) \<and>
      (g_state (f g) = GenerationState.Failed \<longrightarrow> g_failure_kind (f g) \<noteq> None)"
    and live: "\<And>g a. P g \<Longrightarrow> g \<in> set (db_generations d) \<Longrightarrow> a \<in> set (db_attempts d) \<Longrightarrow>
      is_live a \<Longrightarrow> agen a = gkey g \<Longrightarrow> hosts_live (f g)"
  shows "store_inv (d\<lparr>db_generations := update_where P f (db_generations d)\<rparr>)"
proof (rule inv_recount_generations [OF inv])
  fix g assume g: "P g" "g \<in> set (db_generations d)"
  then show "gkey (f g) = gkey g \<and> g_accepted_attempt (f g) = g_accepted_attempt g \<and>
      (g_state (f g) = GenerationState.Succeeded \<longleftrightarrow> g_state g = GenerationState.Succeeded) \<and>
      (g_state (f g) = GenerationState.Failed \<longrightarrow> g_failure_kind (f g) \<noteq> None) \<and>
      0 \<le> g_attempt_count (f g) \<and> g_attempt_count (f g) \<le> 3"
    using keep [OF g] store_invD(4) [OF inv] by (simp add: inv_numbers_def)
  fix a assume a: "a \<in> set (db_attempts d)" "agen a = gkey g"
  then show "a_attempt_number a \<le> g_attempt_count (f g) \<and>
        (is_live a \<longrightarrow> a_attempt_number a = g_attempt_count (f g) \<and> hosts_live (f g))"
    using keep [OF g] live [OF g a(1) _ a(2)] store_invD(4) [OF inv] g(2)
    unfolding inv_numbers_def by metis
qed

text \<open>Attempt rows: every reference, the number, liveness and success stay.\<close>

definition same_attempt :: "AttemptRow \<Rightarrow> AttemptRow \<Rightarrow> bool" where
  "same_attempt b a \<longleftrightarrow>
     akey b = akey a \<and> agen b = agen a \<and> apool b = apool a \<and> aworker b = aworker a \<and>
     a_attempt_number b = a_attempt_number a \<and> is_live b = is_live a \<and>
     (a_state b = AttemptState.Succeeded \<longleftrightarrow> a_state a = AttemptState.Succeeded)"

lemma same_attempt_refl [simp]: "same_attempt a a"
  by (simp add: same_attempt_def)

lemma inv_update_attempts:
  assumes inv: "store_inv d" and keep: "\<And>a. P a \<Longrightarrow> same_attempt (f a) a"
  shows "store_inv (d\<lparr>db_attempts := update_where P f (db_attempts d)\<rparr>)"
proof -
  let ?bs = "update_where P f (db_attempts d)"
  let ?d = "d\<lparr>db_attempts := ?bs\<rparr>"
  have sim: "same_attempt (if P a then f a else a) a" for a using keep by simp
  have maps: "map akey ?bs = map akey (db_attempts d)"
    "map (\<lambda>a. (agen a, a_attempt_number a)) ?bs =
       map (\<lambda>a. (agen a, a_attempt_number a)) (db_attempts d)"
    using sim by (auto simp: update_where_def same_attempt_def)
  have origin: "\<exists>a \<in> set (db_attempts d). same_attempt b a" if "b \<in> set ?bs" for b
    using that sim unfolding set_update_where by blast
  have image_of: "\<exists>b \<in> set ?bs. same_attempt b a" if "a \<in> set (db_attempts d)" for a
    using that sim [of a] unfolding set_update_where by blast
  have ids: "a_id b = a_id a" if "same_attempt b a" for a b
    using that by (simp add: same_attempt_def key_defs)
  show ?thesis
  proof
    show "inv_keys ?d" using store_invD(1) [OF inv] maps by (simp add: inv_keys_def)
    show "inv_refs ?d" using store_invD(2) [OF inv] origin
      by (fastforce simp: inv_refs_def same_attempt_def)
    show "inv_slots ?d" using store_invD(3) [OF inv] keep
      by (auto simp: inv_slots_def live_count_cong same_attempt_def)
    show "inv_outputs ?d"
    proof -
      have "\<exists>b \<in> set ?bs. akey b = k \<and> a_state b = AttemptState.Succeeded"
        if "\<exists>a \<in> set (db_attempts d). akey a = k \<and> a_state a = AttemptState.Succeeded" for k
        using that image_of by (fastforce simp: same_attempt_def)
      then show ?thesis using store_invD(6) [OF inv] by (simp add: inv_outputs_def)
    qed
    show "inv_numbers ?d"
    proof -
      have "1 \<le> a_attempt_number b \<and> a_attempt_number b \<le> g_attempt_count g \<and>
          (is_live b \<longrightarrow> a_attempt_number b = g_attempt_count g \<and> hosts_live g)"
        if b: "b \<in> set ?bs" and g: "g \<in> set (db_generations d)" "agen b = gkey g" for b g
      proof -
        obtain a where a: "a \<in> set (db_attempts d)" "same_attempt b a" using origin [OF b] by blast
        then have "agen a = gkey g" using g(2) by (simp add: same_attempt_def)
        then have "1 \<le> a_attempt_number a \<and> a_attempt_number a \<le> g_attempt_count g \<and>
            (is_live a \<longrightarrow> a_attempt_number a = g_attempt_count g \<and> hosts_live g)"
          using store_invD(4) [OF inv] a(1) g(1) unfolding inv_numbers_def by blast
        then show ?thesis using a(2) by (simp add: same_attempt_def)
      qed
      then show ?thesis using store_invD(4) [OF inv] maps(2) by (simp add: inv_numbers_def)
    qed
    show "inv_results ?d"
    proof -
      have acc: "\<exists>b \<in> set ?bs. akey b = k \<and> agen b = j \<and> a_state b = AttemptState.Succeeded"
        if ex: "\<exists>a \<in> set (db_attempts d). akey a = k \<and> agen a = j \<and>
              a_state a = AttemptState.Succeeded" for k j
      proof -
        obtain a where a: "a \<in> set (db_attempts d)" "akey a = k" "agen a = j"
          "a_state a = AttemptState.Succeeded" using ex by blast
        obtain b where "b \<in> set ?bs" "same_attempt b a" using image_of [OF a(1)] by blast
        with a show ?thesis by (intro bexI [of _ b]) (simp_all add: same_attempt_def)
      qed
      have suc: "g_accepted_attempt g = Some (a_id b)"
        if b: "b \<in> set ?bs" and g: "g \<in> set (db_generations d)" "agen b = gkey g"
          "a_state b = AttemptState.Succeeded" for b g
      proof -
        obtain a where a: "a \<in> set (db_attempts d)" "same_attempt b a" using origin [OF b] by blast
        then have "agen a = gkey g" "a_state a = AttemptState.Succeeded" "a_id b = a_id a"
          using g ids [OF a(2)] by (simp_all add: same_attempt_def)
        then show ?thesis
          using store_invD(5) [OF inv] a(1) g(1) unfolding inv_results_def by metis
      qed
      show ?thesis
        using store_invD(5) [OF inv] suc unfolding inv_results_def
        by (auto intro!: acc)
    qed
  qed
qed

section \<open>Attempts that end\<close>

text \<open>
  The Attempts shrink: each remaining one was there with the same references and number and
  was live if it still is, the successful ones are the same, and the Pool counters follow.
\<close>

lemma inv_shrink:
  assumes inv: "store_inv d"
    and keys: "distinct (map akey bs)" "distinct (map (\<lambda>a. (agen a, a_attempt_number a)) bs)"
    and orig: "\<And>b. b \<in> set bs \<Longrightarrow> \<exists>a \<in> set (db_attempts d).
      agen b = agen a \<and> apool b = apool a \<and> aworker b = aworker a \<and>
      a_attempt_number b = a_attempt_number a \<and> (is_live b \<longrightarrow> is_live a)"
    and succ: "{b \<in> set bs. a_state b = AttemptState.Succeeded} =
               {a \<in> set (db_attempts d). a_state a = AttemptState.Succeeded}"
    and pools: "distinct (map pkey ps)" "\<And>b. b \<in> set bs \<Longrightarrow> apool b \<in> pkey ` set ps"
    and slots: "\<And>p. p \<in> set ps \<Longrightarrow>
      p_claimed_slots p = int (live_count (pkey p) bs) \<and> p_claimed_slots p \<le> p_total_slots p"
  shows "store_inv (d\<lparr>db_attempts := bs, db_pools := ps\<rparr>)"
proof
  let ?d = "d\<lparr>db_attempts := bs, db_pools := ps\<rparr>"
  have sin: "b \<in> set bs \<and> a_state b = AttemptState.Succeeded \<longleftrightarrow>
      b \<in> set (db_attempts d) \<and> a_state b = AttemptState.Succeeded" for b
    using succ by blast
  show "inv_keys ?d" using store_invD(1) [OF inv] keys(1) pools by (simp add: inv_keys_def)
  show "inv_slots ?d"
    unfolding inv_slots_def
  proof
    fix p assume "p \<in> set (db_pools ?d)"
    then have "p \<in> set ps" by simp
    from slots [OF this]
    show "p_claimed_slots p = int (live_count (pkey p) (db_attempts ?d)) \<and>
        p_claimed_slots p \<le> p_total_slots p" by simp
  qed
  show "inv_outputs ?d" using store_invD(6) [OF inv] sin
    unfolding inv_outputs_def by simp blast
  show "inv_refs ?d"
  proof -
    have "agen b \<in> gkey ` set (db_generations d) \<and> aworker b \<in> wkey ` set (db_workers d)"
      if b: "b \<in> set bs" for b
    proof -
      obtain a where "a \<in> set (db_attempts d)" "agen b = agen a" "aworker b = aworker a"
        using orig [OF b] by blast
      then show ?thesis using store_invD(2) [OF inv] by (simp add: inv_refs_def)
    qed
    then show ?thesis using pools(2) by (simp add: inv_refs_def)
  qed
  show "inv_numbers ?d"
  proof -
    have "1 \<le> a_attempt_number b \<and> a_attempt_number b \<le> g_attempt_count g \<and>
        (is_live b \<longrightarrow> a_attempt_number b = g_attempt_count g \<and> hosts_live g)"
      if b: "b \<in> set bs" and g: "g \<in> set (db_generations d)" "agen b = gkey g" for b g
    proof -
      obtain a where a: "a \<in> set (db_attempts d)" "agen b = agen a"
        "a_attempt_number b = a_attempt_number a" "is_live b \<longrightarrow> is_live a"
        using orig [OF b] by blast
      then have "agen a = gkey g" using g(2) by simp
      then have "1 \<le> a_attempt_number a \<and> a_attempt_number a \<le> g_attempt_count g \<and>
          (is_live a \<longrightarrow> a_attempt_number a = g_attempt_count g \<and> hosts_live g)"
        using store_invD(4) [OF inv] a(1) g(1) unfolding inv_numbers_def by blast
      then show ?thesis using a by simp
    qed
    then show ?thesis using store_invD(4) [OF inv] keys(2) by (simp add: inv_numbers_def)
  qed
  show "inv_results ?d"
    using store_invD(5) [OF inv] sin unfolding inv_results_def by simp blast
qed

lemma inv_attempts_shrink:
  assumes inv: "store_inv d"
    and keys: "distinct (map akey bs)" "distinct (map (\<lambda>a. (agen a, a_attempt_number a)) bs)"
    and orig: "\<And>b. b \<in> set bs \<Longrightarrow> \<exists>a \<in> set (db_attempts d).
      agen b = agen a \<and> apool b = apool a \<and> aworker b = aworker a \<and>
      a_attempt_number b = a_attempt_number a \<and> (is_live b \<longrightarrow> is_live a)"
    and succ: "{b \<in> set bs. a_state b = AttemptState.Succeeded} =
               {a \<in> set (db_attempts d). a_state a = AttemptState.Succeeded}"
    and pools: "map pkey ps = map pkey (db_pools d)"
    and slots: "\<And>p. p \<in> set ps \<Longrightarrow>
      p_claimed_slots p = int (live_count (pkey p) bs) \<and> p_claimed_slots p \<le> p_total_slots p"
  shows "store_inv (d\<lparr>db_attempts := bs, db_pools := ps\<rparr>)"
proof (rule inv_shrink [OF inv keys orig succ _ _ slots])
  show "distinct (map pkey ps)" using pools store_invD(1) [OF inv] by (simp add: inv_keys_def)
  have pset: "pkey ` set ps = pkey ` set (db_pools d)" using pools by (metis set_map)
  show "apool b \<in> pkey ` set ps" if "b \<in> set bs" for b
    using orig [OF that] store_invD(2) [OF inv] by (auto simp: inv_refs_def pset)
qed

text \<open>The Pools alone change: their keys stay unique and cover the Attempts.\<close>

lemma inv_update_pools:
  assumes inv: "store_inv d" and pools: "distinct (map pkey ps)" "pkey ` set (db_pools d) \<subseteq> pkey ` set ps"
    and slots: "\<And>p. p \<in> set ps \<Longrightarrow>
      p_claimed_slots p = int (live_count (pkey p) (db_attempts d)) \<and>
      p_claimed_slots p \<le> p_total_slots p"
  shows "store_inv (d\<lparr>db_pools := ps\<rparr>)"
proof -
  have "store_inv (d\<lparr>db_attempts := db_attempts d, db_pools := ps\<rparr>)"
  proof (rule inv_shrink [OF inv _ _ _ _ pools(1) _ slots])
    show "apool b \<in> pkey ` set ps" if "b \<in> set (db_attempts d)" for b
      using store_invD(2) [OF inv] pools(2) that by (auto simp: inv_refs_def)
  qed (use store_invD(1,4) [OF inv] in \<open>auto simp: inv_keys_def inv_numbers_def\<close>)
  then show ?thesis by simp
qed

definition release_in :: "TenantId \<times> DevicePoolId \<Rightarrow> datetime \<Rightarrow> pool_row list \<Rightarrow> pool_row list" where
  "release_in k now = update_where (\<lambda>p. pkey p = k)
     (\<lambda>p. p\<lparr>p_claimed_slots := max (p_claimed_slots p - 1) 0, p_updated_at := now\<rparr>)"

lemma release_in_keys [simp]: "map pkey (release_in k now ps) = map pkey ps"
  unfolding release_in_def by (rule map_update_where) (simp add: pkey_def)

lemma release_in_slots:
  assumes "inv_slots d" "0 < live_count k (db_attempts d)"
    and "\<And>j. live_count j bs + (if j = k then 1 else 0) = live_count j (db_attempts d)"
    and "p \<in> set (release_in k now (db_pools d))"
  shows "p_claimed_slots p = int (live_count (pkey p) bs) \<and> p_claimed_slots p \<le> p_total_slots p"
proof -
  obtain q where q: "q \<in> set (db_pools d)" "p = (if pkey q = k
      then q\<lparr>p_claimed_slots := max (p_claimed_slots q - 1) 0, p_updated_at := now\<rparr> else q)"
    using assms(4) by (auto simp: release_in_def set_update_where)
  have "p_claimed_slots q = int (live_count (pkey q) (db_attempts d))"
    "p_claimed_slots q \<le> p_total_slots q" "pkey p = pkey q"
    using assms(1) q by (auto simp: inv_slots_def pkey_def)
  then show ?thesis using assms(2) assms(3) [of "pkey q"] q(2) by auto
qed

text \<open>Ending one live Attempt without success, and releasing its slot.\<close>

lemma inv_settle:
  assumes inv: "store_inv d" and a: "a \<in> set (db_attempts d)" "is_live a"
    and P: "\<And>b. b \<in> set (db_attempts d) \<Longrightarrow> P b \<longleftrightarrow> akey b = akey a"
    and f: "akey (f a) = akey a" "agen (f a) = agen a" "apool (f a) = apool a"
      "aworker (f a) = aworker a" "a_attempt_number (f a) = a_attempt_number a"
      "\<not> is_live (f a)" "a_state (f a) \<noteq> AttemptState.Succeeded"
  shows "store_inv (d\<lparr>db_attempts := update_where P f (db_attempts d),
                     db_pools := release_in (apool a) now (db_pools d)\<rparr>)"
proof (rule inv_attempts_shrink [OF inv])
  let ?bs = "update_where P f (db_attempts d)"
  have dist: "distinct (map akey (db_attempts d))" using store_invD(1) [OF inv] by (simp add: inv_keys_def)
  have only: "P b \<Longrightarrow> b \<in> set (db_attempts d) \<Longrightarrow> b = a" for b
    using P [of b] a(1) dist by (auto simp: distinct_map dest: inj_onD)
  have maps: "map akey ?bs = map akey (db_attempts d)"
    "map (\<lambda>a. (agen a, a_attempt_number a)) ?bs =
     map (\<lambda>a. (agen a, a_attempt_number a)) (db_attempts d)"
    using only f by (auto simp: update_where_def)
  show "distinct (map akey ?bs)" using dist maps by simp
  show "distinct (map (\<lambda>a. (agen a, a_attempt_number a)) ?bs)"
    using store_invD(4) [OF inv] maps by (simp add: inv_numbers_def)
  show "\<exists>a \<in> set (db_attempts d).
      agen b = agen a \<and> apool b = apool a \<and> aworker b = aworker a \<and>
      a_attempt_number b = a_attempt_number a \<and> (is_live b \<longrightarrow> is_live a)" if "b \<in> set ?bs" for b
    using that only f a by (auto simp: set_update_where)
  show "{b \<in> set ?bs. a_state b = AttemptState.Succeeded} =
      {a \<in> set (db_attempts d). a_state a = AttemptState.Succeeded}"
    using only f a live_not_succeeded by (fastforce simp: set_update_where image_iff)
  show "p_claimed_slots p = int (live_count (pkey p) ?bs) \<and> p_claimed_slots p \<le> p_total_slots p"
    if "p \<in> set (release_in (apool a) now (db_pools d))" for p
  proof (rule release_in_slots [OF store_invD(3) [OF inv] _ _ that])
    show "0 < live_count (apool a) (db_attempts d)" using a by (rule live_count_pos)
    show "live_count j ?bs + (if j = apool a then 1 else 0) = live_count j (db_attempts d)" for j
      using length_filter_update_one [OF dist a(1) P, of "\<lambda>b. is_live b \<and> apool b = j" f] f a(2)
      by (auto simp: live_count_def split: if_splits)
  qed
qed simp

text \<open>Deleting one live Attempt and releasing its slot.\<close>

lemma inv_delete_live:
  assumes inv: "store_inv d" and a: "a \<in> set (db_attempts d)" "is_live a"
    and P: "\<And>b. b \<in> set (db_attempts d) \<Longrightarrow> P b \<longleftrightarrow> akey b = akey a"
  shows "store_inv (d\<lparr>db_attempts := delete_where P (db_attempts d),
                     db_pools := release_in (apool a) now (db_pools d)\<rparr>)"
proof (rule inv_attempts_shrink [OF inv])
  let ?bs = "delete_where P (db_attempts d)"
  have dist: "distinct (map akey (db_attempts d))" using store_invD(1) [OF inv] by (simp add: inv_keys_def)
  have only: "P b \<Longrightarrow> b \<in> set (db_attempts d) \<Longrightarrow> b = a" for b
    using P [of b] a(1) dist by (auto simp: distinct_map dest: inj_onD)
  show "distinct (map akey ?bs)" by (rule distinct_delete_where [OF dist])
  show "distinct (map (\<lambda>a. (agen a, a_attempt_number a)) ?bs)"
    using store_invD(4) [OF inv] by (intro distinct_delete_where) (simp add: inv_numbers_def)
  show "\<exists>a \<in> set (db_attempts d).
      agen b = agen a \<and> apool b = apool a \<and> aworker b = aworker a \<and>
      a_attempt_number b = a_attempt_number a \<and> (is_live b \<longrightarrow> is_live a)" if "b \<in> set ?bs" for b
    using that by (auto simp: set_delete_where)
  show "{b \<in> set ?bs. a_state b = AttemptState.Succeeded} =
      {a \<in> set (db_attempts d). a_state a = AttemptState.Succeeded}"
    using only a live_not_succeeded by (auto simp: set_delete_where)
  show "p_claimed_slots p = int (live_count (pkey p) ?bs) \<and> p_claimed_slots p \<le> p_total_slots p"
    if "p \<in> set (release_in (apool a) now (db_pools d))" for p
  proof (rule release_in_slots [OF store_invD(3) [OF inv] _ _ that])
    show "0 < live_count (apool a) (db_attempts d)" using a by (rule live_count_pos)
    show "live_count j ?bs + (if j = apool a then 1 else 0) = live_count j (db_attempts d)" for j
      using length_filter_delete_one [OF dist a(1) P, of "\<lambda>b. is_live b \<and> apool b = j"] a(2)
      by (auto simp: live_count_def split: if_splits)
  qed
qed simp

section \<open>Accepting a result\<close>

lemma inv_accept:
  assumes inv: "store_inv d" and a: "a \<in> set (db_attempts d)" "is_live a"
    and P: "\<And>b. b \<in> set (db_attempts d) \<Longrightarrow> P b \<longleftrightarrow> akey b = akey a"
    and f: "akey (f a) = akey a" "agen (f a) = agen a" "apool (f a) = apool a"
      "aworker (f a) = aworker a" "a_attempt_number (f a) = a_attempt_number a"
      "a_state (f a) = AttemptState.Succeeded"
    and h: "\<And>g. gkey g = agen a \<Longrightarrow>
      gkey (h g) = gkey g \<and> g_attempt_count (h g) = g_attempt_count g \<and>
      g_state (h g) = GenerationState.Succeeded \<and> g_accepted_attempt (h g) = Some (a_id a)"
  shows "store_inv (d\<lparr>db_attempts := update_where P f (db_attempts d),
                     db_pools := release_in (apool a) now (db_pools d),
                     db_generations := update_where (\<lambda>g. gkey g = agen a) h (db_generations d)\<rparr>)"
proof -
  let ?bs = "update_where P f (db_attempts d)"
  let ?gs = "update_where (\<lambda>g. gkey g = agen a) h (db_generations d)"
  let ?ps = "release_in (apool a) now (db_pools d)"
  let ?d = "d\<lparr>db_attempts := ?bs, db_pools := ?ps, db_generations := ?gs\<rparr>"
  have dist: "distinct (map akey (db_attempts d))" using store_invD(1) [OF inv] by (simp add: inv_keys_def)
  have only: "P b \<Longrightarrow> b \<in> set (db_attempts d) \<Longrightarrow> b = a" for b
    using P [of b] a(1) dist by (auto simp: distinct_map dest: inj_onD)
  have Pa: "P a" using P a by simp
  have maps: "map akey ?bs = map akey (db_attempts d)"
    "map (\<lambda>a. (agen a, a_attempt_number a)) ?bs =
     map (\<lambda>a. (agen a, a_attempt_number a)) (db_attempts d)"
    "map gkey ?gs = map gkey (db_generations d)"
    using only f h by (auto simp: update_where_def)
  have gset: "gkey ` set ?gs = gkey ` set (db_generations d)" using maps(3) by (metis set_map)
  have pset: "pkey ` set ?ps = pkey ` set (db_pools d)" by (metis release_in_keys set_map)
  have bset: "b \<in> set ?bs \<longleftrightarrow> b = f a \<or> b \<in> set (db_attempts d) \<and> b \<noteq> a" for b
    using set_update_one [OF a(1), of P f] only Pa by blast
  have fa: "\<not> is_live (f a)" using f(6) by (simp add: AttemptState_is_live_def)
  have fid: "a_id (f a) = a_id a" using f(1) by (simp add: key_defs)
  have other: "\<not> is_live b" if "b \<in> set (db_attempts d)" "b \<noteq> a" "agen b = agen a" for b
    using inv_live_unique [OF inv that(1) a(1) _ a(2) that(3)] that(2) by blast
  have noacc: "a_state b \<noteq> AttemptState.Succeeded"
    if b: "b \<in> set (db_attempts d)" "agen b = agen a" for b
  proof
    assume s: "a_state b = AttemptState.Succeeded"
    obtain g where g: "g \<in> set (db_generations d)" "gkey g = agen a"
      by (rule inv_attempt_generation [OF inv a(1)])
    then have "g_accepted_attempt g = Some (a_id b)"
      using store_invD(5) [OF inv] b s unfolding inv_results_def by metis
    then have "g_state g = GenerationState.Succeeded"
      using store_invD(5) [OF inv] g(1) unfolding inv_results_def by auto
    with inv_live_active(1) [OF inv a g(1) g(2) [symmetric]] show False
      by (auto dest: hosts_not_succeeded)
  qed
  show ?thesis
  proof
    show "inv_keys ?d" using store_invD(1) [OF inv] maps by (simp add: inv_keys_def)
    show "inv_refs ?d"
      using store_invD(2) [OF inv] a(1) f by (auto simp: inv_refs_def gset pset bset)
    show "inv_slots ?d"
      unfolding inv_slots_def
    proof
      fix p assume "p \<in> set (db_pools ?d)"
      then have p: "p \<in> set ?ps" by simp
      have "live_count j ?bs + (if j = apool a then 1 else 0) = live_count j (db_attempts d)" for j
        using length_filter_update_one [OF dist a(1) P, of "\<lambda>b. is_live b \<and> apool b = j" f] fa a(2)
        by (auto simp: live_count_def split: if_splits)
      from release_in_slots [OF store_invD(3) [OF inv] live_count_pos [OF a] this p]
      show "p_claimed_slots p = int (live_count (pkey p) (db_attempts ?d)) \<and>
          p_claimed_slots p \<le> p_total_slots p" by simp
    qed
    show "inv_numbers ?d"
    proof -
      have "1 \<le> a_attempt_number b \<and> a_attempt_number b \<le> g_attempt_count g \<and>
          (is_live b \<longrightarrow> a_attempt_number b = g_attempt_count g \<and> hosts_live g)"
        if b: "b \<in> set ?bs" and g: "g \<in> set ?gs" "agen b = gkey g" for b g
      proof -
        obtain g0 where g0: "g0 \<in> set (db_generations d)"
          "g = (if gkey g0 = agen a then h g0 else g0)"
          using g(1) by (auto simp: set_update_where)
        then have gk: "gkey g = gkey g0" "g_attempt_count g = g_attempt_count g0" using h by auto
        obtain b0 where b0: "b0 \<in> set (db_attempts d)" "agen b = agen b0"
          "a_attempt_number b = a_attempt_number b0" "is_live b \<longrightarrow> b = b0 \<and> b0 \<noteq> a"
          using b a(1) f fa unfolding bset by fastforce
        have old: "1 \<le> a_attempt_number b0 \<and> a_attempt_number b0 \<le> g_attempt_count g0 \<and>
            (is_live b0 \<longrightarrow> a_attempt_number b0 = g_attempt_count g0 \<and> hosts_live g0)"
          using store_invD(4) [OF inv] b0(1,2) g0(1) g(2) gk(1) unfolding inv_numbers_def by metis
        have same: "g = g0" if lb: "is_live b"
        proof -
          have "agen b0 \<noteq> agen a" using other [OF b0(1)] b0(4) lb by blast
          then show ?thesis using g0(2) gk(1) g(2) b0(2) by simp
        qed
        show ?thesis
        proof (cases "is_live b")
          case True
          then have "b = b0" using b0(4) by blast
          then show ?thesis using old same [OF True] by simp
        qed (use old b0(3) gk(2) in simp)
      qed
      moreover have "0 \<le> g_attempt_count g \<and> g_attempt_count g \<le> 3" if "g \<in> set ?gs" for g
        using that store_invD(4) [OF inv] h by (auto simp: set_update_where inv_numbers_def)
      ultimately show ?thesis
        using store_invD(4) [OF inv] maps(2) by (simp add: inv_numbers_def)
    qed
    show "inv_results ?d"
    proof -
      have res: "(g_state g = GenerationState.Succeeded \<longleftrightarrow> g_accepted_attempt g \<noteq> None) \<and>
          (g_state g = GenerationState.Failed \<longrightarrow> g_failure_kind g \<noteq> None) \<and>
          (\<forall>i. g_accepted_attempt g = Some i \<longrightarrow>
             (\<exists>b \<in> set ?bs. akey b = (g_tenant g, i) \<and> agen b = gkey g \<and>
                a_state b = AttemptState.Succeeded))" if g: "g \<in> set ?gs" for g
      proof -
        obtain g0 where g0: "g0 \<in> set (db_generations d)"
          "g = (if gkey g0 = agen a then h g0 else g0)"
          using g by (auto simp: set_update_where)
        show ?thesis
        proof (cases "gkey g0 = agen a")
          case True
          then have hg: "gkey g = agen a" "g_state g = GenerationState.Succeeded"
            "g_accepted_attempt g = Some (a_id a)"
            using h [OF True] g0(2) by auto
          moreover have "akey (f a) = (g_tenant g, a_id a)"
            using f(1) hg(1) by (simp add: key_defs)
          moreover have "f a \<in> set ?bs" by (simp add: bset)
          ultimately have "\<exists>b \<in> set ?bs. akey b = (g_tenant g, a_id a) \<and> agen b = gkey g \<and>
              a_state b = AttemptState.Succeeded"
            using f(2,6) by (intro bexI [of _ "f a"]) simp_all
          then show ?thesis using hg by simp
        next
          case False
          then have "g = g0" using g0(2) by simp
          then have old: "(g_state g = GenerationState.Succeeded \<longleftrightarrow> g_accepted_attempt g \<noteq> None) \<and>
            (g_state g = GenerationState.Failed \<longrightarrow> g_failure_kind g \<noteq> None) \<and>
            (\<forall>i. g_accepted_attempt g = Some i \<longrightarrow>
              (\<exists>b \<in> set (db_attempts d). akey b = (g_tenant g, i) \<and> agen b = gkey g \<and>
                a_state b = AttemptState.Succeeded))"
            using store_invD(5) [OF inv] g0(1) unfolding inv_results_def by blast
          moreover have "b \<in> set ?bs" if "b \<in> set (db_attempts d)" "a_state b = AttemptState.Succeeded"
            for b
            using that a(2) live_not_succeeded by (auto simp: bset)
          ultimately show ?thesis by blast
        qed
      qed
      have suc: "g_accepted_attempt g = Some (a_id b)"
        if b: "b \<in> set ?bs" and g: "g \<in> set ?gs" "agen b = gkey g"
          "a_state b = AttemptState.Succeeded" for b g
      proof -
        obtain g0 where g0: "g0 \<in> set (db_generations d)"
          "g = (if gkey g0 = agen a then h g0 else g0)"
          using g(1) by (auto simp: set_update_where)
        then have gk: "gkey g = gkey g0" using h by auto
        show ?thesis
        proof (cases "b = f a")
          case True
          then have "gkey g0 = agen a" using g(2) gk f(2) by simp
          then show ?thesis using h g0(2) True fid by simp
        next
          case False
          then have b0: "b \<in> set (db_attempts d)" using b by (simp add: bset)
          have "gkey g0 \<noteq> agen a" using noacc [OF b0] g(2,3) gk by metis
          then have "g = g0" using g0(2) by simp
          then show ?thesis
            using store_invD(5) [OF inv] b0 g0(1) g(2,3) unfolding inv_results_def by metis
        qed
      qed
      show ?thesis unfolding inv_results_def using res suc by simp
    qed
    show "inv_outputs ?d"
    proof -
      have "b \<in> set ?bs" if "b \<in> set (db_attempts d)" "a_state b = AttemptState.Succeeded" for b
        using that a(2) live_not_succeeded by (auto simp: bset)
      then show ?thesis using store_invD(6) [OF inv] unfolding inv_outputs_def by simp blast
    qed
  qed
qed

section \<open>Leasing\<close>

definition claim_in :: "TenantId \<times> DevicePoolId \<Rightarrow> datetime \<Rightarrow> pool_row list \<Rightarrow> pool_row list" where
  "claim_in k now = update_where (\<lambda>p. pkey p = k \<and> p_claimed_slots p < p_total_slots p)
     (\<lambda>p. p\<lparr>p_claimed_slots := p_claimed_slots p + 1, p_updated_at := now\<rparr>)"

lemma claim_in_keys [simp]: "map pkey (claim_in k now ps) = map pkey ps"
  unfolding claim_in_def by (rule map_update_where) (simp add: pkey_def)

lemma inv_lease:
  assumes inv: "store_inv d"
    and g: "g \<in> set (db_generations d)" "g_state g = GenerationState.Queued" "g_attempt_count g < 3"
    and p: "p \<in> set (db_pools d)" "p_claimed_slots p < p_total_slots p" "apool b = pkey p"
    and b: "agen b = gkey g" "aworker b \<in> wkey ` set (db_workers d)"
      "akey b \<notin> akey ` set (db_attempts d)" "is_live b"
      "a_attempt_number b = g_attempt_count g + 1"
    and h: "\<And>x. gkey (h x) = gkey x \<and> g_accepted_attempt (h x) = g_accepted_attempt x \<and>
      g_state (h x) = GenerationState.Running"
      "g_attempt_count (h g) = g_attempt_count g + 1"
  shows "store_inv (d\<lparr>db_attempts := db_attempts d @ [b],
                     db_pools := claim_in (apool b) now (db_pools d),
                     db_generations := update_where (\<lambda>x. gkey x = gkey g) h (db_generations d)\<rparr>)"
proof -
  let ?bs = "db_attempts d @ [b]"
  let ?gs = "update_where (\<lambda>x. gkey x = gkey g) h (db_generations d)"
  let ?ps = "claim_in (apool b) now (db_pools d)"
  let ?d = "d\<lparr>db_attempts := ?bs, db_pools := ?ps, db_generations := ?gs\<rparr>"
  have gkeys: "distinct (map gkey (db_generations d))" and pkeys: "distinct (map pkey (db_pools d))"
    using store_invD(1) [OF inv] by (simp_all add: inv_keys_def)
  have gset: "x \<in> set ?gs \<longleftrightarrow> x = h g \<or> x \<in> set (db_generations d) \<and> x \<noteq> g" for x
    using set_update_one [OF g(1), of "\<lambda>x. gkey x = gkey g" h] gens.key_unique [OF gkeys _ g(1)]
    by blast
  have gmap: "map gkey ?gs = map gkey (db_generations d)" by (rule map_update_where) (simp add: h)
  have gimg: "gkey ` set ?gs = gkey ` set (db_generations d)" using gmap by (metis set_map)
  have pimg: "pkey ` set (claim_in k now (db_pools d)) = pkey ` set (db_pools d)" for k
    by (metis claim_in_keys set_map)
  have nolive: "\<not> is_live a" if "a \<in> set (db_attempts d)" "agen a = gkey g" for a
    using inv_live_active(1) [OF inv that(1) _ g(1) that(2)] g(2)
    by auto
  have nums: "1 \<le> a_attempt_number a \<and> a_attempt_number a \<le> g_attempt_count x \<and>
      (is_live a \<longrightarrow> a_attempt_number a = g_attempt_count x \<and> hosts_live x)"
    if "a \<in> set (db_attempts d)" "x \<in> set (db_generations d)" "agen a = gkey x" for a x
    using store_invD(4) [OF inv] that unfolding inv_numbers_def by blast
  have range: "0 \<le> g_attempt_count x \<and> g_attempt_count x \<le> 3" if "x \<in> set (db_generations d)" for x
    using store_invD(4) [OF inv] that unfolding inv_numbers_def by blast
  have gacc: "g_accepted_attempt g = None"
    using store_invD(5) [OF inv] g(1,2) unfolding inv_results_def by force
  have bsucc: "a_state b \<noteq> AttemptState.Succeeded" using b(4) by (rule live_not_succeeded)
  show ?thesis
  proof
    show "inv_keys ?d" using store_invD(1) [OF inv] b(3) gmap by (simp add: inv_keys_def)
    show "inv_refs ?d"
      using store_invD(2) [OF inv] b(1,2) g(1) p(1,3) by (auto simp: inv_refs_def gimg pimg)
    show "inv_slots ?d"
      unfolding inv_slots_def
    proof
      fix q assume "q \<in> set (db_pools ?d)"
      then obtain q0 where q0: "q0 \<in> set (db_pools d)" and q: "q = (if pkey q0 = apool b \<and>
          p_claimed_slots q0 < p_total_slots q0 then q0\<lparr>p_claimed_slots := p_claimed_slots q0 + 1,
          p_updated_at := now\<rparr> else q0)"
        by (auto simp: claim_in_def set_update_where)
      have "p_claimed_slots q0 = int (live_count (pkey q0) (db_attempts d)) \<and>
          p_claimed_slots q0 \<le> p_total_slots q0"
        using store_invD(3) [OF inv] q0 unfolding inv_slots_def by blast
      moreover have "q0 = p" if "pkey q0 = apool b"
        using pools.key_unique [OF pkeys q0 p(1)] that p(3) by simp
      moreover have "live_count k ?bs = live_count k (db_attempts d) + (if apool b = k then 1 else 0)"
        for k using b(4) by (simp add: live_count_def)
      ultimately show "p_claimed_slots q = int (live_count (pkey q) (db_attempts ?d)) \<and>
          p_claimed_slots q \<le> p_total_slots q"
        using q p(2) by (auto simp: pkey_def)
    qed
    show "inv_numbers ?d"
    proof -
      have fresh: "(agen b, a_attempt_number b) \<notin>
          (\<lambda>a. (agen a, a_attempt_number a)) ` set (db_attempts d)"
        using nums [OF _ g(1)] b(1,5) by fastforce
      have "1 \<le> a_attempt_number a \<and> a_attempt_number a \<le> g_attempt_count x \<and>
          (is_live a \<longrightarrow> a_attempt_number a = g_attempt_count x \<and> hosts_live x)"
        if a: "a \<in> set ?bs" and x: "x \<in> set ?gs" "agen a = gkey x" for a x
      proof (cases "a = b")
        case True
        then have "x = h g"
          using x b(1) gset [of x] gens.key_unique [OF gkeys _ g(1), of x] by auto
        then show ?thesis
          using True b(5) h range [OF g(1)] by simp
      next
        case False
        then have a0: "a \<in> set (db_attempts d)" using a by simp
        show ?thesis
        proof (cases "x = h g")
          case True
          then have "agen a = gkey g" using x(2) h by simp
          then show ?thesis using nums [OF a0 g(1)] nolive [OF a0] True h(2) by simp
        next
          case False
          then show ?thesis using nums [OF a0 _ x(2)] x(1) gset by blast
        qed
      qed
      moreover have "0 \<le> g_attempt_count x \<and> g_attempt_count x \<le> 3" if "x \<in> set ?gs" for x
        using that range g(1,3) h(2) unfolding gset by auto
      ultimately show ?thesis
        using store_invD(4) [OF inv] fresh by (simp add: inv_numbers_def)
    qed
    show "inv_results ?d"
    proof -
      have "(g_state x = GenerationState.Succeeded \<longleftrightarrow> g_accepted_attempt x \<noteq> None) \<and>
          (g_state x = GenerationState.Failed \<longrightarrow> g_failure_kind x \<noteq> None) \<and>
          (\<forall>i. g_accepted_attempt x = Some i \<longrightarrow>
             (\<exists>a \<in> set ?bs. akey a = (g_tenant x, i) \<and> agen a = gkey x \<and>
                a_state a = AttemptState.Succeeded))" if "x \<in> set ?gs" for x
      proof (cases "x = h g")
        case True
        then show ?thesis using h gacc by simp
      next
        case False
        then have "x \<in> set (db_generations d)" using that gset by blast
        then show ?thesis
          using store_invD(5) [OF inv] unfolding inv_results_def by (simp add: bex_Un)
      qed
      moreover have "g_accepted_attempt x = Some (a_id a)"
        if a: "a \<in> set ?bs" and x: "x \<in> set ?gs" "agen a = gkey x"
          "a_state a = AttemptState.Succeeded" for a x
      proof -
        have a0: "a \<in> set (db_attempts d)" using a x(3) bsucc by auto
        have "x \<noteq> h g"
        proof
          assume "x = h g"
          then have "agen a = gkey g" using x(2) h by simp
          then show False
            using store_invD(5) [OF inv] a0 g(1) gacc x(3) unfolding inv_results_def by force
        qed
        then show ?thesis
          using store_invD(5) [OF inv] a0 x gset unfolding inv_results_def by metis
      qed
      ultimately show ?thesis unfolding inv_results_def by simp
    qed
    show "inv_outputs ?d"
      using store_invD(6) [OF inv] unfolding inv_outputs_def by (simp add: bex_Un)
  qed
qed

end
