(* ===== verification/Store_Moves.thy ===== *)
theory Store_Moves
  imports Store_Invariant
begin

text \<open>
  What an operation may do to the stored rows, whatever else it does: Generations persist, move
  only along the edges of their lifecycle, keep their pinned request and never replace an
  accepted result; Attempts and Artifacts that persist move only along theirs and keep what
  identifies them; and no row of another Tenant changes. The relations compose, so a handler
  inherits them from the statements it executes.
\<close>

section \<open>Moves along the lifecycles\<close>

definition gen_step :: "GenerationRow \<Rightarrow> GenerationRow \<Rightarrow> bool" where
  "gen_step g g' \<longleftrightarrow>
     gkey g' = gkey g \<and> GenerationState_can_transition_to\<^sup>*\<^sup>* (g_state g) (g_state g') \<and>
     (\<forall>i. g_accepted_attempt g = Some i \<longrightarrow> g_accepted_attempt g' = Some i) \<and>
     g_version g' = g_version g \<and> g_modality g' = g_modality g \<and>
     g_parameters g' = g_parameters g \<and> g_execution_timeout g' = g_execution_timeout g"

definition gen_moves :: "db \<Rightarrow> db \<Rightarrow> bool" where
  "gen_moves d d' \<longleftrightarrow>
     (\<forall>g \<in> set (db_generations d). \<exists>g' \<in> set (db_generations d'). gen_step g g')"

definition att_step :: "AttemptRow \<Rightarrow> AttemptRow \<Rightarrow> bool" where
  "att_step a a' \<longleftrightarrow>
     AttemptState_can_transition_to\<^sup>*\<^sup>* (a_state a) (a_state a') \<and> agen a' = agen a \<and>
     apool a' = apool a \<and> aworker a' = aworker a \<and> a_attempt_number a' = a_attempt_number a"

definition att_moves :: "db \<Rightarrow> db \<Rightarrow> bool" where
  "att_moves d d' \<longleftrightarrow>
     (\<forall>a \<in> set (db_attempts d). \<forall>a' \<in> set (db_attempts d'). akey a' = akey a \<longrightarrow> att_step a a')"

definition art_step :: "ArtifactRow \<Rightarrow> ArtifactRow \<Rightarrow> bool" where
  "art_step f f' \<longleftrightarrow>
     ArtifactState_can_transition_to\<^sup>*\<^sup>* (f_state f) (f_state f') \<and>
     f_size_bytes f' = f_size_bytes f \<and> f_digest f' = f_digest f \<and> f_kind f' = f_kind f \<and>
     f_mime_type f' = f_mime_type f \<and> f_direction f' = f_direction f \<and>
     f_committed_offset f \<le> f_committed_offset f'"

definition art_moves :: "db \<Rightarrow> db \<Rightarrow> bool" where
  "art_moves d d' \<longleftrightarrow>
     (\<forall>f \<in> set (db_artifacts d). \<forall>f' \<in> set (db_artifacts d'). fkey f' = fkey f \<longrightarrow> art_step f f')"

lemma gen_step_refl [simp]: "gen_step g g"
  by (simp add: gen_step_def)

lemma gen_step_trans: "gen_step g g' \<Longrightarrow> gen_step g' g'' \<Longrightarrow> gen_step g g''"
  by (auto simp: gen_step_def intro: rtranclp_trans)

lemma att_step_refl [simp]: "att_step a a"
  by (simp add: att_step_def)

lemma att_step_trans: "att_step a a' \<Longrightarrow> att_step a' a'' \<Longrightarrow> att_step a a''"
  by (auto simp: att_step_def intro: rtranclp_trans)

lemma art_step_refl [simp]: "art_step f f"
  by (simp add: art_step_def)

lemma art_step_trans: "art_step f f' \<Longrightarrow> art_step f' f'' \<Longrightarrow> art_step f f''"
  by (auto simp: art_step_def intro: rtranclp_trans)

lemma gen_moves_trans: "gen_moves d d' \<Longrightarrow> gen_moves d' d'' \<Longrightarrow> gen_moves d d''"
  unfolding gen_moves_def by (meson gen_step_trans)

section \<open>Isolation\<close>

definition others :: "TenantId \<Rightarrow> db \<Rightarrow> db" where
  "others t d =
     \<lparr>db_workers = filter (\<lambda>r. w_tenant r \<noteq> t) (db_workers d),
      db_pools = filter (\<lambda>r. p_tenant r \<noteq> t) (db_pools d),
      db_pool_models = filter (\<lambda>r. pm_tenant r \<noteq> t) (db_pool_models d),
      db_model_versions = filter (\<lambda>r. mv_tenant r \<noteq> t) (db_model_versions d),
      db_generations = filter (\<lambda>r. g_tenant r \<noteq> t) (db_generations d),
      db_attempts = filter (\<lambda>r. a_tenant r \<noteq> t) (db_attempts d),
      db_rejections = filter (\<lambda>r. r_tenant r \<noteq> t) (db_rejections d),
      db_artifacts = filter (\<lambda>r. f_tenant r \<noteq> t) (db_artifacts d),
      db_idempotency = filter (\<lambda>r. k_tenant r \<noteq> t) (db_idempotency d),
      db_events = filter (\<lambda>r. e_tenant r \<noteq> t) (db_events d),
      db_aliases = filter (\<lambda>r. al_tenant r \<noteq> t) (db_aliases d),
      db_tenants = filter (\<lambda>r. tn_id r \<noteq> t) (db_tenants d),
      db_master_keys = filter (\<lambda>r. mk_tenant r \<noteq> t) (db_master_keys d)\<rparr>"

lemma filter_update_where:
  assumes "\<And>r. P r \<Longrightarrow> \<not> Q r \<and> \<not> Q (f r)"
  shows "filter Q (update_where P f rows) = filter Q rows"
  using assms by (induction rows) (auto simp: update_where_def)

lemma filter_delete_where:
  assumes "\<And>r. P r \<Longrightarrow> \<not> Q r"
  shows "filter Q (delete_where P rows) = filter Q rows"
  using assms by (induction rows) (auto simp: delete_where_def)

section \<open>One statement\<close>

text \<open>The combined relation: every operation for Tenant \<^verbatim>\<open>t\<close> satisfies it.\<close>

definition evolves :: "TenantId \<Rightarrow> db \<Rightarrow> db \<Rightarrow> bool" where
  "evolves t d d' \<longleftrightarrow> gen_moves d d' \<and> att_moves d d' \<and> art_moves d d' \<and> others t d' = others t d"

lemma att_moves_trans:
  assumes "att_moves d d'" "att_moves d' d''"
    and "akey ` set (db_attempts d'') \<subseteq> akey ` set (db_attempts d') \<or>
         akey ` set (db_attempts d) \<subseteq> akey ` set (db_attempts d')"
  shows "att_moves d d''"
  unfolding att_moves_def
proof (intro ballI impI)
  fix a a'' assume a: "a \<in> set (db_attempts d)" "a'' \<in> set (db_attempts d'')" "akey a'' = akey a"
  have "akey a \<in> akey ` set (db_attempts d)" "akey a \<in> akey ` set (db_attempts d'')"
    using a(1) imageI [OF a(2), of akey] by (simp_all add: a(3))
  then have "akey a \<in> akey ` set (db_attempts d')" using assms(3) by blast
  then obtain a' where a': "a' \<in> set (db_attempts d')" "akey a' = akey a" by auto
  have "att_step a a'" using assms(1) a(1) a' unfolding att_moves_def by blast
  moreover have "att_step a' a''"
    using assms(2) a'(1) a(2) trans [OF a(3) a'(2) [symmetric]] unfolding att_moves_def by blast
  ultimately show "att_step a a''" by (rule att_step_trans)
qed

lemma art_moves_trans:
  assumes "art_moves d d'" "art_moves d' d''"
    and "fkey ` set (db_artifacts d'') \<subseteq> fkey ` set (db_artifacts d') \<or>
         fkey ` set (db_artifacts d) \<subseteq> fkey ` set (db_artifacts d')"
  shows "art_moves d d''"
  unfolding art_moves_def
proof (intro ballI impI)
  fix a a'' assume a: "a \<in> set (db_artifacts d)" "a'' \<in> set (db_artifacts d'')" "fkey a'' = fkey a"
  have "fkey a \<in> fkey ` set (db_artifacts d)" "fkey a \<in> fkey ` set (db_artifacts d'')"
    using a(1) imageI [OF a(2), of fkey] by (simp_all add: a(3))
  then have "fkey a \<in> fkey ` set (db_artifacts d')" using assms(3) by blast
  then obtain a' where a': "a' \<in> set (db_artifacts d')" "fkey a' = fkey a" by auto
  have "art_step a a'" using assms(1) a(1) a' unfolding art_moves_def by blast
  moreover have "art_step a' a''"
    using assms(2) a'(1) a(2) trans [OF a(3) a'(2) [symmetric]] unfolding art_moves_def by blast
  ultimately show "art_step a a''" by (rule art_step_trans)
qed

text \<open>Composition: the second part may not reuse a key the first part deleted.\<close>

lemma evolves_trans:
  assumes "evolves t d d'" "evolves t d' d''"
    and "akey ` set (db_attempts d'') \<subseteq> akey ` set (db_attempts d') \<or>
         akey ` set (db_attempts d) \<subseteq> akey ` set (db_attempts d')"
    and "fkey ` set (db_artifacts d'') \<subseteq> fkey ` set (db_artifacts d') \<or>
         fkey ` set (db_artifacts d) \<subseteq> fkey ` set (db_artifacts d')"
  shows "evolves t d d''"
proof -
  have "gen_moves d d''" "others t d'' = others t d"
    using assms(1,2) gen_moves_trans unfolding evolves_def by auto
  moreover have "att_moves d d''"
    using assms(1,2) by (intro att_moves_trans [OF _ _ assms(3)]) (simp_all add: evolves_def)
  moreover have "art_moves d d''"
    using assms(1,2) by (intro art_moves_trans [OF _ _ assms(4)]) (simp_all add: evolves_def)
  ultimately show ?thesis by (simp add: evolves_def)
qed

lemma evolves_refl:
  assumes "distinct (map akey (db_attempts d))" "distinct (map fkey (db_artifacts d))"
  shows "evolves t d d"
  using assms
  by (auto simp: evolves_def gen_moves_def att_moves_def art_moves_def distinct_map
      dest: inj_onD intro: gen_step_refl)

lemma evolves_inv_refl: "inv_keys d \<Longrightarrow> evolves t d d"
  by (auto simp: inv_keys_def intro: evolves_refl)

text \<open>One table changes.\<close>

lemma evolves_generations:
  assumes "inv_keys d"
    and "\<And>g. P g \<Longrightarrow> g \<in> set (db_generations d) \<Longrightarrow> gen_step g (f g)"
    and "\<And>g. P g \<Longrightarrow> g_tenant g = t"
  shows "evolves t d (d\<lparr>db_generations := update_where P f (db_generations d)\<rparr>)"
proof -
  have "\<exists>g' \<in> set (update_where P f (db_generations d)). gen_step g g'"
    if g: "g \<in> set (db_generations d)" for g
  proof -
    have "(if P g then f g else g) \<in> set (update_where P f (db_generations d))"
      using g unfolding set_update_where by blast
    moreover have "gen_step g (if P g then f g else g)" using assms(2) g by simp
    ultimately show ?thesis by blast
  qed
  moreover have "filter (\<lambda>r. g_tenant r \<noteq> t) (update_where P f (db_generations d)) =
      filter (\<lambda>r. g_tenant r \<noteq> t) (db_generations d)"
  proof -
    have "filter (\<lambda>r. g_tenant r \<noteq> t) (update_where P f gs) = filter (\<lambda>r. g_tenant r \<noteq> t) gs"
      if "set gs \<subseteq> set (db_generations d)" for gs
      using that
    proof (induction gs)
      case (Cons g gs)
      have "P g \<Longrightarrow> g_tenant g = t \<and> g_tenant (f g) = t"
        using assms(2,3) [of g] Cons.prems by (auto simp: gen_step_def gkey_def)
      with Cons show ?case by (auto simp: update_where_def)
    qed (simp add: update_where_def)
    then show ?thesis by blast
  qed
  ultimately show ?thesis
    using evolves_inv_refl [OF assms(1), of t]
    by (simp add: evolves_def gen_moves_def att_moves_def art_moves_def others_def)
qed

lemma evolves_attempts:
  assumes "inv_keys d"
    and "\<And>a. P a \<Longrightarrow> a \<in> set (db_attempts d) \<Longrightarrow> att_step a (f a) \<and> akey (f a) = akey a"
    and "\<And>a. P a \<Longrightarrow> a_tenant a = t"
    and "\<And>a. a_tenant (f a) = a_tenant a"
  shows "evolves t d (d\<lparr>db_attempts := update_where P f (db_attempts d)\<rparr>)"
proof -
  have dist: "distinct (map akey (db_attempts d))" using assms(1) by (simp add: inv_keys_def)
  have "att_step a a'" if a: "a \<in> set (db_attempts d)" "a' \<in> set (update_where P f (db_attempts d))"
    "akey a' = akey a" for a a'
  proof -
    obtain b where b: "b \<in> set (db_attempts d)" "a' = (if P b then f b else b)"
      using a(2) by (auto simp: set_update_where)
    have "akey (if P b then f b else b) = akey b"
      by (cases "P b") (use assms(2) [OF _ b(1)] in simp_all)
    then have "b = a" using atts.key_unique [OF dist b(1) a(1)] a(3) b(2) by simp
    moreover have "att_step b (if P b then f b else b)"
      by (cases "P b") (use assms(2) [OF _ b(1)] in simp_all)
    ultimately show ?thesis using b(2) by simp
  qed
  moreover have "filter (\<lambda>r. a_tenant r \<noteq> t) (update_where P f (db_attempts d)) =
      filter (\<lambda>r. a_tenant r \<noteq> t) (db_attempts d)"
    using assms(3,4) by (intro filter_update_where) simp
  ultimately show ?thesis
    using evolves_inv_refl [OF assms(1), of t]
    by (simp add: evolves_def gen_moves_def att_moves_def art_moves_def others_def)
qed

lemma evolves_same:
  assumes "inv_keys d" "db_generations d' = db_generations d" "db_attempts d' = db_attempts d"
    "db_artifacts d' = db_artifacts d" "others t d' = others t d"
  shows "evolves t d d'"
  using evolves_inv_refl [OF assms(1), of t] assms(2-)
  by (simp add: evolves_def gen_moves_def att_moves_def art_moves_def)

lemma evolves_attempts_from:
  assumes inv: "inv_keys d"
    and old: "\<And>b. b \<in> set bs \<Longrightarrow> b \<in> set (db_attempts d) \<or> akey b \<notin> akey ` set (db_attempts d)"
    and iso: "filter (\<lambda>r. a_tenant r \<noteq> t) bs = filter (\<lambda>r. a_tenant r \<noteq> t) (db_attempts d)"
  shows "evolves t d (d\<lparr>db_attempts := bs\<rparr>)"
proof -
  have dist: "distinct (map akey (db_attempts d))" using inv by (simp add: inv_keys_def)
  have "att_step a b" if a: "a \<in> set (db_attempts d)" "b \<in> set bs" "akey b = akey a" for a b
  proof -
    have "b \<in> set (db_attempts d)" using old [OF a(2)] a(1,3) by auto
    then have "b = a" using atts.key_unique [OF dist _ a(1) a(3)] by blast
    then show ?thesis by simp
  qed
  then show ?thesis
    using evolves_inv_refl [OF inv, of t] iso
    by (simp add: evolves_def gen_moves_def att_moves_def art_moves_def others_def)
qed

lemma evolves_artifacts_from:
  assumes inv: "inv_keys d"
    and old: "\<And>b. b \<in> set bs \<Longrightarrow>
      (\<exists>f \<in> set (db_artifacts d). fkey b = fkey f \<and> art_step f b) \<or> fkey b \<notin> fkey ` set (db_artifacts d)"
    and iso: "filter (\<lambda>r. f_tenant r \<noteq> t) bs = filter (\<lambda>r. f_tenant r \<noteq> t) (db_artifacts d)"
  shows "evolves t d (d\<lparr>db_artifacts := bs\<rparr>)"
proof -
  have dist: "distinct (map fkey (db_artifacts d))" using inv by (simp add: inv_keys_def)
  have "art_step a b" if a: "a \<in> set (db_artifacts d)" "b \<in> set bs" "fkey b = fkey a" for a b
  proof -
    have "fkey b \<in> fkey ` set (db_artifacts d)" using a(1,3) by (intro image_eqI) simp_all
    then obtain f where f: "f \<in> set (db_artifacts d)" "fkey b = fkey f" "art_step f b"
      using old [OF a(2)] by blast
    have "f = a" by (rule arts.key_unique [OF dist f(1) a(1) trans [OF f(2) [symmetric] a(3)]])
    then show ?thesis using f(3) by simp
  qed
  then show ?thesis
    using evolves_inv_refl [OF inv, of t] iso
    by (simp add: evolves_def gen_moves_def att_moves_def art_moves_def others_def)
qed

lemma evolves_artifacts:
  assumes "inv_keys d"
    and "\<And>f. P f \<Longrightarrow> art_step f (u f) \<and> fkey (u f) = fkey f"
    and "\<And>f. P f \<Longrightarrow> f_tenant f = t"
  shows "evolves t d (d\<lparr>db_artifacts := update_where P u (db_artifacts d)\<rparr>)"
proof (rule evolves_artifacts_from [OF assms(1)])
  fix b assume "b \<in> set (update_where P u (db_artifacts d))"
  then obtain f where f: "f \<in> set (db_artifacts d)" "b = (if P f then u f else f)"
    by (auto simp: set_update_where)
  have "fkey b = fkey f \<and> art_step f b"
    unfolding f(2) by (cases "P f") (use assms(2) in simp_all)
  with f(1) show "(\<exists>f \<in> set (db_artifacts d). fkey b = fkey f \<and> art_step f b) \<or>
      fkey b \<notin> fkey ` set (db_artifacts d)" by blast
next
  show "filter (\<lambda>r. f_tenant r \<noteq> t) (update_where P u (db_artifacts d)) =
      filter (\<lambda>r. f_tenant r \<noteq> t) (db_artifacts d)"
  proof (rule filter_update_where)
    fix f assume f: "P f"
    then have "fkey (u f) = fkey f" using assms(2) by simp
    then show "\<not> f_tenant f \<noteq> t \<and> \<not> f_tenant (u f) \<noteq> t" using assms(3) [OF f] by (simp add: fkey_def)
  qed
qed

end
