(* ===== verification/Store_Examples.thy ===== *)
theory Store_Examples
  imports Store_Moves
begin

text \<open>
  A small concrete store, used by the witnesses: one Worker with one Pool of two Slots, one
  running Generation and its live Attempt. It satisfies the store invariant.
\<close>

definition example_worker :: worker_row where
  "example_worker =
     \<lparr>w_tenant = 7, w_id = 1, w_name = ''gpu-1'', w_host_descriptor = [], w_worker_version = [],
      w_protocol_major = 1, w_protocol_minor = 0, w_credential_hash = [1], w_session_id = None,
      w_enrolled_at = 0, w_last_seen_at = None, w_revoked_at = None\<rparr>"

definition example_pool :: pool_row where
  "example_pool =
     \<lparr>p_tenant = 7, p_id = 2, p_worker_id = 1, p_pool_key = ''pool-0'', p_accelerator = ''metal'',
      p_backend_version = [], p_ready = True, p_unready_reason = [], p_total_slots = 2,
      p_claimed_slots = 1, p_resident_model = None, p_accelerator_memory_bytes = None,
      p_shape_limits = unlimited, p_image_loras = [], p_probes = [], p_updated_at = 0\<rparr>"

definition example_generation :: GenerationRow where
  "example_generation =
     \<lparr>g_tenant = 7, g_id = 10, g_state = GenerationState.Running, g_modality = Modality.Image,
      g_alias = ''draw'', g_version = example_version, g_parameters = JNull, g_priority = 5,
      g_seed = None, g_execution_timeout = 60, g_output_placement = ArtifactPlacement.WorkerLocal,
      g_attempt_count = 1, g_accepted_attempt = None, g_latest_progress = None,
      g_failure_kind = None, g_failure_message = [], g_created_at = 0, g_updated_at = 0,
      g_started_at = Some 0, g_terminated_at = None\<rparr>"

definition example_attempt :: AttemptRow where
  "example_attempt =
     \<lparr>a_tenant = 7, a_id = 20, a_generation = 10, a_attempt_number = 1,
      a_state = AttemptState.Leased, a_worker = 1, a_pool = 2, a_slot_key = ''pool-0'',
      a_lease_expires_at = 100, a_execution_deadline = None, a_created_at = 0, a_started_at = None,
      a_finished_at = None, a_last_heartbeat_at = None, a_failure_kind = None,
      a_failure_message = [], a_worker_retry_hint = False, a_cancel_requested_at = None\<rparr>"

definition example_db :: db where
  "example_db = empty_db\<lparr>db_workers := [example_worker], db_pools := [example_pool],
     db_generations := [example_generation], db_attempts := [example_attempt]\<rparr>"

definition example_clocks :: clocks where
  "example_clocks = \<lparr>sql_now = 50, sql_clock = 50\<rparr>"

definition example_env :: env where
  "example_env =
     \<lparr>x_manifest_to_vec = (\<lambda>_. Some []), x_sha256 = (\<lambda>_. replicate 32 0),
      x_manifest_from_json = (\<lambda>_. Some example_manifest),
      x_params_from_json = (\<lambda>_. Some (GenerationParameters.Image example_image)),
      x_interval = Some, x_manifest_to_json = (\<lambda>_. Some (JObject []))\<rparr>"

text \<open>The same store before the Generation was leased.\<close>

definition example_queued_db :: db where
  "example_queued_db = empty_db\<lparr>db_workers := [example_worker],
     db_pools := [example_pool\<lparr>p_claimed_slots := 0\<rparr>],
     db_generations := [example_generation\<lparr>g_state := GenerationState.Queued, g_attempt_count := 0,
       g_started_at := None\<rparr>]\<rparr>"

lemmas example_defs = example_db_def example_queued_db_def empty_db_def example_worker_def
  example_pool_def example_generation_def example_attempt_def example_clocks_def example_env_def

lemma example_inv: "store_inv example_db" "store_inv example_queued_db"
  by (simp_all add: store_inv_def inv_defs example_defs key_defs live_count_def
      AttemptState_is_live_def)

end
