(* ===== verification/Db_Workers.thy ===== *)
theory Db_Workers
  imports Store_Examples
begin

text \<open>
  Workers and Device Pools, \<^verbatim>\<open>gpq-remote/src/db/workers.rs\<close>: enrollment and sessions, the
  capability report that replaces a Worker's Pools, the claim and release of Execution Slots,
  and the scheduling view of the ready Pools. Deleting a Pool follows the foreign keys of the
  schema: Attempts, Pool models and rejections of the Pool are deleted with it, and the
  composite \<^verbatim>\<open>ON DELETE SET NULL\<close> keys of Generations and Artifacts fail on the non-null Tenant
  column when one of them refers to a deleted Attempt.
\<close>

section \<open>Enrollment and sessions\<close>

record WorkerEnrollment =
  we_name :: string
  we_host_descriptor :: string
  we_worker_version :: string
  we_protocol_major :: u32
  we_protocol_minor :: u32
  we_credential_hash :: "u8 list"

definition clamp_i32 :: "u32 \<Rightarrow> int" where
  "clamp_i32 v = (if uint v < 2 ^ 31 then uint v else 2 ^ 31 - 1)"

definition enroll :: "TenantId \<Rightarrow> WorkerEnrollment \<Rightarrow> WorkerId \<Rightarrow> clocks \<Rightarrow> db \<Rightarrow> WorkerId tx" where
  "enroll t e new_id clk d =
     (case find (\<lambda>w. w_tenant w = t \<and> w_name w = we_name e) (db_workers d) of
        Some old \<Rightarrow>
          if \<exists>w \<in> set (db_workers d). wkey w \<noteq> wkey old \<and> w_credential_hash w = we_credential_hash e
          then Err (UniqueViolation ''workers.credential_hash'')
          else Ok (w_id old, d\<lparr>db_workers := update_where (\<lambda>w. wkey w = wkey old)
             (\<lambda>w. w\<lparr>w_host_descriptor := we_host_descriptor e,
                    w_worker_version := we_worker_version e,
                    w_protocol_major := clamp_i32 (we_protocol_major e),
                    w_protocol_minor := clamp_i32 (we_protocol_minor e),
                    w_credential_hash := we_credential_hash e,
                    w_revoked_at := None,
                    w_enrolled_at := sql_now clk\<rparr>) (db_workers d)\<rparr>)
      | None \<Rightarrow>
          if \<exists>w \<in> set (db_workers d). wkey w = (t, new_id) then Err (UniqueViolation ''workers_pkey'')
          else if \<exists>w \<in> set (db_workers d). w_credential_hash w = we_credential_hash e
          then Err (UniqueViolation ''workers.credential_hash'')
          else Ok (new_id, d\<lparr>db_workers := db_workers d @
             [\<lparr>w_tenant = t, w_id = new_id, w_name = we_name e,
               w_host_descriptor = we_host_descriptor e, w_worker_version = we_worker_version e,
               w_protocol_major = clamp_i32 (we_protocol_major e),
               w_protocol_minor = clamp_i32 (we_protocol_minor e),
               w_credential_hash = we_credential_hash e, w_session_id = None,
               w_enrolled_at = sql_now clk, w_last_seen_at = None, w_revoked_at = None\<rparr>]\<rparr>))"

definition revoke_worker :: "TenantId \<Rightarrow> WorkerId \<Rightarrow> clocks \<Rightarrow> db \<Rightarrow> db" where
  "revoke_worker t w clk d =
     d\<lparr>db_workers := update_where (\<lambda>r. wkey r = (t, w) \<and> w_revoked_at r = None)
        (\<lambda>r. r\<lparr>w_revoked_at := Some (sql_now clk)\<rparr>) (db_workers d)\<rparr>"

definition is_enrolled_and_unrevoked :: "TenantId \<Rightarrow> WorkerId \<Rightarrow> db \<Rightarrow> bool" where
  "is_enrolled_and_unrevoked t w d =
     (case find (\<lambda>r. wkey r = (t, w)) (db_workers d) of
        Some r \<Rightarrow> w_revoked_at r = None | None \<Rightarrow> False)"

definition list_workers :: "TenantId \<Rightarrow> db \<Rightarrow> worker_row list" where
  "list_workers t d = sort_key (\<lambda>r. - w_enrolled_at r) (filter (\<lambda>r. w_tenant r = t) (db_workers d))"

definition lock_current_worker_credential ::
  "TenantId \<Rightarrow> WorkerId \<Rightarrow> u8 list \<Rightarrow> db \<Rightarrow> bool" where
  "lock_current_worker_credential t w credential_hash d =
     (case find (\<lambda>r. wkey r = (t, w)) (db_workers d) of
        Some r \<Rightarrow> w_credential_hash r = credential_hash \<and> w_revoked_at r = None | None \<Rightarrow> False)"

definition mark_session :: "TenantId \<Rightarrow> WorkerId \<Rightarrow> string \<Rightarrow> clocks \<Rightarrow> db \<Rightarrow> db" where
  "mark_session t w session_id clk d =
     d\<lparr>db_workers := update_where (\<lambda>r. wkey r = (t, w))
        (\<lambda>r. r\<lparr>w_session_id := Some session_id, w_last_seen_at := Some (sql_now clk)\<rparr>) (db_workers d)\<rparr>"

definition clear_session :: "TenantId \<Rightarrow> WorkerId \<Rightarrow> db \<Rightarrow> db" where
  "clear_session t w d =
     d\<lparr>db_workers := update_where (\<lambda>r. wkey r = (t, w)) (\<lambda>r. r\<lparr>w_session_id := None\<rparr>) (db_workers d)\<rparr>"

definition touch_last_seen :: "TenantId \<Rightarrow> WorkerId \<Rightarrow> clocks \<Rightarrow> db \<Rightarrow> db" where
  "touch_last_seen t w clk d =
     d\<lparr>db_workers := update_where (\<lambda>r. wkey r = (t, w))
        (\<lambda>r. r\<lparr>w_last_seen_at := Some (sql_now clk)\<rparr>) (db_workers d)\<rparr>"

section \<open>Execution slots\<close>

definition claim_slot :: "TenantId \<Rightarrow> DevicePoolId \<Rightarrow> clocks \<Rightarrow> db \<Rightarrow> bool \<times> db" where
  "claim_slot t pool clk d =
     (rows_affected (\<lambda>p. pkey p = (t, pool) \<and> p_claimed_slots p < p_total_slots p) (db_pools d) = 1,
      d\<lparr>db_pools := update_where (\<lambda>p. pkey p = (t, pool) \<and> p_claimed_slots p < p_total_slots p)
         (\<lambda>p. p\<lparr>p_claimed_slots := p_claimed_slots p + 1, p_updated_at := sql_now clk\<rparr>) (db_pools d)\<rparr>)"

definition release_slot :: "TenantId \<Rightarrow> DevicePoolId \<Rightarrow> clocks \<Rightarrow> db \<Rightarrow> db" where
  "release_slot t pool clk d =
     d\<lparr>db_pools := update_where (\<lambda>p. pkey p = (t, pool))
        (\<lambda>p. p\<lparr>p_claimed_slots := max (p_claimed_slots p - 1) 0, p_updated_at := sql_now clk\<rparr>)
        (db_pools d)\<rparr>"

section \<open>Capability reports\<close>

record PoolUpsert =
  pu_pool_key :: string
  pu_accelerator :: string
  pu_accelerator_version :: string
  pu_ready :: bool
  pu_unready_reason :: string
  pu_total_slots :: u32
  pu_resident_model :: "ContentHash option"
  pu_accelerator_memory_bytes :: "u64 option"
  pu_probes :: "(string \<times> bool) list"
  pu_model_hashes :: "ContentHash list"
  pu_image_loras :: "ContentHash list"
  pu_shape_limits :: ShapeLimits

definition bigint_of :: "u64 option \<Rightarrow> int option" where
  "bigint_of v = (case v of Some b \<Rightarrow> if uint b < 2 ^ 63 then Some (uint b) else None | None \<Rightarrow> None)"

definition delete_pools :: "(pool_row \<Rightarrow> bool) \<Rightarrow> db \<Rightarrow> sql_error + db" where
  "delete_pools P d =
     (let dead = pkey ` set (filter P (db_pools d));
          gone = (\<lambda>a. apool a \<in> dead)
      in if \<exists>g \<in> set (db_generations d). \<exists>a \<in> set (db_attempts d).
              gone a \<and> a_tenant a = g_tenant g \<and> g_accepted_attempt g = Some (a_id a)
         then Err (NotNullViolation ''generations.tenant_id'')
         else if \<exists>f \<in> set (db_artifacts d). \<exists>a \<in> set (db_attempts d).
              gone a \<and> a_tenant a = f_tenant f \<and> f_attempt f = Some (a_id a)
         then Err (NotNullViolation ''artifacts.tenant_id'')
         else Ok (d\<lparr>db_attempts := delete_where gone (db_attempts d),
                    db_pools := delete_where P (db_pools d),
                    db_pool_models := delete_where (\<lambda>m. (pm_tenant m, pm_pool_id m) \<in> dead) (db_pool_models d),
                    db_rejections := delete_where (\<lambda>r. (r_tenant r, r_pool r) \<in> dead) (db_rejections d)\<rparr>))"

definition apply_upsert :: "PoolUpsert \<Rightarrow> datetime \<Rightarrow> pool_row \<Rightarrow> pool_row" where
  "apply_upsert u now p =
     p\<lparr>p_accelerator := pu_accelerator u, p_backend_version := pu_accelerator_version u,
       p_ready := pu_ready u, p_unready_reason := pu_unready_reason u,
       p_total_slots := clamp_i32 (pu_total_slots u),
       p_resident_model := pu_resident_model u,
       p_accelerator_memory_bytes := bigint_of (pu_accelerator_memory_bytes u),
       p_shape_limits := pu_shape_limits u, p_image_loras := pu_image_loras u,
       p_probes := pu_probes u, p_updated_at := now\<rparr>"

definition new_pool :: "TenantId \<Rightarrow> WorkerId \<Rightarrow> DevicePoolId \<Rightarrow> PoolUpsert \<Rightarrow> datetime \<Rightarrow> pool_row" where
  "new_pool t w pool u now =
     apply_upsert u now
       \<lparr>p_tenant = t, p_id = pool, p_worker_id = w, p_pool_key = pu_pool_key u, p_accelerator = [],
        p_backend_version = [], p_ready = False, p_unready_reason = [], p_total_slots = 0,
        p_claimed_slots = 0, p_resident_model = None, p_accelerator_memory_bytes = None,
        p_shape_limits = unlimited, p_image_loras = [], p_probes = [], p_updated_at = now\<rparr>"

definition sync_pool_models ::
  "TenantId \<Rightarrow> DevicePoolId \<Rightarrow> ContentHash list \<Rightarrow> pool_model_row list \<Rightarrow> pool_model_row list" where
  "sync_pool_models t pool hashes rows =
     foldl (\<lambda>rs h. if \<exists>m \<in> set rs. pm_tenant m = t \<and> pm_pool_id m = pool \<and> pm_content m = h then rs
                    else rs @ [\<lparr>pm_tenant = t, pm_pool_id = pool, pm_content = h\<rparr>])
       (delete_where (\<lambda>m. pm_tenant m = t \<and> pm_pool_id m = pool \<and> pm_content m \<notin> set hashes) rows)
       hashes"

definition upsert_pool ::
  "TenantId \<Rightarrow> WorkerId \<Rightarrow> clocks \<Rightarrow> PoolUpsert \<Rightarrow> DevicePoolId \<Rightarrow> db \<Rightarrow> sql_error + db" where
  "upsert_pool t w clk u new_id d =
     rbind (if length (pu_accelerator u) > 64 then Err (CheckViolation ''device_pools.accelerator'')
            else case find (\<lambda>p. p_tenant p = t \<and> p_worker_id p = w \<and> p_pool_key p = pu_pool_key u)
                   (db_pools d) of
              Some old \<Rightarrow>
                if p_claimed_slots old > clamp_i32 (pu_total_slots u)
                then Err (CheckViolation ''device_pools_claimed_within_total'')
                else Ok (p_id old, update_where (\<lambda>p. pkey p = pkey old)
                           (apply_upsert u (sql_now clk)) (db_pools d))
            | None \<Rightarrow>
                if \<exists>p \<in> set (db_pools d). pkey p = (t, new_id)
                then Err (UniqueViolation ''device_pools_pkey'')
                else if \<not> (\<exists>r \<in> set (db_workers d). wkey r = (t, w))
                then Err (ForeignKeyViolation ''device_pools.worker_id'')
                else Ok (new_id, db_pools d @ [new_pool t w new_id u (sql_now clk)]))
       (\<lambda>(pool, rows). Ok (d\<lparr>db_pools := rows,
          db_pool_models := sync_pool_models t pool (pu_model_hashes u) (db_pool_models d)\<rparr>))"

fun upsert_each ::
  "TenantId \<Rightarrow> WorkerId \<Rightarrow> clocks \<Rightarrow> (PoolUpsert \<times> DevicePoolId) list \<Rightarrow> db \<Rightarrow> sql_error + db" where
  "upsert_each t w clk [] d = Ok d"
| "upsert_each t w clk ((u, new_id) # rest) d =
     rbind (upsert_pool t w clk u new_id d) (upsert_each t w clk rest)"

text \<open>The fresh identifiers of the report's Pools are paired with them.\<close>

definition upsert_pools ::
  "TenantId \<Rightarrow> WorkerId \<Rightarrow> (PoolUpsert \<times> DevicePoolId) list \<Rightarrow> clocks \<Rightarrow> db \<Rightarrow> unit tx" where
  "upsert_pools t w report clk d =
     rbind (delete_pools (\<lambda>p. p_tenant p = t \<and> p_worker_id p = w \<and>
                               p_pool_key p \<notin> (\<lambda>(u, _). pu_pool_key u) ` set report) d) (\<lambda>d1.
     rbind (upsert_each t w clk report d1) (\<lambda>d2. Ok ((), d2)))"

section \<open>Scheduling view\<close>

definition p_free_slots :: "pool_row \<Rightarrow> int" where
  "p_free_slots p = p_total_slots p - p_claimed_slots p"

definition advertised_manifests :: "pool_row \<Rightarrow> db \<Rightarrow> (ContentHash \<times> json) list" where
  "advertised_manifests p d =
     concat (map (\<lambda>m. map (\<lambda>v. (mv_content v, mv_manifest v))
                 (filter (\<lambda>v. mv_tenant v = pm_tenant m \<and> mv_content v = pm_content m) (db_model_versions d)))
       (filter (\<lambda>m. pm_tenant m = p_tenant p \<and> pm_pool_id m = p_id p) (db_pool_models d)))"

definition u64_of_bigint :: "int option \<Rightarrow> u64 option" where
  "u64_of_bigint v = (case v of Some n \<Rightarrow> if 0 \<le> n \<and> n < 2 ^ 64 then Some (of_int n) else None | None \<Rightarrow> None)"

definition u32_or_0 :: "int \<Rightarrow> u32" where
  "u32_or_0 n = (if 0 \<le> n \<and> n < 2 ^ 32 then of_int n else 0)"

definition build_slot_capability ::
  "env \<Rightarrow> TenantId \<Rightarrow> db \<Rightarrow> pool_row \<Rightarrow> sql_error + SlotCapability \<times> u32 \<times> WorkerId \<times> string" where
  "build_slot_capability E t d p =
     rbind (rmap (\<lambda>(hash, j). case x_manifest_from_json E j of
                    None \<Rightarrow> Err (DecodeError ''model_manifests'') | Some m \<Rightarrow> Ok (hash, m))
              (advertised_manifests p d)) (\<lambda>manifests.
       Ok (\<lparr>sc_tenant_id = t, sc_worker_id = p_worker_id p, sc_pool_id = p_id p, sc_slot_id = p_id p,
            sc_accelerator = p_accelerator p, sc_accelerator_version = p_backend_version p,
            sc_model_manifests = map_of manifests,
            sc_image_loras = btree_set (p_image_loras p),
            sc_resident_model = p_resident_model p,
            sc_accelerator_memory_bytes = u64_of_bigint (p_accelerator_memory_bytes p),
            sc_shape_limits = p_shape_limits p\<rparr>,
           u32_or_0 (p_free_slots p), p_worker_id p, p_pool_key p))"

definition pool_capabilities ::
  "env \<Rightarrow> TenantId \<Rightarrow> db \<Rightarrow> sql_error + (SlotCapability \<times> u32 \<times> WorkerId \<times> string) list" where
  "pool_capabilities E t d =
     rmap (build_slot_capability E t d)
       (filter (\<lambda>p. p_tenant p = t \<and> p_ready p \<and>
                    (\<exists>w \<in> set (db_workers d). wkey w = (t, p_worker_id p) \<and> w_revoked_at w = None))
          (db_pools d))"

section \<open>Lemmas on enrollment and sessions\<close>

lemma release_slot_eq: "release_slot t pool clk d = d\<lparr>db_pools := release_in (t, pool) (sql_now clk) (db_pools d)\<rparr>"
  by (simp add: release_slot_def release_in_def)

lemma claim_slot_eq:
  "snd (claim_slot t pool clk d) = d\<lparr>db_pools := claim_in (t, pool) (sql_now clk) (db_pools d)\<rparr>"
  by (simp add: claim_slot_def claim_in_def)

lemma inv_touch_workers:
  assumes "store_inv d" "\<And>w. P w \<Longrightarrow> wkey (f w) = wkey w"
  shows "store_inv (d\<lparr>db_workers := update_where P f (db_workers d)\<rparr>)"
proof -
  have eq: "map wkey (update_where P f (db_workers d)) = map wkey (db_workers d)"
    using assms(2) by (rule map_update_where)
  then have "wkey ` set (update_where P f (db_workers d)) = wkey ` set (db_workers d)"
    by (metis set_map)
  then show ?thesis
    using assms(1) eq store_invD(1) [OF assms(1)]
    by (intro inv_update_workers) (simp_all add: inv_keys_def)
qed

lemma evolves_touch_workers:
  assumes "inv_keys d" "\<And>w. P w \<Longrightarrow> w_tenant w = t \<and> w_tenant (f w) = t"
  shows "evolves t d (d\<lparr>db_workers := update_where P f (db_workers d)\<rparr>)"
  using filter_update_where [of P "\<lambda>r. w_tenant r \<noteq> t" f "db_workers d"] assms
  by (intro evolves_same) (simp_all add: others_def)

lemma inv_enroll:
  assumes "store_inv d" "enroll t e i clk d = Ok (w, d')"
  shows "store_inv d'"
proof (cases "find (\<lambda>w. w_tenant w = t \<and> w_name w = we_name e) (db_workers d)")
  case None
  have "distinct (map wkey (db_workers d))" using store_invD(1) [OF assms(1)] by (simp add: inv_keys_def)
  with None assms show ?thesis
    by (auto simp: enroll_def wkey_def intro!: inv_update_workers split: if_splits)
next
  case (Some old)
  with assms show ?thesis
    by (auto simp: enroll_def wkey_def intro!: inv_touch_workers split: if_splits)
qed

lemma inv_sessions:
  assumes "store_inv d"
  shows "store_inv (revoke_worker t w clk d)" "store_inv (mark_session t w s clk d)"
    "store_inv (clear_session t w d)" "store_inv (touch_last_seen t w clk d)"
  unfolding revoke_worker_def mark_session_def clear_session_def touch_last_seen_def
  using assms by (auto intro!: inv_touch_workers simp: wkey_def)

lemma evolves_sessions:
  assumes "inv_keys d"
  shows "evolves t d (revoke_worker t w clk d)" "evolves t d (mark_session t w s clk d)"
    "evolves t d (clear_session t w d)" "evolves t d (touch_last_seen t w clk d)"
  unfolding revoke_worker_def mark_session_def clear_session_def touch_last_seen_def
  using assms by (auto intro!: evolves_touch_workers simp: wkey_def)

lemma evolves_enroll:
  assumes "inv_keys d" "enroll t e i clk d = Ok (w, d')"
  shows "evolves t d d'"
proof (cases "find (\<lambda>w. w_tenant w = t \<and> w_name w = we_name e) (db_workers d)")
  case None
  with assms show ?thesis
    by (auto simp: enroll_def others_def intro!: evolves_same split: if_splits)
next
  case (Some old)
  then have "w_tenant old = t" by (auto simp: find_Some_iff)
  with Some assms show ?thesis
    by (auto simp: enroll_def wkey_def intro!: evolves_touch_workers split: if_splits)
qed

section \<open>Lemmas on capability reports\<close>

lemma delete_pools_Ok:
  assumes "delete_pools P d = Ok d'"
  shows "d' = d\<lparr>db_attempts := delete_where (\<lambda>a. apool a \<in> pkey ` set (filter P (db_pools d))) (db_attempts d),
     db_pools := delete_where P (db_pools d),
     db_pool_models := delete_where (\<lambda>m. (pm_tenant m, pm_pool_id m) \<in> pkey ` set (filter P (db_pools d)))
       (db_pool_models d),
     db_rejections := delete_where (\<lambda>r. (r_tenant r, r_pool r) \<in> pkey ` set (filter P (db_pools d)))
       (db_rejections d)\<rparr>"
    and "g \<in> set (db_generations d) \<Longrightarrow> a \<in> set (db_attempts d) \<Longrightarrow> a_tenant a = g_tenant g \<Longrightarrow>
      g_accepted_attempt g = Some (a_id a) \<Longrightarrow> apool a \<notin> pkey ` set (filter P (db_pools d))"
  using assms by (auto simp: delete_pools_def Let_def split: if_splits)

lemma inv_delete_pools:
  assumes inv: "store_inv d" and ok: "delete_pools P d = Ok d'"
  shows "store_inv d'"
proof -
  let ?dead = "pkey ` set (filter P (db_pools d))"
  let ?bs = "delete_where (\<lambda>a. apool a \<in> ?dead) (db_attempts d)"
  have kept: "apool a \<notin> ?dead" if a: "a \<in> set (db_attempts d)" "a_state a = AttemptState.Succeeded" for a
  proof -
    obtain g where g: "g \<in> set (db_generations d)" "gkey g = agen a"
      by (rule inv_attempt_generation [OF inv a(1)])
    moreover have "g_accepted_attempt g = Some (a_id a)"
      using store_invD(5) [OF inv] a g unfolding inv_results_def by metis
    ultimately show ?thesis
      using delete_pools_Ok(2) [OF ok g(1) a(1)] by (simp add: gkey_def agen_def)
  qed
  have pd: "distinct (map pkey (db_pools d))" using store_invD(1) [OF inv] by (simp add: inv_keys_def)
  have "store_inv (d\<lparr>db_attempts := ?bs, db_pools := delete_where P (db_pools d)\<rparr>)"
  proof (rule inv_shrink [OF inv])
    show "distinct (map akey ?bs)"
      using store_invD(1) [OF inv] by (intro distinct_delete_where) (simp add: inv_keys_def)
    show "distinct (map (\<lambda>a. (agen a, a_attempt_number a)) ?bs)"
      using store_invD(4) [OF inv] by (intro distinct_delete_where) (simp add: inv_numbers_def)
    show "\<exists>a \<in> set (db_attempts d). agen b = agen a \<and> apool b = apool a \<and> aworker b = aworker a \<and>
        a_attempt_number b = a_attempt_number a \<and> (is_live b \<longrightarrow> is_live a)" if "b \<in> set ?bs" for b
      using that by (auto simp: set_delete_where)
    show "{b \<in> set ?bs. a_state b = AttemptState.Succeeded} =
        {a \<in> set (db_attempts d). a_state a = AttemptState.Succeeded}"
      using kept by (auto simp: set_delete_where)
    show "distinct (map pkey (delete_where P (db_pools d)))" by (rule distinct_delete_where [OF pd])
    show "apool b \<in> pkey ` set (delete_where P (db_pools d))" if "b \<in> set ?bs" for b
    proof -
      have b: "b \<in> set (db_attempts d)" "apool b \<notin> ?dead" using that by (auto simp: set_delete_where)
      then obtain p where p: "p \<in> set (db_pools d)" "pkey p = apool b" by (elim inv_pool_of [OF inv])
      have "\<not> P p" using b(2) p(1) unfolding p(2) [symmetric] by auto
      then show ?thesis
        using p by (intro image_eqI [of _ _ p]) (simp_all add: set_delete_where)
    qed
    show "p_claimed_slots p = int (live_count (pkey p) ?bs) \<and> p_claimed_slots p \<le> p_total_slots p"
      if "p \<in> set (delete_where P (db_pools d))" for p
    proof -
      have p: "p \<in> set (db_pools d)" "\<not> P p" using that by (auto simp: set_delete_where)
      have "pkey p \<notin> ?dead" using pools.key_unique [OF pd p(1)] p(2) by fastforce
      then have "filter (\<lambda>a. is_live a \<and> apool a = pkey p) ?bs =
          filter (\<lambda>a. is_live a \<and> apool a = pkey p) (db_attempts d)"
        by (intro filter_delete_where) metis
      then have "live_count (pkey p) ?bs = live_count (pkey p) (db_attempts d)"
        unfolding live_count_def by simp
      then show ?thesis using inv_pool_counts [OF inv p(1)] by (intro conjI) simp_all
    qed
  qed
  then show ?thesis unfolding delete_pools_Ok(1) [OF ok] by simp
qed

lemma clamp_i32_nonneg: "0 \<le> clamp_i32 v"
  by (simp add: clamp_i32_def)

lemma apply_upsert_simps [simp]:
  "pkey (apply_upsert u now p) = pkey p" "p_tenant (apply_upsert u now p) = p_tenant p"
  "p_claimed_slots (apply_upsert u now p) = p_claimed_slots p"
  "p_total_slots (apply_upsert u now p) = clamp_i32 (pu_total_slots u)"
  "p_id (apply_upsert u now p) = p_id p" "p_worker_id (apply_upsert u now p) = p_worker_id p"
  "p_pool_key (apply_upsert u now p) = p_pool_key p"
  by (simp_all add: apply_upsert_def pkey_def)

lemma new_pool_simps [simp]:
  "pkey (new_pool t w i u now) = (t, i)" "p_claimed_slots (new_pool t w i u now) = 0"
  "p_total_slots (new_pool t w i u now) = clamp_i32 (pu_total_slots u)"
  "p_tenant (new_pool t w i u now) = t" "p_id (new_pool t w i u now) = i"
  by (simp_all add: new_pool_def) (simp add: pkey_def)

lemma upsert_pool_cases:
  assumes "upsert_pool t w clk u i d = Ok d'"
  obtains (update) old where
      "find (\<lambda>p. p_tenant p = t \<and> p_worker_id p = w \<and> p_pool_key p = pu_pool_key u) (db_pools d) = Some old"
      "p_claimed_slots old \<le> clamp_i32 (pu_total_slots u)"
      "d' = d\<lparr>db_pools := update_where (\<lambda>p. pkey p = pkey old) (apply_upsert u (sql_now clk)) (db_pools d),
            db_pool_models := sync_pool_models t (p_id old) (pu_model_hashes u) (db_pool_models d)\<rparr>"
  | (insert) "\<forall>p \<in> set (db_pools d). pkey p \<noteq> (t, i)"
      "d' = d\<lparr>db_pools := db_pools d @ [new_pool t w i u (sql_now clk)],
            db_pool_models := sync_pool_models t i (pu_model_hashes u) (db_pool_models d)\<rparr>"
proof (cases "find (\<lambda>p. p_tenant p = t \<and> p_worker_id p = w \<and> p_pool_key p = pu_pool_key u) (db_pools d)")
  case None
  with assms show thesis
    by (intro insert) (auto simp: upsert_pool_def rbind_eq_Ok split: if_splits)
next
  case (Some old)
  let ?d = "d\<lparr>db_pools := update_where (\<lambda>p. pkey p = pkey old) (apply_upsert u (sql_now clk)) (db_pools d),
      db_pool_models := sync_pool_models t (p_id old) (pu_model_hashes u) (db_pool_models d)\<rparr>"
  have eq: "upsert_pool t w clk u i d =
      (if length (pu_accelerator u) > 64 then Err (CheckViolation ''device_pools.accelerator'')
       else if p_claimed_slots old > clamp_i32 (pu_total_slots u)
       then Err (CheckViolation ''device_pools_claimed_within_total'') else Ok ?d)"
    unfolding upsert_pool_def Some by simp
  have res: "\<not> p_claimed_slots old > clamp_i32 (pu_total_slots u) \<and> d' = ?d"
    using assms unfolding eq by (simp only: split: if_splits) auto
  have "p_claimed_slots old \<le> clamp_i32 (pu_total_slots u)" by (rule leI [OF conjunct1 [OF res]])
  then show thesis by (rule update [OF Some _ conjunct2 [OF res]])
qed

lemma inv_upsert_pool:
  assumes inv: "store_inv d" and ok: "upsert_pool t w clk u i d = Ok d'"
  shows "store_inv d'"
  using ok
proof (cases rule: upsert_pool_cases)
  case (update old)
  let ?ps = "update_where (\<lambda>p. pkey p = pkey old) (apply_upsert u (sql_now clk)) (db_pools d)"
  have keys: "map pkey ?ps = map pkey (db_pools d)" by (rule map_update_where) simp
  have pd: "distinct (map pkey (db_pools d))" using store_invD(1) [OF inv] by (simp add: inv_keys_def)
  have old: "old \<in> set (db_pools d)" using update(1) by (auto simp: find_Some_iff)
  have "store_inv (d\<lparr>db_pools := ?ps\<rparr>)"
  proof (rule inv_update_pools [OF inv])
    show "distinct (map pkey ?ps)" using keys pd by simp
    show "pkey ` set (db_pools d) \<subseteq> pkey ` set ?ps"
      using arg_cong [OF keys, of set] by (simp only: set_map)
    fix p assume "p \<in> set ?ps"
    then have "p = apply_upsert u (sql_now clk) old \<or> p \<in> set (db_pools d)"
      using set_update_one [OF old, of "\<lambda>p. pkey p = pkey old"] pools.key_unique [OF pd _ old] by blast
    then show "p_claimed_slots p = int (live_count (pkey p) (db_attempts d)) \<and>
        p_claimed_slots p \<le> p_total_slots p"
    proof
      assume "p = apply_upsert u (sql_now clk) old"
      then show ?thesis using inv_pool_counts(1) [OF inv old] update(2) by simp
    next
      assume "p \<in> set (db_pools d)"
      then show ?thesis by (intro conjI inv_pool_counts [OF inv])
    qed
  qed
  then show ?thesis by (simp add: update(3))
next
  case insert
  let ?new = "new_pool t w i u (sql_now clk)"
  have "store_inv (d\<lparr>db_pools := db_pools d @ [?new]\<rparr>)"
  proof (rule inv_update_pools [OF inv])
    show "distinct (map pkey (db_pools d @ [?new]))"
      using store_invD(1) [OF inv] insert(1) by (auto simp: inv_keys_def)
    show "pkey ` set (db_pools d) \<subseteq> pkey ` set (db_pools d @ [?new])" by auto
    fix p assume p: "p \<in> set (db_pools d @ [?new])"
    have "apool a \<noteq> (t, i)" if a: "a \<in> set (db_attempts d)" for a
      using inv_pool_of [OF inv a] insert(1) by metis
    then have none: "live_count (t, i) (db_attempts d) = 0"
      by (auto simp: live_count_def filter_empty_conv)
    show "p_claimed_slots p = int (live_count (pkey p) (db_attempts d)) \<and>
        p_claimed_slots p \<le> p_total_slots p"
    proof (cases "p = ?new")
      case True
      then show ?thesis using none by (simp add: clamp_i32_nonneg)
    next
      case False
      then have "p \<in> set (db_pools d)" using p by simp
      then show ?thesis by (intro conjI inv_pool_counts [OF inv])
    qed
  qed
  then show ?thesis by (simp add: insert(2))
qed

lemma inv_upsert_each:
  "store_inv d \<Longrightarrow> upsert_each t w clk report d = Ok d' \<Longrightarrow> store_inv d'"
proof (induction report arbitrary: d)
  case (Cons x report)
  obtain u i where "x = (u, i)" by (cases x)
  with Cons.prems obtain d1 where "upsert_pool t w clk u i d = Ok d1" "upsert_each t w clk report d1 = Ok d'"
    by (auto simp: rbind_eq_Ok)
  with Cons.IH [of d1] inv_upsert_pool [OF Cons.prems(1)] show ?case by blast
qed simp

lemma inv_upsert_pools:
  "store_inv d \<Longrightarrow> upsert_pools t w report clk d = Ok (u, d') \<Longrightarrow> store_inv d'"
  by (auto simp: upsert_pools_def rbind_eq_Ok dest: inv_delete_pools intro: inv_upsert_each)

text \<open>What a report does to the rows of the other tables.\<close>

lemma filter_sync_pool_models:
  "filter (\<lambda>r. pm_tenant r \<noteq> t) (sync_pool_models t pool hashes rows) =
   filter (\<lambda>r. pm_tenant r \<noteq> t) rows"
proof -
  have "filter (\<lambda>r. pm_tenant r \<noteq> t)
      (foldl (\<lambda>rs h. if \<exists>m \<in> set rs. pm_tenant m = t \<and> pm_pool_id m = pool \<and> pm_content m = h then rs
        else rs @ [\<lparr>pm_tenant = t, pm_pool_id = pool, pm_content = h\<rparr>]) rs hs) =
      filter (\<lambda>r. pm_tenant r \<noteq> t) rs" for rs hs
    by (induction hs arbitrary: rs) simp_all
  moreover have "filter (\<lambda>r. pm_tenant r \<noteq> t) (delete_where (\<lambda>m. pm_tenant m = t \<and>
      pm_pool_id m = pool \<and> pm_content m \<notin> set hashes) rows) = filter (\<lambda>r. pm_tenant r \<noteq> t) rows"
    by (rule filter_delete_where) simp
  ultimately show ?thesis unfolding sync_pool_models_def by simp
qed

lemma upsert_pool_frame:
  assumes "upsert_pool t w clk u i d = Ok d'"
  shows "db_generations d' = db_generations d \<and> db_attempts d' = db_attempts d \<and>
         db_artifacts d' = db_artifacts d \<and> others t d' = others t d"
  using assms
proof (cases rule: upsert_pool_cases)
  case (update old)
  then have "p_tenant old = t" by (auto simp: find_Some_iff)
  then have "filter (\<lambda>r. p_tenant r \<noteq> t)
      (update_where (\<lambda>p. pkey p = pkey old) (apply_upsert u (sql_now clk)) (db_pools d)) =
      filter (\<lambda>r. p_tenant r \<noteq> t) (db_pools d)"
    by (intro filter_update_where) (simp add: pkey_def)
  then show ?thesis by (simp add: update(3) others_def filter_sync_pool_models)
next
  case insert
  then show ?thesis by (simp add: others_def filter_sync_pool_models)
qed

lemma upsert_each_frame:
  "upsert_each t w clk report d = Ok d' \<Longrightarrow>
     db_generations d' = db_generations d \<and> db_attempts d' = db_attempts d \<and>
     db_artifacts d' = db_artifacts d \<and> others t d' = others t d"
proof (induction report arbitrary: d)
  case (Cons x report)
  obtain u i where "x = (u, i)" by (cases x)
  with Cons.prems obtain d1 where "upsert_pool t w clk u i d = Ok d1" "upsert_each t w clk report d1 = Ok d'"
    by (auto simp: rbind_eq_Ok)
  with Cons.IH [of d1] upsert_pool_frame [of t w clk u i d d1] show ?case by simp
qed simp

lemma upsert_pools_frame:
  assumes "upsert_pools t w report clk d = Ok (u, d')"
  shows "db_generations d' = db_generations d \<and> db_artifacts d' = db_artifacts d \<and>
         others t d' = others t d \<and>
         (\<exists>P. (\<forall>p. P p \<longrightarrow> p_tenant p = t \<and> p_worker_id p = w) \<and>
              db_attempts d' = delete_where (\<lambda>a. apool a \<in> pkey ` set (filter P (db_pools d))) (db_attempts d))"
proof -
  define P where "P p \<longleftrightarrow> p_tenant p = t \<and> p_worker_id p = w \<and>
      p_pool_key p \<notin> (\<lambda>(u, _). pu_pool_key u) ` set report" for p :: pool_row
  obtain d1 where d1: "delete_pools P d = Ok d1" "upsert_each t w clk report d1 = Ok d'"
    using assms by (auto simp: upsert_pools_def rbind_eq_Ok P_def [abs_def])
  have dead: "filter (\<lambda>r. f r \<noteq> t) (delete_where (\<lambda>r. (f r, h r) \<in> pkey ` set (filter P (db_pools d))) rows) =
      filter (\<lambda>r. f r \<noteq> t) rows" for f h and rows :: "'r list"
    by (rule filter_delete_where) (auto simp: P_def pkey_def)
  have "filter (\<lambda>r. p_tenant r \<noteq> t) (delete_where P (db_pools d)) = filter (\<lambda>r. p_tenant r \<noteq> t) (db_pools d)"
    by (rule filter_delete_where) (simp add: P_def)
  then have "others t d1 = others t d"
    unfolding delete_pools_Ok(1) [OF d1(1)] others_def apool_def by (simp add: dead del: set_filter)
  then show ?thesis
    using upsert_each_frame [OF d1(2)] unfolding delete_pools_Ok(1) [OF d1(1)]
    by (auto simp: P_def intro!: exI [of _ P])
qed

lemma evolves_upsert_pools:
  assumes inv: "inv_keys d" and ok: "upsert_pools t w report clk d = Ok (u, d')"
  shows "evolves t d d'"
proof -
  obtain P where f: "db_generations d' = db_generations d" "db_artifacts d' = db_artifacts d"
    "others t d' = others t d"
    "db_attempts d' = delete_where (\<lambda>a. apool a \<in> pkey ` set (filter P (db_pools d))) (db_attempts d)"
    using upsert_pools_frame [OF ok] by blast
  have "evolves t d (d\<lparr>db_attempts := db_attempts d'\<rparr>)"
  proof (rule evolves_attempts_from [OF inv])
    show "b \<in> set (db_attempts d) \<or> akey b \<notin> akey ` set (db_attempts d)"
      if "b \<in> set (db_attempts d')" for b
      using that by (simp add: f(4) set_delete_where)
    show "filter (\<lambda>r. a_tenant r \<noteq> t) (db_attempts d') = filter (\<lambda>r. a_tenant r \<noteq> t) (db_attempts d)"
      using f(3) by (simp add: others_def)
  qed
  then show ?thesis using f by (simp add: evolves_def gen_moves_def att_moves_def art_moves_def)
qed

end
