(* ===== verification/Db_Generations.thy ===== *)
theory Db_Generations
  imports Db_Workers
begin

text \<open>
  Generations, \<^verbatim>\<open>gpq-remote/src/db/generations.rs\<close>: insertion, listing, the guarded state
  changes (each a compare-and-set on the current state), the acceptance of a result, and the
  reconstruction of scheduling candidates from stored rows.
\<close>

section \<open>Insertion and queries\<close>

record NewGeneration =
  ng_id :: GenerationId
  ng_tenant_id :: TenantId
  ng_alias :: string
  ng_target :: ExecutionTarget
  ng_parameters :: json
  ng_priority :: Priority
  ng_seed :: "u64 option"
  ng_execution_timeout :: duration
  ng_output_placement :: ArtifactPlacement

datatype InsertGenerationError = InsertSeedOutOfRange u64 | InsertDatabase sql_error

definition insert_generation ::
  "env \<Rightarrow> NewGeneration \<Rightarrow> clocks \<Rightarrow> db \<Rightarrow> InsertGenerationError + GenerationRow \<times> db" where
  "insert_generation E new clk d =
     rbind (case ng_seed new of
              Some value \<Rightarrow> if uint value < 2 ^ 63 then Ok (Some (uint value)) else Err (InsertSeedOutOfRange value)
            | None \<Rightarrow> Ok None) (\<lambda>seed.
     rbind (case x_interval E (ng_execution_timeout new) of
              None \<Rightarrow> Err (InsertDatabase ConfigurationError) | Some i \<Rightarrow> Ok i) (\<lambda>interval.
       let row = \<lparr>g_tenant = ng_tenant_id new, g_id = ng_id new, g_state = GenerationState.Queued,
                  g_modality = et_modality (ng_target new), g_alias = ng_alias new,
                  g_version = et_version (ng_target new), g_parameters = ng_parameters new,
                  g_priority = uint (Priority_get (ng_priority new)), g_seed = seed,
                  g_execution_timeout = interval, g_output_placement = ng_output_placement new,
                  g_attempt_count = 0, g_accepted_attempt = None, g_latest_progress = None,
                  g_failure_kind = None, g_failure_message = [], g_created_at = sql_now clk,
                  g_updated_at = sql_now clk, g_started_at = None, g_terminated_at = None\<rparr>
       in if \<exists>g \<in> set (db_generations d). gkey g = gkey row
          then Err (InsertDatabase (UniqueViolation ''generations_pkey''))
          else if g_priority row > 9 then Err (InsertDatabase (CheckViolation ''generations.priority''))
          else if interval = 0 then Err (InsertDatabase (CheckViolation ''generations.execution_timeout''))
          else if ng_output_placement new = ArtifactPlacement.RemoteLocal
          then Err (InsertDatabase (CheckViolation ''generations_output_placement_check''))
          else Ok (row, d\<lparr>db_generations := db_generations d @ [row]\<rparr>)))"

definition get_generation :: "TenantId \<Rightarrow> GenerationId \<Rightarrow> db \<Rightarrow> GenerationRow option" where
  "get_generation t i d = find (\<lambda>g. gkey g = (t, i)) (db_generations d)"

definition list_generations ::
  "TenantId \<Rightarrow> u32 \<Rightarrow> GenerationId option \<Rightarrow> GenerationState option \<Rightarrow> db \<Rightarrow> GenerationRow list" where
  "list_generations t page_size after state_filter d =
     take (unat page_size)
       (rev (sort_key g_id
          (filter (\<lambda>g. g_tenant g = t \<and>
                       (case after of None \<Rightarrow> True | Some cursor \<Rightarrow> g_id g < cursor) \<and>
                       (case state_filter of None \<Rightarrow> True | Some s \<Rightarrow> g_state g = s)) (db_generations d))))"

definition count_nonterminal :: "TenantId \<Rightarrow> db \<Rightarrow> nat" where
  "count_nonterminal t d =
     rows_affected (\<lambda>g. g_tenant g = t \<and> g_state g \<notin> {GenerationState.Succeeded,
       GenerationState.Failed, GenerationState.Cancelled, GenerationState.Expired}) (db_generations d)"

section \<open>Guarded state changes\<close>

definition update_generation ::
  "(GenerationRow \<Rightarrow> bool) \<Rightarrow> (GenerationRow \<Rightarrow> GenerationRow) \<Rightarrow> db \<Rightarrow> bool \<times> db" where
  "update_generation P f d =
     (rows_affected P (db_generations d) = 1,
      d\<lparr>db_generations := update_where P f (db_generations d)\<rparr>)"

definition mark_running_generation :: "TenantId \<Rightarrow> GenerationId \<Rightarrow> datetime \<Rightarrow> db \<Rightarrow> bool \<times> db" where
  "mark_running_generation t i now =
     update_generation (\<lambda>g. gkey g = (t, i) \<and> g_state g = GenerationState.Queued)
       (\<lambda>g. g\<lparr>g_state := GenerationState.Running, g_started_at := Some now, g_updated_at := now\<rparr>)"

definition requeue :: "TenantId \<Rightarrow> GenerationId \<Rightarrow> datetime \<Rightarrow> db \<Rightarrow> bool \<times> db" where
  "requeue t i now =
     update_generation (\<lambda>g. gkey g = (t, i) \<and> g_state g = GenerationState.Running)
       (\<lambda>g. g\<lparr>g_state := GenerationState.Queued, g_updated_at := now\<rparr>)"

definition fail_generation ::
  "TenantId \<Rightarrow> GenerationId \<Rightarrow> FailureKind \<Rightarrow> string \<Rightarrow> datetime \<Rightarrow> db \<Rightarrow> bool \<times> db" where
  "fail_generation t i kind message now =
     update_generation (\<lambda>g. gkey g = (t, i) \<and> g_state g \<in> {GenerationState.Queued,
         GenerationState.Running, GenerationState.Cancelling})
       (\<lambda>g. g\<lparr>g_state := GenerationState.Failed, g_failure_kind := Some kind,
              g_failure_message := message, g_terminated_at := Some now, g_updated_at := now\<rparr>)"

definition cancel_queued :: "TenantId \<Rightarrow> GenerationId \<Rightarrow> datetime \<Rightarrow> db \<Rightarrow> bool \<times> db" where
  "cancel_queued t i now =
     update_generation (\<lambda>g. gkey g = (t, i) \<and> g_state g = GenerationState.Queued)
       (\<lambda>g. g\<lparr>g_state := GenerationState.Cancelled, g_terminated_at := Some now, g_updated_at := now\<rparr>)"

definition request_cancel_running :: "TenantId \<Rightarrow> GenerationId \<Rightarrow> datetime \<Rightarrow> db \<Rightarrow> bool \<times> db" where
  "request_cancel_running t i now =
     update_generation (\<lambda>g. gkey g = (t, i) \<and> g_state g = GenerationState.Running)
       (\<lambda>g. g\<lparr>g_state := GenerationState.Cancelling, g_updated_at := now\<rparr>)"

definition finish_cancelled :: "TenantId \<Rightarrow> GenerationId \<Rightarrow> datetime \<Rightarrow> db \<Rightarrow> bool \<times> db" where
  "finish_cancelled t i now =
     update_generation (\<lambda>g. gkey g = (t, i) \<and> g_state g = GenerationState.Cancelling)
       (\<lambda>g. g\<lparr>g_state := GenerationState.Cancelled, g_terminated_at := Some now, g_updated_at := now\<rparr>)"

definition expire_generation :: "TenantId \<Rightarrow> GenerationId \<Rightarrow> datetime \<Rightarrow> db \<Rightarrow> bool \<times> db" where
  "expire_generation t i now =
     update_generation (\<lambda>g. gkey g = (t, i) \<and> g_state g = GenerationState.Queued)
       (\<lambda>g. g\<lparr>g_state := GenerationState.Expired, g_terminated_at := Some now, g_updated_at := now\<rparr>)"

definition update_progress :: "TenantId \<Rightarrow> GenerationId \<Rightarrow> json \<Rightarrow> clocks \<Rightarrow> db \<Rightarrow> bool \<times> db" where
  "update_progress t i progress clk =
     update_generation (\<lambda>g. gkey g = (t, i) \<and> g_state g \<in> {GenerationState.Running, GenerationState.Cancelling})
       (\<lambda>g. g\<lparr>g_latest_progress := Some progress, g_updated_at := sql_now clk\<rparr>)"

section \<open>Result acceptance\<close>

datatype AcceptOutcome =
    Accepted GenerationId
  | AcceptedReplay
  | StaleLease
  | AlreadyAccepted
  | TerminalGeneration

definition accept_result ::
  "TenantId \<Rightarrow> AttemptId \<Rightarrow> WorkerId \<Rightarrow> datetime \<Rightarrow> clocks \<Rightarrow> db \<Rightarrow> AcceptOutcome \<times> db" where
  "accept_result t attempt_id worker now clk d =
     (case find (\<lambda>a. akey a = (t, attempt_id) \<and> a_worker a = worker) (db_attempts d) of
        None \<Rightarrow> (StaleLease, d)
      | Some attempt \<Rightarrow>
          (case find (\<lambda>g. gkey g = (t, a_generation attempt)) (db_generations d) of
             None \<Rightarrow> (TerminalGeneration, d)
           | Some generation \<Rightarrow>
               if a_state attempt = AttemptState.Succeeded \<and>
                  g_accepted_attempt generation = Some attempt_id
               then (AcceptedReplay, d)
               else if \<not> AttemptState_is_live (a_state attempt) \<or> a_lease_expires_at attempt \<le> now
               then (StaleLease, d)
               else if g_accepted_attempt generation \<noteq> None then (AlreadyAccepted, d)
               else if \<not> GenerationState_can_transition_to (g_state generation) GenerationState.Succeeded
               then (TerminalGeneration, d)
               else
                 let d1 = d\<lparr>db_attempts := update_where
                              (\<lambda>a. akey a = (t, attempt_id) \<and> a_worker a = worker)
                              (\<lambda>a. a\<lparr>a_state := AttemptState.Succeeded, a_finished_at := Some now\<rparr>)
                              (db_attempts d)\<rparr>;
                     d2 = release_slot t (a_pool attempt) clk d1
                 in (Accepted (a_generation attempt),
                     d2\<lparr>db_generations := update_where (\<lambda>g. gkey g = (t, a_generation attempt))
                          (\<lambda>g. g\<lparr>g_state := GenerationState.Succeeded,
                                 g_accepted_attempt := Some attempt_id,
                                 g_terminated_at := Some now, g_updated_at := now\<rparr>)
                          (db_generations d2)\<rparr>)))"

section \<open>Scheduling candidates\<close>

datatype CandidateRowError =
    CandidatePriority PriorityOutOfRange
  | CandidatePriorityRange int
  | MissingManifest GenerationId
  | CandidateManifest GenerationId
  | CandidateParameters GenerationId
  | CandidateRequirement GenerationId RequirementError

definition requirement_from_parts ::
  "env \<Rightarrow> TenantId \<Rightarrow> GenerationId \<Rightarrow> ContentHash \<Rightarrow> json \<Rightarrow> json option \<Rightarrow>
   CandidateRowError + Requirement" where
  "requirement_from_parts E t gen version parameters manifest =
     rbind (case manifest of None \<Rightarrow> Err (MissingManifest gen) | Some j \<Rightarrow> Ok j) (\<lambda>manifest_json.
     rbind (case x_manifest_from_json E manifest_json of
              None \<Rightarrow> Err (CandidateManifest gen) | Some m \<Rightarrow> Ok m) (\<lambda>m.
     rbind (case x_params_from_json E parameters of
              None \<Rightarrow> Err (CandidateParameters gen) | Some p \<Rightarrow> Ok p) (\<lambda>p.
       map_err (CandidateRequirement gen)
         (for_generation (x_manifest_to_vec E) (x_sha256 E) t version m p))))"

definition pinned_manifest :: "GenerationRow \<Rightarrow> db \<Rightarrow> json option" where
  "pinned_manifest g d =
     map_option mv_manifest
       (find (\<lambda>v. mv_tenant v = g_tenant g \<and> mv_content v = g_version g) (db_model_versions d))"

definition into_candidate :: "env \<Rightarrow> TenantId \<Rightarrow> db \<Rightarrow> GenerationRow \<Rightarrow> CandidateRowError + Candidate" where
  "into_candidate E t d g =
     rbind (if 0 \<le> g_priority g \<and> g_priority g < 2 ^ 8 then Ok (of_int (g_priority g))
            else Err (CandidatePriorityRange (g_priority g))) (\<lambda>raw.
     rbind (map_err CandidatePriority (Priority_new raw)) (\<lambda>priority.
     rbind (requirement_from_parts E t (g_id g) (g_version g) (g_parameters g) (pinned_manifest g d))
       (\<lambda>requirement.
         Ok \<lparr>cd_generation_id = g_id g, cd_created_at = g_created_at g, cd_priority = priority,
             cd_requirement = requirement\<rparr>)))"

definition oks :: "('e + 'a) list \<Rightarrow> 'a list" where
  "oks rs = concat (map (\<lambda>r. case r of Ok v \<Rightarrow> [v] | Err _ \<Rightarrow> []) rs)"

definition queued_candidates :: "env \<Rightarrow> TenantId \<Rightarrow> nat \<Rightarrow> db \<Rightarrow> Candidate list" where
  "queued_candidates E t limit d =
     oks (map (into_candidate E t d)
       (take limit (sort_key g_created_at
          (filter (\<lambda>g. g_tenant g = t \<and> g_state g = GenerationState.Queued) (db_generations d)))))"

definition requirement_of :: "env \<Rightarrow> TenantId \<Rightarrow> GenerationId \<Rightarrow> db \<Rightarrow> Requirement option" where
  "requirement_of E t i d =
     (case find (\<lambda>g. gkey g = (t, i)) (db_generations d) of
        None \<Rightarrow> None
      | Some g \<Rightarrow>
          (case requirement_from_parts E t i (g_version g) (g_parameters g) (pinned_manifest g d) of
             Ok requirement \<Rightarrow> Some requirement | Err _ \<Rightarrow> None))"

section \<open>Lemmas on the state changes\<close>

lemma inv_insert_generation:
  assumes inv: "store_inv d" and ok: "insert_generation E new clk d = Ok (g, d')"
  shows "store_inv d'"
    and "d' = d\<lparr>db_generations := db_generations d @ [g]\<rparr>"
    and "g_state g = GenerationState.Queued" "gkey g = (ng_tenant_id new, ng_id new)"
    and "gkey g \<notin> gkey ` set (db_generations d)"
proof -
  from ok have g: "d' = d\<lparr>db_generations := db_generations d @ [g]\<rparr>"
    "g_state g = GenerationState.Queued" "gkey g = (ng_tenant_id new, ng_id new)"
    "gkey g \<notin> gkey ` set (db_generations d)" "g_attempt_count g = 0" "g_accepted_attempt g = None"
    by (auto simp: insert_generation_def rbind_eq_Ok Let_def gkey_def split: if_splits option.splits)
  then show "d' = d\<lparr>db_generations := db_generations d @ [g]\<rparr>" "g_state g = GenerationState.Queued"
    "gkey g = (ng_tenant_id new, ng_id new)" "gkey g \<notin> gkey ` set (db_generations d)" by simp_all
  have noatt: "agen a \<noteq> gkey g" if "a \<in> set (db_attempts d)" for a
    using store_invD(2) [OF inv] that g(4) unfolding inv_refs_def by metis
  show "store_inv d'"
    unfolding g(1)
  proof
    show "inv_keys (d\<lparr>db_generations := db_generations d @ [g]\<rparr>)"
      using store_invD(1) [OF inv] g(4) by (simp add: inv_keys_def)
    show "inv_refs (d\<lparr>db_generations := db_generations d @ [g]\<rparr>)"
      using store_invD(2) [OF inv] by (auto simp: inv_refs_def)
    show "inv_slots (d\<lparr>db_generations := db_generations d @ [g]\<rparr>)"
      using store_invD(3) [OF inv] by (auto simp: inv_slots_def)
    show "inv_numbers (d\<lparr>db_generations := db_generations d @ [g]\<rparr>)"
      using store_invD(4) [OF inv] g(5) noatt by (auto simp: inv_numbers_def)
    show "inv_results (d\<lparr>db_generations := db_generations d @ [g]\<rparr>)"
      using store_invD(5) [OF inv] g(2,6) noatt by (auto simp: inv_results_def)
    show "inv_outputs (d\<lparr>db_generations := db_generations d @ [g]\<rparr>)"
      using store_invD(6) [OF inv] by (simp add: inv_outputs_def)
  qed
qed

definition no_live :: "TenantId \<times> GenerationId \<Rightarrow> db \<Rightarrow> bool" where
  "no_live k d \<longleftrightarrow> (\<forall>a \<in> set (db_attempts d). agen a = k \<longrightarrow> \<not> is_live a)"

lemma no_live_inactive:
  assumes "store_inv d" "g \<in> set (db_generations d)" "\<not> hosts_live g"
  shows "no_live (gkey g) d"
  unfolding no_live_def using inv_live_active(1) [OF assms(1) _ _ assms(2)] assms(3) by blast

lemma inv_update_generation:
  assumes inv: "store_inv d"
    and keep: "\<And>g. P g \<Longrightarrow> gkey (f g) = gkey g \<and> g_attempt_count (f g) = g_attempt_count g \<and>
      g_accepted_attempt (f g) = g_accepted_attempt g \<and>
      g_state g \<noteq> GenerationState.Succeeded \<and> g_state (f g) \<noteq> GenerationState.Succeeded \<and>
      (g_state (f g) = GenerationState.Failed \<longrightarrow> g_failure_kind (f g) \<noteq> None)"
    and live: "\<And>g. P g \<Longrightarrow> g \<in> set (db_generations d) \<Longrightarrow> hosts_live (f g) \<or> no_live (gkey g) d"
  shows "store_inv (snd (update_generation P f d))"
  unfolding update_generation_def snd_conv
proof (rule inv_update_generations [OF inv])
  fix g assume g: "P g" "g \<in> set (db_generations d)"
  show "gkey (f g) = gkey g \<and> g_attempt_count (f g) = g_attempt_count g \<and>
      g_accepted_attempt (f g) = g_accepted_attempt g \<and>
      (g_state (f g) = GenerationState.Succeeded \<longleftrightarrow> g_state g = GenerationState.Succeeded) \<and>
      (g_state (f g) = GenerationState.Failed \<longrightarrow> g_failure_kind (f g) \<noteq> None)"
    using keep [OF g(1)] by simp
  fix a assume "a \<in> set (db_attempts d)" "is_live a" "agen a = gkey g"
  with live [OF g] show "hosts_live (f g)" unfolding no_live_def by blast
qed

lemma evolves_update_generation:
  assumes "inv_keys d" "\<And>g. P g \<Longrightarrow> gen_step g (f g)" "\<And>g. P g \<Longrightarrow> g_tenant g = t"
  shows "evolves t d (snd (update_generation P f d))"
  unfolding update_generation_def snd_conv using assms by (intro evolves_generations) simp_all

lemmas gen_change_defs = mark_running_generation_def requeue_def fail_generation_def
  cancel_queued_def request_cancel_running_def finish_cancelled_def expire_generation_def
  update_progress_def

text \<open>The state changes that need nothing but the guard.\<close>

lemma inv_gen_changes:
  assumes "store_inv d"
  shows "store_inv (snd (mark_running_generation t i now d))"
    "store_inv (snd (cancel_queued t i now d))"
    "store_inv (snd (request_cancel_running t i now d))"
    "store_inv (snd (expire_generation t i now d))"
    "store_inv (snd (update_progress t i j clk d))"
    "store_inv (snd (finish_cancelled t i now d))"
  unfolding gen_change_defs
  by (rule inv_update_generation [OF assms]; auto simp: gkey_def [of "_ :: GenerationRow"]
      dest: no_live_inactive [OF assms])+

text \<open>Those that need the Generation's live Attempt to have ended.\<close>

lemma inv_gen_settles:
  assumes "store_inv d" "no_live (t, i) d"
  shows "store_inv (snd (requeue t i now d))"
    "store_inv (snd (fail_generation t i kind message now d))"
  unfolding gen_change_defs
  by (rule inv_update_generation [OF assms(1)]; use assms(2) in \<open>auto simp: gkey_def\<close>)+

lemma evolves_gen_changes:
  assumes "inv_keys d"
  shows "evolves t d (snd (mark_running_generation t i now d))"
    "evolves t d (snd (requeue t i now d))"
    "evolves t d (snd (fail_generation t i kind message now d))"
    "evolves t d (snd (cancel_queued t i now d))"
    "evolves t d (snd (request_cancel_running t i now d))"
    "evolves t d (snd (finish_cancelled t i now d))"
    "evolves t d (snd (expire_generation t i now d))"
    "evolves t d (snd (update_progress t i j clk d))"
  unfolding gen_change_defs
  by (rule evolves_update_generation [OF assms];
      auto simp: gkey_def gen_step_def intro!: r_into_rtranclp)+

lemma gen_changes_frame [simp]:
  "db_attempts (snd (update_generation P f d)) = db_attempts d"
  "db_artifacts (snd (update_generation P f d)) = db_artifacts d"
  "db_pools (snd (update_generation P f d)) = db_pools d"
  "db_workers (snd (update_generation P f d)) = db_workers d"
  by (simp_all add: update_generation_def)

lemma no_live_frame: "db_attempts d' = db_attempts d \<Longrightarrow> no_live k d' = no_live k d"
  by (simp add: no_live_def)

text \<open>A guarded change succeeds exactly when the row is there in the guarded state.\<close>

lemma update_generation_True:
  assumes "store_inv d" "\<And>g. P g \<Longrightarrow> gkey g = (t, i)"
  shows "fst (update_generation P f d) \<longleftrightarrow> (\<exists>g. get_generation t i d = Some g \<and> P g)"
proof -
  have "distinct (map gkey (db_generations d))" using store_invD(1) [OF assms(1)] by (simp add: inv_keys_def)
  from gens.affected_one(1) [OF this assms(2)] show ?thesis
    by (simp add: update_generation_def get_generation_def)
qed

lemma update_generation_lookup:
  assumes "\<And>g. P g \<Longrightarrow> gkey (f g) = gkey g"
  shows "get_generation t i (snd (update_generation P f d)) =
         map_option (\<lambda>g. if P g then f g else g) (get_generation t i d)"
  using gens.lookup_update [of P f "(t, i)" d] assms
  by (simp add: update_generation_def get_generation_def)

section \<open>Lemmas on result acceptance\<close>

text \<open>The conditions under which an Attempt's result is accepted.\<close>

definition acceptable ::
  "TenantId \<Rightarrow> AttemptId \<Rightarrow> WorkerId \<Rightarrow> datetime \<Rightarrow> db \<Rightarrow> AttemptRow \<Rightarrow> GenerationRow \<Rightarrow> bool" where
  "acceptable t i worker now d a g \<longleftrightarrow>
     a \<in> set (db_attempts d) \<and> akey a = (t, i) \<and> a_worker a = worker \<and> is_live a \<and>
     now < a_lease_expires_at a \<and> g \<in> set (db_generations d) \<and> gkey g = agen a \<and>
     g_accepted_attempt g = None \<and>
     GenerationState_can_transition_to (g_state g) GenerationState.Succeeded"

lemma accept_result_rejects:
  "accept_result t i worker now clk d = (r, d') \<Longrightarrow> \<forall>gen. r \<noteq> Accepted gen \<Longrightarrow> d' = d"
  by (auto simp: accept_result_def Let_def split: option.splits if_splits)

lemma accept_result_Accepted:
  assumes "accept_result t i worker now clk d = (Accepted gen, d')"
  obtains a g where "acceptable t i worker now d a g" "gen = a_generation a" "g_id g = gen"
    "d' = d\<lparr>db_attempts := update_where (\<lambda>b. akey b = (t, i) \<and> a_worker b = worker)
             (\<lambda>b. b\<lparr>a_state := AttemptState.Succeeded, a_finished_at := Some now\<rparr>) (db_attempts d),
           db_pools := release_in (apool a) (sql_now clk) (db_pools d),
           db_generations := update_where (\<lambda>x. gkey x = agen a)
             (\<lambda>x. x\<lparr>g_state := GenerationState.Succeeded, g_accepted_attempt := Some i,
                    g_terminated_at := Some now, g_updated_at := now\<rparr>) (db_generations d)\<rparr>"
proof -
  obtain a where a: "find (\<lambda>a. akey a = (t, i) \<and> a_worker a = worker) (db_attempts d) = Some a"
    using assms by (auto simp: accept_result_def split: option.splits)
  obtain g where g: "find (\<lambda>g. gkey g = (t, a_generation a)) (db_generations d) = Some g"
    using assms a by (auto simp: accept_result_def split: option.splits)
  have a': "a \<in> set (db_attempts d)" "akey a = (t, i)" "a_worker a = worker"
    using a by (auto simp: find_Some_iff)
  then have at: "a_tenant a = t" "agen a = (t, a_generation a)" "apool a = (t, a_pool a)"
    by (simp_all add: key_defs)
  have g': "g \<in> set (db_generations d)" "gkey g = (t, a_generation a)"
    using g by (auto simp: find_Some_iff)
  show thesis
  proof (rule that [of a g])
    show "acceptable t i worker now d a g" "gen = a_generation a" "g_id g = gen"
      using assms a g a' g' at
      by (auto simp: accept_result_def acceptable_def Let_def gkey_def split: if_splits)
    show "d' = d\<lparr>db_attempts := update_where (\<lambda>b. akey b = (t, i) \<and> a_worker b = worker)
             (\<lambda>b. b\<lparr>a_state := AttemptState.Succeeded, a_finished_at := Some now\<rparr>) (db_attempts d),
           db_pools := release_in (apool a) (sql_now clk) (db_pools d),
           db_generations := update_where (\<lambda>x. gkey x = agen a)
             (\<lambda>x. x\<lparr>g_state := GenerationState.Succeeded, g_accepted_attempt := Some i,
                    g_terminated_at := Some now, g_updated_at := now\<rparr>) (db_generations d)\<rparr>"
      using assms a g at
      by (auto simp: accept_result_def Let_def release_slot_eq split: if_splits)
  qed
qed

lemma inv_accept_result:
  assumes inv: "store_inv d" and r: "accept_result t i worker now clk d = (r, d')"
  shows "store_inv d'"
proof (cases "\<exists>gen. r = Accepted gen")
  case False
  then show ?thesis using accept_result_rejects [OF r] inv by blast
next
  case True
  then obtain gen where "accept_result t i worker now clk d = (Accepted gen, d')" using r by blast
  then show ?thesis
  proof (rule accept_result_Accepted)
    fix a g
    assume ok: "acceptable t i worker now d a g"
      and d': "d' = d\<lparr>db_attempts := update_where (\<lambda>b. akey b = (t, i) \<and> a_worker b = worker)
             (\<lambda>b. b\<lparr>a_state := AttemptState.Succeeded, a_finished_at := Some now\<rparr>) (db_attempts d),
           db_pools := release_in (apool a) (sql_now clk) (db_pools d),
           db_generations := update_where (\<lambda>x. gkey x = agen a)
             (\<lambda>x. x\<lparr>g_state := GenerationState.Succeeded, g_accepted_attempt := Some i,
                    g_terminated_at := Some now, g_updated_at := now\<rparr>) (db_generations d)\<rparr>"
    have a: "a \<in> set (db_attempts d)" "is_live a" "akey a = (t, i)" "a_worker a = worker"
      using ok by (simp_all add: acceptable_def)
    have dist: "distinct (map akey (db_attempts d))" using store_invD(1) [OF inv] by (simp add: inv_keys_def)
    show ?thesis
      unfolding d'
    proof (rule inv_accept [OF inv a(1,2)])
      show "(akey b = (t, i) \<and> a_worker b = worker) = (akey b = akey a)" if "b \<in> set (db_attempts d)" for b
        using atts.key_unique [OF dist that a(1)] a(3,4) by auto
    qed (use a(3) in \<open>simp_all add: key_defs\<close>)
  qed
qed

lemma evolves_accept_result:
  assumes inv: "store_inv d" and r: "accept_result t i worker now clk d = (r, d')"
  shows "evolves t d d'"
proof (cases "\<exists>gen. r = Accepted gen")
  case False
  then show ?thesis
    using accept_result_rejects [OF r] evolves_inv_refl [OF store_invD(1) [OF inv]] by blast
next
  case True
  then obtain gen where "accept_result t i worker now clk d = (Accepted gen, d')" using r by blast
  then show ?thesis
  proof (rule accept_result_Accepted)
    fix a g
    let ?d1 = "d\<lparr>db_attempts := update_where (\<lambda>b. akey b = (t, i) \<and> a_worker b = worker)
             (\<lambda>b. b\<lparr>a_state := AttemptState.Succeeded, a_finished_at := Some now\<rparr>) (db_attempts d)\<rparr>"
    let ?d2 = "?d1\<lparr>db_pools := release_in (apool a) (sql_now clk) (db_pools d)\<rparr>"
    assume ok: "acceptable t i worker now d a g"
      and d': "d' = ?d2\<lparr>db_generations := update_where (\<lambda>x. gkey x = agen a)
             (\<lambda>x. x\<lparr>g_state := GenerationState.Succeeded, g_accepted_attempt := Some i,
                    g_terminated_at := Some now, g_updated_at := now\<rparr>) (db_generations d)\<rparr>"
    have a: "a \<in> set (db_attempts d)" "is_live a" "akey a = (t, i)" using ok by (simp_all add: acceptable_def)
    have keys: "inv_keys d" using store_invD(1) [OF inv] .
    have uniq: "b = a" if "b \<in> set (db_attempts d)" "akey b = (t, i)" for b
      using atts.key_unique [OF _ that(1) a(1)] keys a(3) that(2) by (simp add: inv_keys_def)
    have akeys: "map akey (db_attempts ?d1) = map akey (db_attempts d)"
      by (simp add: map_update_where akey_def)
    have e1: "evolves t d ?d1"
    proof (rule evolves_attempts [OF keys])
      fix b assume b: "akey b = (t, i) \<and> a_worker b = worker" "b \<in> set (db_attempts d)"
      then have "is_live b" using uniq a(2) by blast
      then have "AttemptState_can_transition_to (a_state b) AttemptState.Succeeded"
        by (cases "a_state b") (simp_all add: AttemptState_is_live_def)
      then show "att_step b (b\<lparr>a_state := AttemptState.Succeeded, a_finished_at := Some now\<rparr>) \<and>
          akey (b\<lparr>a_state := AttemptState.Succeeded, a_finished_at := Some now\<rparr>) = akey b"
        by (simp add: att_step_def key_defs)
    qed (simp_all add: akey_def)
    have k1: "inv_keys ?d1" using keys akeys by (simp add: inv_keys_def)
    have "filter (\<lambda>r. p_tenant r \<noteq> t) (release_in (apool a) (sql_now clk) (db_pools d)) =
        filter (\<lambda>r. p_tenant r \<noteq> t) (db_pools d)"
      unfolding release_in_def using a(3) by (intro filter_update_where) (simp add: key_defs)
    then have e2: "evolves t ?d1 ?d2" by (intro evolves_same [OF k1]) (simp_all add: others_def)
    have k2: "inv_keys ?d2" using k1 by (simp add: inv_keys_def)
    have "evolves t ?d2 (?d2\<lparr>db_generations := update_where (\<lambda>x. gkey x = agen a)
             (\<lambda>x. x\<lparr>g_state := GenerationState.Succeeded, g_accepted_attempt := Some i,
                    g_terminated_at := Some now, g_updated_at := now\<rparr>) (db_generations ?d2)\<rparr>)"
    proof (rule evolves_generations [OF k2])
      fix x assume x: "gkey x = agen a" "x \<in> set (db_generations ?d2)"
      have "x = g"
        using gens.key_unique [of d x g] keys ok x by (simp add: inv_keys_def acceptable_def)
      then show "gen_step x (x\<lparr>g_state := GenerationState.Succeeded, g_accepted_attempt := Some i,
                    g_terminated_at := Some now, g_updated_at := now\<rparr>)"
        using ok by (auto simp: gen_step_def acceptable_def gkey_def)
    qed (use a(3) in \<open>simp add: key_defs\<close>)
    then have e3: "evolves t ?d2 d'" by (simp add: d')
    have "evolves t d ?d2" by (rule evolves_trans [OF e1 e2]) simp_all
    then show ?thesis by (rule evolves_trans [OF _ e3]) (simp_all add: d')
  qed
qed

lemma acceptable_accepted:
  assumes inv: "store_inv d" and ok: "acceptable t i worker now d a g"
  shows "fst (accept_result t i worker now clk d) = Accepted (a_generation a)"
proof -
  have a: "a \<in> set (db_attempts d)" "akey a = (t, i)" "a_worker a = worker" "is_live a"
    "now < a_lease_expires_at a" and g: "g \<in> set (db_generations d)" "gkey g = agen a"
    "g_accepted_attempt g = None" "GenerationState_can_transition_to (g_state g) GenerationState.Succeeded"
    using ok by (simp_all add: acceptable_def)
  have keys: "distinct (map akey (db_attempts d))" "distinct (map gkey (db_generations d))"
    using store_invD(1) [OF inv] by (simp_all add: inv_keys_def)
  obtain b where b: "find (\<lambda>a. akey a = (t, i) \<and> a_worker a = worker) (db_attempts d) = Some b"
    using a(1-3) by (cases "find (\<lambda>a. akey a = (t, i) \<and> a_worker a = worker) (db_attempts d)")
      (auto simp: find_None_iff)
  then have "b \<in> set (db_attempts d)" "akey b = (t, i)" by (auto simp: find_Some_iff)
  then have "b = a" using atts.key_unique [OF keys(1) _ a(1)] a(2) by simp
  moreover have "agen a = (t, a_generation a)" using a(2) by (simp add: key_defs)
  then have "find (\<lambda>g. gkey g = (t, a_generation a)) (db_generations d) = Some g"
    using gens.lookup_Some_iff [OF keys(2), of "(t, a_generation a)" g] g(1,2) by simp
  moreover have "a_state a \<noteq> AttemptState.Succeeded" using a(4) by (rule live_not_succeeded)
  ultimately show ?thesis using a g b by (simp add: accept_result_def Let_def)
qed

section \<open>Properties\<close>

text \<open>C28: A result is accepted exactly when it comes from the Worker that owns a live Attempt
  whose lease has not lapsed, and the Generation has no accepted result yet and can still
  succeed. An acceptance makes that Attempt the Generation's one result and keeps the store
  invariant, which includes the release of the Attempt's Slot; every other Generation is
  untouched. Any other outcome, a replay included, changes nothing.\<close>
theorem result_acceptance_exact:
  assumes "store_inv d" "accept_result t i worker now clk d = (r, d')"
  shows "((\<exists>gen. r = Accepted gen) \<longleftrightarrow> (\<exists>a g. acceptable t i worker now d a g)) \<and>
    ((\<forall>gen. r \<noteq> Accepted gen) \<longrightarrow> d' = d) \<and>
    (\<forall>gen. r = Accepted gen \<longrightarrow> store_inv d' \<and>
      (\<exists>g. get_generation t gen d' = Some g \<and> g_state g = GenerationState.Succeeded \<and>
           g_accepted_attempt g = Some i) \<and>
      (\<forall>t' j. (t', j) \<noteq> (t, gen) \<longrightarrow> get_generation t' j d' = get_generation t' j d))"
proof (intro conjI allI impI)
  show "(\<exists>gen. r = Accepted gen) \<longleftrightarrow> (\<exists>a g. acceptable t i worker now d a g)"
    using acceptable_accepted [OF assms(1), of t i worker now _ _ clk] assms(2)
      accept_result_Accepted [of t i worker now clk d _ d'] by (metis fst_conv)
  show "d' = d" if "\<forall>gen. r \<noteq> Accepted gen" using accept_result_rejects [OF assms(2) that] .
  fix gen assume r: "r = Accepted gen"
  show "store_inv d'" by (rule inv_accept_result [OF assms])
  have acc: "accept_result t i worker now clk d = (Accepted gen, d')" using assms(2) r by simp
  obtain a g where ag: "acceptable t i worker now d a g" "gen = a_generation a"
    "db_generations d' = update_where (\<lambda>x. gkey x = agen a)
             (\<lambda>x. x\<lparr>g_state := GenerationState.Succeeded, g_accepted_attempt := Some i,
                    g_terminated_at := Some now, g_updated_at := now\<rparr>) (db_generations d)"
    using acc by (elim accept_result_Accepted) simp
  have agen: "agen a = (t, gen)" using ag(1,2) by (simp add: acceptable_def key_defs)
  have look: "get_generation t' j d' = map_option (\<lambda>x. if gkey x = (t, gen) then
      x\<lparr>g_state := GenerationState.Succeeded, g_accepted_attempt := Some i,
        g_terminated_at := Some now, g_updated_at := now\<rparr> else x) (get_generation t' j d)" for t' j
    using gens.lookup_update [of "\<lambda>x. gkey x = (t, gen)" "\<lambda>x. x\<lparr>g_state := GenerationState.Succeeded,
      g_accepted_attempt := Some i, g_terminated_at := Some now, g_updated_at := now\<rparr>" "(t', j)" d]
    by (simp add: get_generation_def ag(3) agen gkey_def)
  have "get_generation t gen d = Some g"
    using gens.lookup_Some_iff [of d "(t, gen)" g] store_invD(1) [OF assms(1)] ag(1) agen
    by (simp add: get_generation_def inv_keys_def acceptable_def)
  then show "\<exists>g. get_generation t gen d' = Some g \<and> g_state g = GenerationState.Succeeded \<and>
           g_accepted_attempt g = Some i"
    using ag(1) agen by (simp add: look acceptable_def)
  fix t' j assume ne: "(t', j) \<noteq> (t, gen)"
  have "x \<noteq> g'" if "get_generation t' j d = Some x" "gkey g' = (t, gen)" for x g'
    using that ne by (auto simp: get_generation_def find_Some_iff)
  then show "get_generation t' j d' = get_generation t' j d"
    unfolding look by (cases "get_generation t' j d") auto
qed

theorem result_acceptance_exact_witness:
  "g_accepted_attempt (the (get_generation 7 10 (snd (accept_result 7 20 1 50 example_clocks example_db)))) = Some 20"
proof -
  have r: "accept_result 7 20 1 50 example_clocks example_db =
      (Accepted 10, snd (accept_result 7 20 1 50 example_clocks example_db))"
    by (simp add: accept_result_def example_defs key_defs AttemptState_is_live_def Let_def)
  show ?thesis using result_acceptance_exact [OF example_inv(1) r] by auto
qed

text \<open>C36: Listing pages through a Tenant's Generations without gaps or repeats: the first page
  is a prefix of the newest-first listing, and asking again after the last row of a page that
  ends at position \<^verbatim>\<open>m\<close> returns the rows from position \<^verbatim>\<open>m\<close> on.\<close>
theorem listing_pages_exact:
  fixes d :: db and t :: TenantId and s :: "GenerationState option"
  defines "L \<equiv> rev (sort_key g_id (filter (\<lambda>g. g_tenant g = t \<and>
                 (case s of None \<Rightarrow> True | Some x \<Rightarrow> g_state g = x)) (db_generations d)))"
  assumes "store_inv d" "0 < m" "m \<le> length L"
  shows "list_generations t n None s d = take (unat n) L \<and>
    list_generations t n (Some (g_id (L ! (m - 1)))) s d = take (unat n) (drop m L)"
proof -
  let ?F = "filter (\<lambda>g. g_tenant g = t \<and> (case s of None \<Rightarrow> True | Some x \<Rightarrow> g_state g = x)) (db_generations d)"
  have "distinct (map gkey (db_generations d))" using store_invD(1) [OF assms(2)] by (simp add: inv_keys_def)
  then have "distinct (map g_id ?F)" by (auto simp: distinct_map gkey_def inj_on_def)
  then have strict: "sorted_wrt (\<lambda>x y. g_id y < g_id x) L"
    unfolding L_def by (rule sorted_wrt_rev_sort_key)
  have "list_generations t n (Some c) s d = take (unat n) (filter (\<lambda>g. g_id g < c) L)" for c
  proof -
    have "filter (\<lambda>g. g_tenant g = t \<and> g_id g < c \<and> (case s of None \<Rightarrow> True | Some x \<Rightarrow> g_state g = x))
        (db_generations d) = filter (\<lambda>g. g_id g < c) ?F"
      by (simp add: conj_commute conj_left_commute)
    then show ?thesis by (simp add: list_generations_def L_def filter_sort flip: rev_filter)
  qed
  then show ?thesis
    using filter_after [OF strict assms(3,4)] by (simp add: list_generations_def L_def)
qed

theorem listing_pages_exact_witness:
  "list_generations 7 5 (Some 10) None example_db = []"
  using listing_pages_exact [OF example_inv(1), of 1 7 None 5]
  by (simp add: example_defs)

end
