(* ===== verification/Db_Attempts.thy ===== *)
theory Db_Attempts
  imports Db_Generations
begin

text \<open>
  Attempts, \<^verbatim>\<open>gpq-remote/src/db/attempts.rs\<close>, and the Pools excluded for a Generation,
  \<^verbatim>\<open>native_exclusions.rs\<close>: leasing, heartbeats, the start of execution, every way an Attempt
  settles (failure, lease expiry, rejection of the lease, acknowledged cancellation) with the
  retry policy applied to its Generation, and the selections of the sweeps.
\<close>

section \<open>Excluded Pools\<close>

definition record_preexecution_rejection ::
  "TenantId \<Rightarrow> GenerationId \<Rightarrow> DevicePoolId \<Rightarrow> db \<Rightarrow> bool tx" where
  "record_preexecution_rejection t gen pool d =
     (if \<exists>r \<in> set (db_rejections d). r_tenant r = t \<and> r_generation r = gen \<and> r_pool r = pool
      then Ok (False, d)
      else if \<not> (\<exists>g \<in> set (db_generations d). gkey g = (t, gen))
      then Err (ForeignKeyViolation ''generation_pool_rejections.generation_id'')
      else if \<not> (\<exists>p \<in> set (db_pools d). pkey p = (t, pool))
      then Err (ForeignKeyViolation ''generation_pool_rejections.pool_id'')
      else Ok (True, d\<lparr>db_rejections := db_rejections d @
                        [\<lparr>r_tenant = t, r_generation = gen, r_pool = pool\<rparr>]\<rparr>))"

definition excluded_pools :: "TenantId \<Rightarrow> GenerationId \<Rightarrow> db \<Rightarrow> DevicePoolId list" where
  "excluded_pools t gen d =
     map a_pool (filter (\<lambda>a. agen a = (t, gen) \<and> a_failure_kind a = Some FailureKind.OutOfMemory)
                   (db_attempts d)) @
     map r_pool (filter (\<lambda>r. r_tenant r = t \<and> r_generation r = gen) (db_rejections d))"

definition excluded_pools_for_generations ::
  "TenantId \<Rightarrow> GenerationId list \<Rightarrow> db \<Rightarrow> GenerationId \<Rightarrow> DevicePoolId list" where
  "excluded_pools_for_generations t gens d gen =
     (if gen \<in> set gens then excluded_pools t gen d else [])"

section \<open>Leasing\<close>

datatype CreateAttemptError =
    NotQueued
  | MaxAttemptsReached (max_attempts: u32)
  | CreateDatabase sql_error

definition insert_attempt :: "AttemptRow \<Rightarrow> db \<Rightarrow> sql_error + db" where
  "insert_attempt row d =
     (if \<exists>a \<in> set (db_attempts d). akey a = akey row then Err (UniqueViolation ''attempts_pkey'')
      else if \<exists>a \<in> set (db_attempts d). agen a = agen row \<and> a_attempt_number a = a_attempt_number row
      then Err (UniqueViolation ''attempts.attempt_number'')
      else if \<not> (1 \<le> a_attempt_number row \<and> a_attempt_number row \<le> 3)
      then Err (CheckViolation ''attempts.attempt_number'')
      else if \<not> (\<exists>w \<in> set (db_workers d). wkey w = aworker row)
      then Err (ForeignKeyViolation ''attempts.worker_id'')
      else if \<not> (\<exists>p \<in> set (db_pools d). pkey p = apool row)
      then Err (ForeignKeyViolation ''attempts.pool_id'')
      else Ok (d\<lparr>db_attempts := db_attempts d @ [row]\<rparr>))"

definition create_attempt ::
  "TenantId \<Rightarrow> GenerationId \<Rightarrow> WorkerId \<Rightarrow> DevicePoolId \<Rightarrow> string \<Rightarrow> datetime \<Rightarrow> AttemptId \<Rightarrow> clocks \<Rightarrow>
   db \<Rightarrow> CreateAttemptError + AttemptRow \<times> db" where
  "create_attempt t gen worker pool slot_key lease_expiry new_id clk d =
     (case find (\<lambda>g. gkey g = (t, gen)) (db_generations d) of
        None \<Rightarrow> Err NotQueued
      | Some g \<Rightarrow>
          if g_state g \<noteq> GenerationState.Queued then Err NotQueued
          else if pool \<in> set (excluded_pools t gen d) then Err NotQueued
          else
            let attempt_number = g_attempt_count g + 1 in
            if attempt_number > uint MAX_ATTEMPTS then Err (MaxAttemptsReached MAX_ATTEMPTS)
            else
              let row = \<lparr>a_tenant = t, a_id = new_id, a_generation = gen,
                         a_attempt_number = attempt_number, a_state = AttemptState.Leased,
                         a_worker = worker, a_pool = pool, a_slot_key = slot_key,
                         a_lease_expires_at = lease_expiry, a_execution_deadline = None,
                         a_created_at = sql_now clk, a_started_at = None, a_finished_at = None,
                         a_last_heartbeat_at = None, a_failure_kind = None, a_failure_message = [],
                         a_worker_retry_hint = False, a_cancel_requested_at = None\<rparr>
              in rbind (map_err CreateDatabase (insert_attempt row d)) (\<lambda>d1.
                Ok (row, d1\<lparr>db_generations := update_where (\<lambda>g. gkey g = (t, gen))
                   (\<lambda>g. g\<lparr>g_attempt_count := attempt_number\<rparr>) (db_generations d1)\<rparr>)))"

section \<open>Execution\<close>

definition heartbeat ::
  "TenantId \<Rightarrow> WorkerId \<Rightarrow> AttemptId list \<Rightarrow> datetime \<Rightarrow> clocks \<Rightarrow> db \<Rightarrow> AttemptId list \<times> db" where
  "heartbeat t worker attempt_ids now clk d =
     (if attempt_ids = [] then ([], d)
      else
        let expiry = lease_expiry_from now;
            renewable = (\<lambda>a. a_tenant a = t \<and> a_worker a = worker \<and> a_id a \<in> set attempt_ids \<and>
                             is_live a \<and> a_lease_expires_at a > sql_clock clk);
            renewed = map a_id (filter renewable (db_attempts d))
        in (filter (\<lambda>i. i \<notin> set renewed) attempt_ids,
            d\<lparr>db_attempts := update_where renewable
               (\<lambda>a. a\<lparr>a_lease_expires_at := sql_clock clk + (expiry - now),
                      a_last_heartbeat_at := Some (sql_clock clk)\<rparr>) (db_attempts d)\<rparr>))"

definition generation_id_of ::
  "TenantId \<Rightarrow> AttemptId \<Rightarrow> WorkerId \<Rightarrow> datetime \<Rightarrow> db \<Rightarrow> GenerationId option" where
  "generation_id_of t i worker now d =
     map_option a_generation
       (find (\<lambda>a. akey a = (t, i) \<and> a_worker a = worker \<and> is_live a \<and> a_lease_expires_at a > now)
         (db_attempts d))"

definition mark_running_attempt ::
  "TenantId \<Rightarrow> AttemptId \<Rightarrow> WorkerId \<Rightarrow> datetime \<Rightarrow> db \<Rightarrow> bool \<times> db" where
  "mark_running_attempt t i worker now d =
     (let startable = (\<lambda>a. akey a = (t, i) \<and> a_worker a = worker \<and> a_state a = AttemptState.Leased \<and>
                           a_lease_expires_at a > now \<and>
                           (\<exists>g \<in> set (db_generations d). gkey g = agen a));
          timeout = (\<lambda>a. case find (\<lambda>g. gkey g = agen a) (db_generations d) of
                           Some g \<Rightarrow> g_execution_timeout g | None \<Rightarrow> 0)
      in (rows_affected startable (db_attempts d) = 1,
          d\<lparr>db_attempts := update_where startable
             (\<lambda>a. a\<lparr>a_state := AttemptState.Running, a_started_at := Some now,
                    a_execution_deadline := Some (now + int (timeout a))\<rparr>) (db_attempts d)\<rparr>))"

section \<open>Settlement\<close>

definition owned_live :: "TenantId \<Rightarrow> AttemptId \<Rightarrow> WorkerId option \<Rightarrow> AttemptRow \<Rightarrow> bool" where
  "owned_live t i worker a \<longleftrightarrow>
     akey a = (t, i) \<and> is_live a \<and> (case worker of None \<Rightarrow> True | Some w \<Rightarrow> a_worker a = w)"

record FailureDetails =
  fd_kind :: FailureKind
  fd_message :: string
  fd_worker_retry_hint :: bool

definition finish ::
  "TenantId \<Rightarrow> AttemptId \<Rightarrow> WorkerId option \<Rightarrow> AttemptState \<Rightarrow> FailureDetails option \<Rightarrow> datetime \<Rightarrow>
   clocks \<Rightarrow> db \<Rightarrow> bool \<times> db" where
  "finish t i worker to failure now clk d =
     (if \<not> AttemptState_is_terminal to then (False, d)
      else case find (owned_live t i worker) (db_attempts d) of
        None \<Rightarrow> (False, d)
      | Some settled \<Rightarrow>
          let d1 = d\<lparr>db_attempts := update_where (owned_live t i worker)
                (\<lambda>a. a\<lparr>a_state := to, a_finished_at := Some now,
                       a_failure_kind := map_option fd_kind failure,
                       a_failure_message := (case failure of Some f \<Rightarrow> fd_message f | None \<Rightarrow> []),
                       a_worker_retry_hint := (case failure of Some f \<Rightarrow> fd_worker_retry_hint f | None \<Rightarrow> False)\<rparr>)
                (db_attempts d)\<rparr>
          in (True, release_slot t (a_pool settled) clk d1))"

text \<open>Whether a registered Pool outside the excluded ones could still run the Generation.\<close>

definition candidate_remains ::
  "env \<Rightarrow> TenantId \<Rightarrow> GenerationId \<Rightarrow> (SlotCapability \<times> u32 \<times> WorkerId \<times> string) list \<Rightarrow> db \<Rightarrow> bool" where
  "candidate_remains E t gen capabilities d =
     (case requirement_of E t gen d of
        None \<Rightarrow> False
      | Some requirement \<Rightarrow>
          any_candidate_remains
            (filter (\<lambda>c. sc_pool_id c \<notin> set (excluded_pools t gen d)) (map fst capabilities)) requirement)"

definition finish_and_decide ::
  "env \<Rightarrow> TenantId \<Rightarrow> AttemptId \<Rightarrow> WorkerId option \<Rightarrow> AttemptState \<Rightarrow> FailureDetails \<Rightarrow> datetime \<Rightarrow>
   clocks \<Rightarrow> db \<Rightarrow> (GenerationId \<times> RetryDecision) option tx" where
  "finish_and_decide E t i worker to failure now clk d =
     (case find (owned_live t i worker) (db_attempts d) of
        None \<Rightarrow> Ok (None, d)
      | Some lock \<Rightarrow>
          let gen = a_generation lock;
              (settled, d1) = finish t i worker to (Some failure) now clk d
          in if \<not> settled then Ok (None, d1)
             else case get_generation t gen d1 of
               None \<Rightarrow> Err RowNotFound
             | Some g \<Rightarrow>
                 if g_state g = GenerationState.Cancelling
                 then Ok (Some (gen, Fail), snd (finish_cancelled t gen now d1))
                 else
                   rbind (pool_capabilities E t d1) (\<lambda>capabilities.
                     let remain = candidate_remains E t gen capabilities d1;
                         used = (if 0 \<le> g_attempt_count g \<and> g_attempt_count g < 2 ^ 32
                                 then of_int (g_attempt_count g) else - 1);
                         decision = retry_decision (fd_kind failure) used remain
                     in case decision of
                          Requeue \<Rightarrow> Ok (Some (gen, decision), snd (requeue t gen now d1))
                        | Fail \<Rightarrow> Ok (Some (gen, decision),
                            snd (fail_generation t gen (fd_kind failure) (fd_message failure) now d1))))"

definition record_failure ::
  "env \<Rightarrow> TenantId \<Rightarrow> AttemptId \<Rightarrow> FailureDetails \<Rightarrow> datetime \<Rightarrow> clocks \<Rightarrow> db \<Rightarrow>
   (GenerationId \<times> RetryDecision) option tx" where
  "record_failure E t i failure now clk d =
     finish_and_decide E t i None AttemptState.Failed failure now clk d"

definition record_failure_for_worker ::
  "env \<Rightarrow> TenantId \<Rightarrow> AttemptId \<Rightarrow> WorkerId \<Rightarrow> FailureDetails \<Rightarrow> datetime \<Rightarrow> clocks \<Rightarrow> db \<Rightarrow>
   (GenerationId \<times> RetryDecision) option tx" where
  "record_failure_for_worker E t i worker failure now clk d =
     finish_and_decide E t i (Some worker) AttemptState.Failed failure now clk d"

definition record_lease_expiry ::
  "env \<Rightarrow> TenantId \<Rightarrow> AttemptId \<Rightarrow> datetime \<Rightarrow> clocks \<Rightarrow> db \<Rightarrow> (GenerationId \<times> RetryDecision) option tx" where
  "record_lease_expiry E t i now clk d =
     finish_and_decide E t i None AttemptState.LeaseExpired
       \<lparr>fd_kind = FailureKind.LeaseExpired,
        fd_message = ''lease expired without a renewing heartbeat'', fd_worker_retry_hint = False\<rparr>
       now clk d"

definition delete_attempt :: "(AttemptRow \<Rightarrow> bool) \<Rightarrow> db \<Rightarrow> sql_error + db" where
  "delete_attempt P d =
     (if \<exists>g \<in> set (db_generations d). \<exists>a \<in> set (db_attempts d).
           P a \<and> a_tenant a = g_tenant g \<and> g_accepted_attempt g = Some (a_id a)
      then Err (NotNullViolation ''generations.tenant_id'')
      else if \<exists>f \<in> set (db_artifacts d). \<exists>a \<in> set (db_attempts d).
           P a \<and> a_tenant a = f_tenant f \<and> f_attempt f = Some (a_id a)
      then Err (NotNullViolation ''artifacts.tenant_id'')
      else Ok (d\<lparr>db_attempts := delete_where P (db_attempts d)\<rparr>))"

definition reject_lease ::
  "TenantId \<Rightarrow> AttemptId \<Rightarrow> WorkerId \<Rightarrow> datetime \<Rightarrow> clocks \<Rightarrow> db \<Rightarrow> GenerationId option tx" where
  "reject_lease t i worker now clk d =
     (case find (\<lambda>a. akey a = (t, i) \<and> a_worker a = worker \<and> a_state a = AttemptState.Leased)
             (db_attempts d) of
        None \<Rightarrow> Ok (None, d)
      | Some lease \<Rightarrow>
          if a_lease_expires_at lease \<le> now then Ok (None, d)
          else
            let gen = a_generation lease in
            if map_option g_state (get_generation t gen d) \<noteq> Some GenerationState.Running then Ok (None, d)
            else
              rbind (record_preexecution_rejection t gen (a_pool lease) d) (\<lambda>(_, d1).
              rbind (delete_attempt (\<lambda>a. akey a = (t, i) \<and> a_worker a = worker \<and>
                                         a_state a = AttemptState.Leased) d1) (\<lambda>d2.
                let d3 = release_slot t (a_pool lease) clk d2
                in Ok (Some gen,
                       d3\<lparr>db_generations := update_where
                            (\<lambda>g. gkey g = (t, gen) \<and> g_state g = GenerationState.Running)
                            (\<lambda>g. g\<lparr>g_state := GenerationState.Queued,
                                   g_attempt_count := max (g_attempt_count g - 1) 0,
                                   g_updated_at := now\<rparr>) (db_generations d3)\<rparr>))))"

definition acknowledge_cancel ::
  "TenantId \<Rightarrow> AttemptId \<Rightarrow> WorkerId \<Rightarrow> datetime \<Rightarrow> clocks \<Rightarrow> db \<Rightarrow> GenerationId option \<times> db" where
  "acknowledge_cancel t i worker now clk d =
     (case find (\<lambda>a. akey a = (t, i) \<and> a_worker a = worker) (db_attempts d) of
        None \<Rightarrow> (None, d)
      | Some lock \<Rightarrow>
          let gen = a_generation lock in
          if map_option g_state (get_generation t gen d) \<noteq> Some GenerationState.Cancelling then (None, d)
          else
            let d1 = (if is_live lock
                      then release_slot t (a_pool lock) clk
                        (d\<lparr>db_attempts := update_where
                             (\<lambda>a. akey a = (t, i) \<and> a_worker a = worker \<and> is_live a)
                             (\<lambda>a. a\<lparr>a_state := AttemptState.Cancelled, a_finished_at := Some now,
                                    a_failure_kind := None, a_failure_message := [],
                                    a_worker_retry_hint := False\<rparr>) (db_attempts d)\<rparr>)
                      else d);
                (settled, d2) = finish_cancelled t gen now d1
            in (if settled then Some gen else None, d2))"

section \<open>Selections of the sweeps\<close>

definition expired_leases :: "TenantId \<Rightarrow> datetime \<Rightarrow> nat \<Rightarrow> db \<Rightarrow> AttemptRow list" where
  "expired_leases t now limit d =
     take limit (sort_key a_lease_expires_at
       (filter (\<lambda>a. a_tenant a = t \<and> is_live a \<and> a_lease_expires_at a \<le> now) (db_attempts d)))"

definition overdue_executions :: "TenantId \<Rightarrow> datetime \<Rightarrow> nat \<Rightarrow> db \<Rightarrow> AttemptRow list" where
  "overdue_executions t now limit d =
     take limit (sort_key (\<lambda>a. the (a_execution_deadline a))
       (filter (\<lambda>a. a_tenant a = t \<and> is_live a \<and>
                    (case a_execution_deadline a of Some deadline \<Rightarrow> deadline \<le> now | None \<Rightarrow> False))
          (db_attempts d)))"

definition live_for_worker :: "TenantId \<Rightarrow> WorkerId \<Rightarrow> db \<Rightarrow> AttemptRow list" where
  "live_for_worker t worker d =
     filter (\<lambda>a. a_tenant a = t \<and> a_worker a = worker \<and> is_live a) (db_attempts d)"

definition live_for_cancelling_generations :: "TenantId \<Rightarrow> nat \<Rightarrow> db \<Rightarrow> AttemptRow list" where
  "live_for_cancelling_generations t limit d =
     take limit (sort_key a_created_at
       (filter (\<lambda>a. a_tenant a = t \<and> is_live a \<and>
                    (\<exists>g \<in> set (db_generations d). gkey g = agen a \<and> g_state g = GenerationState.Cancelling))
          (db_attempts d)))"

definition request_cancel :: "TenantId \<Rightarrow> AttemptId \<Rightarrow> datetime \<Rightarrow> db \<Rightarrow> bool \<times> db" where
  "request_cancel t i now d =
     (rows_affected (\<lambda>a. akey a = (t, i) \<and> is_live a \<and> a_cancel_requested_at a = None) (db_attempts d) = 1,
      d\<lparr>db_attempts := update_where (\<lambda>a. akey a = (t, i) \<and> is_live a \<and> a_cancel_requested_at a = None)
         (\<lambda>a. a\<lparr>a_cancel_requested_at := Some now\<rparr>) (db_attempts d)\<rparr>)"

section \<open>Lemmas on renewals\<close>

lemma live_simps [simp]:
  "AttemptState_is_live AttemptState.Leased" "AttemptState_is_live AttemptState.Running"
  "\<not> AttemptState_is_live AttemptState.Succeeded" "\<not> AttemptState_is_live AttemptState.Failed"
  "\<not> AttemptState_is_live AttemptState.Cancelled" "\<not> AttemptState_is_live AttemptState.LeaseExpired"
  by (simp_all add: AttemptState_is_live_def)

lemma live_to_terminal:
  "AttemptState_is_live s \<Longrightarrow> AttemptState_is_terminal s' \<Longrightarrow> AttemptState_can_transition_to s s'"
  by (cases s; cases s') (simp_all add: AttemptState_is_terminal_def)

lemma inv_renewals:
  assumes "store_inv d"
  shows "store_inv (snd (heartbeat t w ids now clk d))"
    "store_inv (snd (mark_running_attempt t i w now d))"
    "store_inv (snd (request_cancel t i now d))"
proof -
  show "store_inv (snd (heartbeat t w ids now clk d))"
    using assms by (auto simp: heartbeat_def Let_def same_attempt_def key_defs intro!: inv_update_attempts)
  show "store_inv (snd (mark_running_attempt t i w now d))"
    unfolding mark_running_attempt_def Let_def snd_conv
    by (rule inv_update_attempts [OF assms]) (auto simp: same_attempt_def key_defs)
  show "store_inv (snd (request_cancel t i now d))"
    unfolding request_cancel_def snd_conv
    by (rule inv_update_attempts [OF assms]) (auto simp: same_attempt_def key_defs)
qed

lemma evolves_renewals:
  assumes "inv_keys d"
  shows "evolves t d (snd (heartbeat t w ids now clk d))"
    "evolves t d (snd (mark_running_attempt t i w now d))"
    "evolves t d (snd (request_cancel t i now d))"
proof -
  show "evolves t d (snd (heartbeat t w ids now clk d))"
    using assms evolves_inv_refl [OF assms]
    by (auto simp: heartbeat_def Let_def att_step_def key_defs intro!: evolves_attempts)
  show "evolves t d (snd (mark_running_attempt t i w now d))"
    unfolding mark_running_attempt_def Let_def snd_conv
    by (rule evolves_attempts [OF assms]) (auto simp: att_step_def key_defs)
  show "evolves t d (snd (request_cancel t i now d))"
    unfolding request_cancel_def snd_conv
    by (rule evolves_attempts [OF assms]) (auto simp: att_step_def key_defs)
qed

section \<open>Lemmas on settlement\<close>

lemma owned_live_find:
  assumes inv: "store_inv d" and a: "find (owned_live t i w) (db_attempts d) = Some a"
  shows "a \<in> set (db_attempts d)" "is_live a" "akey a = (t, i)" "apool a = (t, a_pool a)"
    "agen a = (t, a_generation a)"
    and "b \<in> set (db_attempts d) \<Longrightarrow> owned_live t i w b \<longleftrightarrow> akey b = akey a"
proof -
  have o: "a \<in> set (db_attempts d)" "owned_live t i w a" using a by (auto simp: find_Some_iff)
  then show a': "a \<in> set (db_attempts d)" "is_live a" "akey a = (t, i)" "apool a = (t, a_pool a)"
    "agen a = (t, a_generation a)" by (auto simp: owned_live_def key_defs)
  have dist: "distinct (map akey (db_attempts d))" using store_invD(1) [OF inv] by (simp add: inv_keys_def)
  show "owned_live t i w b \<longleftrightarrow> akey b = akey a" if "b \<in> set (db_attempts d)"
    using atts.key_unique [OF dist that a'(1)] o(2) a'(3) by (auto simp: owned_live_def)
qed

lemma no_live_after:
  assumes inv: "store_inv d" and a: "a \<in> set (db_attempts d)" "is_live a"
    and bs: "\<And>b. b \<in> set bs \<Longrightarrow> is_live b \<Longrightarrow> b \<in> set (db_attempts d) \<and> b \<noteq> a"
  shows "no_live (agen a) (d\<lparr>db_attempts := bs, db_pools := ps\<rparr>)"
proof -
  have "\<not> is_live b" if b: "b \<in> set bs" "agen b = agen a" for b
    using bs [OF b(1)] inv_live_unique [OF inv _ a(1) _ a(2) b(2)] by blast
  then show ?thesis by (simp add: no_live_def)
qed

text \<open>Ending a live Attempt in place and releasing its slot.\<close>

lemma settle_in_place:
  assumes inv: "store_inv d" and a: "a \<in> set (db_attempts d)" "is_live a" "a_tenant a = t"
    and P: "\<And>b. b \<in> set (db_attempts d) \<Longrightarrow> P b \<longleftrightarrow> akey b = akey a"
    and PT: "\<And>b. P b \<Longrightarrow> a_tenant b = t"
    and f: "\<And>b. akey (f b) = akey b \<and> agen (f b) = agen b \<and> apool (f b) = apool b \<and>
      aworker (f b) = aworker b \<and> a_attempt_number (f b) = a_attempt_number b \<and> a_state (f b) = to"
    and to: "AttemptState_is_terminal to" "to \<noteq> AttemptState.Succeeded"
  shows "store_inv (release_slot t (a_pool a) clk (d\<lparr>db_attempts := update_where P f (db_attempts d)\<rparr>))"
    "no_live (agen a) (release_slot t (a_pool a) clk (d\<lparr>db_attempts := update_where P f (db_attempts d)\<rparr>))"
    "evolves t d (release_slot t (a_pool a) clk (d\<lparr>db_attempts := update_where P f (db_attempts d)\<rparr>))"
proof -
  let ?bs = "update_where P f (db_attempts d)"
  have ap: "apool a = (t, a_pool a)" using a(3) by (simp add: key_defs)
  have eq: "release_slot t (a_pool a) clk (d\<lparr>db_attempts := ?bs\<rparr>) =
      d\<lparr>db_attempts := ?bs, db_pools := release_in (apool a) (sql_now clk) (db_pools d)\<rparr>"
    by (simp add: release_slot_eq ap)
  have nl: "\<not> AttemptState_is_live to" using to(1) by (rule terminal_not_live)
  show "store_inv (release_slot t (a_pool a) clk (d\<lparr>db_attempts := ?bs\<rparr>))"
    unfolding eq by (rule inv_settle [OF inv a(1,2)]) (use P f nl to(2) in \<open>simp_all\<close>)
  have keys: "inv_keys d" using store_invD(1) [OF inv] .
  have only: "P b \<longleftrightarrow> b = a" if "b \<in> set (db_attempts d)" for b
    using P [OF that] atts.key_unique [OF _ that a(1)] keys by (auto simp: inv_keys_def)
  show "no_live (agen a) (release_slot t (a_pool a) clk (d\<lparr>db_attempts := ?bs\<rparr>))"
    unfolding eq
  proof (rule no_live_after [OF inv a(1,2)])
    fix b assume b: "b \<in> set ?bs" "is_live b"
    have "b = f a \<or> b \<in> set (db_attempts d) \<and> b \<noteq> a"
      using b(1) set_update_one [OF a(1) only, of f] by blast
    moreover have "b \<noteq> f a" using f [of a] nl b(2) by auto
    ultimately show "b \<in> set (db_attempts d) \<and> b \<noteq> a" by blast
  qed
  let ?d1 = "d\<lparr>db_attempts := ?bs\<rparr>"
  have akeys: "map akey ?bs = map akey (db_attempts d)" using f by (intro map_update_where) blast
  have e1: "evolves t d ?d1"
  proof (rule evolves_attempts [OF keys])
    fix b assume b: "P b" "b \<in> set (db_attempts d)"
    then have "is_live b" using only a(2) by blast
    then have "AttemptState_can_transition_to (a_state b) to" using live_to_terminal to(1) by blast
    then show "att_step b (f b) \<and> akey (f b) = akey b" using f [of b] by (simp add: att_step_def)
  next
    show "a_tenant (f b) = a_tenant b" for b using f [of b] by (simp add: akey_def)
  qed (use PT in blast)
  have k1: "inv_keys ?d1" using keys akeys by (simp add: inv_keys_def)
  have "filter (\<lambda>r. p_tenant r \<noteq> t) (release_in (apool a) (sql_now clk) (db_pools d)) =
      filter (\<lambda>r. p_tenant r \<noteq> t) (db_pools d)"
    unfolding release_in_def ap by (intro filter_update_where) (simp add: key_defs)
  then have e2: "evolves t ?d1 (release_slot t (a_pool a) clk ?d1)"
    unfolding eq by (intro evolves_same [OF k1]) (simp_all add: others_def)
  show "evolves t d (release_slot t (a_pool a) clk ?d1)"
    by (rule evolves_trans [OF e1 e2]) (simp_all add: release_slot_def)
qed

lemma finish_settles:
  assumes inv: "store_inv d" and to: "AttemptState_is_terminal to" "to \<noteq> AttemptState.Succeeded"
    and a: "find (owned_live t i w) (db_attempts d) = Some a"
  shows "fst (finish t i w to failure now clk d)"
    and "store_inv (snd (finish t i w to failure now clk d))"
    and "no_live (agen a) (snd (finish t i w to failure now clk d))"
    and "evolves t d (snd (finish t i w to failure now clk d))"
    and "db_generations (snd (finish t i w to failure now clk d)) = db_generations d"
    and "db_artifacts (snd (finish t i w to failure now clk d)) = db_artifacts d"
    and "\<exists>b \<in> set (db_attempts (snd (finish t i w to failure now clk d))).
      akey b = (t, i) \<and> agen b = agen a \<and> apool b = apool a \<and> a_state b = to \<and>
      a_failure_kind b = map_option fd_kind failure"
proof -
  note fa = owned_live_find [OF inv a]
  let ?f = "\<lambda>a. a\<lparr>a_state := to, a_finished_at := Some now,
                       a_failure_kind := map_option fd_kind failure,
                       a_failure_message := (case failure of Some f \<Rightarrow> fd_message f | None \<Rightarrow> []),
                       a_worker_retry_hint := (case failure of Some f \<Rightarrow> fd_worker_retry_hint f | None \<Rightarrow> False)\<rparr>"
  have eq: "finish t i w to failure now clk d = (True, release_slot t (a_pool a) clk
      (d\<lparr>db_attempts := update_where (owned_live t i w) ?f (db_attempts d)\<rparr>))"
    using to a by (simp add: finish_def Let_def)
  show "fst (finish t i w to failure now clk d)" by (simp add: eq)
  have "?f a \<in> set (update_where (owned_live t i w) ?f (db_attempts d))"
    using fa(1) fa(6) [OF fa(1)] by (force simp: set_update_where)
  then show "\<exists>b \<in> set (db_attempts (snd (finish t i w to failure now clk d))).
      akey b = (t, i) \<and> agen b = agen a \<and> apool b = apool a \<and> a_state b = to \<and>
      a_failure_kind b = map_option fd_kind failure"
    using fa(3) unfolding eq snd_conv by (intro bexI [of _ "?f a"]) (simp_all add: key_defs release_slot_def)
  have at: "a_tenant a = t" using fa(3) by (simp add: akey_def)
  note settled = settle_in_place [OF inv fa(1,2) at fa(6) _ _ to, of ?f clk]
  show "store_inv (snd (finish t i w to failure now clk d))"
    "no_live (agen a) (snd (finish t i w to failure now clk d))"
    "evolves t d (snd (finish t i w to failure now clk d))"
    unfolding eq snd_conv by (rule settled; simp add: owned_live_def key_defs)+
qed (use to a in \<open>simp_all add: finish_def Let_def release_slot_def\<close>)

lemma evolves_then_generation:
  assumes "evolves t d d1" "evolves t d1 (snd (update_generation P f d1))"
  shows "evolves t d (snd (update_generation P f d1))"
  by (rule evolves_trans [OF assms]) simp_all

text \<open>The ways a settlement ends: nothing to settle, a cancellation completed, or the retry
  decision applied.\<close>

lemma finish_and_decide_cases:
  assumes inv: "store_inv d" and to: "AttemptState_is_terminal to" "to \<noteq> AttemptState.Succeeded"
    and ok: "finish_and_decide E t i w to failure now clk d = Ok (r, d')"
  obtains (unsettled) "find (owned_live t i w) (db_attempts d) = None" "r = None" "d' = d"
  | (cancelled) a g where "find (owned_live t i w) (db_attempts d) = Some a"
      "get_generation t (a_generation a) d = Some g" "g_state g = GenerationState.Cancelling"
      "r = Some (a_generation a, Fail)"
      "d' = snd (finish_cancelled t (a_generation a) now (snd (finish t i w to (Some failure) now clk d)))"
  | (retried) a g capabilities where "find (owned_live t i w) (db_attempts d) = Some a"
      "get_generation t (a_generation a) d = Some g" "g_state g \<noteq> GenerationState.Cancelling"
      "pool_capabilities E t (snd (finish t i w to (Some failure) now clk d)) = Ok capabilities"
      "retry_decision (fd_kind failure) (of_int (g_attempt_count g))
         (candidate_remains E t (a_generation a) capabilities (snd (finish t i w to (Some failure) now clk d))) = Requeue"
      "r = Some (a_generation a, Requeue)"
      "d' = snd (requeue t (a_generation a) now (snd (finish t i w to (Some failure) now clk d)))"
  | (failed) a g capabilities where "find (owned_live t i w) (db_attempts d) = Some a"
      "get_generation t (a_generation a) d = Some g" "g_state g \<noteq> GenerationState.Cancelling"
      "pool_capabilities E t (snd (finish t i w to (Some failure) now clk d)) = Ok capabilities"
      "retry_decision (fd_kind failure) (of_int (g_attempt_count g))
         (candidate_remains E t (a_generation a) capabilities (snd (finish t i w to (Some failure) now clk d))) = Fail"
      "r = Some (a_generation a, Fail)"
      "d' = snd (fail_generation t (a_generation a) (fd_kind failure) (fd_message failure) now
              (snd (finish t i w to (Some failure) now clk d)))"
proof (cases "find (owned_live t i w) (db_attempts d)")
  case None
  then have "r = None" "d' = d" using ok by (simp_all add: finish_and_decide_def)
  then show thesis by (rule unsettled [OF None])
next
  case (Some a)
  note fa = owned_live_find [OF inv Some]
  let ?d1 = "snd (finish t i w to (Some failure) now clk d)"
  note fin = finish_settles [OF inv to Some, of "Some failure" now clk]
  obtain x where x: "x \<in> set (db_generations d)" "gkey x = agen a"
    "find (\<lambda>g. gkey g = agen a) (db_generations d) = Some x"
    by (rule inv_attempt_generation [OF inv fa(1)])
  have lookup: "get_generation t (a_generation a) d = Some x"
    using x(3) by (simp add: get_generation_def fa(5))
  then have lookup1: "get_generation t (a_generation a) ?d1 = Some x"
    using fin(5) by (simp add: get_generation_def)
  have cnt: "0 \<le> g_attempt_count x" "g_attempt_count x < 4294967296"
  proof -
    have "0 \<le> g_attempt_count x \<and> g_attempt_count x \<le> 3"
      using store_invD(4) [OF inv] x(1) unfolding inv_numbers_def by blast
    then show "0 \<le> g_attempt_count x" "g_attempt_count x < 4294967296" by simp_all
  qed
  obtain d1 where d1: "finish t i w to (Some failure) now clk d = (True, d1)"
    using fin(1) by (cases "finish t i w to (Some failure) now clk d") simp
  have lk: "get_generation t (a_generation a) d1 = Some x" using lookup1 d1 by simp
  show thesis
  proof (cases "g_state x = GenerationState.Cancelling")
    case True
    have "finish_and_decide E t i w to failure now clk d =
        Ok (Some (a_generation a, Fail), snd (finish_cancelled t (a_generation a) now d1))"
      unfolding finish_and_decide_def Some by (simp add: d1 lk True Let_def)
    then have "r = Some (a_generation a, Fail)" "d' = snd (finish_cancelled t (a_generation a) now ?d1)"
      using ok d1 by simp_all
    then show thesis by (rule cancelled [OF Some lookup True])
  next
    case False
    let ?remain = "\<lambda>capabilities. candidate_remains E t (a_generation a) capabilities d1"
    have eq: "finish_and_decide E t i w to failure now clk d =
        rbind (pool_capabilities E t d1) (\<lambda>capabilities.
          case retry_decision (fd_kind failure) (of_int (g_attempt_count x)) (?remain capabilities) of
            Requeue \<Rightarrow> Ok (Some (a_generation a, Requeue), snd (requeue t (a_generation a) now d1))
          | Fail \<Rightarrow> Ok (Some (a_generation a, Fail),
              snd (fail_generation t (a_generation a) (fd_kind failure) (fd_message failure) now d1)))"
      unfolding finish_and_decide_def Some
      by (simp add: d1 lk False cnt Let_def cong: RetryDecision.case_cong)
    obtain capabilities where caps: "pool_capabilities E t d1 = Ok capabilities"
      using ok unfolding eq by (cases "pool_capabilities E t d1") simp_all
    have res: "(Ok (r, d') :: (GenerationId \<times> RetryDecision) option tx) =
        (case retry_decision (fd_kind failure) (of_int (g_attempt_count x)) (?remain capabilities) of
        Requeue \<Rightarrow> Ok (Some (a_generation a, Requeue), snd (requeue t (a_generation a) now d1))
      | Fail \<Rightarrow> Ok (Some (a_generation a, Fail),
          snd (fail_generation t (a_generation a) (fd_kind failure) (fd_message failure) now d1)))"
      using ok unfolding eq caps by (simp add: eq_commute)
    show thesis
    proof (cases "retry_decision (fd_kind failure) (of_int (g_attempt_count x)) (?remain capabilities)")
      case Requeue
      then show thesis using res d1 caps by (intro retried [OF Some lookup False]) simp_all
    next
      case Fail
      then show thesis using res d1 caps by (intro failed [OF Some lookup False]) simp_all
    qed
  qed
qed

lemma inv_finish_and_decide:
  assumes inv: "store_inv d" and to: "AttemptState_is_terminal to" "to \<noteq> AttemptState.Succeeded"
    and ok: "finish_and_decide E t i w to failure now clk d = Ok (r, d')"
  shows "store_inv d'" "evolves t d d'"
proof -
  have "store_inv d' \<and> evolves t d d'"
    using ok
  proof (cases rule: finish_and_decide_cases [OF inv to ok, case_names unsettled cancelled retried failed])
    case unsettled
    then show ?thesis using inv evolves_inv_refl [OF store_invD(1) [OF inv]] by simp
  next
    case (cancelled a g)
    note fin = finish_settles [OF inv to cancelled(1), of "Some failure" now clk]
    have "evolves t d (snd (finish_cancelled t (a_generation a) now (snd (finish t i w to (Some failure) now clk d))))"
      using evolves_gen_changes(6) [OF store_invD(1) [OF fin(2)]] unfolding finish_cancelled_def
      by (intro evolves_then_generation [OF fin(4)])
    then show ?thesis using inv_gen_changes(6) [OF fin(2)] by (simp add: cancelled(5))
  next
    case (retried a g capabilities)
    note fin = finish_settles [OF inv to retried(1), of "Some failure" now clk]
    have k: "agen a = (t, a_generation a)" using owned_live_find(5) [OF inv retried(1)] .
    have "evolves t d (snd (requeue t (a_generation a) now (snd (finish t i w to (Some failure) now clk d))))"
      using evolves_gen_changes(2) [OF store_invD(1) [OF fin(2)]] unfolding requeue_def
      by (intro evolves_then_generation [OF fin(4)])
    then show ?thesis using inv_gen_settles(1) [OF fin(2)] fin(3) by (simp add: retried(7) k)
  next
    case (failed a g capabilities)
    note fin = finish_settles [OF inv to failed(1), of "Some failure" now clk]
    have k: "agen a = (t, a_generation a)" using owned_live_find(5) [OF inv failed(1)] .
    have "evolves t d (snd (fail_generation t (a_generation a) (fd_kind failure) (fd_message failure) now
        (snd (finish t i w to (Some failure) now clk d))))"
      using evolves_gen_changes(3) [OF store_invD(1) [OF fin(2)]] unfolding fail_generation_def
      by (intro evolves_then_generation [OF fin(4)])
    then show ?thesis using inv_gen_settles(2) [OF fin(2)] fin(3) by (simp add: failed(7) k)
  qed
  then show "store_inv d'" "evolves t d d'" by simp_all
qed

section \<open>Lemmas on lease rejection\<close>

definition rejectable :: "TenantId \<Rightarrow> AttemptId \<Rightarrow> WorkerId \<Rightarrow> datetime \<Rightarrow> db \<Rightarrow> AttemptRow \<Rightarrow> bool" where
  "rejectable t i worker now d a \<longleftrightarrow>
     a \<in> set (db_attempts d) \<and> akey a = (t, i) \<and> a_worker a = worker \<and>
     a_state a = AttemptState.Leased \<and> now < a_lease_expires_at a \<and>
     map_option g_state (get_generation t (a_generation a) d) = Some GenerationState.Running"

definition rejected_db ::
  "TenantId \<Rightarrow> AttemptId \<Rightarrow> WorkerId \<Rightarrow> datetime \<Rightarrow> clocks \<Rightarrow> rejection_row list \<Rightarrow> AttemptRow \<Rightarrow> db \<Rightarrow> db" where
  "rejected_db t i worker now clk rs a d =
     (d\<lparr>db_rejections := rs,
       db_attempts := delete_where (\<lambda>a. akey a = (t, i) \<and> a_worker a = worker \<and>
         a_state a = AttemptState.Leased) (db_attempts d),
       db_pools := release_in (apool a) (sql_now clk) (db_pools d),
       db_generations := update_where
         (\<lambda>g. gkey g = agen a \<and> g_state g = GenerationState.Running)
         (\<lambda>g. g\<lparr>g_state := GenerationState.Queued, g_attempt_count := max (g_attempt_count g - 1) 0,
                g_updated_at := now\<rparr>) (db_generations d)\<rparr>)"

lemma reject_lease_outcome:
  assumes inv: "store_inv d"
  shows "(\<exists>a rs. rejectable t i worker now d a \<and>
            reject_lease t i worker now clk d =
              Ok (Some (a_generation a), rejected_db t i worker now clk rs a d) \<and>
            filter (\<lambda>r. r_tenant r \<noteq> t) rs = filter (\<lambda>r. r_tenant r \<noteq> t) (db_rejections d) \<and>
            a_pool a \<in> set (excluded_pools t (a_generation a) (rejected_db t i worker now clk rs a d))) \<or>
         (\<forall>a. \<not> rejectable t i worker now d a) \<and> reject_lease t i worker now clk d = Ok (None, d)"
proof (cases "find (\<lambda>a. akey a = (t, i) \<and> a_worker a = worker \<and> a_state a = AttemptState.Leased) (db_attempts d)")
  case None
  then have "\<forall>a. \<not> rejectable t i worker now d a" by (auto simp: rejectable_def find_None_iff)
  moreover have "reject_lease t i worker now clk d = Ok (None, d)" unfolding reject_lease_def None by simp
  ultimately show ?thesis by blast
next
  case (Some a)
  let ?P = "\<lambda>a. akey a = (t, i) \<and> a_worker a = worker \<and> a_state a = AttemptState.Leased"
  have a: "a \<in> set (db_attempts d)" "akey a = (t, i)" "a_worker a = worker" "a_state a = AttemptState.Leased"
    using Some by (auto simp: find_Some_iff)
  have dist: "distinct (map akey (db_attempts d))" using store_invD(1) [OF inv] by (simp add: inv_keys_def)
  have uniq: "b = a" if "b \<in> set (db_attempts d)" "akey b = (t, i)" for b
    using atts.key_unique [OF dist that(1) a(1)] that(2) a(2) by simp
  show ?thesis
  proof (cases "now < a_lease_expires_at a \<and>
      map_option g_state (get_generation t (a_generation a) d) = Some GenerationState.Running")
    case False
    then have "\<forall>b. \<not> rejectable t i worker now d b" using uniq by (auto simp: rejectable_def)
    moreover have "reject_lease t i worker now clk d = Ok (None, d)"
      unfolding reject_lease_def Some using False by (auto simp: Let_def)
    ultimately show ?thesis by blast
  next
    case True
    have ks: "agen a = (t, a_generation a)" "apool a = (t, a_pool a)" "a_tenant a = t" "a_id a = i"
      using a(2) by (simp_all add: key_defs)
    have ex: "\<exists>g \<in> set (db_generations d). gkey g = (t, a_generation a)"
      "\<exists>p \<in> set (db_pools d). pkey p = (t, a_pool a)"
      using inv_attempt_generation [OF inv a(1)] inv_pool_of [OF inv a(1)] ks by metis+
    obtain first rs where rej: "record_preexecution_rejection t (a_generation a) (a_pool a) d =
        Ok (first, d\<lparr>db_rejections := rs\<rparr>)"
      "filter (\<lambda>r. r_tenant r \<noteq> t) rs = filter (\<lambda>r. r_tenant r \<noteq> t) (db_rejections d)"
      "\<exists>r \<in> set rs. r_tenant r = t \<and> r_generation r = a_generation a \<and> r_pool r = a_pool a"
    proof (cases "\<exists>r \<in> set (db_rejections d). r_tenant r = t \<and> r_generation r = a_generation a \<and> r_pool r = a_pool a")
      case True
      then show thesis using that [of False "db_rejections d"]
        by (simp add: record_preexecution_rejection_def)
    next
      case False
      then show thesis
        using ex by (intro that [of True "db_rejections d @
            [\<lparr>r_tenant = t, r_generation = a_generation a, r_pool = a_pool a\<rparr>]"])
          (auto simp: record_preexecution_rejection_def)
    qed
    have nosucc: "a_state b \<noteq> AttemptState.Succeeded" if "b \<in> set (db_attempts d)" "akey b = (t, i)" for b
      using uniq [OF that] a(4) by simp
    have "g_accepted_attempt g \<noteq> Some i" if g: "g \<in> set (db_generations d)" "g_tenant g = t" for g
      using store_invD(5) [OF inv] g nosucc unfolding inv_results_def by metis
    moreover have "f_attempt f \<noteq> Some i" if f: "f \<in> set (db_artifacts d)" "f_tenant f = t" for f
      using store_invD(6) [OF inv] f nosucc unfolding inv_outputs_def by metis
    ultimately have del: "delete_attempt ?P (d\<lparr>db_rejections := rs\<rparr>) =
        Ok (d\<lparr>db_rejections := rs, db_attempts := delete_where ?P (db_attempts d)\<rparr>)"
      by (auto simp: delete_attempt_def akey_def)
    have "reject_lease t i worker now clk d =
        Ok (Some (a_generation a), rejected_db t i worker now clk rs a d)"
      using True rej(1) del
      by (simp add: reject_lease_def Some Let_def release_slot_eq rejected_db_def ks)
    moreover have "rejectable t i worker now d a" using a True by (simp add: rejectable_def)
    moreover have "a_pool a \<in> set (excluded_pools t (a_generation a) (rejected_db t i worker now clk rs a d))"
    proof -
      obtain r where "r \<in> set rs" "r_tenant r = t" "r_generation r = a_generation a" "r_pool r = a_pool a"
        using rej(3) by blast
      then have "a_pool a \<in> r_pool ` {r \<in> set rs. r_tenant r = t \<and> r_generation r = a_generation a}"
        by (intro image_eqI [of _ _ r]) simp_all
      then show ?thesis by (simp add: excluded_pools_def rejected_db_def)
    qed
    ultimately show ?thesis using rej(2) by blast
  qed
qed

lemma inv_rejected_db:
  assumes inv: "store_inv d" and r: "rejectable t i worker now d a"
  shows "store_inv (rejected_db t i worker now clk rs a d)"
proof -
  have a: "a \<in> set (db_attempts d)" "is_live a" "akey a = (t, i)" "a_worker a = worker"
    "a_state a = AttemptState.Leased" using r by (simp_all add: rejectable_def)
  have dist: "distinct (map akey (db_attempts d))" using store_invD(1) [OF inv] by (simp add: inv_keys_def)
  let ?P = "\<lambda>a. akey a = (t, i) \<and> a_worker a = worker \<and> a_state a = AttemptState.Leased"
  have P: "?P b \<longleftrightarrow> akey b = akey a" if "b \<in> set (db_attempts d)" for b
    using atts.key_unique [OF dist that a(1)] a(3-5) by auto
  let ?h = "\<lambda>g. g\<lparr>g_state := GenerationState.Queued, g_attempt_count := max (g_attempt_count g - 1) 0,
                g_updated_at := now\<rparr>"
  let ?d1 = "d\<lparr>db_rejections := rs, db_attempts := delete_where ?P (db_attempts d),
      db_pools := release_in (apool a) (sql_now clk) (db_pools d)\<rparr>"
  have inv1: "store_inv ?d1"
    using inv_delete_live [of "d\<lparr>db_rejections := rs\<rparr>" a ?P "sql_now clk"] inv a(1,2) P by simp
  have rest: "b \<in> set (db_attempts d) \<and> b \<noteq> a" if "b \<in> set (db_attempts ?d1)" for b
    using that P [of b] by (auto simp: set_delete_where)
  have "store_inv (?d1\<lparr>db_generations := update_where
         (\<lambda>g. gkey g = agen a \<and> g_state g = GenerationState.Running)
         (\<lambda>g. g\<lparr>g_state := GenerationState.Queued, g_attempt_count := max (g_attempt_count g - 1) 0,
                g_updated_at := now\<rparr>) (db_generations ?d1)\<rparr>)"
  proof (rule inv_recount_generations [OF inv1])
    fix g assume g: "gkey g = agen a \<and> g_state g = GenerationState.Running" "g \<in> set (db_generations ?d1)"
    then have gd: "g \<in> set (db_generations d)" by simp
    have cnt: "0 \<le> g_attempt_count g \<and> g_attempt_count g \<le> 3"
      using store_invD(4) [OF inv] gd unfolding inv_numbers_def by blast
    then show "gkey (?h g) = gkey g \<and>
        g_accepted_attempt (?h g) = g_accepted_attempt g \<and>
        (g_state (?h g) = GenerationState.Succeeded \<longleftrightarrow> g_state g = GenerationState.Succeeded) \<and>
        (g_state (?h g) = GenerationState.Failed \<longrightarrow>
          g_failure_kind (?h g) \<noteq> None) \<and>
        0 \<le> g_attempt_count (?h g) \<and>
        g_attempt_count (?h g) \<le> 3"
      using g(1) by (auto simp: gkey_def)
    fix b assume b: "b \<in> set (db_attempts ?d1)" "agen b = gkey g"
    have bd: "b \<in> set (db_attempts d)" "b \<noteq> a" using rest [OF b(1)] by blast+
    have nl: "\<not> is_live b"
      using inv_live_unique [OF inv bd(1) a(1) _ a(2)] b(2) g(1) bd(2) by auto
    have "a_attempt_number b \<noteq> a_attempt_number a"
    proof
      assume "a_attempt_number b = a_attempt_number a"
      then have "(agen b, a_attempt_number b) = (agen a, a_attempt_number a)" using b(2) g(1) by simp
      moreover have "inj_on (\<lambda>a. (agen a, a_attempt_number a)) (set (db_attempts d))"
        using store_invD(4) [OF inv] by (simp add: inv_numbers_def distinct_map)
      ultimately show False using bd a(1) by (auto dest: inj_onD)
    qed
    moreover have "a_attempt_number a = g_attempt_count g"
      using inv_live_active(2) [OF inv a(1,2) gd] g(1) by simp
    moreover have "a_attempt_number b \<le> g_attempt_count g"
      using store_invD(4) [OF inv] bd(1) gd b(2) unfolding inv_numbers_def by blast
    ultimately show "a_attempt_number b \<le> g_attempt_count (?h g) \<and>
        (is_live b \<longrightarrow> a_attempt_number b = g_attempt_count (?h g) \<and>
          hosts_live (?h g))"
      using nl by simp
  qed
  then show ?thesis by (simp add: rejected_db_def)
qed

lemma inv_reject_lease:
  assumes "store_inv d" "reject_lease t i worker now clk d = Ok (r, d')"
  shows "store_inv d'"
  using reject_lease_outcome [OF assms(1), of t i worker now clk] assms inv_rejected_db by fastforce

lemma evolves_reject_lease:
  assumes inv: "store_inv d" and ok: "reject_lease t i worker now clk d = Ok (r, d')"
  shows "evolves t d d'"
proof -
  have keys: "inv_keys d" using store_invD(1) [OF inv] .
  consider "d' = d" | a rs where "rejectable t i worker now d a" "d' = rejected_db t i worker now clk rs a d"
    "filter (\<lambda>r. r_tenant r \<noteq> t) rs = filter (\<lambda>r. r_tenant r \<noteq> t) (db_rejections d)"
    using reject_lease_outcome [OF inv, of t i worker now clk] ok by fastforce
  then show ?thesis
  proof cases
    case 1
    then show ?thesis using evolves_inv_refl [OF keys] by simp
  next
    case (2 a rs)
    let ?P = "\<lambda>a. akey a = (t, i) \<and> a_worker a = worker \<and> a_state a = AttemptState.Leased"
    let ?d1 = "d\<lparr>db_rejections := rs\<rparr>"
    let ?d2 = "?d1\<lparr>db_attempts := delete_where ?P (db_attempts d)\<rparr>"
    let ?d3 = "?d2\<lparr>db_pools := release_in (apool a) (sql_now clk) (db_pools d)\<rparr>"
    have at: "a_tenant a = t" using 2(1) by (simp add: rejectable_def akey_def)
    have e1: "evolves t d ?d1" using 2(3) by (intro evolves_same [OF keys]) (simp_all add: others_def)
    have k1: "inv_keys ?d1" using keys by (simp add: inv_keys_def)
    have e2: "evolves t ?d1 ?d2"
      by (rule evolves_attempts_from [OF k1]) (auto simp: set_delete_where akey_def intro!: filter_delete_where)
    have k2: "inv_keys ?d2" using k1 by (simp add: inv_keys_def distinct_delete_where)
    have "filter (\<lambda>r. p_tenant r \<noteq> t) (release_in (apool a) (sql_now clk) (db_pools d)) =
        filter (\<lambda>r. p_tenant r \<noteq> t) (db_pools d)"
      unfolding release_in_def using at by (intro filter_update_where) (simp add: key_defs)
    then have e3: "evolves t ?d2 ?d3" by (intro evolves_same [OF k2]) (simp_all add: others_def)
    have k3: "inv_keys ?d3" using k2 by (simp add: inv_keys_def)
    have "evolves t ?d3 (?d3\<lparr>db_generations := update_where
         (\<lambda>g. gkey g = agen a \<and> g_state g = GenerationState.Running)
         (\<lambda>g. g\<lparr>g_state := GenerationState.Queued, g_attempt_count := max (g_attempt_count g - 1) 0,
                g_updated_at := now\<rparr>) (db_generations ?d3)\<rparr>)"
      using at by (intro evolves_generations [OF k3]) (auto simp: gen_step_def key_defs intro!: r_into_rtranclp)
    then have e4: "evolves t ?d3 d'" by (simp add: 2(2) rejected_db_def)
    have "evolves t d ?d2" by (rule evolves_trans [OF e1 e2]) simp_all
    then have "evolves t d ?d3" by (rule evolves_trans [OF _ e3]) simp_all
    then show ?thesis by (rule evolves_trans [OF _ e4]) (simp_all add: 2(2) rejected_db_def)
  qed
qed

section \<open>Lemmas on acknowledged cancellation\<close>

lemma acknowledge_cancel_cases:
  obtains (ignored) "acknowledge_cancel t i worker now clk d = (None, d)"
  | (acknowledged) a g where "find (\<lambda>a. akey a = (t, i) \<and> a_worker a = worker) (db_attempts d) = Some a"
      "get_generation t (a_generation a) d = Some g" "g_state g = GenerationState.Cancelling"
      "acknowledge_cancel t i worker now clk d =
        (let d1 = (if is_live a then release_slot t (a_pool a) clk
                        (d\<lparr>db_attempts := update_where
                             (\<lambda>a. akey a = (t, i) \<and> a_worker a = worker \<and> is_live a)
                             (\<lambda>a. a\<lparr>a_state := AttemptState.Cancelled, a_finished_at := Some now,
                                    a_failure_kind := None, a_failure_message := [],
                                    a_worker_retry_hint := False\<rparr>) (db_attempts d)\<rparr>)
                   else d)
         in (if fst (finish_cancelled t (a_generation a) now d1) then Some (a_generation a) else None,
             snd (finish_cancelled t (a_generation a) now d1)))"
proof (cases "find (\<lambda>a. akey a = (t, i) \<and> a_worker a = worker) (db_attempts d)")
  case None
  then show thesis by (intro ignored) (simp add: acknowledge_cancel_def)
next
  case (Some a)
  show thesis
  proof (cases "map_option g_state (get_generation t (a_generation a) d) = Some GenerationState.Cancelling")
    case False
    then show thesis by (intro ignored) (simp add: acknowledge_cancel_def Some)
  next
    case True
    then obtain g where g: "get_generation t (a_generation a) d = Some g" "g_state g = GenerationState.Cancelling"
      by (cases "get_generation t (a_generation a) d") auto
    show thesis
      by (rule acknowledged [OF Some g]) (simp add: acknowledge_cancel_def Some g Let_def case_prod_beta)
  qed
qed

lemma acknowledge_cancel_sound:
  assumes inv: "store_inv d"
  shows "store_inv (snd (acknowledge_cancel t i worker now clk d))"
    "evolves t d (snd (acknowledge_cancel t i worker now clk d))"
proof -
  have keys: "inv_keys d" using store_invD(1) [OF inv] .
  have "store_inv (snd (acknowledge_cancel t i worker now clk d)) \<and>
    evolves t d (snd (acknowledge_cancel t i worker now clk d))"
  proof (cases rule: acknowledge_cancel_cases [of t i worker now clk d, case_names ignored acknowledged])
    case ignored
    then show ?thesis using inv evolves_inv_refl [OF keys] by simp
  next
    case (acknowledged a g)
    have a: "a \<in> set (db_attempts d)" "akey a = (t, i)" "a_worker a = worker"
      using acknowledged(1) by (auto simp: find_Some_iff)
    have ks: "a_tenant a = t" "agen a = (t, a_generation a)" using a(2) by (simp_all add: key_defs)
    have settled: "store_inv (snd (finish_cancelled t (a_generation a) now d1)) \<and>
        evolves t d (snd (finish_cancelled t (a_generation a) now d1))"
      if "store_inv d1" "evolves t d d1" for d1
      using inv_gen_changes(6) [OF that(1)]
        evolves_then_generation [OF that(2) evolves_gen_changes(6) [OF store_invD(1) [OF that(1)],
          unfolded finish_cancelled_def]]
      by (simp add: finish_cancelled_def)
    show ?thesis
    proof (cases "is_live a")
      case True
      have P: "(akey b = (t, i) \<and> a_worker b = worker \<and> is_live b) \<longleftrightarrow> akey b = akey a"
        if "b \<in> set (db_attempts d)" for b
        using atts.key_unique [OF _ that a(1)] keys a True by (auto simp: inv_keys_def)
      note fin = settle_in_place [OF inv a(1) True ks(1), where P = "\<lambda>a. akey a = (t, i) \<and> a_worker a = worker \<and> is_live a"
          and f = "\<lambda>a. a\<lparr>a_state := AttemptState.Cancelled, a_finished_at := Some now,
             a_failure_kind := None, a_failure_message := [], a_worker_retry_hint := False\<rparr>"
          and to = AttemptState.Cancelled and clk = clk, OF P]
      show ?thesis
        unfolding acknowledged(4) Let_def snd_conv if_P [OF True]
        by (rule settled; rule fin(1) fin(3)) (auto simp: key_defs AttemptState_is_terminal_def)
    next
      case False
      show ?thesis
        unfolding acknowledged(4) Let_def snd_conv if_not_P [OF False]
        by (rule settled [OF inv evolves_inv_refl [OF keys]])
    qed
  qed
  then show "store_inv (snd (acknowledge_cancel t i worker now clk d))"
    "evolves t d (snd (acknowledge_cancel t i worker now clk d))" by simp_all
qed

lemma settled_generation:
  assumes "store_inv d" "no_live (t, gen) d" "get_generation t gen d = Some g"
  shows "get_generation t gen (snd (finish_cancelled t gen now d)) =
      Some (if g_state g = GenerationState.Cancelling
            then g\<lparr>g_state := GenerationState.Cancelled, g_terminated_at := Some now, g_updated_at := now\<rparr>
            else g)"
    "get_generation t gen (snd (requeue t gen now d)) =
      Some (if g_state g = GenerationState.Running
            then g\<lparr>g_state := GenerationState.Queued, g_updated_at := now\<rparr> else g)"
    "get_generation t gen (snd (fail_generation t gen kind message now d)) =
      Some (if g_state g \<in> {GenerationState.Queued, GenerationState.Running, GenerationState.Cancelling}
            then g\<lparr>g_state := GenerationState.Failed, g_failure_kind := Some kind,
                   g_failure_message := message, g_terminated_at := Some now, g_updated_at := now\<rparr>
            else g)"
proof -
  have "gkey g = (t, gen)" using assms(3) by (auto simp: get_generation_def find_Some_iff)
  then show "get_generation t gen (snd (finish_cancelled t gen now d)) =
      Some (if g_state g = GenerationState.Cancelling
            then g\<lparr>g_state := GenerationState.Cancelled, g_terminated_at := Some now, g_updated_at := now\<rparr>
            else g)"
    "get_generation t gen (snd (requeue t gen now d)) =
      Some (if g_state g = GenerationState.Running
            then g\<lparr>g_state := GenerationState.Queued, g_updated_at := now\<rparr> else g)"
    "get_generation t gen (snd (fail_generation t gen kind message now d)) =
      Some (if g_state g \<in> {GenerationState.Queued, GenerationState.Running, GenerationState.Cancelling}
            then g\<lparr>g_state := GenerationState.Failed, g_failure_kind := Some kind,
                   g_failure_message := message, g_terminated_at := Some now, g_updated_at := now\<rparr>
            else g)"
    unfolding gen_change_defs using assms(3)
    by (subst update_generation_lookup; simp add: gkey_def)+
qed

text \<open>The retry policy applied to the Generation of a settled Attempt.\<close>

definition retry_applied ::
  "env \<Rightarrow> TenantId \<Rightarrow> FailureDetails \<Rightarrow> db \<Rightarrow> RetryDecision \<Rightarrow> GenerationRow \<Rightarrow> GenerationRow \<Rightarrow> bool" where
  "retry_applied E t failure d1 decision g g' \<longleftrightarrow>
     (g_state g = GenerationState.Cancelling \<longrightarrow> decision = Fail \<and> g_state g' = GenerationState.Cancelled) \<and>
     (g_state g = GenerationState.Running \<longrightarrow>
        (\<exists>capabilities. pool_capabilities E t d1 = Ok capabilities \<and>
           decision = retry_decision (fd_kind failure) (of_int (g_attempt_count g))
             (candidate_remains E t (g_id g) capabilities d1)) \<and>
        (decision = Requeue \<longrightarrow> g_state g' = GenerationState.Queued) \<and>
        (decision = Fail \<longrightarrow> g_state g' = GenerationState.Failed \<and>
           g_failure_kind g' = Some (fd_kind failure)))"

lemma finish_and_decide_applies:
  assumes inv: "store_inv d" and to: "AttemptState_is_terminal to" "to \<noteq> AttemptState.Succeeded"
    and ok: "finish_and_decide E t i w to failure now clk d = Ok (Some (gen, decision), d')"
  obtains a g g' where "find (owned_live t i w) (db_attempts d) = Some a" "gen = a_generation a"
    "get_generation t gen d = Some g" "get_generation t gen d' = Some g'"
    "db_attempts d' = db_attempts (snd (finish t i w to (Some failure) now clk d))"
    "retry_applied E t failure (snd (finish t i w to (Some failure) now clk d)) decision g g'"
proof -
  let ?d1 = "snd (finish t i w to (Some failure) now clk d)"
  have after: "store_inv ?d1 \<and> no_live (t, gen) ?d1 \<and> get_generation t gen ?d1 = get_generation t gen d"
    if "find (owned_live t i w) (db_attempts d) = Some a" "gen = a_generation a" for a
    using finish_settles [OF inv to that(1), of "Some failure" now clk]
      owned_live_find(5) [OF inv that(1)] that(2) by (simp add: get_generation_def)
  have gid: "g_id g = gen" if "get_generation t gen d = Some g" for g
    using that by (auto simp: get_generation_def find_Some_iff gkey_def)
  show thesis
  proof (cases rule: finish_and_decide_cases [OF inv to ok, case_names unsettled cancelled retried failed])
    case unsettled
    then show thesis by simp
  next
    case (cancelled a g)
    have gen: "gen = a_generation a" "decision = Fail" using cancelled(4) by simp_all
    have g: "get_generation t gen d = Some g" using cancelled(2) gen by simp
    note af = after [OF cancelled(1) gen(1)]
    have d': "d' = snd (finish_cancelled t gen now ?d1)" using cancelled(5) gen by simp
    have g': "get_generation t gen d' = Some (if g_state g = GenerationState.Cancelling
            then g\<lparr>g_state := GenerationState.Cancelled, g_terminated_at := Some now, g_updated_at := now\<rparr>
            else g)"
      unfolding d' using af g by (intro settled_generation(1)) simp_all
    show thesis
    proof (rule that [OF cancelled(1) gen(1) g g'])
      show "db_attempts d' = db_attempts ?d1" by (simp add: d' finish_cancelled_def)
      show "retry_applied E t failure ?d1 decision g (if g_state g = GenerationState.Cancelling
            then g\<lparr>g_state := GenerationState.Cancelled, g_terminated_at := Some now, g_updated_at := now\<rparr>
            else g)"
        using cancelled(3) gen by (simp add: retry_applied_def)
    qed
  next
    case (retried a g capabilities)
    have gen: "gen = a_generation a" "decision = Requeue" using retried(6) by simp_all
    have g: "get_generation t gen d = Some g" using retried(2) gen by simp
    note af = after [OF retried(1) gen(1)]
    have d': "d' = snd (requeue t gen now ?d1)" using retried(7) gen by simp
    have g': "get_generation t gen d' = Some (if g_state g = GenerationState.Running
            then g\<lparr>g_state := GenerationState.Queued, g_updated_at := now\<rparr> else g)"
      unfolding d' using af g by (intro settled_generation(2)) simp_all
    show thesis
    proof (rule that [OF retried(1) gen(1) g g'])
      show "db_attempts d' = db_attempts ?d1" by (simp add: d' requeue_def)
      show "retry_applied E t failure ?d1 decision g (if g_state g = GenerationState.Running
            then g\<lparr>g_state := GenerationState.Queued, g_updated_at := now\<rparr> else g)"
        using retried(3-5) gen gid [OF g] by (auto simp: retry_applied_def)
    qed
  next
    case (failed a g capabilities)
    have gen: "gen = a_generation a" "decision = Fail" using failed(6) by simp_all
    have g: "get_generation t gen d = Some g" using failed(2) gen by simp
    note af = after [OF failed(1) gen(1)]
    have d': "d' = snd (fail_generation t gen (fd_kind failure) (fd_message failure) now ?d1)"
      using failed(7) gen by simp
    have g': "get_generation t gen d' = Some (if g_state g \<in> {GenerationState.Queued,
          GenerationState.Running, GenerationState.Cancelling}
        then g\<lparr>g_state := GenerationState.Failed, g_failure_kind := Some (fd_kind failure),
               g_failure_message := fd_message failure, g_terminated_at := Some now, g_updated_at := now\<rparr>
        else g)"
      unfolding d' using af g by (intro settled_generation(3)) simp_all
    show thesis
    proof (rule that [OF failed(1) gen(1) g g'])
      show "db_attempts d' = db_attempts ?d1" by (simp add: d' fail_generation_def)
      show "retry_applied E t failure ?d1 decision g (if g_state g \<in> {GenerationState.Queued,
          GenerationState.Running, GenerationState.Cancelling}
        then g\<lparr>g_state := GenerationState.Failed, g_failure_kind := Some (fd_kind failure),
               g_failure_message := fd_message failure, g_terminated_at := Some now, g_updated_at := now\<rparr>
        else g)"
        using failed(3-5) gen gid [OF g] by (auto simp: retry_applied_def)
    qed
  qed
qed

section \<open>Properties\<close>

text \<open>C29: Settling an Attempt as failed applies the retry policy to its Generation. The Attempt
  was live and ends in the requested state with the failure's kind, its Slot is released and
  no live Attempt of the Generation is left. A cancelling Generation ends cancelled. A running
  one follows the decision of the policy on the failure kind, its Attempt count and whether
  some ready Pool outside the excluded ones can still run it: it is queued again or fails with
  that kind.\<close>
theorem settlement_follows_retry_policy:
  assumes "store_inv d" "AttemptState_is_terminal to" "to \<noteq> AttemptState.Succeeded"
    and "finish_and_decide E t i w to failure now clk d = Ok (Some (gen, decision), d')"
  shows "store_inv d' \<and> no_live (t, gen) d' \<and>
    (\<exists>a \<in> set (db_attempts d). owned_live t i w a \<and> a_generation a = gen) \<and>
    (\<exists>a \<in> set (db_attempts d'). akey a = (t, i) \<and> a_generation a = gen \<and> a_state a = to \<and>
       a_failure_kind a = Some (fd_kind failure)) \<and>
    (\<exists>g g'. get_generation t gen d = Some g \<and> get_generation t gen d' = Some g' \<and>
       retry_applied E t failure (snd (finish t i w to (Some failure) now clk d)) decision g g')"
proof -
  obtain a g g' where a: "find (owned_live t i w) (db_attempts d) = Some a" "gen = a_generation a"
    and g: "get_generation t gen d = Some g" "get_generation t gen d' = Some g'"
      "retry_applied E t failure (snd (finish t i w to (Some failure) now clk d)) decision g g'"
    and at: "db_attempts d' = db_attempts (snd (finish t i w to (Some failure) now clk d))"
    by (rule finish_and_decide_applies [OF assms])
  note fin = finish_settles [OF assms(1-3) a(1), of "Some failure" now clk]
  have k: "agen a = (t, gen)" using owned_live_find(5) [OF assms(1) a(1)] a(2) by simp
  have "no_live (t, gen) d'" using fin(3) no_live_frame [OF at] by (simp add: k)
  moreover have "\<exists>a \<in> set (db_attempts d). owned_live t i w a \<and> a_generation a = gen"
    using a by (auto simp: find_Some_iff)
  moreover have "\<exists>a \<in> set (db_attempts d'). akey a = (t, i) \<and> a_generation a = gen \<and> a_state a = to \<and>
     a_failure_kind a = Some (fd_kind failure)"
    using fin(7) unfolding at k by (auto simp: agen_def)
  ultimately show ?thesis using inv_finish_and_decide(1) [OF assms] g by blast
qed

theorem settlement_follows_retry_policy_witness:
  "\<exists>g'. get_generation 7 10 (snd (projr (record_failure_for_worker example_env 7 20 1
       \<lparr>fd_kind = FailureKind.BackendCrashed, fd_message = [], fd_worker_retry_hint = True\<rparr>
       50 example_clocks example_db))) = Some g' \<and> g_state g' = GenerationState.Queued"
proof -
  let ?failure = "\<lparr>fd_kind = FailureKind.BackendCrashed, fd_message = [], fd_worker_retry_hint = True\<rparr>"
  have g: "get_generation 7 10 example_db = Some example_generation"
    by (simp add: get_generation_def example_defs gkey_def)
  have rd: "retry_decision FailureKind.BackendCrashed 1 c = Requeue" for c
    by (simp add: retry_decision_Requeue_iff FailureKind_is_retryable_def MAX_ATTEMPTS_def)
  have r: "finish_and_decide example_env 7 20 (Some 1) AttemptState.Failed ?failure 50 example_clocks example_db =
      Ok (Some (10, Requeue), snd (projr (finish_and_decide example_env 7 20 (Some 1) AttemptState.Failed
        ?failure 50 example_clocks example_db)))"
    by (simp add: finish_and_decide_def finish_def example_defs owned_live_def key_defs
        get_generation_def AttemptState_is_terminal_def Let_def release_slot_def update_where_def
        pool_capabilities_def build_slot_capability_def advertised_manifests_def
        rd)
  have t: "AttemptState_is_terminal AttemptState.Failed" "AttemptState.Failed \<noteq> AttemptState.Succeeded"
    by (simp_all add: AttemptState_is_terminal_def)
  show ?thesis
    using settlement_follows_retry_policy [OF example_inv(1) t r] g
    unfolding record_failure_for_worker_def retry_applied_def
    by (auto simp: example_generation_def)
qed

text \<open>C30: Rejecting a lease before execution never fails on a consistent store. It takes effect
  exactly for the owner of a leased, unexpired Attempt of a running Generation, and then rolls
  the lease back: the Attempt is gone, the Generation is queued with its Attempt count as
  before the lease, and the Pool is excluded, so that leasing the Generation to that Pool again
  is refused. Otherwise nothing changes.\<close>
theorem lease_rejection_rolls_back:
  assumes "store_inv d"
  shows "\<exists>r d'. reject_lease t i worker now clk d = Ok (r, d') \<and> store_inv d' \<and>
    ((\<nexists>a. rejectable t i worker now d a) \<longrightarrow> r = None \<and> d' = d) \<and>
    (\<forall>a g. rejectable t i worker now d a \<and> get_generation t (a_generation a) d = Some g \<longrightarrow>
       r = Some (a_generation a) \<and> (t, i) \<notin> akey ` set (db_attempts d') \<and>
       (\<exists>g'. get_generation t (a_generation a) d' = Some g' \<and> g_state g' = GenerationState.Queued \<and>
             g_attempt_count g' = g_attempt_count g - 1) \<and>
       create_attempt t (a_generation a) w (a_pool a) key expiry new_id clk' d' = Err NotQueued)"
proof (cases "\<exists>a. rejectable t i worker now d a")
  case False
  then show ?thesis using reject_lease_outcome [OF assms, of t i worker now clk] assms by auto
next
  case True
  obtain a rs where a: "rejectable t i worker now d a"
    "reject_lease t i worker now clk d = Ok (Some (a_generation a), rejected_db t i worker now clk rs a d)"
    "a_pool a \<in> set (excluded_pools t (a_generation a) (rejected_db t i worker now clk rs a d))"
    using True reject_lease_outcome [OF assms, of t i worker now clk] by blast
  let ?d' = "rejected_db t i worker now clk rs a d"
  have keys: "distinct (map akey (db_attempts d))" using store_invD(1) [OF assms] by (simp add: inv_keys_def)
  have ad: "a \<in> set (db_attempts d)" "akey a = (t, i)" "is_live a" "agen a = (t, a_generation a)"
    using a(1) by (simp_all add: rejectable_def key_defs)
  have uniq: "b = a" if "rejectable t i worker now d b" for b
    using that atts.key_unique [OF keys _ ad(1)] ad(2) by (simp add: rejectable_def)
  have gone: "(t, i) \<notin> akey ` set (db_attempts ?d')"
  proof
    assume "(t, i) \<in> akey ` set (db_attempts ?d')"
    then obtain b where b: "akey b = (t, i)" "b \<in> set (db_attempts ?d')" by force
    then have "b \<in> set (db_attempts d)" by (simp add: rejected_db_def set_delete_where)
    then have "b = a" using atts.key_unique [OF keys _ ad(1)] b(1) ad(2) by simp
    then show False using b a(1) by (simp add: rejected_db_def set_delete_where rejectable_def)
  qed
  have gen: "\<exists>g'. get_generation t (a_generation a) ?d' = Some g' \<and> g_state g' = GenerationState.Queued \<and>
      g_attempt_count g' = g_attempt_count g - 1" if g: "get_generation t (a_generation a) d = Some g" for g
  proof -
    have gs: "g \<in> set (db_generations d)" "gkey g = agen a"
      using g ad(4) by (auto simp: get_generation_def find_Some_iff)
    have run: "g_state g = GenerationState.Running" using a(1) g by (simp add: rejectable_def)
    have "1 \<le> a_attempt_number a \<and> a_attempt_number a \<le> g_attempt_count g"
      using store_invD(4) [OF assms] ad(1) gs unfolding inv_numbers_def by auto
    moreover have "get_generation t (a_generation a) ?d' =
        map_option (\<lambda>g. if gkey g = agen a \<and> g_state g = GenerationState.Running
          then g\<lparr>g_state := GenerationState.Queued, g_attempt_count := max (g_attempt_count g - 1) 0,
                 g_updated_at := now\<rparr> else g) (get_generation t (a_generation a) d)"
      unfolding get_generation_def rejected_db_def
      using gens.lookup_update [of "\<lambda>g. gkey g = agen a \<and> g_state g = GenerationState.Running"
          "\<lambda>g. g\<lparr>g_state := GenerationState.Queued, g_attempt_count := max (g_attempt_count g - 1) 0,
                 g_updated_at := now\<rparr>" "(t, a_generation a)" d] by (simp add: gkey_def)
    ultimately show ?thesis using g gs(2) run by simp
  qed
  have refused: "create_attempt t (a_generation a) w (a_pool a) key expiry new_id clk' ?d' = Err NotQueued"
    using a(3) by (simp add: create_attempt_def split: option.split)
  show ?thesis
  proof (intro exI conjI)
    show "reject_lease t i worker now clk d = Ok (Some (a_generation a), ?d')" by (rule a(2))
    show "store_inv ?d'" by (rule inv_rejected_db [OF assms a(1)])
    show "(\<nexists>a. rejectable t i worker now d a) \<longrightarrow> Some (a_generation a) = None \<and> ?d' = d" using a(1) by blast
    show "\<forall>b g. rejectable t i worker now d b \<and> get_generation t (a_generation b) d = Some g \<longrightarrow>
       Some (a_generation a) = Some (a_generation b) \<and> (t, i) \<notin> akey ` set (db_attempts ?d') \<and>
       (\<exists>g'. get_generation t (a_generation b) ?d' = Some g' \<and> g_state g' = GenerationState.Queued \<and>
             g_attempt_count g' = g_attempt_count g - 1) \<and>
       create_attempt t (a_generation b) w (a_pool b) key expiry new_id clk' ?d' = Err NotQueued"
      using uniq gone gen refused by auto
  qed
qed

theorem lease_rejection_rolls_back_witness:
  "\<exists>r d' g'. reject_lease 7 20 1 50 example_clocks example_db = Ok (r, d') \<and>
     get_generation 7 10 d' = Some g' \<and> g_state g' = GenerationState.Queued \<and> g_attempt_count g' = 0"
proof -
  have "rejectable 7 20 1 50 example_db example_attempt \<and>
      get_generation 7 (a_generation example_attempt) example_db = Some example_generation"
    by (simp add: rejectable_def get_generation_def example_defs key_defs)
  then show ?thesis
    using lease_rejection_rolls_back [OF example_inv(1), of 7 20 1 50 example_clocks 1 "''k''" 0 5 example_clocks]
    by (fastforce simp: example_defs)
qed

text \<open>C31: A heartbeat renews exactly the listed live Attempts of the Worker whose lease has not
  lapsed by the database clock: their lease ends one lease period after that clock, every
  other Attempt is as before, and the Attempts reported as lost are exactly the listed ones
  that were not renewed.\<close>
theorem heartbeat_exact:
  assumes "store_inv d" "heartbeat t worker ids now clk d = (lost, d')" "a \<in> set (db_attempts d)"
  defines "renewed b \<equiv> a_tenant b = t \<and> a_worker b = worker \<and> a_id b \<in> set ids \<and> is_live b \<and>
      sql_clock clk < a_lease_expires_at b"
  shows "store_inv d' \<and>
    (\<exists>a' \<in> set (db_attempts d'). akey a' = akey a \<and> a_state a' = a_state a \<and>
       a_lease_expires_at a' = (if renewed a then sql_clock clk + int LEASE_TTL else a_lease_expires_at a) \<and>
       (\<not> renewed a \<longrightarrow> a' = a)) \<and>
    (\<forall>i. i \<in> set lost \<longleftrightarrow> i \<in> set ids \<and> (\<nexists>b. b \<in> set (db_attempts d) \<and> a_id b = i \<and> renewed b))"
proof (intro conjI)
  show "store_inv d'" using inv_renewals(1) [OF assms(1), of t worker ids now clk] assms(2) by simp
  let ?h = "\<lambda>a. a\<lparr>a_lease_expires_at := sql_clock clk + (lease_expiry_from now - now),
              a_last_heartbeat_at := Some (sql_clock clk)\<rparr>"
  have R: "renewed b \<longleftrightarrow> a_tenant b = t \<and> a_worker b = worker \<and> a_id b \<in> set ids \<and> is_live b \<and>
      sql_clock clk < a_lease_expires_at b" for b by (simp add: renewed_def)
  have d': "db_attempts d' = update_where renewed ?h (db_attempts d)"
  proof (cases "ids = []")
    case True
    then have "update_where renewed ?h (db_attempts d) = db_attempts d"
      by (intro update_where_none) (simp add: R)
    then show ?thesis using assms(2) True by (auto simp: heartbeat_def)
  next
    case False
    then show ?thesis using assms(2) by (auto simp: heartbeat_def Let_def R [abs_def])
  qed
  show "\<exists>a' \<in> set (db_attempts d'). akey a' = akey a \<and> a_state a' = a_state a \<and>
       a_lease_expires_at a' = (if renewed a then sql_clock clk + int LEASE_TTL else a_lease_expires_at a) \<and>
       (\<not> renewed a \<longrightarrow> a' = a)"
    unfolding d' using assms(3)
    by (intro bexI [of _ "if renewed a then ?h a else a"])
      (simp_all add: set_update_where lease_expiry_from_def akey_def)
  show "\<forall>i. i \<in> set lost \<longleftrightarrow> i \<in> set ids \<and> (\<nexists>b. b \<in> set (db_attempts d) \<and> a_id b = i \<and> renewed b)"
    using assms(2) by (auto simp: heartbeat_def Let_def R split: if_splits)
qed

theorem heartbeat_exact_witness:
  "\<exists>a' \<in> set (db_attempts (snd (heartbeat 7 1 [20, 21] 50 example_clocks example_db))).
     a_lease_expires_at a' = 50 + int LEASE_TTL"
  using heartbeat_exact [OF example_inv(1) surjective_pairing, of example_attempt 7 1 "[20, 21]" 50 example_clocks]
  by (auto simp: example_defs)

end
