(* ===== verification/Db_Artifacts.thy ===== *)
theory Db_Artifacts
  imports Db_Attempts
begin

text \<open>
  Artifacts, \<^verbatim>\<open>gpq-remote/src/db/artifacts.rs\<close>: the input rows staged before a Generation is
  created, the outputs recorded with an accepted result, the guarded state changes of the
  delivery, and the reads a Worker may make while it owns a live Attempt. The fresh identifier
  of a new row is an argument. A state change reads the current state and then compares and
  sets it, as two statements, so that a change in between is a conflict.
\<close>

section \<open>Direction names and errors\<close>

fun ArtifactDirection_as_str :: "ArtifactDirection \<Rightarrow> string" where
  "ArtifactDirection_as_str Input = ''input''"
| "ArtifactDirection_as_str Output = ''output''"

definition ArtifactDirection_all :: "ArtifactDirection list" where
  "ArtifactDirection_all = [Input, Output]"

definition ArtifactDirection_from_str :: "string \<Rightarrow> UnknownState + ArtifactDirection" where
  "ArtifactDirection_from_str s =
     (if s = ''input'' then Ok Input
      else if s = ''output'' then Ok Output
      else Err (UnknownState s))"

interpretation dir_names: stable_names ArtifactDirection_as_str ArtifactDirection_from_str
  ArtifactDirection_all
proof
  show "ArtifactDirection_from_str (ArtifactDirection_as_str x) = Ok x" for x
    by (cases x) (simp_all add: ArtifactDirection_from_str_def)
  show "x \<in> set ArtifactDirection_all" for x
    by (cases x) (simp_all add: ArtifactDirection_all_def)
qed (auto simp: ArtifactDirection_from_str_def ArtifactDirection_all_def split: if_splits)

datatype ArtifactStoreError =
    ArtifactSql sql_error
  | ArtifactTransition TransitionError
  | ArtifactNotFound
  | ArtifactConflict

section \<open>Insertion\<close>

definition artifact_size :: "u64 \<Rightarrow> sql_error + int" where
  "artifact_size n = (if uint n < 2 ^ 63 then Ok (uint n) else Err (DecodeError ''size_bytes''))"

text \<open>The constraints an inserted row meets.\<close>

definition insert_artifact :: "ArtifactRow \<Rightarrow> db \<Rightarrow> sql_error + db" where
  "insert_artifact row d =
     (if \<exists>f \<in> set (db_artifacts d). fkey f = fkey row then Err (UniqueViolation ''artifacts_pkey'')
      else if f_placement row = ArtifactPlacement.ObjectStore \<and> f_object_key row = None
      then Err (CheckViolation ''artifacts_object_key'')
      else if f_placement row = ArtifactPlacement.WorkerLocal \<and> f_worker row = None
      then Err (CheckViolation ''artifacts_worker_id'')
      else if f_placement row = ArtifactPlacement.RemoteLocal \<and> f_direction row \<noteq> Input
      then Err (CheckViolation ''artifacts_remote_local_is_input'')
      else if \<not> (case f_generation row of None \<Rightarrow> True
                  | Some g \<Rightarrow> \<exists>x \<in> set (db_generations d). gkey x = (f_tenant row, g))
      then Err (ForeignKeyViolation ''artifacts.generation_id'')
      else if \<not> (case f_attempt row of None \<Rightarrow> True
                  | Some a \<Rightarrow> \<exists>x \<in> set (db_attempts d). akey x = (f_tenant row, a))
      then Err (ForeignKeyViolation ''artifacts.attempt_id'')
      else if \<not> (case f_worker row of None \<Rightarrow> True
                  | Some w \<Rightarrow> \<exists>x \<in> set (db_workers d). wkey x = (f_tenant row, w))
      then Err (ForeignKeyViolation ''artifacts.worker_id'')
      else Ok (d\<lparr>db_artifacts := db_artifacts d @ [row]\<rparr>))"

definition get_artifact :: "TenantId \<Rightarrow> ArtifactId \<Rightarrow> db \<Rightarrow> ArtifactRow option" where
  "get_artifact t i d = find (\<lambda>f. fkey f = (t, i)) (db_artifacts d)"

definition input_row ::
  "TenantId \<Rightarrow> ArtifactId \<Rightarrow> ArtifactManifest \<Rightarrow> ArtifactPlacement \<Rightarrow> string option \<Rightarrow> int \<Rightarrow> clocks \<Rightarrow>
   ArtifactRow" where
  "input_row t i manifest placement object_key bytes_n clk =
     \<lparr>f_tenant = t, f_id = i, f_generation = None, f_attempt = None, f_direction = Input,
      f_state = ArtifactState.Pending, f_placement = placement, f_size_bytes = bytes_n,
      f_digest = am_digest manifest, f_kind = am_kind manifest, f_mime_type = am_mime_type manifest,
      f_object_key = object_key, f_worker = None, f_delivery_token = None, f_committed_offset = 0,
      f_created_at = sql_now clk, f_available_at = None,
      f_expires_at = Some (sql_now clk + int (from_hours 1)), f_terminated_at = None,
      f_content = None\<rparr>"

definition create_input ::
  "TenantId \<Rightarrow> ArtifactManifest \<Rightarrow> ArtifactPlacement \<Rightarrow> string option \<Rightarrow> ArtifactId \<Rightarrow> clocks \<Rightarrow> db \<Rightarrow>
   ArtifactRow tx" where
  "create_input t manifest placement object_key new_id clk d =
     rbind (artifact_size (am_size_bytes manifest)) (\<lambda>bytes_n.
       let row = input_row t new_id manifest placement object_key bytes_n clk
       in rbind (insert_artifact row d) (\<lambda>d1. Ok (row, d1)))"

definition create_remote_local_input ::
  "TenantId \<Rightarrow> ArtifactManifest \<Rightarrow> ArtifactId \<Rightarrow> clocks \<Rightarrow> db \<Rightarrow> (ArtifactRow \<times> datetime) tx" where
  "create_remote_local_input t manifest new_id clk d =
     rbind (artifact_size (am_size_bytes manifest)) (\<lambda>bytes_n.
       let row = input_row t new_id manifest ArtifactPlacement.RemoteLocal None bytes_n clk
       in rbind (insert_artifact row d) (\<lambda>d1.
          case get_artifact t new_id d1 of
            None \<Rightarrow> Err RowNotFound
          | Some r \<Rightarrow> Ok ((r, sql_now clk + int (from_hours 1)), d1)))"

definition unexpired :: "clocks \<Rightarrow> ArtifactRow \<Rightarrow> bool" where
  "unexpired clk f = (case f_expires_at f of Some e \<Rightarrow> e > sql_clock clk | None \<Rightarrow> False)"

definition set_remote_local_content ::
  "TenantId \<Rightarrow> ArtifactId \<Rightarrow> u8 list \<Rightarrow> clocks \<Rightarrow> db \<Rightarrow> ArtifactStoreError + ArtifactRow \<times> db" where
  "set_remote_local_content t i bytes clk d =
     (let P = (\<lambda>f. fkey f = (t, i) \<and> f_direction f = Input \<and>
                   f_placement f = ArtifactPlacement.RemoteLocal \<and>
                   f_state f = ArtifactState.Pending \<and>
                   unexpired clk f)
      in if rows_affected P (db_artifacts d) = 0
         then Err (case get_artifact t i d of None \<Rightarrow> ArtifactNotFound | Some _ \<Rightarrow> ArtifactConflict)
         else
           let d1 = d\<lparr>db_artifacts := update_where P
                 (\<lambda>f. f\<lparr>f_content := Some bytes, f_state := ArtifactState.Available,
                        f_available_at := Some (sql_now clk),
                        f_expires_at := Some (sql_now clk + int (from_hours 1))\<rparr>) (db_artifacts d)\<rparr>
           in case get_artifact t i d1 of None \<Rightarrow> Err ArtifactNotFound | Some r \<Rightarrow> Ok (r, d1))"

definition output_row ::
  "TenantId \<Rightarrow> ArtifactId \<Rightarrow> GenerationId \<Rightarrow> AttemptId \<Rightarrow> WorkerId option \<Rightarrow> ArtifactManifest \<Rightarrow>
   ArtifactPlacement \<Rightarrow> string option \<Rightarrow> string option \<Rightarrow> int \<Rightarrow> clocks \<Rightarrow> ArtifactRow" where
  "output_row t i gen attempt worker manifest placement object_key token bytes_n clk =
     \<lparr>f_tenant = t, f_id = i, f_generation = Some gen, f_attempt = Some attempt,
      f_direction = Output, f_state = ArtifactState.Available, f_placement = placement,
      f_size_bytes = bytes_n, f_digest = am_digest manifest, f_kind = am_kind manifest,
      f_mime_type = am_mime_type manifest, f_object_key = object_key, f_worker = worker,
      f_delivery_token = token, f_committed_offset = 0, f_created_at = sql_now clk,
      f_available_at = Some (sql_now clk),
      f_expires_at = Some (sql_now clk + int OUTPUT_ARTIFACT_TTL), f_terminated_at = None,
      f_content = None\<rparr>"

definition record_output ::
  "TenantId \<Rightarrow> GenerationId \<Rightarrow> AttemptId \<Rightarrow> WorkerId option \<Rightarrow> ArtifactManifest \<Rightarrow> ArtifactPlacement \<Rightarrow>
   string option \<Rightarrow> string option \<Rightarrow> ArtifactId \<Rightarrow> clocks \<Rightarrow> db \<Rightarrow> ArtifactRow tx" where
  "record_output t gen attempt worker manifest placement object_key token new_id clk d =
     rbind (artifact_size (am_size_bytes manifest)) (\<lambda>bytes_n.
       let row = output_row t new_id gen attempt worker manifest placement object_key token bytes_n clk
       in rbind (insert_artifact row d) (\<lambda>d1. Ok (row, d1)))"

section \<open>Reads\<close>

definition list_outputs :: "TenantId \<Rightarrow> GenerationId \<Rightarrow> db \<Rightarrow> ArtifactRow list" where
  "list_outputs t gen d = sort_key f_created_at
     (filter (\<lambda>f. f_tenant f = t \<and> f_generation f = Some gen \<and> f_direction f = Output) (db_artifacts d))"

definition list_inputs :: "TenantId \<Rightarrow> GenerationId \<Rightarrow> db \<Rightarrow> ArtifactRow list" where
  "list_inputs t gen d = sort_key f_created_at
     (filter (\<lambda>f. f_tenant f = t \<and> f_generation f = Some gen \<and> f_direction f = Input) (db_artifacts d))"

text \<open>The \<^verbatim>\<open>EXISTS\<close> condition of both Worker reads.\<close>

definition worker_may_read :: "AttemptId \<Rightarrow> WorkerId \<Rightarrow> clocks \<Rightarrow> db \<Rightarrow> ArtifactRow \<Rightarrow> bool" where
  "worker_may_read attempt worker clk d f \<longleftrightarrow>
     (\<exists>a \<in> set (db_attempts d). akey a = (f_tenant f, attempt) \<and>
        f_generation f = Some (a_generation a) \<and> a_worker a = worker \<and> is_live a \<and>
        a_lease_expires_at a > sql_clock clk \<and>
        (\<exists>w \<in> set (db_workers d). wkey w = aworker a \<and> w_revoked_at w = None))"

definition remote_local_chunk ::
  "TenantId \<Rightarrow> AttemptId \<Rightarrow> WorkerId \<Rightarrow> ArtifactId \<Rightarrow> u64 \<Rightarrow> u64 \<Rightarrow> clocks \<Rightarrow> db \<Rightarrow>
   sql_error + u8 list option" where
  "remote_local_chunk t attempt worker i offset max_len clk d =
     (if uint offset + 1 \<ge> 2 ^ 64 then Err (DecodeError ''remote-local input offset overflow'')
      else if uint offset + 1 \<ge> 2 ^ 31 then Err (DecodeError ''offset'')
      else if uint max_len \<ge> 2 ^ 31 then Err (DecodeError ''max_len'')
      else Ok (case find (\<lambda>f. fkey f = (t, i) \<and> f_direction f = Input \<and>
                     f_placement f = ArtifactPlacement.RemoteLocal \<and>
                     f_state f = ArtifactState.Available \<and> f_content f \<noteq> None \<and>
                     worker_may_read attempt worker clk d f) (db_artifacts d) of
                 None \<Rightarrow> None
               | Some f \<Rightarrow> map_option (\<lambda>bytes. take (unat max_len) (drop (unat offset) bytes)) (f_content f)))"

definition attempt_input ::
  "TenantId \<Rightarrow> AttemptId \<Rightarrow> WorkerId \<Rightarrow> ArtifactId \<Rightarrow> clocks \<Rightarrow> db \<Rightarrow> ArtifactRow option" where
  "attempt_input t attempt worker i clk d =
     find (\<lambda>f. fkey f = (t, i) \<and> f_direction f = Input \<and> worker_may_read attempt worker clk d f)
       (db_artifacts d)"

section \<open>State changes\<close>

text \<open>The compare-and-set statement of \<^verbatim>\<open>set_state\<close>, given the state that was read.\<close>

definition set_state_from ::
  "TenantId \<Rightarrow> ArtifactId \<Rightarrow> ArtifactState \<Rightarrow> ArtifactState \<Rightarrow> clocks \<Rightarrow> db \<Rightarrow>
   ArtifactStoreError + ArtifactRow \<times> db" where
  "set_state_from t i from to clk d =
     (let P = (\<lambda>f. fkey f = (t, i) \<and> f_state f = from);
          terminal = ArtifactState_is_terminal to;
          d1 = d\<lparr>db_artifacts := update_where P
            (\<lambda>f. f\<lparr>f_state := to,
                   f_available_at := (if to = ArtifactState.Available then Some (sql_now clk) else f_available_at f),
                   f_terminated_at := (if terminal then Some (sql_now clk) else f_terminated_at f),
                   f_content := (if terminal then None else f_content f)\<rparr>) (db_artifacts d)\<rparr>
      in if rows_affected P (db_artifacts d) = 0 then Err ArtifactConflict
         else case get_artifact t i d1 of None \<Rightarrow> Err ArtifactNotFound | Some r \<Rightarrow> Ok (r, d1))"

definition set_state ::
  "TenantId \<Rightarrow> ArtifactId \<Rightarrow> ArtifactState \<Rightarrow> clocks \<Rightarrow> db \<Rightarrow> ArtifactStoreError + ArtifactRow \<times> db" where
  "set_state t i to clk d =
     (case get_artifact t i d of
        None \<Rightarrow> Err ArtifactNotFound
      | Some row \<Rightarrow>
          rbind (map_err ArtifactTransition (ArtifactState_transition (f_state row) to)) (\<lambda>_.
            set_state_from t i (f_state row) to clk d))"

definition begin_delivery :: "TenantId \<Rightarrow> ArtifactId \<Rightarrow> clocks \<Rightarrow> db \<Rightarrow> bool \<times> db" where
  "begin_delivery t i clk d =
     (let P = (\<lambda>f. fkey f = (t, i) \<and> f_state f = ArtifactState.Available \<and>
                   unexpired clk f)
      in (rows_affected P (db_artifacts d) = 1,
          d\<lparr>db_artifacts := update_where P (\<lambda>f. f\<lparr>f_state := ArtifactState.Delivering\<rparr>) (db_artifacts d)\<rparr>))"

definition delivery_expired :: "TenantId \<Rightarrow> ArtifactId \<Rightarrow> clocks \<Rightarrow> db \<Rightarrow> bool" where
  "delivery_expired t i clk d \<longleftrightarrow>
     (\<exists>f \<in> set (db_artifacts d). fkey f = (t, i) \<and> f_state f = ArtifactState.Available \<and>
        (case f_expires_at f of None \<Rightarrow> True | Some e \<Rightarrow> e \<le> sql_clock clk))"

definition commit_offset :: "TenantId \<Rightarrow> ArtifactId \<Rightarrow> u64 \<Rightarrow> db \<Rightarrow> unit tx" where
  "commit_offset t i offset d =
     (if uint offset \<ge> 2 ^ 63 then Err (DecodeError ''offset'')
      else Ok ((), d\<lparr>db_artifacts := update_where
             (\<lambda>f. fkey f = (t, i) \<and> f_state f = ArtifactState.Delivering \<and> f_committed_offset f < uint offset)
             (\<lambda>f. f\<lparr>f_committed_offset := uint offset\<rparr>) (db_artifacts d)\<rparr>))"

definition mark_consumed :: "TenantId \<Rightarrow> ArtifactId \<Rightarrow> clocks \<Rightarrow> db \<Rightarrow> ArtifactStoreError + unit \<times> db" where
  "mark_consumed t i clk d = rbind (set_state t i ArtifactState.Consumed clk d) (\<lambda>(_, d1). Ok ((), d1))"

definition mark_lost :: "TenantId \<Rightarrow> ArtifactId \<Rightarrow> clocks \<Rightarrow> db \<Rightarrow> ArtifactStoreError + unit \<times> db" where
  "mark_lost t i clk d = rbind (set_state t i ArtifactState.Lost clk d) (\<lambda>(_, d1). Ok ((), d1))"

definition delete_inputs_for_generation ::
  "TenantId \<Rightarrow> GenerationId \<Rightarrow> db \<Rightarrow> ArtifactRow list \<times> db" where
  "delete_inputs_for_generation t gen d =
     (let P = (\<lambda>f. f_tenant f = t \<and> f_generation f = Some gen \<and> f_direction f = Input)
      in (filter P (db_artifacts d), d\<lparr>db_artifacts := delete_where P (db_artifacts d)\<rparr>))"

text \<open>Row-level security limits the statement to the rows of the transaction's Tenant.\<close>

definition expire_due :: "TenantId \<Rightarrow> datetime \<Rightarrow> db \<Rightarrow> ArtifactRow list \<times> db" where
  "expire_due t now d =
     (let P = (\<lambda>f. f_tenant f = t \<and> f_state f \<in> {ArtifactState.Pending, ArtifactState.Available} \<and>
                   (case f_expires_at f of Some e \<Rightarrow> e \<le> now | None \<Rightarrow> False));
          u = (\<lambda>f. f\<lparr>f_state := ArtifactState.Expired, f_terminated_at := Some now, f_content := None\<rparr>)
      in (map u (filter P (db_artifacts d)),
          d\<lparr>db_artifacts := update_where P u (db_artifacts d)\<rparr>))"

section \<open>Lemmas on the invariant and the lifecycle\<close>

lemma inv_artifacts:
  assumes inv: "store_inv d" and keys: "distinct (map fkey fs)"
    and owner: "\<And>f i. f \<in> set fs \<Longrightarrow> f_attempt f = Some i \<Longrightarrow>
      (\<exists>x \<in> set (db_artifacts d). f_tenant x = f_tenant f \<and> f_attempt x = Some i) \<or>
      (\<exists>a \<in> set (db_attempts d). akey a = (f_tenant f, i) \<and> a_state a = AttemptState.Succeeded)"
  shows "store_inv (d\<lparr>db_artifacts := fs\<rparr>)"
proof -
  have "\<exists>a \<in> set (db_attempts d). akey a = (f_tenant f, i) \<and> a_state a = AttemptState.Succeeded"
    if "f \<in> set fs" "f_attempt f = Some i" for f i
    using owner [OF that] store_invD(6) [OF inv] unfolding inv_outputs_def by metis
  then show ?thesis using inv keys by (auto simp: store_inv_def inv_defs)
qed

text \<open>A guarded update of the rows of one Tenant that follows the lifecycle.\<close>

lemma artifacts_update:
  assumes inv: "store_inv d"
    and u: "\<And>f. P f \<Longrightarrow> art_step f (u f) \<and> fkey (u f) = fkey f \<and> f_attempt (u f) = f_attempt f"
    and tenant: "\<And>f. P f \<Longrightarrow> f_tenant f = t"
  shows "store_inv (d\<lparr>db_artifacts := update_where P u (db_artifacts d)\<rparr>)"
    "evolves t d (d\<lparr>db_artifacts := update_where P u (db_artifacts d)\<rparr>)"
proof -
  show "store_inv (d\<lparr>db_artifacts := update_where P u (db_artifacts d)\<rparr>)"
  proof (rule inv_artifacts [OF inv])
    have "map fkey (update_where P u (db_artifacts d)) = map fkey (db_artifacts d)"
      using u by (intro map_update_where) blast
    then show "distinct (map fkey (update_where P u (db_artifacts d)))"
      using store_invD(1) [OF inv] by (simp add: inv_keys_def)
    fix f i assume "f \<in> set (update_where P u (db_artifacts d))" and i: "f_attempt f = Some i"
    then obtain x where x: "x \<in> set (db_artifacts d)" "f = (if P x then u x else x)"
      by (auto simp: set_update_where)
    then have "f_tenant x = f_tenant f \<and> f_attempt x = f_attempt f"
      using u [of x] by (auto simp: fkey_def)
    then show "(\<exists>x \<in> set (db_artifacts d). f_tenant x = f_tenant f \<and> f_attempt x = Some i) \<or>
      (\<exists>a \<in> set (db_attempts d). akey a = (f_tenant f, i) \<and> a_state a = AttemptState.Succeeded)"
      using x(1) i by auto
  qed
  show "evolves t d (d\<lparr>db_artifacts := update_where P u (db_artifacts d)\<rparr>)"
    using u tenant by (intro evolves_artifacts [OF store_invD(1) [OF inv]]) blast+
qed

lemma insert_artifact_Ok:
  assumes "insert_artifact row d = Ok d'"
  shows "d' = d\<lparr>db_artifacts := db_artifacts d @ [row]\<rparr>" "fkey row \<notin> fkey ` set (db_artifacts d)"
  using assms by (auto simp: insert_artifact_def split: if_splits)

lemma artifacts_insert:
  assumes inv: "store_inv d" and ok: "insert_artifact row d = Ok d'"
    and owner: "\<And>i. f_attempt row = Some i \<Longrightarrow>
      \<exists>a \<in> set (db_attempts d). akey a = (f_tenant row, i) \<and> a_state a = AttemptState.Succeeded"
  shows "store_inv d'" "evolves (f_tenant row) d d'"
proof -
  note row = insert_artifact_Ok [OF ok]
  show "store_inv d'"
    unfolding row(1)
    by (rule inv_artifacts [OF inv]) (use store_invD(1) [OF inv] row(2) owner in \<open>auto simp: inv_keys_def\<close>)
  show "evolves (f_tenant row) d d'"
    unfolding row(1)
    by (rule evolves_artifacts_from [OF store_invD(1) [OF inv]]) (use row(2) in auto)
qed

lemma inputs_deleted:
  assumes inv: "store_inv d"
  shows "store_inv (snd (delete_inputs_for_generation t gen d))"
    "evolves t d (snd (delete_inputs_for_generation t gen d))"
proof -
  show "store_inv (snd (delete_inputs_for_generation t gen d))"
    unfolding delete_inputs_for_generation_def Let_def snd_conv
    by (rule inv_artifacts [OF inv])
      (use store_invD(1) [OF inv] in \<open>auto simp: inv_keys_def set_delete_where intro!: distinct_delete_where\<close>)
  show "evolves t d (snd (delete_inputs_for_generation t gen d))"
    unfolding delete_inputs_for_generation_def Let_def snd_conv
    by (rule evolves_artifacts_from [OF store_invD(1) [OF inv]])
      (auto simp: set_delete_where intro!: filter_delete_where)
qed

lemma create_input_sound:
  assumes inv: "store_inv d"
  shows "create_input t m placement key i clk d = Ok (r, d') \<Longrightarrow> store_inv d' \<and> evolves t d d'"
    "create_remote_local_input t m i clk d = Ok (x, d') \<Longrightarrow> store_inv d' \<and> evolves t d d'"
proof -
  have sound: "store_inv d1 \<and> evolves t d d1"
    if "insert_artifact (input_row t i m p k n clk) d = Ok d1" for p k n d1
    using artifacts_insert [OF inv that] by (simp add: input_row_def)
  show "create_input t m placement key i clk d = Ok (r, d') \<Longrightarrow> store_inv d' \<and> evolves t d d'"
    by (auto simp: create_input_def rbind_eq_Ok Let_def dest: sound)
  show "create_remote_local_input t m i clk d = Ok (x, d') \<Longrightarrow> store_inv d' \<and> evolves t d d'"
    by (auto simp: create_remote_local_input_def rbind_eq_Ok Let_def dest: sound split: option.splits)
qed

lemma record_output_sound:
  assumes inv: "store_inv d" and ok: "record_output t gen a w m p k tok i clk d = Ok (r, d')"
    and a: "\<exists>x \<in> set (db_attempts d). akey x = (t, a) \<and> a_state x = AttemptState.Succeeded"
  shows "store_inv d'" "evolves t d d'"
    and "d' = d\<lparr>db_artifacts := db_artifacts d @ [r]\<rparr>" "f_generation r = Some gen" "f_tenant r = t"
    "f_direction r = Output"
proof -
  obtain n where n: "insert_artifact (output_row t i gen a w m p k tok n clk) d = Ok d'"
    "r = output_row t i gen a w m p k tok n clk"
    using ok by (auto simp: record_output_def rbind_eq_Ok Let_def)
  have row: "f_tenant (output_row t i gen a w m p k tok n clk) = t"
    "f_attempt (output_row t i gen a w m p k tok n clk) = Some a" by (simp_all add: output_row_def)
  have owner: "\<exists>x \<in> set (db_attempts d). akey x = (f_tenant (output_row t i gen a w m p k tok n clk), j) \<and>
      a_state x = AttemptState.Succeeded"
    if "f_attempt (output_row t i gen a w m p k tok n clk) = Some j" for j
    using that a by (simp add: output_row_def)
  show "store_inv d'" "evolves t d d'"
    using artifacts_insert [OF inv n(1) owner] by (simp_all add: row)
  show "d' = d\<lparr>db_artifacts := db_artifacts d @ [r]\<rparr>" using insert_artifact_Ok(1) [OF n(1)] n(2) by simp
  show "f_generation r = Some gen" "f_tenant r = t" "f_direction r = Output"
    by (simp_all add: n(2) output_row_def)
qed

lemma set_state_from_sound:
  assumes inv: "store_inv d" and edge: "ArtifactState_can_transition_to from to"
    and ok: "set_state_from t i from to clk d = Ok (r, d')"
  shows "store_inv d'" "evolves t d d'"
proof -
  let ?u = "\<lambda>f. f\<lparr>f_state := to,
      f_available_at := (if to = ArtifactState.Available then Some (sql_now clk) else f_available_at f),
      f_terminated_at := (if ArtifactState_is_terminal to then Some (sql_now clk) else f_terminated_at f),
      f_content := (if ArtifactState_is_terminal to then None else f_content f)\<rparr>"
  have d': "d' = d\<lparr>db_artifacts := update_where (\<lambda>f. fkey f = (t, i) \<and> f_state f = from) ?u (db_artifacts d)\<rparr>"
    using ok by (auto simp: set_state_from_def Let_def split: if_splits option.splits)
  show "store_inv d'" "evolves t d d'"
    unfolding d' by (rule artifacts_update [OF inv];
        use edge in \<open>auto simp: art_step_def fkey_def intro!: r_into_rtranclp\<close>)+
qed

lemma set_state_sound:
  assumes inv: "store_inv d" and ok: "set_state t i to clk d = Ok (r, d')"
  shows "store_inv d'" "evolves t d d'"
proof -
  obtain row where row: "get_artifact t i d = Some row"
    using ok by (cases "get_artifact t i d") (auto simp: set_state_def)
  have "ArtifactState_can_transition_to (f_state row) to"
    "set_state_from t i (f_state row) to clk d = Ok (r, d')"
    using ok row by (simp_all add: set_state_def ArtifactState_transition_def split: if_splits)
  then show "store_inv d'" "evolves t d d'" using set_state_from_sound [OF inv] by blast+
qed

lemma delivery_steps_sound:
  assumes inv: "store_inv d"
  shows "store_inv (snd (begin_delivery t i clk d)) \<and> evolves t d (snd (begin_delivery t i clk d))"
    "commit_offset t i offset d = Ok (x, d') \<Longrightarrow> store_inv d' \<and> evolves t d d'"
    "store_inv (snd (expire_due t now d)) \<and> evolves t d (snd (expire_due t now d))"
    "set_remote_local_content t i bytes clk d = Ok (r, d') \<Longrightarrow> store_inv d' \<and> evolves t d d'"
    "mark_consumed t i clk d = Ok (x, d') \<Longrightarrow> store_inv d' \<and> evolves t d d'"
    "mark_lost t i clk d = Ok (x, d') \<Longrightarrow> store_inv d' \<and> evolves t d d'"
proof -
  show "store_inv (snd (begin_delivery t i clk d)) \<and> evolves t d (snd (begin_delivery t i clk d))"
    unfolding begin_delivery_def Let_def snd_conv
    by (intro conjI artifacts_update [OF inv]) (auto simp: art_step_def fkey_def intro!: r_into_rtranclp)
  show "store_inv d' \<and> evolves t d d'" if "commit_offset t i offset d = Ok (x, d')"
  proof -
    have "d' = d\<lparr>db_artifacts := update_where
             (\<lambda>f. fkey f = (t, i) \<and> f_state f = ArtifactState.Delivering \<and> f_committed_offset f < uint offset)
             (\<lambda>f. f\<lparr>f_committed_offset := uint offset\<rparr>) (db_artifacts d)\<rparr>"
      using that by (simp add: commit_offset_def split: if_splits)
    then show ?thesis
      by (simp only:) (intro conjI artifacts_update [OF inv]; auto simp: art_step_def fkey_def)
  qed
  show "store_inv (snd (expire_due t now d)) \<and> evolves t d (snd (expire_due t now d))"
    unfolding expire_due_def Let_def snd_conv
    by (intro conjI artifacts_update [OF inv]) (auto simp: art_step_def fkey_def intro!: r_into_rtranclp)
  show "store_inv d' \<and> evolves t d d'" if "set_remote_local_content t i bytes clk d = Ok (r, d')"
  proof -
    have "d' = d\<lparr>db_artifacts := update_where
        (\<lambda>f. fkey f = (t, i) \<and> f_direction f = Input \<and> f_placement f = ArtifactPlacement.RemoteLocal \<and>
             f_state f = ArtifactState.Pending \<and>
             unexpired clk f)
        (\<lambda>f. f\<lparr>f_content := Some bytes, f_state := ArtifactState.Available,
               f_available_at := Some (sql_now clk),
               f_expires_at := Some (sql_now clk + int (from_hours 1))\<rparr>) (db_artifacts d)\<rparr>"
      using that by (auto simp: set_remote_local_content_def Let_def split: if_splits option.splits)
    then show ?thesis
      by (simp only:) (intro conjI artifacts_update [OF inv];
          auto simp: art_step_def fkey_def intro!: r_into_rtranclp)
  qed
  show "mark_consumed t i clk d = Ok (x, d') \<Longrightarrow> store_inv d' \<and> evolves t d d'"
    "mark_lost t i clk d = Ok (x, d') \<Longrightarrow> store_inv d' \<and> evolves t d d'"
    by (auto simp: mark_consumed_def mark_lost_def rbind_eq_Ok dest: set_state_sound [OF inv])
qed

lemma get_artifact_update:
  assumes "\<And>f. P f \<Longrightarrow> fkey (u f) = fkey f"
  shows "get_artifact t i (d\<lparr>db_artifacts := update_where P u (db_artifacts d)\<rparr>) =
    map_option (\<lambda>f. if P f then u f else f) (get_artifact t i d)"
  unfolding get_artifact_def using arts.lookup_update [of P u "(t, i)" d] assms by simp

lemma get_artifact_key: "get_artifact t i d = Some f \<Longrightarrow> f \<in> set (db_artifacts d) \<and> fkey f = (t, i)"
  unfolding get_artifact_def by (rule arts.lookup_SomeD)

lemma artifact_affected:
  assumes "store_inv d"
  shows "rows_affected (\<lambda>f. fkey f = (t, i) \<and> Q f) (db_artifacts d) = 1 \<longleftrightarrow>
      (\<exists>f. get_artifact t i d = Some f \<and> Q f)"
    "rows_affected (\<lambda>f. fkey f = (t, i) \<and> Q f) (db_artifacts d) = 0 \<longleftrightarrow>
      \<not> (\<exists>f. get_artifact t i d = Some f \<and> Q f)"
proof -
  have keys: "distinct (map fkey (db_artifacts d))" using store_invD(1) [OF assms] by (simp add: inv_keys_def)
  note one = arts.affected_one [OF keys, of "\<lambda>f. fkey f = (t, i) \<and> Q f" "(t, i)"]
  have look: "get_artifact t i d = Some f \<longleftrightarrow> f \<in> set (db_artifacts d) \<and> fkey f = (t, i)" for f
    unfolding get_artifact_def by (rule arts.lookup_Some_iff [OF keys])
  show "rows_affected (\<lambda>f. fkey f = (t, i) \<and> Q f) (db_artifacts d) = 1 \<longleftrightarrow>
      (\<exists>f. get_artifact t i d = Some f \<and> Q f)"
    using one(1) look by (auto simp: get_artifact_def)
  show "rows_affected (\<lambda>f. fkey f = (t, i) \<and> Q f) (db_artifacts d) = 0 \<longleftrightarrow>
      \<not> (\<exists>f. get_artifact t i d = Some f \<and> Q f)"
    unfolding rows_affected_0 using look by auto
qed

lemma set_state_edge:
  assumes inv: "store_inv d" and row: "get_artifact t i d = Some row"
    and edge: "ArtifactState_can_transition_to (f_state row) to"
  shows "\<exists>r d'. set_state t i to clk d = Ok (r, d') \<and> store_inv d' \<and> get_artifact t i d' = Some r \<and>
    f_state r = to \<and> f_content r = (if ArtifactState_is_terminal to then None else f_content row)"
proof -
  let ?u = "\<lambda>f. f\<lparr>f_state := to,
      f_available_at := (if to = ArtifactState.Available then Some (sql_now clk) else f_available_at f),
      f_terminated_at := (if ArtifactState_is_terminal to then Some (sql_now clk) else f_terminated_at f),
      f_content := (if ArtifactState_is_terminal to then None else f_content f)\<rparr>"
  let ?d' = "d\<lparr>db_artifacts := update_where (\<lambda>f. fkey f = (t, i) \<and> f_state f = f_state row) ?u (db_artifacts d)\<rparr>"
  have get: "get_artifact t i ?d' = Some (?u row)"
    using get_artifact_update [of "\<lambda>f. fkey f = (t, i) \<and> f_state f = f_state row" ?u t i d]
      row get_artifact_key [OF row] by (simp add: fkey_def)
  then have ok: "set_state t i to clk d = Ok (?u row, ?d')"
    using row edge artifact_affected(2) [OF inv, of t i "\<lambda>f. f_state f = f_state row"]
    by (simp add: set_state_def ArtifactState_transition_def set_state_from_def Let_def)
  have "store_inv ?d'" by (rule set_state_sound(1) [OF inv ok])
  then show ?thesis using ok get by (intro exI [of _ "?u row"] exI [of _ ?d']) simp
qed

lemma delivering_stays:
  "ArtifactState_can_transition_to\<^sup>*\<^sup>* ArtifactState.Delivering s \<Longrightarrow> s \<noteq> ArtifactState.Available"
  "ArtifactState_can_transition_to\<^sup>*\<^sup>* ArtifactState.Delivering s \<Longrightarrow> s \<noteq> ArtifactState.Pending"
proof -
  have "ArtifactState_can_transition_to\<^sup>*\<^sup>* ArtifactState.Delivering s \<Longrightarrow>
      s \<notin> {ArtifactState.Available, ArtifactState.Pending}"
  proof (induction rule: rtranclp_induct)
    case (step y z)
    then show ?case by (cases y) auto
  qed simp
  then show "ArtifactState_can_transition_to\<^sup>*\<^sup>* ArtifactState.Delivering s \<Longrightarrow> s \<noteq> ArtifactState.Available"
    "ArtifactState_can_transition_to\<^sup>*\<^sup>* ArtifactState.Delivering s \<Longrightarrow> s \<noteq> ArtifactState.Pending" by simp_all
qed

definition example_output :: ArtifactRow where
  "example_output = output_row 7 30 10 20 (Some 1)
     \<lparr>am_size_bytes = 5, am_digest = example_version, am_kind = MediaKind.Image, am_mime_type = ''image/png''\<rparr>
     ArtifactPlacement.WorkerLocal None (Some ''token'') 5 example_clocks"

definition example_delivery_db :: db where
  "example_delivery_db = example_db\<lparr>db_artifacts := [example_output],
     db_pools := [example_pool\<lparr>p_claimed_slots := 0\<rparr>],
     db_attempts := [example_attempt\<lparr>a_state := AttemptState.Succeeded\<rparr>],
     db_generations := [example_generation\<lparr>g_state := GenerationState.Succeeded, g_accepted_attempt := Some 20\<rparr>]\<rparr>"

lemma example_delivery_inv: "store_inv example_delivery_db"
  by (simp add: store_inv_def inv_defs example_delivery_db_def example_defs example_output_def
      output_row_def key_defs live_count_def AttemptState_is_live_def)

lemma example_delivery_get: "get_artifact 7 30 example_delivery_db = Some example_output"
  by (simp add: get_artifact_def example_delivery_db_def example_output_def output_row_def fkey_def)

section \<open>Properties\<close>

text \<open>An Artifact's state changes only along its lifecycle. A change is refused for a missing
  Artifact and, with the two state names, for an illegal edge; a legal one sets the state,
  drops stored bytes exactly when it is terminal and returns the updated row. When the state
  differs from the one that was read, the change is a conflict.\<close>
theorem artifact_state_change_exact:
  assumes "store_inv d"
  shows "(get_artifact t i d = None \<longrightarrow> set_state t i to clk d = Err ArtifactNotFound) \<and>
    (\<forall>row. get_artifact t i d = Some row \<longrightarrow>
       (\<not> ArtifactState_can_transition_to (f_state row) to \<longrightarrow>
          set_state t i to clk d = Err (ArtifactTransition (TransitionError
            (ArtifactState_as_str (f_state row)) (ArtifactState_as_str to)))) \<and>
       (ArtifactState_can_transition_to (f_state row) to \<longrightarrow>
          (\<exists>r d'. set_state t i to clk d = Ok (r, d') \<and> store_inv d' \<and> get_artifact t i d' = Some r \<and>
             f_state r = to \<and>
             f_content r = (if ArtifactState_is_terminal to then None else f_content row))) \<and>
       (\<forall>from. from \<noteq> f_state row \<longrightarrow> set_state_from t i from to clk d = Err ArtifactConflict))"
proof (intro conjI allI impI)
  show "get_artifact t i d = None \<Longrightarrow> set_state t i to clk d = Err ArtifactNotFound"
    by (simp add: set_state_def)
  fix row assume row: "get_artifact t i d = Some row"
  show "set_state t i to clk d = Err (ArtifactTransition (TransitionError
            (ArtifactState_as_str (f_state row)) (ArtifactState_as_str to)))"
    if "\<not> ArtifactState_can_transition_to (f_state row) to"
    using that row by (simp add: set_state_def ArtifactState_transition_def)
  show "set_state_from t i from to clk d = Err ArtifactConflict" if "from \<noteq> f_state row" for "from"
    using that row artifact_affected(2) [OF assms, of t i "\<lambda>f. f_state f = from"]
    by (simp add: set_state_from_def)
  assume "ArtifactState_can_transition_to (f_state row) to"
  then show "\<exists>r d'. set_state t i to clk d = Ok (r, d') \<and> store_inv d' \<and> get_artifact t i d' = Some r \<and>
             f_state r = to \<and> f_content r = (if ArtifactState_is_terminal to then None else f_content row)"
    by (rule set_state_edge [OF assms row])
qed

theorem artifact_state_change_exact_witness:
  "set_state 7 30 ArtifactState.Consumed example_clocks example_delivery_db =
     Err (ArtifactTransition (TransitionError ''available'' ''consumed''))"
  using artifact_state_change_exact [OF example_delivery_inv, of 7 30 ArtifactState.Consumed example_clocks]
    example_delivery_get by (simp add: example_output_def output_row_def)



text \<open>The committed offset of a delivery never regresses: committing an offset is refused
  exactly when it exceeds the 63-bit range of the column, and otherwise leaves the larger of
  the stored and the committed offset on an Artifact being delivered and any other Artifact as
  it was.\<close>
theorem committed_offset_monotone:
  "(commit_offset t i offset d = Err (DecodeError ''offset'') \<longleftrightarrow> 2 ^ 63 \<le> uint offset) \<and>
   (\<forall>d' j. commit_offset t i offset d = Ok ((), d') \<longrightarrow>
      get_artifact t j d' = map_option
        (\<lambda>f. if j = i \<and> f_state f = ArtifactState.Delivering
             then f\<lparr>f_committed_offset := max (f_committed_offset f) (uint offset)\<rparr> else f) (get_artifact t j d))"
proof (intro conjI allI impI)
  show "commit_offset t i offset d = Err (DecodeError ''offset'') \<longleftrightarrow> 2 ^ 63 \<le> uint offset"
    by (simp add: commit_offset_def)
  fix d' j assume ok: "commit_offset t i offset d = Ok ((), d')"
  let ?P = "\<lambda>f. fkey f = (t, i) \<and> f_state f = ArtifactState.Delivering \<and> f_committed_offset f < uint offset"
  have "d' = d\<lparr>db_artifacts := update_where ?P (\<lambda>f. f\<lparr>f_committed_offset := uint offset\<rparr>) (db_artifacts d)\<rparr>"
    using ok by (simp add: commit_offset_def split: if_splits)
  then have look: "get_artifact t j d' =
      map_option (\<lambda>f. if ?P f then f\<lparr>f_committed_offset := uint offset\<rparr> else f) (get_artifact t j d)"
    using get_artifact_update [of ?P "\<lambda>f. f\<lparr>f_committed_offset := uint offset\<rparr>" t j d]
    by (simp add: fkey_def)
  show "get_artifact t j d' = map_option
        (\<lambda>f. if j = i \<and> f_state f = ArtifactState.Delivering
             then f\<lparr>f_committed_offset := max (f_committed_offset f) (uint offset)\<rparr> else f) (get_artifact t j d)"
  proof (cases "get_artifact t j d")
    case (Some f)
    then have "fkey f = (t, j)" using get_artifact_key by blast
    then show ?thesis unfolding look Some by (auto simp: max_def)
  qed (simp add: look)
qed

theorem committed_offset_monotone_witness:
  "commit_offset 7 30 (2 ^ 63) example_delivery_db = Err (DecodeError ''offset'')"
  using committed_offset_monotone [of 7 30 "2 ^ 63" example_delivery_db] by simp



end
