(* ===== verification/Db_Events.thy ===== *)
theory Db_Events
  imports Db_Artifacts
begin

text \<open>
  The Generation event log, \<^verbatim>\<open>gpq-remote/src/db/events.rs\<close>: appending with the next sequence
  number of the Generation, and the replay reads. The random row identifier is an argument, and
  so is the JSON text of the audit payload, which \<^verbatim>\<open>serde_json\<close> builds.
\<close>

section \<open>Operations\<close>

fun EventKind_as_str :: "EventKind \<Rightarrow> string" where
  "EventKind_as_str StateChanged = ''state_changed''"
| "EventKind_as_str Progress = ''progress''"
| "EventKind_as_str AttemptCreated = ''attempt_created''"

definition events_of :: "TenantId \<Rightarrow> GenerationId \<Rightarrow> db \<Rightarrow> event_row list" where
  "events_of t gen d = filter (\<lambda>e. e_tenant e = t \<and> e_generation e = gen) (db_events d)"

definition next_sequence :: "TenantId \<Rightarrow> GenerationId \<Rightarrow> db \<Rightarrow> int" where
  "next_sequence t gen d = fold (\<lambda>e m. max (e_sequence e) m) (events_of t gen d) 0 + 1"

definition append_event ::
  "TenantId \<Rightarrow> GenerationId \<Rightarrow> EventKind \<Rightarrow> json \<Rightarrow> uuid \<Rightarrow> clocks \<Rightarrow> db \<Rightarrow> int tx" where
  "append_event t gen kind payload new_id clk d =
     (let seq = next_sequence t gen d in
      if \<exists>e \<in> set (db_events d). e_tenant e = t \<and> e_id e = new_id
      then Err (UniqueViolation ''generation_events_pkey'')
      else if \<exists>e \<in> set (events_of t gen d). e_sequence e = seq
      then Err (UniqueViolation ''generation_events.sequence'')
      else if \<not> (\<exists>g \<in> set (db_generations d). gkey g = (t, gen))
      then Err (ForeignKeyViolation ''generation_events.generation_id'')
      else Ok (seq, d\<lparr>db_events := db_events d @
        [\<lparr>e_tenant = t, e_id = new_id, e_generation = gen, e_sequence = seq, e_kind = kind,
          e_payload = payload, e_created_at = sql_now clk\<rparr>]\<rparr>))"

definition append_attempt_created ::
  "(AttemptId \<Rightarrow> int \<Rightarrow> WorkerId \<Rightarrow> DevicePoolId \<Rightarrow> json) \<Rightarrow> TenantId \<Rightarrow> GenerationId \<Rightarrow> AttemptId \<Rightarrow> int \<Rightarrow>
   WorkerId \<Rightarrow> DevicePoolId \<Rightarrow> uuid \<Rightarrow> clocks \<Rightarrow> db \<Rightarrow> int tx" where
  "append_attempt_created audit t gen attempt number worker pool new_id clk d =
     append_event t gen AttemptCreated (audit attempt number worker pool) new_id clk d"

definition load_since :: "TenantId \<Rightarrow> GenerationId \<Rightarrow> int \<Rightarrow> db \<Rightarrow> event_row list" where
  "load_since t gen after_sequence d =
     sort_key e_sequence (filter (\<lambda>e. e_sequence e > after_sequence) (events_of t gen d))"

definition latest_event :: "TenantId \<Rightarrow> GenerationId \<Rightarrow> db \<Rightarrow> event_row option" where
  "latest_event t gen d =
     (case rev (sort_key e_sequence (events_of t gen d)) of [] \<Rightarrow> None | e # _ \<Rightarrow> Some e)"

section \<open>The log invariant\<close>

text \<open>The events of a Generation are numbered from one in the order they were appended.\<close>

definition inv_events :: "db \<Rightarrow> bool" where
  "inv_events d \<longleftrightarrow> (\<forall>t gen. map e_sequence (events_of t gen d) = [1..int (length (events_of t gen d))])"

lemma fold_max_upto: "fold (\<lambda>e m. max (k e) m) es (0::int) = int n" if "map k es = [1..int n]"
proof -
  have "fold (\<lambda>e m. max (k e) m) es m0 = fold max (map k es) m0" for m0 :: int
    by (induction es arbitrary: m0) simp_all
  moreover have "fold max [1..int n] m0 = max m0 (if n = 0 then m0 else int n)" for m0 :: int
  proof (induction n arbitrary: m0)
    case (Suc n)
    have "[1..int (Suc n)] = [1..int n] @ [int (Suc n)]" by (simp add: upto_rec2)
    then show ?case using Suc by (simp add: max_def)
  qed simp
  ultimately show ?thesis using that by simp
qed

lemma next_sequence_eq:
  assumes "inv_events d"
  shows "next_sequence t gen d = int (length (events_of t gen d)) + 1"
  using fold_max_upto [of e_sequence "events_of t gen d"] assms
  by (simp add: next_sequence_def inv_events_def)

lemma append_event_Ok:
  assumes "append_event t gen kind payload i clk d = Ok (seq, d')"
  obtains e where "d' = d\<lparr>db_events := db_events d @ [e]\<rparr>" "seq = next_sequence t gen d"
    "e_tenant e = t" "e_generation e = gen" "e_sequence e = seq" "e_kind e = kind" "e_payload e = payload"
  using assms by (auto simp: append_event_def Let_def split: if_splits)

lemma events_of_append:
  "events_of t gen (d\<lparr>db_events := db_events d @ [e]\<rparr>) =
     events_of t gen d @ (if e_tenant e = t \<and> e_generation e = gen then [e] else [])"
  by (simp add: events_of_def)

lemma inv_append_event:
  assumes "inv_events d" "append_event t gen kind payload i clk d = Ok (seq, d')"
  shows "inv_events d'"
proof -
  obtain e where e: "d' = d\<lparr>db_events := db_events d @ [e]\<rparr>" "e_tenant e = t" "e_generation e = gen"
    "e_sequence e = next_sequence t gen d" using assms(2) by (elim append_event_Ok) simp
  show ?thesis
    unfolding inv_events_def e(1) events_of_append
  proof (intro allI)
    fix t' gen'
    have old: "map e_sequence (events_of t' gen' d) = [1..int (length (events_of t' gen' d))]"
      using assms(1) by (simp add: inv_events_def)
    show "map e_sequence (events_of t' gen' d @ (if e_tenant e = t' \<and> e_generation e = gen' then [e] else [])) =
        [1..int (length (events_of t' gen' d @ (if e_tenant e = t' \<and> e_generation e = gen' then [e] else [])))]"
      using old e(2-4) next_sequence_eq [OF assms(1), of t gen]
      by (auto simp: upto_rec2 add.commute)
  qed
qed

lemma append_event_sound:
  assumes "store_inv d" "append_event t gen kind payload i clk d = Ok (seq, d')"
  shows "store_inv d'" "evolves t d d'" "db_generations d' = db_generations d"
    "db_attempts d' = db_attempts d" "db_artifacts d' = db_artifacts d"
proof -
  obtain e where e: "d' = d\<lparr>db_events := db_events d @ [e]\<rparr>" "e_tenant e = t"
    using assms(2) by (elim append_event_Ok) simp
  show "store_inv d'" using assms(1) by (simp add: e(1))
  show "evolves t d d'"
    unfolding e(1) by (rule evolves_same [OF store_invD(1) [OF assms(1)]]) (simp_all add: others_def e(2))
  show "db_generations d' = db_generations d" "db_attempts d' = db_attempts d"
    "db_artifacts d' = db_artifacts d" by (simp_all add: e(1))
qed

section \<open>Properties\<close>

lemma filter_above_upto:
  assumes "map k es = [1..int (length es)]" "0 \<le> (a::int)"
  shows "filter (\<lambda>e. k e > a) es = drop (nat a) es"
proof -
  have nth: "k (es ! i) = int i + 1" if "i < length es" for i
  proof -
    have "map k es ! i = 1 + int i" unfolding assms(1) using that by (subst nth_upto) simp_all
    then show ?thesis using that by simp
  qed
  have "filter (\<lambda>e. k e > a) (take (nat a) es) = []"
    using nth assms(2) by (fastforce simp: filter_empty_conv in_set_conv_nth)
  moreover have "k e > a" if e: "e \<in> set (drop (nat a) es)" for e
  proof -
    obtain i where "nat a + i < length es" "e = es ! (nat a + i)"
      using e by (auto simp: in_set_conv_nth less_diff_conv add.commute)
    then show ?thesis using nth assms(2) by simp
  qed
  then have "filter (\<lambda>e. k e > a) (drop (nat a) es) = drop (nat a) es" by simp
  ultimately show ?thesis by (metis append_Nil append_take_drop_id filter_append)
qed

lemma log_reads:
  assumes "inv_events d"
  shows "0 \<le> n \<Longrightarrow> load_since t gen n d = drop (nat n) (events_of t gen d)"
    "latest_event t gen d = (if events_of t gen d = [] then None else Some (last (events_of t gen d)))"
proof -
  have sorted: "sorted (map e_sequence (events_of t gen d))" using assms by (simp add: inv_events_def)
  show "load_since t gen n d = drop (nat n) (events_of t gen d)" if "0 \<le> n"
    unfolding load_since_def
    using filter_above_upto [of e_sequence "events_of t gen d" n] assms that sorted
    by (simp add: inv_events_def sort_key_id_if_sorted sorted_wrt_drop flip: drop_map)
  have "sort_key e_sequence (events_of t gen d) = events_of t gen d"
    using sorted by (rule sort_key_id_if_sorted)
  then show "latest_event t gen d = (if events_of t gen d = [] then None else Some (last (events_of t gen d)))"
    by (cases "events_of t gen d" rule: rev_cases) (simp_all add: latest_event_def)
qed

text \<open>C39: The event log of a Generation replays without gaps or duplicates. Appending numbers the
  new event one after the number of the Generation's events, keeps the log numbered from one
  and leaves the logs of other Generations alone; a reader that asks for everything after
  sequence \<^verbatim>\<open>n\<close> gets exactly the events from position \<^verbatim>\<open>n\<close> on, in order, the new event last.\<close>
theorem event_log_replay_exact:
  assumes "inv_events d" "append_event t gen kind payload i clk d = Ok (seq, d')" "0 \<le> n"
  shows "inv_events d' \<and> seq = int (length (events_of t gen d)) + 1 \<and>
    load_since t gen n d' = drop (nat n) (events_of t gen d') \<and>
    (\<exists>e. events_of t gen d' = events_of t gen d @ [e] \<and> e_sequence e = seq \<and> e_kind e = kind \<and>
         e_payload e = payload \<and> latest_event t gen d' = Some e) \<and>
    (\<forall>t' gen'. (t', gen') \<noteq> (t, gen) \<longrightarrow> events_of t' gen' d' = events_of t' gen' d)"
proof -
  obtain e where e: "d' = d\<lparr>db_events := db_events d @ [e]\<rparr>" "seq = next_sequence t gen d"
    "e_tenant e = t" "e_generation e = gen" "e_sequence e = seq" "e_kind e = kind" "e_payload e = payload"
    by (rule append_event_Ok [OF assms(2)])
  have inv': "inv_events d'" by (rule inv_append_event [OF assms(1,2)])
  have ev: "events_of t gen d' = events_of t gen d @ [e]"
    unfolding e(1) events_of_append by (simp add: e(3,4))
  then have "latest_event t gen d' = Some e" using log_reads(2) [OF inv', of t gen] by simp
  moreover have "load_since t gen n d' = drop (nat n) (events_of t gen d')" by (rule log_reads(1) [OF inv' assms(3)])
  moreover have "events_of t' gen' d' = events_of t' gen' d" if "(t', gen') \<noteq> (t, gen)" for t' gen'
    unfolding e(1) events_of_append using that e(3,4) by auto
  ultimately show ?thesis using inv' ev e(2,5-7) next_sequence_eq [OF assms(1), of t gen] by auto
qed

theorem event_log_replay_exact_witness:
  "\<exists>d'. append_event 7 10 StateChanged JNull 1 example_clocks example_db = Ok (1, d') \<and>
     length (load_since 7 10 0 d') = 1"
proof -
  have inv: "inv_events example_db" by (simp add: inv_events_def events_of_def example_defs)
  have ok: "append_event 7 10 StateChanged JNull 1 example_clocks example_db =
      Ok (1, snd (projr (append_event 7 10 StateChanged JNull 1 example_clocks example_db)))"
    by (simp add: append_event_def next_sequence_def events_of_def example_defs gkey_def Let_def)
  show ?thesis
    using event_log_replay_exact [OF inv ok, of 0] ok
    by (intro exI [of _ "snd (projr (append_event 7 10 StateChanged JNull 1 example_clocks example_db))"])
      (auto simp: events_of_def example_defs)
qed

end
