(* ===== verification/Events.thy ===== *)
theory Events
  imports Db_Events
begin

text \<open>
  Live Generation events, \<^verbatim>\<open>gpq-remote/src/events.rs\<close>: which events are persisted and in what
  form, how a persisted row becomes an event again, and the in-process hub that fans events out
  to subscribers. The JSON codec of the payloads is \<^verbatim>\<open>serde_json\<close>'s and a parameter; its law is
  that decoding inverts encoding. A broadcast channel counts its live receivers and records
  what was sent through it.
\<close>

section \<open>Events and their persisted form\<close>

datatype GenerationEvent =
    State GenerationState u32 "(FailureKind \<times> string) option"
  | ProgressUpdate "64 word" string u32 u32
  | OutputAvailable
  | Discontinuity string

record event_codec =
  enc_state :: "GenerationState \<times> u32 \<times> (FailureKind \<times> string) option \<Rightarrow> json option"
  dec_state :: "json \<Rightarrow> (GenerationState \<times> u32 \<times> (FailureKind \<times> string) option) option"
  enc_progress :: "64 word \<times> string \<times> u32 \<times> u32 \<Rightarrow> json option"
  dec_progress :: "json \<Rightarrow> (64 word \<times> string \<times> u32 \<times> u32) option"

definition codec_laws :: "event_codec \<Rightarrow> bool" where
  "codec_laws c \<longleftrightarrow>
     (\<forall>p j. enc_state c p = Some j \<longrightarrow> dec_state c j = Some p) \<and>
     (\<forall>p j. enc_progress c p = Some j \<longrightarrow> dec_progress c j = Some p)"

definition persisted_form :: "event_codec \<Rightarrow> GenerationEvent \<Rightarrow> unit + (EventKind \<times> json) option" where
  "persisted_form c event =
     (case event of
        State state count failure \<Rightarrow>
          (case enc_state c (state, count, failure) of
             None \<Rightarrow> Err () | Some payload \<Rightarrow> Ok (Some (StateChanged, payload)))
      | ProgressUpdate fraction stage step total_steps \<Rightarrow>
          (case enc_progress c (fraction, stage, step, total_steps) of
             None \<Rightarrow> Err () | Some payload \<Rightarrow> Ok (Some (Progress, payload)))
      | OutputAvailable \<Rightarrow> Ok None
      | Discontinuity _ \<Rightarrow> Ok None)"

definition decode_persisted :: "event_codec \<Rightarrow> event_row \<Rightarrow> GenerationEvent option" where
  "decode_persisted c row =
     (if e_kind row = StateChanged
      then map_option (\<lambda>(state, count, failure). State state count failure) (dec_state c (e_payload row))
      else if e_kind row = Progress
      then map_option (\<lambda>(fraction, stage, step, total_steps). ProgressUpdate fraction stage step total_steps)
             (dec_progress c (e_payload row))
      else None)"

section \<open>The hub\<close>

record 'e broadcast =
  bc_receivers :: nat
  bc_sent :: "'e list"

record EventHub =
  hub_channels :: "GenerationId \<rightharpoonup> GenerationEvent broadcast"
  hub_tenant_channels :: "TenantId \<rightharpoonup> GenerationId broadcast"

definition publish_in :: "'k \<Rightarrow> 'e \<Rightarrow> ('k \<rightharpoonup> 'e broadcast) \<Rightarrow> ('k \<rightharpoonup> 'e broadcast)" where
  "publish_in k event channels =
     (case channels k of
        None \<Rightarrow> channels
      | Some sender \<Rightarrow>
          if bc_receivers sender = 0 then channels(k := None)
          else channels(k \<mapsto> sender\<lparr>bc_sent := bc_sent sender @ [event]\<rparr>))"

definition subscribe_in :: "'k \<Rightarrow> ('k \<rightharpoonup> 'e broadcast) \<Rightarrow> ('k \<rightharpoonup> 'e broadcast)" where
  "subscribe_in k channels =
     (let sender = (case channels k of Some c \<Rightarrow> c | None \<Rightarrow> \<lparr>bc_receivers = 0, bc_sent = []\<rparr>)
      in channels(k \<mapsto> sender\<lparr>bc_receivers := bc_receivers sender + 1\<rparr>))"

definition publish :: "GenerationId \<Rightarrow> GenerationEvent \<Rightarrow> EventHub \<Rightarrow> EventHub" where
  "publish gen event hub = hub\<lparr>hub_channels := publish_in gen event (hub_channels hub)\<rparr>"

definition notify_tenant :: "TenantId \<Rightarrow> GenerationId \<Rightarrow> EventHub \<Rightarrow> EventHub" where
  "notify_tenant t gen hub = hub\<lparr>hub_tenant_channels := publish_in t gen (hub_tenant_channels hub)\<rparr>"

definition subscribe :: "GenerationId \<Rightarrow> EventHub \<Rightarrow> EventHub" where
  "subscribe gen hub = hub\<lparr>hub_channels := subscribe_in gen (hub_channels hub)\<rparr>"

definition subscribe_tenant :: "TenantId \<Rightarrow> EventHub \<Rightarrow> EventHub" where
  "subscribe_tenant t hub = hub\<lparr>hub_tenant_channels := subscribe_in t (hub_tenant_channels hub)\<rparr>"

datatype RecordError = RecordEncode | RecordAppend sql_error

text \<open>Recording reports an error or not; it returns the hub and the store either way.\<close>

definition record_event ::
  "event_codec \<Rightarrow> TenantId \<Rightarrow> GenerationId \<Rightarrow> GenerationEvent \<Rightarrow> uuid \<Rightarrow> clocks \<Rightarrow> EventHub \<Rightarrow> db \<Rightarrow>
   RecordError option \<times> EventHub \<times> db" where
  "record_event c t gen event new_id clk hub d =
     (case persisted_form c event of
        Err _ \<Rightarrow> (Some RecordEncode, hub, d)
      | Ok None \<Rightarrow> (None, publish gen event hub, d)
      | Ok (Some (kind, payload)) \<Rightarrow>
          (case append_event t gen kind payload new_id clk d of
             Err e \<Rightarrow> (Some (RecordAppend e),
                       publish gen (Discontinuity ''failed to persist a Generation event'') hub, d)
           | Ok (_, d') \<Rightarrow> (None, notify_tenant t gen (publish gen event hub), d')))"

section \<open>Lemmas\<close>

definition delivered :: "GenerationId \<Rightarrow> EventHub \<Rightarrow> GenerationEvent list" where
  "delivered gen hub = (case hub_channels hub gen of None \<Rightarrow> [] | Some c \<Rightarrow> bc_sent c)"

definition watched :: "GenerationId \<Rightarrow> EventHub \<Rightarrow> bool" where
  "watched gen hub \<longleftrightarrow> (\<exists>c. hub_channels hub gen = Some c \<and> 0 < bc_receivers c)"

lemma publish_delivered:
  "watched gen hub \<Longrightarrow> delivered gen (publish gen event hub) = delivered gen hub @ [event]"
  "gen' \<noteq> gen \<Longrightarrow> delivered gen' (publish gen event hub) = delivered gen' hub"
  by (auto simp: delivered_def watched_def publish_def publish_in_def split: option.splits)

lemma delivered_notify [simp]: "delivered gen (notify_tenant t g hub) = delivered gen hub"
  by (simp add: delivered_def notify_tenant_def)

lemma record_event_sound:
  assumes "store_inv d" "record_event c t gen event i clk hub d = (r, hub', d')"
  shows "store_inv d'" "evolves t d d'" "inv_events d \<Longrightarrow> inv_events d'"
    "db_generations d' = db_generations d" "db_attempts d' = db_attempts d" "db_artifacts d' = db_artifacts d"
proof -
  consider "d' = d" | kind payload seq where "append_event t gen kind payload i clk d = Ok (seq, d')"
    using assms(2) by (auto simp: record_event_def split: sum.splits option.splits prod.splits)
  then have "store_inv d' \<and> evolves t d d' \<and> (inv_events d \<longrightarrow> inv_events d') \<and>
      db_generations d' = db_generations d \<and> db_attempts d' = db_attempts d \<and> db_artifacts d' = db_artifacts d"
  proof cases
    case 1
    then show ?thesis using assms(1) evolves_inv_refl [OF store_invD(1) [OF assms(1)]] by simp
  next
    case 2
    then show ?thesis using append_event_sound [OF assms(1) 2] inv_append_event by blast
  qed
  then show "store_inv d'" "evolves t d d'" "inv_events d \<Longrightarrow> inv_events d'"
    "db_generations d' = db_generations d" "db_attempts d' = db_attempts d" "db_artifacts d' = db_artifacts d"
    by simp_all
qed

section \<open>Properties\<close>

text \<open>Recording an event never shows a watcher a durable event that was not stored. When it
  succeeds, a state or progress event is the newest row of the Generation's log and decodes
  back to the event, and a watcher receives exactly that event; an output event is only
  published. When the log cannot be written, nothing is stored and a watcher receives a
  discontinuity instead.\<close>
theorem recorded_events_are_stored:
  assumes "codec_laws c" "inv_events d" "watched gen hub"
    and "record_event c t gen event i clk hub d = (r, hub', d')"
  shows "(r = None \<and> (\<exists>s n f. event = State s n f) \<or> r = None \<and> (\<exists>x s n m. event = ProgressUpdate x s n m) \<longrightarrow>
      (\<exists>row. events_of t gen d' = events_of t gen d @ [row] \<and> decode_persisted c row = Some event) \<and>
      delivered gen hub' = delivered gen hub @ [event]) \<and>
    (event = OutputAvailable \<longrightarrow> r = None \<and> d' = d \<and> delivered gen hub' = delivered gen hub @ [event]) \<and>
    (r \<noteq> None \<longrightarrow> d' = d \<and>
       (r = Some RecordEncode \<longrightarrow> hub' = hub) \<and>
       (\<forall>e. r = Some (RecordAppend e) \<longrightarrow>
          (\<exists>reason. delivered gen hub' = delivered gen hub @ [Discontinuity reason])))"
proof -
  have append: "\<exists>row. events_of t gen d1 = events_of t gen d @ [row] \<and> e_kind row = kind \<and> e_payload row = payload"
    if ok: "append_event t gen kind payload i clk d = Ok (seq, d1)" for kind payload seq d1
  proof -
    obtain e where "d1 = d\<lparr>db_events := db_events d @ [e]\<rparr>" "e_tenant e = t" "e_generation e = gen"
      "e_kind e = kind" "e_payload e = payload" using ok by (elim append_event_Ok) simp
    then show ?thesis by (intro exI [of _ e]) (simp add: events_of_append)
  qed
  show ?thesis
  proof (cases event)
    case (State s n f)
    show ?thesis
    proof (cases "enc_state c (s, n, f)")
      case None
      then show ?thesis using assms(4) State by (auto simp: record_event_def persisted_form_def)
    next
      case (Some payload)
      have dec: "dec_state c payload = Some (s, n, f)" using assms(1) Some by (simp add: codec_laws_def)
      show ?thesis
      proof (cases "append_event t gen StateChanged payload i clk d")
        case (Inl e)
        then show ?thesis
          using assms(3,4) State Some by (auto simp: record_event_def persisted_form_def publish_delivered)
      next
        case (Inr x)
        obtain seq d1 where x: "x = (seq, d1)" by (cases x)
        obtain row where "events_of t gen d1 = events_of t gen d @ [row]" "e_kind row = StateChanged"
          "e_payload row = payload" using append Inr x by blast
        moreover have "d' = d1" "r = None" "delivered gen hub' = delivered gen hub @ [event]"
          using assms(3,4) State Some Inr x by (auto simp: record_event_def persisted_form_def publish_delivered)
        ultimately show ?thesis using State dec by (auto simp: decode_persisted_def)
      qed
    qed
  next
    case (ProgressUpdate f s n m)
    show ?thesis
    proof (cases "enc_progress c (f, s, n, m)")
      case None
      then show ?thesis using assms(4) ProgressUpdate by (auto simp: record_event_def persisted_form_def)
    next
      case (Some payload)
      have dec: "dec_progress c payload = Some (f, s, n, m)" using assms(1) Some by (simp add: codec_laws_def)
      show ?thesis
      proof (cases "append_event t gen Progress payload i clk d")
        case (Inl e)
        then show ?thesis
          using assms(3,4) ProgressUpdate Some by (auto simp: record_event_def persisted_form_def publish_delivered)
      next
        case (Inr x)
        obtain seq d1 where x: "x = (seq, d1)" by (cases x)
        obtain row where "events_of t gen d1 = events_of t gen d @ [row]" "e_kind row = Progress"
          "e_payload row = payload" using append Inr x by blast
        moreover have "d' = d1" "r = None" "delivered gen hub' = delivered gen hub @ [event]"
          using assms(3,4) ProgressUpdate Some Inr x
          by (auto simp: record_event_def persisted_form_def publish_delivered)
        ultimately show ?thesis using ProgressUpdate dec by (auto simp: decode_persisted_def)
      qed
    qed
  qed (use assms(3,4) in \<open>auto simp: record_event_def persisted_form_def publish_delivered\<close>)
qed

theorem recorded_events_are_stored_witness:
  "\<exists>row. events_of 7 10 (snd (snd (record_event
       \<lparr>enc_state = (\<lambda>p. if p = (GenerationState.Running, 1, None) then Some JNull else None),
        dec_state = (\<lambda>_. Some (GenerationState.Running, 1, None)),
        enc_progress = (\<lambda>_. None), dec_progress = (\<lambda>_. None)\<rparr>
       7 10 (State GenerationState.Running 1 None) 1 example_clocks
       (subscribe 10 \<lparr>hub_channels = Map.empty, hub_tenant_channels = Map.empty\<rparr>) example_db))) = [row]"
proof -
  let ?c = "\<lparr>enc_state = (\<lambda>p. if p = (GenerationState.Running, 1, None) then Some JNull else None),
        dec_state = (\<lambda>_. Some (GenerationState.Running, 1, None)),
        enc_progress = (\<lambda>_. None), dec_progress = (\<lambda>_. None)\<rparr>"
  let ?hub = "subscribe 10 \<lparr>hub_channels = Map.empty, hub_tenant_channels = Map.empty\<rparr>"
  have laws: "codec_laws ?c" by (simp add: codec_laws_def)
  have inv: "inv_events example_db" by (simp add: inv_events_def events_of_def example_defs)
  have w: "watched 10 ?hub" by (simp add: watched_def subscribe_def subscribe_in_def)
  have r: "fst (record_event ?c 7 10 (State GenerationState.Running 1 None) 1 example_clocks ?hub example_db) = None"
    by (simp add: record_event_def persisted_form_def append_event_def next_sequence_def events_of_def
        example_defs gkey_def Let_def)
  obtain hub' d' where res: "record_event ?c 7 10 (State GenerationState.Running 1 None) 1 example_clocks ?hub
      example_db = (None, hub', d')"
    using r by (metis prod.collapse)
  show ?thesis
    using recorded_events_are_stored [OF laws inv w res] unfolding res
    by (auto simp: events_of_def example_defs)
qed

end
