(* ===== verification/Db_Tenants.thy ===== *)
theory Db_Tenants
  imports Store_Examples
begin

text \<open>
  Tenants, \<^verbatim>\<open>gpq-remote/src/db/tenants.rs\<close> and the credential lookups of \<^verbatim>\<open>db/mod.rs\<close>: the Tenant
  lifecycle, Master Keys stored as keyed hashes, the per-Tenant settings, and the conversion
  between durations and PostgreSQL intervals. Widths are kept: a count that does not fit its
  column is an encoding error and a stored value that does not fit its type a decoding error.
\<close>

section \<open>Intervals\<close>

definition in_i64 :: "int \<Rightarrow> bool" where
  "in_i64 v \<longleftrightarrow> - (2 ^ 63) \<le> v \<and> v < 2 ^ 63"

definition checked_i64 :: "string \<Rightarrow> int \<Rightarrow> sql_error + int" where
  "checked_i64 context v = (if in_i64 v then Ok v else Err (DecodeError context))"

definition from_micros :: "nat \<Rightarrow> duration" where
  "from_micros us = us * 1000"

definition interval_to_duration :: "string \<Rightarrow> PgInterval \<Rightarrow> sql_error + duration" where
  "interval_to_duration context interval =
     rbind (checked_i64 context (iv_days interval * 86400000000)) (\<lambda>day_micros.
     rbind (checked_i64 context (iv_months interval * (30 * 86400000000))) (\<lambda>month_micros.
     rbind (checked_i64 context (iv_microseconds interval + day_micros)) (\<lambda>v.
     rbind (checked_i64 context (v + month_micros)) (\<lambda>total_micros.
       if total_micros < 0 then Err (DecodeError context)
       else Ok (from_micros (nat total_micros))))))"

text \<open>The cast of the 128-bit microsecond count to \<^verbatim>\<open>i64\<close> wraps around.\<close>

definition interval_from_duration :: "duration \<Rightarrow> PgInterval" where
  "interval_from_duration d =
     \<lparr>iv_months = 0, iv_days = 0, iv_microseconds = sint (of_nat (d div 1000) :: 64 word)\<rparr>"

definition positive_interval :: "PgInterval \<Rightarrow> bool" where
  "positive_interval i \<longleftrightarrow>
     0 < (iv_months i * 30 + iv_days i) * 86400000000 + iv_microseconds i"

section \<open>Tenant lifecycle\<close>

text \<open>A new row has the column defaults of the schema.\<close>

definition new_tenant_row :: "TenantId \<Rightarrow> string \<Rightarrow> clocks \<Rightarrow> tenant_row" where
  "new_tenant_row new_id name clk =
     \<lparr>tn_id = new_id, tn_name = name,
      tn_maximum_queue_age = \<lparr>iv_months = 0, iv_days = 0, iv_microseconds = 1800000000\<rparr>,
      tn_max_queued_generations = 1000, tn_max_input_artifact_bytes = 268435456,
      tn_max_output_artifact_bytes = 2147483648,
      tn_execution_timeout_ceiling = \<lparr>iv_months = 0, iv_days = 0, iv_microseconds = 86400000000\<rparr>,
      tn_default_priority = 5, tn_created_at = sql_now clk, tn_updated_at = sql_now clk,
      tn_deleted_at = None\<rparr>"

definition create_tenant :: "string \<Rightarrow> TenantId \<Rightarrow> clocks \<Rightarrow> db \<Rightarrow> TenantId tx" where
  "create_tenant name new_id clk d =
     (if \<exists>x \<in> set (db_tenants d). tn_id x = new_id then Err (UniqueViolation ''tenants_pkey'')
      else if \<exists>x \<in> set (db_tenants d). tn_name x = name then Err (UniqueViolation ''tenants_name_key'')
      else Ok (new_id, d\<lparr>db_tenants := db_tenants d @
        [new_tenant_row new_id name clk]\<rparr>))"

definition delete_tenant :: "TenantId \<Rightarrow> clocks \<Rightarrow> db \<Rightarrow> db" where
  "delete_tenant t clk d =
     d\<lparr>db_tenants := update_where (\<lambda>x. tn_id x = t \<and> tn_deleted_at x = None)
        (\<lambda>x. x\<lparr>tn_deleted_at := Some (sql_now clk)\<rparr>) (db_tenants d)\<rparr>"

definition list_tenants :: "db \<Rightarrow> tenant_row list" where
  "list_tenants d = sort_key tn_created_at (db_tenants d)"

definition list_ids :: "db \<Rightarrow> TenantId list" where
  "list_ids d = sort (map tn_id (filter (\<lambda>x. tn_deleted_at x = None) (db_tenants d)))"

section \<open>Master Keys\<close>

definition insert_master_key ::
  "TenantId \<Rightarrow> u8 list \<Rightarrow> string \<Rightarrow> datetime option \<Rightarrow> uuid \<Rightarrow> clocks \<Rightarrow> db \<Rightarrow> uuid tx" where
  "insert_master_key t key_hash label expires_at new_id clk d =
     (if \<exists>k \<in> set (db_master_keys d). mk_tenant k = t \<and> mk_id k = new_id
      then Err (UniqueViolation ''tenant_master_keys_pkey'')
      else if \<exists>k \<in> set (db_master_keys d). mk_key_hash k = key_hash
      then Err (UniqueViolation ''tenant_master_keys_key_hash_key'')
      else if \<not> (\<exists>x \<in> set (db_tenants d). tn_id x = t)
      then Err (ForeignKeyViolation ''tenant_master_keys.tenant_id'')
      else Ok (new_id, d\<lparr>db_master_keys := db_master_keys d @
        [\<lparr>mk_tenant = t, mk_id = new_id, mk_key_hash = key_hash, mk_label = label,
          mk_created_at = sql_now clk, mk_expires_at = expires_at, mk_revoked_at = None\<rparr>]\<rparr>))"

definition revoke_master_key :: "TenantId \<Rightarrow> uuid \<Rightarrow> clocks \<Rightarrow> db \<Rightarrow> db" where
  "revoke_master_key t key_id clk d =
     d\<lparr>db_master_keys := update_where (\<lambda>k. mk_tenant k = t \<and> mk_id k = key_id \<and> mk_revoked_at k = None)
        (\<lambda>k. k\<lparr>mk_revoked_at := Some (sql_now clk)\<rparr>) (db_master_keys d)\<rparr>"

definition list_master_keys :: "TenantId \<Rightarrow> db \<Rightarrow> master_key_row list" where
  "list_master_keys t d = sort_key mk_created_at (filter (\<lambda>k. mk_tenant k = t) (db_master_keys d))"

text \<open>The credential lookups: the keyed hash of the presented secret is a parameter.\<close>

definition authenticate_master_key :: "(string \<Rightarrow> u8 list) \<Rightarrow> string \<Rightarrow> clocks \<Rightarrow> db \<Rightarrow> TenantId option" where
  "authenticate_master_key hasher presented clk d =
     map_option mk_tenant (find (\<lambda>k. mk_key_hash k = hasher presented \<and> mk_revoked_at k = None \<and>
         (case mk_expires_at k of None \<Rightarrow> True | Some e \<Rightarrow> e > sql_now clk)) (db_master_keys d))"

definition authenticate_worker :: "(string \<Rightarrow> u8 list) \<Rightarrow> string \<Rightarrow> db \<Rightarrow> (TenantId \<times> WorkerId) option" where
  "authenticate_worker hasher presented d =
     map_option wkey (find (\<lambda>w. w_credential_hash w = hasher presented \<and> w_revoked_at w = None) (db_workers d))"

section \<open>Settings\<close>

definition tenant_settings_from_row :: "tenant_row \<Rightarrow> sql_error + TenantSettings" where
  "tenant_settings_from_row row =
     rbind (interval_to_duration ''tenants.maximum_queue_age'' (tn_maximum_queue_age row)) (\<lambda>age.
     rbind (if 0 \<le> tn_max_queued_generations row \<and> tn_max_queued_generations row < 2 ^ 32
            then Ok (of_int (tn_max_queued_generations row) :: u32)
            else Err (DecodeError ''max_queued_generations'')) (\<lambda>queued.
     rbind (if 0 \<le> tn_max_input_artifact_bytes row \<and> tn_max_input_artifact_bytes row < 2 ^ 64
            then Ok (of_int (tn_max_input_artifact_bytes row) :: u64)
            else Err (DecodeError ''max_input_artifact_bytes'')) (\<lambda>max_in.
     rbind (if 0 \<le> tn_max_output_artifact_bytes row \<and> tn_max_output_artifact_bytes row < 2 ^ 64
            then Ok (of_int (tn_max_output_artifact_bytes row) :: u64)
            else Err (DecodeError ''max_output_artifact_bytes'')) (\<lambda>max_out.
     rbind (interval_to_duration ''tenants.execution_timeout_ceiling'' (tn_execution_timeout_ceiling row))
       (\<lambda>ceiling.
     rbind (map_err (\<lambda>_. DecodeError ''default_priority'') (Priority_try_from_i32 (tn_default_priority row)))
       (\<lambda>priority.
       Ok \<lparr>maximum_queue_age = age, max_queued_generations = queued,
           max_input_artifact_bytes = max_in, max_output_artifact_bytes = max_out,
           execution_timeout_ceiling = ceiling, default_priority = priority\<rparr>))))))"

definition load_settings :: "TenantId \<Rightarrow> db \<Rightarrow> sql_error + TenantSettings" where
  "load_settings t d =
     (case find (\<lambda>x. tn_id x = t) (db_tenants d) of
        None \<Rightarrow> Err RowNotFound | Some row \<Rightarrow> tenant_settings_from_row row)"

definition settings :: "TenantId \<Rightarrow> db \<Rightarrow> sql_error + TenantSettings option" where
  "settings t d =
     (case find (\<lambda>x. tn_id x = t \<and> tn_deleted_at x = None) (db_tenants d) of
        None \<Rightarrow> Ok None | Some row \<Rightarrow> rbind (tenant_settings_from_row row) (\<lambda>s. Ok (Some s)))"

text \<open>The check constraints of the settings columns are tested only when a row is updated.\<close>

definition update_settings :: "TenantId \<Rightarrow> TenantSettings \<Rightarrow> clocks \<Rightarrow> db \<Rightarrow> unit tx" where
  "update_settings t s clk d =
     (if uint (max_queued_generations s) \<ge> 2 ^ 31 then Err (EncodeError ''max_queued_generations'')
      else if uint (max_input_artifact_bytes s) \<ge> 2 ^ 63 then Err (EncodeError ''max_input_artifact_bytes'')
      else if uint (max_output_artifact_bytes s) \<ge> 2 ^ 63 then Err (EncodeError ''max_output_artifact_bytes'')
      else if (\<exists>x \<in> set (db_tenants d). tn_id x = t) \<and>
        \<not> (positive_interval (interval_from_duration (maximum_queue_age s)) \<and>
           0 < uint (max_queued_generations s) \<and> 0 < uint (max_input_artifact_bytes s) \<and>
           0 < uint (max_output_artifact_bytes s) \<and>
           positive_interval (interval_from_duration (execution_timeout_ceiling s)) \<and>
           uint (Priority_get (default_priority s)) \<le> 9)
      then Err (CheckViolation ''tenants'')
      else Ok ((), d\<lparr>db_tenants := update_where (\<lambda>x. tn_id x = t)
        (\<lambda>x. x\<lparr>tn_maximum_queue_age := interval_from_duration (maximum_queue_age s),
               tn_max_queued_generations := uint (max_queued_generations s),
               tn_max_input_artifact_bytes := uint (max_input_artifact_bytes s),
               tn_max_output_artifact_bytes := uint (max_output_artifact_bytes s),
               tn_execution_timeout_ceiling := interval_from_duration (execution_timeout_ceiling s),
               tn_default_priority := uint (Priority_get (default_priority s)),
               tn_updated_at := sql_now clk\<rparr>) (db_tenants d)\<rparr>))"

section \<open>Lemmas\<close>

lemma interval_round_trip:
  assumes "d div 1000 < 2 ^ 63"
  shows "interval_to_duration c (interval_from_duration d) = Ok (d div 1000 * 1000)"
proof -
  have "sint (of_nat (d div 1000) :: 64 word) = int (d div 1000)"
    using assms by (simp add: signed_of_nat signed_take_bit_int_eq_self_iff)
  then show ?thesis
    using assms by (simp add: interval_to_duration_def interval_from_duration_def checked_i64_def
        in_i64_def from_micros_def)
qed

lemma decode_word:
  "uint (w :: u32) < 2 ^ 32" "uint (v :: u64) < 2 ^ 64"
  using uint_lt2p [of w] uint_lt2p [of v] by simp_all

lemma priority_round_trip:
  "uint (Priority_get p) \<le> 9 \<Longrightarrow> Priority_try_from_i32 (uint (Priority_get p)) = Ok p"
  by (cases p) (simp add: Priority_try_from_i32_def Priority_new_def Priority_MAX_def word_le_def)

lemma find_tenant_update:
  assumes "\<And>x. tn_id (u x) = tn_id x"
  shows "find (\<lambda>x. tn_id x = t) (update_where (\<lambda>x. tn_id x = t') u xs) =
    map_option (\<lambda>x. if t = t' then u x else x) (find (\<lambda>x. tn_id x = t) xs)"
  using assms by (induction xs) (auto simp: update_where_def)

definition example_tenant_db :: db where
  "example_tenant_db = snd (projr (create_tenant ''acme'' 7 example_clocks example_db))"

lemma new_tenant_row_settings:
  "tenant_settings_from_row (new_tenant_row i name clk) = Ok TenantSettings_default"
  by (simp add: new_tenant_row_def tenant_settings_from_row_def interval_to_duration_def checked_i64_def
      in_i64_def from_micros_def TenantSettings_default_def DEFAULT_MAXIMUM_QUEUE_AGE_def from_mins_def
      from_hours_def from_secs_def Priority_try_from_i32_def Priority_new_def Priority_MAX_def
      Priority_DEFAULT_def)

section \<open>Properties\<close>

text \<open>Tenant settings round-trip through the store. After a successful update, loading the
  Tenant's settings returns the written ones, with the two durations truncated to the
  microseconds the column holds, provided they are shorter than 2 to the 63 microseconds; the
  settings of every other Tenant are unchanged.\<close>
theorem tenant_settings_round_trip:
  assumes "update_settings t s clk d = Ok ((), d')" "t \<in> tn_id ` set (db_tenants d)"
    and "maximum_queue_age s div 1000 < 2 ^ 63" "execution_timeout_ceiling s div 1000 < 2 ^ 63"
  shows "load_settings t d' = Ok (s\<lparr>maximum_queue_age := maximum_queue_age s div 1000 * 1000,
           execution_timeout_ceiling := execution_timeout_ceiling s div 1000 * 1000\<rparr>) \<and>
    (\<forall>t'. t' \<noteq> t \<longrightarrow> load_settings t' d' = load_settings t' d)"
proof (intro conjI allI impI)
  let ?u = "\<lambda>x. x\<lparr>tn_maximum_queue_age := interval_from_duration (maximum_queue_age s),
               tn_max_queued_generations := uint (max_queued_generations s),
               tn_max_input_artifact_bytes := uint (max_input_artifact_bytes s),
               tn_max_output_artifact_bytes := uint (max_output_artifact_bytes s),
               tn_execution_timeout_ceiling := interval_from_duration (execution_timeout_ceiling s),
               tn_default_priority := uint (Priority_get (default_priority s)),
               tn_updated_at := sql_now clk\<rparr>"
  have d': "db_tenants d' = update_where (\<lambda>x. tn_id x = t) ?u (db_tenants d)"
    and pr: "uint (Priority_get (default_priority s)) \<le> 9"
    using assms(1,2) by (auto simp: update_settings_def split: if_splits)
  have look: "find (\<lambda>x. tn_id x = t') (db_tenants d') =
      map_option (\<lambda>x. if t' = t then ?u x else x) (find (\<lambda>x. tn_id x = t') (db_tenants d))" for t'
    unfolding d' by (rule find_tenant_update) simp
  obtain row where row: "find (\<lambda>x. tn_id x = t) (db_tenants d) = Some row"
    using assms(2) by (cases "find (\<lambda>x. tn_id x = t) (db_tenants d)") (auto simp: find_None_iff)
  have ivl: "interval_to_duration c (interval_from_duration (maximum_queue_age s)) =
        Ok (maximum_queue_age s div 1000 * 1000)"
    "interval_to_duration c (interval_from_duration (execution_timeout_ceiling s)) =
        Ok (execution_timeout_ceiling s div 1000 * 1000)" for c
    using assms(3,4) by (intro interval_round_trip; simp)+
  show "load_settings t d' = Ok (s\<lparr>maximum_queue_age := maximum_queue_age s div 1000 * 1000,
           execution_timeout_ceiling := execution_timeout_ceiling s div 1000 * 1000\<rparr>)"
    using decode_word priority_round_trip [OF pr]
    by (simp add: load_settings_def look row tenant_settings_from_row_def ivl)
  show "load_settings t' d' = load_settings t' d" if "t' \<noteq> t" for t'
    using that by (simp add: load_settings_def look option.map_ident)
qed

theorem tenant_settings_round_trip_witness:
  "load_settings 7 (snd (projr (update_settings 7 TenantSettings_default example_clocks example_tenant_db))) =
     Ok TenantSettings_default"
proof -
  have defaults: "maximum_queue_age TenantSettings_default = 1800000000000"
    "execution_timeout_ceiling TenantSettings_default = 86400000000000"
    by (simp_all add: TenantSettings_default_def DEFAULT_MAXIMUM_QUEUE_AGE_def from_mins_def
        from_hours_def from_secs_def)
  have ok: "update_settings 7 TenantSettings_default example_clocks example_tenant_db =
      Ok ((), snd (projr (update_settings 7 TenantSettings_default example_clocks example_tenant_db)))"
    by (simp add: update_settings_def defaults positive_interval_def interval_from_duration_def)
      (simp add: TenantSettings_default_def Priority_DEFAULT_def)
  have mem: "7 \<in> tn_id ` set (db_tenants example_tenant_db)"
    by (simp add: example_tenant_db_def create_tenant_def new_tenant_row_def example_defs)
  show ?thesis
    using tenant_settings_round_trip [OF ok mem] defaults by simp
qed

text \<open>A new Tenant loads the domain's default settings: the column defaults of the schema
  agree with them. Creating it fails exactly when the name or the identifier is taken.\<close>
theorem new_tenant_defaults:
  "(\<forall>i d'. create_tenant name new_id clk d = Ok (i, d') \<longrightarrow>
      i = new_id \<and> load_settings i d' = Ok TenantSettings_default \<and>
      settings i d' = Ok (Some TenantSettings_default)) \<and>
   (is_ok (create_tenant name new_id clk d) \<longleftrightarrow>
      name \<notin> tn_name ` set (db_tenants d) \<and> new_id \<notin> tn_id ` set (db_tenants d))"
proof (intro conjI allI impI)
  show "is_ok (create_tenant name new_id clk d) \<longleftrightarrow>
      name \<notin> tn_name ` set (db_tenants d) \<and> new_id \<notin> tn_id ` set (db_tenants d)"
    by (auto simp: create_tenant_def)
  fix i d' assume ok: "create_tenant name new_id clk d = Ok (i, d')"
  then show i: "i = new_id" by (auto simp: create_tenant_def split: if_splits)
  have "find (\<lambda>x. tn_id x = i) (db_tenants d) = None"
    "find (\<lambda>x. tn_id x = i \<and> tn_deleted_at x = None) (db_tenants d) = None"
    using ok by (auto simp: create_tenant_def find_None_iff split: if_splits)
  moreover have "db_tenants d' = db_tenants d @ [new_tenant_row new_id name clk]"
    using ok by (auto simp: create_tenant_def split: if_splits)
  moreover have "tn_id (new_tenant_row new_id name clk) = i" "tn_deleted_at (new_tenant_row new_id name clk) = None"
    by (simp_all add: i new_tenant_row_def)
  ultimately show "load_settings i d' = Ok TenantSettings_default"
    "settings i d' = Ok (Some TenantSettings_default)"
    using new_tenant_row_settings by (simp_all add: load_settings_def settings_def find_snoc)
qed

theorem new_tenant_defaults_witness:
  "load_settings 7 example_tenant_db = Ok TenantSettings_default"
proof -
  have "create_tenant ''acme'' 7 example_clocks example_db = Ok (7, example_tenant_db)"
    by (simp add: example_tenant_db_def create_tenant_def example_defs)
  then show ?thesis
    using new_tenant_defaults [of "''acme''" 7 example_clocks example_db] by simp
qed

text \<open>C40: A Master Key authenticates its Tenant from its insertion until it expires or is
  revoked, and no longer. Soft-deleting the Tenant does not change the answer.\<close>
theorem master_key_lifecycle:
  assumes "insert_master_key t (hasher secret) label expires_at key_id clk d = Ok (i, d')"
  shows "authenticate_master_key hasher secret clk' d' =
      (if (case expires_at of None \<Rightarrow> True | Some e \<Rightarrow> sql_now clk' < e) then Some t else None) \<and>
    authenticate_master_key hasher secret clk' (revoke_master_key t i clkd d') = None \<and>
    authenticate_master_key hasher secret clk' (delete_tenant t clkd d') =
      authenticate_master_key hasher secret clk' d'"
proof -
  have fresh: "\<forall>k \<in> set (db_master_keys d). mk_key_hash k \<noteq> hasher secret"
    "\<forall>k \<in> set (db_master_keys d). \<not> (mk_tenant k = t \<and> mk_id k = key_id)"
    and d': "i = key_id" "db_master_keys d' = db_master_keys d @
        [\<lparr>mk_tenant = t, mk_id = key_id, mk_key_hash = hasher secret, mk_label = label,
          mk_created_at = sql_now clk, mk_expires_at = expires_at, mk_revoked_at = None\<rparr>]"
    using assms by (auto simp: insert_master_key_def split: if_splits)
  have none: "find (\<lambda>k. mk_key_hash k = hasher secret \<and> P k) (db_master_keys d) = None" for P
    using fresh(1) by (auto simp: find_None_iff)
  have "update_where (\<lambda>k. mk_tenant k = t \<and> mk_id k = key_id \<and> mk_revoked_at k = None)
      (\<lambda>k. k\<lparr>mk_revoked_at := Some (sql_now clkd)\<rparr>) (db_master_keys d) = db_master_keys d"
    using fresh(2) by (intro update_where_none) auto
  then have "db_master_keys (revoke_master_key t i clkd d') = db_master_keys d @
        [\<lparr>mk_tenant = t, mk_id = key_id, mk_key_hash = hasher secret, mk_label = label,
          mk_created_at = sql_now clk, mk_expires_at = expires_at, mk_revoked_at = Some (sql_now clkd)\<rparr>]"
    unfolding revoke_master_key_def d' by (simp add: d' update_where_def)
  then have "authenticate_master_key hasher secret clk' (revoke_master_key t i clkd d') = None"
    by (simp add: authenticate_master_key_def find_snoc none)
  then show ?thesis
    by (simp add: authenticate_master_key_def delete_tenant_def d'(2) find_snoc none)
qed

theorem master_key_lifecycle_witness:
  "authenticate_master_key (\<lambda>_. [9]) ''s'' example_clocks
     (delete_tenant 7 example_clocks (snd (projr
       (insert_master_key 7 [9] ''ci'' None 3 example_clocks example_tenant_db)))) = Some 7"
proof -
  have "insert_master_key 7 ((\<lambda>_. [9]) ''s'') ''ci'' None 3 example_clocks example_tenant_db =
      Ok (3, snd (projr (insert_master_key 7 [9] ''ci'' None 3 example_clocks example_tenant_db)))"
    by (simp add: insert_master_key_def example_tenant_db_def create_tenant_def new_tenant_row_def example_defs)
  from master_key_lifecycle [where hasher = "\<lambda>_. [9]" and secret = "''s''" and clk' = example_clocks
      and clkd = example_clocks, OF this] show ?thesis by simp
qed

end
