(* ===== verification/Db_Catalog.thy ===== *)
theory Db_Catalog
  imports Db_Tenants Db_Attempts
begin

text \<open>
  The model catalog, \<^verbatim>\<open>gpq-remote/src/db/catalog.rs\<close>: the immutable Model Versions advertised by
  Workers and the aliases that point at them. The JSON codec of a manifest is \<^verbatim>\<open>serde_json\<close>'s and
  part of the environment; the fresh row identifiers are arguments.
\<close>

section \<open>Rows\<close>

record ResolvedModel =
  rm_content_hash :: ContentHash
  rm_manifest :: ModelManifest
  rm_limits :: ExecutionLimits

record ModelAliasRow =
  ma_alias :: string
  ma_content_hash :: ContentHash
  ma_modality :: Modality
  ma_created_at :: datetime

record ModelVersionRow =
  vr_content_hash :: ContentHash
  vr_manifest :: ModelManifest
  vr_limits :: ExecutionLimits
  vr_first_seen_at :: datetime

datatype CatalogError = UnknownVersion ContentHash | CatalogDatabase sql_error

section \<open>Decoding\<close>

definition decode_limits :: "PgInterval option \<Rightarrow> int option \<Rightarrow> sql_error + ExecutionLimits" where
  "decode_limits timeout memory =
     rbind (case timeout of
              None \<Rightarrow> Ok None
            | Some i \<Rightarrow> rbind (interval_to_duration ''model_versions.execution_timeout'' i) (\<lambda>v. Ok (Some v)))
       (\<lambda>timeout_value.
     rbind (case memory of
              None \<Rightarrow> Ok None
            | Some n \<Rightarrow> if 0 \<le> n \<and> n < 2 ^ 64 then Ok (Some (of_int n))
                        else Err (DecodeError ''model_versions.estimated_memory_bytes''))
       (\<lambda>memory_value.
       Ok \<lparr>execution_timeout = timeout_value, estimated_memory_bytes = memory_value\<rparr>))"

definition decode_manifest :: "env \<Rightarrow> json \<Rightarrow> sql_error + ModelManifest" where
  "decode_manifest E j =
     (case x_manifest_from_json E j of None \<Rightarrow> Err (DecodeError ''model_versions.manifest'') | Some m \<Rightarrow> Ok m)"

definition into_row :: "env \<Rightarrow> model_version_row \<Rightarrow> sql_error + ModelVersionRow" where
  "into_row E v =
     rbind (decode_manifest E (mv_manifest v)) (\<lambda>manifest.
     rbind (decode_limits (mv_execution_timeout v) (mv_estimated_memory_bytes v)) (\<lambda>limits.
       Ok \<lparr>vr_content_hash = mv_content v, vr_manifest = manifest, vr_limits = limits,
           vr_first_seen_at = mv_first_seen_at v\<rparr>))"

section \<open>Operations\<close>

definition version_row ::
  "TenantId \<Rightarrow> ContentHash \<Rightarrow> ModelManifest \<Rightarrow> json \<Rightarrow> uuid \<Rightarrow> clocks \<Rightarrow> model_version_row" where
  "version_row t hash manifest j new_id clk =
     \<lparr>mv_tenant = t, mv_id = new_id, mv_content = hash, mv_family = mm_family manifest,
      mv_modality = ModelManifest_modality manifest, mv_manifest = j, mv_execution_timeout = None,
      mv_estimated_memory_bytes = None, mv_first_seen_at = sql_now clk\<rparr>"

fun register_model_versions ::
  "env \<Rightarrow> TenantId \<Rightarrow> (ContentHash \<times> ModelManifest \<times> uuid) list \<Rightarrow> clocks \<Rightarrow> db \<Rightarrow> unit tx" where
  "register_model_versions E t [] clk d = Ok ((), d)"
| "register_model_versions E t ((hash, manifest, new_id) # rest) clk d =
     rbind (case x_manifest_to_json E manifest of
              None \<Rightarrow> Err (DecodeError ''model_versions.manifest'') | Some j \<Rightarrow> Ok j) (\<lambda>j.
     rbind (if \<exists>v \<in> set (db_model_versions d). mv_tenant v = t \<and> mv_content v = hash then Ok d
            else if \<exists>v \<in> set (db_model_versions d). mv_tenant v = t \<and> mv_id v = new_id
            then Err (UniqueViolation ''model_versions_pkey'')
            else if \<not> (\<exists>fields. j = JObject fields)
            then Err (CheckViolation ''model_versions.manifest'')
            else Ok (d\<lparr>db_model_versions := db_model_versions d @ [version_row t hash manifest j new_id clk]\<rparr>))
       (\<lambda>d1. register_model_versions E t rest clk d1))"

definition list_model_versions :: "env \<Rightarrow> TenantId \<Rightarrow> db \<Rightarrow> sql_error + ModelVersionRow list" where
  "list_model_versions E t d =
     rmap (into_row E) (sort_key mv_first_seen_at (filter (\<lambda>v. mv_tenant v = t) (db_model_versions d)))"

definition get_model_version :: "env \<Rightarrow> TenantId \<Rightarrow> ContentHash \<Rightarrow> db \<Rightarrow> sql_error + ModelVersionRow option" where
  "get_model_version E t hash d =
     (case find (\<lambda>v. mv_tenant v = t \<and> mv_content v = hash) (db_model_versions d) of
        None \<Rightarrow> Ok None | Some v \<Rightarrow> rbind (into_row E v) (\<lambda>r. Ok (Some r)))"

definition set_model_alias ::
  "env \<Rightarrow> TenantId \<Rightarrow> string \<Rightarrow> ContentHash \<Rightarrow> clocks \<Rightarrow> db \<Rightarrow> CatalogError + ModelAliasRow \<times> db" where
  "set_model_alias E t alias hash clk d =
     rbind (map_err CatalogDatabase (get_model_version E t hash d)) (\<lambda>found.
       case found of
         None \<Rightarrow> Err (UnknownVersion hash)
       | Some version \<Rightarrow>
           (case find (\<lambda>a. al_tenant a = t \<and> al_alias a = alias) (db_aliases d) of
              Some old \<Rightarrow>
                Ok (\<lparr>ma_alias = alias, ma_content_hash = hash,
                     ma_modality = ModelManifest_modality (vr_manifest version),
                     ma_created_at = al_created_at old\<rparr>,
                    d\<lparr>db_aliases := update_where (\<lambda>a. al_tenant a = t \<and> al_alias a = alias)
                       (\<lambda>a. a\<lparr>al_content := hash, al_updated_at := sql_now clk\<rparr>) (db_aliases d)\<rparr>)
            | None \<Rightarrow>
                Ok (\<lparr>ma_alias = alias, ma_content_hash = hash,
                     ma_modality = ModelManifest_modality (vr_manifest version),
                     ma_created_at = sql_now clk\<rparr>,
                    d\<lparr>db_aliases := db_aliases d @
                       [\<lparr>al_tenant = t, al_alias = alias, al_content = hash,
                         al_created_at = sql_now clk, al_updated_at = sql_now clk\<rparr>]\<rparr>)))"

definition delete_model_alias :: "TenantId \<Rightarrow> string \<Rightarrow> db \<Rightarrow> bool \<times> db" where
  "delete_model_alias t alias d =
     (let P = (\<lambda>a. al_tenant a = t \<and> al_alias a = alias)
      in (rows_affected P (db_aliases d) > 0, d\<lparr>db_aliases := delete_where P (db_aliases d)\<rparr>))"

definition resolve_model_alias :: "env \<Rightarrow> TenantId \<Rightarrow> string \<Rightarrow> db \<Rightarrow> sql_error + ResolvedModel option" where
  "resolve_model_alias E t alias d =
     (case find (\<lambda>a. al_tenant a = t \<and> al_alias a = alias) (db_aliases d) of
        None \<Rightarrow> Ok None
      | Some a \<Rightarrow>
          (case find (\<lambda>v. mv_tenant v = t \<and> mv_content v = al_content a) (db_model_versions d) of
             None \<Rightarrow> Ok None
           | Some v \<Rightarrow>
               rbind (decode_manifest E (mv_manifest v)) (\<lambda>manifest.
               rbind (decode_limits (mv_execution_timeout v) (mv_estimated_memory_bytes v)) (\<lambda>limits.
                 Ok (Some \<lparr>rm_content_hash = mv_content v, rm_manifest = manifest, rm_limits = limits\<rparr>)))))"

definition list_model_aliases :: "TenantId \<Rightarrow> db \<Rightarrow> ModelAliasRow list" where
  "list_model_aliases t d =
     concat (map (\<lambda>a. map (\<lambda>v. \<lparr>ma_alias = al_alias a, ma_content_hash = al_content a,
                                 ma_modality = mv_modality v, ma_created_at = al_created_at a\<rparr>)
                 (filter (\<lambda>v. mv_tenant v = t \<and> mv_content v = al_content a) (db_model_versions d)))
       (sort_key al_alias (filter (\<lambda>a. al_tenant a = t) (db_aliases d))))"

section \<open>Lemmas\<close>

lemma register_model_versions_appends:
  "register_model_versions E t versions clk d = Ok (u, d') \<Longrightarrow>
   \<exists>new. d' = d\<lparr>db_model_versions := db_model_versions d @ new\<rparr> \<and> (\<forall>v \<in> set new. mv_tenant v = t) \<and>
     (\<forall>(hash, m, i) \<in> set versions. \<exists>v \<in> set (db_model_versions d @ new). mv_tenant v = t \<and> mv_content v = hash)"
proof (induction versions arbitrary: d)
  case Nil
  then show ?case by (intro exI [of _ "[]"]) simp
next
  case (Cons x rest)
  obtain hash manifest new_id where x: "x = (hash, manifest, new_id)" by (cases x)
  obtain j d1 where j: "x_manifest_to_json E manifest = Some j"
    and d1: "d1 = d \<and> (\<exists>v \<in> set (db_model_versions d). mv_tenant v = t \<and> mv_content v = hash) \<or>
      d1 = d\<lparr>db_model_versions := db_model_versions d @ [version_row t hash manifest j new_id clk]\<rparr>"
    and rest: "register_model_versions E t rest clk d1 = Ok (u, d')"
    using Cons.prems x by (auto simp: rbind_eq_Ok split: option.splits if_splits)
  have row: "mv_tenant (version_row t hash manifest j new_id clk) = t"
    "mv_content (version_row t hash manifest j new_id clk) = hash" by (simp_all add: version_row_def)
  obtain new where new: "d' = d1\<lparr>db_model_versions := db_model_versions d1 @ new\<rparr>"
    "\<forall>v \<in> set new. mv_tenant v = t"
    "\<forall>(hash, m, i) \<in> set rest. \<exists>v \<in> set (db_model_versions d1 @ new). mv_tenant v = t \<and> mv_content v = hash"
    using Cons.IH [OF rest] by blast
  from d1 show ?case
  proof
    assume "d1 = d \<and> (\<exists>v \<in> set (db_model_versions d). mv_tenant v = t \<and> mv_content v = hash)"
    then show ?thesis using new x by (intro exI [of _ new]) auto
  next
    assume "d1 = d\<lparr>db_model_versions := db_model_versions d @ [version_row t hash manifest j new_id clk]\<rparr>"
    then show ?thesis
      using new x row by (intro exI [of _ "version_row t hash manifest j new_id clk # new"]) auto
  qed
qed

lemma register_model_versions_sound:
  assumes "store_inv d" "register_model_versions E t versions clk d = Ok (u, d')"
  shows "store_inv d'" "evolves t d d'"
proof -
  obtain new where new: "d' = d\<lparr>db_model_versions := db_model_versions d @ new\<rparr>" "\<forall>v \<in> set new. mv_tenant v = t"
    using register_model_versions_appends [OF assms(2)] by blast
  show "store_inv d'" using assms(1) by (simp add: new(1))
  have "filter (\<lambda>r. mv_tenant r \<noteq> t) new = []" using new(2) by (simp add: filter_empty_conv)
  then show "evolves t d d'"
    unfolding new(1)
    by (intro evolves_same [OF store_invD(1) [OF assms(1)]]) (simp_all add: others_def)
qed

lemma set_model_alias_Ok:
  assumes "set_model_alias E t alias hash clk d = Ok (row, d')"
  obtains v r as where "find (\<lambda>v. mv_tenant v = t \<and> mv_content v = hash) (db_model_versions d) = Some v"
    "into_row E v = Ok r" "d' = d\<lparr>db_aliases := as\<rparr>"
    "\<forall>t' a. map_option al_content (find (\<lambda>x. al_tenant x = t' \<and> al_alias x = a) as) =
       (if (t', a) = (t, alias) then Some hash
        else map_option al_content (find (\<lambda>x. al_tenant x = t' \<and> al_alias x = a) (db_aliases d)))"
    "filter (\<lambda>x. al_tenant x \<noteq> t) as = filter (\<lambda>x. al_tenant x \<noteq> t) (db_aliases d)"
proof -
  obtain found where found: "get_model_version E t hash d = Ok found"
    using assms by (cases "get_model_version E t hash d") (simp_all add: set_model_alias_def)
  then obtain r where gv: "get_model_version E t hash d = Ok (Some r)"
    using assms by (cases found) (simp_all add: set_model_alias_def)
  then obtain v where "find (\<lambda>v. mv_tenant v = t \<and> mv_content v = hash) (db_model_versions d) = Some v"
    "into_row E v = Ok r"
    by (auto simp: get_model_version_def rbind_eq_Ok split: option.splits)
  note v = this gv
  show thesis
  proof (cases "find (\<lambda>a. al_tenant a = t \<and> al_alias a = alias) (db_aliases d)")
    case None
    let ?as = "db_aliases d @ [\<lparr>al_tenant = t, al_alias = alias, al_content = hash,
        al_created_at = sql_now clk, al_updated_at = sql_now clk\<rparr>]"
    have d': "d' = d\<lparr>db_aliases := ?as\<rparr>" using assms v(3) None by (simp add: set_model_alias_def)
    have "map_option al_content (find (\<lambda>x. al_tenant x = t' \<and> al_alias x = a) ?as) =
       (if (t', a) = (t, alias) then Some hash
        else map_option al_content (find (\<lambda>x. al_tenant x = t' \<and> al_alias x = a) (db_aliases d)))" for t' a
      using None by (auto simp: find_snoc split: option.splits)
    then have "\<forall>t' a. map_option al_content (find (\<lambda>x. al_tenant x = t' \<and> al_alias x = a) ?as) =
       (if (t', a) = (t, alias) then Some hash
        else map_option al_content (find (\<lambda>x. al_tenant x = t' \<and> al_alias x = a) (db_aliases d)))" by blast
    then show thesis by (rule that [OF v(1,2) d']) simp
  next
    case (Some old)
    let ?as = "update_where (\<lambda>a. al_tenant a = t \<and> al_alias a = alias)
       (\<lambda>a. a\<lparr>al_content := hash, al_updated_at := sql_now clk\<rparr>) (db_aliases d)"
    have d': "d' = d\<lparr>db_aliases := ?as\<rparr>" using assms v(3) Some by (simp add: set_model_alias_def)
    have look: "find (\<lambda>x. al_tenant x = t' \<and> al_alias x = a) (update_where (\<lambda>a. al_tenant a = t \<and> al_alias a = alias)
        (\<lambda>a. a\<lparr>al_content := hash, al_updated_at := sql_now clk\<rparr>) xs) =
        map_option (\<lambda>x. if (t', a) = (t, alias) then x\<lparr>al_content := hash, al_updated_at := sql_now clk\<rparr> else x)
          (find (\<lambda>x. al_tenant x = t' \<and> al_alias x = a) xs)" for t' a xs
      by (induction xs) (auto simp: update_where_def)
    have "map_option al_content (find (\<lambda>x. al_tenant x = t' \<and> al_alias x = a) ?as) =
       (if (t', a) = (t, alias) then Some hash
        else map_option al_content (find (\<lambda>x. al_tenant x = t' \<and> al_alias x = a) (db_aliases d)))" for t' a
      using Some unfolding look by (auto simp: option.map_comp o_def option.map_ident)
    then have "\<forall>t' a. map_option al_content (find (\<lambda>x. al_tenant x = t' \<and> al_alias x = a) ?as) =
       (if (t', a) = (t, alias) then Some hash
        else map_option al_content (find (\<lambda>x. al_tenant x = t' \<and> al_alias x = a) (db_aliases d)))" by blast
    then show thesis by (rule that [OF v(1,2) d']) (rule filter_update_where, simp)
  qed
qed

lemma resolve_eq:
  "resolve_model_alias E t alias d =
     (case map_option al_content (find (\<lambda>a. al_tenant a = t \<and> al_alias a = alias) (db_aliases d)) of
        None \<Rightarrow> Ok None
      | Some hash \<Rightarrow> rbind (get_model_version E t hash d)
          (\<lambda>r. Ok (map_option (\<lambda>v. \<lparr>rm_content_hash = vr_content_hash v, rm_manifest = vr_manifest v,
                                     rm_limits = vr_limits v\<rparr>) r)))"
  by (auto simp: resolve_model_alias_def get_model_version_def into_row_def rbind_def
      split: option.splits sum.splits)

lemma alias_sound:
  assumes "store_inv d"
  shows "set_model_alias E t alias hash clk d = Ok (row, d') \<Longrightarrow> store_inv d' \<and> evolves t d d'"
    "store_inv (snd (delete_model_alias t alias d)) \<and> evolves t d (snd (delete_model_alias t alias d))"
proof -
  show "store_inv d' \<and> evolves t d d'" if ok: "set_model_alias E t alias hash clk d = Ok (row, d')"
  proof -
    obtain as where as: "d' = d\<lparr>db_aliases := as\<rparr>"
      "filter (\<lambda>x. al_tenant x \<noteq> t) as = filter (\<lambda>x. al_tenant x \<noteq> t) (db_aliases d)"
      using ok by (elim set_model_alias_Ok) simp
    then show ?thesis
      using assms by (auto simp: others_def intro!: evolves_same store_invD(1))
  qed
  have "filter (\<lambda>x. al_tenant x \<noteq> t) (delete_where (\<lambda>a. al_tenant a = t \<and> al_alias a = alias) (db_aliases d)) =
      filter (\<lambda>x. al_tenant x \<noteq> t) (db_aliases d)"
    by (rule filter_delete_where) simp
  then show "store_inv (snd (delete_model_alias t alias d)) \<and> evolves t d (snd (delete_model_alias t alias d))"
    using assms by (auto simp: delete_model_alias_def Let_def others_def intro!: evolves_same store_invD(1))
qed

definition example_catalog_db :: db where
  "example_catalog_db = snd (projr (register_model_versions example_env 7
     [(example_version, example_manifest, 5)] example_clocks example_db))"

section \<open>Properties\<close>

text \<open>An alias is a mutable pointer to an immutable version. Setting one succeeds only for a
  registered version, and then resolving it returns that version's manifest and limits while
  every other alias resolves as before; deleting it makes it unknown. No version and no
  Generation changes either way.\<close>
theorem alias_resolution_exact:
  assumes "set_model_alias E t alias hash clk d = Ok (row, d')"
  shows "(\<exists>r. get_model_version E t hash d = Ok (Some r) \<and>
      resolve_model_alias E t alias d' = Ok (Some \<lparr>rm_content_hash = hash, rm_manifest = vr_manifest r,
        rm_limits = vr_limits r\<rparr>)) \<and>
    (\<forall>t' a. (t', a) \<noteq> (t, alias) \<longrightarrow> resolve_model_alias E t' a d' = resolve_model_alias E t' a d) \<and>
    resolve_model_alias E t alias (snd (delete_model_alias t alias d')) = Ok None \<and>
    db_model_versions d' = db_model_versions d \<and> db_generations d' = db_generations d"
proof -
  obtain v r as where v: "find (\<lambda>v. mv_tenant v = t \<and> mv_content v = hash) (db_model_versions d) = Some v"
    "into_row E v = Ok r" and d': "d' = d\<lparr>db_aliases := as\<rparr>"
    and look: "\<forall>t' a. map_option al_content (find (\<lambda>x. al_tenant x = t' \<and> al_alias x = a) as) =
       (if (t', a) = (t, alias) then Some hash
        else map_option al_content (find (\<lambda>x. al_tenant x = t' \<and> al_alias x = a) (db_aliases d)))"
    and "filter (\<lambda>x. al_tenant x \<noteq> t) as = filter (\<lambda>x. al_tenant x \<noteq> t) (db_aliases d)"
    by (rule set_model_alias_Ok [OF assms])
  have gmv: "get_model_version E t' h d' = get_model_version E t' h d" for t' h
    by (simp add: get_model_version_def d')
  have get: "get_model_version E t hash d = Ok (Some r)" using v by (simp add: get_model_version_def)
  have hash: "vr_content_hash r = hash"
    using v by (auto simp: into_row_def rbind_eq_Ok find_Some_iff)
  have "resolve_model_alias E t alias d' = Ok (Some \<lparr>rm_content_hash = hash, rm_manifest = vr_manifest r,
        rm_limits = vr_limits r\<rparr>)"
    unfolding resolve_eq gmv using look hash get by (simp add: d')
  moreover have "resolve_model_alias E t' a d' = resolve_model_alias E t' a d" if "(t', a) \<noteq> (t, alias)" for t' a
  proof -
    have "map_option al_content (find (\<lambda>x. al_tenant x = t' \<and> al_alias x = a) (db_aliases d')) =
        map_option al_content (find (\<lambda>x. al_tenant x = t' \<and> al_alias x = a) (db_aliases d))"
      unfolding d' using look that by auto
    then show ?thesis by (simp only: resolve_eq gmv)
  qed
  moreover have "find (\<lambda>a. al_tenant a = t \<and> al_alias a = alias)
      (db_aliases (snd (delete_model_alias t alias d'))) = None"
    by (auto simp: delete_model_alias_def Let_def find_None_iff set_delete_where)
  then have "resolve_model_alias E t alias (snd (delete_model_alias t alias d')) = Ok None"
    by (simp add: resolve_eq)
  ultimately show ?thesis using get by (simp add: d')
qed

theorem alias_resolution_exact_witness:
  "\<exists>r. resolve_model_alias example_env 7 ''draw'' (snd (projr (set_model_alias example_env 7 ''draw'' example_version
       example_clocks example_catalog_db))) = Ok (Some r) \<and> rm_content_hash r = example_version"
proof -
  have "set_model_alias example_env 7 ''draw'' example_version example_clocks example_catalog_db =
      Ok (fst (projr (set_model_alias example_env 7 ''draw'' example_version example_clocks example_catalog_db)),
          snd (projr (set_model_alias example_env 7 ''draw'' example_version example_clocks example_catalog_db)))"
    by (simp add: set_model_alias_def get_model_version_def into_row_def decode_manifest_def decode_limits_def
        example_catalog_db_def version_row_def example_defs)
  from alias_resolution_exact [OF this] show ?thesis by auto
qed

text \<open>Model Versions are append-only. Registering versions never changes or removes a
  registered one, so every lookup that found a version still finds the same, and afterwards
  every registered hash is known to the Tenant; no other Tenant gains a version.\<close>
theorem versions_append_only:
  assumes "register_model_versions E t versions clk d = Ok (u, d')"
  shows "(\<forall>t' h r. get_model_version E t' h d = Ok (Some r) \<longrightarrow> get_model_version E t' h d' = Ok (Some r)) \<and>
    (\<forall>(h, m, i) \<in> set versions. \<exists>v \<in> set (db_model_versions d'). mv_tenant v = t \<and> mv_content v = h) \<and>
    (\<forall>t' h. t' \<noteq> t \<longrightarrow> get_model_version E t' h d' = get_model_version E t' h d)"
proof -
  obtain new where new: "d' = d\<lparr>db_model_versions := db_model_versions d @ new\<rparr>" "\<forall>v \<in> set new. mv_tenant v = t"
    "\<forall>(hash, m, i) \<in> set versions. \<exists>v \<in> set (db_model_versions d @ new). mv_tenant v = t \<and> mv_content v = hash"
    using register_model_versions_appends [OF assms] by blast
  have app: "find P (xs @ ys) = (case find P xs of Some y \<Rightarrow> Some y | None \<Rightarrow> find P ys)"
    for P and xs ys :: "model_version_row list" by (induction xs) simp_all
  have none: "find (\<lambda>v. mv_tenant v = t' \<and> mv_content v = h) new = None" if "t' \<noteq> t" for t' h
    using new(2) that by (auto simp: find_None_iff)
  show ?thesis
  proof (intro conjI allI impI)
    show "get_model_version E t' h d' = Ok (Some r)" if "get_model_version E t' h d = Ok (Some r)" for t' h r
      using that by (auto simp: get_model_version_def new(1) app split: option.splits)
    show "\<forall>(h, m, i) \<in> set versions. \<exists>v \<in> set (db_model_versions d'). mv_tenant v = t \<and> mv_content v = h"
      using new(3) by (simp add: new(1))
    show "get_model_version E t' h d' = get_model_version E t' h d" if "t' \<noteq> t" for t' h
      using none [OF that] by (simp add: get_model_version_def new(1) app split: option.splits)
  qed
qed

theorem versions_append_only_witness:
  "\<exists>v \<in> set (db_model_versions example_catalog_db). mv_tenant v = 7 \<and> mv_content v = example_version"
proof -
  have "register_model_versions example_env 7 [(example_version, example_manifest, 5)] example_clocks example_db =
      Ok ((), example_catalog_db)"
    by (simp add: example_catalog_db_def example_defs)
  from versions_append_only [OF this] show ?thesis by simp
qed

end
