(* ===== verification/Store_Contract.thy ===== *)
theory Store_Contract
  imports Events Db_Catalog
begin

text \<open>
  The contract that every operation of the Remote keeps with the store, in a form that composes.
  A good store satisfies the invariants of the tables and of the event log; a move is a change
  between good stores that follows the lifecycles and touches rows of one Tenant only; an
  operation keeps the contract when its outcome is reached by moves. Locale \<^verbatim>\<open>tenant_op\<close> is the
  interface the services rely on: whatever satisfies it inherits the preservation of the
  invariants, the finality of settled Generations and the isolation of the other Tenants.
\<close>

section \<open>Moves\<close>

definition good :: "db \<Rightarrow> bool" where
  "good d \<longleftrightarrow> store_inv d \<and> inv_events d"

definition move :: "TenantId \<Rightarrow> db \<Rightarrow> db \<Rightarrow> bool" where
  "move t d d' \<longleftrightarrow> good d \<and> good d' \<and> evolves t d d'"

definition keeps :: "TenantId \<Rightarrow> db \<Rightarrow> db \<Rightarrow> bool" where
  "keeps t d d' \<longleftrightarrow> (good d \<longrightarrow> (move t)\<^sup>*\<^sup>* d d')"

named_theorems keeps_intros \<open>operations that keep the contract of the store\<close>

lemma goodD: "good d \<Longrightarrow> store_inv d" "good d \<Longrightarrow> inv_events d" "good d \<Longrightarrow> inv_keys d"
  by (simp_all add: good_def store_invD)

lemma good_empty: "good empty_db"
  by (simp add: good_def store_inv_empty inv_events_def events_of_def) (simp add: empty_db_def)

lemma keeps_refl [simp, keeps_intros]: "keeps t d d"
  by (simp add: keeps_def)

lemma moves_good: "(move t)\<^sup>*\<^sup>* d d' \<Longrightarrow> good d \<Longrightarrow> good d'"
  by (induction rule: rtranclp_induct) (simp_all add: move_def)

lemma keeps_good: "keeps t d d' \<Longrightarrow> good d \<Longrightarrow> good d'"
  by (auto simp: keeps_def dest: moves_good)

lemma keeps_trans: "keeps t d d' \<Longrightarrow> keeps t d' d'' \<Longrightarrow> keeps t d d''"
  using keeps_good unfolding keeps_def by (meson rtranclp_trans)

lemma keepsI:
  assumes "good d \<Longrightarrow> store_inv d' \<and> evolves t d d' \<and> inv_events d'"
  shows "keeps t d d'"
  using assms by (auto simp: keeps_def move_def good_def intro: r_into_rtranclp)

lemma inv_events_cong: "db_events d' = db_events d \<Longrightarrow> inv_events d' = inv_events d"
  by (simp add: inv_events_def events_of_def)

lemma keeps_log:
  assumes "store_inv d \<Longrightarrow> store_inv d' \<and> evolves t d d'" "db_events d' = db_events d"
  shows "keeps t d d'"
  using assms inv_events_cong [OF assms(2)] by (intro keepsI) (simp add: good_def)

text \<open>What survives any sequence of moves.\<close>

lemma keeps_generations:
  assumes "keeps t d d'" "good d"
  shows "gen_moves d d'" "others t d' = others t d"
proof -
  have "(move t)\<^sup>*\<^sup>* d d'" using assms by (simp add: keeps_def)
  then have "gen_moves d d' \<and> others t d' = others t d"
  proof (induction rule: rtranclp_induct)
    case base
    then show ?case by (auto simp: gen_moves_def intro: gen_step_refl)
  next
    case (step d' d'')
    then show ?case using gen_moves_trans by (auto simp: move_def evolves_def)
  qed
  then show "gen_moves d d'" "others t d' = others t d" by simp_all
qed

locale tenant_op =
  fixes op :: "TenantId \<Rightarrow> db \<Rightarrow> db \<Rightarrow> bool"
  assumes contract: "op t d d' \<Longrightarrow> keeps t d d'"
begin

lemma preserves: "op t d d' \<Longrightarrow> good d \<Longrightarrow> good d'"
  using contract keeps_good by blast

lemma isolates: "op t d d' \<Longrightarrow> good d \<Longrightarrow> others t d' = others t d"
  using contract keeps_generations(2) by blast

lemma follows_lifecycle:
  assumes "op t d d'" "good d" "g \<in> set (db_generations d)"
  shows "\<exists>g' \<in> set (db_generations d'). gen_step g g'"
  using keeps_generations(1) [OF contract [OF assms(1)] assms(2)] assms(3) by (simp add: gen_moves_def)

lemma settled_final:
  assumes "op t d d'" "good d" "g \<in> set (db_generations d)" "GenerationState_is_terminal (g_state g)"
  shows "\<exists>g' \<in> set (db_generations d'). gkey g' = gkey g \<and> g_state g' = g_state g \<and>
    (g_accepted_attempt g \<noteq> None \<longrightarrow> g_accepted_attempt g' = g_accepted_attempt g)"
proof -
  obtain g' where g': "g' \<in> set (db_generations d')" "gen_step g g'"
    using follows_lifecycle [OF assms(1-3)] by blast
  have "g_state g' = g_state g"
    using gen_life.terminal_final [of "g_state g" "g_state g'"] g'(2) assms(4) by (simp add: gen_step_def)
  with g' show ?thesis by (intro bexI [of _ g']) (auto simp: gen_step_def)
qed

end

section \<open>The statements of the store\<close>

lemma log_frame [simp]:
  "db_events (snd (update_generation P f d)) = db_events d"
  "db_events (release_slot t pool clk d) = db_events d"
  "db_events (snd (finish t i w to failure now clk d)) = db_events d"
  "db_events (snd (accept_result t i worker now clk d)) = db_events d"
  "db_events (snd (acknowledge_cancel t i worker now clk d)) = db_events d"
  "db_events (snd (delete_inputs_for_generation t gen d)) = db_events d"
  "db_events (snd (expire_due t now d)) = db_events d"
  by (simp_all add: update_generation_def release_slot_def finish_def accept_result_def Let_def
      acknowledge_cancel_def finish_cancelled_def delete_inputs_for_generation_def expire_due_def
      split: option.splits)

lemma keeps_workers [keeps_intros]:
  "keeps t d (revoke_worker t w clk d)" "keeps t d (mark_session t w s clk d)"
  "keeps t d (clear_session t w d)" "keeps t d (touch_last_seen t w clk d)"
  by (intro keeps_log conjI inv_sessions evolves_sessions store_invD(1);
      simp add: revoke_worker_def mark_session_def clear_session_def touch_last_seen_def)+

lemma keeps_generation_changes [keeps_intros]:
  "keeps t d (snd (mark_running_generation t i now d))"
  "keeps t d (snd (cancel_queued t i now d))"
  "keeps t d (snd (request_cancel_running t i now d))"
  "keeps t d (snd (expire_generation t i now d))"
  "keeps t d (snd (update_progress t i j clk d))"
  "keeps t d (snd (finish_cancelled t i now d))"
  by (intro keeps_log conjI inv_gen_changes evolves_gen_changes store_invD(1); simp add: gen_change_defs)+

lemma keeps_renewals [keeps_intros]:
  "keeps t d (snd (heartbeat t w ids now clk d))"
  "keeps t d (snd (mark_running_attempt t i w now d))"
  "keeps t d (snd (request_cancel t i now d))"
  by (intro keeps_log conjI inv_renewals evolves_renewals store_invD(1);
      simp add: heartbeat_def mark_running_attempt_def request_cancel_def Let_def)+

lemma keeps_finish_and_decide [keeps_intros]:
  assumes "AttemptState_is_terminal to" "to \<noteq> AttemptState.Succeeded"
    and ok: "finish_and_decide E t i w to failure now clk d = Ok (r, d')"
  shows "keeps t d d'"
proof (rule keeps_log)
  show "store_inv d' \<and> evolves t d d'" if "store_inv d"
    using inv_finish_and_decide [OF that assms] by blast
  obtain settled d1 where d1: "finish t i w to (Some failure) now clk d = (settled, d1)" by fastforce
  then have "db_events d1 = db_events d" using log_frame(3) [of t i w to "Some failure" now clk d] by simp
  with ok show "db_events d' = db_events d"
    by (auto simp: finish_and_decide_def Let_def rbind_eq_Ok gen_change_defs d1
        split: option.splits if_splits RetryDecision.splits) (metis RetryDecision.exhaust)+
qed

lemma keeps_settlements [keeps_intros]:
  "record_failure E t i failure now clk d = Ok (r, d') \<Longrightarrow> keeps t d d'"
  "record_failure_for_worker E t i worker failure now clk d = Ok (r, d') \<Longrightarrow> keeps t d d'"
  "record_lease_expiry E t i now clk d = Ok (r, d') \<Longrightarrow> keeps t d d'"
  unfolding record_failure_def record_failure_for_worker_def record_lease_expiry_def
  by (erule keeps_finish_and_decide [rotated 2]; simp add: AttemptState_is_terminal_def)+

lemma keeps_reject_lease [keeps_intros]:
  assumes ok: "reject_lease t i worker now clk d = Ok (r, d')"
  shows "keeps t d d'"
proof (rule keeps_log)
  show "store_inv d' \<and> evolves t d d'" if "store_inv d"
    using inv_reject_lease [OF that ok] evolves_reject_lease [OF that ok] by blast
  show "db_events d' = db_events d"
    using ok by (auto simp: reject_lease_def Let_def rbind_eq_Ok delete_attempt_def
        record_preexecution_rejection_def split: option.splits if_splits)
qed

lemma keeps_acknowledge_cancel [keeps_intros]: "keeps t d (snd (acknowledge_cancel t i worker now clk d))"
  by (intro keeps_log conjI acknowledge_cancel_sound) simp_all

lemma keeps_accept_result [keeps_intros]:
  "accept_result t i worker now clk d = (r, d') \<Longrightarrow> keeps t d d'"
  using inv_accept_result evolves_accept_result log_frame(4) [of t i worker now clk d] by (intro keeps_log) auto

lemma keeps_artifacts [keeps_intros]:
  "keeps t d (snd (delete_inputs_for_generation t gen d))"
  "keeps t d (snd (expire_due t now d))"
  by (rule keeps_log, simp add: inputs_deleted, simp) (rule keeps_log, simp add: delivery_steps_sound(3), simp)

lemma keeps_append_event [keeps_intros]:
  "append_event t gen kind payload i clk d = Ok (seq, d') \<Longrightarrow> keeps t d d'"
  using append_event_sound inv_append_event by (intro keepsI) (auto simp: good_def)

lemma keeps_record_event [keeps_intros]:
  assumes ok: "record_event c t gen event i clk hub d = (r, hub', d')"
  shows "keeps t d d'"
proof (rule keepsI)
  assume "good d"
  note d = goodD(1) [OF this] goodD(2) [OF this]
  show "store_inv d' \<and> evolves t d d' \<and> inv_events d'"
    using record_event_sound(1-2) [OF d(1) ok] record_event_sound(3) [OF d(1) ok d(2)] by blast
qed

lemma keeps_register_model_versions [keeps_intros]:
  assumes "register_model_versions E t versions clk d = Ok (u, d')"
  shows "keeps t d d'"
  using register_model_versions_sound [OF _ assms] register_model_versions_appends [OF assms]
  by (intro keeps_log) auto

lemma upsert_pools_events:
  assumes "upsert_pools t w report clk d = Ok (u, d')"
  shows "db_events d' = db_events d"
proof -
  have each: "upsert_each t w clk rs d1 = Ok d2 \<Longrightarrow> db_events d2 = db_events d1" for rs d1 d2
    by (induction rs arbitrary: d1)
      (auto simp: upsert_pool_def rbind_eq_Ok Let_def split: option.splits if_splits)
  show ?thesis
    using assms by (auto simp: upsert_pools_def delete_pools_def rbind_eq_Ok Let_def split: if_splits dest!: each)
qed

lemma keeps_upsert_pools [keeps_intros]:
  assumes "upsert_pools t w report clk d = Ok (u, d')"
  shows "keeps t d d'"
  using inv_upsert_pools [OF _ assms] evolves_upsert_pools [OF _ assms] upsert_pools_events [OF assms]
  by (intro keeps_log) (auto simp: store_invD(1))

lemma keeps_insert_generation [keeps_intros]:
  assumes ok: "insert_generation E new clk d = Ok (g, d')" and t: "ng_tenant_id new = t"
  shows "keeps t d d'"
proof (rule keeps_log)
  have d': "d' = d\<lparr>db_generations := db_generations d @ [g]\<rparr>" "g_tenant g = t" if "store_inv d"
    using inv_insert_generation [OF that ok] t by (simp_all add: gkey_def)
  show "store_inv d' \<and> evolves t d d'" if inv: "store_inv d"
  proof
    show "store_inv d'" using inv_insert_generation(1) [OF inv ok] .
    show "evolves t d d'"
      using evolves_inv_refl [OF store_invD(1) [OF inv], of t] d' [OF inv]
      by (auto simp: evolves_def gen_moves_def att_moves_def art_moves_def others_def)
  qed
  show "db_events d' = db_events d"
    using ok by (auto simp: insert_generation_def rbind_eq_Ok Let_def split: if_splits option.splits)
qed

end
