(* ===== verification/Registry.thy ===== *)
theory Registry
  imports Domain_Hash
begin

text \<open>
  The live Worker sessions, \<^verbatim>\<open>gpq-remote/src/registry.rs\<close>: the map from Workers to their current
  control session, the guard that removes a session when it ends, and sending through a
  session's bounded outbound channel. A channel is shared by every clone of its sender, so it
  lives in a store of channels addressed by the session entry. The lock is never poisoned: no
  code that holds it can panic.
\<close>

section \<open>Channels\<close>

record 'm channel =
  ch_capacity :: nat
  ch_queue :: "'m list"
  ch_closed :: bool

datatype TrySend = Sent | Full | Closed

definition try_send :: "'m \<Rightarrow> 'm channel \<Rightarrow> TrySend \<times> 'm channel" where
  "try_send m c =
     (if ch_closed c then (Closed, c)
      else if length (ch_queue c) < ch_capacity c then (Sent, c\<lparr>ch_queue := ch_queue c @ [m]\<rparr>)
      else (Full, c))"

section \<open>The registry\<close>

record SessionEntry =
  se_tenant_id :: TenantId
  se_session_id :: string
  se_outbound :: nat

type_synonym sessions = "WorkerId \<rightharpoonup> SessionEntry"

datatype SendOutcome = Delivered | Backpressured | Offline

definition is_delivered :: "SendOutcome \<Rightarrow> bool" where
  "is_delivered r \<longleftrightarrow> r = Delivered"

record SessionGuard =
  sg_worker_id :: WorkerId
  sg_session_id :: string

definition register ::
  "TenantId \<Rightarrow> WorkerId \<Rightarrow> string \<Rightarrow> nat \<Rightarrow> sessions \<Rightarrow> SessionGuard \<times> sessions" where
  "register t worker session_id outbound sessions =
     (\<lparr>sg_worker_id = worker, sg_session_id = session_id\<rparr>,
      sessions(worker \<mapsto> \<lparr>se_tenant_id = t, se_session_id = session_id, se_outbound = outbound\<rparr>))"

definition send ::
  "WorkerId \<Rightarrow> 'm \<Rightarrow> sessions \<Rightarrow> (nat \<Rightarrow> 'm channel) \<Rightarrow> SendOutcome \<times> (nat \<Rightarrow> 'm channel)" where
  "send worker message sessions chans =
     (case sessions worker of
        None \<Rightarrow> (Offline, chans)
      | Some entry \<Rightarrow>
          (case try_send message (chans (se_outbound entry)) of
             (Sent, c) \<Rightarrow> (Delivered, chans(se_outbound entry := c))
           | (Full, c) \<Rightarrow> (Backpressured, chans)
           | (Closed, c) \<Rightarrow> (Offline, chans)))"

definition is_online :: "WorkerId \<Rightarrow> sessions \<Rightarrow> bool" where
  "is_online worker sessions \<longleftrightarrow> sessions worker \<noteq> None"

definition online_workers :: "TenantId \<Rightarrow> sessions \<Rightarrow> WorkerId set" where
  "online_workers t sessions = {w. \<exists>e. sessions w = Some e \<and> se_tenant_id e = t}"

definition drop_guard :: "SessionGuard \<Rightarrow> sessions \<Rightarrow> sessions" where
  "drop_guard g sessions =
     (case sessions (sg_worker_id g) of
        None \<Rightarrow> sessions
      | Some entry \<Rightarrow>
          if se_session_id entry = sg_session_id g then sessions(sg_worker_id g := None) else sessions)"

section \<open>Properties\<close>

text \<open>A session's guard removes only its own registration. Dropping the guard of the current
  session takes the Worker offline; dropping the guard of a session that a later registration
  of the Worker replaced, under another session identifier, leaves the later session in place;
  neither touches another Worker.\<close>
theorem session_guard_exact:
  assumes "register t worker s1 out1 sessions = (g1, r1)" "register t' worker s2 out2 r1 = (g2, r2)" "s1 \<noteq> s2"
  shows "\<not> is_online worker (drop_guard g1 r1) \<and> drop_guard g1 r2 = r2 \<and> is_online worker r2 \<and>
    worker \<in> online_workers t' r2 \<and> \<not> is_online worker (drop_guard g2 r2) \<and>
    drop_guard g1 (drop_guard g2 r2) = drop_guard g2 r2 \<and>
    (\<forall>w. w \<noteq> worker \<longrightarrow> drop_guard g2 r2 w = sessions w)"
  using assms by (auto simp: register_def drop_guard_def is_online_def online_workers_def)

theorem session_guard_exact_witness:
  "\<not> is_online 1 (drop_guard (fst (register 7 1 ''a'' 0 Map.empty)) (snd (register 7 1 ''a'' 0 Map.empty)))"
  using session_guard_exact [OF surjective_pairing surjective_pairing, where worker = 1 and t = 7 and
      ?s1.0 = "''a''" and ?s2.0 = "''b''" and sessions = Map.empty and ?out1.0 = 0 and t' = 7]
  by simp

text \<open>A message is queued, last, on the Worker's own channel exactly when the Worker has a
  session whose channel is open and not full; a full channel is reported as such and an absent
  session or closed channel as offline, and then no channel changes. The bound of a channel is
  never exceeded.\<close>
theorem send_exact:
  assumes "send worker message sessions chans = (r, chans')" "\<forall>c. length (ch_queue (chans c)) \<le> ch_capacity (chans c)"
  shows "(is_delivered r \<longleftrightarrow> (\<exists>e. sessions worker = Some e \<and> \<not> ch_closed (chans (se_outbound e)) \<and>
      length (ch_queue (chans (se_outbound e))) < ch_capacity (chans (se_outbound e)))) \<and>
    (r = Backpressured \<longleftrightarrow> (\<exists>e. sessions worker = Some e \<and> \<not> ch_closed (chans (se_outbound e)) \<and>
      length (ch_queue (chans (se_outbound e))) = ch_capacity (chans (se_outbound e)))) \<and>
    (\<not> is_delivered r \<longrightarrow> chans' = chans) \<and>
    (\<forall>e. is_delivered r \<and> sessions worker = Some e \<longrightarrow>
       chans' = chans(se_outbound e := (chans (se_outbound e))\<lparr>ch_queue := ch_queue (chans (se_outbound e)) @ [message]\<rparr>)) \<and>
    (\<forall>c. length (ch_queue (chans' c)) \<le> ch_capacity (chans' c))"
proof (cases "sessions worker")
  case None
  then show ?thesis using assms by (auto simp: send_def is_delivered_def)
next
  case (Some e)
  show ?thesis
    using assms by (auto simp: send_def Some try_send_def is_delivered_def not_less
        intro!: le_antisym split: if_splits)
qed

theorem send_exact_witness:
  "fst (send 1 () [1 \<mapsto> \<lparr>se_tenant_id = 7, se_session_id = [], se_outbound = 0\<rparr>]
     (\<lambda>_. \<lparr>ch_capacity = 1, ch_queue = [], ch_closed = False\<rparr>)) = Delivered"
  using send_exact [OF surjective_pairing, of "\<lambda>_. \<lparr>ch_capacity = 1, ch_queue = [], ch_closed = False\<rparr>" 1 "()"
      "[1 \<mapsto> \<lparr>se_tenant_id = 7, se_session_id = [], se_outbound = 0\<rparr>]"]
  by (simp add: is_delivered_def)

end
