(* ===== verification/Wire.thy ===== *)
theory Wire
  imports Domain_Capability
begin

text \<open>
  The messages that Remote exchanges with clients and Workers (\<^verbatim>\<open>proto/gpq\<close>) and Remote's
  conversions: the \<^verbatim>\<open>proto_*\<close> encoders of \<^verbatim>\<open>gpq-remote/src/scheduler.rs\<close> and the \<^verbatim>\<open>domain_*\<close>
  decoders of \<^verbatim>\<open>gpq-remote/src/session.rs\<close>. An enum field is a known or an unknown number, as
  the message library reads it; a message field that may be absent is an option. The text
  forms of hashes (\<^verbatim>\<open>hex\<close>) and identifiers (\<^verbatim>\<open>uuid\<close>) are library code, passed as \<^verbatim>\<open>text_libs\<close>;
  \<^verbatim>\<open>text_laws\<close> states what the crates document.
\<close>

section \<open>Libraries\<close>

record text_libs =
  hex_encode :: "u8 list \<Rightarrow> string"
  hex_decode :: "string \<Rightarrow> u8 list option"
  uuid_print :: "uuid \<Rightarrow> string"
  uuid_parse :: "string \<Rightarrow> uuid option"

definition text_laws :: "text_libs \<Rightarrow> bool" where
  "text_laws L \<longleftrightarrow> hex_laws (hex_encode L) (hex_decode L) \<and> (\<forall>u. uuid_parse L (uuid_print L u) = Some u)"

definition parse_hash :: "text_libs \<Rightarrow> string \<Rightarrow> ContentHash option" where
  "parse_hash L s = (case ContentHash_from_str (hex_decode L) s of Ok h \<Rightarrow> Some h | Err _ \<Rightarrow> None)"

abbreviation print_hash :: "text_libs \<Rightarrow> ContentHash \<Rightarrow> string" where
  "print_hash L \<equiv> to_hex (hex_encode L)"

text \<open>\<^verbatim>\<open>collect\<close> into an \<^verbatim>\<open>Option<Vec<_>>\<close>.\<close>

fun collect_option :: "('a \<Rightarrow> 'b option) \<Rightarrow> 'a list \<Rightarrow> 'b list option" where
  "collect_option f [] = Some []"
| "collect_option f (x # xs) =
     (case f x of None \<Rightarrow> None | Some y \<Rightarrow> map_option (Cons y) (collect_option f xs))"

section \<open>Messages\<close>

datatype 'e EnumValue = Known 'e | Unknown int

datatype ProtoArtifactPlacement =
    ARTIFACT_PLACEMENT_UNSPECIFIED
  | ARTIFACT_PLACEMENT_OBJECT_STORE
  | ARTIFACT_PLACEMENT_WORKER_LOCAL
  | ARTIFACT_PLACEMENT_REMOTE_LOCAL

datatype ProtoMediaKind =
    MEDIA_KIND_UNSPECIFIED
  | MEDIA_KIND_IMAGE
  | MEDIA_KIND_VIDEO
  | MEDIA_KIND_AUDIO
  | MEDIA_KIND_TEXT
  | MEDIA_KIND_BINARY

datatype ProtoFailureKind =
    FAILURE_KIND_UNSPECIFIED
  | FAILURE_KIND_INVALID_INPUT
  | FAILURE_KIND_UNSUPPORTED_CAPABILITY
  | FAILURE_KIND_MODEL_UNAVAILABLE
  | FAILURE_KIND_OUT_OF_MEMORY
  | FAILURE_KIND_BACKEND_CRASHED
  | FAILURE_KIND_EXECUTION_TIMED_OUT
  | FAILURE_KIND_CANCELLED
  | FAILURE_KIND_TRANSFER_FAILED
  | FAILURE_KIND_INTERNAL
  | FAILURE_KIND_WORKER_LOST
  | FAILURE_KIND_LEASE_EXPIRED

datatype ProtoModelFamily =
    MODEL_FAMILY_UNSPECIFIED
  | MODEL_FAMILY_QWEN_IMAGE21
  | MODEL_FAMILY_MINIMAX_H3

datatype ProtoModelAssetRole =
    MODEL_ASSET_ROLE_UNSPECIFIED
  | MODEL_ASSET_ROLE_DIFFUSION
  | MODEL_ASSET_ROLE_TEXT_ENCODER
  | MODEL_ASSET_ROLE_VISION_ENCODER
  | MODEL_ASSET_ROLE_VAE
  | MODEL_ASSET_ROLE_AUDIO_VAE

record ProtoArtifactManifest =
  pam_size_bytes :: u64
  pam_digest_sha256 :: string
  pam_kind :: "ProtoMediaKind EnumValue"
  pam_mime_type :: string

record ProtoModelAsset =
  pma_role :: "ProtoModelAssetRole EnumValue"
  pma_sha256 :: string

record ProtoLoraSelection =
  pls_sha256 :: string
  pls_scale :: f32

record ProtoSamplingPreset =
  psp_steps :: u32
  psp_cfg_scale :: f32
  psp_sigmas :: "f32 list"

record ProtoModelManifest =
  pmm_family :: "ProtoModelFamily EnumValue"
  pmm_assets :: "ProtoModelAsset list"
  pmm_default_loras :: "ProtoLoraSelection list"
  pmm_sampling :: "ProtoSamplingPreset option"

record ModelAdvertisement =
  ma_version_sha256 :: string
  ma_manifest :: "ProtoModelManifest option"

record ProtoShapeLimits =
  psl_max_image_pixels :: "u64 option"
  psl_max_video_pixels :: "u64 option"
  psl_max_video_frames :: "u32 option"
  psl_max_steps :: "u32 option"

record ProtoImageParameters =
  pip_prompt :: string
  pip_negative_prompt :: string
  pip_width :: u32
  pip_height :: u32
  pip_steps :: "u32 option"
  pip_cfg_scale :: "f32 option"
  pip_reference_artifact_ids :: "string list"
  pip_loras :: "ProtoLoraSelection list"
  pip_sigmas :: "f32 list"

record ProtoVideoParameters =
  pvp_prompt :: string
  pvp_negative_prompt :: string
  pvp_width :: u32
  pvp_height :: u32
  pvp_frames :: u32
  pvp_first_frame_artifact_id :: "string option"
  pvp_last_frame_artifact_id :: "string option"

datatype ProtoGenerationParameters =
    ImageParameters ProtoImageParameters
  | VideoParameters ProtoVideoParameters

record ProtoFailure =
  pf_kind :: "ProtoFailureKind EnumValue"
  pf_message :: string
  pf_worker_retry_hint :: bool

record SlotAdvertisement =
  sa_slot_id :: string
  sa_busy :: bool
  sa_attempt_id :: string

record PoolAdvertisement =
  pa_pool_id :: string
  pa_backend_version :: string
  pa_ready :: bool
  pa_unready_reason :: string
  pa_slots :: "SlotAdvertisement list"
  pa_resident_model_sha256 :: string
  pa_accelerator_memory_bytes :: "u64 option"
  pa_image_lora_sha256 :: "string list"
  pa_shape_limits :: "ProtoShapeLimits option"
  pa_models :: "ModelAdvertisement list"
  pa_accelerator :: string

record LeaseInput =
  li_artifact_id :: string
  li_manifest :: ProtoArtifactManifest
  li_placement :: "ProtoArtifactPlacement EnumValue"
  li_download_url :: string

record LeaseAssignment =
  la_attempt_id :: string
  la_generation_id :: string
  la_pool_id :: string
  la_slot_id :: string
  la_model_sha256 :: string
  la_model_manifest :: "ProtoModelManifest option"
  la_generation_parameters :: "ProtoGenerationParameters option"
  la_inputs :: "LeaseInput list"
  la_output_placement :: "ProtoArtifactPlacement EnumValue"
  la_output_upload_url :: string
  la_output_object_key :: string
  la_seed :: u64
  la_execution_timeout :: duration
  la_lease_expires_at :: datetime

record AttemptOutput =
  ao_manifest :: "ProtoArtifactManifest option"
  ao_placement :: "ProtoArtifactPlacement EnumValue"
  ao_object_key :: string
  ao_delivery_token :: string

record WireProgress =
  wp_fraction :: "64 word"
  wp_stage :: string
  wp_step :: u32
  wp_total_steps :: u32

datatype WorkerMessage =
    Handshake u32
  | CapabilityReport "PoolAdvertisement list"
  | Heartbeat "string list"
  | AttemptRunning string
  | AttemptProgress string "WireProgress option"
  | AttemptResult string "AttemptOutput list"
  | AttemptFailure string "ProtoFailure option"
  | CancelAcknowledged string
  | LeaseRejected string "ProtoFailure option"

record HandshakeAckMessage =
  ha_protocol_major :: u32
  ha_protocol_minor :: u32
  ha_session_id :: string
  ha_heartbeat_interval :: duration
  ha_lease_ttl :: duration
  ha_resumable_attempt_ids :: "string list"

datatype RemoteMessage =
    HandshakeAck HandshakeAckMessage
  | Lease LeaseAssignment
  | CancelRequest string string
  | DeliverRequest string string u64
  | DiscardOutput string string string
  | Shutdown string

section \<open>Encoders\<close>

fun proto_artifact_placement :: "ArtifactPlacement \<Rightarrow> ProtoArtifactPlacement" where
  "proto_artifact_placement ArtifactPlacement.ObjectStore = ARTIFACT_PLACEMENT_OBJECT_STORE"
| "proto_artifact_placement ArtifactPlacement.WorkerLocal = ARTIFACT_PLACEMENT_WORKER_LOCAL"
| "proto_artifact_placement ArtifactPlacement.RemoteLocal = ARTIFACT_PLACEMENT_REMOTE_LOCAL"

fun proto_media_kind :: "MediaKind \<Rightarrow> ProtoMediaKind" where
  "proto_media_kind MediaKind.Image = MEDIA_KIND_IMAGE"
| "proto_media_kind MediaKind.Video = MEDIA_KIND_VIDEO"
| "proto_media_kind MediaKind.Audio = MEDIA_KIND_AUDIO"
| "proto_media_kind MediaKind.Text = MEDIA_KIND_TEXT"
| "proto_media_kind MediaKind.Binary = MEDIA_KIND_BINARY"

definition proto_artifact_manifest :: "text_libs \<Rightarrow> ArtifactManifest \<Rightarrow> ProtoArtifactManifest" where
  "proto_artifact_manifest L manifest =
     \<lparr>pam_size_bytes = am_size_bytes manifest, pam_digest_sha256 = print_hash L (am_digest manifest),
      pam_kind = Known (proto_media_kind (am_kind manifest)), pam_mime_type = am_mime_type manifest\<rparr>"

fun proto_model_family :: "ModelFamily \<Rightarrow> ProtoModelFamily" where
  "proto_model_family QwenImage21 = MODEL_FAMILY_QWEN_IMAGE21"
| "proto_model_family MinimaxH3 = MODEL_FAMILY_MINIMAX_H3"

fun proto_asset_role :: "ModelAssetRole \<Rightarrow> ProtoModelAssetRole" where
  "proto_asset_role Diffusion = MODEL_ASSET_ROLE_DIFFUSION"
| "proto_asset_role TextEncoder = MODEL_ASSET_ROLE_TEXT_ENCODER"
| "proto_asset_role VisionEncoder = MODEL_ASSET_ROLE_VISION_ENCODER"
| "proto_asset_role Vae = MODEL_ASSET_ROLE_VAE"
| "proto_asset_role AudioVae = MODEL_ASSET_ROLE_AUDIO_VAE"

definition proto_lora_selection :: "text_libs \<Rightarrow> LoraSelection \<Rightarrow> ProtoLoraSelection" where
  "proto_lora_selection L lora =
     \<lparr>pls_sha256 = print_hash L (lora_sha256 lora), pls_scale = lora_scale lora\<rparr>"

text \<open>The assets are a \<^verbatim>\<open>BTreeMap\<close>, iterated in the derived order of its keys.\<close>

definition asset_roles :: "ModelAssetRole list" where
  "asset_roles = [Diffusion, TextEncoder, VisionEncoder, Vae, AudioVae]"

definition asset_entries :: "(ModelAssetRole \<rightharpoonup> ContentHash) \<Rightarrow> (ModelAssetRole \<times> ContentHash) list" where
  "asset_entries assets =
     List.map_filter (\<lambda>role. map_option (Pair role) (assets role)) asset_roles"

definition proto_model_manifest :: "text_libs \<Rightarrow> ModelManifest \<Rightarrow> ProtoModelManifest" where
  "proto_model_manifest L manifest =
     \<lparr>pmm_family = Known (proto_model_family (mm_family manifest)),
      pmm_assets = map (\<lambda>(role, sha256). \<lparr>pma_role = Known (proto_asset_role role),
                                          pma_sha256 = print_hash L sha256\<rparr>)
                     (asset_entries (mm_assets manifest)),
      pmm_default_loras = map (proto_lora_selection L) (mm_default_loras manifest),
      pmm_sampling = Some \<lparr>psp_steps = sp_steps (mm_sampling manifest),
                           psp_cfg_scale = sp_cfg_scale (mm_sampling manifest),
                           psp_sigmas = sp_sigmas (mm_sampling manifest)\<rparr>\<rparr>"

definition proto_image_parameters :: "text_libs \<Rightarrow> ImageParameters \<Rightarrow> ProtoImageParameters" where
  "proto_image_parameters L params =
     \<lparr>pip_prompt = img_prompt params, pip_negative_prompt = img_negative_prompt params,
      pip_width = img_width params, pip_height = img_height params, pip_steps = img_steps params,
      pip_cfg_scale = img_cfg_scale params,
      pip_reference_artifact_ids = map (uuid_print L) (img_references params),
      pip_loras = map (proto_lora_selection L) (img_loras params),
      pip_sigmas = (case img_sigmas params of Some sigmas \<Rightarrow> sigmas | None \<Rightarrow> [])\<rparr>"

definition proto_video_parameters :: "text_libs \<Rightarrow> VideoParameters \<Rightarrow> ProtoVideoParameters" where
  "proto_video_parameters L params =
     \<lparr>pvp_prompt = vid_prompt params, pvp_negative_prompt = vid_negative_prompt params,
      pvp_width = vid_width params, pvp_height = vid_height params, pvp_frames = vid_frames params,
      pvp_first_frame_artifact_id = map_option (uuid_print L) (vid_first_frame params),
      pvp_last_frame_artifact_id = map_option (uuid_print L) (vid_last_frame params)\<rparr>"

section \<open>Decoders\<close>

fun domain_placement :: "ProtoArtifactPlacement EnumValue \<Rightarrow> ArtifactPlacement option" where
  "domain_placement (Known ARTIFACT_PLACEMENT_OBJECT_STORE) = Some ArtifactPlacement.ObjectStore"
| "domain_placement (Known ARTIFACT_PLACEMENT_WORKER_LOCAL) = Some ArtifactPlacement.WorkerLocal"
| "domain_placement (Known ARTIFACT_PLACEMENT_REMOTE_LOCAL) = Some ArtifactPlacement.RemoteLocal"
| "domain_placement (Known ARTIFACT_PLACEMENT_UNSPECIFIED) = None"
| "domain_placement (Unknown _) = None"

fun domain_failure_kind :: "ProtoFailureKind EnumValue \<Rightarrow> FailureKind option" where
  "domain_failure_kind (Known FAILURE_KIND_INVALID_INPUT) = Some FailureKind.InvalidInput"
| "domain_failure_kind (Known FAILURE_KIND_UNSUPPORTED_CAPABILITY) = Some FailureKind.UnsupportedCapability"
| "domain_failure_kind (Known FAILURE_KIND_MODEL_UNAVAILABLE) = Some FailureKind.ModelUnavailable"
| "domain_failure_kind (Known FAILURE_KIND_OUT_OF_MEMORY) = Some FailureKind.OutOfMemory"
| "domain_failure_kind (Known FAILURE_KIND_BACKEND_CRASHED) = Some FailureKind.BackendCrashed"
| "domain_failure_kind (Known FAILURE_KIND_EXECUTION_TIMED_OUT) = Some FailureKind.ExecutionTimedOut"
| "domain_failure_kind (Known FAILURE_KIND_CANCELLED) = Some FailureKind.Cancelled"
| "domain_failure_kind (Known FAILURE_KIND_TRANSFER_FAILED) = Some FailureKind.TransferFailed"
| "domain_failure_kind (Known FAILURE_KIND_INTERNAL) = Some FailureKind.Internal"
| "domain_failure_kind (Known FAILURE_KIND_WORKER_LOST) = Some FailureKind.WorkerLost"
| "domain_failure_kind (Known FAILURE_KIND_LEASE_EXPIRED) = Some FailureKind.LeaseExpired"
| "domain_failure_kind (Known FAILURE_KIND_UNSPECIFIED) = None"
| "domain_failure_kind (Unknown _) = None"

fun domain_media_kind :: "ProtoMediaKind EnumValue \<Rightarrow> MediaKind option" where
  "domain_media_kind (Known MEDIA_KIND_IMAGE) = Some MediaKind.Image"
| "domain_media_kind (Known MEDIA_KIND_VIDEO) = Some MediaKind.Video"
| "domain_media_kind (Known MEDIA_KIND_AUDIO) = Some MediaKind.Audio"
| "domain_media_kind (Known MEDIA_KIND_TEXT) = Some MediaKind.Text"
| "domain_media_kind (Known MEDIA_KIND_BINARY) = Some MediaKind.Binary"
| "domain_media_kind (Known MEDIA_KIND_UNSPECIFIED) = None"
| "domain_media_kind (Unknown _) = None"

definition domain_manifest_from_proto :: "text_libs \<Rightarrow> ProtoArtifactManifest \<Rightarrow> ArtifactManifest option" where
  "domain_manifest_from_proto L proto =
     (case parse_hash L (pam_digest_sha256 proto) of
        None \<Rightarrow> None
      | Some dig \<Rightarrow>
          (case domain_media_kind (pam_kind proto) of
             None \<Rightarrow> None
           | Some kind \<Rightarrow>
               Some \<lparr>am_size_bytes = pam_size_bytes proto, am_digest = dig, am_kind = kind,
                     am_mime_type = pam_mime_type proto\<rparr>))"

fun domain_model_family :: "ProtoModelFamily EnumValue \<Rightarrow> ModelFamily option" where
  "domain_model_family (Known MODEL_FAMILY_QWEN_IMAGE21) = Some QwenImage21"
| "domain_model_family (Known MODEL_FAMILY_MINIMAX_H3) = Some MinimaxH3"
| "domain_model_family (Known MODEL_FAMILY_UNSPECIFIED) = None"
| "domain_model_family (Unknown _) = None"

fun domain_asset_role :: "ProtoModelAssetRole EnumValue \<Rightarrow> ModelAssetRole option" where
  "domain_asset_role (Known MODEL_ASSET_ROLE_DIFFUSION) = Some Diffusion"
| "domain_asset_role (Known MODEL_ASSET_ROLE_TEXT_ENCODER) = Some TextEncoder"
| "domain_asset_role (Known MODEL_ASSET_ROLE_VISION_ENCODER) = Some VisionEncoder"
| "domain_asset_role (Known MODEL_ASSET_ROLE_VAE) = Some Vae"
| "domain_asset_role (Known MODEL_ASSET_ROLE_AUDIO_VAE) = Some AudioVae"
| "domain_asset_role (Known MODEL_ASSET_ROLE_UNSPECIFIED) = None"
| "domain_asset_role (Unknown _) = None"

fun insert_assets ::
  "text_libs \<Rightarrow> ProtoModelAsset list \<Rightarrow> (ModelAssetRole \<rightharpoonup> ContentHash) \<Rightarrow> (ModelAssetRole \<rightharpoonup> ContentHash) option"
where
  "insert_assets L [] assets = Some assets"
| "insert_assets L (asset # rest) assets =
     (case domain_asset_role (pma_role asset) of
        None \<Rightarrow> None
      | Some role \<Rightarrow>
          (case parse_hash L (pma_sha256 asset) of
             None \<Rightarrow> None
           | Some sha256 \<Rightarrow>
               if assets role \<noteq> None then None
               else insert_assets L rest (assets(role \<mapsto> sha256))))"

definition domain_lora :: "text_libs \<Rightarrow> ProtoLoraSelection \<Rightarrow> LoraSelection option" where
  "domain_lora L lora =
     map_option (\<lambda>h. \<lparr>lora_sha256 = h, lora_scale = pls_scale lora\<rparr>) (parse_hash L (pls_sha256 lora))"

definition model_manifest_from_proto :: "text_libs \<Rightarrow> ProtoModelManifest \<Rightarrow> ModelManifest option" where
  "model_manifest_from_proto L proto =
     (case domain_model_family (pmm_family proto) of
        None \<Rightarrow> None
      | Some family \<Rightarrow>
          (case insert_assets L (pmm_assets proto) Map.empty of
             None \<Rightarrow> None
           | Some assets \<Rightarrow>
               (case collect_option (domain_lora L) (pmm_default_loras proto) of
                  None \<Rightarrow> None
                | Some default_loras \<Rightarrow>
                    (case pmm_sampling proto of
                       None \<Rightarrow> None
                     | Some sampling \<Rightarrow>
                         Some \<lparr>mm_family = family, mm_assets = assets, mm_default_loras = default_loras,
                               mm_sampling = \<lparr>sp_steps = psp_steps sampling,
                                              sp_cfg_scale = psp_cfg_scale sampling,
                                              sp_sigmas = psp_sigmas sampling\<rparr>\<rparr>))))"

definition shape_limits_from_proto :: "ProtoShapeLimits option \<Rightarrow> ShapeLimits" where
  "shape_limits_from_proto limits =
     (case limits of
        Some l \<Rightarrow> \<lparr>max_image_pixels = psl_max_image_pixels l, max_video_pixels = psl_max_video_pixels l,
                   max_video_frames = psl_max_video_frames l, max_steps = psl_max_steps l\<rparr>
      | None \<Rightarrow> \<lparr>max_image_pixels = None, max_video_pixels = None, max_video_frames = None,
                 max_steps = None\<rparr>)"

section \<open>Lemmas\<close>

text \<open>The hashes a manifest carries have the 32 bytes of their type.\<close>

definition wf_manifest :: "ModelManifest \<Rightarrow> bool" where
  "wf_manifest m \<longleftrightarrow> (\<forall>role h. mm_assets m role = Some h \<longrightarrow> wf_hash h) \<and>
     (\<forall>lora \<in> set (mm_default_loras m). wf_hash (lora_sha256 lora))"

lemma parse_print_hash: "text_laws L \<Longrightarrow> wf_hash h \<Longrightarrow> parse_hash L (print_hash L h) = Some h"
  by (simp add: parse_hash_def text_laws_def from_str_to_hex)

lemma parse_hash_wf: "text_laws L \<Longrightarrow> parse_hash L s = Some h \<Longrightarrow> wf_hash h"
  by (auto simp: parse_hash_def text_laws_def dest: from_str_wf split: sum.splits)

lemma uuid_round_trip: "text_laws L \<Longrightarrow> uuid_parse L (uuid_print L u) = Some u"
  by (simp add: text_laws_def)

lemma domain_lora_proto:
  "text_laws L \<Longrightarrow> wf_hash (lora_sha256 lora) \<Longrightarrow> domain_lora L (proto_lora_selection L lora) = Some lora"
  by (simp add: domain_lora_def proto_lora_selection_def parse_print_hash)

lemma collect_option_map:
  "\<forall>x \<in> set xs. f (g x) = Some x \<Longrightarrow> collect_option f (map g xs) = Some xs"
  by (induction xs) simp_all

lemma domain_proto_enums [simp]:
  "domain_placement (Known (proto_artifact_placement p)) = Some p"
  "domain_media_kind (Known (proto_media_kind k)) = Some k"
  "domain_model_family (Known (proto_model_family f)) = Some f"
  "domain_asset_role (Known (proto_asset_role r)) = Some r"
     apply (cases p; simp)
    apply (cases k; simp)
   apply (cases f; simp)
  apply (cases r; simp)
  done

lemma insert_assets_entries:
  assumes "text_laws L" "distinct (map fst entries)" "\<forall>(role, h) \<in> set entries. wf_hash h \<and> assets role = None"
  shows "insert_assets L (map (\<lambda>(role, h). \<lparr>pma_role = Known (proto_asset_role role),
           pma_sha256 = print_hash L h\<rparr>) entries) assets = Some (assets ++ map_of entries)"
  using assms(2,3)
proof (induction entries arbitrary: assets)
  case (Cons e entries)
  obtain role h where e: "e = (role, h)" by (cases e)
  have "assets(role \<mapsto> h) ++ map_of entries = assets ++ map_of (e # entries)"
    using Cons.prems(1) by (auto simp: e map_add_def fun_eq_iff image_iff split: option.splits dest: map_of_SomeD)
  moreover have "\<forall>(r, k) \<in> set entries. wf_hash k \<and> (assets(role \<mapsto> h)) r = None"
    using Cons.prems by (force simp: e)
  moreover have "distinct (map fst entries)" "wf_hash h" "assets role = None"
    using Cons.prems by (auto simp: e)
  ultimately show ?case
    using Cons.IH [of "assets(role \<mapsto> h)"] parse_print_hash [OF assms(1)]
    by (simp add: e del: fun_upd_apply map_of.simps)
qed simp

lemma asset_entries:
  "distinct (map fst (asset_entries assets))" "map_of (asset_entries assets) = assets"
proof -
  have roles: "set asset_roles = UNIV" "distinct asset_roles"
    using ModelAssetRole.exhaust by (auto simp: asset_roles_def)
  have gen: "distinct rs \<Longrightarrow> distinct (map fst (List.map_filter (\<lambda>r. map_option (Pair r) (assets r)) rs))"
    "map_of (List.map_filter (\<lambda>r. map_option (Pair r) (assets r)) rs) = assets |` set rs" for rs
    by (induction rs)
      (auto simp: List.map_filter_simps map_filter_def restrict_map_def fun_eq_iff split: option.splits)
  show "distinct (map fst (asset_entries assets))" "map_of (asset_entries assets) = assets"
    using gen(1) [OF roles(2)] gen(2) [of asset_roles] roles(1)
    by (simp_all add: asset_entries_def restrict_map_def)
qed

lemma manifest_round_trip:
  assumes "text_laws L" "wf_manifest m"
  shows "model_manifest_from_proto L (proto_model_manifest L m) = Some m"
proof -
  have "\<forall>(role, h) \<in> set (asset_entries (mm_assets m)). wf_hash h \<and> (Map.empty role :: ContentHash option) = None"
    using assms(2) asset_entries [of "mm_assets m"] by (auto simp: wf_manifest_def) (metis map_of_eq_Some_iff)
  then have "insert_assets L (pmm_assets (proto_model_manifest L m)) Map.empty = Some (mm_assets m)"
    using insert_assets_entries [OF assms(1) asset_entries(1)] asset_entries(2) [of "mm_assets m"]
    by (simp add: proto_model_manifest_def)
  moreover have "collect_option (domain_lora L) (pmm_default_loras (proto_model_manifest L m)) = Some (mm_default_loras m)"
    unfolding proto_model_manifest_def
    using assms by (auto intro!: collect_option_map domain_lora_proto simp: wf_manifest_def)
  ultimately show ?thesis
    by (simp add: model_manifest_from_proto_def) (simp add: proto_model_manifest_def)
qed

lemma artifact_manifest_round_trip:
  assumes "text_laws L" "wf_hash (am_digest m)"
  shows "domain_manifest_from_proto L (proto_artifact_manifest L m) = Some m"
  using assms by (simp add: domain_manifest_from_proto_def proto_artifact_manifest_def parse_print_hash)

end
