(* ===== verification/Remote.thy ===== *)
theory Remote
  imports Store_Contract Registry Wire
begin

text \<open>
  The state of the Remote process and the library code its services call. \<^verbatim>\<open>AppState\<close>
  (\<^verbatim>\<open>gpq-remote/src/state.rs\<close>) is the database, the event hub, the worker registry and the
  outbound channels of its sessions; the object store appears as the list of keys whose deletion
  was requested, and presigning as a function that may fail. A wakeup of the scheduler only lets
  a pass run earlier.
\<close>

record services =
  sv_env :: env
  sv_codec :: event_codec
  sv_text :: text_libs
  sv_presign_get :: "string \<Rightarrow> string option"
  sv_presign_put_unsized :: "string \<Rightarrow> string option"
  sv_audit :: "AttemptId \<Rightarrow> int \<Rightarrow> WorkerId \<Rightarrow> DevicePoolId \<Rightarrow> json"
  sv_f64_json :: "64 word \<Rightarrow> json"
  sv_rfc3339 :: "datetime \<Rightarrow> string"
  sv_delta_from_std :: "duration \<Rightarrow> duration option"
  sv_datetime_sub :: "datetime \<Rightarrow> duration \<Rightarrow> datetime option"

text \<open>
  The two \<^verbatim>\<open>chrono\<close> operations that can fail: the conversion of a standard duration, refused
  beyond the largest \<^verbatim>\<open>TimeDelta\<close> (2 to the 63 minus one milliseconds), and the subtraction of a
  duration from a point in time, which panics when the result lies before the earliest
  representable \<^verbatim>\<open>DateTime\<close>, the first day of year -262143. A panic is the absent result.
\<close>

definition chrono_laws :: "services \<Rightarrow> bool" where
  "chrono_laws S \<longleftrightarrow>
     (\<forall>d. sv_delta_from_std S d = (if d \<le> (2 ^ 63 - 1) * 1000000 then Some d else None)) \<and>
     (\<forall>t d. sv_datetime_sub S t d =
        (if - 8334601228800 * 1000000000 \<le> t - int d then Some (t - int d) else None))"

record remote =
  r_db :: db
  r_hub :: EventHub
  r_sessions :: sessions
  r_chans :: "nat \<Rightarrow> RemoteMessage channel"
  r_object_deletes :: "string list"

text \<open>
  What a transaction draws from outside the program: the time the service read before it opened
  the transaction, the clocks of the database and the fresh identifiers.
\<close>

record tx_input =
  ti_now :: datetime
  ti_clk :: clocks
  ti_attempt :: AttemptId
  ti_event :: uuid

text \<open>A message that \<^verbatim>\<open>mpsc::Sender::send\<close> awaits until there is room: it is queued unless the
  receiver is gone.\<close>

definition send_outbound :: "nat \<Rightarrow> 'm \<Rightarrow> (nat \<Rightarrow> 'm channel) \<Rightarrow> (nat \<Rightarrow> 'm channel)" where
  "send_outbound c m chans =
     (if ch_closed (chans c) then chans
      else chans(c := (chans c)\<lparr>ch_queue := ch_queue (chans c) @ [m]\<rparr>))"

section \<open>Generation snapshots\<close>

definition failure_of :: "GenerationRow \<Rightarrow> (FailureKind \<times> string) option" where
  "failure_of g = map_option (\<lambda>kind. (kind, g_failure_message g)) (g_failure_kind g)"

definition u32_of_count :: "int \<Rightarrow> u32" where
  "u32_of_count n = (if 0 \<le> n \<and> n < 2 ^ 32 then of_int n else 0)"

definition generation_snapshot :: "TenantId \<Rightarrow> GenerationId \<Rightarrow> db \<Rightarrow> GenerationEvent option" where
  "generation_snapshot t gen d =
     map_option (\<lambda>g. State (g_state g) (u32_of_count (g_attempt_count g)) (failure_of g))
       (get_generation t gen d)"

text \<open>The state of a Generation, recorded and published after the transaction committed.\<close>

definition publish_state_event ::
  "services \<Rightarrow> TenantId \<Rightarrow> GenerationId \<Rightarrow> GenerationEvent option \<Rightarrow> tx_input \<Rightarrow> remote \<Rightarrow> remote" where
  "publish_state_event S t gen snapshot inp r =
     (case snapshot of
        None \<Rightarrow> r
      | Some event \<Rightarrow>
          (case record_event (sv_codec S) t gen event (ti_event inp) (ti_clk inp) (r_hub r) (r_db r) of
             (_, hub, d) \<Rightarrow> r\<lparr>r_hub := hub, r_db := d\<rparr>))"

lemma keeps_publish_state_event [keeps_intros]:
  "keeps t (r_db r) (r_db (publish_state_event S t gen snapshot inp r))"
proof (cases snapshot)
  case (Some event)
  obtain e hub d where "record_event (sv_codec S) t gen event (ti_event inp) (ti_clk inp) (r_hub r) (r_db r) = (e, hub, d)"
    by (cases "record_event (sv_codec S) t gen event (ti_event inp) (ti_clk inp) (r_hub r) (r_db r)")
  then show ?thesis using Some by (simp add: publish_state_event_def keeps_record_event)
qed (simp add: publish_state_event_def)

section \<open>An example\<close>

text \<open>A unary printer of identifiers, which has an inverse, next to the hexadecimal codec; a
  store with one queued Generation, its registered model and a Worker that advertises it, and
  a Remote with one session.\<close>

definition example_libs :: text_libs where
  "example_libs = \<lparr>hex_encode = ref_encode, hex_decode = ref_decode,
     uuid_print = (\<lambda>u. replicate (unat u) CHR ''x''), uuid_parse = (\<lambda>s. Some (of_nat (length s)))\<rparr>"

lemma example_text_laws: "text_laws example_libs"
  by (simp add: text_laws_def example_libs_def ref_hex_laws)

definition example_services :: services where
  "example_services =
     \<lparr>sv_env = example_env,
      sv_codec = \<lparr>enc_state = (\<lambda>_. Some JNull), dec_state = (\<lambda>_. None),
                  enc_progress = (\<lambda>_. Some JNull), dec_progress = (\<lambda>_. None)\<rparr>,
      sv_text = example_libs, sv_presign_get = Some, sv_presign_put_unsized = Some,
      sv_audit = (\<lambda>_ _ _ _. JNull), sv_f64_json = (\<lambda>_. JNull), sv_rfc3339 = (\<lambda>_. []),
      sv_delta_from_std = (\<lambda>d. if d \<le> (2 ^ 63 - 1) * 1000000 then Some d else None),
      sv_datetime_sub = (\<lambda>t d. if - 8334601228800 * 1000000000 \<le> t - int d then Some (t - int d) else None)\<rparr>"

lemma example_chrono_laws: "chrono_laws example_services"
  by (simp add: chrono_laws_def example_services_def)

definition example_model_row :: model_version_row where
  "example_model_row =
     \<lparr>mv_tenant = 7, mv_id = 30, mv_content = example_version, mv_family = QwenImage21,
      mv_modality = Modality.Image, mv_manifest = JNull, mv_execution_timeout = None,
      mv_estimated_memory_bytes = None, mv_first_seen_at = 0\<rparr>"

definition example_ready_db :: db where
  "example_ready_db = example_queued_db\<lparr>db_model_versions := [example_model_row],
     db_pool_models := [\<lparr>pm_tenant = 7, pm_pool_id = 2, pm_content = example_version\<rparr>]\<rparr>"

definition example_remote :: "db \<Rightarrow> remote" where
  "example_remote d =
     \<lparr>r_db = d, r_hub = \<lparr>hub_channels = Map.empty, hub_tenant_channels = Map.empty\<rparr>,
      r_sessions = [1 \<mapsto> \<lparr>se_tenant_id = 7, se_session_id = ''s'', se_outbound = 0\<rparr>],
      r_chans = (\<lambda>_. \<lparr>ch_capacity = 64, ch_queue = [], ch_closed = False\<rparr>), r_object_deletes = []\<rparr>"

definition example_input :: tx_input where
  "example_input = \<lparr>ti_now = 50, ti_clk = example_clocks, ti_attempt = 20, ti_event = 40\<rparr>"

lemma example_ready_good: "good example_ready_db" "good example_db"
  using example_inv
  by (simp_all add: good_def example_ready_db_def inv_events_def events_of_def)
    (simp_all add: example_defs)

end
