(* ===== verification/Scheduler.thy ===== *)
theory Scheduler
  imports Remote
begin

text \<open>
  The scheduler, \<^verbatim>\<open>gpq-remote/src/scheduler.rs\<close>: the plan of a pass (\<^verbatim>\<open>plan_assignments\<close>), one
  assignment (\<^verbatim>\<open>try_assign\<close>: claim a Slot, create the Attempt, mark the Generation running and
  send the lease, committed only when the lease was delivered), the lease message, and the pass
  over a Tenant. The waiting loop around it only decides when a pass runs.
\<close>

section \<open>Planning\<close>

definition CANDIDATE_FETCH_LIMIT :: nat where
  "CANDIDATE_FETCH_LIMIT = 500"

record SlotAssignment =
  as_worker_id :: WorkerId
  as_pool_id :: DevicePoolId
  as_pool_key :: string
  as_capability :: SlotCapability
  as_candidate :: Candidate

type_synonym pool_view = "SlotCapability \<times> u32 \<times> WorkerId \<times> string"

definition plan_pool ::
  "Candidate list \<Rightarrow> (GenerationId \<Rightarrow> DevicePoolId list) \<Rightarrow> TenantSettings \<Rightarrow> datetime \<Rightarrow>
   (WorkerId \<Rightarrow> bool) \<Rightarrow> pool_view \<Rightarrow> SlotAssignment list" where
  "plan_pool candidates exclusions setts now online = (\<lambda>(capability, free_slots, worker_id, pool_key).
     if free_slots = 0 \<or> \<not> online worker_id then []
     else
       let cx = \<lparr>cx_capability = capability, cx_free_slots = free_slots,
                      cx_settings = setts, cx_now = now\<rparr>;
           pool_rejected = (\<lambda>c. sc_pool_id capability \<in> set (exclusions (cd_generation_id c)));
           assignment = (\<lambda>c. \<lparr>as_worker_id = worker_id, as_pool_id = sc_pool_id capability,
                              as_pool_key = pool_key, as_capability = capability, as_candidate = c\<rparr>)
       in if \<exists>c \<in> set candidates. pool_rejected c
          then List.map_filter
                 (\<lambda>selected. map_option assignment
                    (find (\<lambda>c. cd_generation_id c = cd_generation_id selected) candidates))
                 (select_batch cx (filter (\<lambda>c. \<not> pool_rejected c) candidates))
          else map assignment (select_batch cx candidates))"

definition plan_assignments ::
  "pool_view list \<Rightarrow> Candidate list \<Rightarrow> (GenerationId \<Rightarrow> DevicePoolId list) \<Rightarrow> TenantSettings \<Rightarrow>
   datetime \<Rightarrow> (WorkerId \<Rightarrow> bool) \<Rightarrow> SlotAssignment list" where
  "plan_assignments capabilities candidates exclusions setts now online =
     concat (map (plan_pool candidates exclusions setts now online) capabilities)"

section \<open>The lease message\<close>

datatype AssignError =
    AssignDatabase sql_error
  | ModelNotRegistered ContentHash
  | ParametersUntyped
  | PresignFailed string

definition leased_output_key :: "text_libs \<Rightarrow> TenantId \<Rightarrow> GenerationId \<Rightarrow> AttemptId \<Rightarrow> string" where
  "leased_output_key L t gen attempt =
     uuid_print L t @ ''/'' @ uuid_print L gen @ ''/attempts/'' @ uuid_print L attempt @ ''/output''"

definition row_manifest :: "ArtifactRow \<Rightarrow> ArtifactManifest" where
  "row_manifest row = \<lparr>am_size_bytes = of_int (f_size_bytes row), am_digest = f_digest row,
                       am_kind = f_kind row, am_mime_type = f_mime_type row\<rparr>"

definition proto_duration_from_micros :: "int \<Rightarrow> duration" where
  "proto_duration_from_micros microseconds = from_micros (nat microseconds)"

definition lease_input :: "services \<Rightarrow> ArtifactRow \<Rightarrow> AssignError + LeaseInput" where
  "lease_input S row =
     rbind (if f_placement row = ArtifactPlacement.ObjectStore
            then case f_object_key row of
                   Some key \<Rightarrow> (case sv_presign_get S key of
                                  Some url \<Rightarrow> Ok url | None \<Rightarrow> Err (PresignFailed key))
                 | None \<Rightarrow> Ok []
            else Ok []) (\<lambda>download_url.
       Ok \<lparr>li_artifact_id = uuid_print (sv_text S) (f_id row),
           li_manifest = proto_artifact_manifest (sv_text S) (row_manifest row),
           li_placement = Known (proto_artifact_placement (f_placement row)),
           li_download_url = download_url\<rparr>)"

definition proto_parameters :: "text_libs \<Rightarrow> GenerationParameters \<Rightarrow> ProtoGenerationParameters" where
  "proto_parameters L parameters =
     (case parameters of
        GenerationParameters.Image img \<Rightarrow> ImageParameters (proto_image_parameters L img)
      | GenerationParameters.Video video \<Rightarrow> VideoParameters (proto_video_parameters L video))"

definition build_lease_assignment ::
  "services \<Rightarrow> TenantId \<Rightarrow> string \<Rightarrow> AttemptRow \<Rightarrow> GenerationRow \<Rightarrow> db \<Rightarrow> AssignError + LeaseAssignment" where
  "build_lease_assignment S t pool_key attempt generation d =
     (let L = sv_text S; version = g_version generation in
      rbind (map_err AssignDatabase (get_model_version (sv_env S) t version d)) (\<lambda>found.
      rbind (case found of None \<Rightarrow> Err (ModelNotRegistered version) | Some m \<Rightarrow> Ok m) (\<lambda>model.
      rbind (case x_params_from_json (sv_env S) (g_parameters generation) of
               None \<Rightarrow> Err ParametersUntyped | Some p \<Rightarrow> Ok p) (\<lambda>parameters.
      rbind (rmap (lease_input S) (list_inputs t (g_id generation) d)) (\<lambda>inputs.
      rbind (if g_output_placement generation = ArtifactPlacement.ObjectStore
             then let key = leased_output_key L t (g_id generation) (a_id attempt) in
                  case sv_presign_put_unsized S key of
                    Some url \<Rightarrow> Ok (url, key) | None \<Rightarrow> Err (PresignFailed key)
             else Ok ([], [])) (\<lambda>(output_upload_url, output_object_key).
        Ok \<lparr>la_attempt_id = uuid_print L (a_id attempt),
            la_generation_id = uuid_print L (g_id generation),
            la_pool_id = pool_key, la_slot_id = a_slot_key attempt,
            la_model_sha256 = print_hash L version,
            la_model_manifest = Some (proto_model_manifest L (vr_manifest model)),
            la_generation_parameters = Some (proto_parameters L parameters),
            la_inputs = inputs,
            la_output_placement = Known (proto_artifact_placement (g_output_placement generation)),
            la_output_upload_url = output_upload_url, la_output_object_key = output_object_key,
            la_seed = (case g_seed generation of
                         Some value \<Rightarrow> if 0 \<le> value then of_int value else 0 | None \<Rightarrow> 0),
            la_execution_timeout =
              proto_duration_from_micros (int (g_execution_timeout generation) div 1000),
            la_lease_expires_at = a_lease_expires_at attempt\<rparr>))))))"

section \<open>Assignment\<close>

definition try_assign ::
  "services \<Rightarrow> TenantId \<Rightarrow> SlotAssignment \<Rightarrow> tx_input \<Rightarrow> remote \<Rightarrow> AssignError option \<times> remote" where
  "try_assign S t asg inp r =
     (let d = r_db r; now = ti_now inp; clk = ti_clk inp;
          gen = cd_generation_id (as_candidate asg); pool = as_pool_id asg in
      if pool \<in> set (excluded_pools t gen d) then (None, r)
      else
        case claim_slot t pool clk d of (claimed, d1) \<Rightarrow>
        if \<not> claimed then (None, r)
        else
          case create_attempt t gen (as_worker_id asg) pool
                 (uuid_print (sv_text S) (sc_slot_id (as_capability asg)))
                 (lease_expiry_from now) (ti_attempt inp) clk d1 of
            Err (CreateDatabase e) \<Rightarrow> (Some (AssignDatabase e), r)
          | Err _ \<Rightarrow> (None, r)
          | Ok (attempt, d2) \<Rightarrow>
              (case append_attempt_created (sv_audit S) t gen (a_id attempt) (a_attempt_number attempt)
                      (as_worker_id asg) pool (ti_event inp) clk d2 of
                 Err e \<Rightarrow> (Some (AssignDatabase e), r)
               | Ok (_, d3) \<Rightarrow>
                   let d4 = snd (mark_running_generation t gen now d3) in
                   (case get_generation t gen d4 of
                      None \<Rightarrow> (None, r)
                    | Some generation \<Rightarrow>
                        (case build_lease_assignment S t (as_pool_key asg) attempt generation d4 of
                           Err e \<Rightarrow> (Some e, r)
                         | Ok lease \<Rightarrow>
                             (case send (as_worker_id asg) (Lease lease) (r_sessions r) (r_chans r) of
                                (outcome, chans) \<Rightarrow>
                                  if is_delivered outcome
                                  then (None, r\<lparr>r_db := d4, r_chans := chans\<rparr>)
                                  else (None, r))))))"

section \<open>A pass\<close>

fun assign_all ::
  "services \<Rightarrow> TenantId \<Rightarrow> (nat \<Rightarrow> tx_input) \<Rightarrow> nat \<Rightarrow> SlotAssignment list \<Rightarrow> remote \<Rightarrow> remote" where
  "assign_all S t inputs k [] r = r"
| "assign_all S t inputs k (asg # rest) r =
     assign_all S t inputs (Suc k) rest (snd (try_assign S t asg (inputs k) r))"

definition try_schedule_tenant ::
  "services \<Rightarrow> TenantId \<Rightarrow> datetime \<Rightarrow> (nat \<Rightarrow> tx_input) \<Rightarrow> remote \<Rightarrow> sql_error option \<times> remote" where
  "try_schedule_tenant S t now inputs r =
     (if online_workers t (r_sessions r) = {} then (None, r)
      else
        case rbind (pool_capabilities (sv_env S) t (r_db r)) (\<lambda>capabilities.
             rbind (settings t (r_db r)) (\<lambda>s. Ok (capabilities, s))) of
          Err e \<Rightarrow> (Some e, r)
        | Ok (capabilities, s) \<Rightarrow>
            let candidates = queued_candidates (sv_env S) t CANDIDATE_FETCH_LIMIT (r_db r);
                exclusions = excluded_pools_for_generations t (map cd_generation_id candidates) (r_db r)
            in if candidates = [] then (None, r)
               else (None, assign_all S t (\<lambda>k. (inputs k)\<lparr>ti_now := now\<rparr>) 0
                       (plan_assignments capabilities candidates exclusions
                          (case s of Some x \<Rightarrow> x | None \<Rightarrow> TenantSettings_default) now
                          (\<lambda>w. is_online w (r_sessions r))) r))"

section \<open>Lemmas on planning\<close>

abbreviation pool_context :: "TenantSettings \<Rightarrow> datetime \<Rightarrow> SlotCapability \<Rightarrow> u32 \<Rightarrow> SlotContext" where
  "pool_context setts now capability free_slots \<equiv>
     \<lparr>cx_capability = capability, cx_free_slots = free_slots, cx_settings = setts, cx_now = now\<rparr>"

text \<open>Both branches of the plan select from the candidates the Pool has not rejected.\<close>

lemma plan_pool_eq:
  assumes dist: "distinct (map cd_generation_id candidates)" and view: "v = (capability, free_slots, worker_id, pool_key)"
  shows "plan_pool candidates exclusions setts now online v =
    (if free_slots = 0 \<or> \<not> online worker_id then []
     else map (\<lambda>c. \<lparr>as_worker_id = worker_id, as_pool_id = sc_pool_id capability, as_pool_key = pool_key,
                     as_capability = capability, as_candidate = c\<rparr>)
            (select_batch (pool_context setts now capability free_slots)
              (filter (\<lambda>c. sc_pool_id capability \<notin> set (exclusions (cd_generation_id c))) candidates)))"
proof -
  have id: "find (\<lambda>c. cd_generation_id c = cd_generation_id x) candidates = Some x" if "x \<in> set candidates" for x
    using dist that by (induction candidates) (auto simp: image_iff)
  have mf: "List.map_filter (\<lambda>x. map_option f (find (\<lambda>c. cd_generation_id c = cd_generation_id x) candidates)) xs = map f xs"
    if "set xs \<subseteq> set candidates" for f :: "Candidate \<Rightarrow> SlotAssignment" and xs
    using that by (induction xs) (simp_all add: List.map_filter_simps id)
  have sub: "set (select_batch cx xs) \<subseteq> set xs" for cx xs using select_batch_cases by blast
  have none: "filter (\<lambda>c. sc_pool_id capability \<notin> set (exclusions (cd_generation_id c))) candidates = candidates"
    if "\<not> (\<exists>c \<in> set candidates. sc_pool_id capability \<in> set (exclusions (cd_generation_id c)))"
    using that by (simp add: filter_id_conv)
  show ?thesis
    unfolding view plan_pool_def
    using mf [OF subset_trans [OF sub filter_is_subset]] none by (simp add: Let_def)
qed

lemma plan_pool_sound:
  assumes dist: "distinct (map cd_generation_id candidates)" and view: "v = (capability, free_slots, worker_id, pool_key)"
  shows "length (plan_pool candidates exclusions setts now online v) \<le> unat free_slots"
    "distinct (map (\<lambda>a. cd_generation_id (as_candidate a)) (plan_pool candidates exclusions setts now online v))"
    "asg \<in> set (plan_pool candidates exclusions setts now online v) \<Longrightarrow>
       as_pool_id asg = sc_pool_id capability \<and> as_worker_id asg = worker_id \<and> as_pool_key asg = pool_key \<and>
       as_capability asg = capability \<and> online worker_id \<and> as_candidate asg \<in> set candidates \<and>
       is_ok (admits capability (cd_requirement (as_candidate asg))) \<and>
       sc_pool_id capability \<notin> set (exclusions (cd_generation_id (as_candidate asg)))"
proof -
  let ?cs = "filter (\<lambda>c. sc_pool_id capability \<notin> set (exclusions (cd_generation_id c))) candidates"
  have d: "distinct (map cd_generation_id ?cs)" using dist by (rule distinct_map_filter)
  note eq = plan_pool_eq [OF dist view, of exclusions setts now online]
  show "length (plan_pool candidates exclusions setts now online v) \<le> unat free_slots"
    using select_batch_length [of "pool_context setts now capability free_slots" ?cs] by (simp add: eq)
  show "distinct (map (\<lambda>a. cd_generation_id (as_candidate a)) (plan_pool candidates exclusions setts now online v))"
    using select_batch_distinct [OF d, of "pool_context setts now capability free_slots"] by (simp add: eq comp_def)
  show "asg \<in> set (plan_pool candidates exclusions setts now online v) \<Longrightarrow>
       as_pool_id asg = sc_pool_id capability \<and> as_worker_id asg = worker_id \<and> as_pool_key asg = pool_key \<and>
       as_capability asg = capability \<and> online worker_id \<and> as_candidate asg \<in> set candidates \<and>
       is_ok (admits capability (cd_requirement (as_candidate asg))) \<and>
       sc_pool_id capability \<notin> set (exclusions (cd_generation_id (as_candidate asg)))"
    by (auto simp: eq cx_eligible_def split: if_splits dest!: select_batch_cases)
qed

lemma plan_of_pool:
  assumes dist: "distinct (map cd_generation_id candidates)"
    and pools: "distinct (map (\<lambda>v. sc_pool_id (fst v)) capabilities)" and v: "v \<in> set capabilities"
  shows "filter (\<lambda>a. as_pool_id a = sc_pool_id (fst v))
           (plan_assignments capabilities candidates exclusions setts now online) =
         plan_pool candidates exclusions setts now online v"
  using pools v unfolding plan_assignments_def
proof (induction capabilities)
  case (Cons w ws)
  have own: "filter (\<lambda>a. as_pool_id a = k) (plan_pool candidates exclusions setts now online u) =
      (if sc_pool_id (fst u) = k then plan_pool candidates exclusions setts now online u else [])" for u k
    using plan_pool_sound(3) [OF dist, of u "fst u" "fst (snd u)" "fst (snd (snd u))" "snd (snd (snd u))"
        _ exclusions setts now online]
    by (auto simp: filter_empty_conv filter_id_conv)
  have "filter (\<lambda>a. as_pool_id a = k) (concat (map (plan_pool candidates exclusions setts now online) us)) = []"
    if "k \<notin> (\<lambda>v. sc_pool_id (fst v)) ` set us" for k us
    using that by (induction us) (auto simp: own)
  with Cons show ?case by (auto simp: own)
qed simp

section \<open>Lemmas on assignment\<close>

lemma create_attempt_Ok:
  assumes "create_attempt t gen worker pool slot_key expiry new_id clk d = Ok (b, d')"
  obtains g where "find (\<lambda>g. gkey g = (t, gen)) (db_generations d) = Some g"
    "g_state g = GenerationState.Queued" "pool \<notin> set (excluded_pools t gen d)" "g_attempt_count g < 3"
    "b = \<lparr>a_tenant = t, a_id = new_id, a_generation = gen, a_attempt_number = g_attempt_count g + 1,
          a_state = AttemptState.Leased, a_worker = worker, a_pool = pool, a_slot_key = slot_key,
          a_lease_expires_at = expiry, a_execution_deadline = None, a_created_at = sql_now clk,
          a_started_at = None, a_finished_at = None, a_last_heartbeat_at = None, a_failure_kind = None,
          a_failure_message = [], a_worker_retry_hint = False, a_cancel_requested_at = None\<rparr>"
    "(t, new_id) \<notin> akey ` set (db_attempts d)" "\<exists>w \<in> set (db_workers d). wkey w = (t, worker)"
    "d' = d\<lparr>db_attempts := db_attempts d @ [b], db_generations := update_where (\<lambda>g. gkey g = (t, gen))
            (\<lambda>g'. g'\<lparr>g_attempt_count := g_attempt_count g + 1\<rparr>) (db_generations d)\<rparr>"
proof -
  have max: "uint MAX_ATTEMPTS = 3" by (simp add: MAX_ATTEMPTS_def)
  obtain g where g: "find (\<lambda>g. gkey g = (t, gen)) (db_generations d) = Some g"
    using assms by (cases "find (\<lambda>g. gkey g = (t, gen)) (db_generations d)") (simp_all add: create_attempt_def)
  have guards: "g_state g = GenerationState.Queued" "pool \<notin> set (excluded_pools t gen d)"
    "\<not> g_attempt_count g + 1 > uint MAX_ATTEMPTS"
    using assms by (auto simp: create_attempt_def g Let_def split: if_splits)
  show thesis
    by (rule that [OF g guards(1,2)])
      (use assms guards(3) in \<open>auto simp: create_attempt_def g guards(1,2) max Let_def rbind_eq_Ok map_err_eq_Ok
        insert_attempt_def akey_def aworker_def split: if_splits\<close>)
qed

text \<open>The rows of an assignment that is about to be committed.\<close>

definition leased_db ::
  "TenantId \<Rightarrow> GenerationRow \<Rightarrow> AttemptRow \<Rightarrow> event_row list \<Rightarrow> datetime \<Rightarrow> clocks \<Rightarrow> db \<Rightarrow> db" where
  "leased_db t g b es now clk d =
     d\<lparr>db_attempts := db_attempts d @ [b],
       db_pools := claim_in (apool b) (sql_now clk) (db_pools d),
       db_generations := update_where (\<lambda>x. gkey x = gkey g)
         (\<lambda>x. x\<lparr>g_attempt_count := g_attempt_count g + 1, g_state := GenerationState.Running,
                g_started_at := Some now, g_updated_at := now\<rparr>) (db_generations d),
       db_events := es\<rparr>"

definition leasable :: "TenantId \<Rightarrow> GenerationRow \<Rightarrow> AttemptRow \<Rightarrow> db \<Rightarrow> bool" where
  "leasable t g b d \<longleftrightarrow>
     g \<in> set (db_generations d) \<and> agen b = gkey g \<and> g_state g = GenerationState.Queued \<and>
     g_attempt_count g < 3 \<and> a_attempt_number b = g_attempt_count g + 1 \<and> a_tenant b = t \<and>
     a_state b = AttemptState.Leased \<and> akey b \<notin> akey ` set (db_attempts d) \<and>
     aworker b \<in> wkey ` set (db_workers d) \<and>
     (\<exists>p \<in> set (db_pools d). pkey p = apool b \<and> p_claimed_slots p < p_total_slots p)"

lemma leased_db_keeps:
  assumes l: "leasable t g b d" and ev: "append_event t gen kind payload i clk' d = Ok (seq, d\<lparr>db_events := es\<rparr>)"
  shows "keeps t d (leased_db t g b es now clk d)"
proof (rule keepsI)
  let ?h = "\<lambda>x. x\<lparr>g_attempt_count := g_attempt_count g + 1, g_state := GenerationState.Running,
                g_started_at := Some now, g_updated_at := now\<rparr>"
  let ?P = "\<lambda>x. gkey x = gkey g"
  assume "good d"
  then have inv: "store_inv d" "inv_events d" and keys: "inv_keys d" by (simp_all add: goodD)
  obtain p where p: "p \<in> set (db_pools d)" "pkey p = apool b" "p_claimed_slots p < p_total_slots p"
    and g: "g \<in> set (db_generations d)" "agen b = gkey g" "g_state g = GenerationState.Queued"
      "g_attempt_count g < 3" "a_attempt_number b = g_attempt_count g + 1" "a_tenant b = t"
      "a_state b = AttemptState.Leased" "akey b \<notin> akey ` set (db_attempts d)"
      "aworker b \<in> wkey ` set (db_workers d)"
    using l unfolding leasable_def by blast
  have gt: "g_tenant g = t" using g(2,6) by (simp add: key_defs)
  have only: "x = g" if "x \<in> set (db_generations d)" "gkey x = gkey g" for x
    using gens.key_unique [OF _ that(1) g(1) that(2)] keys by (simp add: inv_keys_def)
  have "store_inv (d\<lparr>db_attempts := db_attempts d @ [b],
       db_pools := claim_in (apool b) (sql_now clk) (db_pools d),
       db_generations := update_where ?P ?h (db_generations d)\<rparr>)"
    using g(2,5,7-9) by (intro inv_lease [OF inv(1) g(1,3,4) p(1,3)]) (simp_all add: p(2) gkey_def)
  then have "store_inv (leased_db t g b es now clk d)" by (simp add: leased_db_def store_inv_other(5))
  moreover have "inv_events (leased_db t g b es now clk d)"
    by (rule iffD2 [OF inv_events_cong inv_append_event [OF inv(2) ev]]) (simp add: leased_db_def)
  moreover have "evolves t d (leased_db t g b es now clk d)"
  proof -
    have "gen_step x (?h x)" if "?P x" "x \<in> set (db_generations d)" for x
      using only [OF that(2,1)] g(3) by (auto simp: gen_step_def gkey_def intro!: r_into_rtranclp)
    then have "evolves t d (d\<lparr>db_generations := update_where ?P ?h (db_generations d)\<rparr>)"
      using gt by (intro evolves_generations [OF keys]) (auto simp: gkey_def)
    moreover have "evolves t d (d\<lparr>db_attempts := db_attempts d @ [b]\<rparr>)"
      using g(6,8) by (intro evolves_attempts_from [OF keys]) auto
    moreover have "evolves t d (d\<lparr>db_events := es\<rparr>)" using append_event_sound(2) [OF inv(1) ev] .
    moreover have "filter (\<lambda>r. p_tenant r \<noteq> t) (claim_in (apool b) (sql_now clk) (db_pools d)) =
        filter (\<lambda>r. p_tenant r \<noteq> t) (db_pools d)"
      unfolding claim_in_def using g(6) by (intro filter_update_where) (auto simp: key_defs)
    ultimately show ?thesis
      by (simp add: evolves_def leased_db_def gen_moves_def att_moves_def art_moves_def others_def)
  qed
  ultimately show "store_inv (leased_db t g b es now clk d) \<and> evolves t d (leased_db t g b es now clk d) \<and>
    inv_events (leased_db t g b es now clk d)" by blast
qed

lemma append_event_other_tables:
  assumes ok: "append_event t gen kind payload i clk d2 = Ok (seq, d3)"
    and same: "db_events d2 = db_events d" and g: "g \<in> set (db_generations d)" "gkey g = (t, gen)"
  shows "d3 = d2\<lparr>db_events := db_events d3\<rparr>"
    "append_event t gen kind payload i clk d = Ok (seq, d\<lparr>db_events := db_events d3\<rparr>)"
proof -
  have ev: "events_of t gen d2 = events_of t gen d" "next_sequence t gen d2 = next_sequence t gen d"
    using same by (simp_all add: events_of_def next_sequence_def)
  show "d3 = d2\<lparr>db_events := db_events d3\<rparr>"
    "append_event t gen kind payload i clk d = Ok (seq, d\<lparr>db_events := db_events d3\<rparr>)"
    using ok g by (auto simp: append_event_def ev same Let_def split: if_splits)
qed

lemma leased_db_eq:
  assumes keys: "inv_keys d" and g: "find (\<lambda>g. gkey g = (t, gen)) (db_generations d) = Some g"
      "g_state g = GenerationState.Queued" and b: "apool b = (t, pool)"
    and d2: "d2 = d\<lparr>db_pools := claim_in (t, pool) (sql_now clk) (db_pools d), db_attempts := db_attempts d @ [b],
      db_generations := update_where (\<lambda>g. gkey g = (t, gen))
        (\<lambda>g'. g'\<lparr>g_attempt_count := g_attempt_count g + 1\<rparr>) (db_generations d)\<rparr>"
  shows "snd (mark_running_generation t gen now (d2\<lparr>db_events := es\<rparr>)) = leased_db t g b es now clk d"
proof -
  have gm: "g \<in> set (db_generations d)" "gkey g = (t, gen)" using g(1) by (auto simp: find_Some_iff)
  have only: "x = g" if "x \<in> set (db_generations d)" "gkey x = (t, gen)" for x
    using gens.key_unique [OF _ that(1) gm(1)] that(2) gm(2) keys by (simp add: inv_keys_def)
  have "update_where (\<lambda>x. gkey x = (t, gen) \<and> g_state x = GenerationState.Queued)
        (\<lambda>x. x\<lparr>g_state := GenerationState.Running, g_started_at := Some now, g_updated_at := now\<rparr>)
        (update_where (\<lambda>g. gkey g = (t, gen)) (\<lambda>g'. g'\<lparr>g_attempt_count := g_attempt_count g + 1\<rparr>) (db_generations d)) =
      update_where (\<lambda>x. gkey x = gkey g) (\<lambda>x. x\<lparr>g_attempt_count := g_attempt_count g + 1,
        g_state := GenerationState.Running, g_started_at := Some now, g_updated_at := now\<rparr>) (db_generations d)"
    unfolding update_where_def map_map
  proof (rule map_cong [OF refl])
    fix x assume "x \<in> set (db_generations d)"
    then show "((\<lambda>x. if gkey x = (t, gen) \<and> g_state x = GenerationState.Queued
        then x\<lparr>g_state := GenerationState.Running, g_started_at := Some now, g_updated_at := now\<rparr> else x) \<circ>
      (\<lambda>x. if gkey x = (t, gen) then x\<lparr>g_attempt_count := g_attempt_count g + 1\<rparr> else x)) x =
      (if gkey x = gkey g then x\<lparr>g_attempt_count := g_attempt_count g + 1, g_state := GenerationState.Running,
         g_started_at := Some now, g_updated_at := now\<rparr> else x)"
    proof (cases "gkey x = (t, gen)")
      case True
      then have "x = g" using only \<open>x \<in> set (db_generations d)\<close> by blast
      then show ?thesis using g(2) gm(2) by (simp add: gkey_def)
    qed (simp add: gm(2))
  qed
  then show ?thesis
    by (simp add: d2 mark_running_generation_def update_generation_def leased_db_def b)
qed

lemma try_assign_cases:
  assumes good: "good (r_db r)" and ok: "try_assign S t asg inp r = (e, r')"
  obtains (unchanged) "r' = r"
  | (leased) g b lease es seq chans where "e = None" "leasable t g b (r_db r)"
      "g_id g = cd_generation_id (as_candidate asg)" "a_id b = ti_attempt inp"
      "a_worker b = as_worker_id asg" "a_pool b = as_pool_id asg"
      "a_lease_expires_at b = lease_expiry_from (ti_now inp)"
      "as_pool_id asg \<notin> set (excluded_pools t (g_id g) (r_db r))"
      "append_event t (g_id g) AttemptCreated (sv_audit S (a_id b) (a_attempt_number b) (a_worker b) (a_pool b))
         (ti_event inp) (ti_clk inp) (r_db r) = Ok (seq, (r_db r)\<lparr>db_events := es\<rparr>)"
      "build_lease_assignment S t (as_pool_key asg) b (g\<lparr>g_attempt_count := g_attempt_count g + 1,
         g_state := GenerationState.Running, g_started_at := Some (ti_now inp), g_updated_at := ti_now inp\<rparr>)
         (leased_db t g b es (ti_now inp) (ti_clk inp) (r_db r)) = Ok lease"
      "send (as_worker_id asg) (Lease lease) (r_sessions r) (r_chans r) = (Delivered, chans)"
      "r' = r\<lparr>r_db := leased_db t g b es (ti_now inp) (ti_clk inp) (r_db r), r_chans := chans\<rparr>"
proof (cases "r' = r")
  case False
  let ?d = "r_db r" and ?clk = "ti_clk inp" and ?now = "ti_now inp"
  let ?gen = "cd_generation_id (as_candidate asg)" and ?pool = "as_pool_id asg"
  have keys: "inv_keys ?d" using good by (rule goodD)
  let ?d1 = "?d\<lparr>db_pools := claim_in (t, ?pool) (sql_now ?clk) (db_pools ?d)\<rparr>"
  obtain b d2 seq d3 g' lease chans where
    excl: "?pool \<notin> set (excluded_pools t ?gen ?d)" and claim: "fst (claim_slot t ?pool ?clk ?d)"
    and cr: "create_attempt t ?gen (as_worker_id asg) ?pool (uuid_print (sv_text S) (sc_slot_id (as_capability asg)))
        (lease_expiry_from ?now) (ti_attempt inp) ?clk ?d1 = Ok (b, d2)"
    and ev: "append_attempt_created (sv_audit S) t ?gen (a_id b) (a_attempt_number b) (as_worker_id asg) ?pool
        (ti_event inp) ?clk d2 = Ok (seq, d3)"
    and g': "get_generation t ?gen (snd (mark_running_generation t ?gen ?now d3)) = Some g'"
    and lease: "build_lease_assignment S t (as_pool_key asg) b g' (snd (mark_running_generation t ?gen ?now d3)) = Ok lease"
    and sent: "send (as_worker_id asg) (Lease lease) (r_sessions r) (r_chans r) = (Delivered, chans)"
    and fin: "e = None" "r' = r\<lparr>r_db := snd (mark_running_generation t ?gen ?now d3), r_chans := chans\<rparr>"
    using ok False claim_slot_eq [of t ?pool ?clk ?d]
    by (auto simp: try_assign_def Let_def is_delivered_def split: if_splits prod.splits sum.splits
        CreateAttemptError.splits option.splits)
  obtain g where g: "find (\<lambda>g. gkey g = (t, ?gen)) (db_generations ?d) = Some g" "g_state g = GenerationState.Queued"
      "g_attempt_count g < 3"
    and b: "a_tenant b = t" "a_id b = ti_attempt inp" "a_generation b = ?gen" "a_attempt_number b = g_attempt_count g + 1"
      "a_state b = AttemptState.Leased" "a_worker b = as_worker_id asg" "a_pool b = ?pool"
      "a_lease_expires_at b = lease_expiry_from ?now"
    and new: "(t, ti_attempt inp) \<notin> akey ` set (db_attempts ?d)" "\<exists>w \<in> set (db_workers ?d). wkey w = (t, as_worker_id asg)"
    and d2: "d2 = ?d\<lparr>db_pools := claim_in (t, ?pool) (sql_now ?clk) (db_pools ?d), db_attempts := db_attempts ?d @ [b],
      db_generations := update_where (\<lambda>g. gkey g = (t, ?gen))
        (\<lambda>g'. g'\<lparr>g_attempt_count := g_attempt_count g + 1\<rparr>) (db_generations ?d)\<rparr>"
    using cr by (rule create_attempt_Ok) (simp del: excluded_pools_def)
  have gm: "g \<in> set (db_generations ?d)" "gkey g = (t, ?gen)" "g_id g = ?gen"
    using g(1) by (auto simp: find_Some_iff gkey_def)
  have ap: "apool b = (t, ?pool)" using b by (simp add: apool_def)
  note ae = append_event_other_tables [OF ev [unfolded append_attempt_created_def], of ?d, OF _ gm(1,2)]
  have ae': "d3 = d2\<lparr>db_events := db_events d3\<rparr>" "append_event t ?gen AttemptCreated
      (sv_audit S (a_id b) (a_attempt_number b) (a_worker b) (a_pool b)) (ti_event inp) ?clk ?d =
      Ok (seq, ?d\<lparr>db_events := db_events d3\<rparr>)"
    using ae by (simp_all add: d2 b)
  have d4: "snd (mark_running_generation t ?gen ?now d3) = leased_db t g b (db_events d3) ?now ?clk ?d"
    using leased_db_eq [OF keys g(1,2) ap d2, of ?now "db_events d3"] ae'(1) by simp
  have "\<exists>p \<in> set (db_pools ?d). pkey p = apool b \<and> p_claimed_slots p < p_total_slots p"
    using claim unfolding ap by (auto simp: claim_slot_def rows_affected_def filter_eq_Cons_iff length_Suc_conv)
  then have lb: "leasable t g b ?d"
    using g gm b new by (force simp: leasable_def key_defs image_iff)
  have "get_generation t ?gen (leased_db t g b (db_events d3) ?now ?clk ?d) =
      Some (g\<lparr>g_attempt_count := g_attempt_count g + 1, g_state := GenerationState.Running,
        g_started_at := Some ?now, g_updated_at := ?now\<rparr>)"
    using gens.lookup_update [of "\<lambda>x. gkey x = gkey g" "\<lambda>x. x\<lparr>g_attempt_count := g_attempt_count g + 1,
        g_state := GenerationState.Running, g_started_at := Some ?now, g_updated_at := ?now\<rparr>" "(t, ?gen)" ?d] g(1)
    by (simp add: get_generation_def leased_db_def gm(2)) (simp add: gkey_def)
  with g' have "g' = g\<lparr>g_attempt_count := g_attempt_count g + 1, g_state := GenerationState.Running,
        g_started_at := Some ?now, g_updated_at := ?now\<rparr>" by (simp add: d4)
  then show thesis
    using leased [OF fin(1) lb gm(3) b(2,6-8)] excl ae'(2) lease sent fin(2) by (simp add: gm(3) d4)
qed (rule unchanged)

lemma keeps_try_assign [keeps_intros]:
  "keeps t (r_db r) (r_db (snd (try_assign S t asg inp r)))"
proof (cases "good (r_db r)")
  case True
  obtain e r' where ok: "try_assign S t asg inp r = (e, r')" by (cases "try_assign S t asg inp r")
  from True ok show ?thesis
    by (cases rule: try_assign_cases) (simp_all add: ok leased_db_keeps)
qed (simp add: keeps_def)

lemma keeps_assign_all [keeps_intros]: "keeps t (r_db r) (r_db (assign_all S t inputs k plan r))"
  by (induction S t inputs k plan r rule: assign_all.induct) (auto intro: keeps_trans [OF keeps_try_assign])

lemma keeps_schedule [keeps_intros]: "keeps t (r_db r) (r_db (snd (try_schedule_tenant S t now inputs r)))"
  by (auto simp: try_schedule_tenant_def Let_def keeps_assign_all split: sum.split)

interpretation scheduler_op: tenant_op
  "\<lambda>t d d'. \<exists>S now inputs r. r_db r = d \<and> d' = r_db (snd (try_schedule_tenant S t now inputs r))"
  by unfold_locales (auto intro: keeps_schedule)

section \<open>Lemmas on the snapshot\<close>

lemma queued_candidates_rows:
  assumes "good d"
  shows "distinct (map cd_generation_id (queued_candidates E t limit d))"
    and "c \<in> set (queued_candidates E t limit d) \<Longrightarrow>
      \<exists>g \<in> set (db_generations d). gkey g = (t, cd_generation_id c) \<and> g_state g = GenerationState.Queued"
proof -
  let ?rows = "take limit (sort_key g_created_at
    (filter (\<lambda>g. g_tenant g = t \<and> g_state g = GenerationState.Queued) (db_generations d)))"
  have row: "set ?rows \<subseteq> {g \<in> set (db_generations d). g_tenant g = t \<and> g_state g = GenerationState.Queued}"
    by (rule subset_trans [OF set_take_subset]) auto
  have id: "into_candidate E t d g = Ok c \<Longrightarrow> cd_generation_id c = g_id g" for g c
    by (auto simp: into_candidate_def rbind_eq_Ok)
  have "distinct (map gkey (db_generations d))" using goodD(3) [OF assms] by (simp add: inv_keys_def)
  then have "inj_on g_id {g \<in> set (db_generations d). g_tenant g = t \<and> g_state g = GenerationState.Queued}"
    by (auto simp: distinct_map inj_on_def gkey_def)
  moreover have "distinct ?rows"
    using \<open>distinct (map gkey (db_generations d))\<close> by (intro distinct_take) (auto simp: distinct_map)
  ultimately have dist: "distinct (map g_id ?rows)"
    using inj_on_subset [OF _ row] by (auto simp: distinct_map)
  have sub: "distinct (map g_id rows) \<Longrightarrow>
      distinct (map cd_generation_id (oks (map (into_candidate E t d) rows))) \<and>
      cd_generation_id ` set (oks (map (into_candidate E t d) rows)) \<subseteq> g_id ` set rows" for rows
    by (induction rows) (auto simp: oks_def id split: sum.splits)
  show "distinct (map cd_generation_id (queued_candidates E t limit d))"
    using sub [OF dist] by (simp add: queued_candidates_def)
  show "\<exists>g \<in> set (db_generations d). gkey g = (t, cd_generation_id c) \<and> g_state g = GenerationState.Queued"
    if c: "c \<in> set (queued_candidates E t limit d)"
  proof -
    obtain g where "g \<in> set ?rows" "g_id g = cd_generation_id c"
      using sub [OF dist] imageI [OF c, of cd_generation_id] unfolding queued_candidates_def by auto
    then show ?thesis using row by (auto simp: gkey_def intro!: bexI [of _ g])
  qed
qed

lemma unat_u32_or_0: "unat (u32_or_0 n) \<le> nat n"
proof (cases "0 \<le> n \<and> n < 2 ^ 32")
  case True
  then have "unat (word_of_int n :: u32) = nat n" by (simp add: unat_eq_nat_uint word_of_int_inverse)
  then show ?thesis using True by (simp add: u32_or_0_def)
qed (auto simp: u32_or_0_def)

lemma pool_capabilities_views:
  assumes "good d" "pool_capabilities E t d = Ok views"
  shows "distinct (map (\<lambda>v. sc_pool_id (fst v)) views)"
    and "v \<in> set views \<Longrightarrow> \<exists>p \<in> set (db_pools d). pkey p = (t, sc_pool_id (fst v)) \<and> p_ready p \<and>
      fst (snd v) = u32_or_0 (p_free_slots p) \<and> fst (snd (snd v)) = p_worker_id p"
proof -
  let ?pools = "filter (\<lambda>p. p_tenant p = t \<and> p_ready p \<and>
      (\<exists>w \<in> set (db_workers d). wkey w = (t, p_worker_id p) \<and> w_revoked_at w = None)) (db_pools d)"
  have view: "build_slot_capability E t d p = Ok v \<Longrightarrow> sc_pool_id (fst v) = p_id p \<and>
      fst (snd v) = u32_or_0 (p_free_slots p) \<and> fst (snd (snd v)) = p_worker_id p" for p v
    by (auto simp: build_slot_capability_def rbind_eq_Ok)
  have rel: "list_all2 (\<lambda>p v. build_slot_capability E t d p = Ok v) ?pools views"
    using assms(2) by (simp add: pool_capabilities_def rmap_Ok_iff)
  then have ids: "map (\<lambda>v. sc_pool_id (fst v)) views = map p_id ?pools"
    by (induction rule: list_all2_induct) (auto dest: view)
  have "distinct (map pkey (db_pools d))" using goodD(3) [OF assms(1)] by (simp add: inv_keys_def)
  then have "distinct (map p_id ?pools)" by (auto simp: distinct_map inj_on_def pkey_def)
  then show "distinct (map (\<lambda>v. sc_pool_id (fst v)) views)" by (simp only: ids)
  show "\<exists>p \<in> set (db_pools d). pkey p = (t, sc_pool_id (fst v)) \<and> p_ready p \<and>
      fst (snd v) = u32_or_0 (p_free_slots p) \<and> fst (snd (snd v)) = p_worker_id p" if v: "v \<in> set views"
  proof -
    obtain p where "p \<in> set ?pools" "build_slot_capability E t d p = Ok v"
      using rmap_Ok_set [OF assms(2) [unfolded pool_capabilities_def]] v by blast
    then show ?thesis using view [of p v] by (intro bexI [of _ p]) (simp_all add: pkey_def)
  qed
qed

section \<open>Properties\<close>

text \<open>C15: The plan of a scheduling pass is safe. Every planned assignment pairs a queued
  Generation of the Tenant with a ready Pool of an online Worker that admits the Generation's
  requirement and is not excluded for it; a Pool is planned at most as many Generations as it
  has free Slots, none of them twice.\<close>
theorem scheduling_plan_safe:
  assumes "good d" "pool_capabilities E t d = Ok views"
    and "candidates = queued_candidates E t CANDIDATE_FETCH_LIMIT d"
    and "plan = plan_assignments views candidates
      (excluded_pools_for_generations t (map cd_generation_id candidates) d) setts now online"
  shows "(\<forall>a \<in> set plan. \<exists>g \<in> set (db_generations d). \<exists>p \<in> set (db_pools d).
      gkey g = (t, cd_generation_id (as_candidate a)) \<and> g_state g = GenerationState.Queued \<and>
      pkey p = (t, as_pool_id a) \<and> p_ready p \<and> p_worker_id p = as_worker_id a \<and> online (as_worker_id a) \<and>
      is_ok (admits (as_capability a) (cd_requirement (as_candidate a))) \<and>
      p_id p \<notin> set (excluded_pools t (g_id g) d)) \<and>
    (\<forall>p \<in> set (db_pools d). p_tenant p = t \<longrightarrow>
      length (filter (\<lambda>a. as_pool_id a = p_id p) plan) \<le> nat (p_total_slots p - p_claimed_slots p) \<and>
      distinct (map (\<lambda>a. cd_generation_id (as_candidate a)) (filter (\<lambda>a. as_pool_id a = p_id p) plan)))"
proof (intro conjI ballI impI)
  let ?ex = "excluded_pools_for_generations t (map cd_generation_id candidates) d"
  have dist: "distinct (map cd_generation_id candidates)"
    using queued_candidates_rows(1) [OF assms(1)] by (simp add: assms(3))
  note views = pool_capabilities_views [OF assms(1,2)]
  have sound: "length (plan_pool candidates ?ex setts now online v) \<le> unat (fst (snd v))"
    "distinct (map (\<lambda>a. cd_generation_id (as_candidate a)) (plan_pool candidates ?ex setts now online v))"
    "a \<in> set (plan_pool candidates ?ex setts now online v) \<Longrightarrow>
       as_pool_id a = sc_pool_id (fst v) \<and> as_worker_id a = fst (snd (snd v)) \<and>
       as_capability a = fst v \<and> online (fst (snd (snd v))) \<and> as_candidate a \<in> set candidates \<and>
       is_ok (admits (fst v) (cd_requirement (as_candidate a))) \<and>
       sc_pool_id (fst v) \<notin> set (?ex (cd_generation_id (as_candidate a)))" for v a
  proof -
    have v: "v = (fst v, fst (snd v), fst (snd (snd v)), snd (snd (snd v)))" by simp
    show "length (plan_pool candidates ?ex setts now online v) \<le> unat (fst (snd v))"
      "distinct (map (\<lambda>a. cd_generation_id (as_candidate a)) (plan_pool candidates ?ex setts now online v))"
      by (rule plan_pool_sound(1) [OF dist v] plan_pool_sound(2) [OF dist v])+
    assume "a \<in> set (plan_pool candidates ?ex setts now online v)"
    note plan_pool_sound(3) [OF dist v this]
    then show "as_pool_id a = sc_pool_id (fst v) \<and> as_worker_id a = fst (snd (snd v)) \<and>
       as_capability a = fst v \<and> online (fst (snd (snd v))) \<and> as_candidate a \<in> set candidates \<and>
       is_ok (admits (fst v) (cd_requirement (as_candidate a))) \<and>
       sc_pool_id (fst v) \<notin> set (?ex (cd_generation_id (as_candidate a)))" by blast
  qed
  show "\<exists>g \<in> set (db_generations d). \<exists>p \<in> set (db_pools d).
      gkey g = (t, cd_generation_id (as_candidate a)) \<and> g_state g = GenerationState.Queued \<and>
      pkey p = (t, as_pool_id a) \<and> p_ready p \<and> p_worker_id p = as_worker_id a \<and> online (as_worker_id a) \<and>
      is_ok (admits (as_capability a) (cd_requirement (as_candidate a))) \<and>
      p_id p \<notin> set (excluded_pools t (g_id g) d)" if a: "a \<in> set plan" for a
  proof -
    obtain v where v: "v \<in> set views" "a \<in> set (plan_pool candidates ?ex setts now online v)"
      using a by (auto simp: assms(4) plan_assignments_def)
    obtain p where p: "p \<in> set (db_pools d)" "pkey p = (t, sc_pool_id (fst v))" "p_ready p"
      "fst (snd (snd v)) = p_worker_id p" using views(2) [OF v(1)] by blast
    obtain g where g: "g \<in> set (db_generations d)" "gkey g = (t, cd_generation_id (as_candidate a))"
      "g_state g = GenerationState.Queued"
      using queued_candidates_rows(2) [OF assms(1)] sound(3) [OF v(2)] assms(3) by metis
    have "p_id p \<notin> set (excluded_pools t (g_id g) d)"
      using sound(3) [OF v(2)] p(2) g(2) by (auto simp: excluded_pools_for_generations_def key_defs)
    then show ?thesis using sound(3) [OF v(2)] p g by (intro bexI [of _ g] bexI [of _ p]) auto
  qed
  fix p assume p: "p \<in> set (db_pools d)" "p_tenant p = t"
  let ?own = "filter (\<lambda>a. as_pool_id a = p_id p) plan"
  have "length ?own \<le> nat (p_total_slots p - p_claimed_slots p) \<and> distinct (map (\<lambda>a. cd_generation_id (as_candidate a)) ?own)"
  proof (cases "\<exists>v \<in> set views. sc_pool_id (fst v) = p_id p")
    case True
    then obtain v where v: "v \<in> set views" "sc_pool_id (fst v) = p_id p" by blast
    have own: "?own = plan_pool candidates ?ex setts now online v"
      using plan_of_pool [OF dist views(1) v(1)] by (simp add: assms(4) v(2))
    obtain q where q: "q \<in> set (db_pools d)" "pkey q = (t, p_id p)" "fst (snd v) = u32_or_0 (p_free_slots q)"
      using views(2) [OF v(1)] v(2) by auto
    have "q = p"
      using pools.key_unique [OF _ q(1) p(1)] q(2) p(2) goodD(3) [OF assms(1)] by (simp add: inv_keys_def pkey_def)
    then show ?thesis
      using sound(1,2) [of v] unat_u32_or_0 [of "p_free_slots p"] q(3) by (simp add: own p_free_slots_def)
  next
    case False
    have "?own = []"
      using False sound(3) by (fastforce simp: assms(4) plan_assignments_def filter_empty_conv)
    then show ?thesis by simp
  qed
  then show "length ?own \<le> nat (p_total_slots p - p_claimed_slots p)"
    "distinct (map (\<lambda>a. cd_generation_id (as_candidate a)) ?own)" by simp_all
qed

lemma example_views:
  "pool_capabilities example_env 7 example_ready_db = Ok [((example_slot 7)\<lparr>sc_slot_id := 2, sc_accelerator_version := []\<rparr>, 2, 1, ''pool-0'')]"
  by (simp add: pool_capabilities_def build_slot_capability_def advertised_manifests_def example_ready_db_def
      example_queued_db_def empty_db_def example_model_row_def example_pool_def example_worker_def example_env_def
      wkey_def btree_set_def u64_of_bigint_def u32_or_0_def p_free_slots_def example_slot_def)

lemma example_candidates:
  "queued_candidates example_env 7 CANDIDATE_FETCH_LIMIT example_ready_db =
     [\<lparr>cd_generation_id = 10, cd_created_at = 0, cd_priority = Priority 5, cd_requirement = example_requirement 7\<rparr>]"
  by (simp add: queued_candidates_def oks_def into_candidate_def requirement_from_parts_def pinned_manifest_def
      example_for_generation example_ready_db_def example_queued_db_def empty_db_def example_generation_def example_model_row_def example_env_def
      Priority_new_def Priority_MAX_def CANDIDATE_FETCH_LIMIT_def)

theorem scheduling_plan_safe_witness:
  "length (filter (\<lambda>a. as_pool_id a = 2) (plan_assignments
      [((example_slot 7)\<lparr>sc_slot_id := 2, sc_accelerator_version := []\<rparr>, 2, 1, ''pool-0'')]
      (queued_candidates example_env 7 CANDIDATE_FETCH_LIMIT example_ready_db)
      (excluded_pools_for_generations 7 (map cd_generation_id
        (queued_candidates example_env 7 CANDIDATE_FETCH_LIMIT example_ready_db)) example_ready_db)
      TenantSettings_default 50 (\<lambda>_. True))) \<le> 2"
  using scheduling_plan_safe [OF example_ready_good(1) example_views refl refl]
  by (simp add: example_ready_db_def example_queued_db_def example_pool_def)

text \<open>C14: An assignment is atomic. Either nothing of the Remote changes, or the lease of a new
  Attempt is queued, last, for the Worker and exactly the corresponding rows are committed: the
  Generation was queued with fewer than three Attempts and is now running with one more, the
  new Attempt carries the next number and expires one lease term after the time the pass read,
  its Pool was not excluded and had a free Slot, which is now claimed. Failure to send the lease
  or to build it leaves no trace, and the store stays good.\<close>
theorem assignment_atomic:
  assumes "good (r_db r)" "try_assign S t asg inp r = (e, r')"
  shows "good (r_db r') \<and> (r' = r \<or>
    (\<exists>g b lease entry p. e = None \<and> g \<in> set (db_generations (r_db r)) \<and>
       gkey g = (t, cd_generation_id (as_candidate asg)) \<and> g_state g = GenerationState.Queued \<and>
       g_attempt_count g < 3 \<and> as_pool_id asg \<notin> set (excluded_pools t (g_id g) (r_db r)) \<and>
       map_option (\<lambda>x. (g_state x, g_attempt_count x)) (get_generation t (g_id g) (r_db r')) =
         Some (GenerationState.Running, g_attempt_count g + 1) \<and>
       db_attempts (r_db r') = db_attempts (r_db r) @ [b] \<and> akey b = (t, ti_attempt inp) \<and> agen b = gkey g \<and>
       a_state b = AttemptState.Leased \<and> a_worker b = as_worker_id asg \<and> a_pool b = as_pool_id asg \<and>
       a_attempt_number b = g_attempt_count g + 1 \<and>
       a_lease_expires_at b = lease_expiry_from (ti_now inp) \<and>
       p \<in> set (db_pools (r_db r)) \<and> pkey p = (t, as_pool_id asg) \<and> p_claimed_slots p < p_total_slots p \<and>
       db_pools (r_db r') = claim_in (pkey p) (sql_now (ti_clk inp)) (db_pools (r_db r)) \<and>
       r_sessions r (as_worker_id asg) = Some entry \<and>
       r_chans r' = (r_chans r)(se_outbound entry := (r_chans r (se_outbound entry))
         \<lparr>ch_queue := ch_queue (r_chans r (se_outbound entry)) @ [Lease lease]\<rparr>) \<and>
       la_attempt_id lease = uuid_print (sv_text S) (a_id b) \<and>
       la_generation_id lease = uuid_print (sv_text S) (g_id g) \<and>
       la_lease_expires_at lease = a_lease_expires_at b))"
  using assms
proof (cases rule: try_assign_cases)
  case unchanged
  with assms(1) show ?thesis by simp
next
  case (leased g b lease es seq chans)
  have good': "good (r_db r')" using keeps_good [OF keeps_try_assign assms(1)] assms(2) by (metis snd_conv)
  obtain p where p: "p \<in> set (db_pools (r_db r))" "pkey p = apool b" "p_claimed_slots p < p_total_slots p"
    and g: "g \<in> set (db_generations (r_db r))" "agen b = gkey g" "g_state g = GenerationState.Queued"
      "g_attempt_count g < 3" "a_attempt_number b = g_attempt_count g + 1" "a_tenant b = t"
      "a_state b = AttemptState.Leased"
    using leased(2) by (auto simp: leasable_def)
  have key: "gkey g = (t, g_id g)" "apool b = (t, as_pool_id asg)" "akey b = (t, ti_attempt inp)"
    using g(2,6) leased(4,6) by (simp_all add: key_defs)
  have find: "get_generation t (g_id g) (r_db r) = Some g"
    using g(1) key(1) goodD(3) [OF assms(1)] unfolding get_generation_def inv_keys_def
    by (subst gens.lookup_Some_iff) simp_all
  have "get_generation t (g_id g) (r_db r') = Some (g\<lparr>g_attempt_count := g_attempt_count g + 1,
        g_state := GenerationState.Running, g_started_at := Some (ti_now inp), g_updated_at := ti_now inp\<rparr>)"
    using gens.lookup_update [of "\<lambda>x. gkey x = gkey g" "\<lambda>x. x\<lparr>g_attempt_count := g_attempt_count g + 1,
        g_state := GenerationState.Running, g_started_at := Some (ti_now inp), g_updated_at := ti_now inp\<rparr>"
        "(t, g_id g)" "r_db r"] find
    by (simp add: get_generation_def leased(12) leased_db_def key(1)) (simp add: gkey_def)
  moreover obtain entry where "r_sessions r (as_worker_id asg) = Some entry"
    "chans = (r_chans r)(se_outbound entry := (r_chans r (se_outbound entry))
       \<lparr>ch_queue := ch_queue (r_chans r (se_outbound entry)) @ [Lease lease]\<rparr>)"
    using leased(11) by (auto simp: send_def try_send_def split: option.splits if_splits)
  moreover have "la_attempt_id lease = uuid_print (sv_text S) (a_id b)"
    "la_generation_id lease = uuid_print (sv_text S) (g_id g)" "la_lease_expires_at lease = a_lease_expires_at b"
    using leased(10) by (auto simp: build_lease_assignment_def Let_def rbind_eq_Ok split: if_splits option.splits)
  ultimately show ?thesis
    using good' leased(1,3-8) p g key
    by (intro conjI disjI2 exI [of _ g] exI [of _ b] exI [of _ lease] exI [of _ entry] exI [of _ p])
      (simp_all add: leased(12) leased_db_def)
qed

definition example_assignment :: SlotAssignment where
  "example_assignment = \<lparr>as_worker_id = 1, as_pool_id = 2, as_pool_key = ''pool-0'',
     as_capability = example_slot 7,
     as_candidate = \<lparr>cd_generation_id = 10, cd_created_at = 0, cd_priority = Priority 5,
                     cd_requirement = example_requirement 7\<rparr>\<rparr>"

definition example_leased :: remote where
  "example_leased = snd (try_assign example_services 7 example_assignment example_input (example_remote example_ready_db))"

lemma example_leased_attempts: "length (db_attempts (r_db example_leased)) = 1"
  by (simp add: example_leased_def try_assign_def Let_def example_assignment_def example_remote_def example_ready_db_def
      example_queued_db_def empty_db_def excluded_pools_def claim_slot_def rows_affected_def update_where_def
      example_pool_def pkey_def gkey_def create_attempt_def insert_attempt_def example_generation_def example_worker_def
      aworker_def apool_def akey_def agen_def wkey_def append_attempt_created_def append_event_def next_sequence_def
      events_of_def mark_running_generation_def update_generation_def get_generation_def example_input_def
      example_clocks_def build_lease_assignment_def get_model_version_def into_row_def example_model_row_def
      example_services_def example_env_def decode_manifest_def decode_limits_def list_inputs_def send_def try_send_def
      is_delivered_def MAX_ATTEMPTS_def)

theorem assignment_atomic_witness:
  "\<exists>(g :: GenerationRow) lease. g_state g = GenerationState.Queued \<and> g_id g = 10 \<and> ch_queue (r_chans example_leased 0) = [Lease lease]"
proof -
  have "length (db_attempts (r_db (example_remote example_ready_db))) = 0"
    by (simp add: example_remote_def example_ready_db_def example_queued_db_def empty_db_def)
  then have "example_leased \<noteq> example_remote example_ready_db" using example_leased_attempts by force
  moreover have run: "try_assign example_services 7 example_assignment example_input (example_remote example_ready_db) =
      (fst (try_assign example_services 7 example_assignment example_input (example_remote example_ready_db)), example_leased)"
    by (simp add: example_leased_def)
  moreover have "good (r_db (example_remote example_ready_db))"
    using example_ready_good(1) by (simp add: example_remote_def)
  ultimately obtain g lease entry where "gkey g = (7, cd_generation_id (as_candidate example_assignment))"
    "g_state g = GenerationState.Queued"
    "r_sessions (example_remote example_ready_db) (as_worker_id example_assignment) = Some entry"
    "r_chans example_leased = (r_chans (example_remote example_ready_db))(se_outbound entry :=
       (r_chans (example_remote example_ready_db) (se_outbound entry))
       \<lparr>ch_queue := ch_queue (r_chans (example_remote example_ready_db) (se_outbound entry)) @ [Lease lease]\<rparr>)"
    using assignment_atomic [OF _ run] by blast
  then show ?thesis
    by (intro exI [of _ g] exI [of _ lease]) (auto simp: gkey_def example_assignment_def example_remote_def)
qed

end
