(* ===== verification/Expiry.thy ===== *)
theory Expiry
  imports Scheduler
begin

text \<open>
  The expiry loop, \<^verbatim>\<open>gpq-remote/src/expiry.rs\<close>: the five sweeps over a Tenant (lapsed leases,
  overdue executions, starved queue, cancellations to re-deliver, lapsed Artifacts). Each sweep
  is one transaction followed by the events, cancel requests and object deletions it owes; a
  failed statement rolls the transaction back. The computation of the starvation cutoff may
  panic, which ends the loop.
\<close>

definition SWEEP_LIMIT :: nat where "SWEEP_LIMIT = 200"

definition STARVATION_EXPIRY_MULTIPLIER :: nat where "STARVATION_EXPIRY_MULTIPLIER = 2"

datatype sweep_result = Swept | SweepFailed sql_error | SweepPanicked

definition settles_generation :: "RetryDecision \<Rightarrow> bool" where
  "settles_generation decision \<longleftrightarrow> decision = Fail"

definition input_object_key :: "ArtifactRow \<Rightarrow> string option" where
  "input_object_key artifact =
     (case f_placement artifact of
        ArtifactPlacement.ObjectStore \<Rightarrow> f_object_key artifact
      | ArtifactPlacement.WorkerLocal \<Rightarrow> None
      | ArtifactPlacement.RemoteLocal \<Rightarrow> None)"

definition release_deleted_inputs :: "ArtifactRow list \<Rightarrow> remote \<Rightarrow> remote" where
  "release_deleted_inputs rows r =
     r\<lparr>r_object_deletes := r_object_deletes r @ List.map_filter input_object_key rows\<rparr>"

definition cancel_request_message :: "services \<Rightarrow> AttemptId \<Rightarrow> string \<Rightarrow> RemoteMessage" where
  "cancel_request_message S attempt reason = CancelRequest (uuid_print (sv_text S) attempt) reason"

fun send_cancels :: "services \<Rightarrow> string \<Rightarrow> AttemptRow list \<Rightarrow> remote \<Rightarrow> remote" where
  "send_cancels S reason [] r = r"
| "send_cancels S reason (a # rest) r =
     send_cancels S reason rest
       (r\<lparr>r_chans := snd (send (a_worker a) (cancel_request_message S (a_id a) reason) (r_sessions r) (r_chans r))\<rparr>)"

definition publish_generation_state ::
  "services \<Rightarrow> TenantId \<Rightarrow> GenerationId \<Rightarrow> tx_input \<Rightarrow> remote \<Rightarrow> remote" where
  "publish_generation_state S t gen inp r =
     publish_state_event S t gen (generation_snapshot t gen (r_db r)) inp r"

fun publish_all :: "services \<Rightarrow> TenantId \<Rightarrow> (nat \<Rightarrow> tx_input) \<Rightarrow> nat \<Rightarrow> GenerationId list \<Rightarrow> remote \<Rightarrow> remote" where
  "publish_all S t inputs k [] r = r"
| "publish_all S t inputs k (gen # rest) r =
     publish_all S t inputs (Suc k) rest (publish_generation_state S t gen (inputs k) r)"

section \<open>Sweeps\<close>

fun request_cancels :: "TenantId \<Rightarrow> datetime \<Rightarrow> AttemptRow list \<Rightarrow> db \<Rightarrow> db" where
  "request_cancels t now [] d = d"
| "request_cancels t now (a # rest) d = request_cancels t now rest (snd (request_cancel t (a_id a) now d))"

definition propagate_cancellations :: "services \<Rightarrow> TenantId \<Rightarrow> datetime \<Rightarrow> remote \<Rightarrow> sweep_result \<times> remote" where
  "propagate_cancellations S t now r =
     (let cancelling = live_for_cancelling_generations t SWEEP_LIMIT (r_db r) in
      (Swept, send_cancels S ''cancellation requested'' cancelling
                (r\<lparr>r_db := request_cancels t now cancelling (r_db r)\<rparr>)))"

text \<open>The settling loop of the first two sweeps: the Generations that changed and the input rows
  deleted because their Generation settled.\<close>

definition clean_settled ::
  "TenantId \<Rightarrow> (GenerationId \<times> RetryDecision) option \<Rightarrow> db \<Rightarrow> (GenerationId list \<times> ArtifactRow list) \<times> db" where
  "clean_settled t outcome d =
     (case outcome of
        None \<Rightarrow> (([], []), d)
      | Some (gen, decision) \<Rightarrow>
          if settles_generation decision
          then case delete_inputs_for_generation t gen d of (rows, d1) \<Rightarrow> (([gen], rows), d1)
          else (([gen], []), d))"

fun settle_each ::
  "(AttemptRow \<Rightarrow> db \<Rightarrow> (GenerationId \<times> RetryDecision) option tx) \<Rightarrow> TenantId \<Rightarrow> AttemptRow list \<Rightarrow> db \<Rightarrow>
   (GenerationId list \<times> ArtifactRow list) tx" where
  "settle_each settle t [] d = Ok (([], []), d)"
| "settle_each settle t (a # rest) d =
     rbind (settle a d) (\<lambda>(outcome, d1).
       case clean_settled t outcome d1 of ((gens, rows), d2) \<Rightarrow>
         rbind (settle_each settle t rest d2) (\<lambda>((gens', rows'), d3).
            Ok ((gens @ gens', rows @ rows'), d3)))"

definition expire_lease ::
  "services \<Rightarrow> TenantId \<Rightarrow> datetime \<Rightarrow> clocks \<Rightarrow> AttemptRow \<Rightarrow> db \<Rightarrow> (GenerationId \<times> RetryDecision) option tx" where
  "expire_lease S t now clk a d =
     record_lease_expiry (sv_env S) t (a_id a) now clk (snd (request_cancel t (a_id a) now d))"

definition time_out ::
  "services \<Rightarrow> TenantId \<Rightarrow> datetime \<Rightarrow> clocks \<Rightarrow> AttemptRow \<Rightarrow> db \<Rightarrow> (GenerationId \<times> RetryDecision) option tx" where
  "time_out S t now clk a d =
     record_failure (sv_env S) t (a_id a)
       \<lparr>fd_kind = FailureKind.ExecutionTimedOut, fd_message = ''execution exceeded its resolved timeout'',
        fd_worker_retry_hint = False\<rparr> now clk d"

definition settle_sweep ::
  "services \<Rightarrow> TenantId \<Rightarrow> string \<Rightarrow> (AttemptRow \<Rightarrow> db \<Rightarrow> (GenerationId \<times> RetryDecision) option tx) \<Rightarrow>
   AttemptRow list \<Rightarrow> (nat \<Rightarrow> tx_input) \<Rightarrow> remote \<Rightarrow> sweep_result \<times> remote" where
  "settle_sweep S t reason settle due inputs r =
     (case settle_each settle t due (r_db r) of
        Err e \<Rightarrow> (SweepFailed e, r)
      | Ok ((gens, rows), d) \<Rightarrow>
          (Swept, send_cancels S reason due
                    (publish_all S t inputs 0 gens (release_deleted_inputs rows (r\<lparr>r_db := d\<rparr>)))))"

definition expire_leases ::
  "services \<Rightarrow> TenantId \<Rightarrow> datetime \<Rightarrow> clocks \<Rightarrow> (nat \<Rightarrow> tx_input) \<Rightarrow> remote \<Rightarrow> sweep_result \<times> remote" where
  "expire_leases S t now clk inputs r =
     settle_sweep S t ''lease expired'' (expire_lease S t now clk)
       (expired_leases t now SWEEP_LIMIT (r_db r)) inputs r"

definition enforce_execution_deadlines ::
  "services \<Rightarrow> TenantId \<Rightarrow> datetime \<Rightarrow> clocks \<Rightarrow> (nat \<Rightarrow> tx_input) \<Rightarrow> remote \<Rightarrow> sweep_result \<times> remote" where
  "enforce_execution_deadlines S t now clk inputs r =
     settle_sweep S t ''execution timed out'' (time_out S t now clk)
       (overdue_executions t now SWEEP_LIMIT (r_db r)) inputs r"

definition has_unrejected_candidate :: "SlotCapability list \<Rightarrow> Requirement \<Rightarrow> DevicePoolId list \<Rightarrow> bool" where
  "has_unrejected_candidate capabilities requirement excluded =
     any_candidate_remains (filter (\<lambda>c. sc_pool_id c \<notin> set excluded) capabilities) requirement"

fun expire_each ::
  "TenantId \<Rightarrow> datetime \<Rightarrow> (Candidate \<Rightarrow> bool) \<Rightarrow> Candidate list \<Rightarrow> db \<Rightarrow> (GenerationId list \<times> ArtifactRow list) \<times> db"
where
  "expire_each t now has_candidate [] d = (([], []), d)"
| "expire_each t now has_candidate (c # rest) d =
     (if \<not> has_candidate c \<and> fst (expire_generation t (cd_generation_id c) now d)
      then let (rows, d1) = delete_inputs_for_generation t (cd_generation_id c)
                              (snd (expire_generation t (cd_generation_id c) now d));
               ((gens', rows'), d2) = expire_each t now has_candidate rest d1
           in ((cd_generation_id c # gens', rows @ rows'), d2)
      else expire_each t now has_candidate rest d)"

definition expire_starved_queue ::
  "services \<Rightarrow> TenantId \<Rightarrow> datetime \<Rightarrow> (nat \<Rightarrow> tx_input) \<Rightarrow> remote \<Rightarrow> sweep_result \<times> remote" where
  "expire_starved_queue S t now inputs r =
     (case settings t (r_db r) of
        Err e \<Rightarrow> (SweepFailed e, r)
      | Ok s \<Rightarrow>
          let setts = (case s of Some x \<Rightarrow> x | None \<Rightarrow> TenantSettings_default) in
          (case sv_delta_from_std S (maximum_queue_age setts * STARVATION_EXPIRY_MULTIPLIER) of
             None \<Rightarrow> (Swept, r)
           | Some threshold \<Rightarrow>
               (case sv_datetime_sub S now threshold of
                  None \<Rightarrow> (SweepPanicked, r)
                | Some cutoff \<Rightarrow>
                    let candidates = queued_candidates (sv_env S) t SWEEP_LIMIT (r_db r) in
                    if candidates = [] then (Swept, r)
                    else
                      (case pool_capabilities (sv_env S) t (r_db r) of
                         Err e \<Rightarrow> (SweepFailed e, r)
                       | Ok capabilities \<Rightarrow>
                           let exclusions = excluded_pools_for_generations t
                                              (map cd_generation_id candidates) (r_db r);
                               ((gens, rows), d) = expire_each t now
                                 (\<lambda>c. has_unrejected_candidate (map fst capabilities) (cd_requirement c)
                                        (exclusions (cd_generation_id c)))
                                 (filter (\<lambda>c. cd_created_at c \<le> cutoff) candidates) (r_db r)
                           in (Swept, publish_all S t inputs 0 gens
                                        (release_deleted_inputs rows (r\<lparr>r_db := d\<rparr>)))))))"

definition expire_artifacts :: "TenantId \<Rightarrow> datetime \<Rightarrow> remote \<Rightarrow> sweep_result \<times> remote" where
  "expire_artifacts t now r =
     (let (expired, d) = expire_due t now (r_db r)
      in (Swept, r\<lparr>r_db := d, r_object_deletes := r_object_deletes r @
            List.map_filter (\<lambda>f. if f_placement f = ArtifactPlacement.ObjectStore then f_object_key f else None) expired\<rparr>))"

text \<open>
  What one sweep draws from outside: the time it read, the database clocks and the identifiers of
  the events it records.
\<close>

record sweep_input =
  si_now :: datetime
  si_clk :: clocks
  si_events :: "nat \<Rightarrow> tx_input"

text \<open>The sweeps of one Tenant in order; a panic ends the loop, so nothing follows it.\<close>

definition sweep_tenant :: "services \<Rightarrow> TenantId \<Rightarrow> (nat \<Rightarrow> sweep_input) \<Rightarrow> remote \<Rightarrow> bool \<times> remote" where
  "sweep_tenant S t inputs r =
     (let r1 = snd (expire_leases S t (si_now (inputs 0)) (si_clk (inputs 0)) (si_events (inputs 0)) r);
          r2 = snd (enforce_execution_deadlines S t (si_now (inputs 1)) (si_clk (inputs 1)) (si_events (inputs 1)) r1);
          (starved, r3) = expire_starved_queue S t (si_now (inputs 2)) (si_events (inputs 2)) r2
      in if starved = SweepPanicked then (False, r3)
         else let r4 = snd (propagate_cancellations S t (si_now (inputs 3)) r3)
              in (True, snd (expire_artifacts t (si_now (inputs 4)) r4)))"

section \<open>The contract\<close>

lemma send_cancels_frame [simp]:
  "r_db (send_cancels S reason as r) = r_db r"
  "r_sessions (send_cancels S reason as r) = r_sessions r"
  "r_hub (send_cancels S reason as r) = r_hub r"
  by (induction S reason as r rule: send_cancels.induct) simp_all

lemma release_deleted_inputs_frame [simp]: "r_db (release_deleted_inputs rows r) = r_db r"
  by (simp add: release_deleted_inputs_def)

lemma keeps_publish_all [keeps_intros]: "keeps t (r_db r) (r_db (publish_all S t inputs k gens r))"
  by (induction S t inputs k gens r rule: publish_all.induct)
    (auto simp: publish_generation_state_def intro: keeps_trans [OF keeps_publish_state_event])

lemma keeps_request_cancels [keeps_intros]: "keeps t d (request_cancels t now as d)"
  by (induction t now as d rule: request_cancels.induct) (auto intro: keeps_trans [OF keeps_renewals(3)])

lemma settle_each_Cons:
  assumes "settle_each settle t (a # as) d = Ok (x, d')"
  obtains outcome d1 y where "settle a d = Ok (outcome, d1)"
    "settle_each settle t as (snd (clean_settled t outcome d1)) = Ok (y, d')"
proof -
  from assms obtain outcome d1 where d1: "settle a d = Ok (outcome, d1)" by (auto simp: rbind_eq_Ok)
  obtain gens rows d2 where d2: "clean_settled t outcome d1 = ((gens, rows), d2)" by (metis prod.exhaust)
  from assms obtain y where "settle_each settle t as d2 = Ok (y, d')" by (auto simp: d1 d2 rbind_eq_Ok)
  then show thesis by (intro that [OF d1]) (simp add: d2)
qed

lemma keeps_clean_settled [keeps_intros]: "keeps t d (snd (clean_settled t outcome d))"
  using keeps_artifacts(1) [of t d]
  by (auto simp: clean_settled_def split: option.split prod.split) (metis snd_conv)+

lemma keeps_settle_each:
  assumes settle: "\<And>a d x d'. settle a d = Ok (x, d') \<Longrightarrow> keeps t d d'"
  shows "settle_each settle t as d = Ok (x, d') \<Longrightarrow> keeps t d d'"
proof (induction as arbitrary: d x)
  case (Cons a as)
  then obtain outcome d1 y where "settle a d = Ok (outcome, d1)"
    "settle_each settle t as (snd (clean_settled t outcome d1)) = Ok (y, d')" by (elim settle_each_Cons)
  with settle Cons.IH keeps_trans [OF keeps_trans [OF _ keeps_clean_settled]] show ?case by blast
qed simp

lemma keeps_settle_sweep:
  assumes settle: "\<And>a d x d'. settle a d = Ok (x, d') \<Longrightarrow> keeps t d d'"
  shows "keeps t (r_db r) (r_db (snd (settle_sweep S t reason settle due inputs r)))"
proof (cases "settle_each settle t due (r_db r)")
  case (Inr x)
  obtain gens rows d where x: "x = ((gens, rows), d)" by (metis prod.exhaust)
  have "keeps t (r_db r) d"
    by (rule keeps_settle_each [where settle = settle and as = due, OF settle])
      (simp_all add: Inr x)
  moreover have "keeps t d (r_db (publish_all S t inputs 0 gens (release_deleted_inputs rows (r\<lparr>r_db := d\<rparr>))))"
    using keeps_publish_all [of t "release_deleted_inputs rows (r\<lparr>r_db := d\<rparr>)"] by simp
  ultimately show ?thesis using Inr x keeps_trans by (auto simp: settle_sweep_def)
qed (simp add: settle_sweep_def)

lemma keeps_settle [keeps_intros]:
  "expire_lease S t now clk a d = Ok (x, d') \<Longrightarrow> keeps t d d'"
  "time_out S t now clk a d = Ok (x, d') \<Longrightarrow> keeps t d d'"
  by (auto simp: expire_lease_def time_out_def intro: keeps_settlements keeps_trans [OF keeps_renewals(3) keeps_settlements(3)])

lemma keeps_expire_each [keeps_intros]: "keeps t d (snd (expire_each t now has cs d))"
proof (induction t now has cs d rule: expire_each.induct)
  case (2 t now has c rest d)
  let ?d1 = "snd (delete_inputs_for_generation t (cd_generation_id c) (snd (expire_generation t (cd_generation_id c) now d)))"
  have "keeps t d ?d1" by (rule keeps_trans [OF keeps_generation_changes(4) keeps_artifacts(1)])
  moreover obtain rows d1 where del: "delete_inputs_for_generation t (cd_generation_id c)
      (snd (expire_generation t (cd_generation_id c) now d)) = (rows, d1)" by fastforce
  ultimately have "keeps t d d1" by simp
  show ?case
  proof (cases "\<not> has c \<and> fst (expire_generation t (cd_generation_id c) now d)")
    case True
    have "keeps t d1 (snd (expire_each t now has rest d1))" by (rule 2(1) [OF True refl]) (simp add: del)
    with True \<open>keeps t d d1\<close> show ?thesis by (auto simp: del intro: keeps_trans split: prod.split)
  next
    case False
    with 2(2) show ?thesis by auto
  qed
qed simp

lemma keeps_sweeps [keeps_intros]:
  "keeps t (r_db r) (r_db (snd (expire_leases S t now clk inputs r)))"
  "keeps t (r_db r) (r_db (snd (enforce_execution_deadlines S t now clk inputs r)))"
  "keeps t (r_db r) (r_db (snd (propagate_cancellations S t now r)))"
  "keeps t (r_db r) (r_db (snd (expire_artifacts t now r)))"
  "keeps t (r_db r) (r_db (snd (expire_starved_queue S t now inputs r)))"
proof -
  show "keeps t (r_db r) (r_db (snd (expire_leases S t now clk inputs r)))"
    "keeps t (r_db r) (r_db (snd (enforce_execution_deadlines S t now clk inputs r)))"
    unfolding expire_leases_def enforce_execution_deadlines_def by (intro keeps_settle_sweep keeps_settle; assumption)+
  show "keeps t (r_db r) (r_db (snd (propagate_cancellations S t now r)))"
    by (simp add: propagate_cancellations_def Let_def keeps_request_cancels)
  show "keeps t (r_db r) (r_db (snd (expire_artifacts t now r)))"
    using keeps_artifacts(2) [of t "r_db r" now] by (cases "expire_due t now (r_db r)") (simp add: expire_artifacts_def)
  have "keeps t (r_db r) (r_db (publish_all S t inputs 0 gens (release_deleted_inputs rows (r\<lparr>r_db := d\<rparr>))))"
    if "expire_each t now has cs (r_db r) = ((gens, rows), d)" for has cs gens rows d
    using keeps_trans [OF _ keeps_publish_all, of t "r_db r" "release_deleted_inputs rows (r\<lparr>r_db := d\<rparr>)"]
      keeps_expire_each [of t "r_db r" now has cs] that by simp
  then show "keeps t (r_db r) (r_db (snd (expire_starved_queue S t now inputs r)))"
    by (auto simp: expire_starved_queue_def Let_def split: sum.split option.split prod.split)
qed

lemma keeps_sweep_tenant [keeps_intros]: "keeps t (r_db r) (r_db (snd (sweep_tenant S t inputs r)))"
proof -
  let ?r1 = "snd (expire_leases S t (si_now (inputs 0)) (si_clk (inputs 0)) (si_events (inputs 0)) r)"
  let ?r2 = "snd (enforce_execution_deadlines S t (si_now (inputs 1)) (si_clk (inputs 1)) (si_events (inputs 1)) ?r1)"
  obtain starved r3 where s: "expire_starved_queue S t (si_now (inputs 2)) (si_events (inputs 2)) ?r2 = (starved, r3)"
    by (cases "expire_starved_queue S t (si_now (inputs 2)) (si_events (inputs 2)) ?r2")
  have "keeps t (r_db r) (r_db r3)"
    using keeps_trans [OF keeps_trans [OF keeps_sweeps(1) keeps_sweeps(2)] keeps_sweeps(5)] s by (metis snd_conv)
  moreover have "keeps t (r_db r3) (r_db (snd (expire_artifacts t (si_now (inputs 4))
      (snd (propagate_cancellations S t (si_now (inputs 3)) r3)))))"
    by (rule keeps_trans [OF keeps_sweeps(3,4)])
  ultimately show ?thesis
    using keeps_trans by (auto simp: sweep_tenant_def Let_def s simp del: One_nat_def)
qed

interpretation expiry_op: tenant_op
  "\<lambda>t d d'. \<exists>S inputs r. r_db r = d \<and> d' = r_db (snd (sweep_tenant S t inputs r))"
  by unfold_locales (auto intro: keeps_sweep_tenant)

section \<open>Lemmas on the settling sweeps\<close>

text \<open>What settling one Attempt does: other Attempts and the Generations without this live Attempt
  stay as they are, this Attempt ends in the given state, and its Generation in one of the given
  states.\<close>

definition settled_one :: "AttemptState \<Rightarrow> GenerationState set \<Rightarrow> TenantId \<times> AttemptId \<Rightarrow> db \<Rightarrow> db \<Rightarrow> bool" where
  "settled_one to A k d d' \<longleftrightarrow>
     (\<forall>b. akey b \<noteq> k \<longrightarrow> (b \<in> set (db_attempts d') \<longleftrightarrow> b \<in> set (db_attempts d))) \<and>
     (\<forall>b \<in> set (db_attempts d'). akey b = k \<longrightarrow> \<not> is_live b) \<and>
     (\<forall>g. (\<forall>a \<in> set (db_attempts d). akey a = k \<and> is_live a \<longrightarrow> gkey g \<noteq> agen a) \<longrightarrow>
        (g \<in> set (db_generations d') \<longleftrightarrow> g \<in> set (db_generations d))) \<and>
     (\<forall>a \<in> set (db_attempts d). akey a = k \<and> is_live a \<longrightarrow>
        (\<exists>b \<in> set (db_attempts d'). akey b = k \<and> agen b = agen a \<and> a_state b = to) \<and>
        (\<forall>g \<in> set (db_generations d'). gkey g = agen a \<longrightarrow> g_state g \<in> A))"

lemma update_generation_other:
  assumes "\<And>g. P g \<Longrightarrow> gkey g = k \<and> gkey (f g) = k" "gkey g \<noteq> k"
  shows "g \<in> set (db_generations (snd (update_generation P f d))) \<longleftrightarrow> g \<in> set (db_generations d)"
  using assms by (auto simp: update_generation_def set_update_where)

lemma finish_other_attempts:
  assumes "akey b \<noteq> (t, i)"
  shows "b \<in> set (db_attempts (snd (finish t i w to failure now clk d))) \<longleftrightarrow> b \<in> set (db_attempts d)"
  using assms
  by (auto simp: finish_def Let_def release_slot_def set_update_where owned_live_def akey_def split: option.splits)

lemma settled_one_finish_and_decide:
  assumes good: "good d" and to: "AttemptState_is_terminal to" "to \<noteq> AttemptState.Succeeded"
    and A: "GenerationState.Failed \<in> A" "GenerationState.Cancelled \<in> A"
      "GenerationState.Queued \<in> A \<or> (\<forall>used remain. retry_decision (fd_kind failure) used remain = Fail)"
    and ok: "finish_and_decide E t i None to failure now clk d = Ok (r, d')"
  shows "settled_one to A (t, i) d d'"
proof -
  have inv: "store_inv d" using good by (rule goodD)
  let ?f = "snd (finish t i None to (Some failure) now clk d)"
  have dist: "distinct (map akey (db_attempts d))" "distinct (map gkey (db_generations d))"
    using store_invD(1) [OF inv] by (simp_all add: inv_keys_def)
  show ?thesis
  proof (cases "find (owned_live t i None) (db_attempts d)")
    case None
    then have "d' = d" using ok by (simp add: finish_and_decide_def)
    with None show ?thesis by (auto simp: settled_one_def find_None_iff owned_live_def)
  next
    case (Some a)
    note fin = finish_settles [OF inv to Some, of "Some failure" now clk]
    have a: "a \<in> set (db_attempts d)" "akey a = (t, i)" "is_live a"
      using Some by (auto simp: find_Some_iff owned_live_def)
    have only: "b = a" if "b \<in> set (db_attempts d)" "akey b = (t, i)" for b
      using atts.key_unique [OF dist(1) that(1) a(1)] that(2) a(2) by simp
    obtain g where g: "get_generation t (a_generation a) d = Some g" "g \<in> set (db_generations d)" "gkey g = agen a"
      using inv_attempt_generation [OF inv a(1)] a(2) by (auto simp: get_generation_def agen_def akey_def)
    have ag: "agen a = (t, a_generation a)" using a(2) by (simp add: key_defs)
    have uniq: "x = g" if "x \<in> set (db_generations d)" "gkey x = agen a" for x
      using gens.key_unique [OF dist(2) that(1) g(2)] that(2) g(3) by simp
    have host: "hosts_live g" using inv_live_active(1) [OF inv a(1,3) g(2)] g(3) by simp
    have nl: "\<not> is_live b" if "b \<in> set (db_attempts ?f)" "akey b = (t, i)" for b
    proof -
      have "agen b = agen a \<Longrightarrow> \<not> is_live b" using fin(3) that(1) by (auto simp: no_live_def)
      then show ?thesis
        using fin(7) that atts.key_unique [of ?f] store_invD(1) [OF fin(2)] terminal_not_live [OF to(1)]
        by (metis inv_keys_def)
    qed
    have upd: "settled_one to A (t, i) d (snd (update_generation P f ?f))"
      if P: "\<And>x. P x \<Longrightarrow> gkey x = agen a \<and> gkey (f x) = agen a"
        and st: "g_state (if P g then f g else g) \<in> A" for P f
    proof -
      have "x = (if P g then f g else g)"
        if x: "x \<in> set (db_generations (snd (update_generation P f ?f)))" "gkey x = agen a" for x
      proof -
        obtain y where y: "y \<in> set (db_generations d)" "x = (if P y then f y else y)"
          using x(1) fin(5) by (auto simp: update_generation_def set_update_where)
        then have "gkey y = agen a" using P x(2) by (auto split: if_splits)
        then show ?thesis using uniq [OF y(1)] y(2) by simp
      qed
      then have state: "\<forall>x \<in> set (db_generations (snd (update_generation P f ?f))). gkey x = agen a \<longrightarrow> g_state x \<in> A"
        using st by blast
      have gens: "x \<in> set (db_generations (snd (update_generation P f ?f))) \<longleftrightarrow> x \<in> set (db_generations d)"
        if "gkey x \<noteq> agen a" for x using update_generation_other [of P _ f, OF P that] fin(5) by simp
      have atts: "db_attempts (snd (update_generation P f ?f)) = db_attempts ?f" by simp
      show ?thesis
        unfolding settled_one_def atts
      proof (intro conjI allI ballI impI)
        fix b :: AttemptRow assume "akey b \<noteq> (t, i)"
        then show "b \<in> set (db_attempts ?f) \<longleftrightarrow> b \<in> set (db_attempts d)" by (rule finish_other_attempts)
      next
        fix x assume "\<forall>b \<in> set (db_attempts d). akey b = (t, i) \<and> is_live b \<longrightarrow> gkey x \<noteq> agen b"
        then have "gkey x \<noteq> agen a" using a by blast
        then show "x \<in> set (db_generations (snd (update_generation P f ?f))) \<longleftrightarrow> x \<in> set (db_generations d)" by (rule gens)
      next
        fix b assume b: "b \<in> set (db_attempts d)" "akey b = (t, i) \<and> is_live b"
        then have "b = a" using only by blast
        then show "\<exists>x \<in> set (db_attempts ?f). akey x = (t, i) \<and> agen x = agen b \<and> a_state x = to" using fin(7) by blast
      next
        fix b x assume b: "b \<in> set (db_attempts d)" "akey b = (t, i) \<and> is_live b"
          and x: "x \<in> set (db_generations (snd (update_generation P f ?f)))" "gkey x = agen b"
        then show "g_state x \<in> A" using only state by blast
      qed (rule nl)
    qed
    show ?thesis
    proof (cases rule: finish_and_decide_cases [OF inv to ok, case_names unsettled cancelled retried failed])
      case unsettled
      with Some show ?thesis by simp
    next
      case (cancelled a' g')
      have "a' = a" "g' = g" using cancelled Some g(1) by auto
      with cancelled A(2) ag g(3) show ?thesis
        unfolding cancelled(5) finish_cancelled_def by (intro upd) (auto simp: gkey_def)
    next
      case (retried a' g' caps)
      have [simp]: "a' = a" "g' = g" using retried Some g(1) by auto
      have "GenerationState.Queued \<in> A" using A(3) retried(5) by auto
      then show ?thesis
        unfolding retried(7) requeue_def using host retried(3) A(2) ag g(3)
          by (intro upd) (cases "g_state g"; auto simp: gkey_def)+
    next
      case (failed a' g' caps)
      have [simp]: "a' = a" "g' = g" using failed Some g(1) by auto
      show ?thesis
        unfolding failed(7) fail_generation_def using host failed(3) A(1,2) ag g(3)
          by (intro upd) (cases "g_state g"; auto simp: gkey_def)+
    qed
  qed
qed

lemma settled_one_frame:
  assumes "settled_one to A k d1 d2" "db_generations d1 = db_generations d"
    and "map (\<lambda>a. (akey a, agen a, a_state a)) (db_attempts d1) = map (\<lambda>a. (akey a, agen a, a_state a)) (db_attempts d)"
    and "\<And>b. akey b \<noteq> k \<Longrightarrow> b \<in> set (db_attempts d1) \<longleftrightarrow> b \<in> set (db_attempts d)"
    and "db_generations d3 = db_generations d2" "db_attempts d3 = db_attempts d2"
  shows "settled_one to A k d d3"
proof -
  have "set (map (\<lambda>a. (akey a, agen a, a_state a)) (db_attempts d1)) = set (map (\<lambda>a. (akey a, agen a, a_state a)) (db_attempts d))"
    by (simp only: assms(3))
  then have img: "(\<lambda>a. (akey a, agen a, a_state a)) ` set (db_attempts d1) = (\<lambda>a. (akey a, agen a, a_state a)) ` set (db_attempts d)"
    by simp
  have same: "(\<exists>b \<in> set (db_attempts d1). akey b = akey a \<and> agen b = agen a \<and> a_state b = a_state a)"
    if "a \<in> set (db_attempts d)" for a
    using imageI [OF that, of "\<lambda>a. (akey a, agen a, a_state a)"] unfolding img [symmetric] by force
  have orig: "(\<exists>b \<in> set (db_attempts d). akey b = akey a \<and> agen b = agen a \<and> a_state b = a_state a)"
    if "a \<in> set (db_attempts d1)" for a
    using imageI [OF that, of "\<lambda>a. (akey a, agen a, a_state a)"] unfolding img by force
  show ?thesis
    unfolding settled_one_def assms(5,6)
  proof (intro conjI allI ballI impI)
    fix b :: AttemptRow assume "akey b \<noteq> k"
    then show "b \<in> set (db_attempts d2) \<longleftrightarrow> b \<in> set (db_attempts d)"
      using assms(1,4) unfolding settled_one_def by blast
  next
    fix b assume "b \<in> set (db_attempts d2)" "akey b = k"
    then show "\<not> is_live b" using assms(1) unfolding settled_one_def by blast
  next
    fix g assume none: "\<forall>a \<in> set (db_attempts d). akey a = k \<and> is_live a \<longrightarrow> gkey g \<noteq> agen a"
    have "\<forall>a \<in> set (db_attempts d1). akey a = k \<and> is_live a \<longrightarrow> gkey g \<noteq> agen a"
    proof (intro ballI impI)
      fix a assume a: "a \<in> set (db_attempts d1)" "akey a = k \<and> is_live a"
      obtain b where "b \<in> set (db_attempts d)" "akey b = akey a" "agen b = agen a" "a_state b = a_state a"
        using orig [OF a(1)] by blast
      with none a(2) show "gkey g \<noteq> agen a" by metis
    qed
    then show "g \<in> set (db_generations d2) \<longleftrightarrow> g \<in> set (db_generations d)"
      using assms(1,2) unfolding settled_one_def by metis
  next
    fix a assume a: "a \<in> set (db_attempts d)" "akey a = k \<and> is_live a"
    then obtain b where b: "b \<in> set (db_attempts d1)" "akey b = k" "is_live b" "agen b = agen a"
      using same by metis
    then show "\<exists>b \<in> set (db_attempts d2). akey b = k \<and> agen b = agen a \<and> a_state b = to"
      using assms(1) unfolding settled_one_def by metis
    fix g assume "g \<in> set (db_generations d2)" "gkey g = agen a"
    then show "g_state g \<in> A" using assms(1) b unfolding settled_one_def by metis
  qed
qed

lemma clean_settled_frame [simp]:
  "db_generations (snd (clean_settled t outcome d)) = db_generations d"
  "db_attempts (snd (clean_settled t outcome d)) = db_attempts d"
  by (auto simp: clean_settled_def delete_inputs_for_generation_def Let_def split: option.split)

lemma settled_one_expire_lease:
  assumes "good d" "expire_lease S t now clk a d = Ok (outcome, d1)"
  shows "settled_one AttemptState.LeaseExpired {GenerationState.Queued, GenerationState.Failed, GenerationState.Cancelled}
    (t, a_id a) d (snd (clean_settled t outcome d1))"
proof -
  let ?d0 = "snd (request_cancel t (a_id a) now d)"
  have "good ?d0" using keeps_good [OF keeps_renewals(3) assms(1)] .
  then have "settled_one AttemptState.LeaseExpired {GenerationState.Queued, GenerationState.Failed, GenerationState.Cancelled}
      (t, a_id a) ?d0 d1"
    using assms(2) unfolding expire_lease_def record_lease_expiry_def
    by (intro settled_one_finish_and_decide) (simp_all add: AttemptState_is_terminal_def)
  then show ?thesis
  proof (rule settled_one_frame)
    show "map (\<lambda>a. (akey a, agen a, a_state a)) (db_attempts ?d0) = map (\<lambda>a. (akey a, agen a, a_state a)) (db_attempts d)"
      unfolding request_cancel_def snd_conv
      by simp (rule map_update_where, simp add: key_defs)
    show "b \<in> set (db_attempts ?d0) \<longleftrightarrow> b \<in> set (db_attempts d)" if "akey b \<noteq> (t, a_id a)" for b
      using that by (auto simp: request_cancel_def set_update_where akey_def)
  qed (simp_all add: request_cancel_def)
qed

lemma settled_one_time_out:
  assumes "good d" "time_out S t now clk a d = Ok (outcome, d1)"
  shows "settled_one AttemptState.Failed {GenerationState.Failed, GenerationState.Cancelled}
    (t, a_id a) d (snd (clean_settled t outcome d1))"
proof -
  have "settled_one AttemptState.Failed {GenerationState.Failed, GenerationState.Cancelled} (t, a_id a) d d1"
    using assms unfolding time_out_def record_failure_def
    by (intro settled_one_finish_and_decide)
      (simp_all add: AttemptState_is_terminal_def retry_decision_def FailureKind_is_retryable_def)
  then show ?thesis by (rule settled_one_frame) simp_all
qed

lemma settle_each_settles:
  assumes step: "\<And>a d outcome d1. good d \<Longrightarrow> settle a d = Ok (outcome, d1) \<Longrightarrow>
      settled_one to A (t, a_id a) d (snd (clean_settled t outcome d1)) \<and> keeps t d d1"
    and to: "AttemptState_is_terminal to"
  shows "good d \<Longrightarrow> settle_each settle t as d = Ok (x, d') \<Longrightarrow> distinct (map a_id as) \<Longrightarrow>
    (\<forall>b. akey b \<notin> (\<lambda>a. (t, a_id a)) ` set as \<longrightarrow> (b \<in> set (db_attempts d') \<longleftrightarrow> b \<in> set (db_attempts d))) \<and>
    (\<forall>b \<in> set (db_attempts d'). akey b \<in> (\<lambda>a. (t, a_id a)) ` set as \<longrightarrow> \<not> is_live b) \<and>
    (\<forall>g. (\<forall>a \<in> set (db_attempts d). akey a \<in> (\<lambda>a. (t, a_id a)) ` set as \<and> is_live a \<longrightarrow> gkey g \<noteq> agen a) \<longrightarrow>
        (g \<in> set (db_generations d') \<longleftrightarrow> g \<in> set (db_generations d))) \<and>
    (\<forall>a \<in> set (db_attempts d). akey a \<in> (\<lambda>a. (t, a_id a)) ` set as \<and> is_live a \<longrightarrow>
        (\<exists>b \<in> set (db_attempts d'). akey b = akey a \<and> agen b = agen a \<and> a_state b = to) \<and>
        (\<forall>g \<in> set (db_generations d'). gkey g = agen a \<longrightarrow> g_state g \<in> A))"
proof (induction as arbitrary: d x)
  case Nil
  then show ?case by simp
next
  case (Cons c as)
  obtain outcome d1 y where d1: "settle c d = Ok (outcome, d1)"
    and rest: "settle_each settle t as (snd (clean_settled t outcome d1)) = Ok (y, d')"
    by (rule settle_each_Cons [OF Cons.prems(2)])
  let ?d2 = "snd (clean_settled t outcome d1)"
  have one: "settled_one to A (t, a_id c) d ?d2" and "keeps t d d1" using step [OF Cons.prems(1) d1] by simp_all
  then have good2: "good ?d2" using keeps_good [OF keeps_trans [OF _ keeps_clean_settled] Cons.prems(1)] by blast
  have "distinct (map a_id as)" "a_id c \<notin> a_id ` set as" using Cons.prems(3) by simp_all
  note IH = Cons.IH [OF good2 rest this(1)] and fresh = this(2)
  let ?K = "(\<lambda>a. (t, a_id a)) ` set as"
  have inv: "store_inv d" using Cons.prems(1) by (rule goodD)
  have other: "b \<in> set (db_attempts ?d2) \<longleftrightarrow> b \<in> set (db_attempts d)" if "akey b \<noteq> (t, a_id c)" for b
    using one that unfolding settled_one_def by blast
  have dead: "\<not> is_live b" if "b \<in> set (db_attempts ?d2)" "akey b = (t, a_id c)" for b
    using one that unfolding settled_one_def by blast
  show ?case
  proof (intro conjI allI ballI impI)
    fix b :: AttemptRow assume "akey b \<notin> (\<lambda>a. (t, a_id a)) ` set (c # as)"
    then show "b \<in> set (db_attempts d') \<longleftrightarrow> b \<in> set (db_attempts d)" using IH other by simp
  next
    fix b assume b: "b \<in> set (db_attempts d')" "akey b \<in> (\<lambda>a. (t, a_id a)) ` set (c # as)"
    show "\<not> is_live b"
    proof (cases "akey b \<in> ?K")
      case False
      then have "b \<in> set (db_attempts ?d2)" using IH b(1) by blast
      with False b(2) dead show ?thesis by auto
    qed (use IH b(1) in blast)
  next
    fix g assume none: "\<forall>a \<in> set (db_attempts d). akey a \<in> (\<lambda>a. (t, a_id a)) ` set (c # as) \<and> is_live a \<longrightarrow> gkey g \<noteq> agen a"
    have "\<forall>a \<in> set (db_attempts ?d2). akey a \<in> ?K \<and> is_live a \<longrightarrow> gkey g \<noteq> agen a"
    proof (intro ballI impI)
      fix a assume a: "a \<in> set (db_attempts ?d2)" "akey a \<in> ?K \<and> is_live a"
      then have "a \<in> set (db_attempts d)" using other dead by blast
      then show "gkey g \<noteq> agen a" using none a(2) by simp
    qed
    then have "g \<in> set (db_generations d') \<longleftrightarrow> g \<in> set (db_generations ?d2)" using IH by blast
    moreover have "g \<in> set (db_generations ?d2) \<longleftrightarrow> g \<in> set (db_generations d)"
      using one none unfolding settled_one_def by simp
    ultimately show "g \<in> set (db_generations d') \<longleftrightarrow> g \<in> set (db_generations d)" by simp
  next
    fix a assume a: "a \<in> set (db_attempts d)" "akey a \<in> (\<lambda>a. (t, a_id a)) ` set (c # as) \<and> is_live a"
    have both: "(\<exists>b \<in> set (db_attempts d'). akey b = akey a \<and> agen b = agen a \<and> a_state b = to) \<and>
        (\<forall>g \<in> set (db_generations d'). gkey g = agen a \<longrightarrow> g_state g \<in> A)"
    proof (cases "akey a = (t, a_id c)")
      case False
      then have "a \<in> set (db_attempts ?d2)" "akey a \<in> ?K" using other a by auto
      then show ?thesis using IH a(2) by blast
    next
      case True
      obtain b where b: "b \<in> set (db_attempts ?d2)" "akey b = akey a" "agen b = agen a" "a_state b = to"
        using one a True unfolding settled_one_def by metis
      have st: "\<forall>g \<in> set (db_generations ?d2). gkey g = agen a \<longrightarrow> g_state g \<in> A"
        using one a True unfolding settled_one_def by metis
      have notlive: "agen a' \<noteq> agen a" if "a' \<in> set (db_attempts ?d2)" "is_live a'" for a'
      proof
        assume eq: "agen a' = agen a"
        have "akey a' \<noteq> (t, a_id c)" using dead that by blast
        then have "a' \<in> set (db_attempts d)" using other that(1) by blast
        then show False
          using inv_live_unique [OF inv _ a(1) that(2) _ eq] a(2) True \<open>akey a' \<noteq> (t, a_id c)\<close> by blast
      qed
      have "g \<in> set (db_generations ?d2)" if "g \<in> set (db_generations d')" "gkey g = agen a" for g
      proof -
        have "\<forall>a' \<in> set (db_attempts ?d2). akey a' \<in> ?K \<and> is_live a' \<longrightarrow> gkey g \<noteq> agen a'"
          using notlive that(2) by metis
        with IH that(1) show ?thesis by blast
      qed
      then have "\<forall>g \<in> set (db_generations d'). gkey g = agen a \<longrightarrow> g_state g \<in> A" using st by blast
      moreover have "\<exists>b \<in> set (db_attempts d'). akey b = akey a \<and> agen b = agen a \<and> a_state b = to"
        using b IH True fresh by (metis (no_types, lifting) Pair_inject imageE imageI)
      ultimately show ?thesis by blast
    qed
    then show "\<exists>b \<in> set (db_attempts d'). akey b = akey a \<and> agen b = agen a \<and> a_state b = to" by blast
    fix g assume "g \<in> set (db_generations d')" "gkey g = agen a"
    then show "g_state g \<in> A" using both by blast
  qed
qed

section \<open>Sweeps do not fail\<close>

text \<open>The capability view decodes when every advertised manifest does; settling an Attempt leaves
  what it reads alone.\<close>

definition caps_ok :: "env \<Rightarrow> TenantId \<Rightarrow> db \<Rightarrow> bool" where
  "caps_ok E t d \<longleftrightarrow> is_ok (pool_capabilities E t d)"

lemma is_ok_rmap: "is_ok (rmap f xs) \<longleftrightarrow> (\<forall>x \<in> set xs. is_ok (f x))"
proof (induction xs)
  case (Cons x xs)
  then show ?case by (cases "f x"; cases "rmap f xs") simp_all
qed simp

lemma caps_ok_eq:
  "caps_ok E t d \<longleftrightarrow> (\<forall>p \<in> set (db_pools d). p_tenant p = t \<and> p_ready p \<and>
      (\<exists>w \<in> set (db_workers d). wkey w = (t, p_worker_id p) \<and> w_revoked_at w = None) \<longrightarrow>
      (\<forall>(h, j) \<in> set (advertised_manifests p d). x_manifest_from_json E j \<noteq> None))"
proof -
  have "is_ok (build_slot_capability E t d p) \<longleftrightarrow>
      (\<forall>(h, j) \<in> set (advertised_manifests p d). x_manifest_from_json E j \<noteq> None)" for p
  proof -
    let ?f = "\<lambda>(hash, j). case x_manifest_from_json E j of
        None \<Rightarrow> Err (DecodeError ''model_manifests'') | Some m \<Rightarrow> Ok (hash, m)"
    have "is_ok (build_slot_capability E t d p) \<longleftrightarrow> is_ok (rmap ?f (advertised_manifests p d))"
      by (cases "rmap ?f (advertised_manifests p d)") (simp_all add: build_slot_capability_def)
    then show ?thesis by (auto simp: is_ok_rmap split: option.splits)
  qed
  then show ?thesis by (auto simp: caps_ok_def pool_capabilities_def is_ok_rmap)
qed

lemma caps_ok_cong:
  assumes "db_workers d' = db_workers d" "db_pool_models d' = db_pool_models d" "db_model_versions d' = db_model_versions d"
    and "map (\<lambda>p. (p_tenant p, p_ready p, p_worker_id p, p_id p)) (db_pools d') =
         map (\<lambda>p. (p_tenant p, p_ready p, p_worker_id p, p_id p)) (db_pools d)"
  shows "caps_ok E t d' = caps_ok E t d"
proof -
  let ?v = "\<lambda>p. (p_tenant p, p_ready p, p_worker_id p, p_id p)"
  let ?Q = "\<lambda>(pt, ready, worker, i). pt = t \<and> ready \<and>
      (\<exists>w \<in> set (db_workers d). wkey w = (t, worker) \<and> w_revoked_at w = None) \<longrightarrow>
      (\<forall>m \<in> set (db_pool_models d). \<forall>v \<in> set (db_model_versions d). pm_tenant m = pt \<and> pm_pool_id m = i \<and>
         mv_tenant v = pm_tenant m \<and> mv_content v = pm_content m \<longrightarrow> x_manifest_from_json E (mv_manifest v) \<noteq> None)"
  have eq: "caps_ok E t x \<longleftrightarrow> (\<forall>p \<in> set (map ?v (db_pools x)). ?Q p)"
    if "db_workers x = db_workers d" "db_pool_models x = db_pool_models d" "db_model_versions x = db_model_versions d" for x
    unfolding caps_ok_eq advertised_manifests_def that by fastforce
  show ?thesis unfolding eq [OF assms(1-3)] eq [OF refl refl refl] assms(4) ..
qed

lemma caps_ok_frame:
  "caps_ok E t (snd (update_generation P f d)) = caps_ok E t d"
  "caps_ok E t (snd (finish t i w to failure now clk d)) = caps_ok E t d"
  "caps_ok E t (snd (request_cancel t i now d)) = caps_ok E t d"
  "caps_ok E t (snd (clean_settled t outcome d)) = caps_ok E t d"
proof -
  show "caps_ok E t (snd (update_generation P f d)) = caps_ok E t d"
    by (rule caps_ok_cong) (simp_all add: update_generation_def)
  show "caps_ok E t (snd (finish t i w to failure now clk d)) = caps_ok E t d"
    by (rule caps_ok_cong)
      (auto simp: finish_def Let_def release_slot_def split: option.split intro!: map_update_where)
  show "caps_ok E t (snd (request_cancel t i now d)) = caps_ok E t d"
    by (rule caps_ok_cong) (simp_all add: request_cancel_def)
  show "caps_ok E t (snd (clean_settled t outcome d)) = caps_ok E t d"
    by (rule caps_ok_cong) (auto simp: clean_settled_def delete_inputs_for_generation_def Let_def split: option.split)
qed

lemma finish_and_decide_total:
  assumes good: "good d" and caps: "caps_ok E t d" and to: "AttemptState_is_terminal to" "to \<noteq> AttemptState.Succeeded"
  shows "\<exists>r d'. finish_and_decide E t i w to failure now clk d = Ok (r, d') \<and> caps_ok E t d'"
proof (cases "find (owned_live t i w) (db_attempts d)")
  case None
  then show ?thesis using caps by (simp add: finish_and_decide_def)
next
  case (Some a)
  have inv: "store_inv d" using good by (rule goodD)
  note fin = finish_settles [OF inv to Some, of "Some failure" now clk]
  obtain d1 where d1: "finish t i w to (Some failure) now clk d = (True, d1)" using fin(1) by (metis prod.collapse)
  have ok1: "caps_ok E t d1" using caps_ok_frame(2) [of E t i w to "Some failure" now clk d] caps by (simp add: d1)
  then obtain cs where cs: "pool_capabilities E t d1 = Ok cs"
    by (cases "pool_capabilities E t d1") (simp_all add: caps_ok_def)
  obtain g where g: "get_generation t (a_generation a) d1 = Some g"
    using inv_attempt_generation [OF inv owned_live_find(1) [OF inv Some]] owned_live_find(5) [OF inv Some] fin(5)
    by (auto simp: get_generation_def d1)
  show ?thesis
    using ok1 by (auto simp: finish_and_decide_def Some d1 g cs Let_def gen_change_defs caps_ok_frame(1)
        split: RetryDecision.split)
qed

lemma settle_each_total:
  assumes step: "\<And>a d. good d \<Longrightarrow> caps_ok E t d \<Longrightarrow> \<exists>r d'. settle a d = Ok (r, d') \<and> caps_ok E t d' \<and> keeps t d d'"
  shows "good d \<Longrightarrow> caps_ok E t d \<Longrightarrow> \<exists>x. settle_each settle t as d = Ok x"
proof (induction as arbitrary: d)
  case (Cons a as)
  obtain outcome d1 where d1: "settle a d = Ok (outcome, d1)" "caps_ok E t d1" "keeps t d d1"
    using step [OF Cons.prems] by blast
  obtain gens rows d2 where d2: "clean_settled t outcome d1 = ((gens, rows), d2)" by (metis prod.exhaust)
  have "good d2" using keeps_good [OF keeps_trans [OF d1(3) keeps_clean_settled] Cons.prems(1)] d2 by (metis snd_conv)
  moreover have "caps_ok E t d2" using caps_ok_frame(4) [of E t outcome d1] d1(2) by (simp add: d2)
  ultimately obtain x where "settle_each settle t as d2 = Ok x" using Cons.IH by blast
  then show ?case by (cases x) (simp add: d1 d2 split: prod.split)
qed simp

lemma settle_steps_total:
  assumes "good d" "caps_ok (sv_env S) t d"
  shows "\<exists>r d'. expire_lease S t now clk a d = Ok (r, d') \<and> caps_ok (sv_env S) t d' \<and> keeps t d d'"
    "\<exists>r d'. time_out S t now clk a d = Ok (r, d') \<and> caps_ok (sv_env S) t d' \<and> keeps t d d'"
proof -
  have "good (snd (request_cancel t (a_id a) now d))" using keeps_good [OF keeps_renewals(3) assms(1)] .
  then have "\<exists>r d'. expire_lease S t now clk a d = Ok (r, d') \<and> caps_ok (sv_env S) t d'"
    unfolding expire_lease_def record_lease_expiry_def using assms(2)
    by (intro finish_and_decide_total) (simp_all add: AttemptState_is_terminal_def caps_ok_frame(3))
  then show "\<exists>r d'. expire_lease S t now clk a d = Ok (r, d') \<and> caps_ok (sv_env S) t d' \<and> keeps t d d'"
    using keeps_settle(1) by blast
  have "\<exists>r d'. time_out S t now clk a d = Ok (r, d') \<and> caps_ok (sv_env S) t d'"
    unfolding time_out_def record_failure_def using assms
    by (intro finish_and_decide_total) (simp_all add: AttemptState_is_terminal_def)
  then show "\<exists>r d'. time_out S t now clk a d = Ok (r, d') \<and> caps_ok (sv_env S) t d' \<and> keeps t d d'"
    using keeps_settle(2) by blast
qed

section \<open>Properties\<close>

lemma publish_state_event_frame [simp]:
  "db_generations (r_db (publish_state_event S t gen snap inp r)) = db_generations (r_db r)"
  "db_attempts (r_db (publish_state_event S t gen snap inp r)) = db_attempts (r_db r)"
  by (auto simp: publish_state_event_def record_event_def append_event_def Let_def split: option.split sum.split prod.split)

lemma publish_all_frame [simp]:
  "db_generations (r_db (publish_all S t inputs k gens r)) = db_generations (r_db r)"
  "db_attempts (r_db (publish_all S t inputs k gens r)) = db_attempts (r_db r)"
  by (induction S t inputs k gens r rule: publish_all.induct) (simp_all add: publish_generation_state_def)

text \<open>The rows after a settling sweep are those of its transaction.\<close>

lemma settle_sweep_rows:
  assumes ok: "settle_sweep S t reason settle due inputs r = (Swept, r')"
  obtains x d where "settle_each settle t due (r_db r) = Ok (x, d)"
    "db_generations (r_db r') = db_generations d" "db_attempts (r_db r') = db_attempts d"
proof (cases "settle_each settle t due (r_db r)")
  case (Inl e)
  then show thesis using ok by (simp add: settle_sweep_def)
next
  case (Inr y)
  obtain gens rows d where y: "y = ((gens, rows), d)" by (metis prod.exhaust)
  show thesis
    using ok Inr y by (intro that [of "(gens, rows)" d]) (auto simp: settle_sweep_def)
qed

text \<open>C13: The lease sweep leaves no lapsed lease behind. When the capability view decodes, the
  sweep succeeds; if no more leases lapsed than one sweep handles, then afterwards every live
  Attempt of the Tenant has an unexpired lease, every lapsed Attempt has settled as expired, and
  its Generation is back in the queue, failed or cancelled, never left running.\<close>
theorem lapsed_leases_settled:
  assumes "good (r_db r)" "caps_ok (sv_env S) t (r_db r)"
    and "length (filter (\<lambda>a. a_tenant a = t \<and> is_live a \<and> a_lease_expires_at a \<le> now) (db_attempts (r_db r))) \<le> SWEEP_LIMIT"
    and "expire_leases S t now clk inputs r = (res, r')"
  shows "res = Swept \<and>
    (\<forall>b \<in> set (db_attempts (r_db r')). a_tenant b = t \<and> is_live b \<longrightarrow> now < a_lease_expires_at b) \<and>
    (\<forall>a \<in> set (db_attempts (r_db r)). a_tenant a = t \<and> is_live a \<and> a_lease_expires_at a \<le> now \<longrightarrow>
       (\<exists>b \<in> set (db_attempts (r_db r')). akey b = akey a \<and> a_state b = AttemptState.LeaseExpired) \<and>
       (\<forall>g \<in> set (db_generations (r_db r')). gkey g = agen a \<longrightarrow>
          g_state g \<in> {GenerationState.Queued, GenerationState.Failed, GenerationState.Cancelled}))"
proof -
  let ?lapsed = "\<lambda>a. a_tenant a = t \<and> is_live a \<and> a_lease_expires_at a \<le> now"
  let ?due = "expired_leases t now SWEEP_LIMIT (r_db r)"
  have due: "set ?due = {a \<in> set (db_attempts (r_db r)). ?lapsed a}"
    using assms(3) by (simp add: expired_leases_def)
  have "distinct (map akey (db_attempts (r_db r)))" using goodD(3) [OF assms(1)] by (simp add: inv_keys_def)
  then have "distinct (map a_id ?due)"
    using assms(3) by (auto simp: expired_leases_def distinct_map inj_on_def akey_def)
  have keys: "akey a \<in> (\<lambda>a. (t, a_id a)) ` set ?due \<longleftrightarrow> a \<in> set ?due"
    if mem: "a \<in> set (db_attempts (r_db r))" for a
  proof
    assume "akey a \<in> (\<lambda>a. (t, a_id a)) ` set ?due"
    then obtain c where c: "akey a = (t, a_id c)" "c \<in> set ?due" by blast
    then have "c \<in> set (db_attempts (r_db r))" "akey c = akey a" by (simp_all add: due akey_def)
    with mem have "a = c" using \<open>distinct (map akey (db_attempts (r_db r)))\<close> by (auto simp: distinct_map inj_on_def)
    with c(2) show "a \<in> set ?due" by simp
  next
    assume "a \<in> set ?due"
    moreover from this have "akey a = (t, a_id a)" by (simp add: due akey_def)
    ultimately show "akey a \<in> (\<lambda>a. (t, a_id a)) ` set ?due" by blast
  qed
  have "\<exists>x. settle_each (expire_lease S t now clk) t ?due (r_db r) = Ok x"
    by (rule settle_each_total [OF _ assms(1,2)]) (rule settle_steps_total(1); assumption)
  then obtain x where x: "settle_each (expire_lease S t now clk) t ?due (r_db r) = Ok x" by blast
  then have res: "res = Swept" using assms(4) by (auto simp: expire_leases_def settle_sweep_def split: prod.splits)
  obtain y d where each: "settle_each (expire_lease S t now clk) t ?due (r_db r) = Ok (y, d)"
    and rows: "db_generations (r_db r') = db_generations d" "db_attempts (r_db r') = db_attempts d"
    by (rule settle_sweep_rows [OF assms(4) [unfolded expire_leases_def res]])
  note settled = settle_each_settles [OF _ _ assms(1) each \<open>distinct (map a_id ?due)\<close>, of AttemptState.LeaseExpired
      "{GenerationState.Queued, GenerationState.Failed, GenerationState.Cancelled}"]
  have s: "(\<forall>b. akey b \<notin> (\<lambda>a. (t, a_id a)) ` set ?due \<longrightarrow> (b \<in> set (db_attempts d) \<longleftrightarrow> b \<in> set (db_attempts (r_db r)))) \<and>
    (\<forall>b \<in> set (db_attempts d). akey b \<in> (\<lambda>a. (t, a_id a)) ` set ?due \<longrightarrow> \<not> is_live b) \<and>
    (\<forall>a \<in> set (db_attempts (r_db r)). akey a \<in> (\<lambda>a. (t, a_id a)) ` set ?due \<and> is_live a \<longrightarrow>
        (\<exists>b \<in> set (db_attempts d). akey b = akey a \<and> agen b = agen a \<and> a_state b = AttemptState.LeaseExpired) \<and>
        (\<forall>g \<in> set (db_generations d). gkey g = agen a \<longrightarrow>
           g_state g \<in> {GenerationState.Queued, GenerationState.Failed, GenerationState.Cancelled}))"
    using settled settled_one_expire_lease keeps_settle(1) by (simp add: AttemptState_is_terminal_def)
  show ?thesis
    unfolding rows
  proof (intro conjI ballI impI res)
    fix b assume b: "b \<in> set (db_attempts d)" "a_tenant b = t \<and> is_live b"
    then have "akey b \<notin> (\<lambda>a. (t, a_id a)) ` set ?due" using s by blast
    with s b(1) have "b \<in> set (db_attempts (r_db r))" by blast
    with keys [OF this] \<open>akey b \<notin> _\<close> b(2) show "now < a_lease_expires_at b" unfolding due by auto
  next
    fix a assume a: "a \<in> set (db_attempts (r_db r))" "?lapsed a"
    then have "akey a \<in> (\<lambda>a. (t, a_id a)) ` set ?due" using keys [OF a(1)] by (simp add: due)
    with s a have both: "(\<exists>b \<in> set (db_attempts d). akey b = akey a \<and> agen b = agen a \<and> a_state b = AttemptState.LeaseExpired)"
      "(\<forall>g \<in> set (db_generations d). gkey g = agen a \<longrightarrow>
           g_state g \<in> {GenerationState.Queued, GenerationState.Failed, GenerationState.Cancelled})" by blast+
    then show "\<exists>b \<in> set (db_attempts d). akey b = akey a \<and> a_state b = AttemptState.LeaseExpired" by blast
    fix g assume "g \<in> set (db_generations d)" "gkey g = agen a"
    with both(2) show "g_state g \<in> {GenerationState.Queued, GenerationState.Failed, GenerationState.Cancelled}" by blast
  qed
qed

theorem lapsed_leases_settled_witness:
  "\<exists>b \<in> set (db_attempts (r_db (snd (expire_leases example_services 7 100 example_clocks (\<lambda>_. example_input)
      (example_remote example_db))))). akey b = (7, 20) \<and> a_state b = AttemptState.LeaseExpired"
proof -
  have "good (r_db (example_remote example_db))" using example_ready_good(2) by (simp add: example_remote_def)
  moreover have "caps_ok (sv_env example_services) 7 (r_db (example_remote example_db))"
    by (simp add: caps_ok_eq advertised_manifests_def example_remote_def example_db_def empty_db_def)
  ultimately show ?thesis
    using lapsed_leases_settled [of "example_remote example_db" example_services 7 100 example_clocks "\<lambda>_. example_input"
        "fst (expire_leases example_services 7 100 example_clocks (\<lambda>_. example_input) (example_remote example_db))"
        "snd (expire_leases example_services 7 100 example_clocks (\<lambda>_. example_input) (example_remote example_db))"]
    by (auto simp: example_remote_def example_db_def example_attempt_def SWEEP_LIMIT_def akey_def
        AttemptState_is_live_def)
qed

section \<open>Starvation\<close>

lemma queued_candidates_origin:
  assumes "good d" "c \<in> set (queued_candidates E t limit d)" "g \<in> set (db_generations d)"
    "gkey g = (t, cd_generation_id c)"
  shows "g_state g = GenerationState.Queued" "cd_created_at c = g_created_at g"
    "requirement_of E t (cd_generation_id c) d = Some (cd_requirement c)"
proof -
  have dist: "distinct (map gkey (db_generations d))" using goodD(3) [OF assms(1)] by (simp add: inv_keys_def)
  have oks: "c \<in> set (oks (map f rows)) \<Longrightarrow> \<exists>g \<in> set rows. f g = Ok c" for f :: "GenerationRow \<Rightarrow> CandidateRowError + Candidate" and rows
    by (induction rows) (auto simp: oks_def split: sum.splits)
  obtain h where h: "h \<in> set (take limit (sort_key g_created_at
          (filter (\<lambda>g. g_tenant g = t \<and> g_state g = GenerationState.Queued) (db_generations d))))"
    "into_candidate E t d h = Ok c"
    using oks assms(2) unfolding queued_candidates_def by blast
  then have row: "h \<in> set (db_generations d)" "g_tenant h = t" "g_state h = GenerationState.Queued"
    using in_set_takeD [OF h(1)] by auto
  have c: "cd_generation_id c = g_id h" "cd_created_at c = g_created_at h"
    "requirement_from_parts E t (g_id h) (g_version h) (g_parameters h) (pinned_manifest h d) = Ok (cd_requirement c)"
    using h(2) by (auto simp: into_candidate_def rbind_eq_Ok)
  have "gkey h = gkey g" using row(2) c(1) assms(4) by (simp add: gkey_def)
  then have "h = g" using dist row(1) assms(3) by (auto simp: distinct_map inj_on_def)
  then show "g_state g = GenerationState.Queued" "cd_created_at c = g_created_at g" using row c by auto
  have "find (\<lambda>x. gkey x = (t, g_id h)) (db_generations d) = Some h"
    using gens.lookup_Some_iff [OF dist, of "(t, g_id h)" h] row(1,2) by (simp only: gkey_def)
  then show "requirement_of E t (cd_generation_id c) d = Some (cd_requirement c)"
    using c by (simp add: requirement_of_def)
qed

lemma expire_each_rows:
  "g \<in> set (db_generations (snd (expire_each t now has cs d))) \<Longrightarrow>
   g \<in> set (db_generations d) \<or> (\<exists>c \<in> set cs. \<not> has c \<and> gkey g = (t, cd_generation_id c))"
proof (induction t now has cs d rule: expire_each.induct)
  case (2 t now has c rest d)
  obtain rows d1 where del: "delete_inputs_for_generation t (cd_generation_id c)
      (snd (expire_generation t (cd_generation_id c) now d)) = (rows, d1)" by fastforce
  show ?case
  proof (cases "\<not> has c \<and> fst (expire_generation t (cd_generation_id c) now d)")
    case True
    have "g \<in> set (db_generations (snd (expire_each t now has rest d1)))"
      using 2(3) True by (auto simp: del split: prod.splits)
    then have "g \<in> set (db_generations d1) \<or> (\<exists>c \<in> set rest. \<not> has c \<and> gkey g = (t, cd_generation_id c))"
      by (intro 2(1) [OF True refl]) (simp_all add: del)
    moreover have "db_generations d1 = db_generations (snd (expire_generation t (cd_generation_id c) now d))"
      using arg_cong [OF del, of snd] by (auto simp: delete_inputs_for_generation_def Let_def)
    moreover have "g \<in> set (db_generations (snd (expire_generation t (cd_generation_id c) now d))) \<Longrightarrow>
        g \<in> set (db_generations d) \<or> gkey g = (t, cd_generation_id c)"
      by (auto simp: expire_generation_def update_generation_def set_update_where gkey_def)
    ultimately show ?thesis using True by auto
  next
    case False
    with 2(2) 2(3) show ?thesis by auto
  qed
qed simp

definition queue_age_limit :: "TenantSettings option \<Rightarrow> nat" where
  "queue_age_limit s = 2 * maximum_queue_age (case s of Some x \<Rightarrow> x | None \<Rightarrow> TenantSettings_default)"

text \<open>C22: The starvation sweep expires only starved Generations. A Generation it moved to Expired
  was Queued in the swept Tenant, has waited at least twice the Tenant's maximum queue age, and
  no Slot of the capability view that has not already rejected it admits its Requirement; a
  Generation that some such Slot could run is never expired, however long it waited.\<close>
theorem starvation_expiry_sound:
  assumes "good (r_db r)" "chrono_laws S" "expire_starved_queue S t now inputs r = (res, r')"
    and "g \<in> set (db_generations (r_db r))" "g' \<in> set (db_generations (r_db r'))" "gkey g' = gkey g"
    and "g_state g \<noteq> GenerationState.Expired" "g_state g' = GenerationState.Expired"
  shows "g_tenant g = t \<and> g_state g = GenerationState.Queued \<and>
    (\<exists>s caps req. settings t (r_db r) = Ok s \<and> g_created_at g + int (queue_age_limit s) \<le> now \<and>
       pool_capabilities (sv_env S) t (r_db r) = Ok caps \<and>
       requirement_of (sv_env S) t (g_id g) (r_db r) = Some req \<and>
       (\<forall>slot \<in> fst ` set caps. sc_pool_id slot \<notin> set (excluded_pools t (g_id g) (r_db r)) \<longrightarrow>
          \<not> is_ok (admits slot req)))"
proof -
  let ?d = "r_db r"
  let ?cands = "queued_candidates (sv_env S) t SWEEP_LIMIT ?d"
  have dist: "distinct (map gkey (db_generations ?d))" using goodD(3) [OF assms(1)] by (simp add: inv_keys_def)
  have new: "g' \<notin> set (db_generations ?d)"
    using gens.key_unique [OF dist assms(4), of g'] assms(6-8) by auto
  then have "r' \<noteq> r" using assms(5) by auto
  with assms(3) obtain s where s: "settings t ?d = Ok s" by (auto simp: expire_starved_queue_def split: sum.splits)
  define cutoff where "cutoff = now - int (queue_age_limit s)"
  have thr: "maximum_queue_age (case s of Some x \<Rightarrow> x | None \<Rightarrow> TenantSettings_default) * STARVATION_EXPIRY_MULTIPLIER
      = queue_age_limit s" by (simp add: queue_age_limit_def STARVATION_EXPIRY_MULTIPLIER_def)
  have *: "sv_delta_from_std S (queue_age_limit s) = Some (queue_age_limit s)"
    "sv_datetime_sub S now (queue_age_limit s) = Some cutoff" "?cands \<noteq> []"
    using assms(2,3) s \<open>r' \<noteq> r\<close>
    by (auto simp: expire_starved_queue_def thr chrono_laws_def cutoff_def Let_def split: if_splits sum.splits)
  with assms(3) s \<open>r' \<noteq> r\<close> obtain caps where caps: "pool_capabilities (sv_env S) t ?d = Ok caps"
    by (auto simp: expire_starved_queue_def thr Let_def split: sum.splits)
  define has :: "Candidate \<Rightarrow> bool" where "has = (\<lambda>c. has_unrejected_candidate (map fst caps) (cd_requirement c)
      (excluded_pools_for_generations t (map cd_generation_id ?cands) ?d (cd_generation_id c)))"
  let ?due = "filter (\<lambda>c. cd_created_at c \<le> cutoff) ?cands"
  obtain gens rows d where each: "expire_each t now has ?due ?d = ((gens, rows), d)" by (metis prod.exhaust)
  have r': "r' = publish_all S t inputs 0 gens (release_deleted_inputs rows (r\<lparr>r_db := d\<rparr>))"
    using assms(3) s * caps each by (simp add: expire_starved_queue_def thr Let_def has_def)
  then have "g' \<in> set (db_generations d)" using assms(5) by simp
  with expire_each_rows [of g' t now has ?due ?d] each new
  obtain c where c: "c \<in> set ?due" "\<not> has c" "gkey g' = (t, cd_generation_id c)" by auto
  then have in_c: "c \<in> set ?cands" "gkey g = (t, cd_generation_id c)" using assms(6) by auto
  note origin = queued_candidates_origin [OF assms(1) in_c(1) assms(4) in_c(2)]
  have ids: "cd_generation_id c = g_id g" "g_tenant g = t" using in_c(2) by (auto simp: gkey_def)
  have "\<forall>slot \<in> fst ` set caps. sc_pool_id slot \<notin> set (excluded_pools t (g_id g) ?d) \<longrightarrow>
      \<not> is_ok (admits slot (cd_requirement c))"
    using c(2) in_c(1) ids
    by (auto simp: has_def has_unrejected_candidate_def any_candidate_remains_def excluded_pools_for_generations_def)
  moreover have "g_created_at g + int (queue_age_limit s) \<le> now" using c(1) origin(2) by (simp add: cutoff_def)
  ultimately show ?thesis using s caps origin(1,3) ids by auto
qed

text \<open>A store whose queued Generation has no Slot left.\<close>

definition example_starved_db :: db where
  "example_starved_db = example_ready_db\<lparr>db_pools := [], db_pool_models := []\<rparr>"

definition example_sweep :: remote where
  "example_sweep = snd (expire_starved_queue example_services 7 10000000000000 (\<lambda>_. example_input)
     (example_remote example_starved_db))"

lemma example_starved_good: "good example_starved_db"
  using example_inv
  by (simp_all add: good_def example_starved_db_def example_ready_db_def inv_events_def events_of_def)
    (simp_all add: store_inv_def inv_defs example_defs key_defs live_count_def)

lemma example_starved_candidates:
  "queued_candidates example_env 7 SWEEP_LIMIT example_starved_db =
     [\<lparr>cd_generation_id = 10, cd_created_at = 0, cd_priority = Priority 5, cd_requirement = example_requirement 7\<rparr>]"
  by (simp add: queued_candidates_def oks_def into_candidate_def requirement_from_parts_def pinned_manifest_def
      example_for_generation example_starved_db_def example_ready_db_def example_queued_db_def empty_db_def
      example_generation_def example_model_row_def example_env_def Priority_new_def Priority_MAX_def SWEEP_LIMIT_def)

lemma example_sweep_expired:
  "\<exists>g' \<in> set (db_generations (r_db example_sweep)). gkey g' = (7, 10) \<and> g_state g' = GenerationState.Expired"
proof -
  have cands: "queued_candidates (sv_env example_services) 7 SWEEP_LIMIT (r_db (example_remote example_starved_db)) =
      [\<lparr>cd_generation_id = 10, cd_created_at = 0, cd_priority = Priority 5, cd_requirement = example_requirement 7\<rparr>]"
    using example_starved_candidates by (simp add: example_services_def example_remote_def)
  have setts: "settings 7 (r_db (example_remote example_starved_db)) = Ok None"
    by (simp add: settings_def example_remote_def example_starved_db_def example_ready_db_def example_queued_db_def empty_db_def)
  have caps: "pool_capabilities (sv_env example_services) 7 (r_db (example_remote example_starved_db)) = Ok []"
    by (simp add: pool_capabilities_def example_remote_def example_starved_db_def)
  show ?thesis
    unfolding example_sweep_def expire_starved_queue_def setts cands caps
    by (simp add: Let_def STARVATION_EXPIRY_MULTIPLIER_def TenantSettings_default_def DEFAULT_MAXIMUM_QUEUE_AGE_def
        from_mins_def from_secs_def example_services_def has_unrejected_candidate_def any_candidate_remains_def
        expire_generation_def update_generation_def rows_affected_def update_where_def delete_inputs_for_generation_def
        example_remote_def example_starved_db_def example_ready_db_def example_queued_db_def empty_db_def
        example_generation_def gkey_def release_deleted_inputs_def publish_generation_state_def)
qed

theorem starvation_expiry_sound_witness:
  "(\<exists>g' \<in> set (db_generations (r_db example_sweep)). g_state (g' :: GenerationRow) = GenerationState.Expired) \<and>
   requirement_of example_env 7 10 example_starved_db \<noteq> None"
proof -
  obtain g' where g': "g' \<in> set (db_generations (r_db example_sweep))" "gkey g' = (7, 10)"
    "g_state g' = GenerationState.Expired" using example_sweep_expired by blast
  obtain g where g: "g \<in> set (db_generations (r_db (example_remote example_starved_db)))" "gkey g = (7, 10)"
    "g_state g \<noteq> GenerationState.Expired"
    by (auto simp: example_remote_def example_starved_db_def example_ready_db_def example_queued_db_def
        example_generation_def gkey_def)
  have "good (r_db (example_remote example_starved_db))" using example_starved_good by (simp add: example_remote_def)
  from starvation_expiry_sound [OF this example_chrono_laws _ g(1) g'(1) _ g(3) g'(3)] g(2) g'(2)
  obtain req caps where "requirement_of (sv_env example_services) 7 (g_id g) (r_db (example_remote example_starved_db)) = Some req"
    by (metis example_sweep_def surjective_pairing)
  with g' show ?thesis using g(2) by (auto simp: gkey_def example_services_def example_remote_def)
qed

text \<open>The starvation sweep cannot compute its cutoff for a very long queue age. With the limits
  of the time library, the sweep panics exactly when twice the configured maximum queue age
  reaches back before the first representable day (while still being a representable duration),
  which settings accepted by the settings update can cause; nothing is then swept, and the
  sweeps that should follow for this Tenant do not run.\<close>
theorem starvation_cutoff_panics:
  assumes "chrono_laws S" "settings t (r_db r) = Ok s"
  shows "(fst (expire_starved_queue S t now inputs r) = SweepPanicked \<longleftrightarrow>
      queue_age_limit s \<le> (2 ^ 63 - 1) * 1000000 \<and>
      now - int (queue_age_limit s) < - 8334601228800 * 1000000000) \<and>
    (fst (expire_starved_queue S t now inputs r) = SweepPanicked \<longrightarrow>
      snd (expire_starved_queue S t now inputs r) = r)"
  using assms
  by (auto simp: expire_starved_queue_def Let_def STARVATION_EXPIRY_MULTIPLIER_def chrono_laws_def
      queue_age_limit_def mult.commute split: sum.split prod.split)

text \<open>A queue age of 200,000 years in seconds, accepted by the settings update.\<close>

definition long_queue_age :: TenantSettings where
  "long_queue_age = TenantSettings_default\<lparr>maximum_queue_age := 6300000000000 * 1000000000\<rparr>"

theorem starvation_cutoff_panics_witness:
  "\<exists>d. update_settings 7 long_queue_age example_clocks example_tenant_db = Ok ((), d) \<and>
     expire_starved_queue example_services 7 50 (\<lambda>_. example_input) (example_remote d) =
       (SweepPanicked, example_remote d)"
proof -
  define d where "d = snd (projr (update_settings 7 long_queue_age example_clocks example_tenant_db))"
  have ok: "update_settings 7 long_queue_age example_clocks example_tenant_db = Ok ((), d)"
    unfolding d_def
    by (simp add: update_settings_def long_queue_age_def positive_interval_def interval_from_duration_def)
      (simp add: TenantSettings_default_def Priority_DEFAULT_def from_hours_def from_mins_def from_secs_def)
  have row: "db_tenants example_tenant_db = [new_tenant_row 7 ''acme'' example_clocks]"
    by (simp add: example_tenant_db_def create_tenant_def example_db_def empty_db_def)
  have "tn_id (new_tenant_row 7 ''acme'' example_clocks) = 7" "tn_deleted_at (new_tenant_row 7 ''acme'' example_clocks) = None"
    by (simp_all add: new_tenant_row_def)
  moreover define x where "x = new_tenant_row 7 ''acme'' example_clocks\<lparr>
       tn_maximum_queue_age := interval_from_duration (maximum_queue_age long_queue_age),
       tn_max_queued_generations := uint (max_queued_generations long_queue_age),
       tn_max_input_artifact_bytes := uint (max_input_artifact_bytes long_queue_age),
       tn_max_output_artifact_bytes := uint (max_output_artifact_bytes long_queue_age),
       tn_execution_timeout_ceiling := interval_from_duration (execution_timeout_ceiling long_queue_age),
       tn_default_priority := uint (Priority_get (default_priority long_queue_age)),
       tn_updated_at := sql_now example_clocks\<rparr>"
  ultimately have x: "find (\<lambda>x. tn_id x = 7 \<and> tn_deleted_at x = None) (db_tenants d) = Some x"
    using ok row by (auto simp: update_settings_def update_where_def split: if_splits)
  have "tenant_settings_from_row x = Ok long_queue_age"
    unfolding x_def long_queue_age_def
    by (simp add: tenant_settings_from_row_def interval_round_trip TenantSettings_default_def Priority_DEFAULT_def
        DEFAULT_MAXIMUM_QUEUE_AGE_def from_hours_def from_mins_def from_secs_def Priority_try_from_i32_def
        Priority_new_def Priority_MAX_def)
  then have "settings 7 d = Ok (Some long_queue_age)" by (simp add: settings_def x)
  then have "settings 7 (r_db (example_remote d)) = Ok (Some long_queue_age)" by (simp add: example_remote_def)
  note panics = starvation_cutoff_panics [OF example_chrono_laws this, of 50 "\<lambda>_. example_input"]
  have "fst (expire_starved_queue example_services 7 50 (\<lambda>_. example_input) (example_remote d)) = SweepPanicked"
    using panics by (simp add: queue_age_limit_def long_queue_age_def)
  then show ?thesis using panics ok by (metis prod.collapse)
qed

end
