(* ===== verification/Session.thy ===== *)
theory Session
  imports Expiry
begin

text \<open>
  The control session of a Worker, \<^verbatim>\<open>gpq-remote/src/session.rs\<close>: the handshake, the handlers of
  the Worker's messages and the pump that dispatches them. Every handler that changes state locks
  the Worker row first and stops when the credential of the session is no longer the current one.
  A handler is one transaction (two for a result, which may be refused before); an error rolls
  the transaction back and is logged by the pump.
\<close>

section \<open>State of a session\<close>

record AuthenticatedWorker =
  aw_tenant_id :: TenantId
  aw_worker_id :: WorkerId
  aw_credential_hash :: "u8 list"

datatype handler_error =
    HandlerSql sql_error
  | MalformedResult string
  | RecordFailed RecordError

record session_input =
  ss_tx :: tx_input
  ss_pools :: "nat \<Rightarrow> DevicePoolId"
  ss_versions :: "nat \<Rightarrow> uuid"
  ss_artifacts :: "nat \<Rightarrow> ArtifactId"

definition credential_current :: "AuthenticatedWorker \<Rightarrow> db \<Rightarrow> bool" where
  "credential_current w d =
     lock_current_worker_credential (aw_tenant_id w) (aw_worker_id w) (aw_credential_hash w) d"

definition parse_uuid_id :: "services \<Rightarrow> string \<Rightarrow> handler_error + uuid" where
  "parse_uuid_id S text =
     (case uuid_parse (sv_text S) text of Some u \<Rightarrow> Ok u | None \<Rightarrow> Err (HandlerSql (DecodeError ''uuid'')))"

text \<open>Recording a state event; here a failure to record ends the handler.\<close>

definition publish_snapshot ::
  "services \<Rightarrow> TenantId \<Rightarrow> GenerationId \<Rightarrow> GenerationEvent option \<Rightarrow> tx_input \<Rightarrow> remote \<Rightarrow>
   handler_error option \<times> remote" where
  "publish_snapshot S t gen snapshot inp r =
     (case snapshot of
        None \<Rightarrow> (None, r)
      | Some event \<Rightarrow>
          (case record_event (sv_codec S) t gen event (ti_event inp) (ti_clk inp) (r_hub r) (r_db r) of
             (e, hub, d) \<Rightarrow> (map_option RecordFailed e, r\<lparr>r_hub := hub, r_db := d\<rparr>)))"

definition and_then :: "handler_error option \<times> remote \<Rightarrow> (remote \<Rightarrow> remote) \<Rightarrow> handler_error option \<times> remote" where
  "and_then x f = (case x of (Some e, r) \<Rightarrow> (Some e, r) | (None, r) \<Rightarrow> (None, f r))"

section \<open>Capability reports\<close>

definition verified_models :: "services \<Rightarrow> ModelAdvertisement list \<Rightarrow> (ContentHash \<times> ModelManifest) list" where
  "verified_models S advertisements =
     List.map_filter (\<lambda>advertisement.
       case parse_hash (sv_text S) (ma_version_sha256 advertisement) of
         None \<Rightarrow> None
       | Some advertised \<Rightarrow>
           (case Option.bind (ma_manifest advertisement) (model_manifest_from_proto (sv_text S)) of
              None \<Rightarrow> None
            | Some manifest \<Rightarrow>
                if canonical_hash (x_manifest_to_vec (sv_env S)) (x_sha256 (sv_env S)) manifest \<noteq> Some advertised
                then None
                else if is_ok (ModelManifest_validate manifest) then Some (advertised, manifest)
                else None)) advertisements"

definition pool_upsert_from_proto ::
  "services \<Rightarrow> PoolAdvertisement \<Rightarrow> (PoolUpsert \<times> (ContentHash \<times> ModelManifest) list) option" where
  "pool_upsert_from_proto S pool =
     (if pa_accelerator pool = [] then None
      else
        let models = verified_models S (pa_models pool)
        in Some (\<lparr>pu_pool_key = pa_pool_id pool, pu_accelerator = pa_accelerator pool,
                  pu_accelerator_version = pa_backend_version pool, pu_ready = pa_ready pool,
                  pu_unready_reason = pa_unready_reason pool,
                  pu_total_slots = (if length (pa_slots pool) < 2 ^ 32 then of_nat (length (pa_slots pool)) else - 1),
                  pu_resident_model = (if pa_resident_model_sha256 pool = [] then None
                                       else parse_hash (sv_text S) (pa_resident_model_sha256 pool)),
                  pu_accelerator_memory_bytes = pa_accelerator_memory_bytes pool, pu_probes = [],
                  pu_model_hashes = map fst models,
                  pu_image_loras = List.map_filter (parse_hash (sv_text S)) (pa_image_lora_sha256 pool),
                  pu_shape_limits = shape_limits_from_proto (pa_shape_limits pool)\<rparr>, models))"

text \<open>The entries of a \<^verbatim>\<open>BTreeMap\<close> extended by a list: keys in order, the last value of a key.\<close>

definition btree_entries :: "('k :: linorder \<times> 'v) list \<Rightarrow> ('k \<times> 'v) list" where
  "btree_entries kvs = map (\<lambda>k. (k, the (map_of (rev kvs) k))) (btree_set (map fst kvs))"

definition try_handle_capability_report ::
  "services \<Rightarrow> AuthenticatedWorker \<Rightarrow> PoolAdvertisement list \<Rightarrow> session_input \<Rightarrow> remote \<Rightarrow>
   handler_error option \<times> remote" where
  "try_handle_capability_report S w pools inp r =
     (let parsed = List.map_filter (pool_upsert_from_proto S) pools;
          versions = btree_entries (concat (map snd parsed));
          clk = ti_clk (ss_tx inp)
      in if \<not> credential_current w (r_db r) then (None, r)
         else
           (case rbind (register_model_versions (sv_env S) (aw_tenant_id w)
                          (map (\<lambda>(k, hash, manifest). (hash, manifest, ss_versions inp k)) (enumerate 0 versions))
                          clk (r_db r)) (\<lambda>(_, d1).
                 rbind (upsert_pools (aw_tenant_id w) (aw_worker_id w)
                          (map (\<lambda>(k, upsert). (upsert, ss_pools inp k)) (enumerate 0 (map fst parsed))) clk d1)
                   (\<lambda>(_, d2). Ok (touch_last_seen (aw_tenant_id w) (aw_worker_id w) clk d2))) of
              Err e \<Rightarrow> (Some (HandlerSql e), r)
            | Ok d \<Rightarrow> (None, r\<lparr>r_db := d\<rparr>)))"

section \<open>Heartbeats\<close>

definition not_renewed_cancel_messages :: "services \<Rightarrow> AttemptId list \<Rightarrow> RemoteMessage list" where
  "not_renewed_cancel_messages S not_renewed =
     map (\<lambda>attempt. CancelRequest (uuid_print (sv_text S) attempt) ''lease could not be renewed'') not_renewed"

definition send_all :: "nat \<Rightarrow> RemoteMessage list \<Rightarrow> remote \<Rightarrow> remote" where
  "send_all outbound messages r = r\<lparr>r_chans := fold (send_outbound outbound) messages (r_chans r)\<rparr>"

definition try_handle_heartbeat ::
  "services \<Rightarrow> AuthenticatedWorker \<Rightarrow> nat \<Rightarrow> string list \<Rightarrow> session_input \<Rightarrow> remote \<Rightarrow> bool \<times> remote" where
  "try_handle_heartbeat S w outbound ids inp r =
     (let attempt_ids = List.map_filter (uuid_parse (sv_text S)) ids;
          clk = ti_clk (ss_tx inp)
      in if \<not> credential_current w (r_db r) then (False, r)
         else
           let (not_renewed, d) = heartbeat (aw_tenant_id w) (aw_worker_id w) attempt_ids (ti_now (ss_tx inp)) clk (r_db r)
           in (True, send_all outbound (not_renewed_cancel_messages S not_renewed)
                       (r\<lparr>r_db := touch_last_seen (aw_tenant_id w) (aw_worker_id w) clk d\<rparr>)))"

section \<open>Running and progress\<close>

definition try_handle_attempt_running ::
  "services \<Rightarrow> AuthenticatedWorker \<Rightarrow> string \<Rightarrow> session_input \<Rightarrow> remote \<Rightarrow> handler_error option \<times> remote" where
  "try_handle_attempt_running S w attempt_text inp r =
     (let t = aw_tenant_id w; now = ti_now (ss_tx inp) in
      case parse_uuid_id S attempt_text of
        Err e \<Rightarrow> (Some e, r)
      | Ok attempt \<Rightarrow>
          if \<not> credential_current w (r_db r) then (None, r)
          else
            let (marked, d1) = mark_running_attempt t attempt (aw_worker_id w) now (r_db r) in
            if \<not> marked then (None, r)
            else
              (case generation_id_of t attempt (aw_worker_id w) now d1 of
                 None \<Rightarrow> (None, r)
               | Some gen \<Rightarrow>
                   let d2 = snd (mark_running_generation t gen now d1)
                   in publish_snapshot S t gen (generation_snapshot t gen d2) (ss_tx inp) (r\<lparr>r_db := d2\<rparr>)))"

definition record_progress ::
  "services \<Rightarrow> TenantId \<Rightarrow> GenerationId \<Rightarrow> WireProgress \<Rightarrow> datetime \<Rightarrow> clocks \<Rightarrow> db \<Rightarrow> bool \<times> db" where
  "record_progress S t gen p now clk =
     update_progress t gen
       (JObject [(''fraction'', sv_f64_json S (wp_fraction p)), (''stage'', JString (wp_stage p)),
                 (''step'', JNumber (uint (wp_step p))), (''total_steps'', JNumber (uint (wp_total_steps p))),
                 (''observed_at'', JString (sv_rfc3339 S now))]) clk"

definition try_handle_attempt_progress ::
  "services \<Rightarrow> AuthenticatedWorker \<Rightarrow> string \<Rightarrow> WireProgress option \<Rightarrow> session_input \<Rightarrow> remote \<Rightarrow>
   handler_error option \<times> remote" where
  "try_handle_attempt_progress S w attempt_text progress inp r =
     (let t = aw_tenant_id w; now = ti_now (ss_tx inp); clk = ti_clk (ss_tx inp) in
      case parse_uuid_id S attempt_text of
        Err e \<Rightarrow> (Some e, r)
      | Ok attempt \<Rightarrow>
          (case progress of
             None \<Rightarrow> (None, r)
           | Some p \<Rightarrow>
               if \<not> credential_current w (r_db r) then (None, r)
               else
                 (case generation_id_of t attempt (aw_worker_id w) now (r_db r) of
                    None \<Rightarrow> (None, r)
                  | Some gen \<Rightarrow>
                      publish_snapshot S t gen
                        (Some (ProgressUpdate (wp_fraction p) (wp_stage p) (wp_step p) (wp_total_steps p))) (ss_tx inp)
                        (r\<lparr>r_db := snd (record_progress S t gen p now clk (r_db r))\<rparr>))))"

section \<open>Failures\<close>

definition settle_attempt_failure ::
  "services \<Rightarrow> AuthenticatedWorker \<Rightarrow> AttemptId \<Rightarrow> FailureDetails \<Rightarrow> session_input \<Rightarrow> remote \<Rightarrow>
   handler_error option \<times> remote" where
  "settle_attempt_failure S w attempt failure inp r =
     (let t = aw_tenant_id w in
      if \<not> credential_current w (r_db r) then (None, r)
      else
        (case record_failure_for_worker (sv_env S) t attempt (aw_worker_id w) failure (ti_now (ss_tx inp))
                (ti_clk (ss_tx inp)) (r_db r) of
           Err e \<Rightarrow> (Some (HandlerSql e), r)
         | Ok (None, d1) \<Rightarrow> (None, r\<lparr>r_db := d1\<rparr>)
         | Ok (Some (gen, decision), d1) \<Rightarrow>
             let (deleted, d2) = (if decision = Fail then delete_inputs_for_generation t gen d1 else ([], d1))
             in and_then (publish_snapshot S t gen (generation_snapshot t gen d2) (ss_tx inp) (r\<lparr>r_db := d2\<rparr>))
                  (release_deleted_inputs deleted)))"

definition try_handle_attempt_failure ::
  "services \<Rightarrow> AuthenticatedWorker \<Rightarrow> string \<Rightarrow> ProtoFailure option \<Rightarrow> session_input \<Rightarrow> remote \<Rightarrow>
   handler_error option \<times> remote" where
  "try_handle_attempt_failure S w attempt_text failure inp r =
     (case parse_uuid_id S attempt_text of
        Err e \<Rightarrow> (Some e, r)
      | Ok attempt \<Rightarrow>
          (case failure of
             None \<Rightarrow> (None, r)
           | Some f \<Rightarrow>
               settle_attempt_failure S w attempt
                 \<lparr>fd_kind = (case domain_failure_kind (pf_kind f) of Some k \<Rightarrow> k | None \<Rightarrow> FailureKind.Internal),
                  fd_message = pf_message f, fd_worker_retry_hint = pf_worker_retry_hint f\<rparr> inp r))"

section \<open>Results\<close>

datatype ResultReply = ReplyAccepted GenerationId | ReplyAcceptedReplay | ReplyDiscard

fun classify_result_outcome :: "AcceptOutcome \<Rightarrow> ResultReply" where
  "classify_result_outcome (Accepted gen) = ReplyAccepted gen"
| "classify_result_outcome AcceptedReplay = ReplyAcceptedReplay"
| "classify_result_outcome StaleLease = ReplyDiscard"
| "classify_result_outcome AlreadyAccepted = ReplyDiscard"
| "classify_result_outcome TerminalGeneration = ReplyDiscard"

definition output_placement_worker :: "ArtifactPlacement \<Rightarrow> WorkerId \<Rightarrow> WorkerId option" where
  "output_placement_worker placement worker =
     (if placement = ArtifactPlacement.WorkerLocal then Some worker else None)"

definition output_manifest :: "services \<Rightarrow> AttemptOutput \<Rightarrow> ArtifactManifest option" where
  "output_manifest S out = Option.bind (ao_manifest out) (domain_manifest_from_proto (sv_text S))"

definition oversized_output :: "services \<Rightarrow> TenantSettings \<Rightarrow> AttemptOutput \<Rightarrow> bool" where
  "oversized_output S setts out =
     (case output_manifest S out of
        None \<Rightarrow> False
      | Some manifest \<Rightarrow>
          uint (am_size_bytes manifest) \<ge> 2 ^ 63 \<or> \<not> fits_within manifest (max_output_artifact_bytes setts))"

text \<open>The first oversized output fails the Attempt; the flag says whether the result was refused.\<close>

definition reject_oversized_outputs ::
  "services \<Rightarrow> AuthenticatedWorker \<Rightarrow> AttemptId \<Rightarrow> AttemptOutput list \<Rightarrow> TenantSettings \<Rightarrow> session_input \<Rightarrow>
   remote \<Rightarrow> bool \<times> handler_error option \<times> remote" where
  "reject_oversized_outputs S w attempt outputs setts inp r =
     (if \<exists>out \<in> set outputs. oversized_output S setts out
      then (True, settle_attempt_failure S w attempt
              \<lparr>fd_kind = FailureKind.InvalidInput,
               fd_message = ''output artifact exceeds the tenant's configured max_output_artifact_bytes'',
               fd_worker_retry_hint = False\<rparr> inp r)
      else (False, None, r))"

definition output_object_key ::
  "services \<Rightarrow> TenantId \<Rightarrow> GenerationId \<Rightarrow> AttemptId \<Rightarrow> ArtifactPlacement \<Rightarrow> string \<Rightarrow>
   handler_error + string option" where
  "output_object_key S t gen attempt placement reported =
     (case placement of
        ArtifactPlacement.ObjectStore \<Rightarrow>
          if reported \<noteq> leased_output_key (sv_text S) t gen attempt
          then Err (MalformedResult ''object_key does not match the leased key'')
          else Ok (Some reported)
      | ArtifactPlacement.WorkerLocal \<Rightarrow>
          if reported \<noteq> [] then Err (MalformedResult ''worker_local output carries an object_key'')
          else Ok None
      | ArtifactPlacement.RemoteLocal \<Rightarrow> Err (MalformedResult ''not an output placement''))"

fun record_outputs ::
  "services \<Rightarrow> AuthenticatedWorker \<Rightarrow> AttemptId \<Rightarrow> GenerationId \<Rightarrow> session_input \<Rightarrow> nat \<Rightarrow> AttemptOutput list \<Rightarrow>
   db \<Rightarrow> handler_error + nat \<times> db" where
  "record_outputs S w attempt gen inp k [] d = Ok (0, d)"
| "record_outputs S w attempt gen inp k (out # rest) d =
     (case (output_manifest S out, domain_placement (ao_placement out)) of
        (Some manifest, Some placement) \<Rightarrow>
          rbind (output_object_key S (aw_tenant_id w) gen attempt placement (ao_object_key out)) (\<lambda>object_key.
          rbind (map_err HandlerSql (record_output (aw_tenant_id w) gen attempt
                   (output_placement_worker placement (aw_worker_id w)) manifest placement object_key
                   (if ao_delivery_token out = [] then None else Some (ao_delivery_token out))
                   (ss_artifacts inp k) (ti_clk (ss_tx inp)) d)) (\<lambda>(_, d1).
          rbind (record_outputs S w attempt gen inp (Suc k) rest d1) (\<lambda>(n, d2). Ok (Suc n, d2))))
      | _ \<Rightarrow> record_outputs S w attempt gen inp k rest d)"

definition publish_outputs :: "GenerationId \<Rightarrow> nat \<Rightarrow> remote \<Rightarrow> remote" where
  "publish_outputs gen n r = r\<lparr>r_hub := (publish gen OutputAvailable ^^ n) (r_hub r)\<rparr>"

text \<open>The transaction opened by the caller holds the acceptance; it is lost with any error here.\<close>

definition record_accepted_result ::
  "services \<Rightarrow> AuthenticatedWorker \<Rightarrow> AttemptId \<Rightarrow> GenerationId \<Rightarrow> AttemptOutput list \<Rightarrow> session_input \<Rightarrow> db \<Rightarrow>
   remote \<Rightarrow> handler_error option \<times> remote" where
  "record_accepted_result S w attempt gen outputs inp d r =
     (let t = aw_tenant_id w in
      case record_outputs S w attempt gen inp 0 outputs d of
        Err e \<Rightarrow> (Some e, r)
      | Ok (output_count, d1) \<Rightarrow>
          let (deleted, d2) = delete_inputs_for_generation t gen d1
          in and_then (publish_snapshot S t gen (generation_snapshot t gen d2) (ss_tx inp) (r\<lparr>r_db := d2\<rparr>))
               (\<lambda>r1. publish_outputs gen output_count (release_deleted_inputs deleted r1)))"

definition accepted_tokens :: "TenantId \<Rightarrow> AttemptId \<Rightarrow> db \<Rightarrow> string list" where
  "accepted_tokens t attempt d =
     List.map_filter f_delivery_token
       (filter (\<lambda>f. f_tenant f = t \<and> f_attempt f = Some attempt \<and> f_direction f = Output) (db_artifacts d))"

definition discard_worker_outputs :: "nat \<Rightarrow> AttemptOutput list \<Rightarrow> string list \<Rightarrow> string \<Rightarrow> remote \<Rightarrow> remote" where
  "discard_worker_outputs outbound outputs tokens reason =
     send_all outbound
       (map (\<lambda>out. DiscardOutput [] (ao_delivery_token out) reason)
          (filter (\<lambda>out. ao_delivery_token out \<noteq> [] \<and> ao_delivery_token out \<notin> set tokens) outputs))"

definition try_handle_attempt_result ::
  "services \<Rightarrow> AuthenticatedWorker \<Rightarrow> nat \<Rightarrow> string \<Rightarrow> AttemptOutput list \<Rightarrow> session_input \<Rightarrow> remote \<Rightarrow>
   handler_error option \<times> remote" where
  "try_handle_attempt_result S w outbound attempt_text outputs inp r =
     (let t = aw_tenant_id w in
      case parse_uuid_id S attempt_text of
        Err e \<Rightarrow> (Some e, r)
      | Ok attempt \<Rightarrow>
          (case load_settings t (r_db r) of
             Err e \<Rightarrow> (Some (HandlerSql e), r)
           | Ok setts \<Rightarrow>
               (case reject_oversized_outputs S w attempt outputs setts inp r of
                  (True, settled) \<Rightarrow> settled
                | (False, _) \<Rightarrow>
                    if \<not> credential_current w (r_db r) then (None, r)
                    else
                      (case accept_result t attempt (aw_worker_id w) (ti_now (ss_tx inp)) (ti_clk (ss_tx inp)) (r_db r) of
                         (outcome, d) \<Rightarrow>
                           (case classify_result_outcome outcome of
                              ReplyAccepted gen \<Rightarrow> record_accepted_result S w attempt gen outputs inp d r
                            | ReplyAcceptedReplay \<Rightarrow>
                                (None, discard_worker_outputs outbound outputs (accepted_tokens t attempt d)
                                         ''result replay included unreferenced outputs'' (r\<lparr>r_db := d\<rparr>))
                            | ReplyDiscard \<Rightarrow>
                                (None, discard_worker_outputs outbound outputs []
                                         ''result rejected: stale lease, duplicate, or terminal generation''
                                         (r\<lparr>r_db := d\<rparr>)))))))"

section \<open>Cancellation and rejection\<close>

definition try_handle_cancel_acknowledged ::
  "services \<Rightarrow> AuthenticatedWorker \<Rightarrow> string \<Rightarrow> session_input \<Rightarrow> remote \<Rightarrow> handler_error option \<times> remote" where
  "try_handle_cancel_acknowledged S w attempt_text inp r =
     (let t = aw_tenant_id w in
      case parse_uuid_id S attempt_text of
        Err e \<Rightarrow> (Some e, r)
      | Ok attempt \<Rightarrow>
          if \<not> credential_current w (r_db r) then (None, r)
          else
            (case acknowledge_cancel t attempt (aw_worker_id w) (ti_now (ss_tx inp)) (ti_clk (ss_tx inp)) (r_db r) of
               (None, d1) \<Rightarrow> (None, r\<lparr>r_db := d1\<rparr>)
             | (Some gen, d1) \<Rightarrow>
                 let (deleted, d2) = delete_inputs_for_generation t gen d1
                 in and_then (publish_snapshot S t gen (generation_snapshot t gen d2) (ss_tx inp) (r\<lparr>r_db := d2\<rparr>))
                      (release_deleted_inputs deleted)))"

text \<open>The failure a rejected lease carries is only logged: a pre-execution rejection is not a
  failure of the Generation.\<close>

definition try_handle_lease_rejected ::
  "services \<Rightarrow> AuthenticatedWorker \<Rightarrow> string \<Rightarrow> ProtoFailure option \<Rightarrow> session_input \<Rightarrow> remote \<Rightarrow>
   handler_error option \<times> remote" where
  "try_handle_lease_rejected S w attempt_text failure inp r =
     (let t = aw_tenant_id w in
      case parse_uuid_id S attempt_text of
        Err e \<Rightarrow> (Some e, r)
      | Ok attempt \<Rightarrow>
          if failure = None \<or> \<not> credential_current w (r_db r) then (None, r)
          else
            (case reject_lease t attempt (aw_worker_id w) (ti_now (ss_tx inp)) (ti_clk (ss_tx inp)) (r_db r) of
               Err e \<Rightarrow> (Some (HandlerSql e), r)
             | Ok (None, d1) \<Rightarrow> (None, r\<lparr>r_db := d1\<rparr>)
             | Ok (Some gen, d1) \<Rightarrow>
                 publish_snapshot S t gen (generation_snapshot t gen d1) (ss_tx inp) (r\<lparr>r_db := d1\<rparr>)))"

section \<open>Dispatch\<close>

text \<open>The flag is false when the session must end. The errors of the handlers are logged.\<close>

fun dispatch_worker_message ::
  "services \<Rightarrow> AuthenticatedWorker \<Rightarrow> nat \<Rightarrow> WorkerMessage \<Rightarrow> session_input \<Rightarrow> remote \<Rightarrow> bool \<times> remote" where
  "dispatch_worker_message S w c (Handshake major) inp r = (True, r)"
| "dispatch_worker_message S w c (CapabilityReport pools) inp r =
     (True, snd (try_handle_capability_report S w pools inp r))"
| "dispatch_worker_message S w c (Heartbeat ids) inp r = try_handle_heartbeat S w c ids inp r"
| "dispatch_worker_message S w c (AttemptRunning attempt) inp r =
     (True, snd (try_handle_attempt_running S w attempt inp r))"
| "dispatch_worker_message S w c (AttemptProgress attempt progress) inp r =
     (True, snd (try_handle_attempt_progress S w attempt progress inp r))"
| "dispatch_worker_message S w c (AttemptResult attempt outputs) inp r =
     (True, snd (try_handle_attempt_result S w c attempt outputs inp r))"
| "dispatch_worker_message S w c (AttemptFailure attempt failure) inp r =
     (True, snd (try_handle_attempt_failure S w attempt failure inp r))"
| "dispatch_worker_message S w c (CancelAcknowledged attempt) inp r =
     (True, snd (try_handle_cancel_acknowledged S w attempt inp r))"
| "dispatch_worker_message S w c (LeaseRejected attempt failure) inp r =
     (True, snd (try_handle_lease_rejected S w attempt failure inp r))"

text \<open>What the inbound stream yields: a frame (whose message may be unset) or a transport error;
  the list ends when the stream does or the Remote shuts down.\<close>

datatype inbound = TransportError | Frame "WorkerMessage option"

fun run_inbound_pump ::
  "services \<Rightarrow> AuthenticatedWorker \<Rightarrow> nat \<Rightarrow> inbound list \<Rightarrow> (nat \<Rightarrow> session_input) \<Rightarrow> nat \<Rightarrow> remote \<Rightarrow> remote" where
  "run_inbound_pump S w c [] inputs k r = r"
| "run_inbound_pump S w c (TransportError # rest) inputs k r = r"
| "run_inbound_pump S w c (Frame None # rest) inputs k r = run_inbound_pump S w c rest inputs (Suc k) r"
| "run_inbound_pump S w c (Frame (Some message) # rest) inputs k r =
     (case dispatch_worker_message S w c message (inputs k) r of
        (live, r1) \<Rightarrow> if live then run_inbound_pump S w c rest inputs (Suc k) r1 else r1)"

definition spawn_session_pump ::
  "services \<Rightarrow> AuthenticatedWorker \<Rightarrow> nat \<Rightarrow> SessionGuard \<Rightarrow> inbound list \<Rightarrow> (nat \<Rightarrow> session_input) \<Rightarrow> remote \<Rightarrow> remote" where
  "spawn_session_pump S w c guard frames inputs r =
     (let r1 = run_inbound_pump S w c frames inputs 0 r
      in r1\<lparr>r_db := clear_session (aw_tenant_id w) (aw_worker_id w) (r_db r1),
            r_sessions := drop_guard guard (r_sessions r1)\<rparr>)"

section \<open>Opening a session\<close>

definition PROTOCOL_MAJOR :: u32 where "PROTOCOL_MAJOR = 1"

definition PROTOCOL_MINOR :: u32 where "PROTOCOL_MINOR = 1"

definition protocol_compatible :: "u32 \<Rightarrow> bool" where
  "protocol_compatible major \<longleftrightarrow> major = PROTOCOL_MAJOR"

datatype session_error = Unauthenticated | EmptyStream | StreamFailed | HandshakeRequired | IncompatibleMajor u32

text \<open>The keyed hasher is a parameter. \<^verbatim>\<open>stream\<close> is what the inbound stream yields first.\<close>

definition authenticate_session ::
  "(string \<Rightarrow> u8 list) \<Rightarrow> string option \<Rightarrow> inbound option \<Rightarrow> db \<Rightarrow> session_error + AuthenticatedWorker" where
  "authenticate_session hasher token stream d =
     (case token of
        None \<Rightarrow> Err Unauthenticated
      | Some presented \<Rightarrow>
          (case authenticate_worker hasher presented d of
             None \<Rightarrow> Err Unauthenticated
           | Some (t, worker) \<Rightarrow>
               (case stream of
                  None \<Rightarrow> Err EmptyStream
                | Some TransportError \<Rightarrow> Err StreamFailed
                | Some (Frame (Some (Handshake major))) \<Rightarrow>
                    if protocol_compatible major
                    then Ok \<lparr>aw_tenant_id = t, aw_worker_id = worker, aw_credential_hash = hasher presented\<rparr>
                    else Err (IncompatibleMajor major)
                | Some (Frame _) \<Rightarrow> Err HandshakeRequired)))"

text \<open>The database may change between the authentication and the transaction that opens the
  session, so each reads its own store. The channel \<^verbatim>\<open>c\<close> is fresh; its receiver is still held
  here, so the acknowledgement is queued.\<close>

definition session ::
  "services \<Rightarrow> (string \<Rightarrow> u8 list) \<Rightarrow> string option \<Rightarrow> inbound option \<Rightarrow> db \<Rightarrow> string \<Rightarrow> nat \<Rightarrow> session_input \<Rightarrow>
   remote \<Rightarrow> session_error + (AuthenticatedWorker \<times> SessionGuard) \<times> remote" where
  "session S hasher token stream d0 session_id c inp r =
     rbind (authenticate_session hasher token stream d0) (\<lambda>w.
       if \<not> credential_current w (r_db r) then Err Unauthenticated
       else
         let t = aw_tenant_id w;
             resumable = live_for_worker t (aw_worker_id w) (r_db r);
             (guard, sessions') = register t (aw_worker_id w) session_id c (r_sessions r);
             ack = HandshakeAck \<lparr>ha_protocol_major = PROTOCOL_MAJOR, ha_protocol_minor = PROTOCOL_MINOR,
                     ha_session_id = session_id, ha_heartbeat_interval = HEARTBEAT_INTERVAL, ha_lease_ttl = LEASE_TTL,
                     ha_resumable_attempt_ids = map (\<lambda>a. uuid_print (sv_text S) (a_id a)) resumable\<rparr>
         in Ok ((w, guard),
                r\<lparr>r_db := mark_session t (aw_worker_id w) session_id (ti_clk (ss_tx inp)) (r_db r),
                  r_sessions := sessions',
                  r_chans := send_outbound c ack
                    ((r_chans r)(c := \<lparr>ch_capacity = 64, ch_queue = [], ch_closed = False\<rparr>))\<rparr>))"

section \<open>The contract\<close>

lemma snd_publish_snapshot [simp]:
  "snd (publish_snapshot S t gen snap inp r) = publish_state_event S t gen snap inp r"
  by (simp add: publish_snapshot_def publish_state_event_def split: option.split prod.split)

lemma and_then_db:
  assumes "\<And>r. r_db (f r) = r_db r"
  shows "r_db (snd (and_then x f)) = r_db (snd x)"
  using assms by (auto simp: and_then_def split: prod.split option.split)

lemma session_frames [simp]:
  "r_db (send_all c ms r) = r_db r" "r_db (discard_worker_outputs c outs toks reason r) = r_db r"
  "r_db (publish_outputs gen n r) = r_db r"
  "r_db (snd (and_then x (release_deleted_inputs rows))) = r_db (snd x)"
  "r_db (snd (and_then x (\<lambda>r. publish_outputs gen n (release_deleted_inputs rows r)))) = r_db (snd x)"
  by (simp_all add: send_all_def discard_worker_outputs_def publish_outputs_def and_then_db)

lemma keeps_published [keeps_intros]:
  "keeps t d0 d \<Longrightarrow> keeps t d0 (r_db (publish_state_event S t gen snap inp (r\<lparr>r_db := d\<rparr>)))"
  using keeps_trans keeps_publish_state_event [of t "r\<lparr>r_db := d\<rparr>"] by force

lemma keeps_capability_report [keeps_intros]:
  "keeps (aw_tenant_id w) (r_db r) (r_db (snd (try_handle_capability_report S w pools inp r)))"
proof -
  have "keeps (aw_tenant_id w) d (touch_last_seen (aw_tenant_id w) v clk d2)"
    if "register_model_versions E (aw_tenant_id w) vs clk d = Ok (u, d1)"
      "upsert_pools (aw_tenant_id w) v report clk d1 = Ok (u', d2)"
    for E vs clk d u d1 v report u' d2
    by (rule keeps_trans [OF keeps_trans [OF keeps_register_model_versions [OF that(1)]
            keeps_upsert_pools [OF that(2)]] keeps_workers(4)])
  then show ?thesis
    by (auto simp: try_handle_capability_report_def Let_def rbind_def split: sum.split prod.split)
qed

lemma keeps_heartbeat [keeps_intros]:
  "keeps (aw_tenant_id w) (r_db r) (r_db (snd (try_handle_heartbeat S w c ids inp r)))"
  using keeps_trans [OF keeps_renewals(1) keeps_workers(4)]
  by (auto simp: try_handle_heartbeat_def Let_def split: prod.split) (metis snd_conv)

lemma keeps_attempt_running [keeps_intros]:
  "keeps (aw_tenant_id w) (r_db r) (r_db (snd (try_handle_attempt_running S w a inp r)))"
  using keeps_published [OF keeps_trans [OF keeps_renewals(2) keeps_generation_changes(1)]]
  by (auto simp: try_handle_attempt_running_def Let_def split: sum.split prod.split option.split) (metis snd_conv)

lemma keeps_attempt_progress [keeps_intros]:
  "keeps (aw_tenant_id w) (r_db r) (r_db (snd (try_handle_attempt_progress S w a p inp r)))"
  by (auto simp: try_handle_attempt_progress_def Let_def record_progress_def split: sum.split option.split
      intro: keeps_published keeps_generation_changes(5))

lemma keeps_settle_attempt_failure [keeps_intros]:
  "keeps (aw_tenant_id w) (r_db r) (r_db (snd (settle_attempt_failure S w a failure inp r)))"
proof -
  let ?t = "aw_tenant_id w"
  have "keeps ?t d d1" "delete_inputs_for_generation ?t gen d1 = (rows, d2) \<Longrightarrow> keeps ?t d d2"
    if "record_failure_for_worker E ?t a v failure now clk d = Ok (x, d1)" for E v now clk d x d1 gen rows d2
    using keeps_settlements(2) [OF that] keeps_artifacts(1) [of ?t d1 gen] keeps_trans by auto
  then show ?thesis
    by (auto simp: settle_attempt_failure_def Let_def split: sum.split prod.split option.split intro!: keeps_published)
qed

lemma keeps_attempt_failure [keeps_intros]:
  "keeps (aw_tenant_id w) (r_db r) (r_db (snd (try_handle_attempt_failure S w a failure inp r)))"
  by (auto simp: try_handle_attempt_failure_def keeps_settle_attempt_failure split: sum.split option.split)

lemma keeps_cancel_acknowledged [keeps_intros]:
  "keeps (aw_tenant_id w) (r_db r) (r_db (snd (try_handle_cancel_acknowledged S w a inp r)))"
proof -
  have "keeps t d d1" "delete_inputs_for_generation t gen d1 = (rows, d2) \<Longrightarrow> keeps t d d2"
    if "acknowledge_cancel t i v now clk d = (x, d1)" for t i v now clk d x d1 gen rows d2
    using keeps_acknowledge_cancel [of t d i v now clk] keeps_artifacts(1) [of t d1 gen] that keeps_trans by auto
  then show ?thesis
    by (auto simp: try_handle_cancel_acknowledged_def Let_def split: sum.split prod.split option.split intro!: keeps_published)
qed

lemma keeps_lease_rejected [keeps_intros]:
  "keeps (aw_tenant_id w) (r_db r) (r_db (snd (try_handle_lease_rejected S w a failure inp r)))"
  by (auto simp: try_handle_lease_rejected_def Let_def split: sum.split prod.split option.split
      intro!: keeps_published intro: keeps_reject_lease)

text \<open>Recording the outputs of an Attempt that has been accepted.\<close>

definition succeeded_attempt :: "TenantId \<Rightarrow> AttemptId \<Rightarrow> db \<Rightarrow> bool" where
  "succeeded_attempt t i d \<longleftrightarrow> (\<exists>x \<in> set (db_attempts d). akey x = (t, i) \<and> a_state x = AttemptState.Succeeded)"

lemma keeps_record_output [keeps_intros]:
  assumes ok: "record_output t gen a w m p k tok i clk d = Ok (row, d')" and a: "succeeded_attempt t a d"
  shows "keeps t d d'" "db_attempts d' = db_attempts d"
proof -
  show "keeps t d d'"
  proof (rule keepsI)
    assume good: "good d"
    note sound = record_output_sound [OF goodD(1) [OF good] ok a [unfolded succeeded_attempt_def]]
    have "db_events d' = db_events d" unfolding sound(3) by simp
    from inv_events_cong [OF this] sound(1,2) goodD(2) [OF good]
    show "store_inv d' \<and> evolves t d d' \<and> inv_events d'" by blast
  qed
  obtain n where "insert_artifact (output_row t i gen a w m p k tok n clk) d = Ok d'"
    using ok unfolding record_output_def Let_def by (auto simp: rbind_eq_Ok)
  from insert_artifact_Ok(1) [OF this] show "db_attempts d' = db_attempts d" by simp
qed

lemma record_outputs_Cons:
  assumes "record_outputs S w a gen inp k (out # rest) d = Ok (n, d')"
  obtains (skipped) "output_manifest S out = None \<or> domain_placement (ao_placement out) = None"
    "record_outputs S w a gen inp k rest d = Ok (n, d')"
  | (recorded) manifest placement key row d1 n' where "output_manifest S out = Some manifest"
    "domain_placement (ao_placement out) = Some placement"
    "output_object_key S (aw_tenant_id w) gen a placement (ao_object_key out) = Ok key"
    "record_output (aw_tenant_id w) gen a (output_placement_worker placement (aw_worker_id w)) manifest
       placement key (if ao_delivery_token out = [] then None else Some (ao_delivery_token out))
       (ss_artifacts inp k) (ti_clk (ss_tx inp)) d = Ok (row, d1)"
    "record_outputs S w a gen inp (Suc k) rest d1 = Ok (n', d')" "n = Suc n'"
proof (cases "output_manifest S out = None \<or> domain_placement (ao_placement out) = None")
  case True
  then have "record_outputs S w a gen inp k rest d = Ok (n, d')" using assms by (auto split: option.splits)
  with True show ?thesis by (rule skipped)
next
  case False
  then obtain manifest placement where mp: "output_manifest S out = Some manifest"
    "domain_placement (ao_placement out) = Some placement" by auto
  show ?thesis using assms mp recorded [OF mp] by (auto simp: rbind_eq_Ok map_err_eq_Ok)
qed

lemma keeps_record_outputs [keeps_intros]:
  assumes "record_outputs S w a gen inp k outs d = Ok (n, d')" "succeeded_attempt (aw_tenant_id w) a d"
  shows "keeps (aw_tenant_id w) d d'"
  using assms
proof (induction outs arbitrary: k d n)
  case (Cons out rest)
  from Cons.prems(1) show ?case
  proof (cases rule: record_outputs_Cons)
    case skipped
    then show ?thesis using Cons by blast
  next
    case (recorded manifest placement key row d1 n')
    note out = keeps_record_output [OF recorded(4) Cons.prems(2)]
    have "succeeded_attempt (aw_tenant_id w) a d1" using Cons.prems(2) out(2) by (simp add: succeeded_attempt_def)
    then show ?thesis using keeps_trans [OF out(1) Cons.IH [OF recorded(5)]] by blast
  qed
qed simp

lemma accepted_succeeded:
  assumes "accept_result t i worker now clk d = (Accepted gen, d')"
  shows "succeeded_attempt t i d'"
proof (rule accept_result_Accepted [OF assms])
  fix a g
  assume ok: "acceptable t i worker now d a g"
    and d': "d' = d\<lparr>db_attempts := update_where (\<lambda>b. akey b = (t, i) \<and> a_worker b = worker)
             (\<lambda>b. b\<lparr>a_state := AttemptState.Succeeded, a_finished_at := Some now\<rparr>) (db_attempts d),
           db_pools := release_in (apool a) (sql_now clk) (db_pools d),
           db_generations := update_where (\<lambda>x. gkey x = agen a)
             (\<lambda>x. x\<lparr>g_state := GenerationState.Succeeded, g_accepted_attempt := Some i,
                    g_terminated_at := Some now, g_updated_at := now\<rparr>) (db_generations d)\<rparr>"
  let ?b = "a\<lparr>a_state := AttemptState.Succeeded, a_finished_at := Some now\<rparr>"
  have "?b \<in> set (db_attempts d')" "akey ?b = (t, i)"
    using ok by (auto simp: d' acceptable_def set_update_where akey_def)
  then show ?thesis by (auto simp: succeeded_attempt_def intro!: bexI [of _ ?b])
qed

lemma keeps_accepted_result:
  assumes "succeeded_attempt (aw_tenant_id w) a d" "keeps (aw_tenant_id w) (r_db r) d"
  shows "keeps (aw_tenant_id w) (r_db r) (r_db (snd (record_accepted_result S w a gen outs inp d r)))"
proof -
  have "keeps (aw_tenant_id w) (r_db r) d2"
    if "record_outputs S w a gen inp 0 outs d = Ok (n, d1)" "delete_inputs_for_generation (aw_tenant_id w) gen d1 = (rows, d2)"
    for n d1 rows d2
    using keeps_trans [OF assms(2) keeps_record_outputs [OF that(1) assms(1)]]
      keeps_artifacts(1) [of "aw_tenant_id w" d1 gen] keeps_trans that(2) by auto
  then show ?thesis
    by (auto simp: record_accepted_result_def Let_def split: sum.split prod.split intro!: keeps_published)
qed

lemma keeps_attempt_result [keeps_intros]:
  "keeps (aw_tenant_id w) (r_db r) (r_db (snd (try_handle_attempt_result S w c a outs inp r)))"
proof -
  let ?t = "aw_tenant_id w"
  have "keeps ?t (r_db r) (r_db (snd (record_accepted_result S w i gen outs inp d r)))"
    if acc: "accept_result ?t i v now clk (r_db r) = (Accepted gen, d)" for i v now clk gen d
    by (rule keeps_accepted_result [OF accepted_succeeded [OF acc] keeps_accept_result [OF acc]])
  moreover have "outcome = Accepted gen" if "classify_result_outcome outcome = ReplyAccepted gen" for outcome gen
    using that by (cases outcome) auto
  ultimately show ?thesis
    by (auto simp: try_handle_attempt_result_def Let_def reject_oversized_outputs_def keeps_settle_attempt_failure
        split: sum.split option.split prod.split ResultReply.split intro: keeps_accept_result)
qed

lemma keeps_dispatch [keeps_intros]:
  "keeps (aw_tenant_id w) (r_db r) (r_db (snd (dispatch_worker_message S w c message inp r)))"
  by (cases message) (auto intro: keeps_intros)

lemma keeps_pump [keeps_intros]:
  "keeps (aw_tenant_id w) (r_db r) (r_db (run_inbound_pump S w c frames inputs k r))"
proof (induction S w c frames inputs k r rule: run_inbound_pump.induct)
  case (4 S w c message rest inputs k r)
  obtain live r1 where r1: "dispatch_worker_message S w c message (inputs k) r = (live, r1)" by fastforce
  have "keeps (aw_tenant_id w) (r_db r) (r_db r1)" using keeps_dispatch [of w r S c message "inputs k"] r1 by simp
  then show ?case using 4 r1 by (auto intro: keeps_trans)
qed simp_all

lemma keeps_spawn_session_pump [keeps_intros]:
  "keeps (aw_tenant_id w) (r_db r) (r_db (spawn_session_pump S w c guard frames inputs r))"
  using keeps_trans [OF keeps_pump keeps_workers(3)] by (simp add: spawn_session_pump_def Let_def)

lemma keeps_session [keeps_intros]:
  assumes "session S hasher token stream d0 sid c inp r = Ok ((w, guard), r')"
  shows "keeps (aw_tenant_id w) (r_db r) (r_db r')"
  using assms by (auto simp: session_def rbind_eq_Ok Let_def keeps_workers split: if_splits prod.splits)

interpretation session_op: tenant_op
  "\<lambda>t d d'. \<exists>S w c message inp r. aw_tenant_id w = t \<and> r_db r = d \<and>
     d' = r_db (snd (dispatch_worker_message S w c message inp r))"
  by unfold_locales (auto intro: keeps_dispatch)

end
