(* ===== verification/Session_Safety.thy ===== *)
theory Session_Safety
  imports Session
begin

text \<open>
  What a Worker can and cannot do through its session: nothing once its credential is not the
  current one; only its own Attempts; only the output Artifacts the Remote leased to it; only
  Model Versions that hash to the identity they are advertised under.
\<close>

section \<open>Revocation\<close>

lemma revoked_pump:
  assumes "\<And>message inp. snd (dispatch_worker_message S w c message inp r) = r"
  shows "run_inbound_pump S w c frames inputs k r = r"
proof (induction frames arbitrary: k)
  case (Cons f frames)
  show ?case
  proof (cases f)
    case (Frame m)
    show ?thesis
    proof (cases m)
      case (Some message)
      obtain live where "dispatch_worker_message S w c message (inputs k) r = (live, r)"
        using assms [of message "inputs k"] by (metis prod.collapse)
      with Frame Some Cons show ?thesis by simp
    qed (use Frame Cons in simp)
  qed simp
qed simp

lemma revoke_worker_not_current:
  "\<not> credential_current w (revoke_worker (aw_tenant_id w) (aw_worker_id w) clk d)"
proof -
  let ?P = "\<lambda>r. wkey r = (aw_tenant_id w, aw_worker_id w)"
  have "find ?P (update_where (\<lambda>r. ?P r \<and> w_revoked_at r = None) f xs) =
      map_option (\<lambda>r. if w_revoked_at r = None then f r else r) (find ?P xs)"
    if "\<And>r. wkey (f r) = wkey r" for f xs
    using that by (induction xs) (auto simp: update_where_def)
  then show ?thesis
    by (auto simp: credential_current_def lock_current_worker_credential_def revoke_worker_def wkey_def split: option.split)
qed

text \<open>C12: A session whose credential is not the current one has no effect. When the Worker was
  revoked, or enrolled again with another credential, every message of the session leaves the
  whole state of the Remote as it is (store, event hub, channels and pending object deletions),
  the next heartbeat ends the session, and a whole stream of messages changes nothing.\<close>
theorem revoked_credential_inert:
  assumes "\<not> credential_current w (r_db r)"
  shows "dispatch_worker_message S w c message inp r = ((case message of Heartbeat _ \<Rightarrow> False | _ \<Rightarrow> True), r) \<and>
    run_inbound_pump S w c frames inputs k r = r"
proof -
  have settle: "snd (settle_attempt_failure S w a failure inp r) = r" for a failure inp
    using assms by (simp add: settle_attempt_failure_def Let_def)
  have one: "dispatch_worker_message S w c message inp r = ((case message of Heartbeat _ \<Rightarrow> False | _ \<Rightarrow> True), r)"
    for message inp
    using assms settle
    by (cases message)
      (auto simp: try_handle_capability_report_def try_handle_heartbeat_def try_handle_attempt_running_def
        try_handle_attempt_progress_def try_handle_attempt_result_def reject_oversized_outputs_def
        try_handle_attempt_failure_def try_handle_cancel_acknowledged_def try_handle_lease_rejected_def Let_def
        split: sum.split option.split)
  have "snd (dispatch_worker_message S w c message inp r) = r" for message inp by (simp add: one)
  then show ?thesis using one revoked_pump by blast
qed

definition example_session_worker :: AuthenticatedWorker where
  "example_session_worker = \<lparr>aw_tenant_id = 7, aw_worker_id = 1, aw_credential_hash = w_credential_hash example_worker\<rparr>"

definition example_session_input :: session_input where
  "example_session_input = \<lparr>ss_tx = example_input, ss_pools = (\<lambda>k. of_nat (100 + k)),
     ss_versions = (\<lambda>k. of_nat (200 + k)), ss_artifacts = (\<lambda>k. of_nat (300 + k))\<rparr>"

theorem revoked_credential_inert_witness:
  "credential_current example_session_worker example_db \<and>
   dispatch_worker_message example_services example_session_worker 0 (Heartbeat [''x'']) example_session_input
     (example_remote (revoke_worker 7 1 example_clocks example_db)) =
     (False, example_remote (revoke_worker 7 1 example_clocks example_db))"
proof -
  let ?r = "example_remote (revoke_worker 7 1 example_clocks example_db)"
  have "\<not> credential_current example_session_worker (r_db ?r)"
    using revoke_worker_not_current [of example_session_worker example_clocks example_db]
    by (simp add: example_remote_def example_session_worker_def)
  note inert = revoked_credential_inert [OF this, of example_services 0 "Heartbeat [''x'']" example_session_input]
  have "credential_current example_session_worker example_db"
    by (simp add: credential_current_def lock_current_worker_credential_def example_session_worker_def example_defs key_defs)
  then show ?thesis using inert by simp
qed

section \<open>Outputs\<close>

text \<open>The rows of the artifact table that a statement adds.\<close>

definition adds_outputs :: "(ArtifactRow \<Rightarrow> bool) \<Rightarrow> db \<Rightarrow> db \<Rightarrow> bool" where
  "adds_outputs P d d' \<longleftrightarrow> (\<forall>f \<in> set (db_artifacts d'). f \<in> set (db_artifacts d) \<or> P f)"

lemma adds_refl [simp]: "adds_outputs P d d"
  by (simp add: adds_outputs_def)

lemma adds_trans: "adds_outputs P d d' \<Longrightarrow> adds_outputs P d' d'' \<Longrightarrow> adds_outputs P d d''"
  by (auto simp: adds_outputs_def)

lemma adds_same: "db_artifacts d' = db_artifacts d \<Longrightarrow> adds_outputs P d d'"
  by (simp add: adds_outputs_def)

lemma adds_delete_inputs [simp]:
  "delete_inputs_for_generation t gen d = (rows, d') \<Longrightarrow> adds_outputs P d d'"
  by (auto simp: delete_inputs_for_generation_def adds_outputs_def Let_def set_delete_where)

lemma artifacts_frame [simp]:
  "db_artifacts (r_db (publish_state_event S t gen snap inp r)) = db_artifacts (r_db r)"
  "db_artifacts (touch_last_seen t w clk d) = db_artifacts d"
  "db_artifacts (snd (update_generation P f d)) = db_artifacts d"
  "db_artifacts (release_slot t pool clk d) = db_artifacts d"
  "db_artifacts (snd (finish t i u to failure now clk d)) = db_artifacts d"
  "db_artifacts (snd (heartbeat t v ids now clk d)) = db_artifacts d"
  "db_artifacts (snd (mark_running_attempt t i v now d)) = db_artifacts d"
  "db_artifacts (snd (acknowledge_cancel t i v now clk d)) = db_artifacts d"
  "db_artifacts (snd (accept_result t i v now clk d)) = db_artifacts d"
proof -
  show "db_artifacts (r_db (publish_state_event S t gen snap inp r)) = db_artifacts (r_db r)"
    by (auto simp: publish_state_event_def record_event_def append_event_def Let_def
        split: option.split sum.split prod.split)
qed (simp_all add: touch_last_seen_def update_generation_def release_slot_def finish_def heartbeat_def
      mark_running_attempt_def acknowledge_cancel_def accept_result_def finish_cancelled_def Let_def
      split: option.splits)

lemma settled_artifacts:
  "record_failure_for_worker E t i v failure now clk d = Ok (x, d') \<Longrightarrow> db_artifacts d' = db_artifacts d"
proof -
  assume ok: "record_failure_for_worker E t i v failure now clk d = Ok (x, d')"
  obtain settled d1 where d1: "finish t i (Some v) AttemptState.Failed (Some failure) now clk d = (settled, d1)" by fastforce
  then have "db_artifacts d1 = db_artifacts d"
    using artifacts_frame(5) [of t i "Some v" AttemptState.Failed "Some failure" now clk d] by simp
  with ok show ?thesis
    by (auto simp: record_failure_for_worker_def finish_and_decide_def Let_def rbind_eq_Ok gen_change_defs d1
        split: option.splits if_splits RetryDecision.splits) (metis RetryDecision.exhaust)+
qed

lemma rejected_artifacts:
  "reject_lease t i v now clk d = Ok (x, d') \<Longrightarrow> db_artifacts d' = db_artifacts d"
  by (auto simp: reject_lease_def Let_def rbind_eq_Ok delete_attempt_def record_preexecution_rejection_def
      split: option.splits if_splits)

lemma reported_artifacts:
  assumes "register_model_versions E t vs clk d = Ok (u, d1)" "upsert_pools t v report clk d1 = Ok (u', d2)"
  shows "db_artifacts d2 = db_artifacts d"
proof -
  have each: "upsert_each t v clk rs d1 = Ok d2 \<Longrightarrow> db_artifacts d2 = db_artifacts d1" for rs d1 d2
    by (induction rs arbitrary: d1)
      (auto simp: upsert_pool_def rbind_eq_Ok Let_def split: option.splits if_splits)
  have "db_artifacts d2 = db_artifacts d1"
    using assms(2) by (auto simp: upsert_pools_def delete_pools_def rbind_eq_Ok Let_def split: if_splits dest!: each)
  then show ?thesis using register_model_versions_appends [OF assms(1)] by auto
qed

text \<open>What the Remote accepts as an output row of an Attempt.\<close>

definition leased_output ::
  "services \<Rightarrow> AuthenticatedWorker \<Rightarrow> AttemptId \<Rightarrow> GenerationId \<Rightarrow> ArtifactRow \<Rightarrow> bool" where
  "leased_output S w attempt gen f \<longleftrightarrow>
     f_tenant f = aw_tenant_id w \<and> f_attempt f = Some attempt \<and> f_generation f = Some gen \<and> f_direction f = Output \<and>
     (case f_placement f of
        ArtifactPlacement.ObjectStore \<Rightarrow>
          f_object_key f = Some (leased_output_key (sv_text S) (aw_tenant_id w) gen attempt) \<and> f_worker f = None
      | ArtifactPlacement.WorkerLocal \<Rightarrow> f_object_key f = None \<and> f_worker f = Some (aw_worker_id w)
      | ArtifactPlacement.RemoteLocal \<Rightarrow> False)"

lemma record_output_adds:
  assumes "record_output t gen a v m p key tok i clk d = Ok (row, d')"
  shows "db_artifacts d' = db_artifacts d @ [row]" "row = output_row t i gen a v m p key tok (uint (am_size_bytes m)) clk"
proof -
  obtain n where n: "artifact_size (am_size_bytes m) = Ok n" "row = output_row t i gen a v m p key tok n clk"
    "insert_artifact row d = Ok d'"
    using assms unfolding record_output_def Let_def by (auto simp: rbind_eq_Ok)
  show "db_artifacts d' = db_artifacts d @ [row]" using insert_artifact_Ok(1) [OF n(3)] by simp
  show "row = output_row t i gen a v m p key tok (uint (am_size_bytes m)) clk"
    using n(1,2) by (simp add: artifact_size_def split: if_splits)
qed

lemma record_outputs_adds:
  assumes "record_outputs S w a gen inp k outs d = Ok (n, d')" "\<forall>out \<in> set outs. \<not> oversized_output S setts out"
  shows "adds_outputs (\<lambda>f. leased_output S w a gen f \<and> f_size_bytes f \<le> uint (max_output_artifact_bytes setts)) d d'"
    (is "adds_outputs ?P d d'")
  using assms
proof (induction outs arbitrary: k d n)
  case (Cons out rest)
  from Cons.prems(1) show ?case
  proof (cases rule: record_outputs_Cons)
    case skipped
    then show ?thesis using Cons by simp
  next
    case (recorded m p key row d1 n')
    note row = record_output_adds [OF recorded(4)]
    have "leased_output S w a gen row"
      using recorded(3) unfolding row(2) leased_output_def output_object_key_def output_placement_worker_def
      by (cases p) (auto simp: output_row_def split: if_splits)
    moreover have "f_size_bytes row \<le> uint (max_output_artifact_bytes setts)"
      using Cons.prems(2) recorded(1) by (simp add: row(2) output_row_def oversized_output_def fits_within_def word_le_def)
    ultimately have "adds_outputs ?P d d1" using row(1) by (simp add: adds_outputs_def)
    moreover have "adds_outputs ?P d1 d'" using Cons.IH [OF recorded(5)] Cons.prems(2) by simp
    ultimately show ?thesis by (rule adds_trans)
  qed
qed simp

lemma accepted_result_adds:
  assumes "\<forall>out \<in> set outs. \<not> oversized_output S setts out"
  shows "db_artifacts d = db_artifacts (r_db r) \<Longrightarrow>
    adds_outputs (\<lambda>f. leased_output S w a gen f \<and> f_size_bytes f \<le> uint (max_output_artifact_bytes setts))
      (r_db r) (r_db (snd (record_accepted_result S w a gen outs inp d r)))"
    (is "_ \<Longrightarrow> adds_outputs ?P _ _")
proof -
  assume d: "db_artifacts d = db_artifacts (r_db r)"
  have "adds_outputs ?P (r_db r) d2"
    if "record_outputs S w a gen inp 0 outs d = Ok (n, d1)" "delete_inputs_for_generation (aw_tenant_id w) gen d1 = (rows, d2)"
    for n d1 rows d2
    using adds_trans [OF adds_trans [OF adds_same [OF d] record_outputs_adds [OF that(1) assms]] adds_delete_inputs [OF that(2)]] .
  then show ?thesis
    by (auto simp: record_accepted_result_def Let_def split: sum.split prod.split)
      (auto simp: adds_outputs_def)
qed

lemma adds_published:
  "adds_outputs P d0 d \<Longrightarrow> adds_outputs P d0 (r_db (publish_state_event S t gen snap inp (r\<lparr>r_db := d\<rparr>)))"
  by (simp add: adds_outputs_def)

lemma settle_failure_adds: "adds_outputs P (r_db r) (r_db (snd (settle_attempt_failure S w a failure inp r)))"
proof -
  have "adds_outputs P d d1" "delete_inputs_for_generation t gen d1 = (rows, d2) \<Longrightarrow> adds_outputs P d d2"
    if "record_failure_for_worker E t a v failure now clk d = Ok (x, d1)" for E t v now clk d x d1 gen rows d2
    using adds_same [OF settled_artifacts [OF that]] adds_delete_inputs adds_trans by blast+
  then show ?thesis
    by (auto simp: settle_attempt_failure_def Let_def split: sum.split prod.split option.split intro!: adds_published)
qed

lemma handlers_add_nothing:
  "adds_outputs P (r_db r) (r_db (snd (try_handle_capability_report S w pools inp r)))"
  "adds_outputs P (r_db r) (r_db (snd (try_handle_heartbeat S w c ids inp r)))"
  "adds_outputs P (r_db r) (r_db (snd (try_handle_attempt_running S w a inp r)))"
  "adds_outputs P (r_db r) (r_db (snd (try_handle_attempt_progress S w a progress inp r)))"
  "adds_outputs P (r_db r) (r_db (snd (try_handle_attempt_failure S w a failure inp r)))"
  "adds_outputs P (r_db r) (r_db (snd (try_handle_cancel_acknowledged S w a inp r)))"
  "adds_outputs P (r_db r) (r_db (snd (try_handle_lease_rejected S w a failure inp r)))"
proof -
  have "adds_outputs P d (touch_last_seen t v clk d2)"
    if "register_model_versions E t vs clk d = Ok (u, d1)" "upsert_pools t v report clk d1 = Ok (u', d2)"
    for E t vs clk d u d1 v report u' d2
    using reported_artifacts [OF that] by (intro adds_same) simp
  then show "adds_outputs P (r_db r) (r_db (snd (try_handle_capability_report S w pools inp r)))"
    by (auto simp: try_handle_capability_report_def Let_def rbind_def split: sum.split prod.split)
  have "db_artifacts d1 = db_artifacts d" if "heartbeat t v ids now clk d = (ns, d1)" for t v ids now clk d ns d1
    using artifacts_frame(6) [of t v ids now clk d] that by simp
  then show "adds_outputs P (r_db r) (r_db (snd (try_handle_heartbeat S w c ids inp r)))"
    by (auto simp: try_handle_heartbeat_def Let_def split: prod.split intro: adds_same)
  have "db_artifacts d1 = db_artifacts d" if "mark_running_attempt t i v now d = (b, d1)" for t i v now d b d1
    using artifacts_frame(7) [of t i v now d] that by simp
  then show "adds_outputs P (r_db r) (r_db (snd (try_handle_attempt_running S w a inp r)))"
    by (auto simp: try_handle_attempt_running_def Let_def mark_running_generation_def
        split: sum.split prod.split option.split intro: adds_same)
  show "adds_outputs P (r_db r) (r_db (snd (try_handle_attempt_progress S w a progress inp r)))"
    by (auto simp: try_handle_attempt_progress_def Let_def record_progress_def update_progress_def
        split: sum.split option.split intro: adds_same)
  show "adds_outputs P (r_db r) (r_db (snd (try_handle_attempt_failure S w a failure inp r)))"
    by (auto simp: try_handle_attempt_failure_def settle_failure_adds split: sum.split option.split)
  have "adds_outputs P d d1" "delete_inputs_for_generation t gen d1 = (rows, d2) \<Longrightarrow> adds_outputs P d d2"
    if "acknowledge_cancel t i v now clk d = (x, d1)" for t i v now clk d x d1 gen rows d2
    using adds_same [of d1 d] artifacts_frame(8) [of t i v now clk d] that adds_trans adds_delete_inputs
    by (simp, metis snd_conv)
  then show "adds_outputs P (r_db r) (r_db (snd (try_handle_cancel_acknowledged S w a inp r)))"
    by (auto simp: try_handle_cancel_acknowledged_def Let_def split: sum.split prod.split option.split
        intro!: adds_published)
  show "adds_outputs P (r_db r) (r_db (snd (try_handle_lease_rejected S w a failure inp r)))"
    by (auto simp: try_handle_lease_rejected_def Let_def split: sum.split prod.split option.split
        intro: adds_same dest!: rejected_artifacts)
qed

lemma attempt_result_adds:
  assumes "f \<in> set (db_artifacts (r_db (snd (try_handle_attempt_result S w c raw outs inp r))))"
    "f \<notin> set (db_artifacts (r_db r))"
  obtains attempt a g setts where "uuid_parse (sv_text S) raw = Some attempt" "credential_current w (r_db r)"
    "acceptable (aw_tenant_id w) attempt (aw_worker_id w) (ti_now (ss_tx inp)) (r_db r) a g"
    "leased_output S w attempt (a_generation a) f"
    "load_settings (aw_tenant_id w) (r_db r) = Ok setts" "f_size_bytes f \<le> uint (max_output_artifact_bytes setts)"
proof -
  let ?t = "aw_tenant_id w"
  obtain attempt where attempt: "uuid_parse (sv_text S) raw = Some attempt"
    using assms by (auto simp: try_handle_attempt_result_def Let_def parse_uuid_id_def split: option.splits)
  obtain setts where setts: "load_settings ?t (r_db r) = Ok setts"
    using assms attempt by (auto simp: try_handle_attempt_result_def Let_def parse_uuid_id_def split: sum.splits)
  have fits: "\<forall>out \<in> set outs. \<not> oversized_output S setts out"
  proof (rule ccontr)
    assume big: "\<not> (\<forall>out \<in> set outs. \<not> oversized_output S setts out)"
    then have "try_handle_attempt_result S w c raw outs inp r = settle_attempt_failure S w attempt
         \<lparr>fd_kind = FailureKind.InvalidInput,
          fd_message = ''output artifact exceeds the tenant's configured max_output_artifact_bytes'',
          fd_worker_retry_hint = False\<rparr> inp r"
      by (simp add: try_handle_attempt_result_def Let_def parse_uuid_id_def attempt setts reject_oversized_outputs_def)
    then show False
      using settle_failure_adds [of "\<lambda>_. False" r S w attempt] assms by (auto simp: adds_outputs_def)
  qed
  have cred: "credential_current w (r_db r)"
    using assms fits by (auto simp: try_handle_attempt_result_def Let_def parse_uuid_id_def attempt setts
        reject_oversized_outputs_def split: if_splits)
  obtain outcome d where acc: "accept_result ?t attempt (aw_worker_id w) (ti_now (ss_tx inp)) (ti_clk (ss_tx inp)) (r_db r) =
      (outcome, d)" by fastforce
  have same: "db_artifacts d = db_artifacts (r_db r)"
    using artifacts_frame(9) [of ?t attempt "aw_worker_id w" "ti_now (ss_tx inp)" "ti_clk (ss_tx inp)" "r_db r"] acc by simp
  obtain gen where gen: "outcome = Accepted gen"
    using assms fits cred acc same
    by (cases outcome) (auto simp: try_handle_attempt_result_def Let_def parse_uuid_id_def attempt setts
        reject_oversized_outputs_def)
  have "f \<in> set (db_artifacts (r_db (snd (record_accepted_result S w attempt gen outs inp d r))))"
    using assms(1) fits cred acc gen
    by (simp add: try_handle_attempt_result_def Let_def parse_uuid_id_def attempt setts reject_oversized_outputs_def)
  then have f: "leased_output S w attempt gen f" "f_size_bytes f \<le> uint (max_output_artifact_bytes setts)"
    using accepted_result_adds [OF fits same, of w attempt gen inp] assms(2) by (auto simp: adds_outputs_def)
  obtain a g where "acceptable ?t attempt (aw_worker_id w) (ti_now (ss_tx inp)) (r_db r) a g" "gen = a_generation a"
    using acc gen by (metis accept_result_Accepted)
  with that attempt cred setts f show thesis by blast
qed

text \<open>C5: A Worker can record only the outputs the Remote leased to it. Every Artifact row that
  appears while a message is dispatched belongs to a result message naming an Attempt of this
  very Worker and Tenant, live and under an unexpired lease; it is an output of that Attempt and
  its Generation, no larger than the Tenant allows, and it lies either under the object key the
  Remote presigned for this Attempt or on the reporting Worker itself. No other key, Tenant or
  placement can be smuggled into the store.\<close>
theorem recorded_outputs_confined:
  assumes "f \<in> set (db_artifacts (r_db (snd (dispatch_worker_message S w c message inp r))))"
    and "f \<notin> set (db_artifacts (r_db r))"
  shows "\<exists>raw outs attempt a g setts. message = AttemptResult raw outs \<and>
    uuid_parse (sv_text S) raw = Some attempt \<and> credential_current w (r_db r) \<and>
    acceptable (aw_tenant_id w) attempt (aw_worker_id w) (ti_now (ss_tx inp)) (r_db r) a g \<and>
    leased_output S w attempt (a_generation a) f \<and>
    load_settings (aw_tenant_id w) (r_db r) = Ok setts \<and> f_size_bytes f \<le> uint (max_output_artifact_bytes setts)"
proof (cases "\<exists>raw outs. message = AttemptResult raw outs")
  case False
  then have "adds_outputs (\<lambda>_. False) (r_db r) (r_db (snd (dispatch_worker_message S w c message inp r)))"
    by (cases message) (simp_all add: handlers_add_nothing)
  with assms show ?thesis by (auto simp: adds_outputs_def)
next
  case True
  then obtain raw outs where message: "message = AttemptResult raw outs" by blast
  then have "f \<in> set (db_artifacts (r_db (snd (try_handle_attempt_result S w c raw outs inp r))))" using assms(1) by simp
  from attempt_result_adds [OF this assms(2)] message show ?thesis by metis
qed

definition example_result :: WorkerMessage where
  "example_result = AttemptResult (replicate 20 CHR ''x'')
     [\<lparr>ao_manifest = Some (proto_artifact_manifest example_libs
          \<lparr>am_size_bytes = 5, am_digest = example_version, am_kind = MediaKind.Image, am_mime_type = ''image/png''\<rparr>),
       ao_placement = Known ARTIFACT_PLACEMENT_WORKER_LOCAL, ao_object_key = [], ao_delivery_token = ''tok''\<rparr>]"

lemma example_result_recorded:
  "\<exists>f. f \<in> set (db_artifacts (r_db (snd (dispatch_worker_message example_services example_session_worker 0 example_result
     example_session_input (example_remote example_tenant_db)))))"
proof -
  let ?m = "\<lparr>am_size_bytes = 5, am_digest = example_version, am_kind = MediaKind.Image, am_mime_type = ''image/png''\<rparr>"
  let ?w = example_session_worker
  obtain out where out: "example_result = AttemptResult (replicate 20 CHR ''x'') [out]"
    "ao_manifest out = Some (proto_artifact_manifest example_libs ?m)"
    "ao_placement out = Known ARTIFACT_PLACEMENT_WORKER_LOCAL" "ao_object_key out = []"
    by (simp add: example_result_def)
  have man: "output_manifest example_services out = Some ?m"
    using artifact_manifest_round_trip [OF example_text_laws, of ?m]
    by (simp add: output_manifest_def out example_services_def example_version_def wf_hash_def)
  have db: "db_tenants example_tenant_db = [new_tenant_row 7 ''acme'' example_clocks]"
    "db_workers example_tenant_db = [example_worker]" "db_attempts example_tenant_db = [example_attempt]"
    "db_generations example_tenant_db = [example_generation]" "db_artifacts example_tenant_db = []"
    by (simp_all add: example_tenant_db_def create_tenant_def example_db_def empty_db_def)
  have setts: "load_settings 7 example_tenant_db = Ok TenantSettings_default"
    using new_tenant_row_settings by (simp add: load_settings_def db) (simp add: new_tenant_row_def)
  have fits: "\<not> oversized_output example_services TenantSettings_default out"
    by (simp add: oversized_output_def man fits_within_def TenantSettings_default_def)
  have cred: "credential_current ?w example_tenant_db"
    by (simp add: credential_current_def lock_current_worker_credential_def example_session_worker_def db
        example_worker_def wkey_def)
  have proj: "parse_uuid_id example_services (replicate 20 CHR ''x'') = Ok 20" "aw_tenant_id ?w = 7" "aw_worker_id ?w = 1"
    "r_db (example_remote d) = d" "ti_now (ss_tx example_session_input) = 50"
    "ti_clk (ss_tx example_session_input) = example_clocks" for d
    by (simp_all add: parse_uuid_id_def example_services_def example_libs_def example_session_worker_def
        example_remote_def example_session_input_def example_input_def)
  define d where "d = snd (accept_result 7 20 1 50 example_clocks example_tenant_db)"
  have acc: "accept_result 7 20 1 50 example_clocks example_tenant_db = (Accepted 10, d)"
    unfolding d_def by (simp add: accept_result_def db example_defs key_defs AttemptState_is_live_def Let_def)
  have d: "db_artifacts d = []" "(\<exists>a \<in> set (db_attempts d). akey a = (7, 20))" "(\<exists>g \<in> set (db_generations d). gkey g = (7, 10))"
    "db_workers d = [example_worker]"
    unfolding d_def by (simp_all add: accept_result_def db example_defs key_defs AttemptState_is_live_def Let_def release_slot_def
        update_where_def)
  have "\<exists>row d1. record_output 7 10 20 (Some 1) ?m ArtifactPlacement.WorkerLocal None tok i example_clocks d = Ok (row, d1)" for tok i
    using d by (simp add: record_output_def artifact_size_def insert_artifact_def output_row_def Let_def example_worker_def wkey_def)
  note this [of "(if ao_delivery_token out = [] then None else Some (ao_delivery_token out))" "ss_artifacts example_session_input 0"]
  then obtain row d1 where rec: "record_output 7 10 20 (Some 1) ?m ArtifactPlacement.WorkerLocal None
     (if ao_delivery_token out = [] then None else Some (ao_delivery_token out)) (ss_artifacts example_session_input 0)
     example_clocks d = Ok (row, d1)" by blast
  have "record_outputs example_services ?w 20 10 example_session_input 0 [out] d = Ok (1, d1)"
    using rec by (simp add: man out proj output_object_key_def output_placement_worker_def)
  moreover have "row \<in> set (db_artifacts d1)" "f_direction row = Output"
    using record_output_adds [OF rec] by (simp_all add: output_row_def)
  then have "row \<in> set (db_artifacts (snd (delete_inputs_for_generation 7 10 d1)))"
    by (simp add: delete_inputs_for_generation_def Let_def set_delete_where)
  ultimately have "row \<in> set (db_artifacts (r_db (snd (record_accepted_result example_services ?w 20 10 [out]
      example_session_input d (example_remote example_tenant_db)))))"
    by (auto simp: record_accepted_result_def proj Let_def split: prod.split)
  then show ?thesis
    using setts fits cred acc
    by (auto simp: out(1) try_handle_attempt_result_def proj reject_oversized_outputs_def)
qed

theorem recorded_outputs_confined_witness:
  "\<exists>f. leased_output example_services example_session_worker 20 10 f"
proof -
  obtain f where "f \<in> set (db_artifacts (r_db (snd (dispatch_worker_message example_services example_session_worker 0
      example_result example_session_input (example_remote example_tenant_db)))))"
    using example_result_recorded by blast
  moreover have "f \<notin> set (db_artifacts (r_db (example_remote example_tenant_db)))"
    by (simp add: example_remote_def example_tenant_db_def create_tenant_def example_db_def empty_db_def)
  ultimately obtain attempt a g where "leased_output example_services example_session_worker attempt (a_generation a) f"
    "acceptable 7 attempt 1 50 example_tenant_db a g"
    using recorded_outputs_confined [of f example_services example_session_worker 0 example_result example_session_input
        "example_remote example_tenant_db"]
    by (auto simp: example_session_worker_def example_session_input_def example_input_def example_remote_def)
  moreover have "db_attempts example_tenant_db = [example_attempt]"
    by (simp add: example_tenant_db_def create_tenant_def example_db_def empty_db_def)
  ultimately show ?thesis by (auto simp: acceptable_def example_attempt_def akey_def)
qed

section \<open>Capability reports\<close>

lemma verified_models_sound:
  assumes "(hash, manifest) \<in> set (verified_models S ads)"
  shows "canonical_hash (x_manifest_to_vec (sv_env S)) (x_sha256 (sv_env S)) manifest = Some hash"
    "is_ok (ModelManifest_validate manifest)"
  using assms
  by (auto simp: verified_models_def List.map_filter_def split: option.splits if_splits)

lemma btree_entries_sound: "set (btree_entries kvs) \<subseteq> set kvs"
proof
  fix kv assume "kv \<in> set (btree_entries kvs)"
  then obtain k where k: "kv = (k, the (map_of (rev kvs) k))" "k \<in> fst ` set kvs" by (auto simp: btree_entries_def)
  then have "map_of (rev kvs) k \<noteq> None" by (simp add: map_of_eq_None_iff)
  then have "map_of (rev kvs) k = Some (the (map_of (rev kvs) k))" by simp
  from map_of_SomeD [OF this] k(1) show "kv \<in> set kvs" by simp
qed

lemma btree_entries_keys: "fst ` set (btree_entries kvs) = fst ` set kvs"
  by (force simp: btree_entries_def)

lemma registered_rows:
  "register_model_versions E t vs clk d = Ok (u, d') \<Longrightarrow> v \<in> set (db_model_versions d') \<Longrightarrow>
   v \<in> set (db_model_versions d) \<or> (\<exists>(hash, m, i) \<in> set vs. \<exists>j. x_manifest_to_json E m = Some j \<and> v = version_row t hash m j i clk)"
proof (induction vs arbitrary: d)
  case (Cons x rest)
  obtain hash m i where x: "x = (hash, m, i)" by (cases x)
  from Cons.prems(1) obtain j d1 where j: "x_manifest_to_json E m = Some j"
    and d1: "d1 = d \<or> d1 = d\<lparr>db_model_versions := db_model_versions d @ [version_row t hash m j i clk]\<rparr>"
    and rest: "register_model_versions E t rest clk d1 = Ok (u, d')"
    by (auto simp: x rbind_eq_Ok split: option.splits if_splits)
  from Cons.IH [OF rest Cons.prems(2)] j d1 show ?case by (auto simp: x)
qed simp

lemma synced_rows:
  "m \<in> set (sync_pool_models t pool hashes rows) \<Longrightarrow> m \<in> set rows \<or> (pm_tenant m = t \<and> pm_content m \<in> set hashes)"
proof -
  define step where "step = (\<lambda>rs h. if \<exists>m \<in> set rs. pm_tenant m = t \<and> pm_pool_id m = pool \<and> pm_content m = h then rs
        else rs @ [\<lparr>pm_tenant = t, pm_pool_id = pool, pm_content = h\<rparr>])"
  have "m \<in> set (foldl step rs hs) \<Longrightarrow> m \<in> set rs \<or> (pm_tenant m = t \<and> pm_content m \<in> set hs)" for rs hs
  proof (induction hs arbitrary: rs)
    case (Cons h hs)
    then have "m \<in> set (step rs h) \<or> (pm_tenant m = t \<and> pm_content m \<in> set hs)" by (simp only: foldl_Cons)
    then show ?case by (auto simp: step_def split: if_splits)
  qed simp
  note rows = this [of "delete_where (\<lambda>m. pm_tenant m = t \<and> pm_pool_id m = pool \<and> pm_content m \<notin> set hashes) rows" hashes]
  assume "m \<in> set (sync_pool_models t pool hashes rows)"
  from rows [OF this [unfolded sync_pool_models_def, folded step_def]]
  show "m \<in> set rows \<or> (pm_tenant m = t \<and> pm_content m \<in> set hashes)" by (auto simp: set_delete_where)
qed

lemma upserted_models:
  "upsert_each t w clk report d = Ok d' \<Longrightarrow> m \<in> set (db_pool_models d') \<Longrightarrow>
   m \<in> set (db_pool_models d) \<or> (\<exists>u i. (u, i) \<in> set report \<and> pm_tenant m = t \<and> pm_content m \<in> set (pu_model_hashes u))"
proof (induction report arbitrary: d)
  case (Cons x report)
  obtain u i where x: "x = (u, i)" by (cases x)
  with Cons.prems obtain d1 where d1: "upsert_pool t w clk u i d = Ok d1" "upsert_each t w clk report d1 = Ok d'"
    by (auto simp: rbind_eq_Ok)
  have "m \<in> set (db_pool_models d1) \<Longrightarrow> m \<in> set (db_pool_models d) \<or> (pm_tenant m = t \<and> pm_content m \<in> set (pu_model_hashes u))"
    using d1(1) by (auto simp: upsert_pool_def rbind_eq_Ok dest: synced_rows)
  with Cons.IH [OF d1(2) Cons.prems(2)] show ?case by (auto simp: x)
qed simp

lemma upsert_pools_models:
  assumes "upsert_pools t w report clk d = Ok (u, d')" "m \<in> set (db_pool_models d')"
  shows "m \<in> set (db_pool_models d) \<or> (\<exists>u i. (u, i) \<in> set report \<and> pm_tenant m = t \<and> pm_content m \<in> set (pu_model_hashes u))"
proof -
  obtain P d1 where d1: "delete_pools P d = Ok d1" "upsert_each t w clk report d1 = Ok d'"
    using assms(1) by (auto simp: upsert_pools_def rbind_eq_Ok)
  show "m \<in> set (db_pool_models d) \<or> (\<exists>u i. (u, i) \<in> set report \<and> pm_tenant m = t \<and> pm_content m \<in> set (pu_model_hashes u))"
    using upserted_models [OF d1(2) assms(2)] delete_pools_Ok(1) [OF d1(1)] by (auto simp: set_delete_where)
qed

lemma upsert_pools_versions:
  assumes "upsert_pools t w report clk d = Ok (u, d')"
  shows "db_model_versions d' = db_model_versions d"
proof -
  obtain P d1 where d1: "delete_pools P d = Ok d1" "upsert_each t w clk report d1 = Ok d'"
    using assms by (auto simp: upsert_pools_def rbind_eq_Ok)
  have "upsert_each t w clk rs d1 = Ok d2 \<Longrightarrow> db_model_versions d2 = db_model_versions d1" for rs d1 d2
    by (induction rs arbitrary: d1) (auto simp: upsert_pool_def rbind_eq_Ok)
  then show ?thesis using d1 delete_pools_Ok(1) [OF d1(1)] by auto
qed

text \<open>C21: Only verified Model Versions enter the catalog. Every Model Version row a capability report
  adds holds the document of a runnable manifest whose canonical hash is the content hash the row
  is stored under, and every model a report newly attributes to a Pool is in the catalog of that
  Tenant afterwards. A report that fails changes nothing.\<close>
theorem reported_models_verified:
  assumes "try_handle_capability_report S w pools inp r = (e, r')"
  shows "(\<forall>v \<in> set (db_model_versions (r_db r')). v \<in> set (db_model_versions (r_db r)) \<or>
      (\<exists>manifest. mv_tenant v = aw_tenant_id w \<and> x_manifest_to_json (sv_env S) manifest = Some (mv_manifest v) \<and>
         mv_family v = mm_family manifest \<and> is_ok (ModelManifest_validate manifest) \<and>
         canonical_hash (x_manifest_to_vec (sv_env S)) (x_sha256 (sv_env S)) manifest = Some (mv_content v))) \<and>
    (\<forall>m \<in> set (db_pool_models (r_db r')). m \<in> set (db_pool_models (r_db r)) \<or>
      (\<exists>v \<in> set (db_model_versions (r_db r')). mv_tenant v = pm_tenant m \<and> mv_content v = pm_content m)) \<and>
    (e \<noteq> None \<longrightarrow> r' = r)"
proof (cases "r' = r")
  case False
  define parsed where "parsed = List.map_filter (pool_upsert_from_proto S) pools"
  define versions where "versions = btree_entries (concat (map snd parsed))"
  let ?t = "aw_tenant_id w"
  let ?vs = "map (\<lambda>(k, hash, manifest). (hash, manifest, ss_versions inp k)) (enumerate 0 versions)"
  let ?report = "map (\<lambda>(k, upsert). (upsert, ss_pools inp k)) (enumerate 0 (map fst parsed))"
  obtain d1 d2 where d1: "register_model_versions (sv_env S) ?t ?vs (ti_clk (ss_tx inp)) (r_db r) = Ok ((), d1)"
    and d2: "upsert_pools ?t (aw_worker_id w) ?report (ti_clk (ss_tx inp)) d1 = Ok ((), d2)"
    and r': "r_db r' = touch_last_seen ?t (aw_worker_id w) (ti_clk (ss_tx inp)) d2" "e = None"
    using assms False unfolding try_handle_capability_report_def parsed_def versions_def
    by (auto simp: Let_def rbind_def split: if_splits sum.splits)
  have in_vs: "(hash, m) \<in> set versions" if "(hash, m, i) \<in> set ?vs" for hash m i
    using that by (auto simp: in_set_enumerate_eq) (metis nth_mem)
  have "(hash, m) \<in> set versions \<Longrightarrow> \<exists>ads. (hash, m) \<in> set (verified_models S ads)" for hash m
    using btree_entries_sound [of "concat (map snd parsed)"]
    by (auto simp: versions_def parsed_def List.map_filter_def pool_upsert_from_proto_def Let_def split: if_splits)
  with in_vs have ver: "canonical_hash (x_manifest_to_vec (sv_env S)) (x_sha256 (sv_env S)) m = Some hash \<and>
      is_ok (ModelManifest_validate m)" if "(hash, m, i) \<in> set ?vs" for hash m i
    using that verified_models_sound by blast
  have hashes: "h \<in> fst ` set versions" if "(u, i) \<in> set ?report" "h \<in> set (pu_model_hashes u)" for u i h
  proof -
    have "map fst ?report = map fst parsed"
      using map_snd_enumerate [of 0 "map fst parsed"] by (simp add: comp_def case_prod_unfold)
    moreover have "u \<in> set (map fst ?report)" using imageI [OF that(1), of fst] by (simp only: set_map [of fst] fst_conv)
    ultimately have "u \<in> set (map fst parsed)" by (simp only:)
    then obtain models where "(u, models) \<in> set parsed" by auto
    moreover have "pu_model_hashes u = map fst models"
      using calculation by (auto simp: parsed_def List.map_filter_def pool_upsert_from_proto_def Let_def split: if_splits)
    ultimately show ?thesis using that(2) unfolding versions_def btree_entries_keys by force
  qed
  obtain new where new: "d1 = (r_db r)\<lparr>db_model_versions := db_model_versions (r_db r) @ new\<rparr>"
    and reg: "\<forall>(hash, m, i) \<in> set ?vs. \<exists>v \<in> set (db_model_versions d1). mv_tenant v = ?t \<and> mv_content v = hash"
    using register_model_versions_appends [OF d1] by auto
  have vers: "db_model_versions (r_db r') = db_model_versions d1"
    using upsert_pools_versions [OF d2] r'(1) by (auto simp: touch_last_seen_def)
  show ?thesis
  proof (intro conjI ballI)
    fix v assume "v \<in> set (db_model_versions (r_db r'))"
    then consider "v \<in> set (db_model_versions (r_db r))"
      | hash m i j where "(hash, m, i) \<in> set ?vs" "x_manifest_to_json (sv_env S) m = Some j"
        "v = version_row ?t hash m j i (ti_clk (ss_tx inp))"
      using registered_rows [OF d1] unfolding vers by blast
    then show "v \<in> set (db_model_versions (r_db r)) \<or>
      (\<exists>manifest. mv_tenant v = ?t \<and> x_manifest_to_json (sv_env S) manifest = Some (mv_manifest v) \<and>
         mv_family v = mm_family manifest \<and> is_ok (ModelManifest_validate manifest) \<and>
         canonical_hash (x_manifest_to_vec (sv_env S)) (x_sha256 (sv_env S)) manifest = Some (mv_content v))"
    proof cases
      case 2
      then show ?thesis using ver [OF 2(1)] by (auto simp: version_row_def)
    qed simp
  next
    fix m assume "m \<in> set (db_pool_models (r_db r'))"
    then have "m \<in> set (db_pool_models d2)" using r'(1) by (simp add: touch_last_seen_def)
    note upserted = upsert_pools_models [OF d2 this]
    have "db_pool_models d1 = db_pool_models (r_db r)" by (simp add: new)
    from upserted [unfolded this] consider "m \<in> set (db_pool_models (r_db r))"
      | u i where "(u, i) \<in> set ?report" "pm_tenant m = ?t" "pm_content m \<in> set (pu_model_hashes u)" by blast
    then show "m \<in> set (db_pool_models (r_db r)) \<or>
      (\<exists>v \<in> set (db_model_versions (r_db r')). mv_tenant v = pm_tenant m \<and> mv_content v = pm_content m)"
    proof cases
      case 2
      then obtain man k where "versions ! k = (pm_content m, man)" "k < length versions"
        using hashes by (force simp: in_set_conv_nth)
      then have "(k, pm_content m, man) \<in> set (enumerate 0 versions)" by (simp add: in_set_enumerate_eq)
      from imageI [OF this, of "\<lambda>(k, hash, manifest). (hash, manifest, ss_versions inp k)"]
      have "(pm_content m, man, ss_versions inp k) \<in> set ?vs" unfolding set_map by simp
      with reg 2(2) show ?thesis unfolding vers by fastforce
    qed simp
  qed (simp add: r'(2))
qed simp

text \<open>The example report: one Pool of the Worker advertising the example model.\<close>

definition example_report :: "PoolAdvertisement list" where
  "example_report = [\<lparr>pa_pool_id = ''pool-0'', pa_backend_version = [], pa_ready = True, pa_unready_reason = [],
     pa_slots = [\<lparr>sa_slot_id = [], sa_busy = False, sa_attempt_id = []\<rparr>], pa_resident_model_sha256 = [],
     pa_accelerator_memory_bytes = None, pa_image_lora_sha256 = [], pa_shape_limits = None,
     pa_models = [\<lparr>ma_version_sha256 = print_hash example_libs example_version,
                   ma_manifest = Some (proto_model_manifest example_libs example_manifest)\<rparr>],
     pa_accelerator = ''gpu''\<rparr>]"

lemma example_verified:
  "verified_models example_services
     [\<lparr>ma_version_sha256 = print_hash example_libs example_version,
       ma_manifest = Some (proto_model_manifest example_libs example_manifest)\<rparr>] = [(example_version, example_manifest)]"
proof -
  have "wf_hash example_version" "wf_manifest example_manifest"
    by (auto simp: wf_hash_def example_version_def wf_manifest_def example_manifest_def split: if_splits)
  then have "parse_hash example_libs (print_hash example_libs example_version) = Some example_version"
    "model_manifest_from_proto example_libs (proto_model_manifest example_libs example_manifest) = Some example_manifest"
    using parse_print_hash [OF example_text_laws] manifest_round_trip [OF example_text_laws] by simp_all
  moreover have "is_ok (ModelManifest_validate example_manifest)"
    by (simp add: ModelManifest_validate_def example_manifest_def required_assets_def SamplingPreset_validate_def
        default_sampling_preset_def sigma_step_count_def is_finite_def)
  ultimately show ?thesis
    by (simp add: verified_models_def map_filter_simps example_services_def canonical_hash_def example_env_def example_version_def digest_def)
qed

theorem reported_models_verified_witness:
  "\<exists>v \<in> set (db_model_versions (r_db (snd (try_handle_capability_report example_services example_session_worker example_report
      example_session_input (example_remote example_db))))). mv_content (v :: model_version_row) = example_version \<and>
     (\<exists>manifest. canonical_hash (x_manifest_to_vec example_env) (x_sha256 example_env) manifest = Some (mv_content v))"
proof -
  define r' where "r' = snd (try_handle_capability_report example_services example_session_worker example_report
      example_session_input (example_remote example_db))"
  define e where "e = fst (try_handle_capability_report example_services example_session_worker example_report
      example_session_input (example_remote example_db))"
  have cred: "credential_current example_session_worker (r_db (example_remote example_db))"
    by (simp add: credential_current_def lock_current_worker_credential_def example_session_worker_def example_remote_def
        example_defs key_defs)
  let ?row = "version_row 7 example_version example_manifest (JObject []) (ss_versions example_session_input 0) example_clocks"
  have proj: "aw_tenant_id example_session_worker = 7" "aw_worker_id example_session_worker = 1"
    "r_db (example_remote d) = d" "ti_clk (ss_tx example_session_input) = example_clocks"
    "sv_env example_services = example_env" "sv_text example_services = example_libs" for d
    by (simp_all add: example_session_worker_def example_remote_def example_session_input_def example_input_def
        example_services_def)
  have reg: "register_model_versions example_env 7 [(example_version, example_manifest, ss_versions example_session_input 0)]
      example_clocks example_db = Ok ((), example_db\<lparr>db_model_versions := [?row]\<rparr>)"
    by (simp add: example_env_def example_db_def empty_db_def)
  have "\<exists>d. upsert_pools 7 1 [(u, i)] example_clocks (example_db\<lparr>db_model_versions := [?row]\<rparr>) = Ok ((), d)"
    if "pu_pool_key u = ''pool-0''" "pu_accelerator u = ''gpu''" "pu_total_slots u = 1" for u i
    using that by (simp add: upsert_pools_def delete_pools_def Let_def upsert_pool_def example_defs clamp_i32_def key_defs
        delete_where_def)
  note upserts = this
  obtain u where u: "map (\<lambda>(k, upsert). (upsert, ss_pools example_session_input k))
        (enumerate 0 (map fst (List.map_filter (pool_upsert_from_proto example_services) example_report))) =
        [(u, ss_pools example_session_input 0)]" "pu_pool_key u = ''pool-0''" "pu_accelerator u = ''gpu''" "pu_total_slots u = 1"
    by (simp add: example_report_def map_filter_simps pool_upsert_from_proto_def Let_def)
  obtain d2 where d2: "upsert_pools 7 1 [(u, ss_pools example_session_input 0)] example_clocks
        (example_db\<lparr>db_model_versions := [?row]\<rparr>) = Ok ((), d2)"
    using upserts [OF u(2-4)] by blast
  have vers: "map (\<lambda>(k, hash, manifest). (hash, manifest, ss_versions example_session_input k)) (enumerate 0
      (btree_entries (concat (map snd (List.map_filter (pool_upsert_from_proto example_services) example_report))))) =
      [(example_version, example_manifest, ss_versions example_session_input 0)]"
    by (simp add: example_report_def map_filter_simps pool_upsert_from_proto_def Let_def example_verified btree_entries_def
        btree_set_def)
  have "r' = (example_remote example_db)\<lparr>r_db := touch_last_seen 7 1 example_clocks d2\<rparr>"
    unfolding r'_def try_handle_capability_report_def Let_def proj vers u(1) reg using cred by (simp add: proj d2)
  then have "db_model_versions (r_db r') = [?row]" using upsert_pools_versions [OF d2] by (simp add: touch_last_seen_def)
  then have v: "?row \<in> set (db_model_versions (r_db r'))" by simp
  moreover have "?row \<notin> set (db_model_versions (r_db (example_remote example_db)))"
    by (simp add: proj example_db_def empty_db_def)
  moreover have "try_handle_capability_report example_services example_session_worker example_report example_session_input
      (example_remote example_db) = (e, r')" by (simp add: e_def r'_def)
  note reported_models_verified [OF this]
  ultimately obtain manifest where "canonical_hash (x_manifest_to_vec example_env) (x_sha256 example_env) manifest =
      Some (mv_content ?row)" unfolding proj by blast
  with v show ?thesis unfolding r'_def [symmetric] by (intro bexI [of _ ?row]) (auto simp: version_row_def)
qed

section \<open>Dropped Pools\<close>

definition reported_keys :: "services \<Rightarrow> PoolAdvertisement list \<Rightarrow> string set" where
  "reported_keys S pools = (\<lambda>x. pu_pool_key (fst x)) ` set (List.map_filter (pool_upsert_from_proto S) pools)"

lemma report_attempts:
  assumes "credential_current w (r_db r)" "try_handle_capability_report S w pools inp r = (None, r')"
  shows "db_attempts (r_db r') = delete_where (\<lambda>a. apool a \<in> pkey ` {p \<in> set (db_pools (r_db r)). p_tenant p = aw_tenant_id w \<and>
      p_worker_id p = aw_worker_id w \<and> p_pool_key p \<notin> reported_keys S pools}) (db_attempts (r_db r))"
    "db_generations (r_db r') = db_generations (r_db r)"
proof -
  define parsed where "parsed = List.map_filter (pool_upsert_from_proto S) pools"
  let ?report = "map (\<lambda>(k, upsert). (upsert, ss_pools inp k)) (enumerate 0 (map fst parsed))"
  let ?P = "\<lambda>p. p_tenant p = aw_tenant_id w \<and> p_worker_id p = aw_worker_id w \<and>
      p_pool_key p \<notin> (\<lambda>(u, _). pu_pool_key u) ` set ?report"
  have "map (\<lambda>(u, _). pu_pool_key u) ?report = map (\<lambda>x. pu_pool_key (fst x)) parsed"
    using map_snd_enumerate [of 0 "map fst parsed"] by (simp add: comp_def case_prod_unfold flip: map_map [of pu_pool_key snd, unfolded comp_def])
  then have keys: "(\<lambda>(u, _). pu_pool_key u) ` set ?report = reported_keys S pools"
    unfolding reported_keys_def parsed_def [symmetric] set_map [symmetric] by (simp only:)
  obtain vs d1 d2 where d1: "register_model_versions (sv_env S) (aw_tenant_id w) vs (ti_clk (ss_tx inp)) (r_db r) = Ok ((), d1)"
    and d2: "upsert_pools (aw_tenant_id w) (aw_worker_id w) ?report (ti_clk (ss_tx inp)) d1 = Ok ((), d2)"
    and r': "r_db r' = touch_last_seen (aw_tenant_id w) (aw_worker_id w) (ti_clk (ss_tx inp)) d2"
    using assms unfolding try_handle_capability_report_def parsed_def
    by (auto simp: Let_def rbind_def split: if_splits sum.splits)
  obtain d3 where d3: "delete_pools ?P d1 = Ok d3"
    "upsert_each (aw_tenant_id w) (aw_worker_id w) (ti_clk (ss_tx inp)) ?report d3 = Ok d2"
    using d2 unfolding upsert_pools_def by (auto simp: rbind_eq_Ok)
  have same: "db_attempts d1 = db_attempts (r_db r)" "db_pools d1 = db_pools (r_db r)" "db_generations d1 = db_generations (r_db r)"
    using register_model_versions_appends [OF d1] by auto
  note fr = upsert_each_frame [OF d3(2)] delete_pools_Ok(1) [OF d3(1)]
  show "db_generations (r_db r') = db_generations (r_db r)"
    using fr same by (simp add: r' touch_last_seen_def)
  have "db_attempts (r_db r') = delete_where (\<lambda>a. apool a \<in> pkey ` set (filter ?P (db_pools (r_db r)))) (db_attempts (r_db r))"
    using fr same by (simp add: r' touch_last_seen_def)
  then show "db_attempts (r_db r') = delete_where (\<lambda>a. apool a \<in> pkey ` {p \<in> set (db_pools (r_db r)). p_tenant p = aw_tenant_id w \<and>
      p_worker_id p = aw_worker_id w \<and> p_pool_key p \<notin> reported_keys S pools}) (db_attempts (r_db r))"
    unfolding keys set_filter .
qed

text \<open>C23: A report that omits a Pool loses the Attempts running there. When a Worker's capability report
  is applied and does not advertise (with an accelerator) one of its Pools, the Attempts of that
  Pool are deleted with it; a Generation whose live Attempt ran there stays as it was (Running, say)
  and is left without any live Attempt, so no lease of it can lapse and no sweep over Attempts
  will ever settle it.\<close>
theorem dropped_pool_orphans:
  assumes "good (r_db r)" "credential_current w (r_db r)" "try_handle_capability_report S w pools inp r = (None, r')"
    and "p \<in> set (db_pools (r_db r))" "p_tenant p = aw_tenant_id w" "p_worker_id p = aw_worker_id w"
    and "p_pool_key p \<notin> reported_keys S pools"
    and "a \<in> set (db_attempts (r_db r))" "apool a = pkey p" "is_live a"
    and g: "g \<in> set (db_generations (r_db r))" "gkey g = agen a" "g_state g = GenerationState.Running"
  shows "g \<in> set (db_generations (r_db r')) \<and> g_state g = GenerationState.Running \<and> no_live (gkey g) (r_db r')"
proof -
  note after = report_attempts [OF assms(2,3)]
  note inv = goodD(1) [OF assms(1)]
  have "no_live (gkey g) (r_db r')"
    unfolding no_live_def
  proof (intro ballI impI notI)
    fix b assume b: "b \<in> set (db_attempts (r_db r'))" "agen b = gkey g" "is_live b"
    then have "b \<in> set (db_attempts (r_db r))" "apool b \<notin> pkey ` {p \<in> set (db_pools (r_db r)). p_tenant p = aw_tenant_id w \<and>
      p_worker_id p = aw_worker_id w \<and> p_pool_key p \<notin> reported_keys S pools}"
      unfolding after(1) by (auto simp: set_delete_where)
    moreover have "b = a" using inv_live_unique [OF inv calculation(1) assms(8) b(3) assms(10)] b(2) g(2) by simp
    ultimately show False using assms(4-7,9) by blast
  qed
  then show ?thesis using g after(2) by simp
qed

theorem dropped_pool_orphans_witness:
  "\<exists>g \<in> set (db_generations (r_db (snd (try_handle_capability_report example_services example_session_worker []
      example_session_input (example_remote example_db))))).
     g_state (g :: GenerationRow) = GenerationState.Running \<and>
     db_attempts (r_db (snd (try_handle_capability_report example_services example_session_worker []
      example_session_input (example_remote example_db)))) = []"
proof -
  define r' where "r' = snd (try_handle_capability_report example_services example_session_worker [] example_session_input
      (example_remote example_db))"
  have cred: "credential_current example_session_worker (r_db (example_remote example_db))"
    by (simp add: credential_current_def lock_current_worker_credential_def example_session_worker_def example_remote_def
        example_defs key_defs)
  have run: "try_handle_capability_report example_services example_session_worker [] example_session_input
      (example_remote example_db) = (None, r')"
    using cred unfolding r'_def
    by (simp add: try_handle_capability_report_def Let_def map_filter_simps btree_entries_def btree_set_def upsert_pools_def
        delete_pools_def example_remote_def example_session_worker_def example_defs)
  have "good (r_db (example_remote example_db))" using example_ready_good(2) by (simp add: example_remote_def)
  from dropped_pool_orphans [OF this cred run, of example_pool example_attempt example_generation]
  have g: "example_generation \<in> set (db_generations (r_db r'))" "g_state example_generation = GenerationState.Running"
    by (simp_all add: example_remote_def example_db_def example_session_worker_def example_pool_def example_attempt_def
        example_generation_def reported_keys_def map_filter_simps key_defs)
  have "apool example_attempt = pkey example_pool" "p_tenant example_pool = 7" "p_worker_id example_pool = 1"
    by (simp_all add: example_pool_def example_attempt_def key_defs)
  then have "db_attempts (r_db r') = []"
    using report_attempts(1) [OF cred run]
    by (auto simp: example_remote_def example_db_def empty_db_def reported_keys_def map_filter_simps delete_where_def
        example_session_worker_def)
  with g show ?thesis unfolding r'_def [symmetric] by blast
qed

end
