(* ===== verification/Worker_Lease.thy ===== *)
theory Worker_Lease
  imports Scheduler
begin

text \<open>
  The Worker's reading of a lease, \<^verbatim>\<open>gpq-worker/src/executor.rs\<close>: the decoders of manifests and
  parameters and \<^verbatim>\<open>decode_lease\<close>, which checks the seed, the pinned manifest against the hash it
  was leased under, and the parameters against the model family. The text of an error message
  is represented by a constructor per cause.
\<close>

section \<open>Decoders\<close>

datatype LeaseDecodeError =
    DecodeSeed SeedOutOfRange
  | DecodeHash string
  | ManifestOmitted
  | UnknownFamily
  | UnknownRole
  | RepeatedRole ModelAssetRole
  | SamplingOmitted
  | ManifestInvalid ModelManifestError
  | ManifestUnserializable
  | ManifestHashMismatch
  | ParametersOmitted
  | InvalidArtifactId string
  | ParametersInvalid ParameterValidationError
  | UnknownMediaKind

record DecodedLease =
  dl_model_version :: ContentHash
  dl_manifest :: ModelManifest
  dl_parameters :: GenerationParameters

definition hash_from_str :: "text_libs \<Rightarrow> string \<Rightarrow> LeaseDecodeError + ContentHash" where
  "hash_from_str L s = (case parse_hash L s of Some h \<Rightarrow> Ok h | None \<Rightarrow> Err (DecodeHash s))"

definition artifact_id_from_str :: "text_libs \<Rightarrow> string \<Rightarrow> LeaseDecodeError + ArtifactId" where
  "artifact_id_from_str L s = (case uuid_parse L s of Some u \<Rightarrow> Ok u | None \<Rightarrow> Err (InvalidArtifactId s))"

fun media_kind_from_proto :: "ProtoMediaKind EnumValue \<Rightarrow> LeaseDecodeError + MediaKind" where
  "media_kind_from_proto (Known MEDIA_KIND_IMAGE) = Ok MediaKind.Image"
| "media_kind_from_proto (Known MEDIA_KIND_VIDEO) = Ok MediaKind.Video"
| "media_kind_from_proto (Known MEDIA_KIND_AUDIO) = Ok MediaKind.Audio"
| "media_kind_from_proto (Known MEDIA_KIND_TEXT) = Ok MediaKind.Text"
| "media_kind_from_proto (Known MEDIA_KIND_BINARY) = Ok MediaKind.Binary"
| "media_kind_from_proto _ = Err UnknownMediaKind"

fun media_kind_to_proto :: "MediaKind \<Rightarrow> ProtoMediaKind" where
  "media_kind_to_proto MediaKind.Image = MEDIA_KIND_IMAGE"
| "media_kind_to_proto MediaKind.Video = MEDIA_KIND_VIDEO"
| "media_kind_to_proto MediaKind.Audio = MEDIA_KIND_AUDIO"
| "media_kind_to_proto MediaKind.Text = MEDIA_KIND_TEXT"
| "media_kind_to_proto MediaKind.Binary = MEDIA_KIND_BINARY"

definition manifest_from_proto :: "text_libs \<Rightarrow> ProtoArtifactManifest \<Rightarrow> LeaseDecodeError + ArtifactManifest" where
  "manifest_from_proto L manifest =
     rbind (hash_from_str L (pam_digest_sha256 manifest)) (\<lambda>dig.
     rbind (media_kind_from_proto (pam_kind manifest)) (\<lambda>kind.
       Ok \<lparr>am_size_bytes = pam_size_bytes manifest, am_digest = dig, am_kind = kind,
           am_mime_type = pam_mime_type manifest\<rparr>))"

definition manifest_to_proto :: "text_libs \<Rightarrow> ArtifactManifest \<Rightarrow> ProtoArtifactManifest" where
  "manifest_to_proto L manifest =
     \<lparr>pam_size_bytes = am_size_bytes manifest, pam_digest_sha256 = print_hash L (am_digest manifest),
      pam_kind = Known (media_kind_to_proto (am_kind manifest)), pam_mime_type = am_mime_type manifest\<rparr>"

definition lora_from_proto :: "text_libs \<Rightarrow> ProtoLoraSelection \<Rightarrow> LeaseDecodeError + LoraSelection" where
  "lora_from_proto L wire =
     rbind (hash_from_str L (pls_sha256 wire)) (\<lambda>h. Ok \<lparr>lora_sha256 = h, lora_scale = pls_scale wire\<rparr>)"

fun asset_role_from_proto :: "ProtoModelAssetRole EnumValue \<Rightarrow> LeaseDecodeError + ModelAssetRole" where
  "asset_role_from_proto (Known MODEL_ASSET_ROLE_DIFFUSION) = Ok Diffusion"
| "asset_role_from_proto (Known MODEL_ASSET_ROLE_TEXT_ENCODER) = Ok TextEncoder"
| "asset_role_from_proto (Known MODEL_ASSET_ROLE_VISION_ENCODER) = Ok VisionEncoder"
| "asset_role_from_proto (Known MODEL_ASSET_ROLE_VAE) = Ok Vae"
| "asset_role_from_proto (Known MODEL_ASSET_ROLE_AUDIO_VAE) = Ok AudioVae"
| "asset_role_from_proto _ = Err UnknownRole"

fun family_from_proto :: "ProtoModelFamily EnumValue \<Rightarrow> LeaseDecodeError + ModelFamily" where
  "family_from_proto (Known MODEL_FAMILY_QWEN_IMAGE21) = Ok QwenImage21"
| "family_from_proto (Known MODEL_FAMILY_MINIMAX_H3) = Ok MinimaxH3"
| "family_from_proto _ = Err UnknownFamily"

fun assets_from_proto ::
  "text_libs \<Rightarrow> ProtoModelAsset list \<Rightarrow> (ModelAssetRole \<rightharpoonup> ContentHash) \<Rightarrow>
   LeaseDecodeError + (ModelAssetRole \<rightharpoonup> ContentHash)" where
  "assets_from_proto L [] assets = Ok assets"
| "assets_from_proto L (asset # rest) assets =
     rbind (asset_role_from_proto (pma_role asset)) (\<lambda>role.
     rbind (hash_from_str L (pma_sha256 asset)) (\<lambda>h.
       if assets role \<noteq> None then Err (RepeatedRole role)
       else assets_from_proto L rest (assets(role \<mapsto> h))))"

definition worker_manifest_from_proto :: "text_libs \<Rightarrow> ProtoModelManifest \<Rightarrow> LeaseDecodeError + ModelManifest" where
  "worker_manifest_from_proto L wire =
     rbind (family_from_proto (pmm_family wire)) (\<lambda>family.
     rbind (assets_from_proto L (pmm_assets wire) Map.empty) (\<lambda>assets.
     rbind (rmap (lora_from_proto L) (pmm_default_loras wire)) (\<lambda>default_loras.
     rbind (case pmm_sampling wire of None \<Rightarrow> Err SamplingOmitted | Some s \<Rightarrow> Ok s) (\<lambda>sampling.
       Ok \<lparr>mm_family = family, mm_assets = assets, mm_default_loras = default_loras,
           mm_sampling = \<lparr>sp_steps = psp_steps sampling, sp_cfg_scale = psp_cfg_scale sampling,
                          sp_sigmas = psp_sigmas sampling\<rparr>\<rparr>))))"

definition optional_artifact_id :: "text_libs \<Rightarrow> string option \<Rightarrow> LeaseDecodeError + ArtifactId option" where
  "optional_artifact_id L v =
     (case v of None \<Rightarrow> Ok None | Some s \<Rightarrow> rbind (artifact_id_from_str L s) (\<lambda>i. Ok (Some i)))"

definition generation_parameters_from_proto ::
  "text_libs \<Rightarrow> LeaseAssignment \<Rightarrow> LeaseDecodeError + GenerationParameters" where
  "generation_parameters_from_proto L lease =
     (case la_generation_parameters lease of
        Some (ImageParameters img) \<Rightarrow>
          rbind (rmap (artifact_id_from_str L) (pip_reference_artifact_ids img)) (\<lambda>references.
          rbind (rmap (lora_from_proto L) (pip_loras img)) (\<lambda>loras.
            Ok (GenerationParameters.Image
              \<lparr>img_prompt = pip_prompt img, img_negative_prompt = pip_negative_prompt img,
               img_width = pip_width img, img_height = pip_height img, img_steps = pip_steps img,
               img_cfg_scale = pip_cfg_scale img, img_references = references, img_loras = loras,
               img_sigmas = (if pip_sigmas img \<noteq> [] then Some (pip_sigmas img) else None)\<rparr>)))
      | Some (VideoParameters video) \<Rightarrow>
          rbind (optional_artifact_id L (pvp_first_frame_artifact_id video)) (\<lambda>first_frame.
          rbind (optional_artifact_id L (pvp_last_frame_artifact_id video)) (\<lambda>last_frame.
            Ok (GenerationParameters.Video
              \<lparr>vid_prompt = pvp_prompt video, vid_negative_prompt = pvp_negative_prompt video,
               vid_width = pvp_width video, vid_height = pvp_height video, vid_frames = pvp_frames video,
               vid_first_frame = first_frame, vid_last_frame = last_frame\<rparr>)))
      | None \<Rightarrow> Err ParametersOmitted)"

definition decode_lease :: "env \<Rightarrow> text_libs \<Rightarrow> LeaseAssignment \<Rightarrow> LeaseDecodeError + DecodedLease" where
  "decode_lease E L lease =
     rbind (map_err DecodeSeed (validate_seed (la_seed lease))) (\<lambda>_.
     rbind (hash_from_str L (la_model_sha256 lease)) (\<lambda>model_version.
     rbind (case la_model_manifest lease of None \<Rightarrow> Err ManifestOmitted | Some m \<Rightarrow> Ok m) (\<lambda>wire_manifest.
     rbind (worker_manifest_from_proto L wire_manifest) (\<lambda>manifest.
     rbind (map_err ManifestInvalid (ModelManifest_validate manifest)) (\<lambda>_.
     rbind (case canonical_hash (x_manifest_to_vec E) (x_sha256 E) manifest of
              None \<Rightarrow> Err ManifestUnserializable | Some h \<Rightarrow> Ok h) (\<lambda>hash.
       if hash \<noteq> model_version then Err ManifestHashMismatch
       else
         rbind (generation_parameters_from_proto L lease) (\<lambda>parameters.
         rbind (map_err ParametersInvalid (validate_for_family parameters (mm_family manifest))) (\<lambda>_.
           Ok \<lparr>dl_model_version = model_version, dl_manifest = manifest, dl_parameters = parameters\<rparr>))))))))"

section \<open>Lemmas\<close>

text \<open>The Worker and the session of the Remote decode manifests alike.\<close>

lemma enum_decoders:
  "asset_role_from_proto r = (case domain_asset_role r of Some x \<Rightarrow> Ok x | None \<Rightarrow> Err UnknownRole)"
  "family_from_proto f = (case domain_model_family f of Some x \<Rightarrow> Ok x | None \<Rightarrow> Err UnknownFamily)"
  "media_kind_from_proto k = (case domain_media_kind k of Some x \<Rightarrow> Ok x | None \<Rightarrow> Err UnknownMediaKind)"
    apply (cases r rule: asset_role_from_proto.cases; simp)
   apply (cases f rule: family_from_proto.cases; simp)
  apply (cases k rule: media_kind_from_proto.cases; simp)
  done

lemma media_kind_encoders: "media_kind_to_proto k = proto_media_kind k"
  by (cases k) simp_all

lemma hash_from_str_Ok: "hash_from_str L s = Ok h \<longleftrightarrow> parse_hash L s = Some h"
  by (simp add: hash_from_str_def split: option.split)

lemma assets_from_proto_Ok: "insert_assets L as m = Some m' \<Longrightarrow> assets_from_proto L as m = Ok m'"
  by (induction L as m rule: insert_assets.induct)
    (auto simp: enum_decoders hash_from_str_def split: option.splits if_splits)

lemma loras_from_proto_Ok:
  "collect_option (domain_lora L) ws = Some ls \<Longrightarrow> rmap (lora_from_proto L) ws = Ok ls"
  by (induction ws arbitrary: ls)
    (auto simp: domain_lora_def lora_from_proto_def hash_from_str_def split: option.splits)

lemma worker_manifest_agrees:
  assumes "model_manifest_from_proto L wire = Some m"
  shows "worker_manifest_from_proto L wire = Ok m"
  using assms
  by (auto simp: model_manifest_from_proto_def worker_manifest_from_proto_def enum_decoders
      assets_from_proto_Ok loras_from_proto_Ok split: option.splits)

lemma loras_round_trip:
  assumes "text_laws L" "\<forall>lora \<in> set loras. wf_hash (lora_sha256 lora)"
  shows "rmap (lora_from_proto L) (map (proto_lora_selection L) loras) = Ok loras"
  using assms(2) domain_lora_proto [OF assms(1)]
  by (intro loras_from_proto_Ok collect_option_map) blast

lemma ids_round_trip:
  "text_laws L \<Longrightarrow> rmap (artifact_id_from_str L) (map (uuid_print L) ids) = Ok ids"
  by (induction ids) (simp_all add: artifact_id_from_str_def uuid_round_trip)

definition wf_parameters :: "GenerationParameters \<Rightarrow> bool" where
  "wf_parameters p = (case p of
     GenerationParameters.Image img \<Rightarrow> \<forall>lora \<in> set (img_loras img). wf_hash (lora_sha256 lora)
   | GenerationParameters.Video _ \<Rightarrow> True)"

text \<open>An empty sigma schedule is the absent one on the wire.\<close>

definition wire_normal :: "GenerationParameters \<Rightarrow> GenerationParameters" where
  "wire_normal p = (case p of
     GenerationParameters.Image img \<Rightarrow>
       GenerationParameters.Image (img\<lparr>img_sigmas := (if img_sigmas img = Some [] then None else img_sigmas img)\<rparr>)
   | GenerationParameters.Video video \<Rightarrow> GenerationParameters.Video video)"

lemma parameters_round_trip:
  assumes "text_laws L" "wf_parameters p" "la_generation_parameters lease = Some (proto_parameters L p)"
  shows "generation_parameters_from_proto L lease = Ok (wire_normal p)"
proof (cases p)
  case (Image img)
  then show ?thesis
    using assms loras_round_trip [OF assms(1), of "img_loras img"]
    by (simp add: generation_parameters_from_proto_def proto_parameters_def proto_image_parameters_def
        ids_round_trip wf_parameters_def wire_normal_def split: option.split)
next
  case (Video video)
  have "optional_artifact_id L (map_option (uuid_print L) v) = Ok v" for v
    by (cases v) (simp_all add: optional_artifact_id_def artifact_id_from_str_def uuid_round_trip [OF assms(1)])
  then show ?thesis
    using Video assms(3)
    by (simp add: generation_parameters_from_proto_def proto_parameters_def proto_video_parameters_def wire_normal_def)
qed

text \<open>What the typed JSON decoders and the digest promise: hashes have 32 bytes.\<close>

definition decoder_laws :: "env \<Rightarrow> bool" where
  "decoder_laws E \<longleftrightarrow>
     (\<forall>b. length (x_sha256 E b) = 32) \<and>
     (\<forall>j m. x_manifest_from_json E j = Some m \<longrightarrow> wf_manifest m) \<and>
     (\<forall>j p. x_params_from_json E j = Some p \<longrightarrow> wf_parameters p)"

lemma validate_wire_normal:
  assumes "validate_for_family p f = Ok ()"
  shows "validate_for_family (wire_normal p) f = Ok ()"
  using assms
  by (cases p; cases f)
    (auto simp: wire_normal_def ImageParameters_validate_iff valid_image_def)

section \<open>Properties\<close>

text \<open>C20: The Worker accepts every lease that the scheduler can send, and reads back the request
  that was stored. For a Generation whose requirement could be rebuilt, the lease message
  decodes to the pinned version, the registered manifest and the stored parameters (an empty
  sigma schedule reads as an absent one), and the object-store key it carries is the Attempt's
  own.\<close>
theorem lease_round_trip:
  assumes "text_laws (sv_text S)" "decoder_laws (sv_env S)"
    and "get_generation t (g_id g) d = Some g" "requirement_of (sv_env S) t (g_id g) d = Some rq"
    and "\<forall>n. g_seed g = Some n \<longrightarrow> n < 2 ^ 63" "g_tenant g = t"
    and "build_lease_assignment S t pool_key attempt g d = Ok lease"
  shows "\<exists>manifest p. x_params_from_json (sv_env S) (g_parameters g) = Some p \<and>
      decode_lease (sv_env S) (sv_text S) lease =
        Ok \<lparr>dl_model_version = g_version g, dl_manifest = manifest, dl_parameters = wire_normal p\<rparr> \<and>
      canonical_hash (x_manifest_to_vec (sv_env S)) (x_sha256 (sv_env S)) manifest = Some (g_version g) \<and>
      (g_output_placement g = ArtifactPlacement.ObjectStore \<longrightarrow>
        la_output_object_key lease = leased_output_key (sv_text S) t (g_id g) (a_id attempt)) \<and>
      (g_output_placement g \<noteq> ArtifactPlacement.ObjectStore \<longrightarrow> la_output_object_key lease = [])"
proof -
  let ?E = "sv_env S" and ?L = "sv_text S"
  obtain mj m p where mj: "pinned_manifest g d = Some mj" "x_manifest_from_json ?E mj = Some m"
    and p: "x_params_from_json ?E (g_parameters g) = Some p"
    and fg: "for_generation (x_manifest_to_vec ?E) (x_sha256 ?E) t (g_version g) m p = Ok rq"
    using assms(3,4) unfolding get_generation_def
    by (auto simp: requirement_of_def requirement_from_parts_def rbind_eq_Ok map_err_eq_Ok
        split: option.splits sum.splits)
  note ok = for_generation_OkD [OF fg]
  have wf: "wf_manifest m" "wf_parameters p" "wf_hash (g_version g)"
    using assms(2) mj(2) p ok
    by (auto simp: decoder_laws_def canonical_hash_def digest_def wf_hash_def) (metis ContentHash.sel)
  obtain v where v: "find (\<lambda>v. mv_tenant v = t \<and> mv_content v = g_version g) (db_model_versions d) = Some v"
    "mv_manifest v = mj" using mj(1) assms(6) by (auto simp: pinned_manifest_def)
  have lease: "la_model_manifest lease = Some (proto_model_manifest ?L m)"
    "la_model_sha256 lease = print_hash ?L (g_version g)"
    "la_generation_parameters lease = Some (proto_parameters ?L p)"
    "la_seed lease = (case g_seed g of Some n \<Rightarrow> if 0 \<le> n then of_int n else 0 | None \<Rightarrow> 0)"
    "g_output_placement g = ArtifactPlacement.ObjectStore \<longrightarrow>
        la_output_object_key lease = leased_output_key ?L t (g_id g) (a_id attempt)"
    "g_output_placement g \<noteq> ArtifactPlacement.ObjectStore \<longrightarrow> la_output_object_key lease = []"
    using assms(7) v mj(2) p
    by (auto simp: build_lease_assignment_def Let_def rbind_eq_Ok map_err_eq_Ok get_model_version_def into_row_def
        decode_manifest_def split: if_splits option.splits)
  have seed: "validate_seed (la_seed lease) = Ok (la_seed lease)"
  proof -
    have fits: "unat (word_of_int n :: u64) < 2 ^ 63" if n: "0 \<le> n" "n < 2 ^ 63" for n
    proof -
      have "uint (word_of_int n :: u64) = n" using n by (simp add: uint_word_of_int)
      then show ?thesis using n by (simp add: unat_eq_nat_uint nat_less_iff)
    qed
    then have "unat (la_seed lease) < 2 ^ 63"
      using assms(5) unfolding lease(4) by (cases "g_seed g") (simp_all del: of_int_numeral)
    then show ?thesis by (simp add: validate_seed_def)
  qed
  have "worker_manifest_from_proto ?L (proto_model_manifest ?L m) = Ok m"
    using worker_manifest_agrees manifest_round_trip assms(1) wf(1) by blast
  moreover have "generation_parameters_from_proto ?L lease = Ok (wire_normal p)"
    using parameters_round_trip [OF assms(1) wf(2) lease(3)] .
  moreover have "hash_from_str ?L (print_hash ?L (g_version g)) = Ok (g_version g)"
    using parse_print_hash [OF assms(1) wf(3)] by (simp add: hash_from_str_Ok)
  moreover have "ModelManifest_validate m = Ok ()" "validate_for_family (wire_normal p) (mm_family m) = Ok ()"
    using ok validate_wire_normal by (simp_all add: ModelManifest_validate_iff)
  ultimately have "decode_lease ?E ?L lease =
      Ok \<lparr>dl_model_version = g_version g, dl_manifest = m, dl_parameters = wire_normal p\<rparr>"
    using ok by (simp add: decode_lease_def seed lease(1,2))
  with p ok lease(5,6) show ?thesis by blast
qed

lemma example_decoder_laws: "decoder_laws example_env"
  by (simp add: decoder_laws_def example_env_def wf_manifest_def example_manifest_def wf_parameters_def
      example_image_def wf_hash_def)

theorem lease_round_trip_witness:
  "\<exists>lease. build_lease_assignment example_services 7 ''pool-0'' example_attempt
      (example_generation\<lparr>g_state := GenerationState.Queued, g_attempt_count := 0, g_started_at := None\<rparr>)
      example_ready_db = Ok lease \<and>
    is_ok (decode_lease example_env example_libs lease)"
proof -
  let ?g = "example_generation\<lparr>g_state := GenerationState.Queued, g_attempt_count := 0, g_started_at := None\<rparr>"
  obtain lease where lease: "build_lease_assignment example_services 7 ''pool-0'' example_attempt ?g example_ready_db = Ok lease"
    by (simp add: build_lease_assignment_def Let_def get_model_version_def into_row_def example_ready_db_def
        example_queued_db_def empty_db_def example_model_row_def example_generation_def example_services_def
        example_env_def decode_manifest_def decode_limits_def list_inputs_def)
  have g: "get_generation 7 (g_id ?g) example_ready_db = Some ?g"
    by (simp add: get_generation_def example_ready_db_def example_queued_db_def example_generation_def gkey_def)
  then have "requirement_of example_env 7 (g_id ?g) example_ready_db = Some (example_requirement 7)"
    unfolding requirement_of_def get_generation_def [symmetric]
    by (simp add: requirement_from_parts_def pinned_manifest_def example_ready_db_def example_model_row_def
        example_generation_def example_env_def example_for_generation)
  then show ?thesis
    using lease_round_trip [OF _ _ g, of example_services, OF _ _ _ _ _ lease] lease example_text_laws example_decoder_laws
    by (fastforce simp: example_services_def example_generation_def)
qed

end
