(* ===== verification/Admission.thy ===== *)
theory Admission
  imports Session
begin

text \<open>
  Admission of Generations, \<^verbatim>\<open>gpq-remote/src/admission.rs\<close>: the request, the idempotency key with
  its digest, the checks in the order of the source (placement, object storage, replay, Tenant
  settings, queue capacity, alias, parameters, sampling, input Artifacts, seed), the insertion,
  the claim of the input Artifacts and the record of the key. The whole of \<^verbatim>\<open>admit\<close> is one
  transaction: on an error nothing is stored. The two readiness checks of the object store,
  \<^verbatim>\<open>gpq-remote/src/artifacts.rs\<close>, are over a parameter for the answer of the storage service.
\<close>

section \<open>Object storage\<close>

text \<open>What a HEAD request answers: the object's declared length, a status 404, or another failure.\<close>

datatype HeadOutcome = HeadFound "int option" | HeadNotFound | HeadFailed

record object_store =
  os_configured :: bool
  os_head :: "string \<Rightarrow> HeadOutcome"

definition object_store_available :: "object_store \<Rightarrow> bool" where
  "object_store_available store = os_configured store"

definition input_is_ready :: "object_store \<Rightarrow> string \<Rightarrow> ArtifactManifest \<Rightarrow> bool option" where
  "input_is_ready store key manifest =
     (if \<not> os_configured store then None
      else case os_head store key of
             HeadFound content_length \<Rightarrow>
               Some (Option.bind content_length
                       (\<lambda>n. if 0 \<le> n \<and> n < 2 ^ 64 then Some (of_int n :: u64) else None) =
                     Some (am_size_bytes manifest))
           | HeadNotFound \<Rightarrow> Some False
           | HeadFailed \<Rightarrow> None)"

section \<open>Requests and errors\<close>

datatype AdmissionTarget = Model string

record AdmissionRequest =
  ar_target :: AdmissionTarget
  ar_parameters :: GenerationParameters
  ar_output_placement :: ArtifactPlacement
  ar_priority :: "Priority option"
  ar_seed :: "u64 option"
  ar_execution_timeout :: "duration option"
  ar_idempotency_key :: "string option"

fun target_alias :: "AdmissionTarget \<Rightarrow> string" where
  "target_alias (Model alias) = alias"

text \<open>The messages of \<^verbatim>\<open>InvalidInput\<close> and the causes of \<^verbatim>\<open>Internal\<close>, as values.\<close>

datatype InvalidReason =
    IdempotencyKeyReused
  | NotAnInput ArtifactId
  | InputTooLarge ArtifactId
  | InputNotReady ArtifactId
  | InputMissing ArtifactId
  | InputWithoutKey ArtifactId
  | InputNotUploaded ArtifactId
  | InputsNotLinked
  | BadOutputPlacement
  | BadParameters ParameterValidationError
  | BadSampling SamplingError
  | SeedTooLarge u64

datatype InternalFault =
    StoreFault sql_error
  | DanglingKey
  | SettingsNotFound
  | ObjectStoreFault
  | ParametersNotEncoded

datatype AdmissionError =
    UnknownAlias
  | InvalidInput InvalidReason
  | CapacityExceeded
  | ObjectStoreUnavailable
  | Internal InternalFault

abbreviation internal :: "sql_error \<Rightarrow> AdmissionError" where
  "internal e \<equiv> Internal (StoreFault e)"

section \<open>Idempotency\<close>

text \<open>The fields the digest covers; the timeout enters in whole seconds.\<close>

record DigestPayload =
  dp_alias :: string
  dp_parameters :: GenerationParameters
  dp_output_placement :: string
  dp_priority :: "u8 option"
  dp_seed :: "u64 option"
  dp_execution_timeout_secs :: "u64 option"

record admission_libs =
  ad_payload_to_vec :: "DigestPayload \<Rightarrow> u8 list option"
  ad_params_to_json :: "GenerationParameters \<Rightarrow> json option"
  ad_store :: object_store

definition digest_payload :: "AdmissionRequest \<Rightarrow> DigestPayload" where
  "digest_payload request =
     \<lparr>dp_alias = target_alias (ar_target request), dp_parameters = ar_parameters request,
      dp_output_placement = ArtifactPlacement_as_str (ar_output_placement request),
      dp_priority = map_option Priority_get (ar_priority request), dp_seed = ar_seed request,
      dp_execution_timeout_secs =
        map_option (\<lambda>d. of_nat (d div 1000000000)) (ar_execution_timeout request)\<rparr>"

definition idempotency_digest :: "env \<Rightarrow> admission_libs \<Rightarrow> AdmissionRequest \<Rightarrow> u8 list" where
  "idempotency_digest E L request =
     x_sha256 E (case ad_payload_to_vec L (digest_payload request) of Some bytes \<Rightarrow> bytes | None \<Rightarrow> [])"

definition find_key :: "TenantId \<Rightarrow> string \<Rightarrow> db \<Rightarrow> idempotency_row option" where
  "find_key t key d = find (\<lambda>k. k_tenant k = t \<and> k_key k = key) (db_idempotency d)"

definition replay_idempotent ::
  "env \<Rightarrow> admission_libs \<Rightarrow> TenantId \<Rightarrow> string \<Rightarrow> AdmissionRequest \<Rightarrow> db \<Rightarrow>
   AdmissionError + GenerationRow option" where
  "replay_idempotent E L t key request d =
     (case find_key t key d of
        None \<Rightarrow> Ok None
      | Some existing \<Rightarrow>
          if k_request_digest existing \<noteq> idempotency_digest E L request
          then Err (InvalidInput IdempotencyKeyReused)
          else case get_generation t (k_generation existing) d of
                 None \<Rightarrow> Err (Internal DanglingKey)
               | Some row \<Rightarrow> Ok (Some row))"

definition record_idempotency_key ::
  "env \<Rightarrow> admission_libs \<Rightarrow> TenantId \<Rightarrow> string \<Rightarrow> AdmissionRequest \<Rightarrow> GenerationId \<Rightarrow> db \<Rightarrow>
   AdmissionError + db" where
  "record_idempotency_key E L t key request gen d =
     (if find_key t key d \<noteq> None then Err (internal (UniqueViolation ''idempotency_keys_pkey''))
      else if get_generation t gen d = None
      then Err (internal (ForeignKeyViolation ''idempotency_keys.generation_id''))
      else Ok (d\<lparr>db_idempotency := db_idempotency d @
        [\<lparr>k_tenant = t, k_key = key, k_request_digest = idempotency_digest E L request,
          k_generation = gen\<rparr>]\<rparr>))"

section \<open>Input Artifacts\<close>

definition validate_input_artifact_row ::
  "ArtifactId \<Rightarrow> ArtifactRow \<Rightarrow> u64 \<Rightarrow> AdmissionError + unit" where
  "validate_input_artifact_row i artifact max_bytes =
     (if f_direction artifact \<noteq> Input then Err (InvalidInput (NotAnInput i))
      else if \<not> fits_within (row_manifest artifact) max_bytes then Err (InvalidInput (InputTooLarge i))
      else if \<not> (case f_placement artifact of
                    ArtifactPlacement.RemoteLocal \<Rightarrow> f_state artifact = ArtifactState.Available
                  | ArtifactPlacement.WorkerLocal \<Rightarrow> f_state artifact = ArtifactState.Available
                  | ArtifactPlacement.ObjectStore \<Rightarrow> f_state artifact = ArtifactState.Pending)
      then Err (InvalidInput (InputNotReady i))
      else Ok ())"

fun validate_input_artifacts ::
  "object_store \<Rightarrow> TenantId \<Rightarrow> ArtifactId list \<Rightarrow> TenantSettings \<Rightarrow> db \<Rightarrow> AdmissionError + unit" where
  "validate_input_artifacts store t [] config d = Ok ()"
| "validate_input_artifacts store t (i # rest) config d =
     (case get_artifact t i d of
        None \<Rightarrow> Err (InvalidInput (InputMissing i))
      | Some artifact \<Rightarrow>
          rbind (validate_input_artifact_row i artifact (max_input_artifact_bytes config)) (\<lambda>_.
          rbind (if f_placement artifact = ArtifactPlacement.ObjectStore
                 then case f_object_key artifact of
                        None \<Rightarrow> Err (InvalidInput (InputWithoutKey i))
                      | Some key \<Rightarrow>
                          (case input_is_ready store key (row_manifest artifact) of
                             None \<Rightarrow> Err (Internal ObjectStoreFault)
                           | Some ready \<Rightarrow>
                               if \<not> ready then Err (InvalidInput (InputNotUploaded i)) else Ok ())
                 else Ok ()) (\<lambda>_.
            validate_input_artifacts store t rest config d)))"

text \<open>The rows the claiming update selects.\<close>

definition claimable :: "TenantId \<Rightarrow> ArtifactId list \<Rightarrow> clocks \<Rightarrow> ArtifactRow \<Rightarrow> bool" where
  "claimable t ids clk f \<longleftrightarrow>
     f_tenant f = t \<and> f_id f \<in> set ids \<and> f_direction f = Input \<and> f_generation f = None \<and>
     unexpired clk f \<and>
     (f_placement f = ArtifactPlacement.RemoteLocal \<and> f_state f = ArtifactState.Available \<and>
        (case f_content f of None \<Rightarrow> False | Some bytes \<Rightarrow> int (length bytes) = f_size_bytes f) \<or>
      f_placement f = ArtifactPlacement.ObjectStore \<and> f_state f = ArtifactState.Pending \<or>
      f_placement f = ArtifactPlacement.WorkerLocal \<and> f_state f = ArtifactState.Available)"

definition link_input_artifacts ::
  "TenantId \<Rightarrow> GenerationId \<Rightarrow> ArtifactId list \<Rightarrow> clocks \<Rightarrow> db \<Rightarrow> AdmissionError + db" where
  "link_input_artifacts t gen ids clk d =
     (if ids = [] then Ok d
      else if rows_affected (claimable t ids clk) (db_artifacts d) \<noteq> length ids
      then Err (InvalidInput InputsNotLinked)
      else Ok (d\<lparr>db_artifacts := update_where (claimable t ids clk)
             (\<lambda>f. f\<lparr>f_generation := Some gen, f_expires_at := None\<rparr>) (db_artifacts d)\<rparr>))"

section \<open>Admission\<close>

text \<open>The count comes from the database as \<^verbatim>\<open>i64\<close>.\<close>

definition queue_capacity_exceeded :: "int \<Rightarrow> u32 \<Rightarrow> bool" where
  "queue_capacity_exceeded nonterminal max_queued \<longleftrightarrow>
     (if 0 \<le> nonterminal then nonterminal else 2 ^ 64 - 1) \<ge> uint max_queued"

definition requires_missing_object_store :: "ArtifactPlacement \<Rightarrow> bool \<Rightarrow> bool" where
  "requires_missing_object_store output_placement available \<longleftrightarrow>
     requires_object_store output_placement \<and> \<not> available"

fun validate_output_placement :: "ArtifactPlacement \<Rightarrow> AdmissionError + unit" where
  "validate_output_placement ArtifactPlacement.ObjectStore = Ok ()"
| "validate_output_placement ArtifactPlacement.WorkerLocal = Ok ()"
| "validate_output_placement ArtifactPlacement.RemoteLocal = Err (InvalidInput BadOutputPlacement)"

fun sampling_overrides :: "GenerationParameters \<Rightarrow> u32 option \<times> f32 option \<times> f32 list option" where
  "sampling_overrides (GenerationParameters.Image img) = (img_steps img, img_cfg_scale img, img_sigmas img)"
| "sampling_overrides (GenerationParameters.Video _) = (None, None, None)"

fun admission_of_insert :: "InsertGenerationError \<Rightarrow> AdmissionError" where
  "admission_of_insert (InsertSeedOutOfRange seed) = InvalidInput (SeedTooLarge seed)"
| "admission_of_insert (InsertDatabase e) = internal e"

text \<open>The checks after the replay, up to the row to insert.\<close>

definition prepare ::
  "env \<Rightarrow> admission_libs \<Rightarrow> TenantId \<Rightarrow> AdmissionRequest \<Rightarrow> GenerationId \<Rightarrow> db \<Rightarrow>
   AdmissionError + NewGeneration" where
  "prepare E L t request new_id d =
     rbind (map_err internal (settings t d)) (\<lambda>found.
     rbind (case found of None \<Rightarrow> Err (Internal SettingsNotFound) | Some s \<Rightarrow> Ok s) (\<lambda>config.
     rbind (if queue_capacity_exceeded (int (count_nonterminal t d)) (max_queued_generations config)
            then Err CapacityExceeded else Ok ()) (\<lambda>_.
     rbind (map_err internal (resolve_model_alias E t (target_alias (ar_target request)) d)) (\<lambda>resolved.
     rbind (case resolved of None \<Rightarrow> Err UnknownAlias | Some m \<Rightarrow> Ok m) (\<lambda>model.
     rbind (map_err (\<lambda>e. InvalidInput (BadParameters e))
              (validate_for_family (ar_parameters request) (mm_family (rm_manifest model)))) (\<lambda>_.
     rbind (map_err (\<lambda>e. InvalidInput (BadSampling e))
              (case sampling_overrides (ar_parameters request) of
                 (steps, cfg_scale, sigmas) \<Rightarrow>
                   SamplingPreset_resolve (mm_sampling (rm_manifest model)) steps cfg_scale sigmas)) (\<lambda>_.
     rbind (validate_input_artifacts (ad_store L) t (staging_artifact_ids (ar_parameters request)) config d) (\<lambda>_.
     rbind (case ar_seed request of
              None \<Rightarrow> Ok ()
            | Some seed \<Rightarrow> (case validate_seed seed of
                             Ok _ \<Rightarrow> Ok () | Err _ \<Rightarrow> Err (InvalidInput (SeedTooLarge seed)))) (\<lambda>_.
     rbind (case ad_params_to_json L (ar_parameters request) of
              None \<Rightarrow> Err (Internal ParametersNotEncoded) | Some j \<Rightarrow> Ok j) (\<lambda>parameters.
       Ok \<lparr>ng_id = new_id, ng_tenant_id = t, ng_alias = target_alias (ar_target request),
           ng_target = ExecutionTarget_for_model (rm_content_hash model) (mm_family (rm_manifest model)),
           ng_parameters = parameters,
           ng_priority = (case ar_priority request of Some p \<Rightarrow> p | None \<Rightarrow> default_priority config),
           ng_seed = ar_seed request,
           ng_execution_timeout =
             resolve_execution_timeout (ModelManifest_modality (rm_manifest model)) (rm_limits model)
               (ar_execution_timeout request) (execution_timeout_ceiling config),
           ng_output_placement = ar_output_placement request\<rparr>))))))))))"

text \<open>The statements that change the store, in their order.\<close>

definition admit_new ::
  "env \<Rightarrow> admission_libs \<Rightarrow> TenantId \<Rightarrow> AdmissionRequest \<Rightarrow> GenerationId \<Rightarrow> clocks \<Rightarrow> db \<Rightarrow>
   AdmissionError + GenerationRow \<times> db" where
  "admit_new E L t request new_id clk d =
     rbind (prepare E L t request new_id d) (\<lambda>new.
     rbind (map_err admission_of_insert (insert_generation E new clk d)) (\<lambda>(row, d1).
     rbind (link_input_artifacts t (g_id row) (staging_artifact_ids (ar_parameters request)) clk d1) (\<lambda>d2.
     rbind (case ar_idempotency_key request of
              None \<Rightarrow> Ok d2
            | Some key \<Rightarrow> record_idempotency_key E L t key request (g_id row) d2) (\<lambda>d3.
       Ok (row, d3)))))"

definition admit ::
  "env \<Rightarrow> admission_libs \<Rightarrow> TenantId \<Rightarrow> AdmissionRequest \<Rightarrow> GenerationId \<Rightarrow> clocks \<Rightarrow> db \<Rightarrow>
   AdmissionError + GenerationRow \<times> db" where
  "admit E L t request new_id clk d =
     rbind (validate_output_placement (ar_output_placement request)) (\<lambda>_.
       if requires_missing_object_store (ar_output_placement request) (object_store_available (ad_store L))
       then Err ObjectStoreUnavailable
       else
         rbind (case ar_idempotency_key request of
                  None \<Rightarrow> Ok None
                | Some key \<Rightarrow> replay_idempotent E L t key request d) (\<lambda>replayed.
           case replayed of
             Some row \<Rightarrow> Ok (row, d)
           | None \<Rightarrow> admit_new E L t request new_id clk d))"

section \<open>The contract with the store\<close>

lemma keeps_link [keeps_intros]:
  assumes "link_input_artifacts t gen ids clk d = Ok d'"
  shows "keeps t d d'"
proof (rule keeps_log)
  show "store_inv d' \<and> evolves t d d'" if inv: "store_inv d"
    using assms artifacts_update [OF inv, of "claimable t ids clk" "\<lambda>f. f\<lparr>f_generation := Some gen, f_expires_at := None\<rparr>" t]
      inv evolves_inv_refl [OF store_invD(1) [OF inv], of t]
    by (auto simp: link_input_artifacts_def claimable_def art_step_def fkey_def split: if_splits)
  show "db_events d' = db_events d"
    using assms by (auto simp: link_input_artifacts_def split: if_splits)
qed

lemma keeps_record_key [keeps_intros]:
  assumes "record_idempotency_key E L t key request gen d = Ok d'"
  shows "keeps t d d'"
proof (rule keeps_log)
  show "store_inv d' \<and> evolves t d d'" if inv: "store_inv d"
    using assms inv evolves_same [OF store_invD(1) [OF inv], of d' t]
    by (auto simp: record_idempotency_key_def others_def split: if_splits)
  show "db_events d' = db_events d"
    using assms by (auto simp: record_idempotency_key_def split: if_splits)
qed

lemma prepare_tenant: "prepare E L t request new_id d = Ok new \<Longrightarrow> ng_tenant_id new = t \<and> ng_id new = new_id"
  by (auto simp: prepare_def rbind_eq_Ok)

lemma admit_new_Ok:
  assumes "admit_new E L t request new_id clk d = Ok (g, d')"
  obtains new d1 d2 where "prepare E L t request new_id d = Ok new"
    "insert_generation E new clk d = Ok (g, d1)"
    "link_input_artifacts t (g_id g) (staging_artifact_ids (ar_parameters request)) clk d1 = Ok d2"
    "(case ar_idempotency_key request of None \<Rightarrow> Ok d2
      | Some key \<Rightarrow> record_idempotency_key E L t key request (g_id g) d2) = Ok d'"
  using assms by (auto simp: admit_new_def rbind_eq_Ok map_err_eq_Ok)

lemma keeps_admit_new [keeps_intros]:
  assumes "admit_new E L t request new_id clk d = Ok (g, d')"
  shows "keeps t d d'"
  using assms
proof (rule admit_new_Ok)
  fix new d1 d2
  assume new: "prepare E L t request new_id d = Ok new" and d1: "insert_generation E new clk d = Ok (g, d1)"
    and d2: "link_input_artifacts t (g_id g) (staging_artifact_ids (ar_parameters request)) clk d1 = Ok d2"
    and "(case ar_idempotency_key request of None \<Rightarrow> Ok d2
      | Some key \<Rightarrow> record_idempotency_key E L t key request (g_id g) d2) = Ok d'"
  then have "keeps t d2 d'" by (auto split: option.splits intro: keeps_intros)
  with keeps_insert_generation [OF d1] prepare_tenant [OF new] keeps_link [OF d2]
  show ?thesis by (meson keeps_trans)
qed

lemma keeps_admit [keeps_intros]:
  assumes "admit E L t request new_id clk d = Ok (g, d')"
  shows "keeps t d d'"
  using assms keeps_admit_new by (auto simp: admit_def rbind_eq_Ok split: if_splits option.splits)

interpretation admission_op: tenant_op
  "\<lambda>t d d'. \<exists>E L request new_id clk g. admit E L t request new_id clk d = Ok (g, d')"
  by unfold_locales (auto intro: keeps_admit)

end
