(* ===== verification/Native.thy ===== *)
theory Native
  imports Admission
begin

text \<open>
  The native Generation service, \<^verbatim>\<open>gpq-remote/src/native/generation.rs\<close>, with the conversions and
  the authentication of \<^verbatim>\<open>native/mod.rs\<close> and the bearer token of \<^verbatim>\<open>auth.rs\<close>: Submit, GetGeneration,
  CancelGeneration, ListGenerations, WatchGeneration and CreateInputArtifact. A failed call is its
  Connect error code; the message texts are not modelled. A wire timestamp is the instant it
  denotes. A handler returns its answer and the Remote, since an answer may fail to be built
  after the transaction has committed.
\<close>

section \<open>Authentication\<close>

datatype ErrorCode =
    Unauthenticated
  | InvalidArgument
  | NotFound
  | ResourceExhausted
  | FailedPrecondition
  | Internal

definition split_once :: "char \<Rightarrow> string \<Rightarrow> (string \<times> string) option" where
  "split_once c s =
     (case dropWhile (\<lambda>x. x \<noteq> c) s of [] \<Rightarrow> None | _ # rest \<Rightarrow> Some (takeWhile (\<lambda>x. x \<noteq> c) s, rest))"

definition to_ascii_lower :: "char \<Rightarrow> char" where
  "to_ascii_lower c = (if 65 \<le> (of_char c :: nat) \<and> (of_char c :: nat) \<le> 90 then char_of ((of_char c :: nat) + 32) else c)"

definition eq_ignore_ascii_case :: "string \<Rightarrow> string \<Rightarrow> bool" where
  "eq_ignore_ascii_case a b \<longleftrightarrow> map to_ascii_lower a = map to_ascii_lower b"

text \<open>The argument is the text of the \<^verbatim>\<open>Authorization\<close> header, if there is one.\<close>

definition bearer_token :: "string option \<Rightarrow> string option" where
  "bearer_token header =
     Option.bind header (\<lambda>v. Option.bind (split_once CHR '' '' v) (\<lambda>(scheme, token).
       if eq_ignore_ascii_case scheme ''bearer'' then Some (trim token) else None))"

definition authenticate ::
  "(string \<Rightarrow> u8 list) \<Rightarrow> string option \<Rightarrow> clocks \<Rightarrow> db \<Rightarrow> ErrorCode + TenantId" where
  "authenticate hasher header clk d =
     (case bearer_token header of
        None \<Rightarrow> Err ErrorCode.Unauthenticated
      | Some token \<Rightarrow>
          (case authenticate_master_key hasher token clk d of
             Some t \<Rightarrow> Ok t | None \<Rightarrow> Err ErrorCode.Unauthenticated))"

section \<open>Wire values\<close>

datatype ProtoModality = MODALITY_UNSPECIFIED | MODALITY_IMAGE | MODALITY_VIDEO

datatype ProtoGenerationState =
    GENERATION_STATE_UNSPECIFIED
  | GENERATION_STATE_QUEUED
  | GENERATION_STATE_RUNNING
  | GENERATION_STATE_CANCELLING
  | GENERATION_STATE_SUCCEEDED
  | GENERATION_STATE_FAILED
  | GENERATION_STATE_CANCELLED
  | GENERATION_STATE_EXPIRED

datatype ProtoArtifactState =
    ARTIFACT_STATE_UNSPECIFIED
  | ARTIFACT_STATE_PENDING
  | ARTIFACT_STATE_AVAILABLE
  | ARTIFACT_STATE_DELIVERING
  | ARTIFACT_STATE_CONSUMED
  | ARTIFACT_STATE_EXPIRED
  | ARTIFACT_STATE_LOST

fun modality_to_proto :: "Modality \<Rightarrow> ProtoModality EnumValue" where
  "modality_to_proto Modality.Image = Known MODALITY_IMAGE"
| "modality_to_proto Modality.Video = Known MODALITY_VIDEO"

fun generation_state_to_proto :: "GenerationState \<Rightarrow> ProtoGenerationState EnumValue" where
  "generation_state_to_proto GenerationState.Queued = Known GENERATION_STATE_QUEUED"
| "generation_state_to_proto GenerationState.Running = Known GENERATION_STATE_RUNNING"
| "generation_state_to_proto GenerationState.Cancelling = Known GENERATION_STATE_CANCELLING"
| "generation_state_to_proto GenerationState.Succeeded = Known GENERATION_STATE_SUCCEEDED"
| "generation_state_to_proto GenerationState.Failed = Known GENERATION_STATE_FAILED"
| "generation_state_to_proto GenerationState.Cancelled = Known GENERATION_STATE_CANCELLED"
| "generation_state_to_proto GenerationState.Expired = Known GENERATION_STATE_EXPIRED"

fun generation_state_from_proto :: "ProtoGenerationState EnumValue \<Rightarrow> GenerationState option" where
  "generation_state_from_proto (Known GENERATION_STATE_QUEUED) = Some GenerationState.Queued"
| "generation_state_from_proto (Known GENERATION_STATE_RUNNING) = Some GenerationState.Running"
| "generation_state_from_proto (Known GENERATION_STATE_CANCELLING) = Some GenerationState.Cancelling"
| "generation_state_from_proto (Known GENERATION_STATE_SUCCEEDED) = Some GenerationState.Succeeded"
| "generation_state_from_proto (Known GENERATION_STATE_FAILED) = Some GenerationState.Failed"
| "generation_state_from_proto (Known GENERATION_STATE_CANCELLED) = Some GenerationState.Cancelled"
| "generation_state_from_proto (Known GENERATION_STATE_EXPIRED) = Some GenerationState.Expired"
| "generation_state_from_proto _ = None"

fun failure_kind_to_proto :: "FailureKind \<Rightarrow> ProtoFailureKind EnumValue" where
  "failure_kind_to_proto FailureKind.InvalidInput = Known FAILURE_KIND_INVALID_INPUT"
| "failure_kind_to_proto FailureKind.UnsupportedCapability = Known FAILURE_KIND_UNSUPPORTED_CAPABILITY"
| "failure_kind_to_proto FailureKind.ModelUnavailable = Known FAILURE_KIND_MODEL_UNAVAILABLE"
| "failure_kind_to_proto FailureKind.OutOfMemory = Known FAILURE_KIND_OUT_OF_MEMORY"
| "failure_kind_to_proto FailureKind.BackendCrashed = Known FAILURE_KIND_BACKEND_CRASHED"
| "failure_kind_to_proto FailureKind.ExecutionTimedOut = Known FAILURE_KIND_EXECUTION_TIMED_OUT"
| "failure_kind_to_proto FailureKind.Cancelled = Known FAILURE_KIND_CANCELLED"
| "failure_kind_to_proto FailureKind.TransferFailed = Known FAILURE_KIND_TRANSFER_FAILED"
| "failure_kind_to_proto FailureKind.Internal = Known FAILURE_KIND_INTERNAL"
| "failure_kind_to_proto FailureKind.WorkerLost = Known FAILURE_KIND_WORKER_LOST"
| "failure_kind_to_proto FailureKind.LeaseExpired = Known FAILURE_KIND_LEASE_EXPIRED"

fun media_kind_to_proto :: "MediaKind \<Rightarrow> ProtoMediaKind EnumValue" where
  "media_kind_to_proto MediaKind.Image = Known MEDIA_KIND_IMAGE"
| "media_kind_to_proto MediaKind.Video = Known MEDIA_KIND_VIDEO"
| "media_kind_to_proto MediaKind.Audio = Known MEDIA_KIND_AUDIO"
| "media_kind_to_proto MediaKind.Text = Known MEDIA_KIND_TEXT"
| "media_kind_to_proto MediaKind.Binary = Known MEDIA_KIND_BINARY"

fun media_kind_from_proto :: "ProtoMediaKind EnumValue \<Rightarrow> MediaKind option" where
  "media_kind_from_proto (Known MEDIA_KIND_IMAGE) = Some MediaKind.Image"
| "media_kind_from_proto (Known MEDIA_KIND_VIDEO) = Some MediaKind.Video"
| "media_kind_from_proto (Known MEDIA_KIND_AUDIO) = Some MediaKind.Audio"
| "media_kind_from_proto (Known MEDIA_KIND_TEXT) = Some MediaKind.Text"
| "media_kind_from_proto (Known MEDIA_KIND_BINARY) = Some MediaKind.Binary"
| "media_kind_from_proto _ = None"

fun artifact_placement_to_proto :: "ArtifactPlacement \<Rightarrow> ProtoArtifactPlacement EnumValue" where
  "artifact_placement_to_proto ArtifactPlacement.ObjectStore = Known ARTIFACT_PLACEMENT_OBJECT_STORE"
| "artifact_placement_to_proto ArtifactPlacement.WorkerLocal = Known ARTIFACT_PLACEMENT_WORKER_LOCAL"
| "artifact_placement_to_proto ArtifactPlacement.RemoteLocal = Known ARTIFACT_PLACEMENT_REMOTE_LOCAL"

fun artifact_placement_from_proto :: "ProtoArtifactPlacement EnumValue \<Rightarrow> ArtifactPlacement option" where
  "artifact_placement_from_proto (Known ARTIFACT_PLACEMENT_OBJECT_STORE) = Some ArtifactPlacement.ObjectStore"
| "artifact_placement_from_proto (Known ARTIFACT_PLACEMENT_WORKER_LOCAL) = Some ArtifactPlacement.WorkerLocal"
| "artifact_placement_from_proto (Known ARTIFACT_PLACEMENT_REMOTE_LOCAL) = Some ArtifactPlacement.RemoteLocal"
| "artifact_placement_from_proto _ = None"

fun artifact_state_to_proto :: "ArtifactState \<Rightarrow> ProtoArtifactState EnumValue" where
  "artifact_state_to_proto ArtifactState.Pending = Known ARTIFACT_STATE_PENDING"
| "artifact_state_to_proto ArtifactState.Available = Known ARTIFACT_STATE_AVAILABLE"
| "artifact_state_to_proto ArtifactState.Delivering = Known ARTIFACT_STATE_DELIVERING"
| "artifact_state_to_proto ArtifactState.Consumed = Known ARTIFACT_STATE_CONSUMED"
| "artifact_state_to_proto ArtifactState.Expired = Known ARTIFACT_STATE_EXPIRED"
| "artifact_state_to_proto ArtifactState.Lost = Known ARTIFACT_STATE_LOST"

definition priority_from_wire :: "u32 \<Rightarrow> Priority option" where
  "priority_from_wire v =
     (if uint v < 2 ^ 8 then case Priority_new (ucast v) of Ok p \<Rightarrow> Some p | Err _ \<Rightarrow> None else None)"

text \<open>
  The library code of this service: the conversions of the wire duration, the parser of stored
  progress, joining a path to the public base URL, presigning an upload, and what admission
  calls.
\<close>

record ProtoDuration =
  pd_seconds :: int
  pd_nanos :: int

record ProtoProgress =
  pp_fraction :: "64 word"
  pp_stage :: string
  pp_step :: u32
  pp_total_steps :: u32
  pp_observed_at :: datetime

record native_libs =
  nl_duration_from :: "ProtoDuration \<Rightarrow> duration option"
  nl_duration_to :: "duration \<Rightarrow> ProtoDuration"
  nl_progress :: "json \<Rightarrow> ProtoProgress option"
  nl_join_url :: "string \<Rightarrow> string option"
  nl_presign_put :: "string \<Rightarrow> ArtifactManifest \<Rightarrow> (string \<times> datetime) option"
  nl_admission :: admission_libs

definition duration_from_proto :: "native_libs \<Rightarrow> ProtoDuration option \<Rightarrow> duration option" where
  "duration_from_proto N field = Option.bind field (nl_duration_from N)"

definition duration_to_proto :: "native_libs \<Rightarrow> duration \<Rightarrow> ProtoDuration option" where
  "duration_to_proto N d = Some (nl_duration_to N d)"

section \<open>Requests\<close>

definition parse_artifact_id :: "text_libs \<Rightarrow> string \<Rightarrow> ErrorCode + ArtifactId" where
  "parse_artifact_id L v =
     (case uuid_parse L v of Some i \<Rightarrow> Ok i | None \<Rightarrow> Err ErrorCode.InvalidArgument)"

definition optional_artifact_id :: "text_libs \<Rightarrow> string option \<Rightarrow> ErrorCode + ArtifactId option" where
  "optional_artifact_id L v =
     (case v of None \<Rightarrow> Ok None | Some i \<Rightarrow> rbind (parse_artifact_id L i) (\<lambda>i. Ok (Some i)))"

definition lora_from_proto :: "text_libs \<Rightarrow> ProtoLoraSelection \<Rightarrow> ErrorCode + LoraSelection" where
  "lora_from_proto L lora =
     (case parse_hash L (pls_sha256 lora) of
        None \<Rightarrow> Err ErrorCode.InvalidArgument
      | Some sha256 \<Rightarrow> Ok \<lparr>lora_sha256 = sha256, lora_scale = pls_scale lora\<rparr>)"

definition image_parameters_from_proto ::
  "text_libs \<Rightarrow> ProtoImageParameters \<Rightarrow> ErrorCode + ImageParameters" where
  "image_parameters_from_proto L wire =
     rbind (rmap (parse_artifact_id L) (pip_reference_artifact_ids wire)) (\<lambda>references.
     rbind (rmap (lora_from_proto L) (pip_loras wire)) (\<lambda>loras.
       Ok \<lparr>img_prompt = pip_prompt wire, img_negative_prompt = pip_negative_prompt wire,
           img_width = pip_width wire, img_height = pip_height wire, img_steps = pip_steps wire,
           img_cfg_scale = pip_cfg_scale wire, img_references = references, img_loras = loras,
           img_sigmas = (if pip_sigmas wire \<noteq> [] then Some (pip_sigmas wire) else None)\<rparr>))"

definition video_parameters_from_proto ::
  "text_libs \<Rightarrow> ProtoVideoParameters \<Rightarrow> ErrorCode + VideoParameters" where
  "video_parameters_from_proto L wire =
     rbind (optional_artifact_id L (pvp_first_frame_artifact_id wire)) (\<lambda>first.
     rbind (optional_artifact_id L (pvp_last_frame_artifact_id wire)) (\<lambda>lst.
       Ok \<lparr>vid_prompt = pvp_prompt wire, vid_negative_prompt = pvp_negative_prompt wire,
           vid_width = pvp_width wire, vid_height = pvp_height wire, vid_frames = pvp_frames wire,
           vid_first_frame = first, vid_last_frame = lst\<rparr>))"

definition MAX_IDEMPOTENCY_KEY_LEN :: nat where "MAX_IDEMPOTENCY_KEY_LEN = 200"

definition required_idempotency_key :: "string option \<Rightarrow> ErrorCode + string" where
  "required_idempotency_key header =
     (case map_option trim header of
        None \<Rightarrow> Err ErrorCode.InvalidArgument
      | Some key \<Rightarrow>
          if key = [] then Err ErrorCode.InvalidArgument
          else if length key > MAX_IDEMPOTENCY_KEY_LEN then Err ErrorCode.InvalidArgument
          else Ok key)"

fun admission_error :: "AdmissionError \<Rightarrow> ErrorCode" where
  "admission_error UnknownAlias = ErrorCode.NotFound"
| "admission_error (AdmissionError.InvalidInput _) = ErrorCode.InvalidArgument"
| "admission_error CapacityExceeded = ErrorCode.ResourceExhausted"
| "admission_error ObjectStoreUnavailable = ErrorCode.FailedPrecondition"
| "admission_error (AdmissionError.Internal _) = ErrorCode.Internal"

record SubmitRequest =
  sr_target :: "string option"
  sr_generation_parameters :: "ProtoGenerationParameters option"
  sr_output_placement :: "ProtoArtifactPlacement EnumValue"
  sr_priority :: u32
  sr_seed :: "u64 option"
  sr_execution_timeout :: "ProtoDuration option"

definition submit_parameters ::
  "text_libs \<Rightarrow> ProtoGenerationParameters option \<Rightarrow> ErrorCode + GenerationParameters" where
  "submit_parameters L wire =
     (case wire of
        Some (ImageParameters img) \<Rightarrow>
          rbind (image_parameters_from_proto L img) (\<lambda>p. Ok (GenerationParameters.Image p))
      | Some (VideoParameters video) \<Rightarrow>
          rbind (video_parameters_from_proto L video) (\<lambda>p. Ok (GenerationParameters.Video p))
      | None \<Rightarrow> Err ErrorCode.InvalidArgument)"

definition admission_request ::
  "text_libs \<Rightarrow> native_libs \<Rightarrow> string \<Rightarrow> SubmitRequest \<Rightarrow> ErrorCode + AdmissionRequest" where
  "admission_request L N key request =
     rbind (case sr_target request of None \<Rightarrow> Err ErrorCode.InvalidArgument | Some alias \<Rightarrow> Ok alias) (\<lambda>alias.
     rbind (submit_parameters L (sr_generation_parameters request)) (\<lambda>parameters.
     rbind (case artifact_placement_from_proto (sr_output_placement request) of
              None \<Rightarrow> Err ErrorCode.InvalidArgument | Some p \<Rightarrow> Ok p) (\<lambda>placement.
     rbind (if sr_priority request \<noteq> 0
            then case priority_from_wire (sr_priority request) of
                   None \<Rightarrow> Err ErrorCode.InvalidArgument | Some p \<Rightarrow> Ok (Some p)
            else Ok None) (\<lambda>priority.
       Ok \<lparr>ar_target = Model alias, ar_parameters = parameters, ar_output_placement = placement,
           ar_priority = priority, ar_seed = sr_seed request,
           ar_execution_timeout = duration_from_proto N (sr_execution_timeout request),
           ar_idempotency_key = Some key\<rparr>))))"

section \<open>Answers\<close>

record ArtifactRef =
  ref_artifact_id :: string
  ref_manifest :: ProtoArtifactManifest
  ref_placement :: "ProtoArtifactPlacement EnumValue"
  ref_state :: "ProtoArtifactState EnumValue"
  ref_download_path :: string

record ProtoGeneration =
  pg_generation_id :: string
  pg_state :: "ProtoGenerationState EnumValue"
  pg_modality :: "ProtoModality EnumValue"
  pg_model_alias :: string
  pg_version_sha256 :: string
  pg_priority :: u32
  pg_seed :: u64
  pg_execution_timeout :: "ProtoDuration option"
  pg_created_at :: datetime
  pg_updated_at :: datetime
  pg_attempt_count :: u32
  pg_output_artifacts :: "ArtifactRef list"
  pg_failure :: "ProtoFailure option"
  pg_latest_progress :: "ProtoProgress option"

definition download_path :: "text_libs \<Rightarrow> ArtifactId \<Rightarrow> string" where
  "download_path L artifact = ''/v1/artifacts/'' @ uuid_print L artifact"

definition download_url :: "text_libs \<Rightarrow> native_libs \<Rightarrow> ArtifactId \<Rightarrow> string option" where
  "download_url L N artifact = nl_join_url N (download_path L artifact)"

definition artifact_row_to_proto :: "text_libs \<Rightarrow> native_libs \<Rightarrow> ArtifactRow \<Rightarrow> ErrorCode + ArtifactRef" where
  "artifact_row_to_proto L N artifact =
     (case download_url L N (f_id artifact) of
        None \<Rightarrow> Err ErrorCode.Internal
      | Some url \<Rightarrow>
          Ok \<lparr>ref_artifact_id = uuid_print L (f_id artifact),
              ref_manifest = \<lparr>pam_size_bytes = am_size_bytes (row_manifest artifact),
                              pam_digest_sha256 = print_hash L (f_digest artifact),
                              pam_kind = media_kind_to_proto (f_kind artifact),
                              pam_mime_type = f_mime_type artifact\<rparr>,
              ref_placement = artifact_placement_to_proto (f_placement artifact),
              ref_state = artifact_state_to_proto (f_state artifact), ref_download_path = url\<rparr>)"

definition generation_row_to_proto ::
  "text_libs \<Rightarrow> native_libs \<Rightarrow> TenantId \<Rightarrow> db \<Rightarrow> GenerationRow \<Rightarrow> ErrorCode + ProtoGeneration" where
  "generation_row_to_proto L N t d row =
     rbind (rmap (artifact_row_to_proto L N) (list_outputs t (g_id row) d)) (\<lambda>output_artifacts.
     rbind (case g_latest_progress row of
              None \<Rightarrow> Ok None
            | Some j \<Rightarrow> (case nl_progress N j of None \<Rightarrow> Err ErrorCode.Internal | Some p \<Rightarrow> Ok (Some p))) (\<lambda>progress.
       Ok \<lparr>pg_generation_id = uuid_print L (g_id row), pg_state = generation_state_to_proto (g_state row),
           pg_modality = modality_to_proto (g_modality row), pg_model_alias = g_alias row,
           pg_version_sha256 = print_hash L (g_version row), pg_priority = u32_of_count (g_priority row),
           pg_seed = (case g_seed row of Some seed \<Rightarrow> if 0 \<le> seed then of_int seed else 0 | None \<Rightarrow> 0),
           pg_execution_timeout = duration_to_proto N (g_execution_timeout row),
           pg_created_at = g_created_at row, pg_updated_at = g_updated_at row,
           pg_attempt_count = u32_of_count (g_attempt_count row), pg_output_artifacts = output_artifacts,
           pg_failure = map_option (\<lambda>kind. \<lparr>pf_kind = failure_kind_to_proto kind,
                          pf_message = g_failure_message row, pf_worker_retry_hint = False\<rparr>) (g_failure_kind row),
           pg_latest_progress = progress\<rparr>))"

section \<open>Submit, get, cancel\<close>

type_synonym 'a answer = "(ErrorCode + 'a) \<times> remote"

definition submit ::
  "services \<Rightarrow> native_libs \<Rightarrow> (string \<Rightarrow> u8 list) \<Rightarrow> string option \<Rightarrow> string option \<Rightarrow> SubmitRequest \<Rightarrow>
   GenerationId \<Rightarrow> clocks \<Rightarrow> remote \<Rightarrow> ProtoGeneration answer" where
  "submit S N hasher authorization idempotency request new_id clk r =
     (case rbind (authenticate hasher authorization clk (r_db r)) (\<lambda>t.
           rbind (required_idempotency_key idempotency) (\<lambda>key.
           rbind (admission_request (sv_text S) N key request) (\<lambda>admission.
           rbind (map_err admission_error
                    (admit (sv_env S) (nl_admission N) t admission new_id clk (r_db r))) (\<lambda>(row, d).
             Ok (t, row, d))))) of
        Err e \<Rightarrow> (Err e, r)
      | Ok (t, row, d) \<Rightarrow> (generation_row_to_proto (sv_text S) N t d row, r\<lparr>r_db := d\<rparr>))"

definition parse_generation_id :: "text_libs \<Rightarrow> string \<Rightarrow> ErrorCode + GenerationId" where
  "parse_generation_id L v =
     (case uuid_parse L v of Some i \<Rightarrow> Ok i | None \<Rightarrow> Err ErrorCode.InvalidArgument)"

definition found_generation :: "TenantId \<Rightarrow> GenerationId \<Rightarrow> db \<Rightarrow> ErrorCode + GenerationRow" where
  "found_generation t gen d =
     (case get_generation t gen d of Some row \<Rightarrow> Ok row | None \<Rightarrow> Err ErrorCode.NotFound)"

definition native_get_generation ::
  "services \<Rightarrow> native_libs \<Rightarrow> (string \<Rightarrow> u8 list) \<Rightarrow> string option \<Rightarrow> string \<Rightarrow> clocks \<Rightarrow> db \<Rightarrow>
   ErrorCode + ProtoGeneration" where
  "native_get_generation S N hasher authorization generation_id clk d =
     rbind (authenticate hasher authorization clk d) (\<lambda>t.
     rbind (parse_generation_id (sv_text S) generation_id) (\<lambda>gen.
     rbind (found_generation t gen d) (\<lambda>row.
       generation_row_to_proto (sv_text S) N t d row)))"

text \<open>The transaction of a cancellation: the row afterwards and the inputs it deleted.\<close>

definition cancel_transaction ::
  "TenantId \<Rightarrow> GenerationId \<Rightarrow> datetime \<Rightarrow> db \<Rightarrow> ErrorCode + (GenerationRow \<times> ArtifactRow list) \<times> db" where
  "cancel_transaction t gen now d =
     (let (queued_cancelled, d1) = cancel_queued t gen now d;
          (deleted_inputs, d2) = (if queued_cancelled then delete_inputs_for_generation t gen d1 else ([], d1));
          (_, d3) = request_cancel_running t gen now d2
      in rbind (found_generation t gen d3) (\<lambda>row. Ok ((row, deleted_inputs), d3)))"

definition cancel_generation ::
  "services \<Rightarrow> native_libs \<Rightarrow> (string \<Rightarrow> u8 list) \<Rightarrow> string option \<Rightarrow> string \<Rightarrow> tx_input \<Rightarrow> remote \<Rightarrow>
   ProtoGeneration answer" where
  "cancel_generation S N hasher authorization generation_id inp r =
     (case rbind (authenticate hasher authorization (ti_clk inp) (r_db r)) (\<lambda>t.
           rbind (parse_generation_id (sv_text S) generation_id) (\<lambda>gen.
           rbind (cancel_transaction t gen (ti_now inp) (r_db r)) (\<lambda>out. Ok (t, out)))) of
        Err e \<Rightarrow> (Err e, r)
      | Ok (t, (row, deleted_inputs), d) \<Rightarrow>
          (generation_row_to_proto (sv_text S) N t d row,
           release_deleted_inputs deleted_inputs (r\<lparr>r_db := d\<rparr>)))"

section \<open>Listing\<close>

definition DEFAULT_PAGE_SIZE :: u32 where "DEFAULT_PAGE_SIZE = 50"
definition MAX_PAGE_SIZE :: u32 where "MAX_PAGE_SIZE = 200"

definition effective_page_size :: "u32 \<Rightarrow> u32" where
  "effective_page_size requested = (if requested = 0 then DEFAULT_PAGE_SIZE else min requested MAX_PAGE_SIZE)"

record ListGenerationsRequest =
  lg_page_size :: u32
  lg_page_token :: string
  lg_state :: "ProtoGenerationState EnumValue"

definition native_list_generations ::
  "services \<Rightarrow> native_libs \<Rightarrow> (string \<Rightarrow> u8 list) \<Rightarrow> string option \<Rightarrow> ListGenerationsRequest \<Rightarrow> clocks \<Rightarrow> db \<Rightarrow>
   ErrorCode + ProtoGeneration list \<times> string" where
  "native_list_generations S N hasher authorization request clk d =
     rbind (authenticate hasher authorization clk d) (\<lambda>t.
     rbind (if lg_page_token request = [] then Ok None
            else rbind (parse_generation_id (sv_text S) (lg_page_token request)) (\<lambda>i. Ok (Some i))) (\<lambda>after.
       let page_size = effective_page_size (lg_page_size request);
           rows = list_generations t page_size after (generation_state_from_proto (lg_state request)) d;
           next_page_token = (if length rows = unat page_size
                              then case rev rows of [] \<Rightarrow> [] | row # _ \<Rightarrow> uuid_print (sv_text S) (g_id row)
                              else [])
       in rbind (rmap (generation_row_to_proto (sv_text S) N t d) rows) (\<lambda>generations.
            Ok (generations, next_page_token))))"

section \<open>Watching\<close>

datatype ProtoEvent =
    Snapshot ProtoGeneration
  | StateChangedEvent "ProtoGenerationState EnumValue" u32 "ProtoFailure option"
  | ProgressEvent ProtoProgress
  | DiscontinuityEvent string

record WireGenerationEvent =
  we_emitted_at :: datetime
  we_event :: ProtoEvent

fun domain_event_to_proto :: "GenerationEvent \<Rightarrow> datetime \<Rightarrow> WireGenerationEvent option" where
  "domain_event_to_proto (State s attempt_count failure) at =
     Some \<lparr>we_emitted_at = at, we_event = StateChangedEvent (generation_state_to_proto s) attempt_count
       (map_option (\<lambda>(kind, message). \<lparr>pf_kind = failure_kind_to_proto kind, pf_message = message,
          pf_worker_retry_hint = False\<rparr>) failure)\<rparr>"
| "domain_event_to_proto (ProgressUpdate fraction stage step total_steps) at =
     Some \<lparr>we_emitted_at = at, we_event = ProgressEvent \<lparr>pp_fraction = fraction, pp_stage = stage,
       pp_step = step, pp_total_steps = total_steps, pp_observed_at = at\<rparr>\<rparr>"
| "domain_event_to_proto OutputAvailable at = None"
| "domain_event_to_proto (Discontinuity reason) at =
     Some \<lparr>we_emitted_at = at, we_event = DiscontinuityEvent reason\<rparr>"

definition discontinuity_event :: "string \<Rightarrow> datetime \<Rightarrow> WireGenerationEvent" where
  "discontinuity_event reason now = \<lparr>we_emitted_at = now, we_event = DiscontinuityEvent reason\<rparr>"

definition replay_events :: "event_codec \<Rightarrow> event_row list \<Rightarrow> WireGenerationEvent list" where
  "replay_events c rows =
     List.map_filter (\<lambda>row. Option.bind (decode_persisted c row)
       (\<lambda>event. domain_event_to_proto event (e_created_at row))) rows"

definition refreshed_snapshot_event ::
  "services \<Rightarrow> native_libs \<Rightarrow> TenantId \<Rightarrow> GenerationId \<Rightarrow> datetime \<Rightarrow> db \<Rightarrow> ErrorCode + WireGenerationEvent" where
  "refreshed_snapshot_event S N t gen now d =
     rbind (found_generation t gen d) (\<lambda>row.
     rbind (generation_row_to_proto (sv_text S) N t d row) (\<lambda>snapshot.
       Ok \<lparr>we_emitted_at = now, we_event = Snapshot snapshot\<rparr>))"

text \<open>
  The stream begins with the snapshot and the events recorded after it. The subscription comes
  first; the snapshot and the replay are read in two transactions, the second on a later store.
  A call that fails drops its receiver.
\<close>

definition drop_receiver :: "GenerationId \<Rightarrow> EventHub \<Rightarrow> EventHub" where
  "drop_receiver gen hub =
     hub\<lparr>hub_channels := (case hub_channels hub gen of
        None \<Rightarrow> hub_channels hub
      | Some c \<Rightarrow> (hub_channels hub)(gen \<mapsto> c\<lparr>bc_receivers := bc_receivers c - 1\<rparr>))\<rparr>"

definition watch_generation ::
  "services \<Rightarrow> native_libs \<Rightarrow> (string \<Rightarrow> u8 list) \<Rightarrow> string option \<Rightarrow> string \<Rightarrow> datetime \<Rightarrow> clocks \<Rightarrow> db \<Rightarrow> remote \<Rightarrow>
   WireGenerationEvent list answer" where
  "watch_generation S N hasher authorization generation_id now clk later r =
     (case rbind (authenticate hasher authorization clk (r_db r)) (\<lambda>t.
           rbind (parse_generation_id (sv_text S) generation_id) (\<lambda>gen. Ok (t, gen))) of
        Err e \<Rightarrow> (Err e, r)
      | Ok (t, gen) \<Rightarrow>
          let subscribed = subscribe gen (r_hub r)
          in case refreshed_snapshot_event S N t gen now (r_db r) of
               Err e \<Rightarrow> (Err e, r\<lparr>r_hub := drop_receiver gen subscribed\<rparr>)
             | Ok snapshot \<Rightarrow>
                 let snapshot_sequence = (case latest_event t gen (r_db r) of None \<Rightarrow> 0 | Some e \<Rightarrow> e_sequence e)
                 in (Ok (snapshot # replay_events (sv_codec S) (load_since t gen snapshot_sequence later)),
                     r\<lparr>r_hub := subscribed\<rparr>))"

datatype live_item = LiveEvent GenerationEvent | Lagged

text \<open>What one item of the live subscription becomes in the stream.\<close>

fun live_stream_item ::
  "services \<Rightarrow> native_libs \<Rightarrow> TenantId \<Rightarrow> GenerationId \<Rightarrow> datetime \<Rightarrow> db \<Rightarrow> live_item \<Rightarrow>
   (ErrorCode + WireGenerationEvent) option" where
  "live_stream_item S N t gen now d (LiveEvent OutputAvailable) = Some (refreshed_snapshot_event S N t gen now d)"
| "live_stream_item S N t gen now d (LiveEvent event) = map_option Ok (domain_event_to_proto event now)"
| "live_stream_item S N t gen now d Lagged =
     Some (Ok (discontinuity_event ''missed live events while reconnecting'' now))"

section \<open>Input Artifacts\<close>

record InputSlot =
  is_artifact_id :: string
  is_upload_url :: string
  is_expires_at :: datetime

definition input_manifest_from_proto ::
  "text_libs \<Rightarrow> ProtoArtifactManifest option \<Rightarrow> ErrorCode + ArtifactManifest" where
  "input_manifest_from_proto L wire =
     rbind (case wire of None \<Rightarrow> Err ErrorCode.InvalidArgument | Some m \<Rightarrow> Ok m) (\<lambda>m.
     rbind (case parse_hash L (pam_digest_sha256 m) of None \<Rightarrow> Err ErrorCode.InvalidArgument | Some h \<Rightarrow> Ok h) (\<lambda>h.
     rbind (case media_kind_from_proto (pam_kind m) of None \<Rightarrow> Err ErrorCode.InvalidArgument | Some k \<Rightarrow> Ok k) (\<lambda>k.
       Ok \<lparr>am_size_bytes = pam_size_bytes m, am_digest = h, am_kind = k, am_mime_type = pam_mime_type m\<rparr>)))"

definition input_object_path :: "text_libs \<Rightarrow> TenantId \<Rightarrow> uuid \<Rightarrow> string" where
  "input_object_path L t u = ''tenants/'' @ uuid_print L t @ ''/inputs/'' @ uuid_print L u"

definition create_input_artifact ::
  "services \<Rightarrow> native_libs \<Rightarrow> (string \<Rightarrow> u8 list) \<Rightarrow> string option \<Rightarrow> ProtoArtifactManifest option \<Rightarrow>
   ArtifactId \<Rightarrow> uuid \<Rightarrow> clocks \<Rightarrow> remote \<Rightarrow> InputSlot answer" where
  "create_input_artifact S N hasher authorization wire new_id key_id clk r =
     (case rbind (authenticate hasher authorization clk (r_db r)) (\<lambda>t.
           rbind (input_manifest_from_proto (sv_text S) wire) (\<lambda>manifest.
           rbind (map_err (\<lambda>_. ErrorCode.Internal) (load_settings t (r_db r))) (\<lambda>config.
             if \<not> fits_within manifest (max_input_artifact_bytes config) then Err ErrorCode.InvalidArgument
             else if object_store_available (ad_store (nl_admission N))
             then
               let object_key = input_object_path (sv_text S) t key_id
               in rbind (case nl_presign_put N object_key manifest of
                           None \<Rightarrow> Err ErrorCode.Internal | Some u \<Rightarrow> Ok u) (\<lambda>(url, expires_at).
                  rbind (map_err (\<lambda>_. ErrorCode.Internal)
                           (create_input t manifest ArtifactPlacement.ObjectStore (Some object_key) new_id clk (r_db r)))
                    (\<lambda>(row, d). Ok (row, expires_at, Some url, d)))
             else
               rbind (map_err (\<lambda>_. ErrorCode.Internal) (create_remote_local_input t manifest new_id clk (r_db r)))
                 (\<lambda>((row, expires_at), d). Ok (row, expires_at, download_url (sv_text S) N (f_id row), d))))) of
        Err e \<Rightarrow> (Err e, r)
      | Ok (row, expires_at, url, d) \<Rightarrow>
          (case url of
             None \<Rightarrow> Err ErrorCode.Internal
           | Some u \<Rightarrow> Ok \<lparr>is_artifact_id = uuid_print (sv_text S) (f_id row), is_upload_url = u,
                           is_expires_at = expires_at\<rparr>,
           r\<lparr>r_db := d\<rparr>))"

section \<open>The contract with the store\<close>

lemma keeps_submit [keeps_intros]:
  assumes "authenticate hasher authorization clk (r_db r) = Ok t"
  shows "keeps t (r_db r) (r_db (snd (submit S N hasher authorization idempotency request new_id clk r)))"
proof (cases "rbind (required_idempotency_key idempotency) (\<lambda>key.
    rbind (admission_request (sv_text S) N key request) (\<lambda>admission.
      map_err admission_error (admit (sv_env S) (nl_admission N) t admission new_id clk (r_db r))))")
  case (Inl e)
  then show ?thesis
    using assms by (auto simp: submit_def rbind_def split: sum.splits)
next
  case (Inr out)
  obtain row d where out: "out = (row, d)" by fastforce
  have "keeps t (r_db r) d" using Inr out by (auto simp: rbind_eq_Ok map_err_eq_Ok intro: keeps_admit)
  then show ?thesis
    using assms Inr out by (auto simp: submit_def rbind_def split: sum.splits)
qed

lemma keeps_cancel_transaction [keeps_intros]:
  assumes "cancel_transaction t gen now d = Ok (out, d')"
  shows "keeps t d d'"
proof -
  define d1 where "d1 = snd (cancel_queued t gen now d)"
  define d2 where "d2 = (if fst (cancel_queued t gen now d) then snd (delete_inputs_for_generation t gen d1) else d1)"
  have "d' = snd (request_cancel_running t gen now d2)"
    using assms by (auto simp: cancel_transaction_def Let_def rbind_eq_Ok d1_def d2_def split: prod.splits if_splits)
  moreover have "keeps t d d1" "keeps t d1 d2"
    by (simp_all add: d1_def d2_def keeps_generation_changes keeps_artifacts)
  ultimately show ?thesis using keeps_generation_changes(3) keeps_trans by metis
qed

lemma keeps_cancel_generation [keeps_intros]:
  assumes "authenticate hasher authorization (ti_clk inp) (r_db r) = Ok t"
  shows "keeps t (r_db r) (r_db (snd (cancel_generation S N hasher authorization generation_id inp r)))"
  using assms keeps_cancel_transaction [of t _ "ti_now inp" "r_db r"]
  by (auto simp: cancel_generation_def rbind_def release_deleted_inputs_def split: sum.splits)

lemma keeps_create_input [keeps_intros]:
  "create_input t m placement key i clk d = Ok (row, d') \<Longrightarrow> keeps t d d'"
  "create_remote_local_input t m i clk d = Ok (out, d') \<Longrightarrow> keeps t d d'"
  subgoal by (rule keeps_log, erule (1) create_input_sound(1))
      (auto simp: create_input_def rbind_eq_Ok Let_def dest!: insert_artifact_Ok(1))
  subgoal by (rule keeps_log, erule (1) create_input_sound(2))
      (auto simp: create_remote_local_input_def rbind_eq_Ok Let_def dest!: insert_artifact_Ok(1) split: option.splits)
  done

lemma keeps_create_input_artifact [keeps_intros]:
  assumes "authenticate hasher authorization clk (r_db r) = Ok t"
  shows "keeps t (r_db r) (r_db (snd (create_input_artifact S N hasher authorization wire new_id key_id clk r)))"
  using assms
  by (auto simp: create_input_artifact_def rbind_def Let_def map_err_def keeps_create_input
      split: sum.split option.split prod.split)

interpretation native_op: tenant_op
  "\<lambda>t d d'. \<exists>S N hasher authorization idempotency request new_id generation_id wire key_id inp r.
     r_db r = d \<and> authenticate hasher authorization (ti_clk inp) d = Ok t \<and>
     (d' = r_db (snd (submit S N hasher authorization idempotency request new_id (ti_clk inp) r)) \<or>
      d' = r_db (snd (cancel_generation S N hasher authorization generation_id inp r)) \<or>
      d' = r_db (snd (create_input_artifact S N hasher authorization wire new_id key_id (ti_clk inp) r)))"
  by unfold_locales (auto intro: keeps_submit keeps_cancel_generation keeps_create_input_artifact)

end
