(* ===== verification/Delivery.thy ===== *)
theory Delivery
  imports Native
begin

text \<open>
  Artifact bytes over HTTP, \<^verbatim>\<open>gpq-remote/src/artifacts.rs\<close>: the upload of a pending input, the
  one-shot download of an output, and the task that relays a Worker-local output from the
  producing Worker to the downloading client.

  The relay runs beside every other task of the Remote. What those tasks do is a parameter: a
  function of the Remote, applied at every point where the relay waits (a received chunk, a
  pause, the start of a transaction). The chunks that arrive after the n-th accepted request
  are a list; when it ends, the Worker stays silent and the timeout fires. The client reads a
  given number of body items and then disconnects, or reads all of them. Transactions fail only
  for the reasons the store gives.
\<close>

section \<open>Responses\<close>

datatype StatusCode =
    OK | NO_CONTENT | FOUND | BAD_REQUEST | UNAUTHORIZED | NOT_FOUND | CONFLICT | GONE
  | PAYLOAD_TOO_LARGE | INTERNAL_SERVER_ERROR | BAD_GATEWAY | SERVICE_UNAVAILABLE

type_synonym body_item = "string + u8 list"

datatype response_body = NoBody | MismatchText ManifestMismatch | Stream "body_item list"

record response =
  rp_status :: StatusCode
  rp_location :: "string option"
  rp_content_type :: "string option"
  rp_content_length :: "u64 option"
  rp_body :: response_body

definition plain :: "StatusCode \<Rightarrow> response" where
  "plain status = \<lparr>rp_status = status, rp_location = None, rp_content_type = None,
     rp_content_length = None, rp_body = NoBody\<rparr>"

section \<open>Uploads\<close>

definition verify_remote_local_upload :: "'c sha_libs \<Rightarrow> ArtifactManifest \<Rightarrow> u8 list \<Rightarrow> ManifestMismatch + unit" where
  "verify_remote_local_upload H manifest bytes =
     ArtifactManifest_verify manifest (of_nat (length bytes)) (digest (sl_sha256 H) bytes)"

text \<open>The body is absent when it cannot be read. The transaction that stores the bytes sees the
  database as the other tasks left it while the body arrived.\<close>

definition upload_for_tenant ::
  "'c sha_libs \<Rightarrow> TenantId \<Rightarrow> ArtifactId \<Rightarrow> u8 list option \<Rightarrow> (db \<Rightarrow> db) \<Rightarrow> clocks \<Rightarrow> db \<Rightarrow> response \<times> db" where
  "upload_for_tenant H t i body meanwhile clk d =
     (case load_settings t d of
        Err _ \<Rightarrow> (plain INTERNAL_SERVER_ERROR, d)
      | Ok config \<Rightarrow>
          (case get_artifact t i d of
             None \<Rightarrow> (plain NOT_FOUND, d)
           | Some row \<Rightarrow>
               if f_direction row \<noteq> Input \<or> f_placement row \<noteq> ArtifactPlacement.RemoteLocal
               then (plain NOT_FOUND, d)
               else if f_state row \<noteq> ArtifactState.Pending then (plain CONFLICT, d)
               else
                 let limit = min (am_size_bytes (row_manifest row)) (max_input_artifact_bytes config)
                 in case body of
                      None \<Rightarrow> (plain PAYLOAD_TOO_LARGE, d)
                    | Some bytes \<Rightarrow>
                        if unat limit < length bytes then (plain PAYLOAD_TOO_LARGE, d)
                        else case verify_remote_local_upload H (row_manifest row) bytes of
                          Err mismatch \<Rightarrow> ((plain BAD_REQUEST)\<lparr>rp_body := MismatchText mismatch\<rparr>, d)
                        | Ok _ \<Rightarrow>
                            (case set_remote_local_content t i bytes clk (meanwhile d) of
                               Ok (_, d') \<Rightarrow> (plain NO_CONTENT, d')
                             | Err ArtifactNotFound \<Rightarrow> (plain NOT_FOUND, meanwhile d)
                             | Err ArtifactConflict \<Rightarrow> (plain CONFLICT, meanwhile d)
                             | Err _ \<Rightarrow> (plain INTERNAL_SERVER_ERROR, meanwhile d))))"

definition upload_artifact ::
  "'c sha_libs \<Rightarrow> (string \<Rightarrow> u8 list) \<Rightarrow> string option \<Rightarrow> ArtifactId \<Rightarrow> u8 list option \<Rightarrow> (db \<Rightarrow> db) \<Rightarrow>
   clocks \<Rightarrow> db \<Rightarrow> response \<times> db" where
  "upload_artifact H hasher authorization i body meanwhile clk d =
     (case bearer_token authorization of
        None \<Rightarrow> (plain UNAUTHORIZED, d)
      | Some token \<Rightarrow>
          (case authenticate_master_key hasher token clk d of
             None \<Rightarrow> (plain UNAUTHORIZED, d)
           | Some t \<Rightarrow> upload_for_tenant H t i body meanwhile clk d))"

section \<open>The relay\<close>

datatype DeliveryChunk =
    Data "u8 list"
  | Complete
  | Failed string
  | Rejected string

datatype relay_event = Received DeliveryChunk | SubscriptionClosed

definition MAX_RESUME_ATTEMPTS :: u32 where
  "MAX_RESUME_ATTEMPTS = 5"

record delivery_world =
  dw_others :: "nat \<Rightarrow> remote \<Rightarrow> remote"
  dw_clk :: "nat \<Rightarrow> clocks"
  dw_rounds :: "nat \<Rightarrow> relay_event list"

record relay =
  rl_remote :: remote
  rl_subscribed :: "ArtifactId set"
  rl_body :: "body_item list"
  rl_accepts :: "nat option"
  rl_time :: nat

definition wait :: "delivery_world \<Rightarrow> relay \<Rightarrow> relay" where
  "wait W rl = rl\<lparr>rl_remote := dw_others W (rl_time rl) (rl_remote rl), rl_time := rl_time rl + 1\<rparr>"

definition relay_db :: "relay \<Rightarrow> db" where
  "relay_db rl = r_db (rl_remote rl)"

definition put_db :: "db \<Rightarrow> relay \<Rightarrow> relay" where
  "put_db d rl = rl\<lparr>rl_remote := (rl_remote rl)\<lparr>r_db := d\<rparr>\<rparr>"

text \<open>Sending a body item fails when the client is gone.\<close>

definition body_send :: "body_item \<Rightarrow> relay \<Rightarrow> bool \<times> relay" where
  "body_send item rl =
     (if (case rl_accepts rl of None \<Rightarrow> False | Some n \<Rightarrow> n \<le> length (rl_body rl)) then (False, rl)
      else (True, rl\<lparr>rl_body := rl_body rl @ [item]\<rparr>))"

definition subscribe_delivery :: "ArtifactId \<Rightarrow> relay \<Rightarrow> relay" where
  "subscribe_delivery i rl = rl\<lparr>rl_subscribed := insert i (rl_subscribed rl)\<rparr>"

definition end_delivery :: "ArtifactId \<Rightarrow> relay \<Rightarrow> relay" where
  "end_delivery i rl = rl\<lparr>rl_subscribed := rl_subscribed rl - {i}\<rparr>"

record DeliveryContext =
  dc_tenant :: TenantId
  dc_artifact :: ArtifactId
  dc_worker :: WorkerId
  dc_token :: string

definition deliver_request :: "text_libs \<Rightarrow> ArtifactId \<Rightarrow> string \<Rightarrow> u64 \<Rightarrow> RemoteMessage" where
  "deliver_request L i token offset = DeliverRequest (uuid_print L i) token offset"

definition discard_output_request :: "text_libs \<Rightarrow> ArtifactId \<Rightarrow> string \<Rightarrow> string \<Rightarrow> RemoteMessage" where
  "discard_output_request L i token reason = DiscardOutput (uuid_print L i) token reason"

definition worker_send :: "WorkerId \<Rightarrow> RemoteMessage \<Rightarrow> relay \<Rightarrow> SendOutcome \<times> relay" where
  "worker_send worker message rl =
     (case send worker message (r_sessions (rl_remote rl)) (r_chans (rl_remote rl)) of
        (outcome, chans) \<Rightarrow> (outcome, rl\<lparr>rl_remote := (rl_remote rl)\<lparr>r_chans := chans\<rparr>\<rparr>))"

definition mark_delivery_lost :: "delivery_world \<Rightarrow> TenantId \<Rightarrow> ArtifactId \<Rightarrow> relay \<Rightarrow> relay" where
  "mark_delivery_lost W t i rl =
     (let rl1 = wait W rl
      in case mark_lost t i (dw_clk W (rl_time rl1)) (relay_db rl1) of
           Err _ \<Rightarrow> rl1
         | Ok (_, d) \<Rightarrow> put_db d rl1)"

definition discard_and_expire :: "text_libs \<Rightarrow> delivery_world \<Rightarrow> DeliveryContext \<Rightarrow> string \<Rightarrow> relay \<Rightarrow> relay" where
  "discard_and_expire L W ctx reason rl =
     (let rl1 = snd (worker_send (dc_worker ctx)
                  (discard_output_request L (dc_artifact ctx) (dc_token ctx) reason)
                  (end_delivery (dc_artifact ctx) rl));
          rl2 = wait W rl1
      in case set_state (dc_tenant ctx) (dc_artifact ctx) ArtifactState.Expired (dw_clk W (rl_time rl2)) (relay_db rl2) of
           Err _ \<Rightarrow> rl2
         | Ok (_, d) \<Rightarrow> put_db d rl2)"

definition persist_delivery_offset :: "delivery_world \<Rightarrow> DeliveryContext \<Rightarrow> u64 \<Rightarrow> relay \<Rightarrow> bool \<times> relay" where
  "persist_delivery_offset W ctx offset rl =
     (let rl1 = wait W rl
      in case commit_offset (dc_tenant ctx) (dc_artifact ctx) offset (relay_db rl1) of
           Err _ \<Rightarrow> (False, rl1)
         | Ok (_, d) \<Rightarrow> (True, put_db d rl1))"

text \<open>The reason given to \<^verbatim>\<open>mark_delivery_lost\<close> is only logged.\<close>

definition fail_delivery :: "delivery_world \<Rightarrow> DeliveryContext \<Rightarrow> string \<Rightarrow> relay \<Rightarrow> relay" where
  "fail_delivery W ctx message rl =
     snd (body_send (Err message)
       (mark_delivery_lost W (dc_tenant ctx) (dc_artifact ctx) (end_delivery (dc_artifact ctx) rl)))"

definition resume_attempts_exhausted :: "u32 \<Rightarrow> bool" where
  "resume_attempts_exhausted attempts \<longleftrightarrow> MAX_RESUME_ATTEMPTS \<le> attempts"

text \<open>What is left of the resume budget: every retry takes one away.\<close>

definition resume_budget :: "u32 \<Rightarrow> nat" where
  "resume_budget attempts = (if attempts = - 1 then 6 else 5 - unat attempts)"

lemma resume_budget_decreases:
  assumes "\<not> resume_attempts_exhausted (attempts + 1)"
  shows "resume_budget (attempts + 1) < resume_budget attempts"
proof (cases "attempts = - 1")
  case False
  then have "unat (attempts + 1) = unat attempts + 1"
    by (metis Suc_eq_plus1 add.commute add_eq_0_iff unatSuc)
  moreover have "unat (attempts + 1) < 5"
    using assms by (simp add: resume_attempts_exhausted_def MAX_RESUME_ATTEMPTS_def word_le_nat_alt)
  moreover have "attempts + 1 \<noteq> - 1"
  proof
    assume last: "attempts + 1 = - 1"
    have "(- 1 :: u32) = 4294967295" by simp
    then have "unat (attempts + 1) = unat (4294967295 :: u32)" using last by (simp only:)
    then show False using calculation(2) by simp
  qed
  ultimately show ?thesis using False by (simp add: resume_budget_def)
qed (simp add: resume_budget_def)

datatype DeliveryRequestOutcome = Ready | Stop

function request_worker_delivery ::
  "text_libs \<Rightarrow> delivery_world \<Rightarrow> DeliveryContext \<Rightarrow> u64 \<Rightarrow> u32 \<Rightarrow> relay \<Rightarrow>
   DeliveryRequestOutcome \<times> u32 \<times> relay" where
  "request_worker_delivery L W ctx offset attempts rl =
     (case worker_send (dc_worker ctx) (deliver_request L (dc_artifact ctx) (dc_token ctx) offset) rl of
        (Delivered, rl1) \<Rightarrow> (Ready, attempts, rl1)
      | (Offline, rl1) \<Rightarrow>
          (Stop, attempts, fail_delivery W ctx ''producing worker went offline'' rl1)
      | (Backpressured, rl1) \<Rightarrow>
          if resume_attempts_exhausted (attempts + 1)
          then (Stop, attempts + 1,
                snd (body_send (Err ''producing worker is backpressured; the artifact was not delivered'')
                  (discard_and_expire L W ctx
                    ''producing worker's control channel stayed backpressured across the retry budget'' rl1)))
          else request_worker_delivery L W ctx offset (attempts + 1) (wait W rl1))"
  by pat_completeness auto
termination
  by (relation "measure (\<lambda>(_, _, _, _, attempts, _). resume_budget attempts)")
    (simp_all add: resume_budget_decreases)

declare request_worker_delivery.simps [simp del]

datatype ChunkDrainOutcome = Done | ResumeDelivery

record 'c stream_state =
  st_offset :: u64
  st_attempts :: u32
  st_hasher :: "'c Hasher"
  st_pending :: "u8 list option"
  st_relay :: relay

definition fail_stream :: "delivery_world \<Rightarrow> DeliveryContext \<Rightarrow> string \<Rightarrow> 'c stream_state \<Rightarrow> 'c stream_state" where
  "fail_stream W ctx message s = s\<lparr>st_relay := fail_delivery W ctx message (st_relay s)\<rparr>"

definition client_gone :: "text_libs \<Rightarrow> delivery_world \<Rightarrow> DeliveryContext \<Rightarrow> 'c stream_state \<Rightarrow> 'c stream_state" where
  "client_gone L W ctx s = s\<lparr>st_relay := discard_and_expire L W ctx ''client disconnected'' (st_relay s)\<rparr>"

text \<open>Relaying one body item and persisting the offset reached: absent when the relay goes on.\<close>

definition relay_bytes ::
  "text_libs \<Rightarrow> delivery_world \<Rightarrow> DeliveryContext \<Rightarrow> u8 list \<Rightarrow> 'c stream_state \<Rightarrow>
   ChunkDrainOutcome option \<times> 'c stream_state" where
  "relay_bytes L W ctx bytes s =
     (case body_send (Ok bytes) (st_relay s) of
        (False, _) \<Rightarrow> (Some Done, client_gone L W ctx s)
      | (True, rl) \<Rightarrow>
          (case persist_delivery_offset W ctx (st_offset s) rl of
             (False, rl1) \<Rightarrow>
               (Some Done, fail_stream W ctx ''failed to persist artifact delivery progress'' (s\<lparr>st_relay := rl1\<rparr>))
           | (True, rl1) \<Rightarrow> (None, s\<lparr>st_relay := rl1\<rparr>)))"

definition drain_data ::
  "'c sha_libs \<Rightarrow> text_libs \<Rightarrow> delivery_world \<Rightarrow> DeliveryContext \<Rightarrow> u64 \<Rightarrow> u8 list \<Rightarrow> 'c stream_state \<Rightarrow>
   ChunkDrainOutcome option \<times> 'c stream_state" where
  "drain_data H L W ctx expected_size bytes s =
     (if 2 ^ 64 \<le> unat (st_offset s) + length bytes
      then (Some Done, fail_stream W ctx ''artifact delivery offset overflowed'' s)
      else
        let next_offset = st_offset s + of_nat (length bytes)
        in if unat TRANSFER_CHUNK_BYTES < length bytes \<or> expected_size < next_offset
           then (Some Done, fail_stream W ctx ''worker sent an oversized artifact chunk'' s)
           else if bytes = [] then (None, s)
           else
             let s1 = s\<lparr>st_hasher := Hasher_update (sl_update H) (st_hasher s) bytes, st_offset := next_offset\<rparr>
             in if next_offset = expected_size then (None, s1\<lparr>st_pending := Some bytes\<rparr>)
                else relay_bytes L W ctx bytes s1)"

definition finish_relay :: "delivery_world \<Rightarrow> DeliveryContext \<Rightarrow> 'c stream_state \<Rightarrow> 'c stream_state" where
  "finish_relay W ctx s =
     (let rl = wait W (end_delivery (dc_artifact ctx) (st_relay s))
      in s\<lparr>st_relay :=
        (case mark_consumed (dc_tenant ctx) (dc_artifact ctx) (dw_clk W (rl_time rl)) (relay_db rl) of
           Err _ \<Rightarrow> rl
         | Ok (_, d) \<Rightarrow> put_db d rl)\<rparr>)"

definition drain_complete ::
  "'c sha_libs \<Rightarrow> text_libs \<Rightarrow> delivery_world \<Rightarrow> DeliveryContext \<Rightarrow> u64 \<Rightarrow> ContentHash \<Rightarrow> 'c stream_state \<Rightarrow>
   'c stream_state" where
  "drain_complete H L W ctx expected_size expected_digest s =
     (if st_offset s \<noteq> expected_size \<or> Hasher_finish (sl_finalize H) (st_hasher s) \<noteq> expected_digest
      then fail_stream W ctx ''artifact failed full-stream integrity verification'' s
      else
        case (if expected_size = 0 then body_send (Ok []) (st_relay s) else (True, st_relay s)) of
          (False, _) \<Rightarrow> client_gone L W ctx s
        | (True, rl) \<Rightarrow>
            let s1 = s\<lparr>st_hasher := Hasher_new (sl_new H), st_pending := None, st_relay := rl\<rparr>
            in case st_pending s of
                 None \<Rightarrow> finish_relay W ctx s1
               | Some bytes \<Rightarrow>
                   (case relay_bytes L W ctx bytes s1 of
                      (Some _, s2) \<Rightarrow> s2
                    | (None, s2) \<Rightarrow> finish_relay W ctx s2))"

text \<open>A broken stream: the subscription ends, and the budget decides between a new request and a
  lost Artifact.\<close>

definition drain_broken ::
  "delivery_world \<Rightarrow> DeliveryContext \<Rightarrow> string \<Rightarrow> 'c stream_state \<Rightarrow> ChunkDrainOutcome option \<times> 'c stream_state" where
  "drain_broken W ctx message s =
     (let s1 = s\<lparr>st_relay := end_delivery (dc_artifact ctx) (st_relay s), st_attempts := st_attempts s + 1\<rparr>
      in if resume_attempts_exhausted (st_attempts s1)
         then (Some Done, s1\<lparr>st_relay := snd (body_send (Err message)
                (mark_delivery_lost W (dc_tenant ctx) (dc_artifact ctx) (st_relay s1)))\<rparr>)
         else (Some ResumeDelivery, s1))"

fun drain_event ::
  "'c sha_libs \<Rightarrow> text_libs \<Rightarrow> delivery_world \<Rightarrow> DeliveryContext \<Rightarrow> u64 \<Rightarrow> ContentHash \<Rightarrow> relay_event \<Rightarrow>
   'c stream_state \<Rightarrow> ChunkDrainOutcome option \<times> 'c stream_state" where
  "drain_event H L W ctx expected_size expected_digest (Received (Data bytes)) s =
     drain_data H L W ctx expected_size bytes s"
| "drain_event H L W ctx expected_size expected_digest (Received Complete) s =
     (Some Done, drain_complete H L W ctx expected_size expected_digest s)"
| "drain_event H L W ctx expected_size expected_digest (Received (Failed reason)) s =
     drain_broken W ctx (''artifact delivery failed repeatedly: '' @ reason) s"
| "drain_event H L W ctx expected_size expected_digest (Received (Rejected reason)) s =
     (Some Done, fail_stream W ctx (''artifact delivery rejected: '' @ reason) s)"
| "drain_event H L W ctx expected_size expected_digest SubscriptionClosed s =
     drain_broken W ctx ''artifact delivery failed repeatedly'' s"

fun drain_worker_chunks ::
  "'c sha_libs \<Rightarrow> text_libs \<Rightarrow> delivery_world \<Rightarrow> DeliveryContext \<Rightarrow> u64 \<Rightarrow> ContentHash \<Rightarrow> relay_event list \<Rightarrow>
   'c stream_state \<Rightarrow> ChunkDrainOutcome \<times> 'c stream_state" where
  "drain_worker_chunks H L W ctx expected_size expected_digest [] s =
     (Done, fail_stream W ctx ''producing worker accepted delivery but sent nothing for too long''
        (s\<lparr>st_relay := wait W (st_relay s)\<rparr>))"
| "drain_worker_chunks H L W ctx expected_size expected_digest (e # es) s =
     (case drain_event H L W ctx expected_size expected_digest e (s\<lparr>st_relay := wait W (st_relay s)\<rparr>) of
        (Some outcome, s1) \<Rightarrow> (outcome, s1)
      | (None, s1) \<Rightarrow> drain_worker_chunks H L W ctx expected_size expected_digest es s1)"

text \<open>Every retry, of the request or of the stream, takes from one budget.\<close>

lemma request_budget:
  "request_worker_delivery L W ctx offset attempts rl = (outcome, attempts', rl') \<Longrightarrow>
   resume_budget attempts' \<le> resume_budget attempts \<or> outcome = Stop"
proof (induction L W ctx offset attempts rl rule: request_worker_delivery.induct)
  case (1 L W ctx offset attempts rl)
  note step = "1.prems" [unfolded request_worker_delivery.simps [of L W ctx offset attempts rl]]
  show ?case
  proof (cases "worker_send (dc_worker ctx) (deliver_request L (dc_artifact ctx) (dc_token ctx) offset) rl")
    case (Pair out rl1)
    then show ?thesis
      using step "1.IH" [OF Pair [symmetric]] resume_budget_decreases [of attempts]
      by (cases out) (auto split: if_splits)
  qed
qed

lemma relay_bytes_budget:
  "relay_bytes L W ctx bytes s = (outcome, s') \<Longrightarrow> st_attempts s' = st_attempts s \<and> outcome \<noteq> Some ResumeDelivery"
  by (auto simp: relay_bytes_def fail_stream_def client_gone_def split: prod.splits bool.splits)

lemma drain_event_budget:
  assumes "drain_event H L W ctx n dig e s = (outcome, s')"
  shows "outcome = None \<Longrightarrow> st_attempts s' = st_attempts s"
    "outcome = Some ResumeDelivery \<Longrightarrow> resume_budget (st_attempts s') < resume_budget (st_attempts s)"
proof -
  have data: "(outcome = None \<longrightarrow> st_attempts s' = st_attempts s) \<and> outcome \<noteq> Some ResumeDelivery"
    if "drain_data H L W ctx n bytes s = (outcome, s')" for bytes
    using that by (auto simp: drain_data_def Let_def dest!: relay_bytes_budget split: if_splits)
  have broken: "(outcome = None \<longrightarrow> st_attempts s' = st_attempts s) \<and>
      (outcome = Some ResumeDelivery \<longrightarrow> resume_budget (st_attempts s') < resume_budget (st_attempts s))"
    if "drain_broken W ctx message s = (outcome, s')" for message
    using that by (auto simp: drain_broken_def Let_def resume_budget_decreases split: if_splits)
  have "(outcome = None \<longrightarrow> st_attempts s' = st_attempts s) \<and>
      (outcome = Some ResumeDelivery \<longrightarrow> resume_budget (st_attempts s') < resume_budget (st_attempts s))"
    using assms data broken
    by (cases "(H, L, W, ctx, n, dig, e, s)" rule: drain_event.cases) auto
  then show "outcome = None \<Longrightarrow> st_attempts s' = st_attempts s"
    "outcome = Some ResumeDelivery \<Longrightarrow> resume_budget (st_attempts s') < resume_budget (st_attempts s)"
    by blast+
qed

lemma drain_budget:
  "drain_worker_chunks H L W ctx n dig es s = (ResumeDelivery, s') \<Longrightarrow>
   resume_budget (st_attempts s') < resume_budget (st_attempts s)"
proof (induction es arbitrary: s)
  case (Cons e es)
  obtain out s1 where ev: "drain_event H L W ctx n dig e (s\<lparr>st_relay := wait W (st_relay s)\<rparr>) = (out, s1)"
    by fastforce
  show ?case
  proof (cases out)
    case None
    then show ?thesis using Cons.IH [of s1] Cons.prems ev drain_event_budget(1) [OF ev] by simp
  next
    case (Some outcome)
    then show ?thesis using Cons.prems ev drain_event_budget(2) [OF ev] by simp
  qed
qed simp

function stream_rounds ::
  "'c sha_libs \<Rightarrow> text_libs \<Rightarrow> delivery_world \<Rightarrow> DeliveryContext \<Rightarrow> u64 \<Rightarrow> ContentHash \<Rightarrow> nat \<Rightarrow>
   'c stream_state \<Rightarrow> 'c stream_state" where
  "stream_rounds H L W ctx expected_size expected_digest k s =
     (case request_worker_delivery L W ctx (st_offset s) (st_attempts s)
             (subscribe_delivery (dc_artifact ctx) (st_relay s)) of
        (Stop, attempts, rl) \<Rightarrow> s\<lparr>st_attempts := attempts, st_relay := rl\<rparr>
      | (Ready, attempts, rl) \<Rightarrow>
          (case drain_worker_chunks H L W ctx expected_size expected_digest (dw_rounds W k)
                  (s\<lparr>st_attempts := attempts, st_relay := rl\<rparr>) of
             (Done, s1) \<Rightarrow> s1
           | (ResumeDelivery, s1) \<Rightarrow> stream_rounds H L W ctx expected_size expected_digest (k + 1) s1))"
  by pat_completeness auto
termination
proof (relation "measure (\<lambda>(_, _, _, _, _, _, _, s). resume_budget (st_attempts s))", simp, goal_cases)
  case (1 H L W ctx n dig k s outcome pair attempts rl round_outcome s1)
  then show ?case
    using request_budget [of L W ctx "st_offset s" "st_attempts s"
        "subscribe_delivery (dc_artifact ctx) (st_relay s)" Ready attempts rl]
      drain_budget [of H L W ctx n dig "dw_rounds W k" "s\<lparr>st_attempts := attempts, st_relay := rl\<rparr>" s1]
    by (cases outcome) auto
qed

declare stream_rounds.simps [simp del]

definition stream_worker_local ::
  "'c sha_libs \<Rightarrow> text_libs \<Rightarrow> delivery_world \<Rightarrow> TenantId \<Rightarrow> ArtifactId \<Rightarrow> WorkerId \<Rightarrow> string \<Rightarrow> u64 \<Rightarrow> u64 \<Rightarrow>
   ContentHash \<Rightarrow> relay \<Rightarrow> relay" where
  "stream_worker_local H L W t i worker token start_offset expected_size expected_digest rl =
     st_relay (stream_rounds H L W
       \<lparr>dc_tenant = t, dc_artifact = i, dc_worker = worker, dc_token = token\<rparr> expected_size expected_digest 0
       \<lparr>st_offset = start_offset, st_attempts = 0, st_hasher = Hasher_new (sl_new H), st_pending = None, st_relay = rl\<rparr>)"

section \<open>Downloads\<close>

datatype DownloadOutcome =
    DownloadNotFound | DownloadDeliver | DownloadRedirect | DownloadGone | DownloadConflict | DownloadWorkerOffline

definition classify_download :: "ArtifactRow option \<Rightarrow> bool \<Rightarrow> DownloadOutcome" where
  "classify_download row worker_online =
     (case row of
        None \<Rightarrow> DownloadNotFound
      | Some row \<Rightarrow>
          if f_direction row \<noteq> Output then DownloadNotFound
          else (case f_state row of
             ArtifactState.Consumed \<Rightarrow> DownloadGone
           | ArtifactState.Expired \<Rightarrow> DownloadGone
           | ArtifactState.Lost \<Rightarrow> DownloadGone
           | ArtifactState.Delivering \<Rightarrow> DownloadConflict
           | ArtifactState.Pending \<Rightarrow> DownloadNotFound
           | ArtifactState.Available \<Rightarrow>
               (case f_placement row of
                  ArtifactPlacement.WorkerLocal \<Rightarrow>
                    if worker_online then DownloadDeliver else DownloadWorkerOffline
                | ArtifactPlacement.ObjectStore \<Rightarrow> DownloadRedirect
                | ArtifactPlacement.RemoteLocal \<Rightarrow> DownloadNotFound)))"

text \<open>A header is set only when its text is a valid header value, which the \<^verbatim>\<open>http\<close> crate decides.
  A transaction that is not committed changes nothing.\<close>

definition refused_delivery :: "TenantId \<Rightarrow> ArtifactId \<Rightarrow> clocks \<Rightarrow> db \<Rightarrow> response" where
  "refused_delivery t i clk d = plain (if delivery_expired t i clk d then GONE else CONFLICT)"

definition redirect_to_object_store ::
  "services \<Rightarrow> (string \<Rightarrow> bool) \<Rightarrow> TenantId \<Rightarrow> ArtifactId \<Rightarrow> ArtifactRow \<Rightarrow> clocks \<Rightarrow> db \<Rightarrow> response \<times> db" where
  "redirect_to_object_store S header_ok t i row clk d =
     (case begin_delivery t i clk d of
        (False, d1) \<Rightarrow> (refused_delivery t i clk d1, d)
      | (True, d1) \<Rightarrow>
          (case f_object_key row of
             None \<Rightarrow> (plain INTERNAL_SERVER_ERROR, d)
           | Some object_key \<Rightarrow>
               (case sv_presign_get S object_key of
                  None \<Rightarrow> (plain INTERNAL_SERVER_ERROR, d)
                | Some url \<Rightarrow>
                    (case mark_consumed t i clk d1 of
                       Err _ \<Rightarrow> (plain INTERNAL_SERVER_ERROR, d)
                     | Ok (_, d2) \<Rightarrow>
                         ((plain FOUND)\<lparr>rp_location := (if header_ok url then Some url else None)\<rparr>, d2)))))"

text \<open>The body of an empty Artifact is read before the response is made: one empty item stands
  for the verified end.\<close>

definition verified_empty :: "body_item list \<Rightarrow> bool" where
  "verified_empty body \<longleftrightarrow> body \<noteq> [] \<and> list_all (\<lambda>item. item = Ok []) body"

definition deliver_worker_local ::
  "'c sha_libs \<Rightarrow> services \<Rightarrow> (string \<Rightarrow> bool) \<Rightarrow> delivery_world \<Rightarrow> nat option \<Rightarrow> TenantId \<Rightarrow> ArtifactId \<Rightarrow> ArtifactRow \<Rightarrow>
   clocks \<Rightarrow> remote \<Rightarrow> response \<times> remote" where
  "deliver_worker_local H S header_ok W accepts t i row clk r =
     (case f_worker row of
        None \<Rightarrow> (plain INTERNAL_SERVER_ERROR, r)
      | Some worker \<Rightarrow>
          (case begin_delivery t i clk (r_db r) of
             (False, d1) \<Rightarrow> (refused_delivery t i clk d1, r)
           | (True, d1) \<Rightarrow>
               let token = (case f_delivery_token row of None \<Rightarrow> [] | Some token \<Rightarrow> token);
                   manifest = row_manifest row;
                   rl = stream_worker_local H (sv_text S) W t i worker token (of_int (f_committed_offset row))
                     (am_size_bytes manifest) (am_digest manifest)
                     \<lparr>rl_remote = r\<lparr>r_db := d1\<rparr>, rl_subscribed = {}, rl_body = [], rl_accepts = accepts, rl_time = 0\<rparr>;
                   content_type = (if header_ok (am_mime_type manifest) then Some (am_mime_type manifest) else None)
               in (if am_size_bytes manifest = 0
                   then if verified_empty (rl_body rl)
                        then \<lparr>rp_status = OK, rp_location = None, rp_content_type = content_type,
                              rp_content_length = Some 0, rp_body = NoBody\<rparr>
                        else plain BAD_GATEWAY
                   else \<lparr>rp_status = OK, rp_location = None, rp_content_type = content_type,
                         rp_content_length = Some (am_size_bytes manifest), rp_body = Stream (rl_body rl)\<rparr>,
                   rl_remote rl)))"

definition download_for_tenant ::
  "'c sha_libs \<Rightarrow> services \<Rightarrow> (string \<Rightarrow> bool) \<Rightarrow> delivery_world \<Rightarrow> nat option \<Rightarrow> TenantId \<Rightarrow> ArtifactId \<Rightarrow>
   clocks \<Rightarrow> remote \<Rightarrow> response \<times> remote" where
  "download_for_tenant H S header_ok W accepts t i clk r =
     (let found = get_artifact t i (r_db r);
          worker_online = (case Option.bind found f_worker of
             None \<Rightarrow> False | Some worker \<Rightarrow> is_online worker (r_sessions r))
      in case (classify_download found worker_online, found) of
           (DownloadNotFound, _) \<Rightarrow> (plain NOT_FOUND, r)
         | (DownloadGone, _) \<Rightarrow> (plain GONE, r)
         | (DownloadConflict, _) \<Rightarrow> (plain CONFLICT, r)
         | (DownloadWorkerOffline, _) \<Rightarrow> (plain SERVICE_UNAVAILABLE, r)
         | (DownloadRedirect, None) \<Rightarrow> (plain NOT_FOUND, r)
         | (DownloadRedirect, Some row) \<Rightarrow>
             (case redirect_to_object_store S header_ok t i row clk (r_db r) of
                (response, d) \<Rightarrow> (response, r\<lparr>r_db := d\<rparr>))
         | (DownloadDeliver, None) \<Rightarrow> (plain NOT_FOUND, r)
         | (DownloadDeliver, Some row) \<Rightarrow> deliver_worker_local H S header_ok W accepts t i row clk r)"

definition download_artifact ::
  "'c sha_libs \<Rightarrow> services \<Rightarrow> (string \<Rightarrow> bool) \<Rightarrow> delivery_world \<Rightarrow> nat option \<Rightarrow> (string \<Rightarrow> u8 list) \<Rightarrow> string option \<Rightarrow>
   ArtifactId \<Rightarrow> clocks \<Rightarrow> remote \<Rightarrow> response \<times> remote" where
  "download_artifact H S header_ok W accepts hasher authorization i clk r =
     (case bearer_token authorization of
        None \<Rightarrow> (plain UNAUTHORIZED, r)
      | Some token \<Rightarrow>
          (case authenticate_master_key hasher token clk (r_db r) of
             None \<Rightarrow> (plain UNAUTHORIZED, r)
           | Some t \<Rightarrow> download_for_tenant H S header_ok W accepts t i clk r))"

section \<open>The contract with the store\<close>

lemma delivery_log [simp]:
  "db_events (snd (begin_delivery t i clk d)) = db_events d"
  by (simp add: begin_delivery_def Let_def)

lemma set_state_log: "set_state t i to clk d = Ok (row, d') \<Longrightarrow> db_events d' = db_events d"
  by (auto simp: set_state_def set_state_from_def Let_def rbind_eq_Ok split: option.splits if_splits)

lemma keeps_delivery [keeps_intros]:
  "keeps t d (snd (begin_delivery t i clk d))"
  "set_state t i to clk d = Ok (row, d') \<Longrightarrow> keeps t d d'"
  "commit_offset t i offset d = Ok (x, d') \<Longrightarrow> keeps t d d'"
  "mark_consumed t i clk d = Ok (x, d') \<Longrightarrow> keeps t d d'"
  "mark_lost t i clk d = Ok (x, d') \<Longrightarrow> keeps t d d'"
  "set_remote_local_content t i bytes clk d = Ok (row, d') \<Longrightarrow> keeps t d d'"
proof -
  show "keeps t d (snd (begin_delivery t i clk d))"
    by (rule keeps_log) (simp_all add: delivery_steps_sound(1))
  show set_state: "keeps t d d'" if "set_state t i to clk d = Ok (row, d')" for to row d'
    using set_state_sound [OF _ that] set_state_log [OF that] by (intro keeps_log) auto
  show "commit_offset t i offset d = Ok (x, d') \<Longrightarrow> keeps t d d'"
    using delivery_steps_sound(2) by (intro keeps_log) (auto simp: commit_offset_def split: if_splits)
  show "mark_consumed t i clk d = Ok (x, d') \<Longrightarrow> keeps t d d'" "mark_lost t i clk d = Ok (x, d') \<Longrightarrow> keeps t d d'"
    by (auto simp: mark_consumed_def mark_lost_def rbind_eq_Ok intro: set_state)
  show "set_remote_local_content t i bytes clk d = Ok (row, d') \<Longrightarrow> keeps t d d'"
    using delivery_steps_sound(4) by (intro keeps_log)
      (auto simp: set_remote_local_content_def Let_def split: if_splits option.splits)
qed

lemma keeps_upload [keeps_intros]:
  assumes "keeps t d (meanwhile d)"
  shows "keeps t d (snd (upload_for_tenant H t i body meanwhile clk d))"
proof -
  have stored: "keeps t d d'" if "set_remote_local_content t i bytes clk (meanwhile d) = Ok (row, d')" for bytes row d'
    using keeps_trans [OF assms keeps_delivery(6) [OF that]] .
  show ?thesis
    using assms by (auto simp: upload_for_tenant_def Let_def dest: stored
        split: sum.splits option.splits ArtifactStoreError.splits)
qed

lemma keeps_redirect [keeps_intros]:
  "keeps t d (snd (redirect_to_object_store S header_ok t i row clk d))"
  using keeps_delivery(1) [of t d i clk]
  by (auto simp: redirect_to_object_store_def intro: keeps_trans [OF _ keeps_delivery(4)]
      split: prod.splits bool.splits option.splits sum.splits)

interpretation delivery_op: tenant_op
  "\<lambda>t d d'. \<exists>S header_ok i row clk. d' = snd (redirect_to_object_store S header_ok t i row clk d)"
  by unfold_locales (auto intro: keeps_redirect)

interpretation upload_op: tenant_op
  "\<lambda>t d d'. \<exists>(H :: u8 list sha_libs) i body meanwhile clk. keeps t d (meanwhile d) \<and>
     d' = snd (upload_for_tenant H t i body meanwhile clk d)"
  by unfold_locales (auto intro: keeps_upload)

end
