(* ===== verification/Delivery_Safety.thy ===== *)
theory Delivery_Safety
  imports Delivery
begin

text \<open>
  The properties of the Artifact routes: an upload is stored only when it is the declared
  content, a download never leaves its Artifact in delivery, and the client receives a whole
  body only when it is the recorded content.
\<close>

section \<open>An Artifact in delivery\<close>

definition tracked :: "TenantId \<Rightarrow> ArtifactId \<Rightarrow> db \<Rightarrow> bool" where
  "tracked t i d \<longleftrightarrow> good d \<and>
     (\<exists>f. get_artifact t i d = Some f \<and> f_state f \<notin> {ArtifactState.Pending, ArtifactState.Available})"

definition settled :: "TenantId \<Rightarrow> ArtifactId \<Rightarrow> db \<Rightarrow> bool" where
  "settled t i d \<longleftrightarrow> good d \<and> (\<exists>f. get_artifact t i d = Some f \<and> ArtifactState_is_terminal (f_state f))"

text \<open>The other tasks keep the store well formed, keep the row, and move it along its lifecycle.\<close>

definition runs_beside :: "delivery_world \<Rightarrow> TenantId \<Rightarrow> ArtifactId \<Rightarrow> bool" where
  "runs_beside W t i \<longleftrightarrow>
     (\<forall>k r f. good (r_db r) \<and> get_artifact t i (r_db r) = Some f \<longrightarrow>
        good (r_db (dw_others W k r)) \<and>
        (\<exists>f'. get_artifact t i (r_db (dw_others W k r)) = Some f' \<and> art_step f f'))"

lemma past_delivery:
  "ArtifactState_can_transition_to\<^sup>*\<^sup>* s s' \<Longrightarrow> s \<notin> {ArtifactState.Pending, ArtifactState.Available} \<Longrightarrow>
   s' \<notin> {ArtifactState.Pending, ArtifactState.Available}"
proof (induction rule: rtranclp_induct)
  case (step y z)
  then show ?case by (cases y) auto
qed

lemma wait_tracked:
  assumes "runs_beside W t i" "tracked t i (relay_db rl)"
  shows "tracked t i (relay_db (wait W rl))"
proof -
  obtain f where f: "good (relay_db rl)" "get_artifact t i (relay_db rl) = Some f"
    "f_state f \<notin> {ArtifactState.Pending, ArtifactState.Available}"
    using assms(2) unfolding tracked_def by blast
  then obtain f' where "good (relay_db (wait W rl))" "get_artifact t i (relay_db (wait W rl)) = Some f'" "art_step f f'"
    using assms(1) unfolding runs_beside_def relay_db_def wait_def by fastforce
  then show ?thesis using past_delivery [OF _ f(3)] unfolding tracked_def art_step_def by blast
qed

text \<open>Moving a tracked Artifact to a terminal state succeeds or finds it settled already.\<close>

lemma set_state_settles:
  assumes "tracked t i d" "ArtifactState_can_transition_to ArtifactState.Delivering to" "ArtifactState_is_terminal to"
  shows "settled t i (case set_state t i to clk d of Err _ \<Rightarrow> d | Ok (_, d') \<Rightarrow> d')"
proof -
  obtain f where f: "good d" "get_artifact t i d = Some f"
    "f_state f \<notin> {ArtifactState.Pending, ArtifactState.Available}"
    using assms(1) unfolding tracked_def by blast
  show ?thesis
  proof (cases "f_state f = ArtifactState.Delivering")
    case True
    then obtain r d' where ok: "set_state t i to clk d = Ok (r, d')" "get_artifact t i d' = Some r" "f_state r = to"
      using set_state_edge [OF goodD(1) [OF f(1)] f(2)] assms(2) by metis
    then show ?thesis using keeps_good [OF keeps_delivery(2) [OF ok(1)] f(1)] assms(3) by (simp add: settled_def)
  next
    case False
    then have "settled t i d" using f by (cases "f_state f") (auto simp: settled_def ArtifactState_is_terminal_def)
    moreover have "\<not> ArtifactState_can_transition_to (f_state f) to" using False f(3) by (cases "f_state f") auto
    ultimately show ?thesis using f(2) by (simp add: set_state_def ArtifactState_transition_def)
  qed
qed

lemma relay_frame [simp]:
  "relay_db (end_delivery i rl) = relay_db rl" "relay_db (subscribe_delivery i rl) = relay_db rl"
  "relay_db (snd (body_send item rl)) = relay_db rl" "relay_db (snd (worker_send w m rl)) = relay_db rl"
  "relay_db (put_db d rl) = d" "rl_subscribed (put_db d rl) = rl_subscribed rl"
  "rl_subscribed (wait W rl) = rl_subscribed rl" "rl_subscribed (end_delivery i rl) = rl_subscribed rl - {i}"
  "rl_subscribed (snd (body_send item rl)) = rl_subscribed rl"
  "rl_subscribed (snd (worker_send w m rl)) = rl_subscribed rl"
  by (simp_all add: relay_db_def end_delivery_def subscribe_delivery_def body_send_def worker_send_def
      put_db_def wait_def split: prod.splits option.splits)

lemma relay_sent:
  "body_send item rl = (sent, rl') \<Longrightarrow> relay_db rl' = relay_db rl"
  "worker_send w m rl = (outcome, rl') \<Longrightarrow> relay_db rl' = relay_db rl"
  using relay_frame(3) [of item rl] relay_frame(4) [of w m rl] by simp_all

definition closed :: "DeliveryContext \<Rightarrow> relay \<Rightarrow> bool" where
  "closed ctx rl \<longleftrightarrow> settled (dc_tenant ctx) (dc_artifact ctx) (relay_db rl) \<and> dc_artifact ctx \<notin> rl_subscribed rl"

abbreviation in_flight :: "DeliveryContext \<Rightarrow> relay \<Rightarrow> bool" where
  "in_flight ctx rl \<equiv> tracked (dc_tenant ctx) (dc_artifact ctx) (relay_db rl)"

lemma closed_put:
  "closed ctx (case x of Err _ \<Rightarrow> rl | Ok (_, d) \<Rightarrow> put_db d rl) \<longleftrightarrow>
   settled (dc_tenant ctx) (dc_artifact ctx) (case x of Err _ \<Rightarrow> relay_db rl | Ok (_, d) \<Rightarrow> d) \<and>
   dc_artifact ctx \<notin> rl_subscribed rl"
  by (auto simp: closed_def split: sum.splits)

lemma mark_cases:
  "(case mark_lost t i clk d of Err _ \<Rightarrow> a | Ok (_, d') \<Rightarrow> d') =
   (case set_state t i ArtifactState.Lost clk d of Err _ \<Rightarrow> a | Ok (_, d') \<Rightarrow> d')"
  "(case mark_consumed t i clk d of Err _ \<Rightarrow> a | Ok (_, d') \<Rightarrow> d') =
   (case set_state t i ArtifactState.Consumed clk d of Err _ \<Rightarrow> a | Ok (_, d') \<Rightarrow> d')"
  by (auto simp: mark_lost_def mark_consumed_def rbind_def split: sum.splits)

lemma lost_closed:
  assumes "runs_beside W (dc_tenant ctx) (dc_artifact ctx)" "in_flight ctx rl" "dc_artifact ctx \<notin> rl_subscribed rl"
  shows "closed ctx (mark_delivery_lost W (dc_tenant ctx) (dc_artifact ctx) rl)"
  unfolding mark_delivery_lost_def Let_def closed_put mark_cases
  using set_state_settles [OF wait_tracked [OF assms(1,2)], of ArtifactState.Lost] assms(3)
  by (simp add: ArtifactState_is_terminal_def)

lemma closed_body_send [simp]: "closed ctx (snd (body_send item rl)) \<longleftrightarrow> closed ctx rl"
  by (simp add: closed_def)

lemma ends_closed:
  assumes "runs_beside W (dc_tenant ctx) (dc_artifact ctx)" "in_flight ctx rl"
  shows "closed ctx (fail_delivery W ctx message rl)" "closed ctx (discard_and_expire L W ctx reason rl)"
    "in_flight ctx (st_relay s) \<Longrightarrow> closed ctx (st_relay (finish_relay W ctx s))"
proof -
  show "closed ctx (fail_delivery W ctx message rl)"
    unfolding fail_delivery_def closed_body_send by (rule lost_closed) (simp_all add: assms)
  let ?rl = "snd (worker_send (dc_worker ctx) (discard_output_request L (dc_artifact ctx) (dc_token ctx) reason)
      (end_delivery (dc_artifact ctx) rl))"
  have "in_flight ctx (wait W ?rl)" by (rule wait_tracked [OF assms(1)]) (simp add: assms(2))
  from set_state_settles [OF this, of ArtifactState.Expired]
  show "closed ctx (discard_and_expire L W ctx reason rl)"
    unfolding discard_and_expire_def Let_def closed_put by (simp add: ArtifactState_is_terminal_def)
  let ?rl = "end_delivery (dc_artifact ctx) (st_relay s)"
  assume "in_flight ctx (st_relay s)"
  then have "in_flight ctx (wait W ?rl)" by (intro wait_tracked [OF assms(1)]) simp
  from set_state_settles [OF this, of ArtifactState.Consumed]
  show "closed ctx (st_relay (finish_relay W ctx s))"
    by (simp add: finish_relay_def Let_def closed_put mark_cases ArtifactState_is_terminal_def)
qed

lemma persist_tracked:
  assumes "runs_beside W (dc_tenant ctx) (dc_artifact ctx)" "in_flight ctx rl"
  shows "in_flight ctx (snd (persist_delivery_offset W ctx offset rl))"
proof (cases "commit_offset (dc_tenant ctx) (dc_artifact ctx) offset (relay_db (wait W rl))")
  case (Inl e)
  then show ?thesis using wait_tracked [OF assms] by (simp add: persist_delivery_offset_def Let_def)
next
  case (Inr out)
  then have ok: "commit_offset (dc_tenant ctx) (dc_artifact ctx) offset (relay_db (wait W rl)) = Ok ((), snd out)"
    by (cases out) simp
  have "good (relay_db (wait W rl))" using wait_tracked [OF assms] by (simp add: tracked_def)
  then have "good (snd out)" by (rule keeps_good [OF keeps_delivery(3) [OF ok]])
  moreover have "get_artifact (dc_tenant ctx) (dc_artifact ctx) (snd out) = map_option
      (\<lambda>f. if f_state f = ArtifactState.Delivering then f\<lparr>f_committed_offset := max (f_committed_offset f) (uint offset)\<rparr>
           else f) (get_artifact (dc_tenant ctx) (dc_artifact ctx) (relay_db (wait W rl)))"
    using ok committed_offset_monotone [of "dc_tenant ctx" "dc_artifact ctx" offset "relay_db (wait W rl)"] by simp
  ultimately show ?thesis
    using wait_tracked [OF assms] Inr by (auto simp: persist_delivery_offset_def Let_def tracked_def split: prod.splits)
qed

lemma relay_bytes_closed:
  assumes "runs_beside W (dc_tenant ctx) (dc_artifact ctx)" "in_flight ctx (st_relay s)"
    "relay_bytes L W ctx bytes s = (outcome, s')"
  shows "outcome = None \<and> in_flight ctx (st_relay s') \<or> outcome = Some Done \<and> closed ctx (st_relay s')"
proof -
  obtain sent rl where sent: "body_send (Ok bytes) (st_relay s) = (sent, rl)" by fastforce
  have "in_flight ctx rl" using assms(2) sent by (simp add: relay_sent)
  note persisted = persist_tracked [OF assms(1) this, of "st_offset s"]
  show ?thesis
    using assms(3) sent persisted ends_closed(2) [OF assms(1,2)] ends_closed(1) [OF assms(1) persisted]
    by (auto simp: relay_bytes_def client_gone_def fail_stream_def split: prod.splits bool.splits)
qed

lemma drain_complete_closed:
  assumes "runs_beside W (dc_tenant ctx) (dc_artifact ctx)" "in_flight ctx (st_relay s)"
  shows "closed ctx (st_relay (drain_complete H L W ctx n dig s))"
proof (cases "st_offset s \<noteq> n \<or> Hasher_finish (sl_finalize H) (st_hasher s) \<noteq> dig")
  case True
  then show ?thesis using ends_closed(1) [OF assms] by (auto simp: drain_complete_def fail_stream_def)
next
  case False
  obtain sent rl where sent: "(if n = 0 then body_send (Ok []) (st_relay s) else (True, st_relay s)) = (sent, rl)"
    by fastforce
  have "in_flight ctx rl"
    using assms(2) sent by (auto simp: relay_sent split: if_splits)
  then have rl: "in_flight ctx (st_relay (s\<lparr>st_hasher := h, st_pending := None, st_relay := rl\<rparr>))" for h by simp
  note bytes = relay_bytes_closed [OF assms(1) rl]
  show ?thesis
  proof (cases "sent \<and> st_pending s \<noteq> None")
    case True
    then obtain b where b: "st_pending s = Some b" "sent" by auto
    let ?s1 = "s\<lparr>st_hasher := Hasher_new (sl_new H), st_pending := None, st_relay := rl\<rparr>"
    obtain outcome s2 where s2: "relay_bytes L W ctx b ?s1 = (outcome, s2)" by fastforce
    have "drain_complete H L W ctx n dig s = (if outcome = None then finish_relay W ctx s2 else s2)"
      using False sent b s2 by (auto simp: drain_complete_def Let_def split: option.splits)
    then show ?thesis using bytes [OF s2] ends_closed(3) [OF assms, of s2] by (auto split: if_splits)
  next
    case no: False
    show ?thesis
    proof (cases sent)
      case True
      then have "drain_complete H L W ctx n dig s =
          finish_relay W ctx (s\<lparr>st_hasher := Hasher_new (sl_new H), st_pending := None, st_relay := rl\<rparr>)"
        using False sent no by (simp add: drain_complete_def Let_def)
      then show ?thesis using ends_closed(3) [OF assms rl] by simp
    next
      case False
      then have "drain_complete H L W ctx n dig s = client_gone L W ctx s"
        using \<open>\<not> (st_offset s \<noteq> n \<or> _)\<close> sent by (simp add: drain_complete_def)
      then show ?thesis using ends_closed(2) [OF assms] by (simp add: client_gone_def)
    qed
  qed
qed

lemma drain_event_closed:
  assumes "runs_beside W (dc_tenant ctx) (dc_artifact ctx)" "in_flight ctx (st_relay s)"
    "drain_event H L W ctx n dig e s = (outcome, s')"
  shows "if outcome = Some Done then closed ctx (st_relay s') else in_flight ctx (st_relay s')"
proof -
  note failed = ends_closed(1) [OF assms(1,2)] and gone = ends_closed(2) [OF assms(1,2)]
  have data: ?thesis if "drain_data H L W ctx n bytes s = (outcome, s')" for bytes
    using that assms(2) failed
    by (auto simp: drain_data_def Let_def fail_stream_def
        dest!: relay_bytes_closed [OF assms(1), rotated] split: if_splits)
  have complete: "closed ctx (st_relay (drain_complete H L W ctx n dig s))"
    by (rule drain_complete_closed [OF assms(1,2)])
  have broken: ?thesis if "drain_broken W ctx message s = (outcome, s')" for message
    using that assms(2) lost_closed [OF assms(1), of "end_delivery (dc_artifact ctx) (st_relay s)"]
    by (auto simp: drain_broken_def Let_def split: if_splits)
  show ?thesis
    using assms(3) data complete broken failed
    by (cases "(H, L, W, ctx, n, dig, e, s)" rule: drain_event.cases) (auto simp: fail_stream_def)
qed

lemma drain_closed:
  assumes "runs_beside W (dc_tenant ctx) (dc_artifact ctx)" "in_flight ctx (st_relay s)"
    "drain_worker_chunks H L W ctx n dig es s = (outcome, s')"
  shows "if outcome = Done then closed ctx (st_relay s') else in_flight ctx (st_relay s')"
  using assms(2,3)
proof (induction es arbitrary: s)
  case Nil
  then have "in_flight ctx (wait W (st_relay s))" using wait_tracked [OF assms(1)] by blast
  then show ?case using Nil.prems ends_closed(1) [OF assms(1)] by (auto simp: fail_stream_def)
next
  case (Cons e es)
  let ?s = "s\<lparr>st_relay := wait W (st_relay s)\<rparr>"
  obtain out s1 where ev: "drain_event H L W ctx n dig e ?s = (out, s1)" by fastforce
  have "in_flight ctx (st_relay ?s)" using wait_tracked [OF assms(1)] Cons.prems(1) by simp
  from drain_event_closed [OF assms(1) this ev] show ?case
    using Cons.IH [of s1] Cons.prems(2) ev by (cases out) (auto split: if_splits)
qed

lemma request_closed:
  "request_worker_delivery L W ctx offset attempts rl = (outcome, attempts', rl') \<Longrightarrow>
   runs_beside W (dc_tenant ctx) (dc_artifact ctx) \<Longrightarrow> in_flight ctx rl \<Longrightarrow>
   if outcome = Stop then closed ctx rl' else in_flight ctx rl'"
proof (induction L W ctx offset attempts rl rule: request_worker_delivery.induct)
  case (1 L W ctx offset attempts rl)
  obtain out rl1 where sent: "worker_send (dc_worker ctx)
      (deliver_request L (dc_artifact ctx) (dc_token ctx) offset) rl = (out, rl1)" by fastforce
  then have rl1: "in_flight ctx rl1" using "1.prems"(3) by (simp add: relay_sent)
  note step = "1.prems"(1) [unfolded request_worker_delivery.simps [of L W ctx offset attempts rl] sent prod.case]
  show ?case
  proof (cases out)
    case Backpressured
    then show ?thesis
      using step "1.IH" [OF sent [symmetric] Backpressured] wait_tracked [OF "1.prems"(2) rl1] "1.prems"(2)
        ends_closed(2) [OF "1.prems"(2) rl1]
      by (auto split: if_splits)
  qed (use step rl1 ends_closed(1) [OF "1.prems"(2) rl1] in auto)
qed

lemma stream_closed:
  "runs_beside W (dc_tenant ctx) (dc_artifact ctx) \<Longrightarrow> in_flight ctx (st_relay s) \<Longrightarrow>
   closed ctx (st_relay (stream_rounds H L W ctx n dig k s))"
proof (induction H L W ctx n dig k s rule: stream_rounds.induct)
  case (1 H L W ctx n dig k s)
  obtain out attempts rl where req: "request_worker_delivery L W ctx (st_offset s) (st_attempts s)
      (subscribe_delivery (dc_artifact ctx) (st_relay s)) = (out, attempts, rl)" by (metis prod_cases3)
  have asked: "if out = Stop then closed ctx rl else in_flight ctx rl"
    by (rule request_closed [OF req "1.prems"(1)]) (simp add: "1.prems"(2))
  note eq = stream_rounds.simps [of H L W ctx n dig k s, unfolded req prod.case]
  show ?case
  proof (cases out)
    case Stop
    then show ?thesis using asked by (simp add: eq)
  next
    case Ready
    obtain outcome s1 where drained: "drain_worker_chunks H L W ctx n dig (dw_rounds W k)
        (s\<lparr>st_attempts := attempts, st_relay := rl\<rparr>) = (outcome, s1)" by fastforce
    have "if outcome = Done then closed ctx (st_relay s1) else in_flight ctx (st_relay s1)"
      using drain_closed [OF "1.prems"(1) _ drained] asked Ready by simp
    then show ?thesis
      using "1.IH" [OF req [symmetric] Ready refl drained [symmetric]] "1.prems"(1) Ready drained
      by (cases outcome) (auto simp: eq)
  qed
qed

lemma begun_delivery:
  assumes "good d" "begin_delivery t i clk d = (True, d1)"
  shows "good d1" "\<exists>f. get_artifact t i d = Some f \<and> get_artifact t i d1 = Some (f\<lparr>f_state := ArtifactState.Delivering\<rparr>)"
proof -
  show "good d1" using keeps_good [OF keeps_delivery(1) assms(1)] assms(2) by (metis snd_conv)
  let ?Q = "\<lambda>f. f_state f = ArtifactState.Available \<and> unexpired clk f"
  obtain f where f: "get_artifact t i d = Some f" "?Q f"
    using assms artifact_affected(1) [OF goodD(1) [OF assms(1)], of t i ?Q] by (auto simp: begin_delivery_def)
  then have "get_artifact t i d1 = Some (f\<lparr>f_state := ArtifactState.Delivering\<rparr>)"
    using get_artifact_update [of "\<lambda>f. fkey f = (t, i) \<and> ?Q f" "\<lambda>f. f\<lparr>f_state := ArtifactState.Delivering\<rparr>" t i d]
      get_artifact_key [OF f(1)] assms(2)
    by (auto simp: begin_delivery_def Let_def fkey_def)
  then show "\<exists>f. get_artifact t i d = Some f \<and> get_artifact t i d1 = Some (f\<lparr>f_state := ArtifactState.Delivering\<rparr>)"
    using f by blast
qed

lemma begun_tracked: "good d \<Longrightarrow> begin_delivery t i clk d = (True, d1) \<Longrightarrow> tracked t i d1"
  using begun_delivery [of d t i clk d1] by (auto simp: tracked_def)

lemma redirect_settles:
  assumes "good d" "redirect_to_object_store S header_ok t i row clk d = (response, d')"
  shows "d' = d \<and> rp_status response \<noteq> FOUND \<or>
    good d' \<and> (\<exists>f'. get_artifact t i d' = Some f' \<and> f_state f' = ArtifactState.Consumed)"
proof (cases "begin_delivery t i clk d")
  case (Pair begun d1)
  show ?thesis
  proof (cases begun)
    case True
    then have "begin_delivery t i clk d = (True, d1)" using Pair by simp
    note begun = begun_delivery [OF assms(1) this]
    then obtain r d2 where ok: "set_state t i ArtifactState.Consumed clk d1 = Ok (r, d2)"
      "get_artifact t i d2 = Some r" "f_state r = ArtifactState.Consumed"
      using set_state_edge [OF goodD(1) [OF begun(1)], of t i _ ArtifactState.Consumed clk] by fastforce
    have "good d2" by (rule keeps_good [OF keeps_delivery(2) [OF ok(1)] begun(1)])
    then show ?thesis
      using assms(2) ok Pair True
      by (auto simp: redirect_to_object_store_def mark_consumed_def plain_def split: option.splits)
  qed (use assms(2) Pair in \<open>auto simp: redirect_to_object_store_def refused_delivery_def plain_def split: if_splits\<close>)
qed

lemma deliver_settles:
  assumes "runs_beside W t i" "good (r_db r)" "deliver_worker_local H S header_ok W accepts t i row clk r = (response, r')"
  shows "r' = r \<or> settled t i (r_db r')"
proof (cases "begin_delivery t i clk (r_db r)")
  case (Pair begun d1)
  show ?thesis
  proof (cases "begun \<and> f_worker row \<noteq> None")
    case True
    then obtain worker where worker: "f_worker row = Some worker" by auto
    define token where "token = (case f_delivery_token row of None \<Rightarrow> [] | Some token \<Rightarrow> token)"
    define ctx where "ctx = \<lparr>dc_tenant = t, dc_artifact = i, dc_worker = worker, dc_token = token\<rparr>"
    define s where "s = \<lparr>st_offset = of_int (f_committed_offset row), st_attempts = 0, st_hasher = Hasher_new (sl_new H),
      st_pending = None, st_relay = \<lparr>rl_remote = r\<lparr>r_db := d1\<rparr>, rl_subscribed = {}, rl_body = [],
      rl_accepts = accepts, rl_time = 0\<rparr>\<rparr>"
    have "in_flight ctx (st_relay s)"
      using begun_tracked [OF assms(2)] Pair True by (simp add: s_def ctx_def relay_db_def)
    then have "closed ctx (st_relay (stream_rounds H (sv_text S) W ctx (am_size_bytes (row_manifest row))
        (am_digest (row_manifest row)) 0 s))"
      using assms(1) by (intro stream_closed) (simp add: ctx_def)
    moreover have "r' = rl_remote (st_relay (stream_rounds H (sv_text S) W ctx (am_size_bytes (row_manifest row))
        (am_digest (row_manifest row)) 0 s))"
      using assms(3) True worker Pair
      by (simp add: deliver_worker_local_def stream_worker_local_def Let_def s_def ctx_def token_def)
    ultimately show ?thesis by (simp add: closed_def relay_db_def ctx_def)
  qed (use assms(3) Pair in \<open>auto simp: deliver_worker_local_def split: option.splits\<close>)
qed

section \<open>What the client receives\<close>

definition body_bytes :: "body_item list \<Rightarrow> u8 list" where
  "body_bytes body = concat (map (case_sum (\<lambda>_. []) id) body)"

lemma body_bytes_simps [simp]:
  "body_bytes [] = []" "body_bytes (body @ body') = body_bytes body @ body_bytes body'"
  "body_bytes (Err m # body) = body_bytes body" "body_bytes (Ok b # body) = b @ body_bytes body"
  by (simp_all add: body_bytes_def)

text \<open>The body of a finished relay: never longer than the Artifact; whole only when its bytes have
  the recorded digest; and without an error item only when it is whole or the client left.\<close>

definition faithful_body :: "'c sha_libs \<Rightarrow> u64 \<Rightarrow> ContentHash \<Rightarrow> relay \<Rightarrow> bool" where
  "faithful_body H n dig rl \<longleftrightarrow>
     (let b = body_bytes (rl_body rl) in
        length b \<le> unat n \<and>
        (length b = unat n \<and> (n = 0 \<longrightarrow> Ok [] \<in> set (rl_body rl)) \<longrightarrow> digest (sl_sha256 H) b = dig) \<and>
        (rl_accepts rl = None \<and> (\<forall>m. Err m \<notin> set (rl_body rl)) \<longrightarrow>
           length b = unat n \<and> (n = 0 \<longrightarrow> Ok [] \<in> set (rl_body rl))))"

definition relaying :: "'c sha_libs \<Rightarrow> u64 \<Rightarrow> 'c stream_state \<Rightarrow> bool" where
  "relaying H n s \<longleftrightarrow>
     (\<exists>chunks. st_hasher s = foldl (Hasher_update (sl_update H)) (Hasher_new (sl_new H)) chunks \<and>
        concat chunks = body_bytes (rl_body (st_relay s)) @ (case st_pending s of None \<Rightarrow> [] | Some b \<Rightarrow> b) \<and>
        length (concat chunks) = unat (st_offset s)) \<and>
     st_offset s \<le> n \<and> st_pending s \<noteq> Some [] \<and>
     (st_pending s = None \<longrightarrow> n = 0 \<or> st_offset s < n) \<and> (st_pending s \<noteq> None \<longrightarrow> st_offset s = n) \<and>
     (n = 0 \<longrightarrow> rl_body (st_relay s) = [])"

lemma body_frame [simp]:
  "rl_body (wait W rl) = rl_body rl" "rl_body (put_db d rl) = rl_body rl" "rl_body (end_delivery i rl) = rl_body rl"
  "rl_body (subscribe_delivery i rl) = rl_body rl" "rl_body (snd (worker_send w m rl)) = rl_body rl"
  "rl_body (mark_delivery_lost W t i rl) = rl_body rl" "rl_body (discard_and_expire L W ctx reason rl) = rl_body rl"
  "rl_body (snd (persist_delivery_offset W ctx offset rl)) = rl_body rl"
  "rl_accepts (wait W rl) = rl_accepts rl" "rl_accepts (put_db d rl) = rl_accepts rl"
  "rl_accepts (end_delivery i rl) = rl_accepts rl" "rl_accepts (subscribe_delivery i rl) = rl_accepts rl"
  "rl_accepts (snd (worker_send w m rl)) = rl_accepts rl"
  "rl_accepts (mark_delivery_lost W t i rl) = rl_accepts rl"
  "rl_accepts (discard_and_expire L W ctx reason rl) = rl_accepts rl"
  "rl_accepts (snd (persist_delivery_offset W ctx offset rl)) = rl_accepts rl"
  "rl_accepts (snd (body_send item rl)) = rl_accepts rl"
  by (simp_all add: wait_def put_db_def end_delivery_def subscribe_delivery_def worker_send_def
      mark_delivery_lost_def discard_and_expire_def persist_delivery_offset_def body_send_def Let_def
      split: prod.splits sum.splits option.splits)

lemma sent_body:
  "body_send item rl = (sent, rl') \<Longrightarrow> rl_body rl' = (if sent then rl_body rl @ [item] else rl_body rl) \<and>
     rl_accepts rl' = rl_accepts rl \<and> (sent \<or> rl_accepts rl \<noteq> None)"
  by (auto simp: body_send_def split: if_splits option.splits)

text \<open>A body that is not whole and ends with an error, or whose client left.\<close>

definition cut_short :: "u64 \<Rightarrow> relay \<Rightarrow> bool" where
  "cut_short n rl \<longleftrightarrow>
     (length (body_bytes (rl_body rl)) < unat n \<or> n = 0 \<and> body_bytes (rl_body rl) = [] \<and> Ok [] \<notin> set (rl_body rl)) \<and>
     (rl_accepts rl \<noteq> None \<or> (\<exists>m. Err m \<in> set (rl_body rl)))"

lemma cut_short_faithful: "cut_short n rl \<Longrightarrow> faithful_body H n dig rl"
  by (auto simp: cut_short_def faithful_body_def Let_def)

lemma relaying_short:
  assumes "relaying H n s"
  shows "length (body_bytes (rl_body (st_relay s))) < unat n \<or> n = 0 \<and> rl_body (st_relay s) = []"
proof (cases "st_pending s")
  case None
  then show ?thesis using assms by (auto simp: relaying_def word_less_nat_alt)
next
  case (Some b)
  obtain chunks where "concat chunks = body_bytes (rl_body (st_relay s)) @ b" "length (concat chunks) = unat (st_offset s)"
    using assms Some by (auto simp: relaying_def)
  moreover have "b \<noteq> []" "st_offset s = n" using assms Some by (auto simp: relaying_def)
  ultimately have "length (body_bytes (rl_body (st_relay s))) < unat n" by (cases b) auto
  then show ?thesis ..
qed

lemma cut_short_ends:
  assumes "length (body_bytes (rl_body rl)) < unat n \<or> n = 0 \<and> rl_body rl = []"
  shows "cut_short n (snd (body_send (Err m) rl))" "rl_accepts rl \<noteq> None \<Longrightarrow> cut_short n rl"
    "cut_short n (fail_delivery W ctx m rl)"
proof -
  have send: "cut_short n (snd (body_send (Err m) rl'))"
    if "rl_body rl' = rl_body rl" for rl' :: relay
    using assms that sent_body [of "Err m" rl' "fst (body_send (Err m) rl')" "snd (body_send (Err m) rl')"]
    by (auto simp: cut_short_def split: if_splits)
  show "cut_short n (snd (body_send (Err m) rl))" by (rule send) simp
  show "cut_short n (fail_delivery W ctx m rl)" unfolding fail_delivery_def by (rule send) simp
  show "rl_accepts rl \<noteq> None \<Longrightarrow> cut_short n rl" using assms by (auto simp: cut_short_def)
qed

lemma relay_bytes_body:
  assumes "relay_bytes L W ctx bytes s = (outcome, s')"
  shows "outcome = None \<Longrightarrow> \<exists>rl. s' = s\<lparr>st_relay := rl\<rparr> \<and>
      rl_body rl = rl_body (st_relay s) @ [Ok bytes] \<and> rl_accepts rl = rl_accepts (st_relay s)"
    "outcome \<noteq> None \<Longrightarrow> rl_accepts (st_relay s') = rl_accepts (st_relay s) \<and>
      (\<exists>tail. rl_body (st_relay s') = rl_body (st_relay s) @ tail \<and>
         (rl_accepts (st_relay s) \<noteq> None \<and> tail \<in> {[], [Ok bytes]} \<or> (\<exists>m. tail = [Ok bytes, Err m])))"
proof -
  obtain sent rl where sent: "body_send (Ok bytes) (st_relay s) = (sent, rl)" by fastforce
  obtain ok rl1 where ok: "persist_delivery_offset W ctx (st_offset s) rl = (ok, rl1)" by fastforce
  have rl1: "rl_body rl1 = rl_body rl" "rl_accepts rl1 = rl_accepts rl"
    using body_frame(8,16) [of W ctx "st_offset s" rl] ok by simp_all
  note eq = assms [unfolded relay_bytes_def sent prod.case ok]
  show "\<exists>rl. s' = s\<lparr>st_relay := rl\<rparr> \<and> rl_body rl = rl_body (st_relay s) @ [Ok bytes] \<and>
      rl_accepts rl = rl_accepts (st_relay s)" if "outcome = None"
    using eq that rl1 sent_body [OF sent] by (auto split: bool.splits)
  let ?m = "''failed to persist artifact delivery progress''"
  let ?lost = "mark_delivery_lost W (dc_tenant ctx) (dc_artifact ctx) (end_delivery (dc_artifact ctx) rl1)"
  have failed: "body_send (Err ?m) ?lost = (fst (body_send (Err ?m) ?lost), fail_delivery W ctx ?m rl1)"
    by (simp add: fail_delivery_def)
  show "rl_accepts (st_relay s') = rl_accepts (st_relay s) \<and>
      (\<exists>tail. rl_body (st_relay s') = rl_body (st_relay s) @ tail \<and>
         (rl_accepts (st_relay s) \<noteq> None \<and> tail \<in> {[], [Ok bytes]} \<or> (\<exists>m. tail = [Ok bytes, Err m])))"
    if "outcome \<noteq> None"
    using eq that rl1 sent_body [OF sent] sent_body [OF failed]
    by (auto simp: client_gone_def fail_stream_def split: bool.splits if_splits)
qed

lemma relayed_short:
  assumes "relay_bytes L W ctx bytes s = (outcome, s')" "outcome \<noteq> None"
    and "length (body_bytes (rl_body (st_relay s)) @ bytes) < unat n"
  shows "cut_short n (st_relay s')"
proof -
  have "n \<noteq> 0" using assms(3) by auto
  then show ?thesis
    using relay_bytes_body(2) [OF assms(1,2)] assms(3) by (auto simp: cut_short_def)
qed

lemma drain_data_body:
  assumes rel: "relaying H n s" and ok: "drain_data H L W ctx n bytes s = (outcome, s')"
  shows "if outcome = None then relaying H n s' else cut_short n (st_relay s')"
proof -
  note short = relaying_short [OF rel]
  let ?next = "st_offset s + of_nat (length bytes)"
  let ?s1 = "s\<lparr>st_hasher := Hasher_update (sl_update H) (st_hasher s) bytes, st_offset := ?next\<rparr>"
  show ?thesis
  proof (cases "2 ^ 64 \<le> unat (st_offset s) + length bytes \<or> unat TRANSFER_CHUNK_BYTES < length bytes \<or> n < ?next")
    case True
    then show ?thesis using ok cut_short_ends(3) [OF short] by (auto simp: drain_data_def Let_def fail_stream_def split: if_splits)
  next
    case False
    have len: "unat ?next = unat (st_offset s) + length bytes"
      using False by (simp add: unat_word_ariths(1) unat_of_nat)
    show ?thesis
    proof (cases "bytes = []")
      case True
      then show ?thesis using False ok rel by (auto simp: drain_data_def Let_def)
    next
      case nonempty: False
      then have less: "st_offset s < n" using len False by (cases bytes) (auto simp: word_less_nat_alt)
      then have none: "st_pending s = None" using rel by (auto simp: relaying_def)
      have "\<exists>chunks. st_hasher s = foldl (Hasher_update (sl_update H)) (Hasher_new (sl_new H)) chunks \<and>
          concat chunks = body_bytes (rl_body (st_relay s)) \<and> length (concat chunks) = unat (st_offset s)"
        using rel none by (simp add: relaying_def)
      then obtain chunks where chunks: "st_hasher s = foldl (Hasher_update (sl_update H)) (Hasher_new (sl_new H)) chunks"
        "concat chunks = body_bytes (rl_body (st_relay s))" "length (concat chunks) = unat (st_offset s)" by blast
      have next_chunks: "Hasher_update (sl_update H) (st_hasher s) bytes =
          foldl (Hasher_update (sl_update H)) (Hasher_new (sl_new H)) (chunks @ [bytes])"
        using chunks(1) by simp
      show ?thesis
      proof (cases "?next = n")
        case True
        then have "outcome = None" "s' = ?s1\<lparr>st_pending := Some bytes\<rparr>"
          using ok False nonempty by (auto simp: drain_data_def Let_def)
        moreover have "relaying H n (?s1\<lparr>st_pending := Some bytes\<rparr>)"
          unfolding relaying_def using next_chunks chunks(2,3) len True nonempty less
          by (intro conjI exI [of _ "chunks @ [bytes]"]) auto
        ultimately show ?thesis by simp
      next
        case more: False
        then have sent: "relay_bytes L W ctx bytes ?s1 = (outcome, s')"
          using ok False nonempty by (simp add: drain_data_def Let_def)
        have below: "?next < n" using False more by auto
        show ?thesis
        proof (cases outcome)
          case None
          then obtain rl where s': "s' = ?s1\<lparr>st_relay := rl\<rparr>" "rl_body rl = rl_body (st_relay s) @ [Ok bytes]"
            using relay_bytes_body(1) [OF sent] by auto
          have "relaying H n (?s1\<lparr>st_relay := rl\<rparr>)"
            unfolding relaying_def using next_chunks chunks(2,3) len below none less s'(2)
            by (intro conjI exI [of _ "chunks @ [bytes]"]) auto
          then show ?thesis using None s'(1) by simp
        next
          case (Some out)
          have "length (body_bytes (rl_body (st_relay ?s1)) @ bytes) < unat n"
            using chunks(2,3) len below by (simp add: word_less_nat_alt)
          then show ?thesis using relayed_short [OF sent] Some by simp
        qed
      qed
    qed
  qed
qed

lemma drain_complete_body:
  assumes sha: "sha_laws H" and rel: "relaying H n s"
  shows "faithful_body H n dig (st_relay (drain_complete H L W ctx n dig s))"
proof (cases "st_offset s \<noteq> n \<or> Hasher_finish (sl_finalize H) (st_hasher s) \<noteq> dig")
  case True
  then show ?thesis
    using cut_short_ends(3) [OF relaying_short [OF rel]]
    by (auto simp: drain_complete_def fail_stream_def intro: cut_short_faithful)
next
  case False
  have gone: "cut_short n (st_relay (client_gone L W ctx s))" if "rl_accepts (st_relay s) \<noteq> None"
    using cut_short_ends(2) [of "st_relay (client_gone L W ctx s)" n] relaying_short [OF rel] that
    by (simp add: client_gone_def)
  obtain chunks where chunks: "st_hasher s = foldl (Hasher_update (sl_update H)) (Hasher_new (sl_new H)) chunks"
    "concat chunks = body_bytes (rl_body (st_relay s)) @ (case st_pending s of None \<Rightarrow> [] | Some b \<Rightarrow> b)"
    "length (concat chunks) = unat n"
    using rel False by (auto simp: relaying_def)
  have hash: "digest (sl_sha256 H) (concat chunks) = dig"
    using hasher_digest [of "sl_sha256 H" "sl_new H" "sl_update H" "sl_finalize H" chunks] sha chunks(1) False
    by (simp add: sha_laws_def)
  show ?thesis
  proof (cases "n = 0")
    case True
    then have none: "st_pending s = None" "rl_body (st_relay s) = []"
      using rel chunks(3) by (auto simp: relaying_def split: option.splits)
    obtain sent rl where sent: "body_send (Ok []) (st_relay s) = (sent, rl)" by fastforce
    show ?thesis
    proof (cases sent)
      case yes: True
      have "st_relay (drain_complete H L W ctx n dig s) = st_relay (finish_relay W ctx
          (s\<lparr>st_hasher := Hasher_new (sl_new H), st_pending := None, st_relay := rl\<rparr>))"
        using False True sent yes none by (simp add: drain_complete_def Let_def)
      moreover have "rl_body (st_relay (finish_relay W ctx s1)) = rl_body (st_relay s1)" for s1 :: "'a stream_state"
        by (simp add: finish_relay_def Let_def split: sum.splits prod.splits)
      ultimately show ?thesis
        using sent_body [OF sent] yes none hash chunks(2) True by (simp add: faithful_body_def)
    next
      case no: False
      then have "drain_complete H L W ctx n dig s = client_gone L W ctx s"
        using False True sent by (simp add: drain_complete_def)
      then show ?thesis using gone sent_body [OF sent] no by (simp add: cut_short_faithful)
    qed
  next
    case nonzero: False
    then obtain b where b: "st_pending s = Some b" using rel False by (auto simp: relaying_def)
    let ?s1 = "s\<lparr>st_hasher := Hasher_new (sl_new H), st_pending := None\<rparr>"
    obtain outcome s2 where s2: "relay_bytes L W ctx b ?s1 = (outcome, s2)" by fastforce
    have res: "drain_complete H L W ctx n dig s = (if outcome = None then finish_relay W ctx s2 else s2)"
      using False nonzero b s2 by (auto simp: drain_complete_def Let_def split: option.splits)
    have whole: "faithful_body H n dig rl" if "body_bytes (rl_body rl) = body_bytes (rl_body (st_relay s)) @ b" for rl
      using that chunks(2,3) b hash nonzero by (simp add: faithful_body_def)
    show ?thesis
    proof (cases outcome)
      case None
      have "rl_body (st_relay (finish_relay W ctx s2)) = rl_body (st_relay s2)"
        by (simp add: finish_relay_def Let_def split: sum.splits prod.splits)
      then show ?thesis
        using relay_bytes_body(1) [OF s2 None] None by (auto simp: res intro!: whole)
    next
      case (Some out)
      then obtain tail where tail: "rl_accepts (st_relay s2) = rl_accepts (st_relay s)"
        "rl_body (st_relay s2) = rl_body (st_relay s) @ tail"
        "rl_accepts (st_relay s) \<noteq> None \<and> tail \<in> {[], [Ok b]} \<or> (\<exists>m. tail = [Ok b, Err m])"
        using relay_bytes_body(2) [OF s2] by auto
      show ?thesis
      proof (cases "tail = []")
        case True
        then have "cut_short n (st_relay s2)"
          using relaying_short [OF rel] tail by (intro cut_short_ends(2)) auto
        then show ?thesis using Some by (simp add: res cut_short_faithful)
      next
        case False
        then show ?thesis using tail Some by (auto simp: res intro!: whole)
      qed
    qed
  qed
qed

lemma relaying_cong:
  "relaying H n s \<Longrightarrow> rl_body rl = rl_body (st_relay s) \<Longrightarrow> relaying H n (s\<lparr>st_relay := rl\<rparr>)"
  "relaying H n s \<Longrightarrow> relaying H n (s\<lparr>st_attempts := a\<rparr>)"
  by (simp_all add: relaying_def)

lemma drain_event_body:
  assumes "sha_laws H" "relaying H n s" "drain_event H L W ctx n dig e s = (outcome, s')"
  shows "if outcome = Some Done then faithful_body H n dig (st_relay s') else relaying H n s'"
proof -
  note short = relaying_short [OF assms(2)]
  have data: ?thesis if "drain_data H L W ctx n bytes s = (outcome, s')" for bytes
  proof (cases outcome)
    case (Some out)
    then have "out = Done"
      using that by (cases out) (auto simp: drain_data_def Let_def dest: relay_bytes_budget split: if_splits)
    then show ?thesis using drain_data_body [OF assms(2) that] Some by (simp add: cut_short_faithful)
  qed (use drain_data_body [OF assms(2) that] in simp)
  have broken: ?thesis if "drain_broken W ctx message s = (outcome, s')" for message
    using that assms(2) cut_short_ends(1) [of "mark_delivery_lost W (dc_tenant ctx) (dc_artifact ctx)
        (end_delivery (dc_artifact ctx) (st_relay s))" n message] short
    by (auto simp: drain_broken_def Let_def relaying_def intro: cut_short_faithful split: if_splits)
  show ?thesis
    using assms(3) data drain_complete_body [OF assms(1,2)] broken cut_short_ends(3) [OF short]
    by (cases "(H, L, W, ctx, n, dig, e, s)" rule: drain_event.cases)
      (auto simp: fail_stream_def intro: cut_short_faithful)
qed

lemma drain_body:
  assumes "sha_laws H" "relaying H n s" "drain_worker_chunks H L W ctx n dig es s = (outcome, s')"
  shows "if outcome = Done then faithful_body H n dig (st_relay s') else relaying H n s'"
  using assms(2,3)
proof (induction es arbitrary: s)
  case Nil
  then show ?case
    using cut_short_ends(3) [of "wait W (st_relay s)" n] relaying_short [of H n s]
    by (auto simp: fail_stream_def intro!: cut_short_faithful)
next
  case (Cons e es)
  let ?s = "s\<lparr>st_relay := wait W (st_relay s)\<rparr>"
  obtain out s1 where ev: "drain_event H L W ctx n dig e ?s = (out, s1)" by fastforce
  from drain_event_body [OF assms(1) relaying_cong(1) [OF Cons.prems(1)] ev] show ?case
    using Cons.IH [of s1] Cons.prems(2) ev by (cases out) (auto split: if_splits)
qed

lemma request_body:
  "request_worker_delivery L W ctx offset attempts rl = (outcome, attempts', rl') \<Longrightarrow>
   length (body_bytes (rl_body rl)) < unat n \<or> n = 0 \<and> rl_body rl = [] \<Longrightarrow>
   if outcome = Stop then cut_short n rl' else rl_body rl' = rl_body rl"
proof (induction L W ctx offset attempts rl rule: request_worker_delivery.induct)
  case (1 L W ctx offset attempts rl)
  let ?m = "deliver_request L (dc_artifact ctx) (dc_token ctx) offset"
  obtain out rl1 where sent: "worker_send (dc_worker ctx) ?m rl = (out, rl1)" by fastforce
  then have rl1: "rl_body rl1 = rl_body rl" using body_frame(5) [of "dc_worker ctx" ?m rl] by simp
  note step = "1.prems"(1) [unfolded request_worker_delivery.simps [of L W ctx offset attempts rl] sent prod.case]
  show ?case
  proof (cases out)
    case Backpressured
    then show ?thesis
      using step "1.IH" [OF sent [symmetric] Backpressured] "1.prems"(2) rl1
        cut_short_ends(1) [of "discard_and_expire L W ctx
          ''producing worker's control channel stayed backpressured across the retry budget'' rl1" n]
      by (auto split: if_splits)
  qed (use step rl1 "1.prems"(2) cut_short_ends(3) [of rl1 n] in auto)
qed

lemma stream_body:
  "sha_laws H \<Longrightarrow> relaying H n s \<Longrightarrow> faithful_body H n dig (st_relay (stream_rounds H L W ctx n dig k s))"
proof (induction H L W ctx n dig k s rule: stream_rounds.induct)
  case (1 H L W ctx n dig k s)
  let ?rl = "subscribe_delivery (dc_artifact ctx) (st_relay s)"
  obtain out attempts rl where req: "request_worker_delivery L W ctx (st_offset s) (st_attempts s) ?rl = (out, attempts, rl)"
    by (metis prod_cases3)
  have asked: "if out = Stop then cut_short n rl else rl_body rl = rl_body ?rl"
    by (rule request_body [OF req]) (use relaying_short [OF "1.prems"(2)] in simp)
  note eq = stream_rounds.simps [of H L W ctx n dig k s, unfolded req prod.case]
  show ?case
  proof (cases out)
    case Stop
    then show ?thesis using asked by (simp add: eq cut_short_faithful)
  next
    case Ready
    obtain outcome s1 where drained: "drain_worker_chunks H L W ctx n dig (dw_rounds W k)
        (s\<lparr>st_attempts := attempts, st_relay := rl\<rparr>) = (outcome, s1)" by fastforce
    have "relaying H n (s\<lparr>st_attempts := attempts, st_relay := rl\<rparr>)"
      using asked Ready by (intro relaying_cong "1.prems"(2)) simp_all
    from drain_body [OF "1.prems"(1) this drained] show ?thesis
      using "1.IH" [OF req [symmetric] Ready refl drained [symmetric]] "1.prems"(1) Ready drained
      by (cases outcome) (auto simp: eq)
  qed
qed

lemma accepts_frame [simp]:
  "rl_accepts (fail_delivery W ctx m rl) = rl_accepts rl"
  "rl_accepts (st_relay (finish_relay W ctx s)) = rl_accepts (st_relay s)"
  "rl_accepts (st_relay (client_gone L W ctx s)) = rl_accepts (st_relay s)"
  "rl_accepts (st_relay (fail_stream W ctx m s)) = rl_accepts (st_relay s)"
  by (simp_all add: fail_delivery_def finish_relay_def client_gone_def fail_stream_def Let_def
      split: sum.splits prod.splits)

lemma relay_bytes_accepts:
  "relay_bytes L W ctx bytes s = (outcome, s') \<Longrightarrow> rl_accepts (st_relay s') = rl_accepts (st_relay s)"
  using relay_bytes_body [of L W ctx bytes s outcome s'] by (cases outcome) auto

lemma drain_event_accepts:
  assumes "drain_event H L W ctx n dig e s = (outcome, s')"
  shows "rl_accepts (st_relay s') = rl_accepts (st_relay s)"
proof -
  have data: ?thesis if "drain_data H L W ctx n bytes s = (outcome, s')" for bytes
    using that by (auto simp: drain_data_def Let_def dest!: relay_bytes_accepts split: if_splits)
  have "rl_accepts (st_relay (drain_complete H L W ctx n dig s)) = rl_accepts (st_relay s)"
    by (auto simp: drain_complete_def Let_def dest!: relay_bytes_accepts sent_body
        split: prod.splits bool.splits option.splits if_splits)
  moreover have ?thesis if "drain_broken W ctx m s = (outcome, s')" for m
    using that by (auto simp: drain_broken_def Let_def split: if_splits)
  ultimately show ?thesis
    using assms data by (cases "(H, L, W, ctx, n, dig, e, s)" rule: drain_event.cases) auto
qed

lemma drain_accepts:
  "drain_worker_chunks H L W ctx n dig es s = (outcome, s') \<Longrightarrow> rl_accepts (st_relay s') = rl_accepts (st_relay s)"
  by (induction es arbitrary: s) (auto dest!: drain_event_accepts split: prod.splits option.splits)

lemma request_accepts:
  "request_worker_delivery L W ctx offset attempts rl = (outcome, attempts', rl') \<Longrightarrow> rl_accepts rl' = rl_accepts rl"
proof (induction L W ctx offset attempts rl rule: request_worker_delivery.induct)
  case (1 L W ctx offset attempts rl)
  let ?m = "deliver_request L (dc_artifact ctx) (dc_token ctx) offset"
  obtain out rl1 where sent: "worker_send (dc_worker ctx) ?m rl = (out, rl1)" by fastforce
  then have "rl_accepts rl1 = rl_accepts rl" using body_frame(13) [of "dc_worker ctx" ?m rl] by simp
  then show ?case
    using "1.prems" [unfolded request_worker_delivery.simps [of L W ctx offset attempts rl] sent prod.case]
      "1.IH" [OF sent [symmetric]]
    by (cases out) (auto split: if_splits)
qed

lemma stream_accepts: "rl_accepts (st_relay (stream_rounds H L W ctx n dig k s)) = rl_accepts (st_relay s)"
proof (induction H L W ctx n dig k s rule: stream_rounds.induct)
  case (1 H L W ctx n dig k s)
  then show ?case
    by (subst stream_rounds.simps)
      (auto dest!: drain_accepts request_accepts split: prod.splits DeliveryRequestOutcome.splits ChunkDrainOutcome.splits)
qed

section \<open>Properties\<close>


text \<open>C4: A client that downloads a Worker-local output never mistakes other bytes for it. A
  successful response announces the recorded size; its body is never longer, and it is as long
  as announced only if its bytes have the recorded SHA-256 digest. When the client reads to the
  end and gets no error, the body is whole. An empty output is confirmed only after the digest
  of the empty text was checked. This holds for everything a Worker may send.\<close>
theorem download_integrity:
  assumes "sha_laws H" "get_artifact t i (r_db r) = Some f" "f_committed_offset f = 0"
    and "download_for_tenant H S header_ok W accepts t i clk r = (response, r')" "rp_status response = OK"
  shows "rp_content_length response = Some (am_size_bytes (row_manifest f)) \<and>
    (case rp_body response of
       Stream body \<Rightarrow>
         length (body_bytes body) \<le> unat (am_size_bytes (row_manifest f)) \<and>
         (length (body_bytes body) = unat (am_size_bytes (row_manifest f)) \<longrightarrow>
            digest (sl_sha256 H) (body_bytes body) = f_digest f) \<and>
         (accepts = None \<and> (\<forall>m. Err m \<notin> set body) \<longrightarrow>
            length (body_bytes body) = unat (am_size_bytes (row_manifest f)))
     | _ \<Rightarrow> am_size_bytes (row_manifest f) = 0 \<and> digest (sl_sha256 H) [] = f_digest f)"
proof -
  let ?n = "am_size_bytes (row_manifest f)"
  have deliver: "deliver_worker_local H S header_ok W accepts t i f clk r = (response, r')"
    using assms(2,4,5)
    by (auto simp: download_for_tenant_def classify_download_def Let_def plain_def redirect_to_object_store_def
        refused_delivery_def split: if_splits ArtifactState.splits ArtifactPlacement.splits prod.splits bool.splits
        option.splits sum.splits)
  obtain worker where worker: "f_worker f = Some worker"
    using deliver assms(5) by (auto simp: deliver_worker_local_def plain_def split: option.splits)
  obtain d1 where begun: "begin_delivery t i clk (r_db r) = (True, d1)"
    using deliver worker assms(5)
    by (auto simp: deliver_worker_local_def refused_delivery_def plain_def split: prod.splits bool.splits if_splits)
  define rl where "rl = stream_worker_local H (sv_text S) W t i worker
    (case f_delivery_token f of None \<Rightarrow> [] | Some token \<Rightarrow> token) 0 ?n (am_digest (row_manifest f))
    \<lparr>rl_remote = r\<lparr>r_db := d1\<rparr>, rl_subscribed = {}, rl_body = [], rl_accepts = accepts, rl_time = 0\<rparr>"
  have "faithful_body H ?n (am_digest (row_manifest f)) rl"
    unfolding rl_def stream_worker_local_def
    by (rule stream_body [OF assms(1)]) (auto simp: relaying_def word_gt_0 intro: exI [of _ "[]"])
  moreover have "rl_accepts rl = accepts" by (simp add: rl_def stream_worker_local_def stream_accepts)
  moreover have "rp_content_length response = Some ?n" "?n = 0 \<Longrightarrow> rp_body response = NoBody \<and> verified_empty (rl_body rl)"
    "?n \<noteq> 0 \<Longrightarrow> rp_body response = Stream (rl_body rl)"
    using deliver worker begun assms(3,5)
    by (auto simp: deliver_worker_local_def Let_def rl_def plain_def split: if_splits)
  ultimately show ?thesis
    by (cases "?n = 0") (auto simp: faithful_body_def row_manifest_def verified_empty_def Let_def list_all_iff
        neq_Nil_conv)
qed

text \<open>C7: An upload stores exactly the declared content. It succeeds only for a pending input of
  the Tenant and then the input is available with the uploaded bytes, whose length and SHA-256
  digest are the declared ones and within the Tenant's limit; every other outcome leaves the
  database as the other tasks left it.\<close>
theorem upload_stores_declared_content:
  assumes "good (meanwhile d)" "load_settings t d = Ok config" "get_artifact t i d = Some f" "0 \<le> f_size_bytes f" "f_size_bytes f < 2 ^ 63"
    and "\<And>f'. get_artifact t i (meanwhile d) = Some f' \<Longrightarrow> art_step f f'"
    and "upload_for_tenant H t i body meanwhile clk d = (response, d')"
  shows "(rp_status response \<noteq> NO_CONTENT \<longrightarrow> d' = d \<or> d' = meanwhile d) \<and>
    (rp_status response = NO_CONTENT \<longrightarrow> f_state f = ArtifactState.Pending \<and> f_direction f = Input \<and>
       (\<exists>bytes f'. body = Some bytes \<and> get_artifact t i d' = Some f' \<and> f_state f' = ArtifactState.Available \<and>
          f_content f' = Some bytes \<and> int (length bytes) = f_size_bytes f' \<and>
          digest (sl_sha256 H) bytes = f_digest f' \<and> length bytes \<le> unat (max_input_artifact_bytes config)))"
proof (intro conjI impI)
  show "d' = d \<or> d' = meanwhile d" if "rp_status response \<noteq> NO_CONTENT"
    using that assms(2,3,7)
    by (auto simp: upload_for_tenant_def Let_def plain_def split: if_splits option.splits sum.splits ArtifactStoreError.splits)
  assume "rp_status response = NO_CONTENT"
  then obtain bytes row where up: "f_state f = ArtifactState.Pending" "f_direction f = Input" "body = Some bytes"
    "length bytes \<le> unat (min (am_size_bytes (row_manifest f)) (max_input_artifact_bytes config))"
    "verify_remote_local_upload H (row_manifest f) bytes = Ok ()"
    "set_remote_local_content t i bytes clk (meanwhile d) = Ok (row, d')"
    using assms(2,3,7)
    by (auto simp: upload_for_tenant_def Let_def plain_def not_less
        split: if_splits option.splits sum.splits ArtifactStoreError.splits)
  have bounds: "length bytes \<le> unat (am_size_bytes (row_manifest f))" "length bytes \<le> unat (max_input_artifact_bytes config)"
    using up(4) by (auto simp: min_def word_le_nat_alt split: if_splits)
  have sizes: "of_nat (length bytes) = am_size_bytes (row_manifest f)" "digest (sl_sha256 H) bytes = f_digest f"
    using up(5) by (auto simp: verify_remote_local_upload_def ArtifactManifest_verify_def row_manifest_def split: if_splits)
  have "uint (am_size_bytes (row_manifest f)) = f_size_bytes f"
    using assms(4,5) by (simp add: row_manifest_def uint_word_of_int)
  moreover have "unat (of_nat (length bytes) :: u64) = length bytes"
    using le_less_trans [OF bounds(1) unsigned_less] by (intro unat_of_nat_small) simp
  ultimately have len: "int (length bytes) = f_size_bytes f" using sizes(1) by (metis uint_nat)
  let ?P = "\<lambda>f. f_direction f = Input \<and> f_placement f = ArtifactPlacement.RemoteLocal \<and>
      f_state f = ArtifactState.Pending \<and> unexpired clk f"
  let ?u = "\<lambda>f. f\<lparr>f_content := Some bytes, f_state := ArtifactState.Available,
      f_available_at := Some (sql_now clk), f_expires_at := Some (sql_now clk + int (from_hours 1))\<rparr>"
  obtain f2 where f2: "get_artifact t i (meanwhile d) = Some f2" "?P f2"
    using up(6) artifact_affected(2) [OF goodD(1) [OF assms(1)], of t i ?P]
    by (auto simp: set_remote_local_content_def Let_def split: if_splits)
  have "get_artifact t i d' = Some (?u f2)"
    using up(6) get_artifact_update [of "\<lambda>f. fkey f = (t, i) \<and> ?P f" ?u t i "meanwhile d"] f2 get_artifact_key [OF f2(1)]
    by (auto simp: set_remote_local_content_def Let_def fkey_def split: if_splits option.splits)
  then show "f_state f = ArtifactState.Pending" "f_direction f = Input"
    "\<exists>bytes f'. body = Some bytes \<and> get_artifact t i d' = Some f' \<and> f_state f' = ArtifactState.Available \<and>
          f_content f' = Some bytes \<and> int (length bytes) = f_size_bytes f' \<and>
          digest (sl_sha256 H) bytes = f_digest f' \<and> length bytes \<le> unat (max_input_artifact_bytes config)"
    using up(1-3) len sizes(2) bounds(2) assms(6) [OF f2(1)] by (auto simp: art_step_def)
qed

section \<open>An example\<close>

text \<open>A Worker that sends the five bytes of an output in two chunks, to a client that reads them
  all, while no other task runs. The hash function of the example is constant.\<close>

definition example_sha :: "u8 list sha_libs" where
  "example_sha = \<lparr>sl_sha256 = (\<lambda>_. replicate 32 0), sl_new = [], sl_update = (@), sl_finalize = (\<lambda>_. replicate 32 0)\<rparr>"

lemma example_sha_laws: "sha_laws example_sha"
  by (simp add: sha_laws_def sha256_laws_def example_sha_def)

definition example_world :: delivery_world where
  "example_world = \<lparr>dw_others = (\<lambda>_ r. r), dw_clk = (\<lambda>_. example_clocks),
     dw_rounds = (\<lambda>k. if k = 0 then [Received (Data [1, 2]), Received (Data [3, 4, 5]), Received Complete] else [])\<rparr>"

lemma example_beside: "runs_beside example_world t i"
  by (simp add: runs_beside_def example_world_def)

lemma example_delivery_good: "good example_delivery_db"
  using example_delivery_inv
  by (simp add: good_def inv_events_def events_of_def) (simp add: example_delivery_db_def example_defs)

abbreviation example_download :: "response \<times> remote" where
  "example_download \<equiv> download_for_tenant example_sha example_services (\<lambda>_. True) example_world None 7 30
     example_clocks (example_remote example_delivery_db)"


lemma example_download_get: "get_artifact 7 30 (r_db (example_remote example_delivery_db)) = Some example_output"
  by (simp add: example_remote_def example_delivery_get)

lemma example_output_row [simp]:
  "f_worker example_output = Some 1" "f_direction example_output = Output"
  "f_state example_output = ArtifactState.Available" "f_placement example_output = ArtifactPlacement.WorkerLocal"
  "am_size_bytes (row_manifest example_output) = 5" "f_committed_offset example_output = 0"
  "f_size_bytes example_output = 5" "f_delivery_token example_output = Some ''token''"
  "f_digest example_output = example_version"
  by (simp_all add: example_output_def output_row_def row_manifest_def)

lemma example_begun: "fst (begin_delivery 7 30 example_clocks example_delivery_db)"
proof -
  have "unexpired example_clocks example_output"
    by (simp add: unexpired_def example_output_def output_row_def OUTPUT_ARTIFACT_TTL_def
        from_hours_def from_mins_def from_secs_def example_clocks_def)
  then show ?thesis
    using artifact_affected(1) [OF example_delivery_inv, of 7 30
        "\<lambda>f. f_state f = ArtifactState.Available \<and> unexpired example_clocks f"] example_delivery_get
    by (simp add: begin_delivery_def)
qed

lemma example_download_ok:
  "rp_status (fst (download_for_tenant H example_services header_ok W accepts 7 30 example_clocks
     (example_remote example_delivery_db))) = OK"
proof -
  obtain d1 where begun: "begin_delivery 7 30 example_clocks (r_db (example_remote example_delivery_db)) = (True, d1)"
    using example_begun by (cases "begin_delivery 7 30 example_clocks example_delivery_db") (simp add: example_remote_def)
  have "is_online 1 (r_sessions (example_remote example_delivery_db))"
    by (simp add: is_online_def example_remote_def)
  then show ?thesis
    by (simp add: download_for_tenant_def example_download_get classify_download_def deliver_worker_local_def begun Let_def)
qed

theorem download_integrity_witness:
  "rp_content_length (fst example_download) = Some 5"
  using download_integrity [OF example_sha_laws example_download_get _ surjective_pairing example_download_ok]
  by simp

definition example_upload_db :: db where
  "example_upload_db = example_db\<lparr>db_artifacts := [input_row 7 31
       \<lparr>am_size_bytes = 3, am_digest = example_version, am_kind = MediaKind.Image, am_mime_type = []\<rparr>
       ArtifactPlacement.RemoteLocal None 3 example_clocks],
     db_tenants := [new_tenant_row 7 ''acme'' example_clocks]\<rparr>"

theorem upload_stores_declared_content_witness:
  "\<exists>f'. get_artifact 7 31 (snd (upload_for_tenant example_sha 7 31 (Some [1, 2, 3]) (\<lambda>d. d) example_clocks example_upload_db)) =
     Some f' \<and> f_content f' = Some [1, 2, 3]"
proof -
  let ?f = "input_row 7 31
       \<lparr>am_size_bytes = 3, am_digest = example_version, am_kind = MediaKind.Image, am_mime_type = []\<rparr>
       ArtifactPlacement.RemoteLocal None 3 example_clocks"
  let ?up = "upload_for_tenant example_sha 7 31 (Some [1, 2, 3]) (\<lambda>d. d) example_clocks example_upload_db"
  have "store_inv (example_db\<lparr>db_artifacts := [?f]\<rparr>)"
    by (rule inv_artifacts [OF example_inv(1)]) (simp_all add: input_row_def)
  then have good: "good example_upload_db"
    using example_ready_good(2) by (simp add: example_upload_db_def good_def inv_events_def events_of_def)
  have get: "get_artifact 7 31 example_upload_db = Some ?f"
    by (simp add: get_artifact_def example_upload_db_def input_row_def fkey_def)
  have config: "load_settings 7 example_upload_db = Ok TenantSettings_default"
    using new_tenant_row_settings [of 7 "''acme''" example_clocks]
    by (simp add: load_settings_def example_upload_db_def) (simp add: new_tenant_row_def)
  have limit: "min 3 (max_input_artifact_bytes TenantSettings_default) = 3"
    by (simp add: TenantSettings_default_def)
  have "verify_remote_local_upload example_sha (row_manifest ?f) [1, 2, 3] = Ok ()"
    by (simp add: verify_remote_local_upload_def ArtifactManifest_verify_def row_manifest_def input_row_def
        example_sha_def digest_def example_version_def)
  moreover have "\<exists>row d'. set_remote_local_content 7 31 [1, 2, 3] example_clocks example_upload_db = Ok (row, d')"
    by (simp add: set_remote_local_content_def get_artifact_def example_upload_db_def input_row_def rows_affected_def
        update_where_def unexpired_def fkey_def from_hours_def from_mins_def from_secs_def example_clocks_def)
  ultimately have "rp_status (fst ?up) = NO_CONTENT"
    by (auto simp: upload_for_tenant_def config get plain_def row_manifest_def input_row_def limit)
  with upload_stores_declared_content [where meanwhile = "\<lambda>d. d", OF good config get _ _ _ surjective_pairing,
      of example_sha "Some [1, 2, 3]" example_clocks] get
  show ?thesis by (auto simp: input_row_def)
qed

end
