(* ===== verification/Worker_Transfer.thy ===== *)
theory Worker_Transfer
  imports Delivery_Safety
begin

text \<open>
  Artifact transfer between the Remote and a Worker, \<^verbatim>\<open>gpq-remote/src/transfer.rs\<close>: a Worker
  fetches the stored inputs of its live Attempt chunk by chunk, and delivers a Worker-local
  output to the client that is downloading it. Each chunk of a fetch is read in a transaction of
  its own, so the database of the n-th read is a parameter. What a delivery pushes to the
  downloader is returned as a list; whether the n-th push finds a downloader is a parameter.
\<close>

section \<open>Texts\<close>

fun show_nat :: "nat \<Rightarrow> string" where
  "show_nat n = (if n < 10 then [char_of (48 + n)] else show_nat (n div 10) @ [char_of (48 + n mod 10)])"

declare show_nat.simps [simp del]

fun mismatch_text :: "text_libs \<Rightarrow> ManifestMismatch \<Rightarrow> string" where
  "mismatch_text L (MismatchSize declared received) =
     ''artifact size mismatch: declared '' @ show_nat (unat declared) @ '', received '' @ show_nat (unat received)"
| "mismatch_text L (MismatchDigest declared received) =
     ''artifact digest mismatch: declared '' @ print_hash L declared @ '', received '' @ print_hash L received"

definition domain_manifest :: "text_libs \<Rightarrow> ProtoArtifactManifest \<Rightarrow> ErrorCode + ArtifactManifest" where
  "domain_manifest L proto =
     rbind (case parse_hash L (pam_digest_sha256 proto) of None \<Rightarrow> Err ErrorCode.InvalidArgument | Some h \<Rightarrow> Ok h) (\<lambda>h.
     rbind (case pam_kind proto of
              Known MEDIA_KIND_IMAGE \<Rightarrow> Ok MediaKind.Image
            | Known MEDIA_KIND_VIDEO \<Rightarrow> Ok MediaKind.Video
            | Known MEDIA_KIND_AUDIO \<Rightarrow> Ok MediaKind.Audio
            | Known MEDIA_KIND_TEXT \<Rightarrow> Ok MediaKind.Text
            | Known MEDIA_KIND_BINARY \<Rightarrow> Ok MediaKind.Binary
            | _ \<Rightarrow> Err ErrorCode.InvalidArgument) (\<lambda>k.
       Ok \<lparr>am_size_bytes = pam_size_bytes proto, am_digest = h, am_kind = k, am_mime_type = pam_mime_type proto\<rparr>))"

definition transfer_parse_id :: "text_libs \<Rightarrow> string \<Rightarrow> ErrorCode + uuid" where
  "transfer_parse_id L s = (case uuid_parse L s of None \<Rightarrow> Err ErrorCode.InvalidArgument | Some u \<Rightarrow> Ok u)"

definition worker_of :: "(string \<Rightarrow> u8 list) \<Rightarrow> string option \<Rightarrow> db \<Rightarrow> ErrorCode + TenantId \<times> WorkerId" where
  "worker_of hasher authorization d =
     (case bearer_token authorization of
        None \<Rightarrow> Err ErrorCode.Unauthenticated
      | Some token \<Rightarrow>
          (case authenticate_worker hasher token d of
             None \<Rightarrow> Err ErrorCode.Unauthenticated | Some tw \<Rightarrow> Ok tw))"

section \<open>Fetching an input\<close>

record ArtifactChunk =
  ac_offset :: u64
  ac_data :: "u8 list"
  ac_last :: bool

definition next_chunk_span :: "u64 \<Rightarrow> u64 \<Rightarrow> u64 \<times> bool" where
  "next_chunk_span size_n offset =
     (let remaining = (if size_n < offset then 0 else size_n - offset);
          len = min remaining TRANSFER_CHUNK_BYTES
      in (len, len = remaining))"

lemma next_chunk_span_unfinished:
  assumes "next_chunk_span n offset = (len, False)"
  shows "unat (offset + len) = unat offset + 1048576" "unat offset + 1048576 < unat n" "unat len = 1048576"
proof -
  have len: "len = min (n - offset) TRANSFER_CHUNK_BYTES" "\<not> n < offset" "len \<noteq> n - offset"
    using assms by (auto simp: next_chunk_span_def Let_def split: if_splits)
  have n: "unat (n - offset) = unat n - unat offset" using len(2) by (simp add: unat_sub_if_size word_le_nat_alt not_less)
  have chunk: "unat TRANSFER_CHUNK_BYTES = 1048576" by (simp add: TRANSFER_CHUNK_BYTES_def)
  have eq: "len = TRANSFER_CHUNK_BYTES" "unat TRANSFER_CHUNK_BYTES < unat (n - offset)"
    using len(1,3) by (auto simp: min_def word_less_nat_alt word_le_nat_alt split: if_splits)
  then show "unat len = 1048576" "unat offset + 1048576 < unat n" using chunk n by simp_all
  then have "unat offset + unat len < 2 ^ LENGTH(64)"
    using unsigned_less [of n, where ?'a = nat] by simp
  then show "unat (offset + len) = unat offset + 1048576"
    using \<open>unat len = 1048576\<close> by (simp add: unat_word_ariths(1))
qed

function stream_remote_local ::
  "TenantId \<Rightarrow> AttemptId \<Rightarrow> WorkerId \<Rightarrow> ArtifactId \<Rightarrow> (nat \<Rightarrow> clocks) \<Rightarrow> (nat \<Rightarrow> db) \<Rightarrow> u64 \<Rightarrow> nat \<Rightarrow> u64 \<Rightarrow>
   (ErrorCode + ArtifactChunk) list" where
  "stream_remote_local t attempt worker i clk later size_n k offset =
     (case next_chunk_span size_n offset of
        (len, is_last) \<Rightarrow>
          (case remote_local_chunk t attempt worker i offset len (clk k) (later k) of
             Err _ \<Rightarrow> [Err ErrorCode.Internal]
           | Ok None \<Rightarrow> [Err ErrorCode.FailedPrecondition]
           | Ok (Some data) \<Rightarrow>
               if length data \<noteq> unat len then [Err ErrorCode.Internal]
               else Ok \<lparr>ac_offset = offset, ac_data = data, ac_last = is_last\<rparr> #
                 (if is_last then []
                  else stream_remote_local t attempt worker i clk later size_n (k + 1) (offset + len))))"
  by pat_completeness auto
termination
proof (relation "measure (\<lambda>(_, _, _, _, _, _, size_n, _, offset). unat size_n - unat offset)", simp, goal_cases)
  case (1 t attempt worker i clk later size_n k offset len is_last)
  then have "next_chunk_span size_n offset = (len, False)" by simp
  from next_chunk_span_unfinished [OF this] show ?case by simp
qed

declare stream_remote_local.simps [simp del]

record FetchArtifactRequest =
  fa_artifact_id :: string
  fa_attempt_id :: string
  fa_offset :: u64

definition fetch_artifact ::
  "text_libs \<Rightarrow> (string \<Rightarrow> u8 list) \<Rightarrow> string option \<Rightarrow> FetchArtifactRequest \<Rightarrow> (nat \<Rightarrow> clocks) \<Rightarrow> (nat \<Rightarrow> db) \<Rightarrow> db \<Rightarrow>
   ErrorCode + (ErrorCode + ArtifactChunk) list" where
  "fetch_artifact L hasher authorization request clk later d =
     rbind (worker_of hasher authorization d) (\<lambda>(t, worker).
     rbind (transfer_parse_id L (fa_artifact_id request)) (\<lambda>i.
     rbind (transfer_parse_id L (fa_attempt_id request)) (\<lambda>attempt.
       case attempt_input t attempt worker i (clk 0) d of
         None \<Rightarrow> Err ErrorCode.NotFound
       | Some row \<Rightarrow>
           if f_placement row \<noteq> ArtifactPlacement.RemoteLocal \<or> f_state row \<noteq> ArtifactState.Available
           then Err ErrorCode.FailedPrecondition
           else
             let size_n = am_size_bytes (row_manifest row)
             in if size_n < fa_offset request then Err ErrorCode.InvalidArgument
                else Ok (stream_remote_local t attempt worker i clk later size_n 1 (fa_offset request)))))"

section \<open>Delivering an output\<close>

record DeliverArtifactStart =
  ds_artifact_id :: string
  ds_delivery_token :: string
  ds_manifest :: "ProtoArtifactManifest option"
  ds_offset :: u64

datatype DeliverArtifactRequest = DeliverStart DeliverArtifactStart | DeliverChunk ArtifactChunk | DeliverUnset

record DeliverArtifactResponse =
  dr_accepted :: bool
  dr_reason :: string
  dr_committed_offset :: u64

definition validate_delivery_start ::
  "text_libs \<Rightarrow> TenantId \<Rightarrow> DeliverArtifactStart \<Rightarrow> db \<Rightarrow> ErrorCode + ArtifactId \<times> ArtifactManifest" where
  "validate_delivery_start L t start d =
     rbind (transfer_parse_id L (ds_artifact_id start)) (\<lambda>i.
     rbind (case ds_manifest start of None \<Rightarrow> Err ErrorCode.InvalidArgument | Some m \<Rightarrow> Ok m) (\<lambda>proto.
     rbind (domain_manifest L proto) (\<lambda>manifest.
       case get_artifact t i d of
         None \<Rightarrow> Err ErrorCode.NotFound
       | Some row \<Rightarrow>
           if f_state row \<noteq> ArtifactState.Delivering then Err ErrorCode.FailedPrecondition
           else if row_manifest row \<noteq> manifest then Err ErrorCode.FailedPrecondition
           else if am_size_bytes (row_manifest row) < ds_offset start then Err ErrorCode.FailedPrecondition
           else if of_int (f_committed_offset row) \<noteq> ds_offset start then Err ErrorCode.FailedPrecondition
           else if f_delivery_token row = Some (ds_delivery_token start) then Ok (i, manifest)
           else Err ErrorCode.FailedPrecondition)))"

datatype DeliveryValidation = Accepted | Retryable string | ReceiptRejected string

definition validate_delivery_receipt ::
  "text_libs \<Rightarrow> ArtifactManifest \<Rightarrow> u64 \<Rightarrow> u64 \<Rightarrow> ContentHash \<Rightarrow> DeliveryValidation" where
  "validate_delivery_receipt L manifest start_offset committed_offset dig =
     (if start_offset = 0
      then (case ArtifactManifest_verify manifest committed_offset dig of
              Ok _ \<Rightarrow> Accepted
            | Err (MismatchDigest a b) \<Rightarrow> ReceiptRejected (mismatch_text L (MismatchDigest a b))
            | Err mismatch \<Rightarrow> Retryable (mismatch_text L mismatch))
      else if committed_offset \<noteq> am_size_bytes manifest
      then Retryable (''resumed delivery ended at '' @ show_nat (unat committed_offset) @ '' bytes, expected '' @
             show_nat (unat (am_size_bytes manifest)))
      else Accepted)"

definition next_delivery_offset :: "u64 \<Rightarrow> ArtifactChunk \<Rightarrow> string + u64" where
  "next_delivery_offset expected_offset chunk =
     (if ac_offset chunk \<noteq> expected_offset
      then Err (''artifact chunk offset '' @ show_nat (unat (ac_offset chunk)) @
                '' does not match expected offset '' @ show_nat (unat expected_offset))
      else if 2 ^ 64 \<le> unat expected_offset + length (ac_data chunk) then Err ''artifact chunk offset overflows u64''
      else Ok (expected_offset + of_nat (length (ac_data chunk))))"

datatype ChunkReceipt = ReceiptDelivered u64 ContentHash | NoDownloader u64

text \<open>The downloader's subscription: whether it is there at the n-th push, and what it got.\<close>

record pushes =
  ps_attached :: "nat \<Rightarrow> bool"
  ps_count :: nat
  ps_received :: "DeliveryChunk list"

definition push_delivery :: "DeliveryChunk \<Rightarrow> pushes \<Rightarrow> bool \<times> pushes" where
  "push_delivery chunk p =
     (if ps_attached p (ps_count p)
      then (True, p\<lparr>ps_count := ps_count p + 1, ps_received := ps_received p @ [chunk]\<rparr>)
      else (False, p\<lparr>ps_count := ps_count p + 1\<rparr>))"

text \<open>The inbound stream: an item is a message or the error that broke the stream.\<close>

fun receive_delivery_chunks ::
  "'c sha_libs \<Rightarrow> ArtifactManifest \<Rightarrow> u64 \<Rightarrow> 'c Hasher \<Rightarrow> (ErrorCode + DeliverArtifactRequest) list \<Rightarrow> pushes \<Rightarrow>
   (ErrorCode + ChunkReceipt) \<times> pushes" where
  "receive_delivery_chunks H manifest next_offset hasher [] p =
     (Err ErrorCode.InvalidArgument,
      snd (push_delivery (Failed ''delivery stream ended before the final chunk'') p))"
| "receive_delivery_chunks H manifest next_offset hasher (Inl e # items) p = (Err e, p)"
| "receive_delivery_chunks H manifest next_offset hasher (Inr (DeliverStart s) # items) p =
     (Err ErrorCode.InvalidArgument, p)"
| "receive_delivery_chunks H manifest next_offset hasher (Inr DeliverUnset # items) p =
     (Err ErrorCode.InvalidArgument, p)"
| "receive_delivery_chunks H manifest next_offset hasher (Inr (DeliverChunk chunk) # items) p =
     (case next_delivery_offset next_offset chunk of
        Err reason \<Rightarrow> (Err ErrorCode.InvalidArgument, snd (push_delivery (Rejected reason) p))
      | Ok following \<Rightarrow>
          if length (ac_data chunk) \<le> unat TRANSFER_CHUNK_BYTES \<and> following \<le> am_size_bytes manifest
          then
            (case push_delivery (Data (ac_data chunk)) p of
               (False, p1) \<Rightarrow> (Ok (NoDownloader following), p1)
             | (True, p1) \<Rightarrow>
                 let hasher1 = Hasher_update (sl_update H) hasher (ac_data chunk)
                 in if ac_last chunk
                    then (Ok (ReceiptDelivered following (Hasher_finish (sl_finalize H) hasher1)), p1)
                    else receive_delivery_chunks H manifest following hasher1 items p1)
          else (Err ErrorCode.InvalidArgument,
                snd (push_delivery (Rejected ''artifact chunk exceeds its transfer or manifest size limit'') p)))"

definition conclude_delivery ::
  "text_libs \<Rightarrow> ArtifactManifest \<Rightarrow> u64 \<Rightarrow> ChunkReceipt \<Rightarrow> pushes \<Rightarrow> DeliverArtifactResponse \<times> pushes" where
  "conclude_delivery L manifest start_offset receipt p =
     (case receipt of
        NoDownloader committed \<Rightarrow>
          (\<lparr>dr_accepted = False, dr_reason = ''no active download'', dr_committed_offset = committed\<rparr>, p)
      | ReceiptDelivered committed dig \<Rightarrow>
          (case validate_delivery_receipt L manifest start_offset committed dig of
             Accepted \<Rightarrow>
               (\<lparr>dr_accepted = True, dr_reason = [], dr_committed_offset = committed\<rparr>, snd (push_delivery Complete p))
           | Retryable reason \<Rightarrow>
               (\<lparr>dr_accepted = False, dr_reason = reason, dr_committed_offset = committed\<rparr>,
                snd (push_delivery (Failed reason) p))
           | ReceiptRejected reason \<Rightarrow>
               (\<lparr>dr_accepted = False, dr_reason = reason, dr_committed_offset = committed\<rparr>,
                snd (push_delivery (Rejected reason) p))))"

definition deliver_artifact ::
  "'c sha_libs \<Rightarrow> text_libs \<Rightarrow> (string \<Rightarrow> u8 list) \<Rightarrow> string option \<Rightarrow> (ErrorCode + DeliverArtifactRequest) list \<Rightarrow> db \<Rightarrow>
   pushes \<Rightarrow> (ErrorCode + DeliverArtifactResponse) \<times> pushes" where
  "deliver_artifact H L hasher authorization requests d p =
     (case worker_of hasher authorization d of
        Err e \<Rightarrow> (Err e, p)
      | Ok (t, worker) \<Rightarrow>
          (case requests of
             [] \<Rightarrow> (Err ErrorCode.InvalidArgument, p)
           | Inl e # _ \<Rightarrow> (Err e, p)
           | Inr (DeliverStart start) # items \<Rightarrow>
               (case validate_delivery_start L t start d of
                  Err e \<Rightarrow> (Err e, p)
                | Ok (i, manifest) \<Rightarrow>
                    (case receive_delivery_chunks H manifest (ds_offset start) (Hasher_new (sl_new H)) items p of
                       (Err e, p1) \<Rightarrow> (Err e, p1)
                     | (Ok receipt, p1) \<Rightarrow>
                         (case conclude_delivery L manifest (ds_offset start) receipt p1 of
                            (response, p2) \<Rightarrow> (Ok response, p2))))
           | Inr _ # _ \<Rightarrow> (Err ErrorCode.InvalidArgument, p)))"

end
