(* ===== verification/Admission_Safety.thy ===== *)
theory Admission_Safety
  imports Admission
begin

text \<open>
  What admission guarantees: a retried request is answered with the Generation it created and
  changes nothing, a new Generation is queued within the Tenant's limits with its version pinned
  and its inputs claimed, and whatever admission accepts the scheduler can place. Two boundary
  behaviours of the requested timeout are stated as well.
\<close>

section \<open>Replays\<close>

definition replays :: "TenantId \<Rightarrow> AdmissionRequest \<Rightarrow> db \<Rightarrow> bool" where
  "replays t request d \<longleftrightarrow> (\<exists>key. ar_idempotency_key request = Some key \<and> find_key t key d \<noteq> None)"

lemma admit_fresh:
  assumes "\<not> replays t request d"
  shows "admit E L t request new_id clk d =
    rbind (validate_output_placement (ar_output_placement request)) (\<lambda>_.
       if requires_missing_object_store (ar_output_placement request) (object_store_available (ad_store L))
       then Err ObjectStoreUnavailable else admit_new E L t request new_id clk d)"
  using assms by (cases "ar_output_placement request")
    (auto simp: admit_def replays_def replay_idempotent_def rbind_def split: option.splits sum.splits)

lemma admit_freshD:
  "admit E L t request new_id clk d = Ok (g, d') \<Longrightarrow> \<not> replays t request d \<Longrightarrow>
   admit_new E L t request new_id clk d = Ok (g, d')"
  by (auto simp: admit_fresh rbind_eq_Ok split: if_splits)

text \<open>The key of an admitted request leads to its Generation.\<close>

lemma admit_new_key:
  assumes "admit_new E L t request new_id clk d = Ok (g, d')" "ar_idempotency_key request = Some key"
  shows "find_key t key d' = Some \<lparr>k_tenant = t, k_key = key,
      k_request_digest = idempotency_digest E L request, k_generation = g_id g\<rparr>"
proof (rule admit_new_Ok [OF assms(1)])
  fix new d1 d2
  assume "(case ar_idempotency_key request of None \<Rightarrow> Ok d2
      | Some key \<Rightarrow> record_idempotency_key E L t key request (g_id g) d2) = Ok d'"
  then show ?thesis
    using assms(2) by (auto simp: record_idempotency_key_def find_key_def find_snoc split: if_splits)
qed

section \<open>Claimed inputs\<close>

lemma linked_inputs:
  assumes "link_input_artifacts t gen ids clk d = Ok d'" "distinct ids" "inv_keys d" "i \<in> set ids"
  obtains f where "f \<in> set (db_artifacts d)" "fkey f = (t, i)" "claimable t ids clk f"
    "f\<lparr>f_generation := Some gen, f_expires_at := None\<rparr> \<in> set (db_artifacts d')"
proof -
  let ?P = "claimable t ids clk"
  let ?A = "filter ?P (db_artifacts d)"
  have d': "rows_affected ?P (db_artifacts d) = length ids"
    "db_artifacts d' = update_where ?P (\<lambda>f. f\<lparr>f_generation := Some gen, f_expires_at := None\<rparr>) (db_artifacts d)"
    using assms(1,4) by (auto simp: link_input_artifacts_def split: if_splits)
  have "distinct (map fkey ?A)" using assms(3) by (simp add: inv_keys_def distinct_map_filter)
  moreover have "map fkey ?A = map (Pair t) (map f_id ?A)"
    by (simp add: fkey_def claimable_def)
  ultimately have "distinct (map f_id ?A)" by (metis distinct_map)
  then have "card (set (map f_id ?A)) = length (map f_id ?A)" by (rule distinct_card)
  also have "\<dots> = card (set ids)" using d'(1) distinct_card [OF assms(2)] by (simp add: rows_affected_def)
  finally have "card (set (map f_id ?A)) = card (set ids)" .
  moreover have "set (map f_id ?A) \<subseteq> set ids" by (auto simp: claimable_def)
  ultimately have "i \<in> set (map f_id ?A)" using assms(4) card_subset_eq by blast
  then obtain f where f: "f \<in> set (db_artifacts d)" "?P f" "f_id f = i" by auto
  have "f\<lparr>f_generation := Some gen, f_expires_at := None\<rparr> \<in> set (db_artifacts d')"
    unfolding d'(2) set_update_where using f(1,2) by (intro image_eqI [of _ _ f]) simp_all
  then show thesis using that [OF f(1) _ f(2)] f(2,3) by (simp add: fkey_def claimable_def)
qed

lemma validated_inputs:
  assumes "validate_input_artifacts store t ids config d = Ok ()" "i \<in> set ids"
  obtains f where "get_artifact t i d = Some f" "f_direction f = Input"
    "fits_within (row_manifest f) (max_input_artifact_bytes config)"
    "f_placement f = ArtifactPlacement.ObjectStore \<longrightarrow>
       (\<exists>key. f_object_key f = Some key \<and> input_is_ready store key (row_manifest f) = Some True)"
  using assms
  by (induction ids)
    (auto simp: rbind_eq_Ok validate_input_artifact_row_def split: option.splits if_splits)

lemma link_generations:
  "link_input_artifacts t gen ids clk d = Ok d' \<Longrightarrow>
     db_generations d' = db_generations d \<and> db_model_versions d' = db_model_versions d \<and>
     db_idempotency d' = db_idempotency d"
  by (auto simp: link_input_artifacts_def split: if_splits)

lemma record_key_frame:
  "record_idempotency_key E L t key request gen d = Ok d' \<Longrightarrow>
     db_generations d' = db_generations d \<and> db_model_versions d' = db_model_versions d \<and>
     db_artifacts d' = db_artifacts d"
  by (auto simp: record_idempotency_key_def split: if_splits)

lemma insert_generation_Ok:
  assumes "insert_generation E new clk d = Ok (g, d1)"
  shows "d1 = d\<lparr>db_generations := db_generations d @ [g]\<rparr>" "gkey g = (ng_tenant_id new, ng_id new)"
    "gkey g \<notin> gkey ` set (db_generations d)" "g_state g = GenerationState.Queued"
    "g_version g = et_version (ng_target new)" "g_modality g = et_modality (ng_target new)"
    "g_parameters g = ng_parameters new" "g_alias g = ng_alias new"
    "g_priority g = uint (Priority_get (ng_priority new))" "g_priority g \<le> 9"
    "x_interval E (ng_execution_timeout new) = Some (g_execution_timeout g)" "0 < g_execution_timeout g"
proof -
  obtain seed interval where i: "x_interval E (ng_execution_timeout new) = Some interval" "interval \<noteq> 0"
    and g: "g = \<lparr>g_tenant = ng_tenant_id new, g_id = ng_id new, g_state = GenerationState.Queued,
                  g_modality = et_modality (ng_target new), g_alias = ng_alias new,
                  g_version = et_version (ng_target new), g_parameters = ng_parameters new,
                  g_priority = uint (Priority_get (ng_priority new)), g_seed = seed,
                  g_execution_timeout = interval, g_output_placement = ng_output_placement new,
                  g_attempt_count = 0, g_accepted_attempt = None, g_latest_progress = None,
                  g_failure_kind = None, g_failure_message = [], g_created_at = sql_now clk,
                  g_updated_at = sql_now clk, g_started_at = None, g_terminated_at = None\<rparr>"
    and d1: "d1 = d\<lparr>db_generations := db_generations d @ [g]\<rparr>" "\<not> g_priority g > 9"
      "\<not> (\<exists>x \<in> set (db_generations d). gkey x = gkey g)"
    using assms by (auto simp: insert_generation_def rbind_eq_Ok Let_def split: if_splits option.splits)
  show "d1 = d\<lparr>db_generations := db_generations d @ [g]\<rparr>" by (rule d1(1))
  show "g_priority g \<le> 9" using d1(2) by simp
  show "gkey g \<notin> gkey ` set (db_generations d)" using d1(3) by (metis imageE)
  show "x_interval E (ng_execution_timeout new) = Some (g_execution_timeout g)" "0 < g_execution_timeout g"
    using i by (simp_all add: g)
  show "gkey g = (ng_tenant_id new, ng_id new)" "g_state g = GenerationState.Queued"
    "g_version g = et_version (ng_target new)" "g_modality g = et_modality (ng_target new)"
    "g_parameters g = ng_parameters new" "g_alias g = ng_alias new"
    "g_priority g = uint (Priority_get (ng_priority new))"
    by (simp_all add: g gkey_def)
qed

text \<open>What the checks before the insertion establish.\<close>

definition checked ::
  "env \<Rightarrow> admission_libs \<Rightarrow> TenantId \<Rightarrow> AdmissionRequest \<Rightarrow> db \<Rightarrow> TenantSettings \<Rightarrow> ResolvedModel \<Rightarrow> bool" where
  "checked E L t request d config model \<longleftrightarrow>
     settings t d = Ok (Some config) \<and>
     count_nonterminal t d < unat (max_queued_generations config) \<and>
     resolve_model_alias E t (target_alias (ar_target request)) d = Ok (Some model) \<and>
     validate_for_family (ar_parameters request) (mm_family (rm_manifest model)) = Ok () \<and>
     is_ok (shape_of (mm_sampling (rm_manifest model)) (ar_parameters request)) \<and>
     validate_input_artifacts (ad_store L) t (staging_artifact_ids (ar_parameters request)) config d = Ok ()"

lemma capacity_iff: "queue_capacity_exceeded (int n) limit \<longleftrightarrow> unat limit \<le> n"
  by (simp add: queue_capacity_exceeded_def flip: nat_le_iff)

lemma sampling_shape:
  "(case sampling_overrides p of (a, b, c) \<Rightarrow> SamplingPreset_resolve s a b c) = Ok r \<Longrightarrow> is_ok (shape_of s p)"
  by (cases p) simp_all

lemma prepare_checked:
  assumes "prepare E L t request new_id d = Ok new"
  obtains config model where "checked E L t request d config model"
    "ng_alias new = target_alias (ar_target request)"
    "ng_target new = ExecutionTarget_for_model (rm_content_hash model) (mm_family (rm_manifest model))"
    "ad_params_to_json L (ar_parameters request) = Some (ng_parameters new)"
    "ng_priority new = (case ar_priority request of Some p \<Rightarrow> p | None \<Rightarrow> default_priority config)"
    "ng_execution_timeout new = resolve_execution_timeout (ModelManifest_modality (rm_manifest model))
       (rm_limits model) (ar_execution_timeout request) (execution_timeout_ceiling config)"
    "ng_output_placement new = ar_output_placement request" "ng_seed new = ar_seed request"
    "\<forall>seed. ar_seed request = Some seed \<longrightarrow> unat seed < 2 ^ 63"
proof -
  obtain found config u1 resolved model u2 u3 u4 u5 parameters where
    "settings t d = Ok found"
    "(case found of None \<Rightarrow> Err (Internal SettingsNotFound) | Some s \<Rightarrow> Ok s) = Ok config"
    "(if queue_capacity_exceeded (int (count_nonterminal t d)) (max_queued_generations config)
      then Err CapacityExceeded else Ok ()) = Ok u1"
    "resolve_model_alias E t (target_alias (ar_target request)) d = Ok resolved"
    "(case resolved of None \<Rightarrow> Err UnknownAlias | Some m \<Rightarrow> Ok m) = Ok model"
    "validate_for_family (ar_parameters request) (mm_family (rm_manifest model)) = Ok u2"
    "(case sampling_overrides (ar_parameters request) of (steps, cfg_scale, sigmas) \<Rightarrow>
        SamplingPreset_resolve (mm_sampling (rm_manifest model)) steps cfg_scale sigmas) = Ok u3"
    "validate_input_artifacts (ad_store L) t (staging_artifact_ids (ar_parameters request)) config d = Ok u4"
    "(case ar_seed request of
        None \<Rightarrow> Ok ()
      | Some seed \<Rightarrow> (case validate_seed seed of
                       Ok _ \<Rightarrow> Ok () | Err _ \<Rightarrow> Err (InvalidInput (SeedTooLarge seed)))) = Ok u5"
    "(case ad_params_to_json L (ar_parameters request) of
        None \<Rightarrow> Err (Internal ParametersNotEncoded) | Some j \<Rightarrow> Ok j) = Ok parameters"
    and new: "new = \<lparr>ng_id = new_id, ng_tenant_id = t, ng_alias = target_alias (ar_target request),
           ng_target = ExecutionTarget_for_model (rm_content_hash model) (mm_family (rm_manifest model)),
           ng_parameters = parameters,
           ng_priority = (case ar_priority request of Some p \<Rightarrow> p | None \<Rightarrow> default_priority config),
           ng_seed = ar_seed request,
           ng_execution_timeout =
             resolve_execution_timeout (ModelManifest_modality (rm_manifest model)) (rm_limits model)
               (ar_execution_timeout request) (execution_timeout_ceiling config),
           ng_output_placement = ar_output_placement request\<rparr>"
    using assms unfolding prepare_def rbind_eq_Ok map_err_eq_Ok sum.inject by blast
  note st = this
  show thesis
  proof (rule that [of config model])
    show "checked E L t request d config model"
      using st(1-6,8) sampling_shape [OF st(7)]
      by (auto simp: checked_def capacity_iff not_le split: option.splits if_splits)
    show "ad_params_to_json L (ar_parameters request) = Some (ng_parameters new)"
      using st(10) by (simp add: new split: option.splits)
    show "\<forall>seed. ar_seed request = Some seed \<longrightarrow> unat seed < 2 ^ 63"
      using st(9) by (auto simp: validate_seed_def split: if_splits)
  qed (simp_all add: new)
qed

section \<open>The outcome of an admission\<close>

lemma count_nonterminal_snoc:
  assumes "db_generations d' = db_generations d @ [g]"
  shows "count_nonterminal t d' \<le> Suc (count_nonterminal t d)"
  by (simp add: count_nonterminal_def rows_affected_def assms)

text \<open>The row a new admission stores, with the model it is pinned to and the settings in force.\<close>

lemma admit_new_row:
  assumes "admit_new E L t request new_id clk d = Ok (g, d')"
  obtains config model where "checked E L t request d config model"
    "gkey g = (t, new_id)" "gkey g \<notin> gkey ` set (db_generations d)" "g_state g = GenerationState.Queued"
    "g_version g = rm_content_hash model" "g_modality g = ModelManifest_modality (rm_manifest model)"
    "ad_params_to_json L (ar_parameters request) = Some (g_parameters g)" "0 \<le> g_priority g" "g_priority g \<le> 9"
    "0 < g_execution_timeout g"
    "x_interval E (resolve_execution_timeout (ModelManifest_modality (rm_manifest model)) (rm_limits model)
       (ar_execution_timeout request) (execution_timeout_ceiling config)) = Some (g_execution_timeout g)"
    "db_generations d' = db_generations d @ [g]" "db_model_versions d' = db_model_versions d"
proof (rule admit_new_Ok [OF assms])
  fix new d1 d2
  assume new: "prepare E L t request new_id d = Ok new" and d1: "insert_generation E new clk d = Ok (g, d1)"
    and d2: "link_input_artifacts t (g_id g) (staging_artifact_ids (ar_parameters request)) clk d1 = Ok d2"
    and d3: "(case ar_idempotency_key request of None \<Rightarrow> Ok d2
      | Some key \<Rightarrow> record_idempotency_key E L t key request (g_id g) d2) = Ok d'"
  note g = insert_generation_Ok [OF d1]
  have "db_generations d' = db_generations d2 \<and> db_model_versions d' = db_model_versions d2"
    using d3 by (auto split: option.splits dest!: record_key_frame)
  then have d': "db_generations d' = db_generations d @ [g]" "db_model_versions d' = db_model_versions d"
    using link_generations [OF d2] g(1) by simp_all
  show thesis
    by (rule prepare_checked [OF new], rule that)
      (use g d' prepare_tenant [OF new] in \<open>simp_all add: ExecutionTarget_for_model_def ModelManifest_modality_def\<close>)
qed

lemma admit_new_inputs:
  assumes "good d" "admit_new E L t request new_id clk d = Ok (g, d')"
    and "i \<in> set (staging_artifact_ids (ar_parameters request))"
  shows "\<exists>f \<in> set (db_artifacts d'). fkey f = (t, i) \<and> f_direction f = Input \<and>
    f_generation f = Some (g_id g) \<and> f_expires_at f = None"
proof (rule admit_new_Ok [OF assms(2)])
  fix new d1 d2
  assume d1: "insert_generation E new clk d = Ok (g, d1)"
    and d2: "link_input_artifacts t (g_id g) (staging_artifact_ids (ar_parameters request)) clk d1 = Ok d2"
    and d3: "(case ar_idempotency_key request of None \<Rightarrow> Ok d2
      | Some key \<Rightarrow> record_idempotency_key E L t key request (g_id g) d2) = Ok d'"
  have arts: "db_artifacts d' = db_artifacts d2" using d3 by (auto split: option.splits dest!: record_key_frame)
  have keys: "inv_keys d1" using inv_insert_generation(1) [OF goodD(1) [OF assms(1)] d1] by (rule store_invD(1))
  show ?thesis
  proof (rule linked_inputs [OF d2 _ keys assms(3)])
    show "distinct (staging_artifact_ids (ar_parameters request))" using staging_inputs_in_order by blast
    fix f assume f: "fkey f = (t, i)" "claimable t (staging_artifact_ids (ar_parameters request)) clk f"
      "f\<lparr>f_generation := Some (g_id g), f_expires_at := None\<rparr> \<in> set (db_artifacts d2)"
    then show ?thesis
      by (intro bexI [of _ "f\<lparr>f_generation := Some (g_id g), f_expires_at := None\<rparr>"])
        (simp_all add: arts fkey_def claimable_def)
  qed
qed

text \<open>The key of an accepted request, new or replayed.\<close>

lemma admitted_key:
  assumes "good d" "admit E L t request new_id clk d = Ok (g, d')" "ar_idempotency_key request = Some key"
  shows "\<exists>row. find_key t key d' = Some row \<and> k_request_digest row = idempotency_digest E L request \<and>
    gkey g = (t, k_generation row) \<and> g \<in> set (db_generations d')"
proof (cases "replays t request d")
  case True
  with assms(2,3) obtain row where "find_key t key d = Some row" "k_request_digest row = idempotency_digest E L request"
    "get_generation t (k_generation row) d = Some g" "d' = d"
    by (auto simp: admit_def rbind_eq_Ok replays_def replay_idempotent_def split: if_splits option.splits)
  then show ?thesis using gens.lookup_SomeD [of "(t, k_generation row)" d g] by (simp add: get_generation_def)
next
  case False
  note new = admit_freshD [OF assms(2) False]
  show ?thesis
    by (rule admit_new_row [OF new]) (use admit_new_key [OF new assms(3)] in \<open>auto simp: gkey_def\<close>)
qed

lemma admit_replayed:
  assumes "good d" "admit E L t request new_id clk d = Ok (g, d')" "ar_idempotency_key request = Some key"
    and "good d''" "gen_moves d' d''" "find_key t key d'' = find_key t key d'"
    and "ar_idempotency_key request' = Some key"
    and "validate_output_placement (ar_output_placement request') = Ok ()"
    and "\<not> requires_missing_object_store (ar_output_placement request') (object_store_available (ad_store L))"
  shows "if idempotency_digest E L request' = idempotency_digest E L request
    then \<exists>g'. admit E L t request' new_id' clk' d'' = Ok (g', d'') \<and> gen_step g g'
    else admit E L t request' new_id' clk' d'' = Err (InvalidInput IdempotencyKeyReused)"
proof -
  obtain row where row: "find_key t key d'' = Some row" "k_request_digest row = idempotency_digest E L request"
    "gkey g = (t, k_generation row)" "g \<in> set (db_generations d')"
    using admitted_key [OF assms(1-3)] assms(6) by auto
  then obtain g' where g': "g' \<in> set (db_generations d'')" "gen_step g g'"
    using assms(5) unfolding gen_moves_def by blast
  have "gens.unique_keys d''" using goodD(3) [OF assms(4)] by (simp add: inv_keys_def)
  then have "get_generation t (k_generation row) d'' = Some g'"
    using gens.lookup_Some_iff [of d'' "(t, k_generation row)" g'] g' row(3)
    by (simp add: get_generation_def gen_step_def)
  then show ?thesis
    using assms(7-9) row(1,2) g'(2) by (simp add: admit_def replay_idempotent_def rbind_def)
qed

section \<open>Properties\<close>

text \<open>The documented conversion of a duration to a PostgreSQL interval: whole microseconds that
  fit 64 bits convert exactly, everything else is refused.\<close>

definition interval_law :: "env \<Rightarrow> bool" where
  "interval_law E \<longleftrightarrow> (\<forall>x. x_interval E x = (if x mod 1000 = 0 \<and> x div 1000 < 2 ^ 63 then Some x else None))"



text \<open>A catalog whose stored manifests decode, are runnable and are stored under their own hash, as
  the verification of a capability report leaves it.\<close>

definition catalog_verified :: "env \<Rightarrow> TenantId \<Rightarrow> db \<Rightarrow> bool" where
  "catalog_verified E t d \<longleftrightarrow> (\<forall>v \<in> set (db_model_versions d). mv_tenant v = t \<longrightarrow>
     (\<exists>m. x_manifest_from_json E (mv_manifest v) = Some m \<and> ModelManifest_validate m = Ok () \<and>
        canonical_hash (x_manifest_to_vec E) (x_sha256 E) m = Some (mv_content v)))"

lemma resolved_version:
  assumes "resolve_model_alias E t alias d = Ok (Some model)"
  obtains v where "find (\<lambda>v. mv_tenant v = t \<and> mv_content v = rm_content_hash model) (db_model_versions d) = Some v"
    "v \<in> set (db_model_versions d)" "mv_tenant v = t" "mv_content v = rm_content_hash model"
    "x_manifest_from_json E (mv_manifest v) = Some (rm_manifest model)"
proof -
  obtain h v where "find (\<lambda>v. mv_tenant v = t \<and> mv_content v = h) (db_model_versions d) = Some v"
    "decode_manifest E (mv_manifest v) = Ok (rm_manifest model)" "rm_content_hash model = mv_content v"
    using assms by (auto simp: resolve_model_alias_def rbind_eq_Ok split: option.splits)
  moreover from this(1) have "v \<in> set (db_model_versions d)" "mv_tenant v = t" "mv_content v = h"
    by (auto simp: find_Some_iff)
  ultimately show thesis by (intro that [of v]) (auto simp: decode_manifest_def split: option.splits)
qed

text \<open>C25: What admission accepts the scheduler can place. With a verified catalog, and when the
  stored parameters decode to the requested ones, a newly admitted Generation is a scheduling
  candidate whose requirement names the pinned version, and every Slot of the Tenant that
  advertises that version and its LoRAs and sets no shape limit admits it.\<close>
theorem admitted_is_schedulable:
  assumes "admit E L t request new_id clk d = Ok (g, d')" "\<not> replays t request d" "catalog_verified E t d"
    and "x_params_from_json E (g_parameters g) = Some (ar_parameters request)"
  shows "\<exists>c manifest. into_candidate E t d' g = Ok c \<and> cd_generation_id c = new_id \<and>
    rq_version (cd_requirement c) = g_version g \<and> rq_tenant_id (cd_requirement c) = t \<and>
    canonical_hash (x_manifest_to_vec E) (x_sha256 E) manifest = Some (g_version g) \<and>
    (\<forall>slot. sc_tenant_id slot = t \<and> sc_model_manifests slot (g_version g) = Some manifest \<and>
       set (required_loras_of (ar_parameters request)) \<subseteq> set (sc_image_loras slot) \<and>
       sc_shape_limits slot = unlimited \<longrightarrow> admits slot (cd_requirement c) = Ok ())"
proof (rule admit_new_row [OF admit_freshD [OF assms(1,2)]])
  fix config model
  assume *: "checked E L t request d config model" "gkey g = (t, new_id)" "0 \<le> g_priority g" "g_priority g \<le> 9"
    "g_version g = rm_content_hash model" "db_model_versions d' = db_model_versions d"
  let ?m = "rm_manifest model" and ?p = "ar_parameters request"
  have ids: "g_id g = new_id" "g_tenant g = t" using *(2) by (simp_all add: gkey_def)
  obtain shape where shape: "shape_of (mm_sampling ?m) ?p = Ok shape"
    using *(1) by (auto simp: checked_def is_ok_def split: sum.splits)
  have "resolve_model_alias E t (target_alias (ar_target request)) d = Ok (Some model)"
    using *(1) by (simp add: checked_def)
  then obtain v where v: "find (\<lambda>v. mv_tenant v = t \<and> mv_content v = rm_content_hash model) (db_model_versions d) = Some v"
    "v \<in> set (db_model_versions d)" "mv_tenant v = t" "mv_content v = rm_content_hash model"
    "x_manifest_from_json E (mv_manifest v) = Some ?m"
    by (rule resolved_version)
  then have m: "ModelManifest_validate ?m = Ok ()"
    "canonical_hash (x_manifest_to_vec E) (x_sha256 E) ?m = Some (g_version g)"
    using assms(3) *(5) unfolding catalog_verified_def by auto
  define r where "r = \<lparr>rq_tenant_id = t, rq_modality = ModelManifest_modality ?m, rq_version = g_version g,
      rq_required_loras = required_loras_of ?p, rq_shape = shape\<rparr>"
  have r: "for_generation (x_manifest_to_vec E) (x_sha256 E) t (g_version g) ?m ?p = Ok r"
    using m shape *(1) by (simp add: for_generation_def checked_def r_def)
  have "pinned_manifest g d' = Some (mv_manifest v)"
    using v(1) *(5,6) ids by (simp add: pinned_manifest_def)
  then have "requirement_from_parts E t (g_id g) (g_version g) (g_parameters g) (pinned_manifest g d') = Ok r"
    using v(5) assms(4) r by (simp add: requirement_from_parts_def)
  moreover have "uint (of_int (g_priority g) :: u8) = g_priority g"
    using *(3,4) by (simp add: uint_word_of_int)
  then have "Priority_new (of_int (g_priority g)) = Ok (Priority (of_int (g_priority g)))"
    using *(4) by (simp add: Priority_new_def Priority_MAX_def word_le_def)
  ultimately have "into_candidate E t d' g = Ok \<lparr>cd_generation_id = new_id, cd_created_at = g_created_at g,
      cd_priority = Priority (of_int (g_priority g)), cd_requirement = r\<rparr>"
    using *(3,4) ids by (simp add: into_candidate_def)
  moreover have "admits slot r = Ok ()"
    if "sc_tenant_id slot = t" "sc_model_manifests slot (g_version g) = Some ?m"
      "set (required_loras_of ?p) \<subseteq> set (sc_image_loras slot)" "sc_shape_limits slot = unlimited" for slot
    using for_generation_shape [OF r] that by (simp add: admits_iff slot_capable_def r_def)
  ultimately show ?thesis using m(2) by (auto simp: r_def)
qed

lemma seed_fits: "unat (v :: u64) < 2 ^ 63 \<Longrightarrow> uint v < 2 ^ 63"
  using of_nat_less_iff [of "unat v" "2 ^ 63", where 'a = int] by simp

text \<open>C26: A requested timeout of zero, or one with a part below a microsecond, passes every check of
  admission and then fails in the database: the caller of an otherwise valid request gets an
  internal error, not a rejection of its input, and nothing is stored.\<close>
theorem timeout_precision_fault:
  assumes "interval_law E" "prepare E L t request new_id d = Ok new" "\<not> replays t request d"
    and "ar_output_placement request = ArtifactPlacement.WorkerLocal"
    and "ng_execution_timeout new = 0 \<or> ng_execution_timeout new mod 1000 \<noteq> 0"
  shows "\<exists>e. admit E L t request new_id clk d = Err (Internal (StoreFault e))"
proof -
  have seed: "\<exists>seed. (case ng_seed new of Some value \<Rightarrow> if uint value < 2 ^ 63 then Ok (Some (uint value))
        else Err (InsertSeedOutOfRange value) | None \<Rightarrow> Ok None) = Ok seed"
    by (rule prepare_checked [OF assms(2)]) (auto dest: seed_fits [simplified] split: option.splits)
  have "x_interval E (ng_execution_timeout new) = None \<or> x_interval E (ng_execution_timeout new) = Some 0"
    using assms(1,5) by (auto simp: interval_law_def)
  then have "\<exists>e. insert_generation E new clk d = Err (InsertDatabase e)"
    using seed by (auto simp: insert_generation_def Let_def)
  then show ?thesis
    using assms(2,4) admit_fresh [OF assms(3)]
    by (auto simp: admit_new_def requires_missing_object_store_def requires_object_store_def)
qed

section \<open>An example\<close>

definition example_request :: AdmissionRequest where
  "example_request =
     \<lparr>ar_target = Model ''draw'', ar_parameters = GenerationParameters.Image example_image,
      ar_output_placement = ArtifactPlacement.WorkerLocal, ar_priority = None, ar_seed = Some 4,
      ar_execution_timeout = None, ar_idempotency_key = Some ''retry-1''\<rparr>"

definition example_admission_libs :: admission_libs where
  "example_admission_libs =
     \<lparr>ad_payload_to_vec = (\<lambda>p. Some [of_nat (length (dp_alias p))]), ad_params_to_json = (\<lambda>_. Some JNull),
      ad_store = \<lparr>os_configured = False, os_head = (\<lambda>_. HeadNotFound)\<rparr>\<rparr>"

definition example_admission_env :: env where
  "example_admission_env = example_env\<lparr>x_interval :=
     (\<lambda>x. if x mod 1000 = 0 \<and> x div 1000 < 2 ^ 63 then Some x else None)\<rparr>"

definition example_admission_db :: db where
  "example_admission_db = example_ready_db\<lparr>
     db_tenants := [new_tenant_row 7 ''acme'' example_clocks],
     db_aliases := [\<lparr>al_tenant = 7, al_alias = ''draw'', al_content = example_version,
       al_created_at = 0, al_updated_at = 0\<rparr>],
     db_master_keys := [\<lparr>mk_tenant = 7, mk_id = 3, mk_key_hash = [9], mk_label = ''ci'',
       mk_created_at = 0, mk_expires_at = None, mk_revoked_at = None\<rparr>]\<rparr>"

lemma example_admission_laws:
  "interval_law example_admission_env" "good example_admission_db"
  "catalog_verified example_admission_env 7 example_admission_db"
  "\<not> replays 7 example_request example_admission_db"
proof -
  show "interval_law example_admission_env" by (simp add: interval_law_def example_admission_env_def)
  show "good example_admission_db"
    using example_ready_good(1) by (simp add: example_admission_db_def good_def inv_events_def events_of_def)
  have "ModelManifest_validate example_manifest = Ok ()"
    using for_generation_OkD [OF example_for_generation] by (simp add: ModelManifest_validate_iff)
  then show "catalog_verified example_admission_env 7 example_admission_db"
    by (simp add: catalog_verified_def example_admission_db_def example_ready_db_def example_model_row_def
        example_admission_env_def example_env_def canonical_hash_def digest_def example_version_def)
  show "\<not> replays 7 example_request example_admission_db"
    by (simp add: replays_def find_key_def example_admission_db_def example_ready_db_def example_queued_db_def empty_db_def)
qed

definition example_new :: "AdmissionRequest \<Rightarrow> NewGeneration" where
  "example_new request =
     \<lparr>ng_id = 60, ng_tenant_id = 7, ng_alias = ''draw'',
      ng_target = \<lparr>et_version = example_version, et_modality = Modality.Image\<rparr>, ng_parameters = JNull,
      ng_priority = Priority_DEFAULT, ng_seed = Some 4,
      ng_execution_timeout = (case ar_execution_timeout request of None \<Rightarrow> from_hours 2 | Some x \<Rightarrow> min x (from_hours 2)),
      ng_output_placement = ArtifactPlacement.WorkerLocal\<rparr>"

lemma example_prepare:
  "prepare example_admission_env example_admission_libs 7 (example_request\<lparr>ar_execution_timeout := x\<rparr>) 60
     example_admission_db = Ok (example_new (example_request\<lparr>ar_execution_timeout := x\<rparr>))"
proof -
  have set: "settings 7 example_admission_db = Ok (Some TenantSettings_default)"
    using new_tenant_row_settings [of 7 "''acme''" example_clocks]
    by (simp add: settings_def example_admission_db_def new_tenant_row_def)
  have model: "resolve_model_alias example_admission_env 7 ''draw'' example_admission_db =
      Ok (Some \<lparr>rm_content_hash = example_version, rm_manifest = example_manifest,
        rm_limits = \<lparr>execution_timeout = None, estimated_memory_bytes = None\<rparr>\<rparr>)"
    by (simp add: resolve_model_alias_def example_admission_db_def example_ready_db_def example_model_row_def
        decode_manifest_def decode_limits_def example_admission_env_def example_env_def)
  have refs: "img_references example_image = []" "mm_family example_manifest = QwenImage21"
    by (simp_all add: example_image_def example_manifest_def)
  have val: "ImageParameters_validate example_image = Ok ()"
    "is_ok (SamplingPreset_resolve (mm_sampling example_manifest) (img_steps example_image)
       (img_cfg_scale example_image) (img_sigmas example_image))"
    using for_generation_OkD [OF example_for_generation] refs
    by (auto simp: rbind_eq_Ok map_err_eq_Ok is_ok_def split: sum.splits)
  have count: "count_nonterminal 7 example_admission_db = 1"
    by (simp add: count_nonterminal_def rows_affected_def example_admission_db_def example_ready_db_def
        example_queued_db_def example_generation_def)
  show ?thesis
    using val(2)
    by (auto simp: prepare_def set model val(1) count queue_capacity_exceeded_def TenantSettings_default_def
        example_request_def example_admission_libs_def validate_seed_def example_new_def refs
        ExecutionTarget_for_model_def ModelFamily_modality_def ModelManifest_modality_def
        resolve_execution_timeout_def default_execution_timeout_def from_hours_def from_mins_def from_secs_def is_ok_def min_def
        split: sum.splits option.splits)
qed

definition example_admitted :: GenerationRow where
  "example_admitted = fst (projr (insert_generation example_admission_env
     (example_new example_request) example_clocks example_admission_db))"

lemma example_admit:
  "admit example_admission_env example_admission_libs 7 example_request 60 example_clocks example_admission_db =
     Ok (example_admitted, example_admission_db\<lparr>db_generations := db_generations example_admission_db @ [example_admitted],
       db_idempotency := [\<lparr>k_tenant = 7, k_key = ''retry-1'',
         k_request_digest = idempotency_digest example_admission_env example_admission_libs example_request,
         k_generation = 60\<rparr>]\<rparr>)"
proof -
  have timeout: "ar_execution_timeout example_request = None" by (simp add: example_request_def)
  then have prep: "prepare example_admission_env example_admission_libs 7 example_request 60 example_admission_db =
      Ok (example_new example_request)"
    using example_prepare [of None] by (simp add: example_request_def)
  have gens: "db_generations example_admission_db = [example_generation\<lparr>g_state := GenerationState.Queued,
       g_attempt_count := 0, g_started_at := None\<rparr>]" "db_idempotency example_admission_db = []"
    by (simp_all add: example_admission_db_def example_ready_db_def example_queued_db_def empty_db_def)
  have ins: "insert_generation example_admission_env (example_new example_request) example_clocks example_admission_db =
      Ok (example_admitted, example_admission_db\<lparr>db_generations := db_generations example_admission_db @ [example_admitted]\<rparr>)"
    "g_id example_admitted = 60" "gkey example_admitted = (7, 60)"
    by (simp_all add: example_admitted_def insert_generation_def example_new_def timeout example_admission_env_def
        from_hours_def from_mins_def from_secs_def gens gkey_def example_generation_def Priority_DEFAULT_def Let_def)
  have req: "ar_idempotency_key example_request = Some ''retry-1''"
    "ar_output_placement example_request = ArtifactPlacement.WorkerLocal"
    "staging_artifact_ids (ar_parameters example_request) = []"
    by (simp_all add: example_request_def example_image_def)
  show ?thesis
    using example_admission_laws(4)
    by (simp add: admit_fresh admit_new_def prep ins req link_input_artifacts_def record_idempotency_key_def
        requires_missing_object_store_def requires_object_store_def find_key_def gens get_generation_def find_snoc
        split: option.splits)
qed

lemma example_admitted_simps:
  "g_parameters example_admitted = JNull" "g_version example_admitted = example_version"
proof -
  show "g_parameters example_admitted = JNull" "g_version example_admitted = example_version"
    by (rule admit_new_row [OF admit_freshD [OF example_admit example_admission_laws(4)]],
        simp add: example_admission_libs_def)
      (rule admit_new_Ok [OF admit_freshD [OF example_admit example_admission_laws(4)]],
       use example_prepare [of None] in \<open>auto simp: example_request_def example_new_def dest!: insert_generation_Ok(5)\<close>)
qed

text \<open>The digest covers the timeout in whole seconds only, so requests that differ below a second
  replay each other.\<close>

lemma digest_ignores_subseconds:
  assumes "x div 1000000000 = y div 1000000000"
  shows "idempotency_digest E L (request\<lparr>ar_execution_timeout := Some x\<rparr>) =
    idempotency_digest E L (request\<lparr>ar_execution_timeout := Some y\<rparr>)"
  using assms by (simp add: idempotency_digest_def digest_payload_def)

abbreviation example_admitted_db :: db where
  "example_admitted_db \<equiv> snd (projr (admit example_admission_env example_admission_libs 7 example_request 60
     example_clocks example_admission_db))"

lemma example_admit_eq:
  "admit example_admission_env example_admission_libs 7 example_request 60 example_clocks example_admission_db =
     Ok (example_admitted, example_admitted_db)"
  by (simp add: example_admit)



theorem admitted_is_schedulable_witness:
  "\<exists>c. into_candidate example_admission_env 7 example_admitted_db example_admitted = Ok c \<and>
     rq_version (cd_requirement c) = example_version"
  using admitted_is_schedulable [OF example_admit_eq example_admission_laws(4,3)] example_admitted_simps
  by (auto simp: example_admission_env_def example_env_def example_request_def)

theorem timeout_precision_fault_witness:
  "\<exists>e. admit example_admission_env example_admission_libs 7 (example_request\<lparr>ar_execution_timeout := Some 1500\<rparr>) 60
     example_clocks example_admission_db = Err (Internal (StoreFault e))"
proof (rule timeout_precision_fault [OF example_admission_laws(1) example_prepare])
  show "\<not> replays 7 (example_request\<lparr>ar_execution_timeout := Some 1500\<rparr>) example_admission_db"
    using example_admission_laws(4) by (simp add: replays_def)
qed (simp_all add: example_request_def example_new_def from_hours_def from_mins_def from_secs_def)

end
