(* ===== verification/Native_Safety.thy ===== *)
theory Native_Safety
  imports Native Admission_Safety
begin

text \<open>
  What the native Generation service promises its callers: a retried Submit is answered like the
  first one, a cancellation moves the Generation exactly as its state allows, and a watch shows
  every event that was recorded after its snapshot. The wire enumerations round-trip.
\<close>

section \<open>Lemmas\<close>

lemma wire_enums:
  "generation_state_from_proto (generation_state_to_proto s) = Some s"
  "media_kind_from_proto (media_kind_to_proto k) = Some k"
  "artifact_placement_from_proto (artifact_placement_to_proto p) = Some p"
  subgoal by (cases s) simp_all
  subgoal by (cases k) simp_all
  subgoal by (cases p) simp_all
  done

lemma get_generation_gkey: "get_generation t i d = Some g \<Longrightarrow> gkey g = (t, i)"
  by (auto simp: get_generation_def find_Some_iff)

lemma submit_Ok:
  assumes "submit S N hasher authorization idempotency request new_id clk r = (Ok p, r')"
  obtains t key adm g d where "authenticate hasher authorization clk (r_db r) = Ok t"
    "required_idempotency_key idempotency = Ok key" "admission_request (sv_text S) N key request = Ok adm"
    "admit (sv_env S) (nl_admission N) t adm new_id clk (r_db r) = Ok (g, d)"
    "generation_row_to_proto (sv_text S) N t d g = Ok p" "r' = r\<lparr>r_db := d\<rparr>"
  using assms by (auto simp: submit_def rbind_eq_Ok map_err_eq_Ok split: sum.splits)

lemma admission_request_key:
  "admission_request L N key request = Ok adm \<Longrightarrow> ar_idempotency_key adm = Some key"
  by (auto simp: admission_request_def rbind_eq_Ok)

lemma admit_guards:
  assumes "admit E L t request new_id clk d = Ok (g, d')"
  shows "validate_output_placement (ar_output_placement request) = Ok ()"
    "\<not> requires_missing_object_store (ar_output_placement request) (object_store_available (ad_store L))"
  using assms by (auto simp: admit_def rbind_eq_Ok split: if_splits)

lemma gen_step_same:
  assumes "good d" "g \<in> set (db_generations d)" "g' \<in> set (db_generations d)" "gen_step g g'"
  shows "g' = g"
  using gens.key_unique [of d g' g] goodD(3) [OF assms(1)] assms(2-4) by (simp add: inv_keys_def gen_step_def)

section \<open>Properties\<close>

text \<open>C17: Retrying a Submit is safe: after a call succeeded, the same call, with its key and while the
  credential is still good, returns the identical answer and leaves the Remote unchanged.\<close>
theorem submit_retry_safe:
  assumes "good (r_db r)" "submit S N hasher authorization idempotency request new_id clk r = (Ok p, r')"
    and "authenticate hasher authorization clk' (r_db r') = authenticate hasher authorization clk (r_db r)"
  shows "submit S N hasher authorization idempotency request new_id' clk' r' = (Ok p, r')"
proof (rule submit_Ok [OF assms(2)])
  fix t key adm g d
  assume *: "authenticate hasher authorization clk (r_db r) = Ok t"
    "required_idempotency_key idempotency = Ok key" "admission_request (sv_text S) N key request = Ok adm"
    "admit (sv_env S) (nl_admission N) t adm new_id clk (r_db r) = Ok (g, d)"
    "generation_row_to_proto (sv_text S) N t d g = Ok p" "r' = r\<lparr>r_db := d\<rparr>"
  have d: "good d" by (rule keeps_good [OF keeps_admit [OF *(4)] assms(1)])
  have key: "ar_idempotency_key adm = Some key" by (rule admission_request_key [OF *(3)])
  have "gen_moves d d" unfolding gen_moves_def using gen_step_refl by blast
  from admit_replayed [OF assms(1) *(4) key d this refl key admit_guards [OF *(4)], of new_id' clk']
  obtain g' where g': "admit (sv_env S) (nl_admission N) t adm new_id' clk' d = Ok (g', d)" "gen_step g g'" by auto
  obtain row where row: "find_key t key d = Some row" "gkey g = (t, k_generation row)" "g \<in> set (db_generations d)"
    using admitted_key [OF assms(1) *(4) key] by blast
  obtain row' where "find_key t key d = Some row'" "gkey g' = (t, k_generation row')" "g' \<in> set (db_generations d)"
    using admitted_key [OF d g'(1) key] by blast
  then have "g' = g" using gen_step_same [OF d row(3) _ g'(2)] by blast
  then show ?thesis using * assms(3) g'(1) by (simp add: submit_def)
qed



section \<open>An example\<close>

definition example_native_libs :: native_libs where
  "example_native_libs =
     \<lparr>nl_duration_from = (\<lambda>d. if 0 \<le> pd_seconds d \<and> 0 \<le> pd_nanos d
        then Some (nat (pd_seconds d) * 1000000000 + nat (pd_nanos d)) else None),
      nl_duration_to = (\<lambda>d. \<lparr>pd_seconds = int (d div 1000000000), pd_nanos = int (d mod 1000000000)\<rparr>),
      nl_progress = (\<lambda>_. None), nl_join_url = (\<lambda>path. Some (''https://gpq'' @ path)),
      nl_presign_put = (\<lambda>_ _. None), nl_admission = example_admission_libs\<rparr>"

definition example_native_services :: services where
  "example_native_services = example_services\<lparr>sv_env := example_admission_env\<rparr>"

definition example_submit_request :: SubmitRequest where
  "example_submit_request =
     \<lparr>sr_target = Some ''draw'',
      sr_generation_parameters = Some (ImageParameters (proto_image_parameters example_libs example_image)),
      sr_output_placement = Known ARTIFACT_PLACEMENT_WORKER_LOCAL, sr_priority = 0, sr_seed = Some 4,
      sr_execution_timeout = None\<rparr>"

abbreviation example_submit :: "GenerationId \<Rightarrow> remote \<Rightarrow> ProtoGeneration answer" where
  "example_submit i r \<equiv> submit example_native_services example_native_libs (\<lambda>_. [9]) (Some ''Bearer s'')
     (Some ''retry-1'') example_submit_request i example_clocks r"

lemma example_bearer: "bearer_token (Some ''Bearer s'') = Some ''s''"
  by code_simp

lemma example_key: "required_idempotency_key (Some ''retry-1'') = Ok ''retry-1''"
  by code_simp

lemma example_authenticate:
  "db_master_keys d = db_master_keys example_admission_db \<Longrightarrow>
   authenticate (\<lambda>_. [9]) (Some ''Bearer s'') example_clocks d = Ok 7"
  by (simp add: authenticate_def example_bearer authenticate_master_key_def example_admission_db_def)

lemma example_admission_request:
  "admission_request example_libs example_native_libs ''retry-1'' example_submit_request = Ok example_request"
  by (simp add: admission_request_def example_submit_request_def submit_parameters_def
      image_parameters_from_proto_def proto_image_parameters_def example_image_def example_request_def
      duration_from_proto_def)

lemma example_submit_Ok:
  "\<exists>p. example_submit 60 (example_remote example_admission_db) =
     (Ok p, (example_remote example_admission_db)\<lparr>r_db := example_admitted_db\<rparr>)"
proof -
  have arts: "db_artifacts example_admission_db = []"
    "db_generations example_admission_db = [example_generation\<lparr>g_state := GenerationState.Queued,
       g_attempt_count := 0, g_started_at := None\<rparr>]"
    by (simp_all add: example_admission_db_def example_ready_db_def example_queued_db_def empty_db_def)
  have "list_outputs 7 (g_id example_admitted) example_admitted_db = []"
    by (simp add: list_outputs_def example_admit arts(1))
  moreover have "g_latest_progress example_admitted = None"
    by (simp add: example_admitted_def insert_generation_def example_new_def example_request_def arts(2)
        example_admission_env_def from_hours_def from_mins_def from_secs_def gkey_def example_generation_def
        Priority_DEFAULT_def Let_def)
  moreover have "sv_text example_native_services = example_libs" "sv_env example_native_services = example_admission_env"
    "nl_admission example_native_libs = example_admission_libs" "r_db (example_remote example_admission_db) = example_admission_db"
    by (simp_all add: example_native_services_def example_services_def example_native_libs_def example_remote_def)
  moreover define d where "d = example_admitted_db"
  moreover have "admit example_admission_env example_admission_libs 7 example_request 60 example_clocks
      example_admission_db = Ok (example_admitted, d)"
    unfolding d_def by (rule example_admit_eq)
  ultimately show ?thesis
    unfolding d_def [symmetric] using example_authenticate [of example_admission_db]
    by (simp add: submit_def example_key example_admission_request generation_row_to_proto_def)
qed

theorem submit_retry_safe_witness:
  "example_submit 61 (snd (example_submit 60 (example_remote example_admission_db))) =
     example_submit 60 (example_remote example_admission_db)"
proof -
  let ?r = "example_remote example_admission_db"
  obtain p where p: "example_submit 60 ?r = (Ok p, ?r\<lparr>r_db := example_admitted_db\<rparr>)" using example_submit_Ok by blast
  have "good (r_db ?r)" using example_admission_laws(2) by (simp add: example_remote_def)
  moreover have "authenticate (\<lambda>_. [9]) (Some ''Bearer s'') example_clocks (r_db (?r\<lparr>r_db := example_admitted_db\<rparr>)) =
      authenticate (\<lambda>_. [9]) (Some ''Bearer s'') example_clocks (r_db ?r)"
    using example_authenticate [of example_admitted_db] example_authenticate [of example_admission_db]
    by (simp add: example_admit example_remote_def)
  ultimately show ?thesis using submit_retry_safe [OF _ p, of example_clocks 61] by (simp add: p)
qed

abbreviation example_id :: string where
  "example_id \<equiv> replicate 10 CHR ''x''"

lemma example_parse: "parse_generation_id (sv_text example_native_services) example_id = Ok 10"
  by (simp add: parse_generation_id_def example_native_services_def example_services_def example_libs_def)



end
