(* ===== verification/Worker_Transfer_Safety.thy ===== *)
theory Worker_Transfer_Safety
  imports Worker_Transfer Native_Safety
begin

text \<open>
  The properties of the transfers: a fetch streams exactly the stored input, an accepted
  delivery reached the client whole, and a delivery that fails without a protocol violation is
  not reported to the relay.
\<close>

section \<open>Fetching\<close>

definition readable ::
  "TenantId \<Rightarrow> AttemptId \<Rightarrow> WorkerId \<Rightarrow> ArtifactId \<Rightarrow> u8 list \<Rightarrow> clocks \<Rightarrow> db \<Rightarrow> bool" where
  "readable t attempt worker i content clk d \<longleftrightarrow>
     (\<exists>f. get_artifact t i d = Some f \<and> f_direction f = Input \<and> f_placement f = ArtifactPlacement.RemoteLocal \<and>
        f_state f = ArtifactState.Available \<and> f_content f = Some content \<and> worker_may_read attempt worker clk d f)"

lemma readable_chunk:
  assumes "readable t attempt worker i content clk d" "unat offset + 1 < 2 ^ 31" "unat len < 2 ^ 31"
  shows "remote_local_chunk t attempt worker i offset len clk d =
    Ok (Some (take (unat len) (drop (unat offset) content)))"
proof -
  let ?P = "\<lambda>f. f_direction f = Input \<and> f_placement f = ArtifactPlacement.RemoteLocal \<and>
      f_state f = ArtifactState.Available \<and> f_content f \<noteq> None \<and> worker_may_read attempt worker clk d f"
  obtain f where f: "get_artifact t i d = Some f" "?P f" "f_content f = Some content"
    using assms(1) by (auto simp: readable_def)
  have "find (\<lambda>f. fkey f = (t, i) \<and> ?P f) xs = Some f" if "find (\<lambda>f. fkey f = (t, i)) xs = Some f" for xs
    using that f(2) by (induction xs) (auto split: if_splits)
  then have "find (\<lambda>f. fkey f = (t, i) \<and> ?P f) (db_artifacts d) = Some f"
    using f(1) by (simp add: get_artifact_def)
  moreover have "int (unat offset + 1) < int (2 ^ 31)" "int (unat len) < int (2 ^ 31)"
    using assms(2,3) by (simp_all only: of_nat_less_iff)
  ultimately show ?thesis using f(3) by (simp add: remote_local_chunk_def)
qed

lemma stream_readable:
  assumes "\<And>k. readable t attempt worker i content (clk k) (later k)"
    and "length content = unat n" "unat n + 1 < 2 ^ 31" "unat offset \<le> unat n"
  shows "\<exists>chunks. stream_remote_local t attempt worker i clk later n k offset = map Ok chunks \<and> chunks \<noteq> [] \<and>
    concat (map ac_data chunks) = drop (unat offset) content \<and>
    (\<forall>j < length chunks. unat (ac_offset (chunks ! j)) = unat offset + j * 1048576 \<and>
       length (ac_data (chunks ! j)) \<le> 1048576 \<and> (ac_last (chunks ! j) \<longleftrightarrow> Suc j = length chunks))"
  using assms(4)
proof (induction "unat n - unat offset" arbitrary: offset k rule: less_induct)
  case less
  obtain len is_last where span: "next_chunk_span n offset = (len, is_last)" by fastforce
  have remaining: "unat (n - offset) = unat n - unat offset" "\<not> n < offset"
    using less.prems by (simp_all add: unat_sub_if_size word_le_nat_alt not_less)
  have len: "unat len = min (unat n - unat offset) 1048576" "is_last \<longleftrightarrow> unat n - unat offset \<le> 1048576"
    using span remaining
    by (cases "unat n - unat offset \<le> 1048576";
        auto simp: next_chunk_span_def Let_def TRANSFER_CHUNK_BYTES_def min_def word_le_nat_alt word_unat_eq_iff)+
  let ?data = "take (unat len) (drop (unat offset) content)"
  have chunk: "remote_local_chunk t attempt worker i offset len (clk k) (later k) = Ok (Some ?data)"
    by (rule readable_chunk [OF assms(1)]) (use assms(3) less.prems len(1) in auto)
  have data: "length ?data = unat len" using assms(2) len(1) by simp
  note eq = stream_remote_local.simps [of t attempt worker i clk later n k offset, unfolded span prod.case chunk sum.case option.case]
  show ?case
  proof (cases is_last)
    case True
    then have "?data = drop (unat offset) content" using len assms(2) by simp
    then show ?thesis
      using eq data True len(1)
      by (intro exI [of _ "[\<lparr>ac_offset = offset, ac_data = ?data, ac_last = True\<rparr>]"]) auto
  next
    case False
    then have "next_chunk_span n offset = (len, False)" using span by simp
    note more = next_chunk_span_unfinished [OF this]
    have "unat n - unat (offset + len) < unat n - unat offset" "unat (offset + len) \<le> unat n"
      using more by linarith+
    from less.hyps [OF this, of "k + 1"]
    obtain chunks where chunks: "stream_remote_local t attempt worker i clk later n (k + 1) (offset + len) = map Ok chunks"
      "chunks \<noteq> []" "concat (map ac_data chunks) = drop (unat (offset + len)) content"
      "\<forall>j < length chunks. unat (ac_offset (chunks ! j)) = unat (offset + len) + j * 1048576 \<and>
         length (ac_data (chunks ! j)) \<le> 1048576 \<and> (ac_last (chunks ! j) \<longleftrightarrow> Suc j = length chunks)"
      by blast
    let ?c = "\<lparr>ac_offset = offset, ac_data = ?data, ac_last = False\<rparr>"
    have "concat (map ac_data (?c # chunks)) = drop (unat offset) content"
      using chunks(3) more append_take_drop_id [of 1048576 "drop (unat offset) content"] by (simp add: add.commute)
    moreover have "unat (ac_offset ((?c # chunks) ! j)) = unat offset + j * 1048576 \<and>
       length (ac_data ((?c # chunks) ! j)) \<le> 1048576 \<and> (ac_last ((?c # chunks) ! j) \<longleftrightarrow> Suc j = length (?c # chunks))"
      if "j < length (?c # chunks)" for j
      using that chunks(2,4) more data by (cases j) auto
    moreover have "stream_remote_local t attempt worker i clk later n k offset = map Ok (?c # chunks)"
      using eq data False chunks(1) by simp
    ultimately show ?thesis by (intro exI [of _ "?c # chunks"]) blast
  qed
qed

section \<open>An accepted delivery\<close>

text \<open>What a received stream pushed: only data, until an end that the receipt or the error tells.\<close>

lemma received_chunks:
  "receive_delivery_chunks H manifest offset hasher items p = (Ok (ReceiptDelivered committed dig), p') \<Longrightarrow>
   \<exists>bs. ps_received p' = ps_received p @ map Data bs \<and> dig = Hasher_finish (sl_finalize H) (foldl (Hasher_update (sl_update H)) hasher bs) \<and>
     unat committed = unat offset + length (concat bs) \<and> committed \<le> am_size_bytes manifest \<and>
     list_all (\<lambda>b. length b \<le> unat TRANSFER_CHUNK_BYTES) bs \<and> ps_attached p' = ps_attached p"
proof (induction H manifest offset hasher items p rule: receive_delivery_chunks.induct)
  case (5 H manifest offset hasher chunk items p)
  let ?b = "ac_data chunk"
  obtain following where f: "next_delivery_offset offset chunk = Ok following"
    "length ?b \<le> unat TRANSFER_CHUNK_BYTES" "following \<le> am_size_bytes manifest"
    using "5.prems" by (auto split: sum.splits if_splits)
  have off: "following = offset + of_nat (length ?b)" "unat following = unat offset + length ?b"
  proof -
    show "following = offset + of_nat (length ?b)"
      using f(1) by (auto simp: next_delivery_offset_def split: if_splits)
    moreover have "unat offset + length ?b < 2 ^ LENGTH(64)"
      using f(1) by (auto simp: next_delivery_offset_def not_le split: if_splits)
    ultimately show "unat following = unat offset + length ?b"
      by (simp add: unat_word_ariths(1) unat_of_nat)
  qed
  obtain p1 where p1: "push_delivery (Data ?b) p = (True, p1)"
    using "5.prems" f by (cases "push_delivery (Data ?b) p"; cases "fst (push_delivery (Data ?b) p)") auto
  have pushed: "ps_received p1 = ps_received p @ [Data ?b]" "ps_attached p1 = ps_attached p"
    using p1 by (auto simp: push_delivery_def split: if_splits)
  show ?case
  proof (cases "ac_last chunk")
    case True
    then show ?thesis
      using "5.prems" f p1 pushed off by (intro exI [of _ "[?b]"]) (auto simp: Let_def)
  next
    case False
    then have "receive_delivery_chunks H manifest following (Hasher_update (sl_update H) hasher ?b) items p1 =
        (Ok (ReceiptDelivered committed dig), p')"
      using "5.prems" f p1 by (simp add: Let_def)
    from "5.IH" [OF f(1) _ p1 [symmetric] _ refl False this] f(2,3)
    obtain bs where "ps_received p' = ps_received p1 @ map Data bs"
      "dig = Hasher_finish (sl_finalize H) (foldl (Hasher_update (sl_update H)) (Hasher_update (sl_update H) hasher ?b) bs)"
      "unat committed = unat following + length (concat bs)" "committed \<le> am_size_bytes manifest"
      "list_all (\<lambda>b. length b \<le> unat TRANSFER_CHUNK_BYTES) bs" "ps_attached p' = ps_attached p1" by auto
    then show ?thesis using pushed off f(2) by (intro exI [of _ "?b # bs"]) simp
  qed
qed auto

lemma failed_pushes:
  "receive_delivery_chunks H manifest offset hasher items p = (Err e, p') \<Longrightarrow> e \<noteq> ErrorCode.InvalidArgument \<Longrightarrow>
   \<exists>bs. ps_received p' = ps_received p @ map Data bs"
proof (induction H manifest offset hasher items p rule: receive_delivery_chunks.induct)
  case (5 H manifest offset hasher chunk items p)
  let ?b = "ac_data chunk"
  obtain following where f: "next_delivery_offset offset chunk = Ok following"
    "length ?b \<le> unat TRANSFER_CHUNK_BYTES" "following \<le> am_size_bytes manifest"
    using "5.prems" by (auto split: sum.splits if_splits)
  obtain p1 where p1: "push_delivery (Data ?b) p = (True, p1)"
    using "5.prems" f by (cases "push_delivery (Data ?b) p"; cases "fst (push_delivery (Data ?b) p)") auto
  have pushed: "ps_received p1 = ps_received p @ [Data ?b]" using p1 by (auto simp: push_delivery_def split: if_splits)
  have "\<not> ac_last chunk" "receive_delivery_chunks H manifest following (Hasher_update (sl_update H) hasher ?b) items p1 = (Err e, p')"
    using "5.prems" f p1 by (auto simp: Let_def split: if_splits)
  from "5.IH" [OF f(1) _ p1 [symmetric] _ refl this "5.prems"(2)] f(2,3)
  obtain bs where "ps_received p' = ps_received p1 @ map Data bs" by auto
  then show ?case using pushed by (intro exI [of _ "?b # bs"]) simp
qed (auto intro: exI [of _ "[]"])

text \<open>The bytes a relay took in: sent, or held back.\<close>

definition taken :: "'c stream_state \<Rightarrow> u8 list" where
  "taken s = body_bytes (rl_body (st_relay s)) @ (case st_pending s of None \<Rightarrow> [] | Some b \<Rightarrow> b)"

definition clean :: "relay \<Rightarrow> bool" where
  "clean rl \<longleftrightarrow> rl_accepts rl = None \<and> (\<forall>m. Err m \<notin> set (rl_body rl))"

lemma relaying_taken: "relaying H n s \<Longrightarrow> length (taken s) = unat (st_offset s)"
  unfolding relaying_def taken_def by metis

lemma relaying_digest:
  assumes "sha_laws H" "relaying H n s"
  shows "Hasher_finish (sl_finalize H) (st_hasher s) = digest (sl_sha256 H) (taken s)"
proof -
  obtain chunks where "st_hasher s = foldl (Hasher_update (sl_update H)) (Hasher_new (sl_new H)) chunks"
    "concat chunks = taken s"
    using assms(2) unfolding relaying_def taken_def by metis
  then show ?thesis
    using hasher_digest [of "sl_sha256 H" "sl_new H" "sl_update H" "sl_finalize H" chunks] assms(1)
    by (simp add: sha_laws_def)
qed

lemma relay_bytes_clean:
  assumes "clean (st_relay s)" "unat (st_offset s) < 2 ^ 63"
  shows "\<exists>rl. relay_bytes L W ctx bytes s = (None, s\<lparr>st_relay := rl\<rparr>) \<and> clean rl \<and>
    rl_body rl = rl_body (st_relay s) @ [Ok bytes]"
proof -
  let ?rl = "(st_relay s)\<lparr>rl_body := rl_body (st_relay s) @ [Ok bytes]\<rparr>"
  have sent: "body_send (Ok bytes) (st_relay s) = (True, ?rl)"
    using assms(1) by (simp add: body_send_def clean_def)
  have "int (unat (st_offset s)) < int (2 ^ 63)" using assms(2) by (simp only: of_nat_less_iff)
  then obtain d where "commit_offset (dc_tenant ctx) (dc_artifact ctx) (st_offset s) (relay_db (wait W ?rl)) = Ok ((), d)"
    by (simp add: commit_offset_def)
  then have "persist_delivery_offset W ctx (st_offset s) ?rl = (True, put_db d (wait W ?rl))"
    by (simp add: persist_delivery_offset_def)
  then have "relay_bytes L W ctx bytes s = (None, s\<lparr>st_relay := put_db d (wait W ?rl)\<rparr>)"
    by (simp add: relay_bytes_def sent)
  then show ?thesis using assms(1) by (intro exI [of _ "put_db d (wait W ?rl)"]) (simp add: clean_def)
qed

lemma drain_data_clean:
  assumes "relaying H n s" "clean (st_relay s)" "unat n < 2 ^ 63"
    and "length bytes \<le> unat TRANSFER_CHUNK_BYTES" "unat (st_offset s) + length bytes \<le> unat n"
  shows "\<exists>s'. drain_data H L W ctx n bytes s = (None, s') \<and> relaying H n s' \<and> clean (st_relay s') \<and>
    taken s' = taken s @ bytes"
proof -
  let ?next = "st_offset s + of_nat (length bytes)"
  have len: "unat ?next = unat (st_offset s) + length bytes"
    using assms(3,5) by (simp add: unat_word_ariths(1) unat_of_nat)
  have fits: "\<not> 2 ^ 64 \<le> unat (st_offset s) + length bytes" "\<not> n < ?next"
    using assms(3,5) len by (auto simp: word_less_nat_alt)
  show ?thesis
  proof (cases "bytes = []")
    case True
    then show ?thesis using assms fits by (intro exI [of _ s]) (simp add: drain_data_def)
  next
    case nonempty: False
    then have "st_offset s < n" using assms(5) by (cases bytes) (simp_all add: word_less_nat_alt)
    then have none: "st_pending s = None" using assms(1) by (auto simp: relaying_def)
    let ?s1 = "s\<lparr>st_hasher := Hasher_update (sl_update H) (st_hasher s) bytes, st_offset := ?next\<rparr>"
    have "\<exists>s'. drain_data H L W ctx n bytes s = (None, s') \<and> clean (st_relay s') \<and> taken s' = taken s @ bytes"
    proof (cases "?next = n")
      case True
      then show ?thesis
        using nonempty fits assms(2,4) none
        by (intro exI [of _ "?s1\<lparr>st_pending := Some bytes\<rparr>"]) (simp add: drain_data_def Let_def taken_def)
    next
      case False
      obtain rl where "relay_bytes L W ctx bytes ?s1 = (None, ?s1\<lparr>st_relay := rl\<rparr>)" "clean rl"
        "rl_body rl = rl_body (st_relay s) @ [Ok bytes]"
        using relay_bytes_clean [of ?s1 L W ctx bytes] assms(2,3,5) len by auto
      then show ?thesis
        using nonempty fits assms(4) none False
        by (intro exI [of _ "?s1\<lparr>st_relay := rl\<rparr>"]) (simp add: drain_data_def Let_def taken_def)
    qed
    then show ?thesis using drain_data_body [OF assms(1)] by fastforce
  qed
qed

lemma drain_chunks_clean:
  assumes "relaying H n s" "clean (st_relay s)" "unat n < 2 ^ 63"
    and "list_all (\<lambda>b. length b \<le> unat TRANSFER_CHUNK_BYTES) bs" "unat (st_offset s) + length (concat bs) \<le> unat n"
  shows "\<exists>s'. drain_worker_chunks H L W ctx n dig (map (\<lambda>b. Received (Data b)) bs @ es) s =
      drain_worker_chunks H L W ctx n dig es s' \<and> relaying H n s' \<and> clean (st_relay s') \<and> taken s' = taken s @ concat bs"
  using assms
proof (induction bs arbitrary: s)
  case Nil
  then show ?case by auto
next
  case (Cons b bs)
  let ?s = "s\<lparr>st_relay := wait W (st_relay s)\<rparr>"
  have "relaying H n ?s" "clean (st_relay ?s)" using Cons.prems(1,2) by (simp_all add: relaying_cong clean_def)
  from drain_data_clean [OF this Cons.prems(3), of b L W ctx]
  obtain s1 where s1: "drain_data H L W ctx n b ?s = (None, s1)" "relaying H n s1" "clean (st_relay s1)"
    "taken s1 = taken ?s @ b"
    using Cons.prems(4,5) by auto
  have "taken ?s = taken s" by (simp add: taken_def)
  moreover have "unat (st_offset s1) = unat (st_offset s) + length b"
    using relaying_taken [OF s1(2)] relaying_taken [OF Cons.prems(1)] s1(4) calculation by simp
  ultimately show ?case using Cons.IH [OF s1(2,3) Cons.prems(3)] Cons.prems(4,5) s1(1,4) by simp
qed

lemma drain_complete_clean:
  assumes "sha_laws H" "relaying H n s" "clean (st_relay s)" "unat n < 2 ^ 63"
    and "length (taken s) = unat n" "digest (sl_sha256 H) (taken s) = dig"
  shows "clean (st_relay (drain_complete H L W ctx n dig s))"
    "body_bytes (rl_body (st_relay (drain_complete H L W ctx n dig s))) = taken s"
proof -
  have offset: "st_offset s = n" using relaying_taken [OF assms(2)] assms(5) by (simp add: word_unat_eq_iff)
  have hash: "Hasher_finish (sl_finalize H) (st_hasher s) = dig" using relaying_digest [OF assms(1,2)] assms(6) by simp
  have finished: "clean (st_relay (finish_relay W ctx s1)) = clean (st_relay s1)"
    "rl_body (st_relay (finish_relay W ctx s1)) = rl_body (st_relay s1)" for s1 :: "'a stream_state"
    by (simp_all add: finish_relay_def Let_def clean_def split: sum.splits prod.splits)
  have "clean (st_relay (drain_complete H L W ctx n dig s)) \<and>
    body_bytes (rl_body (st_relay (drain_complete H L W ctx n dig s))) = taken s"
  proof (cases "n = 0")
    case True
    then have none: "st_pending s = None" using assms(2,5) by (auto simp: relaying_def taken_def split: option.splits)
    have "body_send (Ok []) (st_relay s) = (True, (st_relay s)\<lparr>rl_body := rl_body (st_relay s) @ [Ok []]\<rparr>)"
      using assms(3) by (simp add: body_send_def clean_def)
    then show ?thesis
      using True offset hash none assms(3)
      by (simp add: drain_complete_def Let_def finished) (simp add: clean_def taken_def)
  next
    case False
    then obtain b where b: "st_pending s = Some b" using assms(2) offset by (auto simp: relaying_def)
    let ?s1 = "s\<lparr>st_hasher := Hasher_new (sl_new H), st_pending := None\<rparr>"
    obtain rl where "relay_bytes L W ctx b ?s1 = (None, ?s1\<lparr>st_relay := rl\<rparr>)" "clean rl"
      "rl_body rl = rl_body (st_relay s) @ [Ok b]"
      using relay_bytes_clean [of ?s1 L W ctx b] assms(3,4) offset by auto
    then show ?thesis
      using False offset hash b by (simp add: drain_complete_def Let_def finished) (simp add: taken_def)
  qed
  then show "clean (st_relay (drain_complete H L W ctx n dig s))"
    "body_bytes (rl_body (st_relay (drain_complete H L W ctx n dig s))) = taken s" by simp_all
qed

section \<open>One round of a relay\<close>

definition has_room :: "WorkerId \<Rightarrow> remote \<Rightarrow> bool" where
  "has_room worker r \<longleftrightarrow> (\<exists>e. r_sessions r worker = Some e \<and> \<not> ch_closed (r_chans r (se_outbound e)) \<and>
     length (ch_queue (r_chans r (se_outbound e))) < ch_capacity (r_chans r (se_outbound e)))"

lemma room_send:
  assumes "has_room worker (rl_remote rl)"
  shows "worker_send worker m rl = (Delivered, rl\<lparr>rl_remote := (rl_remote rl)
    \<lparr>r_chans := snd (send worker m (r_sessions (rl_remote rl)) (r_chans (rl_remote rl)))\<rparr>\<rparr>)"
  using assms by (auto simp: has_room_def worker_send_def send_def try_send_def)

lemma stream_once:
  assumes "has_room (dc_worker ctx) (rl_remote (st_relay s))"
    and "drain_worker_chunks H L W ctx n dig (dw_rounds W k) (s\<lparr>st_relay := snd (worker_send (dc_worker ctx)
      (deliver_request L (dc_artifact ctx) (dc_token ctx) (st_offset s)) (subscribe_delivery (dc_artifact ctx) (st_relay s)))\<rparr>) = (Done, s')"
  shows "stream_rounds H L W ctx n dig k s = s'"
proof -
  let ?rl = "subscribe_delivery (dc_artifact ctx) (st_relay s)"
  let ?m = "deliver_request L (dc_artifact ctx) (dc_token ctx) (st_offset s)"
  have "has_room (dc_worker ctx) (rl_remote ?rl)" using assms(1) by (simp add: subscribe_delivery_def)
  from room_send [OF this, of ?m]
  have "request_worker_delivery L W ctx (st_offset s) (st_attempts s) ?rl =
      (Ready, st_attempts s, snd (worker_send (dc_worker ctx) ?m ?rl))"
    by (subst request_worker_delivery.simps) simp
  then show ?thesis using assms(2) by (subst stream_rounds.simps) simp
qed

lemma delivered_response:
  assumes "get_artifact t i (r_db r) = Some f" "f_committed_offset f = 0"
    and "download_for_tenant H S header_ok W accepts t i clk r = (response, r')"
    and "rp_status response = OK" "am_size_bytes (row_manifest f) \<noteq> 0"
  obtains worker d1 token where "f_worker f = Some worker" "begin_delivery t i clk (r_db r) = (True, d1)"
    "rp_body response = Stream (rl_body (stream_worker_local H (sv_text S) W t i worker token 0
       (am_size_bytes (row_manifest f)) (f_digest f)
       \<lparr>rl_remote = r\<lparr>r_db := d1\<rparr>, rl_subscribed = {}, rl_body = [], rl_accepts = accepts, rl_time = 0\<rparr>))"
    "r' = rl_remote (stream_worker_local H (sv_text S) W t i worker token 0
       (am_size_bytes (row_manifest f)) (f_digest f)
       \<lparr>rl_remote = r\<lparr>r_db := d1\<rparr>, rl_subscribed = {}, rl_body = [], rl_accepts = accepts, rl_time = 0\<rparr>)"
proof -
  have deliver: "deliver_worker_local H S header_ok W accepts t i f clk r = (response, r')"
    using assms(1,3,4)
    by (auto simp: download_for_tenant_def classify_download_def Let_def plain_def redirect_to_object_store_def
        refused_delivery_def split: if_splits ArtifactState.splits ArtifactPlacement.splits prod.splits bool.splits
        option.splits sum.splits)
  obtain worker where worker: "f_worker f = Some worker"
    using deliver assms(4) by (auto simp: deliver_worker_local_def plain_def split: option.splits)
  obtain d1 where begun: "begin_delivery t i clk (r_db r) = (True, d1)"
    using deliver worker assms(4)
    by (auto simp: deliver_worker_local_def refused_delivery_def plain_def split: prod.splits bool.splits if_splits)
  show ?thesis
    by (rule that [OF worker begun, of "case f_delivery_token f of None \<Rightarrow> [] | Some token \<Rightarrow> token"])
      (use deliver worker begun assms(2,5) in \<open>auto simp: deliver_worker_local_def Let_def row_manifest_def\<close>)
qed

lemma accepted_pushes:
  assumes "sha_laws H" "worker_of hasher authorization d = Ok (t, w)" "validate_delivery_start L t start d = Ok (i, manifest)"
    and "ds_offset start = 0"
    and "deliver_artifact H L hasher authorization (Inr (DeliverStart start) # items) d
      \<lparr>ps_attached = (\<lambda>_. True), ps_count = 0, ps_received = []\<rparr> = (Ok answer, p)" "dr_accepted answer"
  obtains bs where "ps_received p = map Data bs @ [Complete]" "length (concat bs) = unat (am_size_bytes manifest)"
    "digest (sl_sha256 H) (concat bs) = am_digest manifest" "list_all (\<lambda>b. length b \<le> unat TRANSFER_CHUNK_BYTES) bs"
proof -
  obtain receipt p1 where got: "receive_delivery_chunks H manifest 0 (Hasher_new (sl_new H)) items
      \<lparr>ps_attached = (\<lambda>_. True), ps_count = 0, ps_received = []\<rparr> = (Ok receipt, p1)"
    "conclude_delivery L manifest 0 receipt p1 = (answer, p)"
    using assms(2-5) by (auto simp: deliver_artifact_def split: prod.splits sum.splits)
  obtain committed dig where receipt: "receipt = ReceiptDelivered committed dig"
    using got(2) assms(6) by (cases receipt) (auto simp: conclude_delivery_def)
  from received_chunks [OF got(1) [unfolded receipt]] obtain bs where bs:
    "ps_received p1 = map Data bs" "dig = Hasher_finish (sl_finalize H) (foldl (Hasher_update (sl_update H)) (Hasher_new (sl_new H)) bs)"
    "unat committed = length (concat bs)" "list_all (\<lambda>b. length b \<le> unat TRANSFER_CHUNK_BYTES) bs"
    "ps_attached p1 = (\<lambda>_. True)" by auto
  have accepted: "validate_delivery_receipt L manifest 0 committed dig = Accepted"
    using got(2) assms(6) receipt by (auto simp: conclude_delivery_def split: DeliveryValidation.splits)
  then have whole: "committed = am_size_bytes manifest" "dig = am_digest manifest"
    by (auto simp: validate_delivery_receipt_def ArtifactManifest_verify_def split: if_splits)
  have "ps_received p = map Data bs @ [Complete]"
    using got(2) receipt accepted bs(1,5) by (auto simp: conclude_delivery_def push_delivery_def)
  moreover have "digest (sl_sha256 H) (concat bs) = am_digest manifest"
    using hasher_digest [of "sl_sha256 H" "sl_new H" "sl_update H" "sl_finalize H" bs] assms(1) bs(2) whole(2)
    by (simp add: sha_laws_def)
  ultimately show ?thesis using that bs(3,4) whole(1) by simp
qed

lemma whole_stream:
  assumes "sha_laws H" "has_room worker r" "n \<noteq> 0" "unat n < 2 ^ 63"
    and "dw_rounds W 0 = map Received (map Data bs @ [Complete])" "list_all (\<lambda>b. length b \<le> unat TRANSFER_CHUNK_BYTES) bs"
    and "length (concat bs) = unat n" "digest (sl_sha256 H) (concat bs) = dig"
    and "out = stream_worker_local H L W t i worker token 0 n dig
      \<lparr>rl_remote = r, rl_subscribed = {}, rl_body = [], rl_accepts = None, rl_time = 0\<rparr>"
  shows "clean out" "body_bytes (rl_body out) = concat bs"
proof -
  define ctx where "ctx = \<lparr>dc_tenant = t, dc_artifact = i, dc_worker = worker, dc_token = token\<rparr>"
  define s where "s = \<lparr>st_offset = 0, st_attempts = 0, st_hasher = Hasher_new (sl_new H), st_pending = None,
    st_relay = \<lparr>rl_remote = r, rl_subscribed = {}, rl_body = [], rl_accepts = None, rl_time = 0\<rparr>\<rparr>"
  define s1 where "s1 = s\<lparr>st_relay := snd (worker_send (dc_worker ctx)
      (deliver_request L (dc_artifact ctx) (dc_token ctx) (st_offset s)) (subscribe_delivery (dc_artifact ctx) (st_relay s)))\<rparr>"
  have s1: "relaying H n s1" "clean (st_relay s1)" "taken s1 = []" "st_offset s1 = 0"
    using assms(3) by (auto simp: s1_def s_def relaying_def clean_def taken_def word_gt_0 intro: exI [of _ "[]"])
  obtain s2 where s2: "drain_worker_chunks H L W ctx n dig (dw_rounds W 0) s1 =
      drain_worker_chunks H L W ctx n dig [Received Complete] s2"
    "relaying H n s2" "clean (st_relay s2)" "taken s2 = concat bs"
    using drain_chunks_clean [OF s1(1,2) assms(4,6), where es = "[Received Complete]" and L = L and W = W
        and ctx = ctx and dig = dig] s1(3,4) assms(5,7)
    by (auto simp: comp_def)
  let ?s2 = "s2\<lparr>st_relay := wait W (st_relay s2)\<rparr>"
  have ready: "relaying H n ?s2" "clean (st_relay ?s2)" "taken ?s2 = concat bs"
    using s2(2-4) by (simp_all add: relaying_cong clean_def taken_def)
  have room: "has_room (dc_worker ctx) (rl_remote (st_relay s))"
    using assms(2) by (simp add: s_def ctx_def)
  have drained: "drain_worker_chunks H L W ctx n dig (dw_rounds W 0) s1 = (Done, drain_complete H L W ctx n dig ?s2)"
    using s2(1) by simp
  have "out = st_relay (drain_complete H L W ctx n dig ?s2)"
    using stream_once [OF room drained [unfolded s1_def]] by (simp add: assms(9) stream_worker_local_def s_def ctx_def)
  then show "clean out" "body_bytes (rl_body out) = concat bs"
    using drain_complete_clean [OF assms(1) ready(1,2) assms(4), of dig L W ctx] ready(3) assms(7,8) by simp_all
qed

section \<open>A delivery that fails\<close>

text \<open>A relay on which no other task interferes, before and after it gave up.\<close>

definition holding :: "DeliveryContext \<Rightarrow> (nat \<Rightarrow> RemoteMessage channel) \<Rightarrow> relay \<Rightarrow> bool" where
  "holding ctx chans rl \<longleftrightarrow> good (relay_db rl) \<and> r_chans (rl_remote rl) = chans \<and> rl_accepts rl = None \<and>
     (\<exists>f. get_artifact (dc_tenant ctx) (dc_artifact ctx) (relay_db rl) = Some f \<and> f_state f = ArtifactState.Delivering)"

definition gave_up :: "DeliveryContext \<Rightarrow> (nat \<Rightarrow> RemoteMessage channel) \<Rightarrow> relay \<Rightarrow> bool" where
  "gave_up ctx chans rl \<longleftrightarrow> r_chans (rl_remote rl) = chans \<and> (\<exists>m. Err m \<in> set (rl_body rl)) \<and>
     (\<exists>f. get_artifact (dc_tenant ctx) (dc_artifact ctx) (relay_db rl) = Some f \<and> f_state f = ArtifactState.Lost)"

lemma idle_wait: "dw_others W = (\<lambda>_ r. r) \<Longrightarrow> wait W rl = rl\<lparr>rl_time := rl_time rl + 1\<rparr>"
  by (simp add: wait_def)

lemma holding_time [simp]: "holding ctx chans (rl\<lparr>rl_time := k\<rparr>) = holding ctx chans rl"
  by (simp add: holding_def relay_db_def)

lemma fail_gave_up:
  assumes "dw_others W = (\<lambda>_ r. r)" "holding ctx chans rl"
  shows "gave_up ctx chans (fail_delivery W ctx message rl)"
proof -
  let ?rl = "wait W (end_delivery (dc_artifact ctx) rl)"
  obtain f where f: "good (relay_db ?rl)" "get_artifact (dc_tenant ctx) (dc_artifact ctx) (relay_db ?rl) = Some f"
    "f_state f = ArtifactState.Delivering"
    using assms(2) by (auto simp: holding_def idle_wait [OF assms(1)] relay_db_def end_delivery_def)
  then obtain row d where lost: "set_state (dc_tenant ctx) (dc_artifact ctx) ArtifactState.Lost (dw_clk W (rl_time ?rl)) (relay_db ?rl) = Ok (row, d)"
    "get_artifact (dc_tenant ctx) (dc_artifact ctx) d = Some row" "f_state row = ArtifactState.Lost"
    using set_state_edge [OF goodD(1) [OF f(1)] f(2), of ArtifactState.Lost] by fastforce
  then have eq: "fail_delivery W ctx message rl = snd (body_send (Err message) (put_db d ?rl))"
    by (simp add: fail_delivery_def mark_delivery_lost_def mark_lost_def Let_def)
  have "rl_accepts (put_db d ?rl) = None" using assms(2) by (simp add: holding_def)
  moreover have "r_chans (rl_remote (put_db d ?rl)) = chans"
    using assms(2) by (simp add: put_db_def idle_wait [OF assms(1)] end_delivery_def holding_def)
  ultimately show ?thesis
    using lost(2,3) unfolding eq by (auto simp: body_send_def gave_up_def put_db_def relay_db_def)
qed

lemma relay_bytes_idle:
  assumes "dw_others W = (\<lambda>_ r. r)" "holding ctx chans (st_relay s)" "relay_bytes L W ctx bytes s = (outcome, s')"
  shows "outcome = None \<and> holding ctx chans (st_relay s') \<or> outcome = Some Done \<and> gave_up ctx chans (st_relay s')"
proof -
  let ?rl = "(st_relay s)\<lparr>rl_body := rl_body (st_relay s) @ [Ok bytes]\<rparr>"
  have sent: "body_send (Ok bytes) (st_relay s) = (True, ?rl)"
    using assms(2) by (simp add: body_send_def holding_def)
  have rl: "holding ctx chans ?rl" using assms(2) by (simp add: holding_def relay_db_def)
  show ?thesis
  proof (cases "commit_offset (dc_tenant ctx) (dc_artifact ctx) (st_offset s) (relay_db (wait W ?rl))")
    case (Inl e)
    then show ?thesis
      using assms(3) sent fail_gave_up [OF assms(1), of ctx chans "wait W ?rl"] rl
      by (auto simp: relay_bytes_def persist_delivery_offset_def fail_stream_def idle_wait [OF assms(1)])
  next
    case (Inr out)
    then have ok: "commit_offset (dc_tenant ctx) (dc_artifact ctx) (st_offset s) (relay_db (wait W ?rl)) = Ok ((), snd out)"
      by (cases out) simp
    have "relay_db (wait W ?rl) = relay_db (st_relay s)" by (simp add: idle_wait [OF assms(1)] relay_db_def)
    then have "good (snd out)" "\<exists>f. get_artifact (dc_tenant ctx) (dc_artifact ctx) (snd out) = Some f \<and> f_state f = ArtifactState.Delivering"
      using keeps_good [OF keeps_delivery(3) [OF ok]] ok assms(2)
        committed_offset_monotone [of "dc_tenant ctx" "dc_artifact ctx" "st_offset s" "relay_db (wait W ?rl)"]
      by (auto simp: holding_def)
    moreover have "outcome = None" "s' = s\<lparr>st_relay := put_db (snd out) (wait W ?rl)\<rparr>"
      using assms(3) sent ok by (auto simp: relay_bytes_def persist_delivery_offset_def)
    ultimately show ?thesis
      using assms(2) by (simp add: holding_def put_db_def relay_db_def idle_wait [OF assms(1)])
  qed
qed

lemma drain_silent:
  assumes "dw_others W = (\<lambda>_ r. r)" "holding ctx chans (st_relay s)"
  shows "\<exists>s'. drain_worker_chunks H L W ctx n dig (map (\<lambda>b. Received (Data b)) bs) s = (Done, s') \<and> gave_up ctx chans (st_relay s')"
  using assms(2)
proof (induction bs arbitrary: s)
  case Nil
  then show ?case using fail_gave_up [OF assms(1), of ctx chans] by (simp add: fail_stream_def idle_wait [OF assms(1)])
next
  case (Cons b bs)
  let ?s = "s\<lparr>st_relay := wait W (st_relay s)\<rparr>"
  obtain outcome s1 where step: "drain_data H L W ctx n b ?s = (outcome, s1)" by fastforce
  have rl: "holding ctx chans (st_relay ?s)" using Cons.prems by (simp add: idle_wait [OF assms(1)])
  then have "outcome = None \<and> holding ctx chans (st_relay s1) \<or> outcome = Some Done \<and> gave_up ctx chans (st_relay s1)"
    using step fail_gave_up [OF assms(1) rl]
    by (auto simp: drain_data_def Let_def fail_stream_def dest!: relay_bytes_idle [OF assms(1), rotated] split: if_splits)
  then show ?case using Cons.IH [of s1] step by auto
qed

section \<open>Properties\<close>

text \<open>C8: An acknowledged delivery arrived. When the Remote answers a Worker's delivery as
  accepted, the client whose download it served, and who stayed, got the whole output: no error
  item, exactly the recorded number of bytes, and these have the recorded digest. The Worker
  delivered from the start, its control channel had room for the request, and what the delivery
  pushed is what the relay received.\<close>
theorem accepted_delivery_arrived:
  assumes "sha_laws H" "worker_of hasher authorization d = Ok (t, w)" "validate_delivery_start L t start d = Ok (i, row_manifest f)"
    and "ds_offset start = 0"
    and "deliver_artifact H L hasher authorization (Inr (DeliverStart start) # items) d
      \<lparr>ps_attached = (\<lambda>_. True), ps_count = 0, ps_received = []\<rparr> = (Ok answer, p)" "dr_accepted answer"
    and "dw_rounds W 0 = map Received (ps_received p)"
    and "get_artifact t i (r_db r) = Some f" "f_committed_offset f = 0" "f_worker f = Some worker" "has_room worker r"
      "0 < f_size_bytes f" "f_size_bytes f < 2 ^ 63"
    and "download_for_tenant H S header_ok W None t i clk r = (response, r')" "rp_status response = OK"
  shows "\<exists>body. rp_body response = Stream body \<and> (\<forall>m. Err m \<notin> set body) \<and>
    int (length (body_bytes body)) = f_size_bytes f \<and> digest (sl_sha256 H) (body_bytes body) = f_digest f"
proof -
  let ?n = "am_size_bytes (row_manifest f)"
  have size_n: "int (unat ?n) = f_size_bytes f" using assms(12,13) by (simp add: row_manifest_def uint_word_of_int)
  then have "int (unat ?n) < int (2 ^ 63)" "?n \<noteq> 0" using assms(12,13) by auto
  then have n: "unat ?n < 2 ^ 63" "?n \<noteq> 0" by (simp_all only: of_nat_less_iff) simp
  obtain bs where bs: "ps_received p = map Data bs @ [Complete]" "length (concat bs) = unat ?n"
    "digest (sl_sha256 H) (concat bs) = am_digest (row_manifest f)" "list_all (\<lambda>b. length b \<le> unat TRANSFER_CHUNK_BYTES) bs"
    by (rule accepted_pushes [OF assms(1-6)])
  obtain d1 token where down: "rp_body response = Stream (rl_body (stream_worker_local H (sv_text S) W t i worker token 0
       ?n (f_digest f) \<lparr>rl_remote = r\<lparr>r_db := d1\<rparr>, rl_subscribed = {}, rl_body = [], rl_accepts = None, rl_time = 0\<rparr>))"
    using delivered_response [OF assms(8,9,14,15) n(2)] assms(10) by (metis option.inject)
  have "has_room worker (r\<lparr>r_db := d1\<rparr>)" using assms(11) by (simp add: has_room_def)
  moreover have hash: "digest (sl_sha256 H) (concat bs) = f_digest f" using bs(3) by (simp add: row_manifest_def)
  ultimately show ?thesis
    using whole_stream [OF assms(1) _ n(2,1) assms(7) [unfolded bs(1)] bs(4,2) _ refl] bs(2) down size_n
    by (simp add: clean_def)
qed

text \<open>C9: A fetch streams exactly the stored input. While the Worker may read it and its content
  stays, the stream from an offset is a sequence of chunks without error whose bytes are the
  content from that offset on, in consecutive pieces of at most one MiB, and only the last chunk
  is marked so, even when nothing is left to send.\<close>
theorem fetch_streams_content:
  assumes "fetch_artifact L hasher authorization request clk later d = Ok items"
    and "worker_of hasher authorization d = Ok (t, worker)" "transfer_parse_id L (fa_attempt_id request) = Ok attempt"
      "transfer_parse_id L (fa_artifact_id request) = Ok i" "attempt_input t attempt worker i (clk 0) d = Some f"
    and "\<And>k. readable t attempt worker i content (clk k) (later k)"
    and "int (length content) = f_size_bytes f" "length content + 1 < 2 ^ 31"
  shows "\<exists>chunks. items = map Ok chunks \<and> chunks \<noteq> [] \<and>
    concat (map ac_data chunks) = drop (unat (fa_offset request)) content \<and>
    (\<forall>j < length chunks. unat (ac_offset (chunks ! j)) = unat (fa_offset request) + j * 1048576 \<and>
       length (ac_data (chunks ! j)) \<le> 1048576 \<and> (ac_last (chunks ! j) \<longleftrightarrow> Suc j = length chunks))"
proof -
  let ?n = "am_size_bytes (row_manifest f)"
  have "?n = of_nat (length content)" using assms(7) by (simp add: row_manifest_def flip: assms(7))
  then have n: "length content = unat ?n" using assms(8) unat_of_nat_small [of "length content", where ?'w = 64] by simp
  have "items = stream_remote_local t attempt worker i clk later ?n 1 (fa_offset request)" "\<not> ?n < fa_offset request"
    using assms(1-5) by (auto simp: fetch_artifact_def Let_def split: if_splits)
  then show ?thesis
    using stream_readable [OF assms(6) n, where offset = "fa_offset request" and k = 1] assms(8) n by (simp add: word_less_nat_alt)
qed

text \<open>C11: A delivery that breaks off is not resumed. When a Worker's delivery ends with any error
  other than a protocol violation, such as a broken connection, the relay is told nothing: with
  no other task interfering, the Worker is asked exactly once, the client gets an error and the
  Artifact is lost, although the resume budget is untouched and the client is still there.\<close>
theorem broken_delivery_not_resumed:
  assumes "deliver_artifact H L hasher authorization requests d
      \<lparr>ps_attached = (\<lambda>_. True), ps_count = 0, ps_received = []\<rparr> = (Err e, p)" "e \<noteq> ErrorCode.InvalidArgument"
    and "dw_rounds W 0 = map Received (ps_received p)" "dw_others W = (\<lambda>_ r. r)"
    and "good (r_db r)" "get_artifact t i (r_db r) = Some f" "f_committed_offset f = 0" "f_worker f = Some worker"
      "has_room worker r" "am_size_bytes (row_manifest f) \<noteq> 0"
    and "download_for_tenant H S header_ok W None t i clk r = (response, r')" "rp_status response = OK"
  shows "\<exists>f' body m token. get_artifact t i (r_db r') = Some f' \<and> f_state f' = ArtifactState.Lost \<and>
    rp_body response = Stream body \<and> Err m \<in> set body \<and>
    r_chans r' = snd (send worker (deliver_request (sv_text S) i token 0) (r_sessions r) (r_chans r))"
proof -
  have "\<exists>bs. ps_received p = map Data bs"
    using assms(1,2) by (auto simp: deliver_artifact_def dest!: failed_pushes
        split: prod.splits sum.splits list.splits DeliverArtifactRequest.splits)
  then obtain bs where bs: "dw_rounds W 0 = map (\<lambda>b. Received (Data b)) bs"
    using assms(3) by (auto simp: comp_def)
  obtain d1 token where down: "begin_delivery t i clk (r_db r) = (True, d1)"
    "rp_body response = Stream (rl_body (stream_worker_local H (sv_text S) W t i worker token 0 (am_size_bytes (row_manifest f))
       (f_digest f) \<lparr>rl_remote = r\<lparr>r_db := d1\<rparr>, rl_subscribed = {}, rl_body = [], rl_accepts = None, rl_time = 0\<rparr>))"
    "r' = rl_remote (stream_worker_local H (sv_text S) W t i worker token 0 (am_size_bytes (row_manifest f))
       (f_digest f) \<lparr>rl_remote = r\<lparr>r_db := d1\<rparr>, rl_subscribed = {}, rl_body = [], rl_accepts = None, rl_time = 0\<rparr>)"
    using delivered_response [OF assms(6,7,11,12,10)] assms(8) by (metis option.inject)
  define ctx where "ctx = \<lparr>dc_tenant = t, dc_artifact = i, dc_worker = worker, dc_token = token\<rparr>"
  define s where "s = \<lparr>st_offset = 0, st_attempts = 0, st_hasher = Hasher_new (sl_new H), st_pending = None,
    st_relay = \<lparr>rl_remote = r\<lparr>r_db := d1\<rparr>, rl_subscribed = {}, rl_body = [], rl_accepts = None, rl_time = 0\<rparr>\<rparr>"
  have room: "has_room (dc_worker ctx) (rl_remote (st_relay s))"
    using assms(9) by (simp add: s_def ctx_def has_room_def)
  let ?chans = "snd (send worker (deliver_request (sv_text S) i token 0) (r_sessions r) (r_chans r))"
  have "holding ctx ?chans (snd (worker_send (dc_worker ctx)
      (deliver_request (sv_text S) (dc_artifact ctx) (dc_token ctx) (st_offset s)) (subscribe_delivery (dc_artifact ctx) (st_relay s))))"
    using begun_delivery [OF assms(5) down(1)]
    by (auto simp: holding_def s_def ctx_def) (auto simp: worker_send_def subscribe_delivery_def relay_db_def split: prod.splits)
  then obtain s' where s': "stream_rounds H (sv_text S) W ctx (am_size_bytes (row_manifest f)) (f_digest f) 0 s = s'"
    "gave_up ctx ?chans (st_relay s')"
    using stream_once [OF room] drain_silent [OF assms(4), of ctx ?chans "s\<lparr>st_relay := snd (worker_send (dc_worker ctx)
      (deliver_request (sv_text S) (dc_artifact ctx) (dc_token ctx) (st_offset s)) (subscribe_delivery (dc_artifact ctx) (st_relay s)))\<rparr>"
      H "sv_text S" "am_size_bytes (row_manifest f)" "f_digest f" bs] bs by fastforce
  then show ?thesis
    using down(2,3) by (auto simp: stream_worker_local_def s_def ctx_def gave_up_def relay_db_def)
qed

section \<open>An example\<close>

text \<open>The Worker of the example delivers the output of five bytes, once to the end and once with a
  connection that breaks after two bytes.\<close>

lemma domain_manifest_round_trip:
  assumes "text_laws L" "wf_hash (am_digest m)"
  shows "domain_manifest L (proto_artifact_manifest L m) = Ok m"
  using assms by (cases "am_kind m")
    (simp_all add: domain_manifest_def proto_artifact_manifest_def parse_print_hash)

definition example_start :: DeliverArtifactStart where
  "example_start = \<lparr>ds_artifact_id = uuid_print example_libs 30, ds_delivery_token = ''token'',
     ds_manifest = Some (proto_artifact_manifest example_libs (row_manifest example_output)), ds_offset = 0\<rparr>"

definition example_delivering_db :: db where
  "example_delivering_db = snd (begin_delivery 7 30 example_clocks example_delivery_db)"

definition example_pushes :: pushes where
  "example_pushes = \<lparr>ps_attached = (\<lambda>_. True), ps_count = 0, ps_received = []\<rparr>"

definition example_requests :: "(ErrorCode + DeliverArtifactRequest) list" where
  "example_requests = [Inr (DeliverChunk \<lparr>ac_offset = 0, ac_data = [1, 2], ac_last = False\<rparr>),
     Inr (DeliverChunk \<lparr>ac_offset = 2, ac_data = [3, 4, 5], ac_last = True\<rparr>)]"

lemma example_start_offset: "ds_offset example_start = 0"
  by (simp add: example_start_def)

lemma example_worker_of:
  "worker_of (\<lambda>_. [1]) (Some ''Bearer s'') example_delivering_db = Ok (7, 1)"
proof -
  have "db_workers example_delivering_db = [example_worker]"
    by (simp add: example_delivering_db_def begin_delivery_def Let_def example_delivery_db_def example_db_def)
  then show ?thesis by (simp add: worker_of_def example_bearer authenticate_worker_def example_worker_def wkey_def)
qed

lemma example_validated:
  "validate_delivery_start example_libs 7 example_start example_delivering_db = Ok (30, row_manifest example_output)"
proof -
  obtain d1 where d1: "begin_delivery 7 30 example_clocks example_delivery_db = (True, d1)"
    using example_begun by (cases "begin_delivery 7 30 example_clocks example_delivery_db") simp
  have "get_artifact 7 30 d1 = Some (example_output\<lparr>f_state := ArtifactState.Delivering\<rparr>)"
    using begun_delivery(2) [OF example_delivery_good d1] example_delivery_get by simp
  then have row: "get_artifact 7 30 example_delivering_db = Some (example_output\<lparr>f_state := ArtifactState.Delivering\<rparr>)"
    by (simp add: example_delivering_db_def d1)
  have "domain_manifest example_libs (proto_artifact_manifest example_libs (row_manifest example_output)) = Ok (row_manifest example_output)"
    by (rule domain_manifest_round_trip [OF example_text_laws])
      (simp add: row_manifest_def example_version_def wf_hash_def)
  moreover have "row_manifest (example_output\<lparr>f_state := ArtifactState.Delivering\<rparr>) = row_manifest example_output"
    by (simp add: row_manifest_def)
  moreover have "transfer_parse_id example_libs (uuid_print example_libs 30) = Ok 30"
    using example_text_laws by (simp add: transfer_parse_id_def text_laws_def)
  ultimately show ?thesis using row by (simp add: validate_delivery_start_def example_start_def)
qed

lemma example_room: "has_room 1 (example_remote example_delivery_db)"
  by (simp add: has_room_def example_remote_def)

lemma example_accepted:
  "deliver_artifact example_sha example_libs (\<lambda>_. [1]) (Some ''Bearer s'')
     (Inr (DeliverStart example_start) # example_requests) example_delivering_db example_pushes =
   (Ok \<lparr>dr_accepted = True, dr_reason = [], dr_committed_offset = 5\<rparr>,
    \<lparr>ps_attached = (\<lambda>_. True), ps_count = 3, ps_received = [Data [1, 2], Data [3, 4, 5], Complete]\<rparr>)"
proof -
  have "Hasher_finish (sl_finalize example_sha) h = example_version" for h
    by (cases h) (simp add: example_sha_def example_version_def)
  moreover have "am_digest (row_manifest example_output) = example_version"
    by (simp add: row_manifest_def)
  ultimately show ?thesis
    by (simp add: deliver_artifact_def example_worker_of example_validated example_requests_def example_pushes_def
        example_start_offset next_delivery_offset_def push_delivery_def TRANSFER_CHUNK_BYTES_def conclude_delivery_def
        validate_delivery_receipt_def ArtifactManifest_verify_def)
qed

theorem accepted_delivery_arrived_witness:
  "\<exists>body. rp_body (fst example_download) = Stream body \<and> length (body_bytes body) = 5"
  using accepted_delivery_arrived [OF example_sha_laws example_worker_of example_validated _ example_accepted [unfolded example_pushes_def]
      _ _ example_download_get _ _ example_room _ _ surjective_pairing example_download_ok, of example_world]
  by (auto simp: example_start_offset example_world_def)

theorem broken_delivery_not_resumed_witness:
  "\<exists>f'. get_artifact 7 30 (r_db (snd (download_for_tenant example_sha example_services (\<lambda>_. True)
       (example_world\<lparr>dw_rounds := (\<lambda>_. [Received (Data [1, 2])])\<rparr>) None 7 30 example_clocks
       (example_remote example_delivery_db)))) = Some f' \<and> f_state f' = ArtifactState.Lost"
proof -
  let ?W = "example_world\<lparr>dw_rounds := (\<lambda>_. [Received (Data [1, 2])])\<rparr>"
  have "deliver_artifact example_sha example_libs (\<lambda>_. [1]) (Some ''Bearer s'')
     [Inr (DeliverStart example_start), Inr (DeliverChunk \<lparr>ac_offset = 0, ac_data = [1, 2], ac_last = False\<rparr>),
      Inl ErrorCode.Internal] example_delivering_db \<lparr>ps_attached = (\<lambda>_. True), ps_count = 0, ps_received = []\<rparr> =
     (Err ErrorCode.Internal, \<lparr>ps_attached = (\<lambda>_. True), ps_count = 1, ps_received = [Data [1, 2]]\<rparr>)"
    by (simp add: deliver_artifact_def example_worker_of example_validated example_start_offset next_delivery_offset_def
        push_delivery_def TRANSFER_CHUNK_BYTES_def)
  moreover have "good (r_db (example_remote example_delivery_db))"
    by (simp add: example_remote_def example_delivery_good)
  ultimately show ?thesis
    using broken_delivery_not_resumed [of example_sha example_libs, OF _ _ _ _ _ example_download_get _ _ example_room _
        surjective_pairing example_download_ok, of _ _ _ _ ErrorCode.Internal _ ?W "\<lambda>_. True"]
    by (fastforce simp: example_world_def)
qed

definition example_fetch_db :: db where
  "example_fetch_db = example_db\<lparr>db_artifacts := [(input_row 7 31
       \<lparr>am_size_bytes = 4, am_digest = example_version, am_kind = MediaKind.Image, am_mime_type = []\<rparr>
       ArtifactPlacement.RemoteLocal None 4 example_clocks)
       \<lparr>f_generation := Some 10, f_state := ArtifactState.Available, f_content := Some [1, 2, 3, 4]\<rparr>]\<rparr>"

definition example_fetch :: FetchArtifactRequest where
  "example_fetch = \<lparr>fa_artifact_id = uuid_print example_libs 31, fa_attempt_id = uuid_print example_libs 20, fa_offset = 1\<rparr>"

theorem fetch_streams_content_witness:
  "\<exists>chunks. fetch_artifact example_libs (\<lambda>_. [1]) (Some ''Bearer s'') example_fetch (\<lambda>_. example_clocks)
     (\<lambda>_. example_fetch_db) example_fetch_db = Ok (map Ok chunks) \<and> concat (map ac_data chunks) = [2, 3, 4]"
proof -
  let ?f = "(input_row 7 31
       \<lparr>am_size_bytes = 4, am_digest = example_version, am_kind = MediaKind.Image, am_mime_type = []\<rparr>
       ArtifactPlacement.RemoteLocal None 4 example_clocks)
       \<lparr>f_generation := Some 10, f_state := ArtifactState.Available, f_content := Some [1, 2, 3, 4]\<rparr>"
  have worker: "worker_of (\<lambda>_. [1]) (Some ''Bearer s'') example_fetch_db = Ok (7, 1)"
    by (simp add: worker_of_def example_bearer authenticate_worker_def example_fetch_db_def example_db_def
        example_worker_def wkey_def)
  have ids: "transfer_parse_id example_libs (fa_attempt_id example_fetch) = Ok 20"
    "transfer_parse_id example_libs (fa_artifact_id example_fetch) = Ok 31"
    using example_text_laws by (simp_all add: transfer_parse_id_def text_laws_def example_fetch_def)
  have may: "worker_may_read 20 1 example_clocks example_fetch_db ?f"
    by (simp add: worker_may_read_def example_fetch_db_def input_row_def example_defs key_defs)
  have row: "attempt_input 7 20 1 31 example_clocks example_fetch_db = Some ?f"
    using may by (simp add: attempt_input_def example_fetch_db_def fkey_def) (simp add: input_row_def)
  have readable: "readable 7 20 1 31 [1, 2, 3, 4] example_clocks example_fetch_db"
    using may unfolding readable_def
    by (intro exI [of _ ?f]) (simp add: get_artifact_def example_fetch_db_def fkey_def input_row_def)
  have placed: "f_placement ?f = ArtifactPlacement.RemoteLocal" "am_size_bytes (row_manifest ?f) = 4" "f_size_bytes ?f = 4"
    by (simp_all add: input_row_def row_manifest_def)
  obtain items where items: "fetch_artifact example_libs (\<lambda>_. [1]) (Some ''Bearer s'') example_fetch (\<lambda>_. example_clocks)
     (\<lambda>_. example_fetch_db) example_fetch_db = Ok items"
    using worker ids row placed by (simp add: fetch_artifact_def example_fetch_def)
  show ?thesis
    using fetch_streams_content [OF items worker ids row readable] placed items by (auto simp: example_fetch_def)
qed

end
