(* ===== verification/Native_Admin.thy ===== *)
theory Native_Admin
  imports Native_Safety
begin

text \<open>
  The native Tenant settings service, \<^verbatim>\<open>gpq-remote/src/native/tenant.rs\<close>, and the native Catalog
  service, \<^verbatim>\<open>native/catalog.rs\<close>: reading and updating settings under an update mask, model aliases,
  and the listings of models and Workers with their availability.
\<close>

section \<open>Tenant settings\<close>

record WireTenantSettings =
  wt_maximum_queue_age :: "ProtoDuration option"
  wt_max_queued_generations :: u32
  wt_max_input_artifact_bytes :: u64
  wt_max_output_artifact_bytes :: u64
  wt_execution_timeout_ceiling :: "ProtoDuration option"
  wt_default_priority :: u32

definition tenant_settings_to_proto :: "native_libs \<Rightarrow> TenantSettings \<Rightarrow> WireTenantSettings" where
  "tenant_settings_to_proto N s =
     \<lparr>wt_maximum_queue_age = duration_to_proto N (maximum_queue_age s),
      wt_max_queued_generations = max_queued_generations s,
      wt_max_input_artifact_bytes = max_input_artifact_bytes s,
      wt_max_output_artifact_bytes = max_output_artifact_bytes s,
      wt_execution_timeout_ceiling = duration_to_proto N (execution_timeout_ceiling s),
      wt_default_priority = ucast (Priority_get (default_priority s))\<rparr>"

fun merge_path :: "WireTenantSettings \<Rightarrow> string \<Rightarrow> WireTenantSettings \<Rightarrow> WireTenantSettings option" where
  "merge_path incoming path merged =
     (if path = ''maximum_queue_age''
      then Some (merged\<lparr>wt_maximum_queue_age := wt_maximum_queue_age incoming\<rparr>)
      else if path = ''max_queued_generations''
      then Some (merged\<lparr>wt_max_queued_generations := wt_max_queued_generations incoming\<rparr>)
      else if path = ''max_input_artifact_bytes''
      then Some (merged\<lparr>wt_max_input_artifact_bytes := wt_max_input_artifact_bytes incoming\<rparr>)
      else if path = ''max_output_artifact_bytes''
      then Some (merged\<lparr>wt_max_output_artifact_bytes := wt_max_output_artifact_bytes incoming\<rparr>)
      else if path = ''execution_timeout_ceiling''
      then Some (merged\<lparr>wt_execution_timeout_ceiling := wt_execution_timeout_ceiling incoming\<rparr>)
      else if path = ''default_priority''
      then Some (merged\<lparr>wt_default_priority := wt_default_priority incoming\<rparr>)
      else None)"

fun merge_paths :: "WireTenantSettings \<Rightarrow> string list \<Rightarrow> WireTenantSettings \<Rightarrow> WireTenantSettings option" where
  "merge_paths incoming [] merged = Some merged"
| "merge_paths incoming (path # rest) merged =
     Option.bind (merge_path incoming path merged) (merge_paths incoming rest)"

definition apply_update_mask ::
  "WireTenantSettings \<Rightarrow> WireTenantSettings \<Rightarrow> string list \<Rightarrow> WireTenantSettings option" where
  "apply_update_mask current incoming update_mask =
     (if update_mask = [] then Some incoming else merge_paths incoming update_mask current)"

definition MIN_EXECUTION_TIMEOUT_CEILING_SECS :: nat where "MIN_EXECUTION_TIMEOUT_CEILING_SECS = 60"

definition tenant_settings_from_proto :: "native_libs \<Rightarrow> WireTenantSettings \<Rightarrow> TenantSettings option" where
  "tenant_settings_from_proto N w =
     Option.bind (duration_from_proto N (wt_maximum_queue_age w)) (\<lambda>age.
       if age = 0 then None else
     Option.bind (duration_from_proto N (wt_execution_timeout_ceiling w)) (\<lambda>ceiling.
       if ceiling div 1000000000 < MIN_EXECUTION_TIMEOUT_CEILING_SECS then None
       else if wt_max_queued_generations w = 0 then None
       else if wt_max_input_artifact_bytes w = 0 then None
       else if wt_max_output_artifact_bytes w = 0 then None
       else Option.bind (priority_from_wire (wt_default_priority w)) (\<lambda>priority.
         Some \<lparr>maximum_queue_age = age, max_queued_generations = wt_max_queued_generations w,
               max_input_artifact_bytes = wt_max_input_artifact_bytes w,
               max_output_artifact_bytes = wt_max_output_artifact_bytes w,
               execution_timeout_ceiling = ceiling, default_priority = priority\<rparr>)))"

definition get_tenant_settings ::
  "native_libs \<Rightarrow> (string \<Rightarrow> u8 list) \<Rightarrow> string option \<Rightarrow> clocks \<Rightarrow> db \<Rightarrow> ErrorCode + WireTenantSettings" where
  "get_tenant_settings N hasher authorization clk d =
     rbind (authenticate hasher authorization clk d) (\<lambda>t.
     rbind (map_err (\<lambda>_. ErrorCode.Internal) (load_settings t d)) (\<lambda>s.
       Ok (tenant_settings_to_proto N s)))"

definition empty_settings :: WireTenantSettings where
  "empty_settings =
     \<lparr>wt_maximum_queue_age = None, wt_max_queued_generations = 0, wt_max_input_artifact_bytes = 0,
      wt_max_output_artifact_bytes = 0, wt_execution_timeout_ceiling = None, wt_default_priority = 0\<rparr>"

definition update_tenant_settings ::
  "native_libs \<Rightarrow> (string \<Rightarrow> u8 list) \<Rightarrow> string option \<Rightarrow> WireTenantSettings option \<Rightarrow> string list \<Rightarrow> clocks \<Rightarrow> db \<Rightarrow>
   ErrorCode + WireTenantSettings \<times> db" where
  "update_tenant_settings N hasher authorization requested update_mask clk d =
     rbind (authenticate hasher authorization clk d) (\<lambda>t.
       let incoming = (case requested of Some s \<Rightarrow> s | None \<Rightarrow> empty_settings)
       in rbind (map_err (\<lambda>_. ErrorCode.Internal) (load_settings t d)) (\<lambda>current.
          rbind (case apply_update_mask (tenant_settings_to_proto N current) incoming update_mask of
                   None \<Rightarrow> Err ErrorCode.InvalidArgument | Some m \<Rightarrow> Ok m) (\<lambda>merged_proto.
          rbind (case tenant_settings_from_proto N merged_proto of
                   None \<Rightarrow> Err ErrorCode.InvalidArgument | Some m \<Rightarrow> Ok m) (\<lambda>merged.
          rbind (map_err (\<lambda>_. ErrorCode.Internal) (update_settings t merged clk d)) (\<lambda>(_, d').
            Ok (tenant_settings_to_proto N merged, d'))))))"

section \<open>Catalog\<close>

definition online_candidates :: "services \<Rightarrow> TenantId \<Rightarrow> remote \<Rightarrow> ErrorCode + SlotCapability list" where
  "online_candidates S t r =
     rbind (map_err (\<lambda>_. ErrorCode.Internal) (pool_capabilities (sv_env S) t (r_db r))) (\<lambda>pools.
       Ok (map fst (filter (\<lambda>(_, _, worker, _). worker \<in> online_workers t (r_sessions r)) pools)))"

definition model_available :: "SlotCapability list \<Rightarrow> ContentHash \<Rightarrow> bool" where
  "model_available candidates hash \<longleftrightarrow> (\<exists>c \<in> set candidates. sc_model_manifests c hash \<noteq> None)"

definition online_worker_count :: "SlotCapability list \<Rightarrow> ContentHash \<Rightarrow> u32" where
  "online_worker_count candidates hash =
     (let workers = remdups (map sc_worker_id (filter (\<lambda>c. sc_model_manifests c hash \<noteq> None) candidates))
      in if length workers < 2 ^ 32 then of_nat (length workers) else - 1)"

record ProtoModelVersion =
  pmv_content_sha256 :: string
  pmv_manifest :: ProtoModelManifest
  pmv_execution_timeout :: "ProtoDuration option"
  pmv_estimated_memory_bytes :: "u64 option"
  pmv_online_worker_count :: u32
  pmv_first_seen_at :: datetime

record ProtoModelAlias =
  pal_alias :: string
  pal_content_sha256 :: string
  pal_available :: bool

fun model_family_to_proto :: "ModelFamily \<Rightarrow> ProtoModelFamily EnumValue" where
  "model_family_to_proto QwenImage21 = Known MODEL_FAMILY_QWEN_IMAGE21"
| "model_family_to_proto MinimaxH3 = Known MODEL_FAMILY_MINIMAX_H3"

fun model_asset_role_to_proto :: "ModelAssetRole \<Rightarrow> ProtoModelAssetRole EnumValue" where
  "model_asset_role_to_proto Diffusion = Known MODEL_ASSET_ROLE_DIFFUSION"
| "model_asset_role_to_proto TextEncoder = Known MODEL_ASSET_ROLE_TEXT_ENCODER"
| "model_asset_role_to_proto VisionEncoder = Known MODEL_ASSET_ROLE_VISION_ENCODER"
| "model_asset_role_to_proto Vae = Known MODEL_ASSET_ROLE_VAE"
| "model_asset_role_to_proto AudioVae = Known MODEL_ASSET_ROLE_AUDIO_VAE"

definition model_manifest_to_proto :: "text_libs \<Rightarrow> ModelManifest \<Rightarrow> ProtoModelManifest" where
  "model_manifest_to_proto L manifest =
     \<lparr>pmm_family = model_family_to_proto (mm_family manifest),
      pmm_assets = map (\<lambda>(role, hash). \<lparr>pma_role = model_asset_role_to_proto role, pma_sha256 = print_hash L hash\<rparr>)
                     (asset_entries (mm_assets manifest)),
      pmm_default_loras = map (\<lambda>lora. \<lparr>pls_sha256 = print_hash L (lora_sha256 lora), pls_scale = lora_scale lora\<rparr>)
                            (mm_default_loras manifest),
      pmm_sampling = Some \<lparr>psp_steps = sp_steps (mm_sampling manifest),
                           psp_cfg_scale = sp_cfg_scale (mm_sampling manifest),
                           psp_sigmas = sp_sigmas (mm_sampling manifest)\<rparr>\<rparr>"

definition model_version_row_to_proto ::
  "text_libs \<Rightarrow> native_libs \<Rightarrow> ModelVersionRow \<Rightarrow> u32 \<Rightarrow> ProtoModelVersion" where
  "model_version_row_to_proto L N row n =
     \<lparr>pmv_content_sha256 = print_hash L (vr_content_hash row),
      pmv_manifest = model_manifest_to_proto L (vr_manifest row),
      pmv_execution_timeout = Option.bind (execution_timeout (vr_limits row)) (duration_to_proto N),
      pmv_estimated_memory_bytes = estimated_memory_bytes (vr_limits row), pmv_online_worker_count = n,
      pmv_first_seen_at = vr_first_seen_at row\<rparr>"

definition model_alias_to_proto :: "text_libs \<Rightarrow> ModelAliasRow \<Rightarrow> bool \<Rightarrow> ProtoModelAlias" where
  "model_alias_to_proto L row available =
     \<lparr>pal_alias = ma_alias row, pal_content_sha256 = print_hash L (ma_content_hash row), pal_available = available\<rparr>"

fun catalog_error :: "CatalogError \<Rightarrow> ErrorCode" where
  "catalog_error (UnknownVersion _) = ErrorCode.NotFound"
| "catalog_error (CatalogDatabase _) = ErrorCode.Internal"

definition native_set_model_alias ::
  "services \<Rightarrow> (string \<Rightarrow> u8 list) \<Rightarrow> string option \<Rightarrow> string \<Rightarrow> string \<Rightarrow> clocks \<Rightarrow> remote \<Rightarrow> ProtoModelAlias answer" where
  "native_set_model_alias S hasher authorization alias content_sha256 clk r =
     (case rbind (authenticate hasher authorization clk (r_db r)) (\<lambda>t.
           rbind (case parse_hash (sv_text S) content_sha256 of
                    None \<Rightarrow> Err ErrorCode.InvalidArgument | Some h \<Rightarrow> Ok h) (\<lambda>hash.
           rbind (map_err catalog_error (set_model_alias (sv_env S) t alias hash clk (r_db r))) (\<lambda>(row, d).
             Ok (t, hash, row, d)))) of
        Err e \<Rightarrow> (Err e, r)
      | Ok (t, hash, row, d) \<Rightarrow>
          (rbind (online_candidates S t (r\<lparr>r_db := d\<rparr>)) (\<lambda>candidates.
             Ok (model_alias_to_proto (sv_text S) row (model_available candidates hash))),
           r\<lparr>r_db := d\<rparr>))"

definition native_delete_model_alias ::
  "(string \<Rightarrow> u8 list) \<Rightarrow> string option \<Rightarrow> string \<Rightarrow> clocks \<Rightarrow> remote \<Rightarrow> unit answer" where
  "native_delete_model_alias hasher authorization alias clk r =
     (case authenticate hasher authorization clk (r_db r) of
        Err e \<Rightarrow> (Err e, r)
      | Ok t \<Rightarrow>
          let (deleted, d) = delete_model_alias t alias (r_db r)
          in (if deleted then Ok () else Err ErrorCode.NotFound, r\<lparr>r_db := d\<rparr>))"

definition list_models ::
  "services \<Rightarrow> native_libs \<Rightarrow> (string \<Rightarrow> u8 list) \<Rightarrow> string option \<Rightarrow> clocks \<Rightarrow> remote \<Rightarrow>
   ErrorCode + ProtoModelAlias list \<times> ProtoModelVersion list" where
  "list_models S N hasher authorization clk r =
     rbind (authenticate hasher authorization clk (r_db r)) (\<lambda>t.
     rbind (map_err (\<lambda>_. ErrorCode.Internal) (list_model_versions (sv_env S) t (r_db r))) (\<lambda>versions.
     rbind (online_candidates S t r) (\<lambda>candidates.
       Ok (map (\<lambda>row. model_alias_to_proto (sv_text S) row (model_available candidates (ma_content_hash row)))
             (list_model_aliases t (r_db r)),
           map (\<lambda>row. model_version_row_to_proto (sv_text S) N row
                 (online_worker_count candidates (vr_content_hash row))) versions))))"

record PoolSummary =
  ps_pool_id :: string
  ps_accelerator :: string
  ps_backend_version :: string
  ps_total_slots :: u32
  ps_free_slots :: u32
  ps_resident_model_sha256 :: string
  ps_accelerator_memory_bytes :: "u64 option"

record WorkerSummary =
  ws_worker_id :: string
  ws_name :: string
  ws_online :: bool
  ws_worker_version :: string
  ws_last_seen_at :: "datetime option"
  ws_pools :: "PoolSummary list"
  ws_model_sha256 :: "string list"

definition list_pools :: "TenantId \<Rightarrow> db \<Rightarrow> (pool_row \<times> ContentHash list) list" where
  "list_pools t d =
     map (\<lambda>p. (p, map pm_content (filter (\<lambda>m. pm_tenant m = p_tenant p \<and> pm_pool_id m = p_id p) (db_pool_models d))))
       (filter (\<lambda>p. p_tenant p = t) (db_pools d))"

definition pool_summary :: "text_libs \<Rightarrow> pool_row \<Rightarrow> PoolSummary" where
  "pool_summary L p =
     \<lparr>ps_pool_id = uuid_print L (p_id p), ps_accelerator = p_accelerator p,
      ps_backend_version = p_backend_version p, ps_total_slots = u32_or_0 (p_total_slots p),
      ps_free_slots = u32_or_0 (p_free_slots p),
      ps_resident_model_sha256 = (case p_resident_model p of Some h \<Rightarrow> print_hash L h | None \<Rightarrow> []),
      ps_accelerator_memory_bytes = u64_of_bigint (p_accelerator_memory_bytes p)\<rparr>"

definition native_list_workers ::
  "services \<Rightarrow> (string \<Rightarrow> u8 list) \<Rightarrow> string option \<Rightarrow> clocks \<Rightarrow> remote \<Rightarrow> ErrorCode + WorkerSummary list" where
  "native_list_workers S hasher authorization clk r =
     rbind (authenticate hasher authorization clk (r_db r)) (\<lambda>t.
       let pools = list_pools t (r_db r)
       in Ok (map (\<lambda>w.
            let own = filter (\<lambda>(p, _). p_worker_id p = w_id w) pools
            in \<lparr>ws_worker_id = uuid_print (sv_text S) (w_id w), ws_name = w_name w,
                ws_online = is_online (w_id w) (r_sessions r), ws_worker_version = w_worker_version w,
                ws_last_seen_at = w_last_seen_at w,
                ws_pools = map (\<lambda>(p, _). pool_summary (sv_text S) p) own,
                ws_model_sha256 = concat (map (\<lambda>(_, hashes). map (print_hash (sv_text S)) hashes) own)\<rparr>)
            (list_workers t (r_db r))))"

section \<open>The contract with the store\<close>

lemma keeps_update_settings [keeps_intros]:
  assumes "update_settings t s clk d = Ok (u, d')"
  shows "keeps t d d'"
proof (rule keeps_log)
  obtain f where d': "d' = d\<lparr>db_tenants := update_where (\<lambda>x. tn_id x = t) f (db_tenants d)\<rparr>" "\<And>x. tn_id (f x) = tn_id x"
    using assms by (auto simp: update_settings_def split: if_splits)
  then show "db_events d' = db_events d" by simp
  have "filter (\<lambda>x. tn_id x \<noteq> t) (update_where (\<lambda>x. tn_id x = t) f (db_tenants d)) = filter (\<lambda>x. tn_id x \<noteq> t) (db_tenants d)"
    by (rule filter_update_where) (simp add: d'(2))
  then show "store_inv d' \<and> evolves t d d'" if "store_inv d"
    using that by (auto simp: d'(1) others_def intro!: evolves_same store_invD(1))
qed

lemma keeps_aliases [keeps_intros]:
  "set_model_alias E t alias hash clk d = Ok (row, d') \<Longrightarrow> keeps t d d'"
  "keeps t d (snd (delete_model_alias t alias d))"
proof -
  show "keeps t d d'" if ok: "set_model_alias E t alias hash clk d = Ok (row, d')"
    using alias_sound(1) [OF _ ok] by (rule keeps_log) (use ok in \<open>auto elim: set_model_alias_Ok\<close>)
  show "keeps t d (snd (delete_model_alias t alias d))"
    by (rule keeps_log, erule alias_sound(2)) (simp add: delete_model_alias_def Let_def)
qed

lemma keeps_admin_calls [keeps_intros]:
  assumes "authenticate hasher authorization clk (r_db r) = Ok t"
  shows "keeps t (r_db r) (r_db (snd (native_set_model_alias S hasher authorization alias content clk r)))"
    "keeps t (r_db r) (r_db (snd (native_delete_model_alias hasher authorization alias clk r)))"
    "update_tenant_settings N hasher authorization requested paths clk (r_db r) = Ok (w, d') \<Longrightarrow> keeps t (r_db r) d'"
  using assms keeps_aliases(2) [of t "r_db r" "alias"]
  by (auto simp: native_set_model_alias_def native_delete_model_alias_def update_tenant_settings_def rbind_def
      Let_def map_err_def split: sum.splits option.splits prod.splits intro: keeps_aliases(1) keeps_update_settings)

interpretation admin_op: tenant_op
  "\<lambda>t d d'. \<exists>S N hasher authorization alias content requested paths clk r w.
     r_db r = d \<and> authenticate hasher authorization clk d = Ok t \<and>
     (d' = r_db (snd (native_set_model_alias S hasher authorization alias content clk r)) \<or>
      d' = r_db (snd (native_delete_model_alias hasher authorization alias clk r)) \<or>
      update_tenant_settings N hasher authorization requested paths clk d = Ok (w, d'))"
  by unfold_locales (auto intro: keeps_admin_calls)

section \<open>Lemmas on updates\<close>

text \<open>The settings that take the fields a predicate selects from the request and the others from
  the current settings; a merge is that selection.\<close>

definition selected ::
  "(string \<Rightarrow> bool) \<Rightarrow> WireTenantSettings \<Rightarrow> WireTenantSettings \<Rightarrow> WireTenantSettings" where
  "selected P incoming current =
     \<lparr>wt_maximum_queue_age =
            (if P ''maximum_queue_age'' then wt_maximum_queue_age incoming else wt_maximum_queue_age current),
          wt_max_queued_generations =
            (if P ''max_queued_generations'' then wt_max_queued_generations incoming else wt_max_queued_generations current),
          wt_max_input_artifact_bytes =
            (if P ''max_input_artifact_bytes'' then wt_max_input_artifact_bytes incoming else wt_max_input_artifact_bytes current),
          wt_max_output_artifact_bytes =
            (if P ''max_output_artifact_bytes'' then wt_max_output_artifact_bytes incoming else wt_max_output_artifact_bytes current),
          wt_execution_timeout_ceiling =
            (if P ''execution_timeout_ceiling'' then wt_execution_timeout_ceiling incoming else wt_execution_timeout_ceiling current),
          wt_default_priority =
            (if P ''default_priority'' then wt_default_priority incoming else wt_default_priority current)\<rparr>"

lemma selected_none: "selected (\<lambda>_. False) incoming current = current"
  by (simp add: selected_def)

lemma selected_all: "selected (\<lambda>_. True) incoming current = incoming"
  by (simp add: selected_def)

lemma if_either: "(if p then a else if q then a else b) = (if p \<or> q then a else b)"
  by simp

lemma selected_selected:
  "selected P incoming (selected Q incoming current) = selected (\<lambda>p. P p \<or> Q p) incoming current"
  by (simp add: selected_def if_either cong: if_cong split del: if_split)

lemma merge_path_known:
  "merge_path incoming path m = Some out \<Longrightarrow> path = ''maximum_queue_age'' \<or> path = ''max_queued_generations'' \<or>
     path = ''max_input_artifact_bytes'' \<or> path = ''max_output_artifact_bytes'' \<or>
     path = ''execution_timeout_ceiling'' \<or> path = ''default_priority''"
  by (rule ccontr) simp

lemma merge_path_selected:
  assumes "merge_path incoming path m = Some out"
  shows "out = selected (\<lambda>p. p = path) incoming m"
  using merge_path_known [OF assms] assms by (elim disjE; hypsubst; cases m; simp add: selected_def)

lemma merge_paths_selected:
  "merge_paths incoming paths m = Some out \<Longrightarrow> out = selected (\<lambda>p. p \<in> set paths) incoming m"
proof (induction incoming paths m rule: merge_paths.induct)
  case (2 incoming path rest m)
  from 2(2) obtain m1 where m1: "merge_path incoming path m = Some m1" "merge_paths incoming rest m1 = Some out"
    by (auto simp: bind_eq_Some_conv simp del: merge_path.simps)
  have "(\<lambda>p. p \<in> set rest \<or> p = path) = (\<lambda>p. p \<in> set (path # rest))" by auto
  then show ?case using 2(1) [OF m1] merge_path_selected [OF m1(1)] by (simp add: selected_selected)
qed (simp add: selected_none)

lemma apply_update_mask_selected:
  assumes "apply_update_mask current incoming paths = Some out"
  shows "out = selected (\<lambda>p. paths = [] \<or> p \<in> set paths) incoming current"
  using assms merge_paths_selected [of incoming paths current out]
  by (auto simp: apply_update_mask_def selected_all split: if_splits)

lemma settings_from_proto_bounds:
  assumes "tenant_settings_from_proto N w = Some s"
  shows "0 < maximum_queue_age s" "60 * 1000000000 \<le> execution_timeout_ceiling s" "0 < max_queued_generations s"
    "0 < max_input_artifact_bytes s" "0 < max_output_artifact_bytes s" "wf_priority (default_priority s)"
proof -
  obtain age ceiling p where s: "age \<noteq> 0" "\<not> ceiling div 1000000000 < 60" "wt_max_queued_generations w \<noteq> 0"
    "wt_max_input_artifact_bytes w \<noteq> 0" "wt_max_output_artifact_bytes w \<noteq> 0"
    "priority_from_wire (wt_default_priority w) = Some p"
    and eq: "s = \<lparr>maximum_queue_age = age, max_queued_generations = wt_max_queued_generations w,
               max_input_artifact_bytes = wt_max_input_artifact_bytes w,
               max_output_artifact_bytes = wt_max_output_artifact_bytes w,
               execution_timeout_ceiling = ceiling, default_priority = p\<rparr>"
    using assms by (auto simp: tenant_settings_from_proto_def bind_eq_Some_conv MIN_EXECUTION_TIMEOUT_CEILING_SECS_def
        split: if_splits)
  have "60 \<le> ceiling div 1000000000" using s(2) by simp
  then have "60 * 1000000000 \<le> ceiling div 1000000000 * 1000000000" by simp
  also have "\<dots> \<le> ceiling" by (rule div_times_less_eq_dividend)
  finally show "60 * 1000000000 \<le> execution_timeout_ceiling s" by (simp add: eq)
  have "wf_priority p"
    using s(6) by (auto simp: priority_from_wire_def Priority_new_def Priority_MAX_def wf_priority_def
        split: if_splits)
  then show "wf_priority (default_priority s)" by (simp add: eq)
qed (use assms in \<open>auto simp: tenant_settings_from_proto_def bind_eq_Some_conv word_neq_0_conv split: if_splits\<close>)

lemma update_settings_keys:
  "update_settings t s clk d = Ok (u, d') \<Longrightarrow> db_master_keys d' = db_master_keys d"
  by (auto simp: update_settings_def split: if_splits)

section \<open>Properties\<close>

text \<open>C27: Updating the settings of a Tenant changes exactly the fields the update mask names, all of
  them when the mask is empty, and never stores settings outside the documented bounds: positive
  limits and queue age, a ceiling of at least a minute, a priority from zero to nine. The answer
  is the merged settings, and when the durations are whole microseconds below 2 to the 63 a
  later read returns the same.\<close>
theorem settings_update_exact:
  assumes "update_tenant_settings N hasher authorization requested paths clk d = Ok (w, d')"
  shows "\<exists>t current merged. authenticate hasher authorization clk d = Ok t \<and> load_settings t d = Ok current \<and>
    tenant_settings_from_proto N (selected (\<lambda>p. paths = [] \<or> p \<in> set paths)
      (case requested of Some s \<Rightarrow> s | None \<Rightarrow> empty_settings) (tenant_settings_to_proto N current)) = Some merged \<and>
    w = tenant_settings_to_proto N merged \<and>
    0 < maximum_queue_age merged \<and> 60 * 1000000000 \<le> execution_timeout_ceiling merged \<and>
    0 < max_queued_generations merged \<and> 0 < max_input_artifact_bytes merged \<and>
    0 < max_output_artifact_bytes merged \<and> wf_priority (default_priority merged) \<and>
    (maximum_queue_age merged mod 1000 = 0 \<and> maximum_queue_age merged div 1000 < 2 ^ 63 \<and>
     execution_timeout_ceiling merged mod 1000 = 0 \<and> execution_timeout_ceiling merged div 1000 < 2 ^ 63 \<longrightarrow>
       get_tenant_settings N hasher authorization clk d' = Ok w)"
proof -
  obtain t current merged_proto merged where *: "authenticate hasher authorization clk d = Ok t"
    "load_settings t d = Ok current"
    "apply_update_mask (tenant_settings_to_proto N current)
       (case requested of Some s \<Rightarrow> s | None \<Rightarrow> empty_settings) paths = Some merged_proto"
    "tenant_settings_from_proto N merged_proto = Some merged"
    "update_settings t merged clk d = Ok ((), d')" "w = tenant_settings_to_proto N merged"
    using assms by (auto simp: update_tenant_settings_def Let_def rbind_eq_Ok map_err_eq_Ok split: option.splits)
  have "t \<in> tn_id ` set (db_tenants d)"
    using *(2) by (auto simp: load_settings_def find_Some_iff split: option.splits)
  moreover have "merged\<lparr>maximum_queue_age := maximum_queue_age merged, execution_timeout_ceiling := execution_timeout_ceiling merged\<rparr> = merged"
    by simp
  moreover have "authenticate hasher authorization clk d' = authenticate hasher authorization clk d"
    using update_settings_keys [OF *(5)] by (simp add: authenticate_def authenticate_master_key_def split: option.splits)
  ultimately have "get_tenant_settings N hasher authorization clk d' = Ok w"
    if "maximum_queue_age merged mod 1000 = 0" "maximum_queue_age merged div 1000 < 2 ^ 63"
      "execution_timeout_ceiling merged mod 1000 = 0" "execution_timeout_ceiling merged div 1000 < 2 ^ 63"
    using tenant_settings_round_trip [OF *(5)] that * div_mult_mod_eq [of "maximum_queue_age merged" 1000]
      div_mult_mod_eq [of "execution_timeout_ceiling merged" 1000] by (simp add: get_tenant_settings_def)
  then show ?thesis
    using *(1,2,6) *(4) [unfolded apply_update_mask_selected [OF *(3)]] settings_from_proto_bounds [OF *(4)]
    by (intro exI [of _ t] exI [of _ current] exI [of _ merged] conjI impI) (assumption | elim conjE, assumption)+
qed

definition example_limits :: WireTenantSettings where
  "example_limits = empty_settings\<lparr>wt_max_queued_generations := 5\<rparr>"

theorem settings_update_exact_witness:
  "\<exists>w d'. update_tenant_settings example_native_libs (\<lambda>_. [9]) (Some ''Bearer s'') (Some example_limits)
       [''max_queued_generations''] example_clocks example_admission_db = Ok (w, d') \<and>
     wt_max_queued_generations w = 5 \<and>
     get_tenant_settings example_native_libs (\<lambda>_. [9]) (Some ''Bearer s'') example_clocks d' = Ok w"
proof -
  let ?update = "update_tenant_settings example_native_libs (\<lambda>_. [9]) (Some ''Bearer s'') (Some example_limits)
       [''max_queued_generations''] example_clocks example_admission_db"
  let ?new = "TenantSettings_default\<lparr>max_queued_generations := 5\<rparr>"
  have load: "load_settings 7 example_admission_db = Ok TenantSettings_default"
    using new_tenant_row_settings [of 7 "''acme''" example_clocks]
    by (simp add: load_settings_def example_admission_db_def new_tenant_row_def)
  have auth: "authenticate (\<lambda>_. [9]) (Some ''Bearer s'') example_clocks example_admission_db = Ok 7"
    by (rule example_authenticate) simp
  have durations: "maximum_queue_age TenantSettings_default = 1800000000000"
    "execution_timeout_ceiling TenantSettings_default = 86400000000000"
    "default_priority TenantSettings_default = Priority 5" "0 < max_input_artifact_bytes TenantSettings_default"
    "0 < max_output_artifact_bytes TenantSettings_default"
    "uint (max_input_artifact_bytes TenantSettings_default) < 2 ^ 63"
    "uint (max_output_artifact_bytes TenantSettings_default) < 2 ^ 63"
    by (simp_all add: TenantSettings_default_def DEFAULT_MAXIMUM_QUEUE_AGE_def from_mins_def from_hours_def
        from_secs_def Priority_DEFAULT_def)
  have trip: "duration_from_proto example_native_libs (duration_to_proto example_native_libs x) = Some x" for x
    by (simp add: duration_from_proto_def duration_to_proto_def example_native_libs_def flip: of_nat_div of_nat_mod)
  have dec: "tenant_settings_from_proto example_native_libs
      ((tenant_settings_to_proto example_native_libs TenantSettings_default)\<lparr>wt_max_queued_generations := 5\<rparr>) = Some ?new"
    using durations by (auto simp: tenant_settings_from_proto_def tenant_settings_to_proto_def trip
        MIN_EXECUTION_TIMEOUT_CEILING_SECS_def priority_from_wire_def Priority_new_def Priority_MAX_def)
  obtain d' where "update_settings 7 ?new example_clocks example_admission_db = Ok ((), d')"
    using durations by (simp add: update_settings_def positive_interval_def interval_from_duration_def word_less_def)
  then have "?update = Ok (tenant_settings_to_proto example_native_libs ?new, d')"
    using load auth dec by (simp add: update_tenant_settings_def Let_def apply_update_mask_def example_limits_def)
  moreover from settings_update_exact [OF this] have "get_tenant_settings example_native_libs (\<lambda>_. [9]) (Some ''Bearer s'')
      example_clocks d' = Ok (tenant_settings_to_proto example_native_libs ?new)"
    using load auth dec durations
    by (auto simp: selected_def example_limits_def tenant_settings_to_proto_def)
  ultimately show ?thesis by (auto simp: tenant_settings_to_proto_def)
qed

end
