(* ===== verification/Administration.thy ===== *)
theory Administration
  imports Native_Admin
begin

text \<open>
  The operations that bring Tenants and Workers into being: Worker enrollment,
  \<^verbatim>\<open>gpq-remote/src/enrollment.rs\<close>, and the local administration commands of
  \<^verbatim>\<open>gpq-remote/src/cli.rs\<close>. Secrets are a prefix and the text of 32 random bytes, which is an
  argument; the keyed hash is a parameter. What a command prints is a value.
\<close>

section \<open>Secrets\<close>

definition generate_secret :: "(u8 list \<Rightarrow> string) \<Rightarrow> string \<Rightarrow> u8 list \<Rightarrow> string" where
  "generate_secret base64url prefix bytes = prefix @ ''_'' @ base64url bytes"

section \<open>Enrollment\<close>

record EnrollRequest =
  er_worker_name :: string
  er_host_descriptor :: string
  er_protocol_major :: u32
  er_protocol_minor :: u32
  er_worker_version :: string

record EnrollResponse =
  en_worker_id :: string
  en_worker_credential :: string
  en_tenant_id :: string

definition enroll_worker ::
  "text_libs \<Rightarrow> (u8 list \<Rightarrow> string) \<Rightarrow> (string \<Rightarrow> u8 list) \<Rightarrow> string option \<Rightarrow> EnrollRequest \<Rightarrow> u8 list \<Rightarrow>
   WorkerId \<Rightarrow> clocks \<Rightarrow> db \<Rightarrow> ErrorCode + EnrollResponse \<times> db" where
  "enroll_worker L base64url hasher authorization request random_bytes new_id clk d =
     (case bearer_token authorization of
        None \<Rightarrow> Err ErrorCode.Unauthenticated
      | Some token \<Rightarrow>
          (case authenticate_master_key hasher token clk d of
             None \<Rightarrow> Err ErrorCode.Unauthenticated
           | Some t \<Rightarrow>
               if \<not> protocol_compatible (er_protocol_major request) then Err ErrorCode.FailedPrecondition
               else if er_worker_name request = [] then Err ErrorCode.InvalidArgument
               else
                 let credential = generate_secret base64url ''gpq_wc_'' random_bytes
                 in rbind (map_err (\<lambda>_. ErrorCode.Internal) (enroll t
                      \<lparr>we_name = er_worker_name request, we_host_descriptor = er_host_descriptor request,
                       we_worker_version = er_worker_version request, we_protocol_major = er_protocol_major request,
                       we_protocol_minor = er_protocol_minor request, we_credential_hash = hasher credential\<rparr>
                      new_id clk d)) (\<lambda>(worker, d').
                    Ok (\<lparr>en_worker_id = uuid_print L worker, en_worker_credential = credential,
                         en_tenant_id = uuid_print L t\<rparr>, d'))))"

section \<open>Administration commands\<close>

datatype TenantKeyCommand =
    Rotate TenantId string "int option"
  | RevokeKey TenantId uuid
  | ListKeys TenantId

datatype TenantCommand =
    CreateTenant string
  | ListTenants
  | DeleteTenant TenantId
  | TenantKey TenantKeyCommand

datatype WorkerCommand =
    ListWorkers TenantId
  | RevokeWorker TenantId WorkerId

datatype status_text = DeletedTenant | ActiveTenant | RevokedKey | LiveKey | RevokedWorker | ActiveWorker

datatype printed =
    CreatedTenant TenantId
  | TenantLines "(TenantId \<times> string \<times> datetime \<times> status_text) list"
  | TenantDeleted TenantId
  | KeyIssued uuid string
  | KeyRevoked uuid
  | KeyLines "(uuid \<times> string \<times> datetime \<times> status_text \<times> datetime option) list"
  | WorkerLines "(WorkerId \<times> string \<times> string \<times> datetime option \<times> status_text) list"
  | WorkerRevoked WorkerId

text \<open>What a command draws from outside: the random bytes of a secret, fresh identifiers, the
  clocks, and the libraries for secrets.\<close>

record admin_input =
  ai_base64url :: "u8 list \<Rightarrow> string"
  ai_hasher :: "string \<Rightarrow> u8 list"
  ai_random :: "u8 list"
  ai_new_id :: uuid
  ai_now :: datetime
  ai_clk :: clocks

definition days :: "int \<Rightarrow> int" where
  "days n = n * 86400000000000"

fun run_tenant_key :: "TenantKeyCommand \<Rightarrow> admin_input \<Rightarrow> db \<Rightarrow> sql_error + printed \<times> db" where
  "run_tenant_key (Rotate t label expires_in_days) inp d =
     (let secret = generate_secret (ai_base64url inp) ''gpq_mk'' (ai_random inp)
      in rbind (insert_master_key t (ai_hasher inp secret) label
                  (map_option (\<lambda>n. ai_now inp + days n) expires_in_days) (ai_new_id inp) (ai_clk inp) d) (\<lambda>(key_id, d').
           Ok (KeyIssued key_id secret, d')))"
| "run_tenant_key (RevokeKey t key_id) inp d = Ok (KeyRevoked key_id, revoke_master_key t key_id (ai_clk inp) d)"
| "run_tenant_key (ListKeys t) inp d =
     Ok (KeyLines (map (\<lambda>k. (mk_id k, mk_label k, mk_created_at k,
           if mk_revoked_at k \<noteq> None then RevokedKey else LiveKey, mk_expires_at k)) (list_master_keys t d)), d)"

fun run_tenant :: "TenantCommand \<Rightarrow> admin_input \<Rightarrow> db \<Rightarrow> sql_error + printed \<times> db" where
  "run_tenant (CreateTenant name) inp d =
     rbind (create_tenant name (ai_new_id inp) (ai_clk inp) d) (\<lambda>(t, d'). Ok (CreatedTenant t, d'))"
| "run_tenant ListTenants inp d =
     Ok (TenantLines (map (\<lambda>x. (tn_id x, tn_name x, tn_created_at x,
           if tn_deleted_at x \<noteq> None then DeletedTenant else ActiveTenant)) (list_tenants d)), d)"
| "run_tenant (DeleteTenant t) inp d = Ok (TenantDeleted t, delete_tenant t (ai_clk inp) d)"
| "run_tenant (TenantKey command) inp d = run_tenant_key command inp d"

fun run_worker :: "WorkerCommand \<Rightarrow> admin_input \<Rightarrow> db \<Rightarrow> sql_error + printed \<times> db" where
  "run_worker (ListWorkers t) inp d =
     Ok (WorkerLines (map (\<lambda>w. (w_id w, w_name w, w_worker_version w, w_last_seen_at w,
           if w_revoked_at w \<noteq> None then RevokedWorker else ActiveWorker)) (list_workers t d)), d)"
| "run_worker (RevokeWorker t worker) inp d = Ok (WorkerRevoked worker, revoke_worker t worker (ai_clk inp) d)"

section \<open>The contract with the store\<close>

lemma keeps_tenant_tables [keeps_intros]:
  "create_tenant name new_id clk d = Ok (t, d') \<Longrightarrow> keeps t d d'"
  "keeps t d (delete_tenant t clk d)"
  "insert_master_key t key_hash label expires_at new_id clk d = Ok (key_id, d') \<Longrightarrow> keeps t d d'"
  "keeps t d (revoke_master_key t key_id clk d)"
  "enroll t e new_id clk d = Ok (w, d') \<Longrightarrow> keeps t d d'"
proof -
  have same: "keeps t d (d\<lparr>db_tenants := xs, db_master_keys := ks\<rparr>)"
    if "filter (\<lambda>r. tn_id r \<noteq> t) xs = filter (\<lambda>r. tn_id r \<noteq> t) (db_tenants d)"
      "filter (\<lambda>r. mk_tenant r \<noteq> t) ks = filter (\<lambda>r. mk_tenant r \<noteq> t) (db_master_keys d)" for t xs ks
    using that by (intro keeps_log) (auto simp: others_def intro!: evolves_same store_invD(1))
  show "keeps t d d'" if "create_tenant name new_id clk d = Ok (t, d')"
    using same [of t "db_tenants d @ [new_tenant_row t name clk]" "db_master_keys d"] that
    by (auto simp: create_tenant_def new_tenant_row_def split: if_splits)
  have "filter (\<lambda>r. tn_id r \<noteq> t) (update_where (\<lambda>x. tn_id x = t \<and> tn_deleted_at x = None)
      (\<lambda>x. x\<lparr>tn_deleted_at := Some (sql_now clk)\<rparr>) (db_tenants d)) = filter (\<lambda>r. tn_id r \<noteq> t) (db_tenants d)"
    by (rule filter_update_where) simp
  from same [OF this refl] show "keeps t d (delete_tenant t clk d)" by (simp add: delete_tenant_def)
  show "keeps t d d'" if "insert_master_key t key_hash label expires_at new_id clk d = Ok (key_id, d')"
    using same [of t "db_tenants d" "db_master_keys d' "] that
    by (auto simp: insert_master_key_def split: if_splits)
  have "filter (\<lambda>r. mk_tenant r \<noteq> t) (update_where (\<lambda>k. mk_tenant k = t \<and> mk_id k = key_id \<and> mk_revoked_at k = None)
      (\<lambda>k. k\<lparr>mk_revoked_at := Some (sql_now clk)\<rparr>) (db_master_keys d)) = filter (\<lambda>r. mk_tenant r \<noteq> t) (db_master_keys d)"
    by (rule filter_update_where) simp
  from same [OF refl this] show "keeps t d (revoke_master_key t key_id clk d)" by (simp add: revoke_master_key_def)
  show "keeps t d d'" if "enroll t e new_id clk d = Ok (w, d')"
    using inv_enroll [OF _ that] evolves_enroll [OF _ that] that
    by (intro keeps_log) (auto simp: enroll_def dest: store_invD(1) split: option.splits if_splits)
qed

lemma keeps_enroll_worker [keeps_intros]:
  assumes "enroll_worker L base64url hasher authorization request random_bytes new_id clk d = Ok (response, d')"
    "authenticate hasher authorization clk d = Ok t"
  shows "keeps t d d'"
  using assms
  by (auto simp: enroll_worker_def authenticate_def Let_def rbind_eq_Ok map_err_eq_Ok intro: keeps_tenant_tables(5)
      split: option.splits if_splits)

text \<open>The Tenant a command acts on.\<close>

fun tenant_of_command :: "TenantCommand \<Rightarrow> admin_input \<Rightarrow> TenantId" where
  "tenant_of_command (CreateTenant name) inp = ai_new_id inp"
| "tenant_of_command ListTenants inp = ai_new_id inp"
| "tenant_of_command (DeleteTenant t) inp = t"
| "tenant_of_command (TenantKey (Rotate t label n)) inp = t"
| "tenant_of_command (TenantKey (RevokeKey t key_id)) inp = t"
| "tenant_of_command (TenantKey (ListKeys t)) inp = t"

fun tenant_of_worker_command :: "WorkerCommand \<Rightarrow> TenantId" where
  "tenant_of_worker_command (ListWorkers t) = t"
| "tenant_of_worker_command (RevokeWorker t w) = t"

lemma keeps_commands [keeps_intros]:
  "run_tenant command inp d = Ok (out, d') \<Longrightarrow> keeps (tenant_of_command command inp) d d'"
  "run_worker wcommand inp d = Ok (out, d') \<Longrightarrow> keeps (tenant_of_worker_command wcommand) d d'"
proof -
  show "keeps (tenant_of_worker_command wcommand) d d'" if "run_worker wcommand inp d = Ok (out, d')"
    using that by (cases wcommand) (auto intro: keeps_workers)
  show "keeps (tenant_of_command command inp) d d'" if ok: "run_tenant command inp d = Ok (out, d')"
  proof (cases command)
    case (CreateTenant name)
    then obtain t where "create_tenant name (ai_new_id inp) (ai_clk inp) d = Ok (t, d')"
      using ok by (auto simp: rbind_eq_Ok)
    moreover have "t = ai_new_id inp" using calculation by (auto simp: create_tenant_def split: if_splits)
    ultimately show ?thesis using keeps_tenant_tables(1) CreateTenant by simp
  next
    case (TenantKey key)
    then show ?thesis
      using ok by (cases key) (auto simp: rbind_eq_Ok Let_def intro: keeps_tenant_tables)
  qed (use ok in \<open>auto intro: keeps_tenant_tables\<close>)
qed

interpretation command_op: tenant_op
  "\<lambda>t d d'. \<exists>command inp out. t = tenant_of_command command inp \<and> run_tenant command inp d = Ok (out, d')"
  by unfold_locales (auto intro: keeps_commands)

interpretation enrollment_op: tenant_op
  "\<lambda>t d d'. \<exists>L base64url hasher authorization request random_bytes new_id clk response.
     authenticate hasher authorization clk d = Ok t \<and>
     enroll_worker L base64url hasher authorization request random_bytes new_id clk d = Ok (response, d')"
  by unfold_locales (auto intro: keeps_enroll_worker)

section \<open>Lemmas on Worker credentials\<close>

lemma find_by_key:
  "distinct (map k xs) \<Longrightarrow> find (\<lambda>x. k x = v \<and> Q x) xs = Some y \<longleftrightarrow> y \<in> set xs \<and> k y = v \<and> Q y"
  by (induction xs) (auto simp: image_iff)

abbreviation unique_credentials :: "db \<Rightarrow> bool" where
  "unique_credentials d \<equiv> distinct (map w_credential_hash (db_workers d))"

lemma authenticate_worker_iff:
  "unique_credentials d \<Longrightarrow> authenticate_worker hasher secret d = Some key \<longleftrightarrow>
   (\<exists>w \<in> set (db_workers d). wkey w = key \<and> w_credential_hash w = hasher secret \<and> w_revoked_at w = None)"
  unfolding authenticate_worker_def
  using find_by_key [of w_credential_hash "db_workers d" "hasher secret" "\<lambda>w. w_revoked_at w = None"]
  by auto

lemma distinct_map_update:
  assumes "distinct (map k xs)" "distinct (map c xs)" "\<And>x. x \<in> set xs \<Longrightarrow> k x \<noteq> v \<Longrightarrow> c x \<noteq> c'" "\<And>x. c (u x) = c'"
  shows "distinct (map c (update_where (\<lambda>x. k x = v) u xs))"
  using assms(1-3)
proof (induction xs)
  case (Cons a xs)
  have tail: "c x = c' \<or> (\<exists>y \<in> set xs. c x = c y)" if "x \<in> set (update_where (\<lambda>x. k x = v) u xs)" for x
    using that assms(4) by (auto simp: set_update_where)
  show ?case
  proof (cases "k a = v")
    case True
    then have "\<forall>x \<in> set xs. k x \<noteq> v" using Cons.prems(1) by (auto simp: image_iff)
    then have "update_where (\<lambda>x. k x = v) u xs = xs" by (simp add: update_where_none)
    then show ?thesis
      using Cons.prems True assms(4) \<open>\<forall>x \<in> set xs. k x \<noteq> v\<close> by (auto simp: update_where_def)
  next
    case False
    then have fresh: "c a \<notin> c ` set (update_where (\<lambda>x. k x = v) u xs)"
    proof -
      have "c a \<noteq> c'" using False Cons.prems(3) [of a] by simp
      then show ?thesis using tail Cons.prems(2) by force
    qed
    have "update_where (\<lambda>x. k x = v) u (a # xs) = a # update_where (\<lambda>x. k x = v) u xs"
      using False by (simp add: update_where_def)
    moreover have "distinct (map c (update_where (\<lambda>x. k x = v) u xs))"
      using Cons.IH Cons.prems by simp
    ultimately show ?thesis using fresh by simp
  qed
qed (simp add: update_where_def)

lemma enroll_rows:
  assumes "inv_keys d" "unique_credentials d" "enroll t e new_id clk d = Ok (worker, d')"
  shows "unique_credentials d'"
    "\<exists>w. wkey w = (t, worker) \<and> w_credential_hash w = we_credential_hash e \<and> w_revoked_at w = None \<and>
       set (db_workers d') = insert w {x \<in> set (db_workers d). wkey x \<noteq> (t, worker)}"
proof -
  have "unique_credentials d' \<and> (\<exists>w. wkey w = (t, worker) \<and> w_credential_hash w = we_credential_hash e \<and>
      w_revoked_at w = None \<and> set (db_workers d') = insert w {x \<in> set (db_workers d). wkey x \<noteq> (t, worker)})"
  proof (cases "find (\<lambda>w. w_tenant w = t \<and> w_name w = we_name e) (db_workers d)")
    case None
    then obtain new where new: "d' = d\<lparr>db_workers := db_workers d @ [new]\<rparr>" "wkey new = (t, worker)"
      "w_credential_hash new = we_credential_hash e" "w_revoked_at new = None"
      "\<forall>w \<in> set (db_workers d). wkey w \<noteq> (t, worker) \<and> w_credential_hash w \<noteq> we_credential_hash e"
      using assms(3) by (auto simp: enroll_def wkey_def split: if_splits)
    then show ?thesis using assms(2) by (intro conjI exI [of _ new]) (auto simp: image_iff)
  next
    case (Some old)
    let ?P = "\<lambda>w. wkey w = wkey old"
    let ?u = "\<lambda>w. w\<lparr>w_host_descriptor := we_host_descriptor e, w_worker_version := we_worker_version e,
        w_protocol_major := clamp_i32 (we_protocol_major e), w_protocol_minor := clamp_i32 (we_protocol_minor e),
        w_credential_hash := we_credential_hash e, w_revoked_at := None, w_enrolled_at := sql_now clk\<rparr>"
    have old: "old \<in> set (db_workers d)" "wkey old = (t, w_id old)"
      using Some by (auto simp: find_Some_iff wkey_def)
    have d': "db_workers d' = update_where ?P ?u (db_workers d)" "worker = w_id old"
      "\<And>w. w \<in> set (db_workers d) \<Longrightarrow> wkey w \<noteq> wkey old \<Longrightarrow> w_credential_hash w \<noteq> we_credential_hash e"
      using assms(3) Some by (auto simp: enroll_def split: if_splits)
    have keys: "distinct (map wkey (db_workers d))" using assms(1) by (simp add: inv_keys_def)
    then have only: "w = old" if "w \<in> set (db_workers d)" "wkey w = wkey old" for w
      using that old(1) by (auto simp: distinct_map dest: inj_onD)
    have rows: "set (db_workers d') = insert (?u old) {x \<in> set (db_workers d). wkey x \<noteq> (t, worker)}"
      using old d'(2) only unfolding d'(1) by (auto simp: set_update_where)
    have "unique_credentials d'"
      unfolding d'(1) using distinct_map_update [OF keys assms(2) d'(3)] by simp
    then show ?thesis using rows old(2) d'(2) by (intro conjI exI [of _ "?u old"]) (simp_all add: wkey_def)
  qed
  then show "unique_credentials d'"
    "\<exists>w. wkey w = (t, worker) \<and> w_credential_hash w = we_credential_hash e \<and> w_revoked_at w = None \<and>
       set (db_workers d') = insert w {x \<in> set (db_workers d). wkey x \<noteq> (t, worker)}" by simp_all
qed

section \<open>Properties\<close>

text \<open>C10: Enrollment hands out a credential that is the Worker's only one. The returned credential
  authenticates as the returned Worker of the Tenant whose Master Key was presented; any
  credential with another hash, also the one an earlier enrollment under the same name gave,
  no longer authenticates as that Worker; the credentials of all other Workers are untouched;
  and once the Worker is revoked, none authenticates as it. Credential hashes are unique in the
  table, as its constraint says.\<close>
theorem enrollment_credential_exact:
  assumes "good d" "unique_credentials d" "authenticate hasher authorization clk d = Ok t"
    and "enroll_worker L base64url hasher authorization request random_bytes new_id clk d = Ok (response, d')"
  shows "\<exists>worker. en_worker_id response = uuid_print L worker \<and> en_tenant_id response = uuid_print L t \<and>
    authenticate_worker hasher (en_worker_credential response) d' = Some (t, worker) \<and>
    (\<forall>secret. hasher secret \<noteq> hasher (en_worker_credential response) \<longrightarrow>
       authenticate_worker hasher secret d' \<noteq> Some (t, worker)) \<and>
    (\<forall>secret other. other \<noteq> (t, worker) \<longrightarrow>
       (authenticate_worker hasher secret d' = Some other \<longleftrightarrow> authenticate_worker hasher secret d = Some other)) \<and>
    (\<forall>secret clk'. authenticate_worker hasher secret (revoke_worker t worker clk' d') \<noteq> Some (t, worker)) \<and>
    unique_credentials d'"
proof -
  let ?credential = "generate_secret base64url ''gpq_wc_'' random_bytes"
  obtain worker where w: "enroll t \<lparr>we_name = er_worker_name request, we_host_descriptor = er_host_descriptor request,
       we_worker_version = er_worker_version request, we_protocol_major = er_protocol_major request,
       we_protocol_minor = er_protocol_minor request, we_credential_hash = hasher ?credential\<rparr> new_id clk d = Ok (worker, d')"
    "response = \<lparr>en_worker_id = uuid_print L worker, en_worker_credential = ?credential, en_tenant_id = uuid_print L t\<rparr>"
    using assms(3,4) by (auto simp: enroll_worker_def authenticate_def Let_def rbind_eq_Ok map_err_eq_Ok
        split: option.splits if_splits)
  note rows = enroll_rows [OF goodD(3) [OF assms(1)] assms(2) w(1)]
  obtain row where row: "wkey row = (t, worker)" "w_credential_hash row = hasher ?credential" "w_revoked_at row = None"
    "set (db_workers d') = insert row {x \<in> set (db_workers d). wkey x \<noteq> (t, worker)}"
    using rows(2) by auto
  have revoked: "authenticate_worker hasher secret (revoke_worker t worker clk' d') \<noteq> Some (t, worker)" for secret clk'
  proof
    assume "authenticate_worker hasher secret (revoke_worker t worker clk' d') = Some (t, worker)"
    then obtain z where z: "find (\<lambda>w. w_credential_hash w = hasher secret \<and> w_revoked_at w = None)
        (db_workers (revoke_worker t worker clk' d')) = Some z" "wkey z = (t, worker)"
      by (auto simp: authenticate_worker_def)
    have "z \<in> set (db_workers (revoke_worker t worker clk' d'))" "w_revoked_at z = None"
      using z(1) by (auto simp: find_Some_iff)
    then show False using z(2) by (auto simp: revoke_worker_def set_update_where)
  qed
  have iff: "authenticate_worker hasher secret d' = Some key \<longleftrightarrow>
      (if key = (t, worker) then hasher secret = hasher ?credential else authenticate_worker hasher secret d = Some key)"
    for secret key
    unfolding authenticate_worker_iff [OF rows(1)] authenticate_worker_iff [OF assms(2)] row(4)
    using row(1-3) by auto
  show ?thesis using revoked rows(1) by (intro exI [of _ worker]) (simp add: w(2) iff)
qed

theorem enrollment_credential_exact_witness:
  "\<exists>worker d'. enroll_worker example_libs (\<lambda>_. ''r'') (\<lambda>s. if s = ''s'' then [9] else [5]) (Some ''Bearer s'')
      \<lparr>er_worker_name = ''gpu-2'', er_host_descriptor = [], er_protocol_major = PROTOCOL_MAJOR, er_protocol_minor = 0,
       er_worker_version = []\<rparr> [] 4 example_clocks example_admission_db =
      Ok (\<lparr>en_worker_id = uuid_print example_libs worker, en_worker_credential = ''gpq_wc__r'',
           en_tenant_id = uuid_print example_libs 7\<rparr>, d') \<and>
     authenticate_worker (\<lambda>s. if s = ''s'' then [9] else [5]) ''gpq_wc__r'' d' = Some (7, worker)"
proof -
  let ?hasher = "\<lambda>s :: string. if s = ''s'' then [9 :: u8] else [5]"
  let ?request = "\<lparr>er_worker_name = ''gpu-2'', er_host_descriptor = [], er_protocol_major = PROTOCOL_MAJOR,
      er_protocol_minor = 0, er_worker_version = []\<rparr>"
  have workers: "db_workers example_admission_db = [example_worker]"
    by (simp add: example_admission_db_def example_ready_db_def example_queued_db_def example_db_def)
  have key: "authenticate_master_key ?hasher ''s'' example_clocks example_admission_db = Some 7"
    by (simp add: authenticate_master_key_def example_admission_db_def)
  then have auth: "authenticate ?hasher (Some ''Bearer s'') example_clocks example_admission_db = Ok 7"
    by (simp add: authenticate_def example_bearer)
  have unique: "unique_credentials example_admission_db" by (simp add: workers)
  obtain d' where "enroll 7 \<lparr>we_name = ''gpu-2'', we_host_descriptor = [], we_worker_version = [],
      we_protocol_major = PROTOCOL_MAJOR, we_protocol_minor = 0, we_credential_hash = [5]\<rparr> 4 example_clocks example_admission_db = Ok (4, d')"
    by (simp add: enroll_def workers example_worker_def wkey_def)
  then have ok: "enroll_worker example_libs (\<lambda>_. ''r'') ?hasher (Some ''Bearer s'') ?request [] 4 example_clocks example_admission_db =
      Ok (\<lparr>en_worker_id = uuid_print example_libs 4, en_worker_credential = ''gpq_wc__r'',
           en_tenant_id = uuid_print example_libs 7\<rparr>, d')"
    by (simp add: enroll_worker_def example_bearer key protocol_compatible_def Let_def generate_secret_def)
  obtain worker where "uuid_print example_libs 4 = uuid_print example_libs worker"
    "authenticate_worker ?hasher ''gpq_wc__r'' d' = Some (7, worker)"
    using enrollment_credential_exact [OF example_admission_laws(2) unique auth ok] by auto
  then show ?thesis using ok by (intro exI [of _ worker] exI [of _ d']) simp
qed

end
