(* ===== verification/Queue_System.thy ===== *)
theory Queue_System
  imports Session_Safety Worker_Lease Worker_Transfer_Safety Administration
begin

text \<open>
  The queue as a transition system. A step is one call of a service of the Remote, with whatever
  arguments, clocks and fresh identifiers it draws from outside; it is labelled with the Tenant
  it acts for. The services run concurrently, each as a sequence of transactions, so every
  execution of the Remote is an interleaving of such steps. Starting from an empty database, the
  contract of the store holds in every reachable state, and the results of Generations form a
  log that is written once.
\<close>

section \<open>Steps\<close>

inductive remote_step :: "TenantId \<Rightarrow> remote \<Rightarrow> remote \<Rightarrow> bool" where
  schedules: "remote_step t r (snd (try_schedule_tenant S t now inputs r))"
| sweeps: "remote_step t r (snd (sweep_tenant S t sweep_inputs r))"
| connects: "session S hasher token stream d0 sid c inp r = Ok ((w, guard), r') \<Longrightarrow> remote_step (aw_tenant_id w) r r'"
| receives: "remote_step (aw_tenant_id w) r (snd (dispatch_worker_message S w c message inp r))"
| pumps: "remote_step (aw_tenant_id w) r (spawn_session_pump S w c guard frames pump_inputs r)"
| submits: "authenticate hasher authorization clk (r_db r) = Ok t \<Longrightarrow>
    remote_step t r (snd (submit S N hasher authorization idempotency request new_id clk r))"
| cancels: "authenticate hasher authorization (ti_clk tx) (r_db r) = Ok t \<Longrightarrow>
    remote_step t r (snd (cancel_generation S N hasher authorization generation_id tx r))"
| stages: "authenticate hasher authorization clk (r_db r) = Ok t \<Longrightarrow>
    remote_step t r (snd (create_input_artifact S N hasher authorization wire new_id key_id clk r))"
| aliases: "authenticate hasher authorization clk (r_db r) = Ok t \<Longrightarrow>
    remote_step t r (snd (native_set_model_alias S hasher authorization name content clk r))"
| unaliases: "authenticate hasher authorization clk (r_db r) = Ok t \<Longrightarrow>
    remote_step t r (snd (native_delete_model_alias hasher authorization name clk r))"
| configures: "authenticate hasher authorization clk (r_db r) = Ok t \<Longrightarrow>
    update_tenant_settings N hasher authorization requested paths clk (r_db r) = Ok (answer, d) \<Longrightarrow>
    remote_step t r (r\<lparr>r_db := d\<rparr>)"
| uploads: "set_remote_local_content t i bytes clk (r_db r) = Ok (row, d) \<Longrightarrow> remote_step t r (r\<lparr>r_db := d\<rparr>)"
| redirects: "remote_step t r (r\<lparr>r_db := snd (redirect_to_object_store S header_ok t i row clk (r_db r))\<rparr>)"
| begins_delivery: "remote_step t r (r\<lparr>r_db := snd (begin_delivery t i clk (r_db r))\<rparr>)"
| commits_offset: "commit_offset t i offset (r_db r) = Ok ((), d) \<Longrightarrow> remote_step t r (r\<lparr>r_db := d\<rparr>)"
| ends_delivery: "set_state t i to clk (r_db r) = Ok (row, d) \<Longrightarrow> remote_step t r (r\<lparr>r_db := d\<rparr>)"
| enrolls: "authenticate hasher authorization clk (r_db r) = Ok t \<Longrightarrow>
    enroll_worker L base64url hasher authorization enrollment random_bytes new_id clk (r_db r) = Ok (answer, d) \<Longrightarrow>
    remote_step t r (r\<lparr>r_db := d\<rparr>)"
| administers: "run_tenant command admin (r_db r) = Ok (out, d) \<Longrightarrow>
    remote_step (tenant_of_command command admin) r (r\<lparr>r_db := d\<rparr>)"
| revokes: "run_worker worker_command admin (r_db r) = Ok (out, d) \<Longrightarrow>
    remote_step (tenant_of_worker_command worker_command) r (r\<lparr>r_db := d\<rparr>)"

inductive_cases remote_stepE: "remote_step t r r'"

lemma step_keeps: "remote_step t r r' \<Longrightarrow> keeps t (r_db r) (r_db r')"
  by (induction rule: remote_step.induct) (auto intro: keeps_intros)

interpretation system_op: tenant_op "\<lambda>t d d'. \<exists>r r'. r_db r = d \<and> r_db r' = d' \<and> remote_step t r r'"
  by unfold_locales (auto intro: step_keeps)

text \<open>A Remote that starts on an empty database.\<close>

inductive reachable :: "remote \<Rightarrow> bool" where
  initial: "r_db r = empty_db \<Longrightarrow> reachable r"
| step: "reachable r \<Longrightarrow> remote_step t r r' \<Longrightarrow> reachable r'"

lemma reachable_good: "reachable r \<Longrightarrow> good (r_db r)"
  by (induction rule: reachable.induct) (auto intro: good_empty keeps_good step_keeps)

section \<open>The log of results\<close>

text \<open>
  The abstract specification: for each Generation at most one result, the terminal state with
  the accepted Attempt. Its only operation writes a result that is not there yet, for a
  Generation of the acting Tenant, and a result names an Attempt exactly when it is a success.
\<close>

type_synonym result_log = "TenantId \<times> GenerationId \<rightharpoonup> GenerationState \<times> AttemptId option"

inductive log_step :: "TenantId \<Rightarrow> result_log \<Rightarrow> result_log \<Rightarrow> bool" where
  writes: "l (t, gen) = None \<Longrightarrow> GenerationState_is_terminal s \<Longrightarrow> (s = GenerationState.Succeeded \<longleftrightarrow> accepted \<noteq> None) \<Longrightarrow>
    log_step t l (l((t, gen) \<mapsto> (s, accepted)))"

definition results :: "db \<Rightarrow> result_log" where
  "results d = (\<lambda>k. case find (\<lambda>g. gkey g = k) (db_generations d) of
     None \<Rightarrow> None
   | Some g \<Rightarrow> if GenerationState_is_terminal (g_state g) then Some (g_state g, g_accepted_attempt g) else None)"

lemma results_iff:
  assumes "good d"
  shows "results d k = Some (s, a) \<longleftrightarrow>
    (\<exists>g \<in> set (db_generations d). gkey g = k \<and> g_state g = s \<and> g_accepted_attempt g = a \<and> GenerationState_is_terminal s)"
proof -
  have "distinct (map gkey (db_generations d))" using goodD(3) [OF assms] by (simp add: inv_keys_def)
  then have look: "find (\<lambda>g. gkey g = k) (db_generations d) = Some g \<longleftrightarrow> g \<in> set (db_generations d) \<and> gkey g = k" for g
    using find_by_key [of gkey "db_generations d" k "\<lambda>_. True" g] by simp
  have "results d k = Some (s, a) \<longleftrightarrow> (\<exists>g. find (\<lambda>g. gkey g = k) (db_generations d) = Some g \<and>
      g_state g = s \<and> g_accepted_attempt g = a \<and> GenerationState_is_terminal s)"
    by (auto simp: results_def split: option.splits)
  then show ?thesis unfolding look by blast
qed

lemma results_consistent:
  assumes "good d" "results d (t, gen) = Some (s, a)"
  shows "GenerationState_is_terminal s" "s = GenerationState.Succeeded \<longleftrightarrow> a \<noteq> None"
  using assms(2) store_invD(5) [OF goodD(1) [OF assms(1)]]
  by (auto simp: results_iff [OF assms(1)] inv_results_def)

lemma finite_results: "good d \<Longrightarrow> finite (dom (results d))"
proof -
  assume d: "good d"
  have "dom (results d) \<subseteq> gkey ` set (db_generations d)"
    using results_iff [OF d] by (force simp: dom_def)
  then show ?thesis using finite_subset by blast
qed

text \<open>Writing the missing entries one at a time reaches any extension of a log.\<close>

lemma log_steps_extend:
  assumes "finite (dom l' - dom l)" "l \<subseteq>\<^sub>m l'"
    and "\<And>k. k \<in> dom l' - dom l \<Longrightarrow> fst k = t"
    and "\<And>k s a. l' k = Some (s, a) \<Longrightarrow>
      GenerationState_is_terminal s \<and> (s = GenerationState.Succeeded \<longleftrightarrow> a \<noteq> None)"
  shows "(log_step t)\<^sup>*\<^sup>* l l'"
  using assms
proof (induction "dom l' - dom l" arbitrary: l rule: finite_induct)
  case empty
  have "l k = l' k" for k
  proof (cases "l k")
    case None
    then have "k \<notin> dom l'" using empty(1) by blast
    then show ?thesis using None by (metis domIff)
  next
    case (Some v)
    then show ?thesis using empty.prems(1) unfolding map_le_def by blast
  qed
  then have "l = l'" by (rule ext)
  then show ?case by simp
next
  case (insert k K)
  obtain gen where k: "k = (t, gen)" using insert.hyps(4) insert.prems(2) [of k] by (cases k) auto
  obtain s a where v: "l' k = Some (s, a)" "l k = None"
    using insert.hyps(4) by (metis DiffD1 DiffD2 domD domIff insertI1 surj_pair)
  let ?l = "l(k \<mapsto> (s, a))"
  have "log_step t l ?l" unfolding k by (rule writes) (use insert.prems(3) [of k s a] v k in auto)
  moreover have "K = dom l' - dom ?l" using insert.hyps(2,4) by auto
  moreover have "?l \<subseteq>\<^sub>m l'" using insert.prems(1) v by (auto simp: map_le_def)
  moreover have "fst j = t" if "j \<in> dom l' - dom ?l" for j using insert.prems(2) [of j] that by auto
  ultimately show ?case
    using insert.hyps(3) [of ?l] insert.prems(3) converse_rtranclp_into_rtranclp [of "log_step t" l ?l l'] by blast
qed

lemma results_extend:
  assumes "good d" "keeps t d d'"
  shows "results d \<subseteq>\<^sub>m results d'" "k \<in> dom (results d') - dom (results d) \<Longrightarrow> fst k = t"
proof -
  have d': "good d'" using assms keeps_good by blast
  note kept = keeps_generations [OF assms(2,1)]
  show "results d \<subseteq>\<^sub>m results d'"
  proof (clarsimp simp: map_le_def)
    fix t' gen s a assume r: "results d (t', gen) = Some (s, a)"
    then obtain g where g: "g \<in> set (db_generations d)" "gkey g = (t', gen)" "g_state g = s"
      "g_accepted_attempt g = a" "GenerationState_is_terminal s"
      by (auto simp: results_iff [OF assms(1)])
    then obtain g' where g': "g' \<in> set (db_generations d')" "gen_step g g'"
      using kept(1) by (auto simp: gen_moves_def)
    have same: "g_state g' = s"
      using gen_life.terminal_final [of "g_state g" "g_state g'"] g' g by (simp add: gen_step_def)
    then have "results d' (t', gen) = Some (s, g_accepted_attempt g')"
      using g g' by (auto simp: results_iff [OF d'] gen_step_def)
    moreover have "g_accepted_attempt g' = a"
      using g g'(2) results_consistent(2) [OF d' calculation] results_consistent(2) [OF assms(1) r]
      by (cases a) (auto simp: gen_step_def)
    ultimately show "Some (s, a) = results d' (t', gen)" by simp
  qed
  show "fst k = t" if k: "k \<in> dom (results d') - dom (results d)"
  proof (rule ccontr)
    assume other: "fst k \<noteq> t"
    obtain s a where r: "results d' k = Some (s, a)" using k by auto
    then obtain g where g: "g \<in> set (db_generations d')" "gkey g = k" "g_state g = s"
      "g_accepted_attempt g = a" "GenerationState_is_terminal s"
      by (auto simp: results_iff [OF d'])
    then have "g \<in> set (db_generations (others t d'))" using other by (auto simp: others_def gkey_def)
    then have "g \<in> set (db_generations d)" unfolding kept(2) by (simp add: others_def)
    then have "results d k = Some (s, a)" using g by (auto simp: results_iff [OF assms(1)])
    then show False using k by auto
  qed
qed

lemma log_refined:
  assumes "good d" "keeps t d d'"
  shows "(log_step t)\<^sup>*\<^sup>* (results d) (results d')"
proof (rule log_steps_extend)
  have d': "good d'" using assms keeps_good by blast
  show "finite (dom (results d') - dom (results d))" using finite_results [OF d'] by simp
  show "results d \<subseteq>\<^sub>m results d'" by (rule results_extend [OF assms])
  show "fst k = t" if "k \<in> dom (results d') - dom (results d)" for k
    using that by (rule results_extend [OF assms])
  show "GenerationState_is_terminal s \<and> (s = GenerationState.Succeeded \<longleftrightarrow> a \<noteq> None)"
    if "results d' k = Some (s, a)" for k s a
    using results_consistent [OF d', of "fst k" "snd k"] that by simp
qed

section \<open>The rows of one Tenant\<close>

definition tenant_rows :: "TenantId \<Rightarrow> db \<Rightarrow> db" where
  "tenant_rows t d =
     \<lparr>db_workers = filter (\<lambda>r. w_tenant r = t) (db_workers d),
      db_pools = filter (\<lambda>r. p_tenant r = t) (db_pools d),
      db_pool_models = filter (\<lambda>r. pm_tenant r = t) (db_pool_models d),
      db_model_versions = filter (\<lambda>r. mv_tenant r = t) (db_model_versions d),
      db_generations = filter (\<lambda>r. g_tenant r = t) (db_generations d),
      db_attempts = filter (\<lambda>r. a_tenant r = t) (db_attempts d),
      db_rejections = filter (\<lambda>r. r_tenant r = t) (db_rejections d),
      db_artifacts = filter (\<lambda>r. f_tenant r = t) (db_artifacts d),
      db_idempotency = filter (\<lambda>r. k_tenant r = t) (db_idempotency d),
      db_events = filter (\<lambda>r. e_tenant r = t) (db_events d),
      db_aliases = filter (\<lambda>r. al_tenant r = t) (db_aliases d),
      db_tenants = filter (\<lambda>r. tn_id r = t) (db_tenants d),
      db_master_keys = filter (\<lambda>r. mk_tenant r = t) (db_master_keys d)\<rparr>"

lemma filter_other: "t' \<noteq> t \<Longrightarrow> filter (\<lambda>r. k r \<noteq> t \<and> k r = t') rs = filter (\<lambda>r. k r = t') rs"
  by (rule filter_cong) auto

lemma tenant_rows_others: "t' \<noteq> t \<Longrightarrow> tenant_rows t' (others t d) = tenant_rows t' d"
  by (simp add: tenant_rows_def others_def filter_other [where t = t])

definition example_admin :: admin_input where
  "example_admin =
     \<lparr>ai_base64url = (\<lambda>_. ''AAAA''), ai_hasher = (\<lambda>_. [1]), ai_random = [0], ai_new_id = 7, ai_now = 50,
      ai_clk = example_clocks\<rparr>"

definition example_started :: remote where
  "example_started = (example_remote empty_db)\<lparr>r_db := empty_db\<lparr>db_tenants := [new_tenant_row 7 ''lab'' example_clocks]\<rparr>\<rparr>"

lemma example_created:
  "run_tenant (CreateTenant ''lab'') example_admin empty_db =
     Ok (CreatedTenant 7, empty_db\<lparr>db_tenants := [new_tenant_row 7 ''lab'' example_clocks]\<rparr>)"
  by (simp add: example_admin_def create_tenant_def new_tenant_row_def empty_db_def rbind_def)

lemma example_started_step: "remote_step 7 (example_remote empty_db) example_started"
  using administers [of "CreateTenant ''lab''" example_admin "example_remote empty_db"] example_created
  by (simp add: example_remote_def example_started_def example_admin_def)

section \<open>Properties\<close>

text \<open>C1: In every state the Remote can reach from an empty database, under any interleaving of
  its services: a Generation has at most one live Attempt, and at most three Attempts in all; the
  counter of claimed slots of every Device Pool is the number of live Attempts on it and within
  its capacity; a Generation has succeeded exactly when it has an accepted Attempt, which is a
  succeeded Attempt of that Generation; every output belongs to a succeeded Attempt; and the
  events of a Generation are numbered from one without gaps.\<close>

theorem queue_invariant:
  assumes "reachable r"
  shows "(\<forall>a \<in> set (db_attempts (r_db r)). \<forall>b \<in> set (db_attempts (r_db r)).
            is_live a \<and> is_live b \<and> agen a = agen b \<longrightarrow> a = b) \<and>
    (\<forall>a \<in> set (db_attempts (r_db r)). a_attempt_number a \<in> {1..3}) \<and>
    (\<forall>p \<in> set (db_pools (r_db r)). p_claimed_slots p = int (live_count (pkey p) (db_attempts (r_db r))) \<and>
       p_claimed_slots p \<le> p_total_slots p) \<and>
    (\<forall>g \<in> set (db_generations (r_db r)).
       (g_state g = GenerationState.Succeeded \<longleftrightarrow> g_accepted_attempt g \<noteq> None) \<and>
       (\<forall>i. g_accepted_attempt g = Some i \<longrightarrow> (\<exists>a \<in> set (db_attempts (r_db r)).
          akey a = (g_tenant g, i) \<and> agen a = gkey g \<and> a_state a = AttemptState.Succeeded))) \<and>
    (\<forall>f \<in> set (db_artifacts (r_db r)). \<forall>i. f_attempt f = Some i \<longrightarrow> (\<exists>a \<in> set (db_attempts (r_db r)).
       akey a = (f_tenant f, i) \<and> a_state a = AttemptState.Succeeded)) \<and>
    (\<forall>t gen. map e_sequence (events_of t gen (r_db r)) = [1..int (length (events_of t gen (r_db r)))])"
proof -
  have g: "good (r_db r)" using assms by (rule reachable_good)
  note inv = store_invD [OF goodD(1) [OF g]]
  have "1 \<le> a_attempt_number a \<and> a_attempt_number a \<le> 3" if a: "a \<in> set (db_attempts (r_db r))" for a
  proof -
    obtain h where "h \<in> set (db_generations (r_db r))" "gkey h = agen a"
      by (rule inv_attempt_generation [OF goodD(1) [OF g] a])
    then show ?thesis using inv(4) a unfolding inv_numbers_def by force
  qed
  moreover have "\<forall>g \<in> set (db_generations (r_db r)).
       (g_state g = GenerationState.Succeeded \<longleftrightarrow> g_accepted_attempt g \<noteq> None) \<and>
       (\<forall>i. g_accepted_attempt g = Some i \<longrightarrow> (\<exists>a \<in> set (db_attempts (r_db r)).
          akey a = (g_tenant g, i) \<and> agen a = gkey g \<and> a_state a = AttemptState.Succeeded))"
    using inv(5) unfolding inv_results_def by simp
  ultimately show ?thesis
    using inv_live_unique [OF goodD(1) [OF g]] inv(3,6) goodD(2) [OF g]
    unfolding inv_slots_def inv_outputs_def inv_events_def
    by (intro conjI) (assumption | blast | simp)+
qed

theorem queue_invariant_witness:
  "reachable example_started \<and> db_tenants (r_db example_started) \<noteq> [] \<and>
   (\<forall>t gen. map e_sequence (events_of t gen (r_db example_started)) =
      [1..int (length (events_of t gen (r_db example_started)))])"
proof -
  have "reachable example_started"
    by (rule reachable.step [OF reachable.initial example_started_step]) (simp add: example_remote_def)
  then show ?thesis using queue_invariant [of example_started] by (simp add: example_started_def)
qed

text \<open>C2: The Remote implements a write-once log of results. Whatever a service does in one step,
  and however many transactions it takes, its effect on the terminal states and accepted Attempts
  of the Generations is a sequence of log writes for the acting Tenant: a result is written at
  most once, is never changed or withdrawn afterwards, and names an Attempt exactly when it is a
  success.\<close>

theorem results_write_once:
  assumes "good (r_db r)" "remote_step t r r'"
  shows "(log_step t)\<^sup>*\<^sup>* (results (r_db r)) (results (r_db r'))"
  using log_refined [OF assms(1) step_keeps [OF assms(2)]] .

theorem results_write_once_witness:
  "(log_step 7)\<^sup>*\<^sup>* (results example_tenant_db)
     (results (r_db (snd (dispatch_worker_message example_services example_session_worker 0 example_result
        example_session_input (example_remote example_tenant_db)))))"
proof -
  have "create_tenant ''acme'' 7 example_clocks example_db = Ok (7, example_tenant_db)"
    by (simp add: example_tenant_db_def create_tenant_def example_defs)
  then have "good (r_db (example_remote example_tenant_db))"
    using keeps_good [OF keeps_tenant_tables(1)] example_ready_good(2) by (simp add: example_remote_def)
  moreover have "aw_tenant_id example_session_worker = 7" by (simp add: example_session_worker_def)
  ultimately show ?thesis
    using results_write_once [OF _ receives [of example_session_worker "example_remote example_tenant_db" example_services 0
          example_result example_session_input]]
    by (simp add: example_remote_def)
qed

text \<open>C3: A Tenant is isolated from the others: along any interleaving of steps that act for
  other Tenants, from any state that satisfies the invariants, no row of it in any table changes,
  appears or disappears.\<close>

theorem tenant_isolation:
  assumes "(\<lambda>r r'. \<exists>t. t \<noteq> t' \<and> remote_step t r r')\<^sup>*\<^sup>* r r'" "good (r_db r)"
  shows "tenant_rows t' (r_db r') = tenant_rows t' (r_db r)"
proof -
  from assms have "tenant_rows t' (r_db r') = tenant_rows t' (r_db r) \<and> good (r_db r')"
  proof (induction rule: rtranclp_induct)
    case (step y z)
    then obtain t where t: "t \<noteq> t'" "remote_step t y z" by blast
    have "keeps t (r_db y) (r_db z)" "good (r_db y)" using step_keeps [OF t(2)] step by simp_all
    then have "others t (r_db z) = others t (r_db y)" "good (r_db z)"
      using keeps_generations(2) keeps_good by blast+
    then show ?case using step tenant_rows_others [of t' t "r_db z"] tenant_rows_others [of t' t "r_db y"] t(1) by simp
  qed simp
  then show ?thesis by simp
qed

theorem tenant_isolation_witness:
  "tenant_rows 9 (r_db example_started) = tenant_rows 9 empty_db"
proof -
  have "(\<lambda>r r'. \<exists>t. t \<noteq> 9 \<and> remote_step t r r')\<^sup>*\<^sup>* (example_remote empty_db) example_started"
    using example_started_step by (intro r_into_rtranclp exI [of _ 7]) simp
  then show ?thesis
    using tenant_isolation [of 9 "example_remote empty_db" example_started] by (simp add: example_remote_def good_empty)
qed

end
