(* ===== verification/Worker_Process.thy ===== *)
theory Worker_Process
  imports Gpq_Prelude
begin

text \<open>
  The managed child processes of a Worker, \<^verbatim>\<open>gpq-worker/src/process.rs\<close> as it is on Unix: the
  durable identity of a child, the proof of ownership before a stale child is terminated, and the
  termination of a process group. The operating system is the record \<^verbatim>\<open>host\<close>: its process table,
  its files and the signals this Worker sent. While the Worker waits, the table changes by a
  function of the number of the wait.
\<close>

section \<open>The host\<close>

type_synonym path = string

datatype io_error = NotFound | OtherIo string

datatype signal = ProbeSignal | SIGTERM | SIGKILL

record os_process =
  op_group :: u32
  op_lstart :: string
  op_args :: string

type_synonym process_table = "(u32 \<times> os_process) list"

record host =
  ho_processes :: process_table
  ho_ps_error :: "string option"
  ho_denied :: "u32 \<Rightarrow> bool"
  ho_signals :: "(u32 \<times> signal) list"
  ho_metadata :: "path \<Rightarrow> io_error + u64 \<times> i64"
  ho_files :: "path \<Rightarrow> io_error + u8 list"

definition trimmed :: "string \<Rightarrow> string option" where
  "trimmed s = (let t = trim s in if t = [] then None else Some t)"

text \<open>\<^verbatim>\<open>ps -o <column>= -p <pid>\<close>: it fails for a process identifier that is not in use.\<close>

definition ps :: "(os_process \<Rightarrow> string) \<Rightarrow> u32 \<Rightarrow> host \<Rightarrow> string + string option" where
  "ps column pid h =
     (case ho_ps_error h of
        Some e \<Rightarrow> Err e
      | None \<Rightarrow> Ok (case map_of (ho_processes h) pid of None \<Rightarrow> None | Some p \<Rightarrow> trimmed (column p)))"

definition start_marker :: "u32 \<Rightarrow> host \<Rightarrow> string + string option" where
  "start_marker pid h = ps op_lstart pid h"

definition command_line :: "u32 \<Rightarrow> host \<Rightarrow> string + string option" where
  "command_line pid h = ps op_args pid h"

definition members :: "u32 \<Rightarrow> host \<Rightarrow> process_table" where
  "members pgid h = filter (\<lambda>(pid, p). pgid = 1 \<or> op_group p = pgid) (ho_processes h)"

section \<open>Signals\<close>

text \<open>\<^verbatim>\<open>kill\<close> on a negative identifier: no such group is an answer, not an error.\<close>

definition signal_group :: "u32 \<Rightarrow> signal \<Rightarrow> host \<Rightarrow> (string + bool) \<times> host" where
  "signal_group pgid sig h =
     (if \<not> unat pgid < 2 ^ 31 then (Err ''process group ID exceeds pid_t'', h)
      else if pgid = 0 then (Err ''invalid process group ID'', h)
      else if members pgid h = [] then (Ok False, h)
      else if ho_denied h pgid then (Err ''sending signal to managed process group'', h)
      else (Ok True, h\<lparr>ho_signals := ho_signals h @ [(pgid, sig)]\<rparr>))"

definition group_alive :: "u32 \<Rightarrow> host \<Rightarrow> (string + bool) \<times> host" where
  "group_alive pgid h = signal_group pgid ProbeSignal h"

definition elapse :: "(nat \<Rightarrow> process_table \<Rightarrow> process_table) \<Rightarrow> nat \<Rightarrow> host \<Rightarrow> host" where
  "elapse ev k h = h\<lparr>ho_processes := ev k (ho_processes h)\<rparr>"

text \<open>Reaping the leader before a probe; only the owner of the child can do it.\<close>

definition reap :: "(nat \<Rightarrow> string option) option \<Rightarrow> nat \<Rightarrow> string + unit" where
  "reap child k =
     (case child of None \<Rightarrow> Ok () | Some wait \<Rightarrow> (case wait k of None \<Rightarrow> Ok () | Some e \<Rightarrow> Err e))"

text \<open>The loop after the last signal; \<^verbatim>\<open>polls\<close> is the number of pauses that fit before the deadline.\<close>

fun poll_group ::
  "u32 \<Rightarrow> (nat \<Rightarrow> string option) option \<Rightarrow> (nat \<Rightarrow> process_table \<Rightarrow> process_table) \<Rightarrow> nat \<Rightarrow> nat \<Rightarrow> host \<Rightarrow>
   (string + unit) \<times> host" where
  "poll_group pgid child ev k 0 h =
     (case reap child k of
        Err e \<Rightarrow> (Err e, h)
      | Ok _ \<Rightarrow>
          (case group_alive pgid h of
             (Err e, h1) \<Rightarrow> (Err e, h1)
           | (Ok False, h1) \<Rightarrow> (Ok (), h1)
           | (Ok True, h1) \<Rightarrow> (Err ''managed process group remained alive after SIGKILL'', h1)))"
| "poll_group pgid child ev k (Suc polls) h =
     (case reap child k of
        Err e \<Rightarrow> (Err e, h)
      | Ok _ \<Rightarrow>
          (case group_alive pgid h of
             (Err e, h1) \<Rightarrow> (Err e, h1)
           | (Ok False, h1) \<Rightarrow> (Ok (), h1)
           | (Ok True, h1) \<Rightarrow> poll_group pgid child ev (Suc k) polls (elapse ev k h1)))"

definition terminate_group ::
  "u32 \<Rightarrow> (nat \<Rightarrow> string option) option \<Rightarrow> (nat \<Rightarrow> process_table \<Rightarrow> process_table) \<Rightarrow> nat \<Rightarrow> host \<Rightarrow>
   (string + unit) \<times> host" where
  "terminate_group pgid child ev polls h =
     (case signal_group pgid SIGTERM h of
        (Err e, h1) \<Rightarrow> (Err e, h1)
      | (Ok False, h1) \<Rightarrow> (Ok (), h1)
      | (Ok True, h1) \<Rightarrow>
          (let h2 = elapse ev 0 h1 in
           case reap child 0 of
             Err e \<Rightarrow> (Err e, h2)
           | Ok _ \<Rightarrow>
               (case group_alive pgid h2 of
                  (Err e, h3) \<Rightarrow> (Err e, h3)
                | (Ok False, h3) \<Rightarrow> (Ok (), h3)
                | (Ok True, h3) \<Rightarrow>
                    (case signal_group pgid SIGKILL h3 of
                       (Err e, h4) \<Rightarrow> (Err e, h4)
                     | (Ok _, h4) \<Rightarrow> poll_group pgid child ev 1 polls h4))))"

section \<open>Identities\<close>

record ProcessIdentity =
  pi_pid :: u32
  pi_start_marker :: string
  pi_executable :: path
  pi_executable_size :: u64
  pi_executable_mtime_unix :: i64

datatype Ownership = Owned | Foreign | Gone

record ManagedProcess =
  mp_identity :: ProcessIdentity
  mp_identity_file :: path

text \<open>The handle of a child right after it was spawned, before its identity is known.\<close>

definition spawned_process :: "u32 \<Rightarrow> path \<Rightarrow> path \<Rightarrow> ManagedProcess" where
  "spawned_process pid executable identity_file =
     \<lparr>mp_identity = \<lparr>pi_pid = pid, pi_start_marker = [], pi_executable = executable,
        pi_executable_size = 0, pi_executable_mtime_unix = 0\<rparr>,
      mp_identity_file = identity_file\<rparr>"

definition set_identity :: "ProcessIdentity \<Rightarrow> ManagedProcess \<Rightarrow> ManagedProcess" where
  "set_identity identity p = p\<lparr>mp_identity := identity\<rparr>"

text \<open>The identity file in JSON; the codec is library code.\<close>

record identity_codec =
  ic_to_vec :: "ProcessIdentity \<Rightarrow> u8 list"
  ic_from_slice :: "u8 list \<Rightarrow> ProcessIdentity option"

definition codec_law :: "identity_codec \<Rightarrow> ProcessIdentity \<Rightarrow> bool" where
  "codec_law J identity \<longleftrightarrow> ic_from_slice J (ic_to_vec J identity) = Some identity"

definition read_identity_file :: "identity_codec \<Rightarrow> path \<Rightarrow> host \<Rightarrow> string + ProcessIdentity option" where
  "read_identity_file J file h =
     (case ho_files h file of
        Ok bytes \<Rightarrow> (case ic_from_slice J bytes of None \<Rightarrow> Err ''invalid identity file'' | Some identity \<Rightarrow> Ok (Some identity))
      | Err NotFound \<Rightarrow> Ok None
      | Err (OtherIo e) \<Rightarrow> Err e)"

text \<open>The temporary file is renamed into place, so a failed write leaves the old content.\<close>

definition write_identity_file ::
  "identity_codec \<Rightarrow> path \<Rightarrow> ProcessIdentity \<Rightarrow> string option \<Rightarrow> host \<Rightarrow> (string + unit) \<times> host" where
  "write_identity_file J file identity failure h =
     (case failure of
        Some e \<Rightarrow> (Err e, h)
      | None \<Rightarrow> (Ok (), h\<lparr>ho_files := (ho_files h)(file := Ok (ic_to_vec J identity))\<rparr>))"

definition remove_file :: "path \<Rightarrow> host \<Rightarrow> host" where
  "remove_file file h = h\<lparr>ho_files := (ho_files h)(file := Err NotFound)\<rparr>"

definition record_identity_file ::
  "identity_codec \<Rightarrow> u32 \<Rightarrow> path \<Rightarrow> path \<Rightarrow> string option \<Rightarrow> host \<Rightarrow> (string + ProcessIdentity) \<times> host" where
  "record_identity_file J pid executable file failure h =
     (case start_marker pid h of
        Err e \<Rightarrow> (Err e, h)
      | Ok None \<Rightarrow> (Err ''process exited before its identity could be recorded'', h)
      | Ok (Some marker) \<Rightarrow>
          (case ho_metadata h executable of
             Err NotFound \<Rightarrow> (Err ''not found'', h)
           | Err (OtherIo e) \<Rightarrow> (Err e, h)
           | Ok (len, mtime) \<Rightarrow>
               (let identity = \<lparr>pi_pid = pid, pi_start_marker = marker, pi_executable = executable,
                      pi_executable_size = len, pi_executable_mtime_unix = mtime\<rparr>
                in case write_identity_file J file identity failure h of
                     (Err e, h1) \<Rightarrow> (Err e, h1)
                   | (Ok _, h1) \<Rightarrow> (Ok identity, h1))))"

section \<open>Ownership\<close>

definition contains :: "string \<Rightarrow> string \<Rightarrow> bool" where
  "contains hay needle \<longleftrightarrow> list_ex (\<lambda>k. take (length needle) (drop k hay) = needle) [0..<Suc (length hay)]"

definition command_line_corroborates :: "ProcessIdentity \<Rightarrow> string option \<Rightarrow> bool" where
  "command_line_corroborates identity line =
     (case line of None \<Rightarrow> True | Some l \<Rightarrow> contains l (pi_executable identity))"

definition verify_ownership :: "ProcessIdentity \<Rightarrow> host \<Rightarrow> string + Ownership" where
  "verify_ownership identity h =
     rbind (start_marker (pi_pid identity) h) (\<lambda>live_marker.
       case live_marker of
         None \<Rightarrow> Ok Gone
       | Some marker \<Rightarrow>
           if marker \<noteq> pi_start_marker identity then Ok Foreign
           else rbind (command_line (pi_pid identity) h) (\<lambda>line.
             if \<not> command_line_corroborates identity line then Ok Foreign
             else case ho_metadata h (pi_executable identity) of
                    Ok (len, mtime) \<Rightarrow>
                      if len \<noteq> pi_executable_size identity \<or> mtime \<noteq> pi_executable_mtime_unix identity
                      then Ok Foreign else Ok Owned
                  | Err NotFound \<Rightarrow> Ok Foreign
                  | Err (OtherIo e) \<Rightarrow> Err e))"

definition kill_stale ::
  "identity_codec \<Rightarrow> path \<Rightarrow> (nat \<Rightarrow> process_table \<Rightarrow> process_table) \<Rightarrow> nat \<Rightarrow> host \<Rightarrow> (string + Ownership) \<times> host" where
  "kill_stale J file ev polls h =
     (case read_identity_file J file h of
        Err e \<Rightarrow> (Err e, h)
      | Ok None \<Rightarrow> (Ok Gone, h)
      | Ok (Some identity) \<Rightarrow>
          (case verify_ownership identity h of
             Err e \<Rightarrow> (Err e, h)
           | Ok ownership \<Rightarrow>
               (case (if ownership = Owned then terminate_group (pi_pid identity) None ev polls h else (Ok (), h)) of
                  (Err e, h1) \<Rightarrow> (Err e, h1)
                | (Ok _, h1) \<Rightarrow>
                    (Ok ownership, if ownership \<noteq> Foreign then remove_file file h1 else h1))))"

text \<open>Terminating an owned child: its group, then its leader, then its identity file.\<close>

definition terminate_tree ::
  "ManagedProcess \<Rightarrow> (nat \<Rightarrow> string option) \<Rightarrow> string option \<Rightarrow> (nat \<Rightarrow> process_table \<Rightarrow> process_table) \<Rightarrow> nat \<Rightarrow> host \<Rightarrow>
   (string + unit) \<times> host" where
  "terminate_tree p wait exit_wait ev polls h =
     (case terminate_group (pi_pid (mp_identity p)) (Some wait) ev polls h of
        (Err e, h1) \<Rightarrow> (Err e, h1)
      | (Ok _, h1) \<Rightarrow>
          (case exit_wait of
             Some e \<Rightarrow> (Err e, h1)
           | None \<Rightarrow> (Ok (), remove_file (mp_identity_file p) h1)))"

section \<open>Termination\<close>

definition signals_only :: "u32 \<Rightarrow> host \<Rightarrow> host \<Rightarrow> bool" where
  "signals_only pgid h h' \<longleftrightarrow>
     (\<exists>sent. ho_signals h' = ho_signals h @ sent \<and> (\<forall>(g, s) \<in> set sent. g = pgid)) \<and>
     ho_files h' = ho_files h \<and> ho_metadata h' = ho_metadata h"

lemma signals_only_refl [simp]: "signals_only pgid h h"
  by (simp add: signals_only_def)

lemma signals_only_trans [trans]:
  "signals_only pgid h h' \<Longrightarrow> signals_only pgid h' h'' \<Longrightarrow> signals_only pgid h h''"
  by (fastforce simp: signals_only_def)

lemma signals_only_elapse [simp]: "signals_only pgid h (elapse ev k h)"
  by (simp add: signals_only_def elapse_def)

lemma signal_group_only: "signal_group pgid sig h = (r, h') \<Longrightarrow> signals_only pgid h h'"
  by (auto simp: signal_group_def signals_only_def split: if_splits)

lemma signal_group_none: "signal_group pgid sig h = (Ok False, h') \<Longrightarrow> members pgid h' = []"
  by (auto simp: signal_group_def split: if_splits)

lemma poll_group_only: "poll_group pgid child ev k polls h = (r, h') \<Longrightarrow> signals_only pgid h h'"
proof (induction polls arbitrary: k h)
  case 0
  then show ?case
    by (auto simp: group_alive_def dest: signal_group_only split: sum.splits prod.splits bool.splits)
next
  case (Suc polls)
  obtain a h1 where probe: "group_alive pgid h = (a, h1)" by fastforce
  then have "signals_only pgid h h1" using signal_group_only by (simp add: group_alive_def)
  moreover have "h' = h \<or> h' = h1 \<or> signals_only pgid (elapse ev k h1) h'"
    using Suc.prems Suc.IH [of "Suc k" "elapse ev k h1"] probe by (auto split: sum.splits bool.splits)
  ultimately show ?case using signals_only_trans signals_only_elapse signals_only_refl by metis
qed

lemma poll_group_empty: "poll_group pgid child ev k polls h = (Ok (), h') \<Longrightarrow> members pgid h' = []"
  by (induction polls arbitrary: k h)
    (auto simp: group_alive_def dest: signal_group_none split: sum.splits prod.splits bool.splits)

lemma terminate_group_only: "terminate_group pgid child ev polls h = (r, h') \<Longrightarrow> signals_only pgid h h'"
  by (auto simp: terminate_group_def group_alive_def Let_def dest!: signal_group_only poll_group_only
      intro: signals_only_trans signals_only_elapse split: sum.splits prod.splits bool.splits)
    (meson signals_only_elapse signals_only_trans)+

lemma terminate_group_empty: "terminate_group pgid child ev polls h = (Ok (), h') \<Longrightarrow> members pgid h' = []"
  by (auto simp: terminate_group_def group_alive_def Let_def dest: signal_group_none poll_group_empty
      split: sum.splits prod.splits bool.splits)

section \<open>Proof of ownership\<close>

definition proven :: "ProcessIdentity \<Rightarrow> host \<Rightarrow> bool" where
  "proven identity h \<longleftrightarrow>
     (\<exists>p. map_of (ho_processes h) (pi_pid identity) = Some p \<and>
        trimmed (op_lstart p) = Some (pi_start_marker identity) \<and>
        command_line_corroborates identity (trimmed (op_args p))) \<and>
     ho_metadata h (pi_executable identity) = Ok (pi_executable_size identity, pi_executable_mtime_unix identity)"

lemma verify_ownership_Owned:
  "verify_ownership identity h = Ok Owned \<longleftrightarrow> ho_ps_error h = None \<and> proven identity h"
  by (auto simp: verify_ownership_def proven_def start_marker_def command_line_def ps_def rbind_eq_Ok
      split: option.splits if_splits sum.splits prod.splits io_error.splits)

definition example_child :: os_process where
  "example_child = \<lparr>op_group = 42, op_lstart = ''Mon'', op_args = ''/gpq infer''\<rparr>"

definition example_identity :: ProcessIdentity where
  "example_identity = \<lparr>pi_pid = 42, pi_start_marker = ''Mon'', pi_executable = ''/gpq'',
     pi_executable_size = 9, pi_executable_mtime_unix = 5\<rparr>"

definition example_host :: host where
  "example_host = \<lparr>ho_processes = [(42, example_child), (7, example_child\<lparr>op_group := 7\<rparr>)], ho_ps_error = None,
     ho_denied = (\<lambda>_. False), ho_signals = [], ho_metadata = (\<lambda>_. Ok (9, 5)), ho_files = (\<lambda>_. Ok [1])\<rparr>"

definition example_codec :: identity_codec where
  "example_codec = \<lparr>ic_to_vec = (\<lambda>_. [1]), ic_from_slice = (\<lambda>_. Some example_identity)\<rparr>"

text \<open>The group exits on the first signal.\<close>

definition example_exits :: "nat \<Rightarrow> process_table \<Rightarrow> process_table" where
  "example_exits k table = filter (\<lambda>(pid, p). op_group p \<noteq> 42) table"

lemma example_trimmed: "trimmed ''Mon'' = Some ''Mon''" "trimmed ''/gpq infer'' = Some ''/gpq infer''"
  by code_simp+

section \<open>Properties\<close>

text \<open>C0: Before its Pool starts, a Worker terminates a child of its previous run only with proof.
  Every signal goes to the process group the identity file names, and only when the process
  that holds the identifier now has the recorded start time, a command line that names the
  executable, and an executable of the recorded size and modification time; a process that
  merely reused the identifier is left alone, and so is its identity file. When the child was
  owned and the call succeeds, no process of its group is left, and whenever no live child
  remains the identity file is gone.\<close>

theorem stale_child_ownership:
  assumes "kill_stale J file ev polls h = (r, h')"
  shows "(\<exists>sent. ho_signals h' = ho_signals h @ sent \<and>
      (sent \<noteq> [] \<longrightarrow> (\<exists>identity. read_identity_file J file h = Ok (Some identity) \<and> proven identity h \<and>
         (\<forall>(g, s) \<in> set sent. g = pi_pid identity)))) \<and>
    (r = Ok Owned \<longrightarrow> (\<exists>identity. read_identity_file J file h = Ok (Some identity) \<and> members (pi_pid identity) h' = [])) \<and>
    (r = Ok Foreign \<longrightarrow> h' = h) \<and>
    (r = Ok Owned \<or> r = Ok Gone \<longrightarrow> ho_files h' file = Err NotFound)"
proof (cases "\<exists>identity. read_identity_file J file h = Ok (Some identity) \<and> verify_ownership identity h = Ok Owned")
  case True
  then obtain identity where id: "read_identity_file J file h = Ok (Some identity)" "verify_ownership identity h = Ok Owned"
    by blast
  obtain q h1 where run: "terminate_group (pi_pid identity) None ev polls h = (q, h1)" by fastforce
  have out: "(case q of Err e \<Rightarrow> (Err e, h1) | Ok _ \<Rightarrow> (Ok Owned, remove_file file h1)) = (r, h')"
    using assms id run by (cases q) (simp_all add: kill_stale_def)
  have "signals_only (pi_pid identity) h h1" using terminate_group_only [OF run] .
  moreover have "members (pi_pid identity) h1 = []" if "q = Ok ()" using terminate_group_empty run that by blast
  moreover have "proven identity h" using id(2) by (simp add: verify_ownership_Owned)
  ultimately show ?thesis
    using out id(1) by (cases q) (auto simp: signals_only_def remove_file_def members_def)
next
  case False
  then show ?thesis
    using assms by (auto simp: kill_stale_def remove_file_def read_identity_file_def
        split: sum.splits option.splits io_error.splits if_splits)
qed

theorem stale_child_ownership_witness:
  "ho_signals (snd (kill_stale example_codec ''id'' example_exits 100 example_host)) = [(42, SIGTERM)] \<and>
   members 42 (snd (kill_stale example_codec ''id'' example_exits 100 example_host)) = []"
proof -
  have run: "fst (kill_stale example_codec ''id'' example_exits 100 example_host) = Ok Owned"
    "ho_signals (snd (kill_stale example_codec ''id'' example_exits 100 example_host)) = [(42, SIGTERM)]"
    by (simp_all add: kill_stale_def read_identity_file_def verify_ownership_def start_marker_def command_line_def ps_def
        rbind_def example_trimmed command_line_corroborates_def contains_def terminate_group_def signal_group_def group_alive_def
        members_def elapse_def reap_def remove_file_def example_exits_def example_codec_def example_host_def example_child_def
        example_identity_def)
  have stored_file: "read_identity_file example_codec ''id'' example_host = Ok (Some example_identity)"
    by (simp add: read_identity_file_def example_codec_def example_host_def)
  show ?thesis
    using stale_child_ownership [of example_codec "''id''" example_exits 100 example_host] run stored_file
    by (auto simp: example_identity_def prod_eq_iff)
qed

text \<open>C0: A recorded identity recognises its child and nothing else. When the identity of a
  running child has been written, reading the file back gives it, and later the process with
  that identifier counts as owned exactly when it still has the recorded start time, a
  corroborating command line, and the executable the recorded size and modification time; in
  particular a reused identifier is never owned, and neither is the old child once the
  executable was replaced, so such a child is not terminated.\<close>

theorem recorded_identity_exact:
  assumes "record_identity_file J pid executable file failure h = (Ok identity, h1)" "codec_law J identity"
  shows "read_identity_file J file h1 = Ok (Some identity) \<and> pi_pid identity = pid \<and>
    (ho_files later file = ho_files h1 file \<longrightarrow> ho_ps_error later = None \<longrightarrow>
      (fst (kill_stale J file ev polls later) \<noteq> Ok Owned \<or> proven identity later) \<and>
      (\<not> proven identity later \<longrightarrow> ho_signals (snd (kill_stale J file ev polls later)) = ho_signals later))"
proof -
  have stored_file: "ho_files h1 file = Ok (ic_to_vec J identity)" "pi_pid identity = pid"
    using assms(1) by (auto simp: record_identity_file_def write_identity_file_def Let_def
        split: sum.splits option.splits io_error.splits prod.splits)
  have stored: "read_identity_file J file d = Ok (Some identity)" if "ho_files d file = Ok (ic_to_vec J identity)" for d
    using that assms(2) by (simp add: read_identity_file_def codec_law_def)
  have "ho_signals (snd (kill_stale J file ev polls later)) = ho_signals later \<and> fst (kill_stale J file ev polls later) \<noteq> Ok Owned"
    if "ho_files later file = ho_files h1 file" "\<not> proven identity later"
    using stored [of later] that stored_file(1) verify_ownership_Owned [of identity later]
    by (auto simp: kill_stale_def remove_file_def split: sum.splits)
  then show ?thesis using stored [OF stored_file(1)] stored_file(2) by blast
qed

theorem recorded_identity_exact_witness:
  "fst (kill_stale example_codec ''id'' example_exits 100 (example_host\<lparr>ho_metadata := (\<lambda>_. Ok (9, 6))\<rparr>)) \<noteq> Ok Owned \<and>
   ho_signals (snd (kill_stale example_codec ''id'' example_exits 100 (example_host\<lparr>ho_metadata := (\<lambda>_. Ok (9, 6))\<rparr>))) = []"
proof -
  let ?later = "example_host\<lparr>ho_metadata := (\<lambda>_. Ok (9, 6))\<rparr>"
  have "record_identity_file example_codec 42 ''/gpq'' ''id'' None example_host =
      (Ok example_identity, example_host\<lparr>ho_files := (ho_files example_host)(''id'' := Ok [1])\<rparr>)"
    by (simp add: record_identity_file_def write_identity_file_def start_marker_def ps_def example_trimmed
        example_host_def example_child_def example_identity_def example_codec_def)
  moreover have "codec_law example_codec example_identity" by (simp add: codec_law_def example_codec_def)
  moreover have "\<not> proven example_identity ?later" by (simp add: proven_def example_identity_def)
  moreover have "ho_files ?later ''id'' = Ok [1]" "ho_ps_error ?later = None" "ho_signals ?later = []"
    by (simp_all add: example_host_def)
  ultimately show ?thesis
    using recorded_identity_exact [of example_codec 42 "''/gpq''" "''id''" None example_host example_identity _ ?later] by simp
qed

end
