(* ===== verification/Worker_Config.thy ===== *)
theory Worker_Config
  imports Worker_Process Domain_Model
begin

text \<open>
  The configuration of a Worker and its validation, \<^verbatim>\<open>gpq-worker/src/config.rs\<close>. Reading the file
  and the TOML decoder are not modelled: a configuration is the decoded value. What the
  validation asks of the file system, of the socket address parser and of the JSON encoder is
  the record \<^verbatim>\<open>config_env\<close>. A map of the configuration is a list in the order of its keys.
\<close>

section \<open>Strings\<close>

text \<open>\<^verbatim>\<open>str::split\<close>, \<^verbatim>\<open>str::split_once\<close>, \<^verbatim>\<open>str::strip_prefix\<close> and \<^verbatim>\<open>str::parse::<u32>\<close>.\<close>

fun split_on :: "char \<Rightarrow> string \<Rightarrow> string list" where
  "split_on c [] = [[]]"
| "split_on c (x # xs) = (if x = c then [] # split_on c xs
     else case split_on c xs of [] \<Rightarrow> [[x]] | y # ys \<Rightarrow> (x # y) # ys)"

definition split_once :: "char \<Rightarrow> string \<Rightarrow> (string \<times> string) option" where
  "split_once c s = (case dropWhile (\<lambda>x. x \<noteq> c) s of [] \<Rightarrow> None | _ # rest \<Rightarrow> Some (takeWhile (\<lambda>x. x \<noteq> c) s, rest))"

definition strip_prefix :: "string \<Rightarrow> string \<Rightarrow> string option" where
  "strip_prefix p s = (if starts_with s p then Some (drop (length p) s) else None)"

definition is_ascii_digit :: "char \<Rightarrow> bool" where
  "is_ascii_digit c \<longleftrightarrow> 48 \<le> byte_val c \<and> byte_val c \<le> (57::nat)"

definition is_ascii_hexdigit :: "char \<Rightarrow> bool" where
  "is_ascii_hexdigit c \<longleftrightarrow> is_ascii_digit c \<or> 65 \<le> byte_val c \<and> byte_val c \<le> (70::nat) \<or>
     97 \<le> byte_val c \<and> byte_val c \<le> (102::nat)"

definition parse_u32 :: "string \<Rightarrow> nat option" where
  "parse_u32 s =
     (let digits = (case s of c # rest \<Rightarrow> if c = CHR ''+'' then rest else s | [] \<Rightarrow> []) in
      if digits = [] \<or> \<not> list_all is_ascii_digit digits then None
      else let n = foldl (\<lambda>n c. 10 * n + (byte_val c - 48)) 0 digits
           in if n < 2 ^ 32 then Some n else None)"

section \<open>The configuration\<close>

datatype CredentialStorage = Platform | FileStorage

record ConfiguredLora =
  cl_path :: path
  cl_scale :: f32

record ModelConfig =
  mc_family :: ModelFamily
  mc_assets :: "(ModelAssetRole \<times> path) list"
  mc_default_loras :: "ConfiguredLora list"
  mc_sampling :: "SamplingPreset option"

record RuntimeConfig =
  rc_params_backend :: "string option"
  rc_max_vram :: "string option"
  rc_threads :: u32
  rc_vae_tiling :: bool
  rc_model_args :: "string list"
  rc_module_backends :: "(string \<times> string) list"

record WorkerShapeLimits =
  shl_image_pixels :: u64
  shl_video_pixels :: u64
  shl_video_frames :: u32
  shl_steps :: u32

definition WorkerShapeLimits_default :: WorkerShapeLimits where
  "WorkerShapeLimits_default =
     \<lparr>shl_image_pixels = 16777216, shl_video_pixels = 64000000, shl_video_frames = 97, shl_steps = 100\<rparr>"

record PoolConfig =
  pc_key :: string
  pc_backend :: string
  pc_listen :: string
  pc_state_dir :: path
  pc_startup_timeout :: duration
  pc_runtime :: RuntimeConfig
  pc_shape :: WorkerShapeLimits
  pc_models :: "ModelConfig list"
  pc_extra_image_loras :: "path list"
  pc_expected_hashes :: "(string \<times> string) list"
  pc_env :: "(string \<times> string) list"

record WorkerConfig =
  wc_name :: string
  wc_remote_url :: string
  wc_state_dir :: path
  wc_credential_storage :: CredentialStorage
  wc_pools :: "PoolConfig list"

definition DEVICE_SELECTOR_ENV_KEYS :: "string list" where
  "DEVICE_SELECTOR_ENV_KEYS =
     [''CUDA_VISIBLE_DEVICES'', ''HIP_VISIBLE_DEVICES'', ''ROCR_VISIBLE_DEVICES'', ''GPU_DEVICE_ORDINAL'']"

record config_env =
  ce_is_file :: "path \<Rightarrow> bool option"
  ce_state_dir_error :: "path \<Rightarrow> bool"
  ce_parse_addr :: "string \<Rightarrow> (string \<times> u16) option"
  ce_model_to_vec :: "ModelConfig \<Rightarrow> u8 list option"
  ce_sha256 :: "u8 list \<Rightarrow> u8 list"

datatype ConfigError =
    EmptyName | NoPools | DuplicatePoolKey string | BadListener string | ZeroPort string | DuplicateListener string
  | EmptyPoolKey | BadBackend string | BadStartupTimeout string | BadThreads string | BadParamsBackend string
  | BadMaxVram string | BadModelArg string | UnknownModule string | BadModuleBackend string | UnknownEnvKey string
  | BadShape string | StateDirError path | MissingRoles string | AssetNotAbsolute path | AssetUnavailable path
  | AssetNotFile path | ExtraRoles string | LoraScaleNotFinite string | BadSampling string | ModelNotSerializable
  | DuplicateModel string | BadExpectedHash string | SelectorOverlap string string string | DeviceOverlap string string string

abbreviation ensure :: "bool \<Rightarrow> ConfigError \<Rightarrow> ConfigError + unit" where
  "ensure c e \<equiv> (if c then Ok () else Err e)"

fun each :: "('a \<Rightarrow> 'e + unit) \<Rightarrow> 'a list \<Rightarrow> 'e + unit" where
  "each f [] = Ok ()"
| "each f (x # xs) = rbind (f x) (\<lambda>_. each f xs)"

section \<open>Selectors\<close>

definition is_hex_sha256 :: "string \<Rightarrow> bool" where
  "is_hex_sha256 value \<longleftrightarrow> length value = 64 \<and> list_all is_ascii_hexdigit value"

definition valid_device_selector :: "string \<Rightarrow> bool" where
  "valid_device_selector value \<longleftrightarrow>
     value = ''cpu'' \<or>
     list_ex (\<lambda>p. case strip_prefix p value of None \<Rightarrow> False | Some suffix \<Rightarrow> suffix = [] \<or> list_all is_ascii_digit suffix)
       [''metal'', ''vulkan'', ''cuda'']"

definition assignment_device :: "string \<Rightarrow> string \<times> string" where
  "assignment_device assignment = (case split_once (CHR ''='') assignment of None \<Rightarrow> ([], assignment) | Some p \<Rightarrow> p)"

definition valid_params_backend :: "string \<Rightarrow> bool" where
  "valid_params_backend value \<longleftrightarrow>
     value = ''disk'' \<or>
     value \<noteq> [] \<and> list_all (\<lambda>assignment. case assignment_device assignment of (module, device) \<Rightarrow>
         (module = [] \<or> module \<in> set [''all'', ''default'', ''*'', ''diffusion'', ''te'', ''clip_vision'', ''vae'']) \<and>
         valid_device_selector device) (split_on (CHR '','') value)"

definition positive_u32 :: "string \<Rightarrow> bool" where
  "positive_u32 s \<longleftrightarrow> (case parse_u32 s of None \<Rightarrow> False | Some n \<Rightarrow> 0 < n)"

definition valid_vram_assignment :: "string \<Rightarrow> bool" where
  "valid_vram_assignment value \<longleftrightarrow>
     positive_u32 value \<or>
     trim value \<noteq> [] \<and> list_all (\<lambda>assignment. case split_once (CHR ''='') assignment of
         None \<Rightarrow> False
       | Some (device, gibibytes) \<Rightarrow> valid_device_selector device \<and> positive_u32 gibibytes) (split_on (CHR '','') value)"

section \<open>Assets\<close>

definition is_absolute :: "path \<Rightarrow> bool" where
  "is_absolute p \<longleftrightarrow> starts_with p ''/''"

definition ensure_asset_path :: "config_env \<Rightarrow> path \<Rightarrow> ConfigError + unit" where
  "ensure_asset_path E p =
     rbind (ensure (is_absolute p) (AssetNotAbsolute p)) (\<lambda>_.
       case ce_is_file E p of
         None \<Rightarrow> Err (AssetUnavailable p)
       | Some is_file \<Rightarrow> ensure is_file (AssetNotFile p))"

definition required_roles :: "ModelFamily \<Rightarrow> ModelAssetRole list" where
  "required_roles family =
     [Diffusion, TextEncoder, Vae] @ (case family of QwenImage21 \<Rightarrow> [VisionEncoder] | MinimaxH3 \<Rightarrow> [AudioVae])"

definition validate_model :: "config_env \<Rightarrow> PoolConfig \<Rightarrow> ModelConfig \<Rightarrow> ConfigError + unit" where
  "validate_model E pool model =
     (let required = required_roles (mc_family model) in
      rbind (ensure (list_all (\<lambda>role. role \<in> set (map fst (mc_assets model))) required) (MissingRoles (pc_key pool))) (\<lambda>_.
      rbind (each (\<lambda>(role, p). ensure_asset_path E p) (mc_assets model)) (\<lambda>_.
      rbind (ensure (filter (\<lambda>role. role \<notin> set required) (map fst (mc_assets model)) = []) (ExtraRoles (pc_key pool))) (\<lambda>_.
      rbind (each (\<lambda>lora. rbind (ensure (is_finite (cl_scale lora)) (LoraScaleNotFinite (pc_key pool))) (\<lambda>_.
               ensure_asset_path E (cl_path lora))) (mc_default_loras model)) (\<lambda>_.
        case mc_sampling model of
          None \<Rightarrow> Ok ()
        | Some sampling \<Rightarrow>
            (case SamplingPreset_resolve sampling None None None of
               Err _ \<Rightarrow> Err (BadSampling (pc_key pool))
             | Ok _ \<Rightarrow> Ok ()))))))"

section \<open>Pools\<close>

fun validate_models :: "config_env \<Rightarrow> PoolConfig \<Rightarrow> ContentHash list \<Rightarrow> ModelConfig list \<Rightarrow> ConfigError + unit" where
  "validate_models E pool seen [] = Ok ()"
| "validate_models E pool seen (model # models) =
     rbind (validate_model E pool model) (\<lambda>_.
       case ce_model_to_vec E model of
         None \<Rightarrow> Err ModelNotSerializable
       | Some canonical \<Rightarrow>
           (let h = digest (ce_sha256 E) canonical in
            rbind (ensure (h \<notin> set seen) (DuplicateModel (pc_key pool))) (\<lambda>_.
              validate_models E pool (h # seen) models)))"

definition ensure_state_dir :: "config_env \<Rightarrow> path \<Rightarrow> ConfigError + unit" where
  "ensure_state_dir E p = ensure (\<not> ce_state_dir_error E p) (StateDirError p)"

definition PoolConfig_validate :: "config_env \<Rightarrow> PoolConfig \<Rightarrow> ConfigError + unit" where
  "PoolConfig_validate E pool =
     (let key = pc_key pool; runtime = pc_runtime pool; shape = pc_shape pool in
      rbind (ensure (trim key \<noteq> []) EmptyPoolKey) (\<lambda>_.
      rbind (ensure (valid_device_selector (pc_backend pool)) (BadBackend key)) (\<lambda>_.
      rbind (ensure (pc_startup_timeout pool > 0) (BadStartupTimeout key)) (\<lambda>_.
      rbind (ensure (rc_threads runtime > 0 \<and> rc_threads runtime \<le> 1024) (BadThreads key)) (\<lambda>_.
      rbind (case rc_params_backend runtime of None \<Rightarrow> Ok () | Some b \<Rightarrow> ensure (valid_params_backend b) (BadParamsBackend key)) (\<lambda>_.
      rbind (case rc_max_vram runtime of None \<Rightarrow> Ok () | Some v \<Rightarrow> ensure (valid_vram_assignment v) (BadMaxVram key)) (\<lambda>_.
      rbind (each (\<lambda>argument. ensure (argument \<noteq> [] \<and> CHR 0x00 \<notin> set argument \<and> CHR '','' \<notin> set argument) (BadModelArg key))
               (rc_model_args runtime)) (\<lambda>_.
      rbind (each (\<lambda>(module, backend).
                 rbind (ensure (module \<in> set [''diffusion'', ''te'', ''clip_vision'', ''vae'']) (UnknownModule module)) (\<lambda>_.
                   ensure (valid_device_selector backend) (BadModuleBackend module))) (rc_module_backends runtime)) (\<lambda>_.
      rbind (each (\<lambda>(name, _). ensure (name \<in> set DEVICE_SELECTOR_ENV_KEYS \<or> name = ''VK_DRIVER_FILES'') (UnknownEnvKey name))
               (pc_env pool)) (\<lambda>_.
      rbind (ensure (shl_image_pixels shape > 0 \<and> shl_video_pixels shape > 0 \<and> shl_video_frames shape \<ge> 1 \<and> shl_steps shape \<ge> 1)
               (BadShape key)) (\<lambda>_.
      rbind (ensure_state_dir E (pc_state_dir pool)) (\<lambda>_.
      rbind (validate_models E pool [] (pc_models pool)) (\<lambda>_.
      rbind (each (ensure_asset_path E) (pc_extra_image_loras pool)) (\<lambda>_.
        each (\<lambda>(p, hash). ensure (is_hex_sha256 hash) (BadExpectedHash p)) (pc_expected_hashes pool)))))))))))))))"

section \<open>Devices\<close>

definition visible_devices :: "string \<Rightarrow> PoolConfig \<Rightarrow> string list" where
  "visible_devices key pool =
     (case map_of (pc_env pool) key of
        None \<Rightarrow> []
      | Some value \<Rightarrow> filter (\<lambda>v. v \<noteq> []) (map trim (split_on (CHR '','') value)))"

text \<open>The map of claimed devices, with the Pool that claimed each.\<close>

fun claim_devices :: "string \<Rightarrow> string \<Rightarrow> string list \<Rightarrow> (string \<rightharpoonup> string) \<Rightarrow> ConfigError + (string \<rightharpoonup> string)" where
  "claim_devices key pool [] claimed = Ok claimed"
| "claim_devices key pool (device # devices) claimed =
     (case claimed device of
        Some other \<Rightarrow> Err (SelectorOverlap other pool device)
      | None \<Rightarrow> claim_devices key pool devices (claimed(device \<mapsto> pool)))"

fun claim_pools :: "string \<Rightarrow> PoolConfig list \<Rightarrow> (string \<rightharpoonup> string) \<Rightarrow> ConfigError + unit" where
  "claim_pools key [] claimed = Ok ()"
| "claim_pools key (pool # pools) claimed =
     rbind (claim_devices key (pc_key pool) (visible_devices key pool) claimed) (claim_pools key pools)"

definition native_device_claims :: "PoolConfig \<Rightarrow> string list" where
  "native_device_claims pool =
     filter (\<lambda>device. device \<noteq> ''cpu'')
       (pc_backend pool # map snd (rc_module_backends (pc_runtime pool)) @
        (case rc_params_backend (pc_runtime pool) of
           None \<Rightarrow> []
         | Some b \<Rightarrow> if b = ''disk'' then [] else map (\<lambda>a. snd (assignment_device a)) (split_on (CHR '','') b)))"

definition normalize_device :: "string \<Rightarrow> string" where
  "normalize_device device =
     (if device = ''metal'' then ''metal0'' else if device = ''vulkan'' then ''vulkan0''
      else if device = ''cuda'' then ''cuda0'' else device)"

definition cuda_pools_are_partitioned :: "PoolConfig \<Rightarrow> PoolConfig \<Rightarrow> string \<Rightarrow> bool" where
  "cuda_pools_are_partitioned left right device \<longleftrightarrow>
     starts_with (normalize_device device) ''cuda'' \<and>
     list_ex (\<lambda>key. case (map_of (pc_env left) key, map_of (pc_env right) key) of
         (Some l, Some r) \<Rightarrow> l \<noteq> r
       | _ \<Rightarrow> False) DEVICE_SELECTOR_ENV_KEYS"

definition check_pair :: "PoolConfig \<Rightarrow> PoolConfig \<Rightarrow> ConfigError + unit" where
  "check_pair left right =
     each (\<lambda>l. each (\<lambda>r.
         if normalize_device l = normalize_device r \<and> \<not> cuda_pools_are_partitioned left right l
         then Err (DeviceOverlap (pc_key left) (pc_key right) l) else Ok ()) (native_device_claims right))
       (native_device_claims left)"

fun check_pairs :: "PoolConfig list \<Rightarrow> ConfigError + unit" where
  "check_pairs [] = Ok ()"
| "check_pairs (left # rest) = rbind (each (check_pair left) rest) (\<lambda>_. check_pairs rest)"

definition check_device_overlap :: "PoolConfig list \<Rightarrow> ConfigError + unit" where
  "check_device_overlap pools =
     rbind (each (\<lambda>key. claim_pools key pools (\<lambda>_. None)) DEVICE_SELECTOR_ENV_KEYS) (\<lambda>_. check_pairs pools)"

fun validate_pools ::
  "config_env \<Rightarrow> string list \<Rightarrow> (string \<times> u16) list \<Rightarrow> PoolConfig list \<Rightarrow> ConfigError + unit" where
  "validate_pools E keys listeners [] = Ok ()"
| "validate_pools E keys listeners (pool # pools) =
     rbind (ensure (pc_key pool \<notin> set keys) (DuplicatePoolKey (pc_key pool))) (\<lambda>_.
     rbind (PoolConfig_validate E pool) (\<lambda>_.
       case ce_parse_addr E (pc_listen pool) of
         None \<Rightarrow> Err (BadListener (pc_key pool))
       | Some listener \<Rightarrow>
           rbind (ensure (snd listener \<noteq> 0) (ZeroPort (pc_key pool))) (\<lambda>_.
           rbind (ensure (listener \<notin> set listeners) (DuplicateListener (pc_key pool))) (\<lambda>_.
             validate_pools E (pc_key pool # keys) (listener # listeners) pools))))"

definition WorkerConfig_validate :: "config_env \<Rightarrow> WorkerConfig \<Rightarrow> ConfigError + unit" where
  "WorkerConfig_validate E c =
     rbind (ensure (trim (wc_name c) \<noteq> []) EmptyName) (\<lambda>_.
     rbind (ensure (wc_pools c \<noteq> []) NoPools) (\<lambda>_.
     rbind (validate_pools E [] [] (wc_pools c)) (\<lambda>_.
     rbind (check_device_overlap (wc_pools c)) (\<lambda>_.
       ensure_state_dir E (wc_state_dir c)))))"

section \<open>Validation decides\<close>

lemma each_Ok_iff: "each f xs = Ok u \<longleftrightarrow> (\<forall>x \<in> set xs. f x = Ok ())"
  by (induction xs) (auto simp: rbind_eq_Ok)

lemma ex_unit: "(\<exists>u :: unit. P u) \<longleftrightarrow> P ()"
  by (metis unit_eq)

lemma claim_devices_Ok:
  "claim_devices key pool ds claimed = Ok claimed' \<longleftrightarrow>
     distinct ds \<and> set ds \<inter> dom claimed = {} \<and> claimed' = claimed ++ (\<lambda>d. if d \<in> set ds then Some pool else None)"
proof (induction ds arbitrary: claimed)
  case Nil
  then show ?case by (auto simp: map_add_def)
next
  case (Cons d ds)
  have "claimed(d \<mapsto> pool) ++ (\<lambda>x. if x \<in> set ds then Some pool else None) =
      claimed ++ (\<lambda>x. if x \<in> set (d # ds) then Some pool else None)"
    by (auto simp: map_add_def fun_eq_iff)
  moreover have "set ds \<inter> dom (claimed(d \<mapsto> pool)) = {} \<longleftrightarrow> d \<notin> set ds \<and> set ds \<inter> dom claimed = {}"
    by (auto simp: dom_def)
  ultimately show ?case using Cons.IH [of "claimed(d \<mapsto> pool)"] by (cases "claimed d") (auto simp del: fun_upd_apply)
qed

lemma claim_pools_Ok:
  "claim_pools key pools claimed = Ok () \<longleftrightarrow>
     distinct (concat (map (visible_devices key) pools)) \<and>
     set (concat (map (visible_devices key) pools)) \<inter> dom claimed = {}"
proof (induction pools arbitrary: claimed)
  case (Cons pool pools)
  let ?ds = "visible_devices key pool"
  have "dom (claimed ++ (\<lambda>d. if d \<in> set ?ds then Some (pc_key pool) else None)) = dom claimed \<union> set ?ds"
    by (auto simp: dom_def)
  then show ?case using Cons.IH by (auto simp: rbind_eq_Ok claim_devices_Ok)
qed simp

definition share_device :: "PoolConfig \<Rightarrow> PoolConfig \<Rightarrow> bool" where
  "share_device left right \<longleftrightarrow>
     (\<exists>l \<in> set (native_device_claims left). \<exists>r \<in> set (native_device_claims right).
        normalize_device l = normalize_device r \<and> \<not> cuda_pools_are_partitioned left right l)"

lemma check_pair_Ok: "check_pair left right = Ok () \<longleftrightarrow> \<not> share_device left right"
  by (auto simp: check_pair_def each_Ok_iff share_device_def split: if_splits)

lemma check_pairs_Ok: "check_pairs pools = Ok () \<longleftrightarrow> sorted_wrt (\<lambda>l r. \<not> share_device l r) pools"
  by (induction pools) (auto simp: rbind_eq_Ok each_Ok_iff check_pair_Ok)

lemma check_device_overlap_Ok:
  "check_device_overlap pools = Ok () \<longleftrightarrow>
     (\<forall>key \<in> set DEVICE_SELECTOR_ENV_KEYS. distinct (concat (map (visible_devices key) pools))) \<and>
     sorted_wrt (\<lambda>l r. \<not> share_device l r) pools"
  by (simp add: check_device_overlap_def rbind_eq_Ok each_Ok_iff claim_pools_Ok check_pairs_Ok)

lemma validate_pools_Ok:
  "validate_pools E keys listeners pools = Ok () \<longleftrightarrow>
     distinct (map pc_key pools) \<and> set (map pc_key pools) \<inter> set keys = {} \<and>
     (\<forall>pool \<in> set pools. PoolConfig_validate E pool = Ok () \<and>
        (\<exists>a port. ce_parse_addr E (pc_listen pool) = Some (a, port) \<and> port \<noteq> 0)) \<and>
     distinct (map (ce_parse_addr E \<circ> pc_listen) pools) \<and>
     (\<forall>pool \<in> set pools. ce_parse_addr E (pc_listen pool) \<notin> Some ` set listeners)"
proof (induction pools arbitrary: keys listeners)
  case (Cons pool pools)
  show ?case
  proof (cases "ce_parse_addr E (pc_listen pool)")
    case None
    then show ?thesis by (auto simp: rbind_eq_Ok)
  next
    case (Some l)
    then show ?thesis
      using Cons.IH [of "pc_key pool # keys" "l # listeners"]
      by (cases l) (auto simp: rbind_eq_Ok image_iff split: if_splits)
  qed
qed simp

lemma validate_models_Ok:
  "validate_models E pool seen models = Ok () \<longleftrightarrow>
     (\<forall>m \<in> set models. validate_model E pool m = Ok () \<and> ce_model_to_vec E m \<noteq> None) \<and>
     distinct (map (\<lambda>m. digest (ce_sha256 E) (the (ce_model_to_vec E m))) models) \<and>
     (\<forall>m \<in> set models. digest (ce_sha256 E) (the (ce_model_to_vec E m)) \<notin> set seen)"
proof (induction models arbitrary: seen)
  case (Cons m models)
  show ?case
  proof (cases "ce_model_to_vec E m")
    case None
    then show ?thesis by (auto simp: rbind_eq_Ok)
  next
    case (Some v)
    then show ?thesis
      using Cons.IH [of "digest (ce_sha256 E) v # seen"] by (fastforce simp: rbind_eq_Ok Let_def image_iff split: if_splits)
  qed
qed simp

text \<open>The declarative reading: an asset is a regular file at an absolute path, and a model has
  exactly the assets of its family.\<close>

definition usable_asset :: "config_env \<Rightarrow> path \<Rightarrow> bool" where
  "usable_asset E p \<longleftrightarrow> is_absolute p \<and> ce_is_file E p = Some True"

lemma ensure_asset_path_Ok: "ensure_asset_path E p = Ok () \<longleftrightarrow> usable_asset E p"
  by (auto simp: ensure_asset_path_def usable_asset_def rbind_def split: option.splits if_splits)

definition usable_model :: "config_env \<Rightarrow> ModelConfig \<Rightarrow> bool" where
  "usable_model E m \<longleftrightarrow>
     fst ` set (mc_assets m) = set (required_assets (mc_family m)) \<and> (\<forall>(role, p) \<in> set (mc_assets m). usable_asset E p) \<and>
     (\<forall>lora \<in> set (mc_default_loras m). is_finite (cl_scale lora) \<and> usable_asset E (cl_path lora)) \<and>
     (\<forall>preset. mc_sampling m = Some preset \<longrightarrow> is_ok (SamplingPreset_validate preset))"

lemma resolve_preset_ok: "is_ok (SamplingPreset_resolve preset None None None) \<longleftrightarrow> is_ok (SamplingPreset_validate preset)"
  by (auto simp: SamplingPreset_resolve_def SamplingPreset_validate_def rbind_def Let_def is_ok_def
      split: sum.splits option.splits if_splits)

lemma required_roles_set: "set (required_roles family) = set (required_assets family)"
  by (auto simp: required_roles_def required_assets_def split: ModelFamily.splits)

lemma validate_model_Ok: "validate_model E pool m = Ok () \<longleftrightarrow> usable_model E m"
proof -
  have roles: "list_all (\<lambda>role. role \<in> set (map fst (mc_assets m))) (required_roles (mc_family m)) \<and>
      filter (\<lambda>role. role \<notin> set (required_roles (mc_family m))) (map fst (mc_assets m)) = [] \<longleftrightarrow>
      fst ` set (mc_assets m) = set (required_assets (mc_family m))"
    unfolding required_roles_set [symmetric] by (auto simp: list_all_iff filter_empty_conv)
  have sampling: "(case mc_sampling m of None \<Rightarrow> Ok () | Some sampling \<Rightarrow>
        (case SamplingPreset_resolve sampling None None None of Err _ \<Rightarrow> Err (BadSampling (pc_key pool)) | Ok _ \<Rightarrow> Ok ())) = Ok () \<longleftrightarrow>
      (\<forall>preset. mc_sampling m = Some preset \<longrightarrow> is_ok (SamplingPreset_validate preset))"
    unfolding resolve_preset_ok [symmetric] by (auto simp: is_ok_def split: option.splits sum.splits)
  show ?thesis
    unfolding usable_model_def roles [symmetric] validate_model_def Let_def rbind_eq_Ok ex_unit sampling each_Ok_iff
    by (auto simp: ensure_asset_path_Ok split: if_splits)
qed

lemma validate_models_new:
  "validate_models E pool [] models = Ok () \<longleftrightarrow>
     (\<forall>m \<in> set models. usable_model E m \<and> ce_model_to_vec E m \<noteq> None) \<and>
     distinct (map (\<lambda>m. digest (ce_sha256 E) (the (ce_model_to_vec E m))) models)"
  by (simp add: validate_models_Ok validate_model_Ok)

definition sound_pool :: "config_env \<Rightarrow> PoolConfig \<Rightarrow> bool" where
  "sound_pool E pool \<longleftrightarrow>
     trim (pc_key pool) \<noteq> [] \<and> valid_device_selector (pc_backend pool) \<and> 0 < pc_startup_timeout pool \<and>
     0 < rc_threads (pc_runtime pool) \<and> rc_threads (pc_runtime pool) \<le> 1024 \<and>
     (\<forall>b. rc_params_backend (pc_runtime pool) = Some b \<longrightarrow> valid_params_backend b) \<and>
     (\<forall>v. rc_max_vram (pc_runtime pool) = Some v \<longrightarrow> valid_vram_assignment v) \<and>
     (\<forall>a \<in> set (rc_model_args (pc_runtime pool)). a \<noteq> [] \<and> CHR 0x00 \<notin> set a \<and> CHR '','' \<notin> set a) \<and>
     (\<forall>(module, backend) \<in> set (rc_module_backends (pc_runtime pool)).
        module \<in> set [''diffusion'', ''te'', ''clip_vision'', ''vae''] \<and> valid_device_selector backend) \<and>
     fst ` set (pc_env pool) \<subseteq> insert ''VK_DRIVER_FILES'' (set DEVICE_SELECTOR_ENV_KEYS) \<and>
     0 < shl_image_pixels (pc_shape pool) \<and> 0 < shl_video_pixels (pc_shape pool) \<and>
     1 \<le> shl_video_frames (pc_shape pool) \<and> 1 \<le> shl_steps (pc_shape pool) \<and>
     \<not> ce_state_dir_error E (pc_state_dir pool) \<and>
     (\<forall>m \<in> set (pc_models pool). usable_model E m \<and> ce_model_to_vec E m \<noteq> None) \<and>
     distinct (map (\<lambda>m. digest (ce_sha256 E) (the (ce_model_to_vec E m))) (pc_models pool)) \<and>
     (\<forall>p \<in> set (pc_extra_image_loras pool). usable_asset E p) \<and>
     (\<forall>(p, hash) \<in> set (pc_expected_hashes pool). is_hex_sha256 hash)"

lemma ensure_Ok: "ensure c e = Ok () \<longleftrightarrow> c"
  by simp

lemma PoolConfig_validate_Ok: "PoolConfig_validate E pool = Ok () \<longleftrightarrow> sound_pool E pool"
proof -
  have "(case x of None \<Rightarrow> Ok () | Some b \<Rightarrow> ensure (P b) e) = Ok () \<longleftrightarrow> (\<forall>b. x = Some b \<longrightarrow> P b)" for x :: "string option" and P e
    by (cases x) simp_all
  moreover have "(case mb of (module, backend) \<Rightarrow>
        rbind (ensure (module \<in> M) (UnknownModule module)) (\<lambda>_. ensure (V backend) (BadModuleBackend module))) = Ok () \<longleftrightarrow>
      (case mb of (module, backend) \<Rightarrow> module \<in> M \<and> V backend)" for mb M V
    by (cases mb) (simp add: rbind_def)
  moreover have "(\<forall>ne \<in> set (pc_env pool). (case ne of (name, _) \<Rightarrow> ensure (name \<in> K \<or> name = n) (UnknownEnvKey name)) = Ok ()) \<longleftrightarrow>
      fst ` set (pc_env pool) \<subseteq> insert n K" for K n
    by (fastforce simp: image_subset_iff split: if_splits prod.splits)
  moreover have "(case ph of (p, hash) \<Rightarrow> ensure (is_hex_sha256 hash) (BadExpectedHash p)) = Ok () \<longleftrightarrow>
      (case ph of (p, hash) \<Rightarrow> is_hex_sha256 hash)" for ph
    by (cases ph) simp
  ultimately show ?thesis
    unfolding PoolConfig_validate_def sound_pool_def Let_def rbind_eq_Ok ex_unit each_Ok_iff ensure_state_dir_def
      validate_models_new ensure_asset_path_Ok ensure_Ok
    by (simp only: conj_assoc) (auto simp: rbind_def split: if_splits)
qed

section \<open>Properties\<close>

text \<open>C0: The validation of a Worker's configuration decides exactly its specification: the Worker
  and its Pools are named, the names are distinct, every Pool is sound (its selectors parse, its
  limits are positive, every model has exactly the assets its family needs, each a regular file
  at an absolute path, and no model is configured twice), the listeners are distinct with a
  nonzero port, no device selector of the environment is claimed twice, and no two Pools claim
  the same native device unless it is a CUDA device and some selector of theirs differs.\<close>

theorem config_validation_exact:
  "WorkerConfig_validate E c = Ok () \<longleftrightarrow>
     trim (wc_name c) \<noteq> [] \<and> wc_pools c \<noteq> [] \<and> distinct (map pc_key (wc_pools c)) \<and>
     set (map (sound_pool E) (wc_pools c)) \<subseteq> {True} \<and>
     set (map (\<lambda>pool. map_option (\<lambda>l. snd l \<noteq> 0) (ce_parse_addr E (pc_listen pool))) (wc_pools c)) \<subseteq> {Some True} \<and>
     distinct (map (ce_parse_addr E \<circ> pc_listen) (wc_pools c)) \<and>
     list_all (\<lambda>key. distinct (concat (map (visible_devices key) (wc_pools c)))) DEVICE_SELECTOR_ENV_KEYS \<and>
     sorted_wrt (\<lambda>l r. \<not> share_device l r) (wc_pools c) \<and>
     \<not> ce_state_dir_error E (wc_state_dir c)"
proof -
  have "(\<exists>a port. x = Some (a, port) \<and> port \<noteq> 0) \<longleftrightarrow> map_option (\<lambda>l. snd l \<noteq> 0) x = Some True" for x :: "(string \<times> u16) option"
    by (cases x) auto
  then show ?thesis
    by (auto simp: WorkerConfig_validate_def rbind_eq_Ok validate_pools_Ok check_device_overlap_Ok PoolConfig_validate_Ok
        ensure_state_dir_def list_all_iff split: if_splits)
qed

end
