(* ===== verification/Worker_Models.thy ===== *)
theory Worker_Models
  imports Worker_Config
begin

text \<open>
  The model material of a Pool, \<^verbatim>\<open>gpq-worker/src/models.rs\<close>: walking a model directory, the digest
  of a file or of a directory, the cache of digests keyed by file metadata, and the scan that
  turns the configured models into manifests. A file system maps paths to trees; it may change
  between two accesses, so the scan carries the number of the next access.
\<close>

section \<open>Files\<close>

record CacheKey =
  ck_size :: u64
  ck_mtime_unix_nanos :: int
  ck_file_id :: string
  ck_directory :: bool

text \<open>What \<^verbatim>\<open>std::fs::metadata\<close> and \<^verbatim>\<open>read_dir\<close> find at a path, the entries in the order of their
  names; the flag says that a directory was reached through a symbolic link.\<close>

datatype node =
    FileNode CacheKey "u8 list"
  | DirNode CacheKey bool "(string \<times> node) list"
  | OtherNode CacheKey

fun node_key :: "node \<Rightarrow> CacheKey" where
  "node_key (FileNode key content) = key"
| "node_key (DirNode key symlink entries) = key"
| "node_key (OtherNode key) = key"

type_synonym files = "path \<Rightarrow> string + node"

definition join_path :: "string \<Rightarrow> string \<Rightarrow> string" where
  "join_path root name = (if root = [] then name else root @ ''/'' @ name)"

type_synonym model_files = "(string \<times> CacheKey) list \<times> (string \<times> u8 list) list"

fun collect_model_files :: "string \<Rightarrow> (string \<times> node) list \<Rightarrow> model_files \<Rightarrow> string + model_files" where
  "collect_model_files root [] acc = Ok acc"
| "collect_model_files root ((name, FileNode key content) # entries) (metas, found) =
     collect_model_files root entries
       (metas @ [(join_path root name, key)], found @ [(join_path root name, content)])"
| "collect_model_files root ((name, DirNode key symlink inner) # entries) (metas, found) =
     (if symlink then Err ''model directory symlink is not supported''
      else rbind (collect_model_files (join_path root name) inner (metas @ [(join_path root name, key)], found))
             (collect_model_files root entries))"
| "collect_model_files root ((name, OtherNode key) # entries) acc = Err ''model entry is not a file or directory''"

definition model_files :: "node \<Rightarrow> string + model_files" where
  "model_files n =
     (case n of
        DirNode key symlink entries \<Rightarrow> collect_model_files [] entries ([], [])
      | FileNode key content \<Rightarrow> Ok ([], [])
      | OtherNode key \<Rightarrow> Err ''model is not a file or directory'')"

section \<open>Digests\<close>

definition to_be_bytes :: "u64 \<Rightarrow> u8 list" where
  "to_be_bytes w = map (\<lambda>k. ucast (drop_bit (8 * k) w)) (rev [0..<8])"

definition str_bytes :: "string \<Rightarrow> u8 list" where
  "str_bytes s = map (\<lambda>c. of_nat (byte_val c)) s"

text \<open>A file is read through a buffer of one MiB.\<close>

definition HASH_CHUNK_BYTES :: nat where
  "HASH_CHUNK_BYTES = 1024 * 1024"

function read_pieces :: "u8 list \<Rightarrow> u8 list list" where
  "read_pieces content =
     (if content = [] then []
      else take HASH_CHUNK_BYTES content # read_pieces (drop HASH_CHUNK_BYTES content))"
  by pat_completeness auto
termination by (relation "measure length") (auto simp: HASH_CHUNK_BYTES_def)

declare read_pieces.simps [simp del]

definition update_file_hash :: "'c sha_libs \<Rightarrow> u8 list \<Rightarrow> 'c Hasher \<Rightarrow> 'c Hasher" where
  "update_file_hash H content hasher = foldl (Hasher_update (sl_update H)) hasher (read_pieces content)"

definition digest_file :: "'c sha_libs \<Rightarrow> u8 list \<Rightarrow> ContentHash" where
  "digest_file H content = Hasher_finish (sl_finalize H) (update_file_hash H content (Hasher_new (sl_new H)))"

definition directory_tag :: "u8 list" where
  "directory_tag = str_bytes ''gpq-model-directory-v1'' @ [0]"

fun update_directory_hash :: "'c sha_libs \<Rightarrow> (string \<times> u8 list) list \<Rightarrow> 'c Hasher \<Rightarrow> 'c Hasher" where
  "update_directory_hash H [] hasher = hasher"
| "update_directory_hash H ((relative, content) # found) hasher =
     (let u = Hasher_update (sl_update H);
          h1 = u hasher (to_be_bytes (of_nat (length relative)));
          h2 = u h1 (str_bytes relative);
          h3 = u h2 (to_be_bytes (of_nat (length content)))
      in update_directory_hash H found (update_file_hash H content h3))"

definition digest_directory :: "'c sha_libs \<Rightarrow> (string \<times> u8 list) list \<Rightarrow> ContentHash" where
  "digest_directory H found =
     Hasher_finish (sl_finalize H)
       (update_directory_hash H found (Hasher_update (sl_update H) (Hasher_new (sl_new H)) directory_tag))"

section \<open>The cache\<close>

record CacheEntry =
  cen_key :: CacheKey
  cen_members :: "(string \<times> CacheKey) list"
  cen_hash :: ContentHash

type_synonym CacheFile = "path \<rightharpoonup> CacheEntry"

text \<open>The state of a scan: the number of the next access to the file system, and the cache file of
  the Pool; the file may be unreadable, and saving it may fail.\<close>

record scan =
  sc_time :: nat
  sc_cache :: "string + CacheFile"

record scan_env =
  se_files :: "nat \<Rightarrow> files"
  se_save_error :: "nat \<Rightarrow> string option"

definition sbind :: "(scan \<Rightarrow> (string + 'a) \<times> scan) \<Rightarrow> ('a \<Rightarrow> scan \<Rightarrow> (string + 'b) \<times> scan) \<Rightarrow> scan \<Rightarrow> (string + 'b) \<times> scan" where
  "sbind m f s = (case m s of (Err e, s1) \<Rightarrow> (Err e, s1) | (Ok v, s1) \<Rightarrow> f v s1)"

definition access :: "scan_env \<Rightarrow> path \<Rightarrow> scan \<Rightarrow> (string + node) \<times> scan" where
  "access F p s = (se_files F (sc_time s) p, s\<lparr>sc_time := Suc (sc_time s)\<rparr>)"

definition save_cache :: "scan_env \<Rightarrow> CacheFile \<Rightarrow> scan \<Rightarrow> (string + unit) \<times> scan" where
  "save_cache F cache s =
     (case se_save_error F (sc_time s) of
        Some e \<Rightarrow> (Err e, s)
      | None \<Rightarrow> (Ok (), s\<lparr>sc_cache := Ok cache\<rparr>))"

definition material_digest :: "'c sha_libs \<Rightarrow> node \<Rightarrow> (string \<times> u8 list) list \<Rightarrow> ContentHash" where
  "material_digest H n found =
     (if ck_directory (node_key n) then digest_directory H found
      else digest_file H (case n of FileNode key content \<Rightarrow> content | _ \<Rightarrow> []))"

definition hash_model :: "'c sha_libs \<Rightarrow> scan_env \<Rightarrow> path \<Rightarrow> scan \<Rightarrow> (string + ContentHash) \<times> scan" where
  "hash_model H F p =
     sbind (access F p) (\<lambda>n s.
       case model_files n of
         Err e \<Rightarrow> (Err e, s)
       | Ok (metas, found) \<Rightarrow>
           (case sc_cache s of
              Err e \<Rightarrow> (Err e, s)
            | Ok cache \<Rightarrow>
                (case cache p of
                   Some entry \<Rightarrow>
                     if cen_key entry = node_key n \<and> cen_members entry = metas then (Ok (cen_hash entry), s)
                     else (let h = material_digest H n found in
                       sbind (save_cache F (cache(p \<mapsto> \<lparr>cen_key = node_key n, cen_members = metas, cen_hash = h\<rparr>)))
                         (\<lambda>_ s. (Ok h, s)) s)
                 | None \<Rightarrow>
                     (let h = material_digest H n found in
                       sbind (save_cache F (cache(p \<mapsto> \<lparr>cen_key = node_key n, cen_members = metas, cen_hash = h\<rparr>)))
                         (\<lambda>_ s. (Ok h, s)) s))))"

section \<open>Snapshots\<close>

record ModelSnapshot =
  ms_key :: CacheKey
  ms_members :: "(string \<times> CacheKey) list"

definition snapshot_of :: "node \<Rightarrow> string + ModelSnapshot" where
  "snapshot_of n = rbind (model_files n) (\<lambda>(metas, found). Ok \<lparr>ms_key = node_key n, ms_members = metas\<rparr>)"

definition ModelSnapshot_read :: "scan_env \<Rightarrow> path \<Rightarrow> scan \<Rightarrow> (string + ModelSnapshot) \<times> scan" where
  "ModelSnapshot_read F p = sbind (access F p) (\<lambda>n s. (snapshot_of n, s))"

record AssetSnapshot =
  as_path :: path
  as_snapshot :: ModelSnapshot

definition AssetSnapshot_verify :: "files \<Rightarrow> AssetSnapshot \<Rightarrow> string + unit" where
  "AssetSnapshot_verify current a =
     rbind (rbind (current (as_path a)) snapshot_of) (\<lambda>snapshot.
       if snapshot = as_snapshot a then Ok () else Err ''configured model asset changed after its manifest was hashed'')"

record ConfiguredLoraPath =
  clp_sha256 :: ContentHash
  clp_scale :: f32
  clp_path :: path

record ConfiguredExtraLora =
  cel_path :: path
  cel_snapshot :: AssetSnapshot

record ConfiguredModel =
  cm_manifest_hash :: ContentHash
  cm_manifest :: ModelManifest
  cm_asset_paths :: "(ModelAssetRole \<times> path) list"
  cm_default_lora_paths :: "ConfiguredLoraPath list"
  cm_snapshots :: "AssetSnapshot list"

definition verify_assets :: "files \<Rightarrow> ConfiguredModel \<Rightarrow> string + unit" where
  "verify_assets current m = each (AssetSnapshot_verify current) (cm_snapshots m)"

section \<open>The scan\<close>

record model_libs =
  ml_hash_parse :: "string \<Rightarrow> ContentHash option"
  ml_manifest_to_vec :: "ModelManifest \<Rightarrow> u8 list option"

definition hash_and_check ::
  "'c sha_libs \<Rightarrow> model_libs \<Rightarrow> scan_env \<Rightarrow> PoolConfig \<Rightarrow> path \<Rightarrow> scan \<Rightarrow> (string + ContentHash) \<times> scan" where
  "hash_and_check H L F pool p =
     sbind (hash_model H F p) (\<lambda>h s.
       case map_of (pc_expected_hashes pool) p of
         None \<Rightarrow> (Ok h, s)
       | Some expected_hex \<Rightarrow>
           (case ml_hash_parse L expected_hex of
              None \<Rightarrow> (Err ''expected hash is malformed'', s)
            | Some expected \<Rightarrow> (if h = expected then Ok h else Err ''asset hash mismatch'', s)))"

definition hash_and_snapshot ::
  "'c sha_libs \<Rightarrow> model_libs \<Rightarrow> scan_env \<Rightarrow> PoolConfig \<Rightarrow> path \<Rightarrow> scan \<Rightarrow> (string + ContentHash \<times> AssetSnapshot) \<times> scan" where
  "hash_and_snapshot H L F pool p =
     sbind (ModelSnapshot_read F p) (\<lambda>before.
     sbind (hash_and_check H L F pool p) (\<lambda>h.
     sbind (ModelSnapshot_read F p) (\<lambda>snapshot s.
       (if before = snapshot then Ok (h, \<lparr>as_path = p, as_snapshot = snapshot\<rparr>)
        else Err ''asset changed while its manifest was being hashed'', s))))"

fun scan_assets ::
  "'c sha_libs \<Rightarrow> model_libs \<Rightarrow> scan_env \<Rightarrow> PoolConfig \<Rightarrow> (ModelAssetRole \<times> path) list \<Rightarrow>
   (ModelAssetRole \<rightharpoonup> ContentHash) \<Rightarrow> AssetSnapshot list \<Rightarrow> scan \<Rightarrow>
   (string + (ModelAssetRole \<rightharpoonup> ContentHash) \<times> AssetSnapshot list) \<times> scan" where
  "scan_assets H L F pool [] assets snapshots s = (Ok (assets, snapshots), s)"
| "scan_assets H L F pool ((role, p) # rest) assets snapshots s =
     sbind (hash_and_snapshot H L F pool p) (\<lambda>(h, snapshot).
       scan_assets H L F pool rest (assets(role \<mapsto> h)) (snapshots @ [snapshot])) s"

fun scan_loras ::
  "'c sha_libs \<Rightarrow> model_libs \<Rightarrow> scan_env \<Rightarrow> PoolConfig \<Rightarrow> ConfiguredLora list \<Rightarrow>
   ConfiguredLoraPath list \<Rightarrow> AssetSnapshot list \<Rightarrow> scan \<Rightarrow>
   (string + ConfiguredLoraPath list \<times> AssetSnapshot list) \<times> scan" where
  "scan_loras H L F pool [] defaults snapshots s = (Ok (defaults, snapshots), s)"
| "scan_loras H L F pool (lora # rest) defaults snapshots s =
     sbind (hash_and_snapshot H L F pool (cl_path lora)) (\<lambda>(h, snapshot) s.
       if h \<in> set (map clp_sha256 defaults) then (Err ''model repeats default LoRA hash'', s)
       else scan_loras H L F pool rest
              (defaults @ [\<lparr>clp_sha256 = h, clp_scale = cl_scale lora, clp_path = cl_path lora\<rparr>])
              (snapshots @ [snapshot]) s) s"

definition scan_one_model ::
  "'c sha_libs \<Rightarrow> model_libs \<Rightarrow> scan_env \<Rightarrow> PoolConfig \<Rightarrow> ModelConfig \<Rightarrow> scan \<Rightarrow> (string + ConfiguredModel) \<times> scan" where
  "scan_one_model H L F pool configured =
     sbind (scan_assets H L F pool (mc_assets configured) (\<lambda>_. None) []) (\<lambda>(assets, snapshots).
     sbind (scan_loras H L F pool (mc_default_loras configured) [] snapshots) (\<lambda>(defaults, snapshots) s.
       let sampling = (case mc_sampling configured of Some p \<Rightarrow> p | None \<Rightarrow> default_sampling_preset (mc_family configured));
           manifest = \<lparr>mm_family = mc_family configured, mm_assets = assets,
             mm_default_loras = map (\<lambda>l. \<lparr>lora_sha256 = clp_sha256 l, lora_scale = clp_scale l\<rparr>) defaults,
             mm_sampling = sampling\<rparr>
       in case canonical_hash (ml_manifest_to_vec L) (sl_sha256 H) manifest of
            None \<Rightarrow> (Err ''hashing model manifest'', s)
          | Some h \<Rightarrow> (Ok \<lparr>cm_manifest_hash = h, cm_manifest = manifest, cm_asset_paths = mc_assets configured,
              cm_default_lora_paths = defaults, cm_snapshots = snapshots\<rparr>, s)))"

fun scan_each ::
  "'c sha_libs \<Rightarrow> model_libs \<Rightarrow> scan_env \<Rightarrow> PoolConfig \<Rightarrow> ModelConfig list \<Rightarrow> ConfiguredModel list \<Rightarrow> scan \<Rightarrow>
   (string + ConfiguredModel list) \<times> scan" where
  "scan_each H L F pool [] models s = (Ok models, s)"
| "scan_each H L F pool (configured # rest) models s =
     sbind (scan_one_model H L F pool configured) (\<lambda>model s.
       if cm_manifest_hash model \<in> set (map cm_manifest_hash models)
       then (Err ''pool configures duplicate model manifest'', s)
       else scan_each H L F pool rest (models @ [model]) s) s"

fun scan_extra_loras ::
  "'c sha_libs \<Rightarrow> model_libs \<Rightarrow> scan_env \<Rightarrow> PoolConfig \<Rightarrow> path list \<Rightarrow> (ContentHash \<times> ConfiguredExtraLora) list \<Rightarrow>
   scan \<Rightarrow> (string + (ContentHash \<times> ConfiguredExtraLora) list) \<times> scan" where
  "scan_extra_loras H L F pool [] extra s = (Ok extra, s)"
| "scan_extra_loras H L F pool (p # rest) extra s =
     sbind (hash_and_snapshot H L F pool p) (\<lambda>(h, snapshot) s.
       if h \<in> set (map fst extra) then (Err ''pool configures duplicate image LoRA hash'', s)
       else scan_extra_loras H L F pool rest (extra @ [(h, \<lparr>cel_path = p, cel_snapshot = snapshot\<rparr>)]) s) s"

definition scan_models ::
  "'c sha_libs \<Rightarrow> model_libs \<Rightarrow> scan_env \<Rightarrow> PoolConfig \<Rightarrow> scan \<Rightarrow>
   (string + ConfiguredModel list \<times> (ContentHash \<times> ConfiguredExtraLora) list) \<times> scan" where
  "scan_models H L F pool =
     sbind (scan_each H L F pool (pc_models pool) []) (\<lambda>models.
     sbind (scan_extra_loras H L F pool (pc_extra_image_loras pool) []) (\<lambda>extra s. (Ok (models, extra), s)))"

section \<open>The digests as texts\<close>

lemma concat_read_pieces: "concat (read_pieces content) = content"
  by (induction content rule: read_pieces.induct) (subst read_pieces.simps, simp)

definition frame :: "string \<times> u8 list \<Rightarrow> u8 list" where
  "frame = (\<lambda>(relative, content).
     to_be_bytes (of_nat (length relative)) @ str_bytes relative @ to_be_bytes (of_nat (length content)) @ content)"

lemma digest_file_eq: "sha_laws H \<Longrightarrow> digest_file H content = digest (sl_sha256 H) content"
  by (simp add: digest_file_def update_file_hash_def sha_digest concat_read_pieces)

lemma update_directory_hash_eq:
  "\<exists>chunks. update_directory_hash H found hasher = foldl (Hasher_update (sl_update H)) hasher chunks \<and>
     concat chunks = concat (map frame found)"
proof (induction found arbitrary: hasher)
  case Nil
  then show ?case by (intro exI [of _ "[]"]) simp
next
  case (Cons x found)
  obtain relative content where x: "x = (relative, content)" by fastforce
  let ?pieces = "[to_be_bytes (of_nat (length relative)), str_bytes relative, to_be_bytes (of_nat (length content))] @ read_pieces content"
  obtain chunks where chunks: "update_directory_hash H found (foldl (Hasher_update (sl_update H)) hasher ?pieces) =
      foldl (Hasher_update (sl_update H)) (foldl (Hasher_update (sl_update H)) hasher ?pieces) chunks"
    "concat chunks = concat (map frame found)"
    using Cons by blast
  then show ?case
    by (intro exI [of _ "?pieces @ chunks"]) (simp add: x Let_def update_file_hash_def frame_def concat_read_pieces)
qed

lemma digest_directory_eq:
  assumes "sha_laws H"
  shows "digest_directory H found = digest (sl_sha256 H) (directory_tag @ concat (map frame found))"
proof -
  obtain chunks where "update_directory_hash H found (Hasher_update (sl_update H) (Hasher_new (sl_new H)) directory_tag) =
      foldl (Hasher_update (sl_update H)) (Hasher_new (sl_new H)) (directory_tag # chunks)"
    "concat chunks = concat (map frame found)"
    using update_directory_hash_eq [of H found] by fastforce
  then show ?thesis using sha_digest [OF assms, of "directory_tag # chunks"] by (simp add: digest_directory_def)
qed

lemma length_to_be_bytes [simp]: "length (to_be_bytes w) = 8"
  by (simp add: to_be_bytes_def)

lemma to_be_bytes_nonempty [simp]: "to_be_bytes w \<noteq> []"
  using length_to_be_bytes [of w] by (cases "to_be_bytes w") simp_all

lemma to_be_bytes_inj: "to_be_bytes v = to_be_bytes w \<longleftrightarrow> v = w"
proof
  assume eq: "to_be_bytes v = to_be_bytes w"
  have byte: "(ucast (drop_bit (8 * k) v) :: u8) = ucast (drop_bit (8 * k) w)" if "k < 8" for k
    using eq that by (simp add: to_be_bytes_def)
  show "v = w"
  proof (rule bit_word_eqI)
    fix n assume n: "n < LENGTH(64)"
    then have k: "n div 8 < 8" "n mod 8 < 8" by auto
    have "bit (ucast (drop_bit (8 * (n div 8)) v) :: u8) (n mod 8) = bit (ucast (drop_bit (8 * (n div 8)) w) :: u8) (n mod 8)"
      by (simp only: byte [OF k(1)])
    then show "bit v n = bit w n" using k(2) by (simp add: bit_ucast_iff bit_drop_bit_eq)
  qed
qed simp

lemma length_str_bytes [simp]: "length (str_bytes s) = length s"
  by (simp add: str_bytes_def)

lemma LENGTH_64: "LENGTH(64) = 64"
  by simp

lemma str_bytes_inj: "str_bytes s = str_bytes t \<longleftrightarrow> s = t"
proof -
  have "inj (\<lambda>c :: char. (of_nat (byte_val c) :: u8))"
  proof (rule injI)
    fix c d :: char assume eq: "(of_nat (byte_val c) :: u8) = of_nat (byte_val d)"
    have "byte_val x < (256 :: nat)" for x :: char by simp
    then have "unat (of_nat (byte_val c) :: u8) = byte_val c" "unat (of_nat (byte_val d) :: u8) = byte_val d"
      by (simp_all add: unat_of_nat)
    then show "c = d" using eq by (metis char_of_char)
  qed
  then show ?thesis by (simp add: str_bytes_def inj_map_eq_map)
qed

lemma frames_inj:
  assumes "concat (map frame a) = concat (map frame b)"
    and "list_all (\<lambda>(name, content). length name < 2 ^ 64 \<and> length content < 2 ^ 64) (a @ b)"
  shows "a = b"
  using assms
proof (induction a arbitrary: b)
  case Nil
  then show ?case by (cases b) (auto simp: frame_def)
next
  case (Cons x a)
  obtain name content where x: "x = (name, content)" by fastforce
  show ?case
  proof (cases b)
    case Nil
    then show ?thesis using Cons.prems(1) x by (auto simp: frame_def)
  next
    case (Cons y b')
    obtain name' content' where y: "y = (name', content')" by fastforce
    have len: "(of_nat n :: u64) = of_nat m \<longleftrightarrow> n = m" if "n < 2 ^ 64" "m < 2 ^ 64" for n m
      using that unat_of_nat_small [of n, where ?'w = 64] unat_of_nat_small [of m, where ?'w = 64] by (metis LENGTH_64)
    have frames: "to_be_bytes (of_nat (length name)) @ str_bytes name @ to_be_bytes (of_nat (length content)) @ content @ concat (map frame a) =
        to_be_bytes (of_nat (length name')) @ str_bytes name' @ to_be_bytes (of_nat (length content')) @ content' @ concat (map frame b')"
      using Cons.prems(1) x y Cons by (simp add: frame_def)
    have "length name = length name'" using frames Cons.prems(2) x y Cons by (auto simp: to_be_bytes_inj len)
    moreover have "name = name'" using frames calculation by (simp add: str_bytes_inj)
    moreover have "length content = length content'"
      using frames calculation Cons.prems(2) x y Cons by (auto simp: to_be_bytes_inj len)
    moreover have "content = content'" "concat (map frame a) = concat (map frame b')" using frames calculation by auto
    ultimately show ?thesis using Cons.IH [of b'] Cons.prems(2) x y Cons by auto
  qed
qed

section \<open>What the file system has to promise\<close>

text \<open>
  The cache rests on the metadata of a file: while the size, the modification time, the identity
  and the kind of a path and of everything below it are the same, so is its content. The check
  around a hash rests on their not coming back: when they are equal before and after, they
  were equal in between.
\<close>

definition metadata_determines_content :: "'c sha_libs \<Rightarrow> scan_env \<Rightarrow> bool" where
  "metadata_determines_content H F \<longleftrightarrow>
     (\<forall>p t t' n n' metas found found'. se_files F t p = Ok n \<and> se_files F t' p = Ok n' \<and> node_key n = node_key n' \<and>
        model_files n = Ok (metas, found) \<and> model_files n' = Ok (metas, found') \<longrightarrow>
        material_digest H n found = material_digest H n' found')"

definition metadata_never_returns :: "scan_env \<Rightarrow> bool" where
  "metadata_never_returns F \<longleftrightarrow>
     (\<forall>p t t' t'' snapshot. t \<le> t' \<and> t' \<le> t'' \<and> rbind (se_files F t p) snapshot_of = Ok snapshot \<and>
        rbind (se_files F t'' p) snapshot_of = Ok snapshot \<longrightarrow> rbind (se_files F t' p) snapshot_of = Ok snapshot)"

definition truthful :: "'c sha_libs \<Rightarrow> scan_env \<Rightarrow> CacheFile \<Rightarrow> bool" where
  "truthful H F cache \<longleftrightarrow>
     (\<forall>p entry t n metas found. cache p = Some entry \<and> se_files F t p = Ok n \<and> model_files n = Ok (metas, found) \<and>
        cen_key entry = node_key n \<and> cen_members entry = metas \<longrightarrow> cen_hash entry = material_digest H n found)"

definition scan_ok :: "'c sha_libs \<Rightarrow> scan_env \<Rightarrow> scan \<Rightarrow> bool" where
  "scan_ok H F s \<longleftrightarrow> (\<forall>cache. sc_cache s = Ok cache \<longrightarrow> truthful H F cache)"

definition has_digest :: "'c sha_libs \<Rightarrow> scan_env \<Rightarrow> nat \<Rightarrow> path \<Rightarrow> ContentHash \<Rightarrow> bool" where
  "has_digest H F t p h \<longleftrightarrow>
     (\<exists>n metas found. se_files F t p = Ok n \<and> model_files n = Ok (metas, found) \<and> h = material_digest H n found)"

lemma sbind_Ok: "sbind m f s = (Ok v, s') \<longleftrightarrow> (\<exists>w s1. m s = (Ok w, s1) \<and> f w s1 = (Ok v, s'))"
  by (auto simp: sbind_def split: sum.splits prod.splits)

lemma truthful_insert:
  assumes "metadata_determines_content H F" "truthful H F cache" "se_files F t p = Ok n" "model_files n = Ok (metas, found)"
  shows "truthful H F (cache(p \<mapsto> \<lparr>cen_key = node_key n, cen_members = metas, cen_hash = material_digest H n found\<rparr>))"
  unfolding truthful_def
proof (intro allI impI, elim conjE)
  fix q entry t' n' metas' found'
  assume new: "(cache(p \<mapsto> \<lparr>cen_key = node_key n, cen_members = metas, cen_hash = material_digest H n found\<rparr>)) q = Some entry"
    and n': "se_files F t' q = Ok n'" "model_files n' = Ok (metas', found')" "cen_key entry = node_key n'" "cen_members entry = metas'"
  show "cen_hash entry = material_digest H n' found'"
  proof (cases "q = p")
    case True
    then show ?thesis
      using new n' assms(1) [unfolded metadata_determines_content_def, rule_format, of t p n t' n' metas found found'] assms(3,4) by auto
  next
    case False
    then show ?thesis using new n' assms(2) [unfolded truthful_def, rule_format, of q entry t' n' metas' found'] by simp
  qed
qed

lemma hash_model_cases:
  assumes "hash_model H F p s = (Ok h, s')"
  obtains n metas found cache where "se_files F (sc_time s) p = Ok n" "model_files n = Ok (metas, found)" "sc_cache s = Ok cache"
    "(\<exists>entry. cache p = Some entry \<and> cen_key entry = node_key n \<and> cen_members entry = metas \<and> h = cen_hash entry \<and> sc_cache s' = Ok cache) \<or>
     h = material_digest H n found \<and>
     sc_cache s' = Ok (cache(p \<mapsto> \<lparr>cen_key = node_key n, cen_members = metas, cen_hash = material_digest H n found\<rparr>))"
    "sc_time s' = Suc (sc_time s)"
proof -
  obtain n metas found cache where run: "se_files F (sc_time s) p = Ok n" "model_files n = Ok (metas, found)" "sc_cache s = Ok cache"
  proof -
    obtain n where n: "se_files F (sc_time s) p = Ok n" using assms by (auto simp: hash_model_def sbind_Ok access_def)
    moreover obtain mf where "model_files n = Ok mf"
      using assms n by (cases "model_files n") (auto simp: hash_model_def sbind_Ok access_def)
    moreover obtain cache where "sc_cache s = Ok cache"
      using assms n calculation(2) by (cases "sc_cache s"; cases mf) (auto simp: hash_model_def sbind_Ok access_def)
    ultimately show thesis using that by (cases mf) simp
  qed
  show thesis
  proof (rule that [OF run])
    show "sc_time s' = Suc (sc_time s)"
      using assms run by (auto simp: hash_model_def sbind_Ok access_def save_cache_def Let_def split: option.splits if_splits)
    show "(\<exists>entry. cache p = Some entry \<and> cen_key entry = node_key n \<and> cen_members entry = metas \<and> h = cen_hash entry \<and> sc_cache s' = Ok cache) \<or>
     h = material_digest H n found \<and>
     sc_cache s' = Ok (cache(p \<mapsto> \<lparr>cen_key = node_key n, cen_members = metas, cen_hash = material_digest H n found\<rparr>))"
      using assms run
      by (cases "cache p") (auto simp: hash_model_def sbind_Ok access_def save_cache_def Let_def split: option.splits if_splits)
  qed
qed

lemma hash_model_sound:
  assumes "metadata_determines_content H F" "scan_ok H F s" "hash_model H F p s = (Ok h, s')"
  shows "has_digest H F (sc_time s) p h" "scan_ok H F s'" "sc_time s' = Suc (sc_time s)"
proof -
  obtain n metas found cache where run: "se_files F (sc_time s) p = Ok n" "model_files n = Ok (metas, found)" "sc_cache s = Ok cache"
    "(\<exists>entry. cache p = Some entry \<and> cen_key entry = node_key n \<and> cen_members entry = metas \<and> h = cen_hash entry \<and> sc_cache s' = Ok cache) \<or>
     h = material_digest H n found \<and>
     sc_cache s' = Ok (cache(p \<mapsto> \<lparr>cen_key = node_key n, cen_members = metas, cen_hash = material_digest H n found\<rparr>))"
    "sc_time s' = Suc (sc_time s)"
    by (rule hash_model_cases [OF assms(3)])
  have true: "truthful H F cache" using assms(2) run(3) by (simp add: scan_ok_def)
  have "h = material_digest H n found"
    using run(4) true [unfolded truthful_def, rule_format, of p _ "sc_time s" n metas found] run(1,2) by blast
  then show "has_digest H F (sc_time s) p h" using run(1,2) by (auto simp: has_digest_def)
  show "scan_ok H F s'" using run(4) true truthful_insert [OF assms(1) true run(1,2)] by (auto simp: scan_ok_def)
  show "sc_time s' = Suc (sc_time s)" by (rule run(5))
qed

text \<open>An asset whose digest was taken: the snapshot describes the material the digest is of.\<close>

definition taken :: "'c sha_libs \<Rightarrow> model_libs \<Rightarrow> scan_env \<Rightarrow> PoolConfig \<Rightarrow> path \<Rightarrow> ContentHash \<Rightarrow> AssetSnapshot \<Rightarrow> bool" where
  "taken H L F pool p h snapshot \<longleftrightarrow>
     as_path snapshot = p \<and>
     (\<exists>t. has_digest H F t p h \<and> rbind (se_files F t p) snapshot_of = Ok (as_snapshot snapshot)) \<and>
     (\<forall>expected. map_of (pc_expected_hashes pool) p = Some expected \<longrightarrow> ml_hash_parse L expected = Some h)"

lemma hash_and_check_sound:
  assumes "metadata_determines_content H F" "scan_ok H F s" "hash_and_check H L F pool p s = (Ok h, s')"
  shows "has_digest H F (sc_time s) p h" "scan_ok H F s'" "sc_time s' = Suc (sc_time s)"
    "\<forall>expected. map_of (pc_expected_hashes pool) p = Some expected \<longrightarrow> ml_hash_parse L expected = Some h"
proof -
  have run: "hash_model H F p s = (Ok h, s') \<and>
      (\<forall>expected. map_of (pc_expected_hashes pool) p = Some expected \<longrightarrow> ml_hash_parse L expected = Some h)"
    using assms(3) unfolding hash_and_check_def sbind_Ok
    by (cases "map_of (pc_expected_hashes pool) p") (auto split: option.splits if_splits)
  then show "\<forall>expected. map_of (pc_expected_hashes pool) p = Some expected \<longrightarrow> ml_hash_parse L expected = Some h" ..
  show "has_digest H F (sc_time s) p h" "scan_ok H F s'" "sc_time s' = Suc (sc_time s)"
    using hash_model_sound [OF assms(1,2) conjunct1 [OF run]] by simp_all
qed

lemma snapshot_read_Ok:
  "ModelSnapshot_read F p s = (Ok snapshot, s') \<longleftrightarrow>
     rbind (se_files F (sc_time s) p) snapshot_of = Ok snapshot \<and> s' = s\<lparr>sc_time := Suc (sc_time s)\<rparr>"
  by (auto simp: ModelSnapshot_read_def sbind_Ok access_def rbind_eq_Ok)

lemma hash_and_snapshot_sound:
  assumes "metadata_determines_content H F" "metadata_never_returns F" "scan_ok H F s"
    and "hash_and_snapshot H L F pool p s = (Ok (h, snapshot), s')"
  shows "taken H L F pool p h snapshot" "scan_ok H F s'"
proof -
  let ?s1 = "s\<lparr>sc_time := Suc (sc_time s)\<rparr>"
  obtain s2 where run: "rbind (se_files F (sc_time s) p) snapshot_of = Ok (as_snapshot snapshot)"
    "hash_and_check H L F pool p ?s1 = (Ok h, s2)" "as_path snapshot = p"
    "rbind (se_files F (sc_time s2) p) snapshot_of = Ok (as_snapshot snapshot)" "s' = s2\<lparr>sc_time := Suc (sc_time s2)\<rparr>"
    using assms(4) by (auto simp: hash_and_snapshot_def sbind_Ok snapshot_read_Ok split: if_splits)
  have ok: "scan_ok H F ?s1" using assms(3) by (simp add: scan_ok_def)
  note sound = hash_and_check_sound [OF assms(1) ok run(2)]
  have "rbind (se_files F (Suc (sc_time s)) p) snapshot_of = Ok (as_snapshot snapshot)"
    using assms(2) [unfolded metadata_never_returns_def, rule_format, of "sc_time s" "Suc (sc_time s)" "sc_time s2" p "as_snapshot snapshot"]
      run(1,4) sound(3) by simp
  then show "taken H L F pool p h snapshot" using sound(1,4) run(3) by (auto simp: taken_def)
  show "scan_ok H F s'" using sound(2) run(5) by (simp add: scan_ok_def)
qed

section \<open>The scan takes every asset\<close>

text \<open>An asset of a scanned model: its hash was taken, and its snapshot is among those kept.\<close>

abbreviation kept :: "'c sha_libs \<Rightarrow> model_libs \<Rightarrow> scan_env \<Rightarrow> PoolConfig \<Rightarrow> AssetSnapshot list \<Rightarrow> path \<Rightarrow> ContentHash \<Rightarrow> bool" where
  "kept H L F pool snapshots p h \<equiv> \<exists>snapshot \<in> set snapshots. taken H L F pool p h snapshot"

lemma scan_assets_sound:
  assumes "metadata_determines_content H F" "metadata_never_returns F" "scan_ok H F s" "distinct (map fst todo)"
    and "scan_assets H L F pool todo assets snapshots s = (Ok (assets', snapshots'), s')"
  shows "scan_ok H F s' \<and> set snapshots \<subseteq> set snapshots' \<and> (\<forall>role. role \<notin> fst ` set todo \<longrightarrow> assets' role = assets role) \<and>
    (\<forall>(role, p) \<in> set todo. \<exists>h. assets' role = Some h \<and> kept H L F pool snapshots' p h)"
  using assms(3-5)
proof (induction todo arbitrary: assets snapshots s)
  case (Cons x todo)
  obtain role p where x: "x = (role, p)" by fastforce
  obtain h snapshot s1 where step: "hash_and_snapshot H L F pool p s = (Ok (h, snapshot), s1)"
    "scan_assets H L F pool todo (assets(role \<mapsto> h)) (snapshots @ [snapshot]) s1 = (Ok (assets', snapshots'), s')"
    using Cons.prems(3) by (auto simp: x sbind_Ok)
  note sound = hash_and_snapshot_sound [OF assms(1,2) Cons.prems(1) step(1)]
  note rest = Cons.IH [OF sound(2) _ step(2)]
  have fresh: "role \<notin> fst ` set todo" "distinct (map fst todo)" using Cons.prems(2) by (auto simp: x)
  have "assets' role = Some h" "snapshot \<in> set snapshots'" using rest fresh by auto
  then show ?case using rest fresh sound(1) by (auto simp: x)
qed simp

lemma scan_loras_sound:
  assumes "metadata_determines_content H F" "metadata_never_returns F" "scan_ok H F s"
    and "scan_loras H L F pool todo defaults snapshots s = (Ok (defaults', snapshots'), s')"
    and "\<forall>l \<in> set defaults. kept H L F pool snapshots (clp_path l) (clp_sha256 l)"
  shows "scan_ok H F s' \<and> set snapshots \<subseteq> set snapshots' \<and>
    (\<forall>l \<in> set defaults'. kept H L F pool snapshots' (clp_path l) (clp_sha256 l))"
  using assms(3-5)
proof (induction todo arbitrary: defaults snapshots s)
  case (Cons lora todo)
  let ?new = "\<lambda>h. \<lparr>clp_sha256 = h, clp_scale = cl_scale lora, clp_path = cl_path lora\<rparr>"
  obtain h snapshot s1 where step: "hash_and_snapshot H L F pool (cl_path lora) s = (Ok (h, snapshot), s1)"
    "scan_loras H L F pool todo (defaults @ [?new h]) (snapshots @ [snapshot]) s1 = (Ok (defaults', snapshots'), s')"
    using Cons.prems(2) by (auto simp: sbind_Ok split: if_splits)
  note sound = hash_and_snapshot_sound [OF assms(1,2) Cons.prems(1) step(1)]
  have "\<forall>l \<in> set (defaults @ [?new h]). kept H L F pool (snapshots @ [snapshot]) (clp_path l) (clp_sha256 l)"
    using Cons.prems(3) sound(1) by auto
  then show ?case using Cons.IH [OF sound(2) step(2)] by auto
qed simp

definition scanned :: "'c sha_libs \<Rightarrow> model_libs \<Rightarrow> scan_env \<Rightarrow> PoolConfig \<Rightarrow> ConfiguredModel \<Rightarrow> bool" where
  "scanned H L F pool m \<longleftrightarrow>
     canonical_hash (ml_manifest_to_vec L) (sl_sha256 H) (cm_manifest m) = Some (cm_manifest_hash m) \<and>
     (\<forall>(role, p) \<in> set (cm_asset_paths m). \<exists>h. mm_assets (cm_manifest m) role = Some h \<and> kept H L F pool (cm_snapshots m) p h) \<and>
     map lora_sha256 (mm_default_loras (cm_manifest m)) = map clp_sha256 (cm_default_lora_paths m) \<and>
     (\<forall>l \<in> set (cm_default_lora_paths m). kept H L F pool (cm_snapshots m) (clp_path l) (clp_sha256 l))"

lemma scan_one_model_sound:
  assumes "metadata_determines_content H F" "metadata_never_returns F" "scan_ok H F s" "distinct (map fst (mc_assets configured))"
    and "scan_one_model H L F pool configured s = (Ok m, s')"
  shows "scanned H L F pool m" "scan_ok H F s'"
proof -
  obtain assets snaps defaults snapshots s1 where run:
    "scan_assets H L F pool (mc_assets configured) (\<lambda>_. None) [] s = (Ok (assets, snaps), s1)"
    "scan_loras H L F pool (mc_default_loras configured) [] snaps s1 = (Ok (defaults, snapshots), s')"
    "canonical_hash (ml_manifest_to_vec L) (sl_sha256 H) (cm_manifest m) = Some (cm_manifest_hash m)"
    "mm_assets (cm_manifest m) = assets" "cm_asset_paths m = mc_assets configured" "cm_default_lora_paths m = defaults"
    "map lora_sha256 (mm_default_loras (cm_manifest m)) = map clp_sha256 defaults" "cm_snapshots m = snapshots"
    using assms(5) by (auto simp: scan_one_model_def sbind_Ok Let_def split: option.splits)
  note assets = scan_assets_sound [OF assms(1-4) run(1)]
  note loras = scan_loras_sound [OF assms(1,2) _ run(2)]
  show "scan_ok H F s'" using assets loras by simp
  have "kept H L F pool snapshots p h" if "kept H L F pool snaps p h" for p h
    using that assets loras by auto
  then show "scanned H L F pool m" using run(3-8) assets loras by (fastforce simp: scanned_def)
qed

lemma scan_each_sound:
  assumes "metadata_determines_content H F" "metadata_never_returns F" "scan_ok H F s"
    and "list_all (\<lambda>c. distinct (map fst (mc_assets c))) todo" "list_all (scanned H L F pool) models"
    and "scan_each H L F pool todo models s = (Ok models', s')"
  shows "list_all (scanned H L F pool) models' \<and> scan_ok H F s' \<and>
    (distinct (map cm_manifest_hash models) \<longrightarrow> distinct (map cm_manifest_hash models'))"
  using assms(3-6)
proof (induction todo arbitrary: models s)
  case (Cons configured todo)
  obtain m s1 where step: "scan_one_model H L F pool configured s = (Ok m, s1)" "cm_manifest_hash m \<notin> set (map cm_manifest_hash models)"
    "scan_each H L F pool todo (models @ [m]) s1 = (Ok models', s')"
    using Cons.prems(4) by (auto simp: sbind_Ok split: if_splits)
  note sound = scan_one_model_sound [OF assms(1,2) Cons.prems(1) _ step(1)]
  show ?case using Cons.IH [OF _ _ _ step(3)] Cons.prems(2,3) sound step(2) by auto
qed simp

lemma scan_extra_loras_sound:
  assumes "metadata_determines_content H F" "metadata_never_returns F" "scan_ok H F s"
    and "scan_extra_loras H L F pool todo extra s = (Ok extra', s')"
    and "\<forall>(h, l) \<in> set extra. taken H L F pool (cel_path l) h (cel_snapshot l)"
  shows "scan_ok H F s' \<and> (\<forall>(h, l) \<in> set extra'. taken H L F pool (cel_path l) h (cel_snapshot l))"
  using assms(3-5)
proof (induction todo arbitrary: extra s)
  case (Cons p todo)
  obtain h snapshot s1 where step: "hash_and_snapshot H L F pool p s = (Ok (h, snapshot), s1)"
    "scan_extra_loras H L F pool todo (extra @ [(h, \<lparr>cel_path = p, cel_snapshot = snapshot\<rparr>)]) s1 = (Ok extra', s')"
    using Cons.prems(2) by (auto simp: sbind_Ok split: if_splits)
  note sound = hash_and_snapshot_sound [OF assms(1,2) Cons.prems(1) step(1)]
  show ?case using Cons.IH [OF sound(2) step(2)] Cons.prems(3) sound(1) by auto
qed simp

text \<open>While a snapshot verifies, the material still has the digest that was taken.\<close>

lemma taken_current:
  assumes "metadata_determines_content H F" "taken H L F pool p h snapshot" "AssetSnapshot_verify (se_files F now) snapshot = Ok ()"
  shows "has_digest H F now p h"
proof -
  obtain t n metas found where t: "se_files F t p = Ok n" "model_files n = Ok (metas, found)" "h = material_digest H n found"
    "as_snapshot snapshot = \<lparr>ms_key = node_key n, ms_members = metas\<rparr>" "as_path snapshot = p"
    using assms(2) by (auto simp: taken_def has_digest_def rbind_eq_Ok snapshot_of_def)
  obtain n' found' where n': "se_files F now p = Ok n'" "model_files n' = Ok (metas, found')" "node_key n' = node_key n"
    using assms(3) t(4,5) by (auto simp: AssetSnapshot_verify_def snapshot_of_def rbind_eq_Ok split: if_splits)
  then show ?thesis
    using assms(1) [unfolded metadata_determines_content_def, rule_format, of t p n now n' metas found found'] t
    by (auto simp: has_digest_def)
qed

lemma kept_current:
  assumes "metadata_determines_content H F" "verify_assets (se_files F now) m = Ok ()" "kept H L F pool (cm_snapshots m) p h"
  shows "has_digest H F now p h"
  using assms taken_current by (fastforce simp: verify_assets_def each_Ok_iff)

definition example_hasher :: "u8 list sha_libs" where
  "example_hasher = \<lparr>sl_sha256 = (\<lambda>b. take 32 (b @ replicate 32 0)), sl_new = [], sl_update = (@),
     sl_finalize = (\<lambda>b. take 32 (b @ replicate 32 0))\<rparr>"

lemma example_hasher_laws: "sha_laws example_hasher"
proof -
  have "foldl (@) c chunks = c @ concat chunks" for c :: "u8 list" and chunks
    by (induction chunks arbitrary: c) simp_all
  then show ?thesis by (auto simp: sha_laws_def sha256_laws_def example_hasher_def min_def)
qed

definition example_file :: node where
  "example_file = FileNode \<lparr>ck_size = 2, ck_mtime_unix_nanos = 5, ck_file_id = ''1:2'', ck_directory = False\<rparr> [1, 2]"

definition example_files :: scan_env where
  "example_files = \<lparr>se_files = (\<lambda>t p. Ok example_file), se_save_error = (\<lambda>t. None)\<rparr>"

definition example_libs :: model_libs where
  "example_libs = \<lparr>ml_hash_parse = (\<lambda>s. None), ml_manifest_to_vec = (\<lambda>m. Some [])\<rparr>"

definition example_model_config :: ModelConfig where
  "example_model_config = \<lparr>mc_family = QwenImage21, mc_assets = [(Diffusion, ''/d'')], mc_default_loras = [], mc_sampling = None\<rparr>"

definition example_pool_config :: PoolConfig where
  "example_pool_config = \<lparr>pc_key = ''pool-0'', pc_backend = ''cuda0'', pc_listen = ''127.0.0.1:1'', pc_state_dir = ''/s'',
     pc_startup_timeout = 60,
     pc_runtime = \<lparr>rc_params_backend = None, rc_max_vram = None, rc_threads = 1, rc_vae_tiling = False, rc_model_args = [],
       rc_module_backends = []\<rparr>,
     pc_shape = WorkerShapeLimits_default, pc_models = [example_model_config], pc_extra_image_loras = [],
     pc_expected_hashes = [], pc_env = []\<rparr>"

definition example_scan :: scan where
  "example_scan = \<lparr>sc_time = 0, sc_cache = Ok (\<lambda>_. None)\<rparr>"

lemma example_file_laws:
  "metadata_determines_content example_hasher example_files" "metadata_never_returns example_files" "scan_ok example_hasher example_files example_scan"
  by (simp_all add: metadata_determines_content_def metadata_never_returns_def scan_ok_def truthful_def example_files_def example_scan_def)
    (auto simp: example_file_def model_files_def)

lemma example_scanned:
  obtains m s' where
    "scan_models example_hasher example_libs example_files example_pool_config example_scan = (Ok ([m], []), s')"
    "cm_asset_paths m = [(Diffusion, ''/d'')]" "verify_assets (se_files example_files 9) m = Ok ()"
proof -
  obtain m s' where m: "scan_models example_hasher example_libs example_files example_pool_config example_scan = (Ok ([m], []), s')"
    "cm_asset_paths m = [(Diffusion, ''/d'')]"
    "cm_snapshots m = [\<lparr>as_path = ''/d'', as_snapshot = \<lparr>ms_key = node_key example_file, ms_members = []\<rparr>\<rparr>]"
    by (simp add: scan_models_def example_pool_config_def example_model_config_def sbind_def scan_one_model_def Let_def
        hash_and_snapshot_def ModelSnapshot_read_def access_def example_files_def hash_and_check_def hash_model_def
        example_scan_def example_file_def model_files_def snapshot_of_def rbind_def save_cache_def example_libs_def canonical_hash_def)
  then show ?thesis using that
    by (simp add: verify_assets_def AssetSnapshot_verify_def snapshot_of_def example_files_def example_file_def model_files_def rbind_def)
qed

section \<open>Properties\<close>

text \<open>C0: The digest of a model directory identifies its files. Two directories with the same digest
  have the same relative paths with the same contents in the same order, unless two different
  texts have the same SHA-256: names and contents are framed by their lengths, so no file can
  pose as part of another.\<close>

theorem directory_digest_unambiguous:
  assumes "sha_laws H" "digest_directory H a = digest_directory H b"
    and "list_all (\<lambda>(name, content). length name < 2 ^ 64 \<and> length content < 2 ^ 64) (a @ b)"
  shows "a = b \<or> (\<exists>x y. x \<noteq> y \<and> sl_sha256 H x = sl_sha256 H y)"
proof (cases "concat (map frame a) = concat (map frame b)")
  case True
  then show ?thesis using frames_inj assms(3) by blast
next
  case False
  then have "directory_tag @ concat (map frame a) \<noteq> directory_tag @ concat (map frame b)" by simp
  moreover have "sl_sha256 H (directory_tag @ concat (map frame a)) = sl_sha256 H (directory_tag @ concat (map frame b))"
    using assms(1,2) by (simp add: digest_directory_eq digest_def)
  ultimately show ?thesis by (intro disjI2 exI conjI)
qed

theorem directory_digest_unambiguous_witness:
  "digest_directory example_hasher [(''a'', [1]), (''b'', [])] = digest_directory example_hasher [(''a'', [1]), (''b'', [])] \<and>
   ([(''a'', [1]), (''b'', [])] = [(''a'', [1 :: u8]), (''b'', [])] \<or>
    (\<exists>x y. x \<noteq> y \<and> sl_sha256 example_hasher x = sl_sha256 example_hasher y))"
  using directory_digest_unambiguous [OF example_hasher_laws refl, of "[(''a'', [1]), (''b'', [])]"] by simp

text \<open>C0: What a Worker runs is what it advertised. The scan of a Pool gives models with distinct
  canonical hashes, every asset hash is the digest of the file found at its configured path, and
  equals the configured expectation where there is one, also when it comes from the cache; the
  cache stays truthful. Whenever the check before an Attempt passes, the files still have these
  digests. The metadata of files are assumed to change with their content and not to come back.\<close>

theorem advertised_material_current:
  assumes "metadata_determines_content H F" "metadata_never_returns F" "scan_ok H F s"
    and "list_all (\<lambda>c. distinct (map fst (mc_assets c))) (pc_models pool)"
    and "scan_models H L F pool s = (Ok (models, extra), s')" "m \<in> set models"
    and "verify_assets (se_files F now) m = Ok ()" "(role, p) \<in> set (cm_asset_paths m)"
  shows "distinct (map cm_manifest_hash models) \<and> scan_ok H F s' \<and>
    canonical_hash (ml_manifest_to_vec L) (sl_sha256 H) (cm_manifest m) = Some (cm_manifest_hash m) \<and>
    (\<exists>h. mm_assets (cm_manifest m) role = Some h \<and> has_digest H F now p h \<and>
       (\<forall>expected. map_of (pc_expected_hashes pool) p = Some expected \<longrightarrow> ml_hash_parse L expected = Some h))"
proof -
  obtain s1 where run: "scan_each H L F pool (pc_models pool) [] s = (Ok models, s1)"
    "scan_extra_loras H L F pool (pc_extra_image_loras pool) [] s1 = (Ok extra, s')"
    using assms(5) by (auto simp: scan_models_def sbind_Ok)
  note each = scan_each_sound [OF assms(1-4) _ run(1)]
  have m: "scanned H L F pool m" using each assms(6) by (auto simp: list_all_iff)
  then obtain h where h: "mm_assets (cm_manifest m) role = Some h" "kept H L F pool (cm_snapshots m) p h"
    using assms(8) unfolding scanned_def by fastforce
  have "scan_ok H F s'" using scan_extra_loras_sound [OF assms(1,2) _ run(2)] each by simp
  then show ?thesis
    using each m h kept_current [OF assms(1,7) h(2)] by (auto simp: scanned_def taken_def)
qed

theorem advertised_material_current_witness:
  "\<exists>m. fst (scan_models example_hasher example_libs example_files example_pool_config example_scan) = Ok ([m], []) \<and>
     (\<exists>h. mm_assets (cm_manifest m) Diffusion = Some h \<and> has_digest example_hasher example_files 9 ''/d'' h)"
proof -
  from example_scanned obtain m s' where
    m: "scan_models example_hasher example_libs example_files example_pool_config example_scan = (Ok ([m], []), s')"
    "cm_asset_paths m = [(Diffusion, ''/d'')]" "verify_assets (se_files example_files 9) m = Ok ()" .
  then show ?thesis
    using advertised_material_current [OF example_file_laws, of example_pool_config example_libs "[m]" "[]" s' m 9 Diffusion "''/d''"]
    by (simp add: example_pool_config_def example_model_config_def)
qed

end
