(* ===== verification/Worker_Pool.thy ===== *)
theory Worker_Pool
  imports Worker_Models Domain_State Wire
begin

text \<open>
  The supervision of Device Pools, \<^verbatim>\<open>gpq-worker/src/pool.rs\<close>. A Pool owns one managed inference
  child and one execution slot. Its operations run one at a time under the Pool's lock, but
  while they wait (for the child to start, to answer or to exit) a finished Attempt may
  drop its slot lease, and the task that runs the operation may be aborted. An operation
  therefore takes, for every wait, the leases dropped meanwhile and the answer, where no answer
  means that the task was dropped at that point; its result is then absent.
\<close>

section \<open>State\<close>

type_synonym instant = nat

record BackendError =
  be_kind :: FailureKind
  be_message :: string
  be_retry_hint :: bool

record BackendCapabilities =
  bc_version :: string
  bc_accelerator :: string
  bc_accelerator_version :: string
  bc_probes :: "(string \<times> bool) list"

record PoolState =
  ps_process :: "ManagedProcess option"
  ps_backend :: "string option"
  ps_ready :: bool
  ps_unready_reason :: "string option"
  ps_slots_total :: u32
  ps_slots_free :: u32
  ps_restart_requested :: bool
  ps_termination_pending :: bool
  ps_busy :: "AttemptId list"
  ps_accelerator :: string
  ps_accelerator_version :: string
  ps_backend_version :: string
  ps_probes :: "(string \<times> bool) list"
  ps_last_activity :: instant

definition not_yet_started :: "instant \<Rightarrow> PoolState" where
  "not_yet_started now =
     \<lparr>ps_process = None, ps_backend = None, ps_ready = False, ps_unready_reason = Some ''not yet started'',
      ps_slots_total = 0, ps_slots_free = 0, ps_restart_requested = False, ps_termination_pending = False, ps_busy = [],
      ps_accelerator = [], ps_accelerator_version = [], ps_backend_version = [], ps_probes = [], ps_last_activity = now\<rparr>"

definition try_acquire :: "AttemptId \<Rightarrow> instant \<Rightarrow> PoolState \<Rightarrow> bool \<times> PoolState" where
  "try_acquire attempt now s =
     (if \<not> ps_ready s \<or> ps_slots_free s = 0 then (False, s)
      else (True, s\<lparr>ps_slots_free := 0, ps_busy := ps_busy s @ [attempt], ps_last_activity := now\<rparr>))"

definition release :: "AttemptId \<Rightarrow> instant \<Rightarrow> PoolState \<Rightarrow> PoolState" where
  "release attempt now s =
     (let busy = filter (\<lambda>i. i \<noteq> attempt) (ps_busy s);
          s1 = s\<lparr>ps_busy := busy\<rparr>;
          s2 = (if length busy < length (ps_busy s)
                then s1\<lparr>ps_slots_free := (if ps_ready s then ps_slots_total s else 0)\<rparr> else s1)
      in s2\<lparr>ps_last_activity := now\<rparr>)"

record PoolEntry =
  pe_config :: PoolConfig
  pe_models :: "ConfiguredModel list"
  pe_image_loras :: "(ContentHash \<times> ConfiguredExtraLora) list"

text \<open>A running Pool: its state, the process trees the host still has for it, and how often its
  watchers were told to look again.\<close>

record pool_run =
  pr_state :: PoolState
  pr_trees :: "u32 list"
  pr_changes :: nat

definition on_state :: "(PoolState \<Rightarrow> PoolState) \<Rightarrow> pool_run \<Rightarrow> pool_run" where
  "on_state f r = r\<lparr>pr_state := f (pr_state r)\<rparr>"

definition notify :: "pool_run \<Rightarrow> pool_run" where
  "notify r = r\<lparr>pr_changes := Suc (pr_changes r)\<rparr>"

definition drop_lease :: "AttemptId \<times> instant \<Rightarrow> pool_run \<Rightarrow> pool_run" where
  "drop_lease = (\<lambda>(attempt, now) r. notify (on_state (release attempt now) r))"

type_synonym drops = "(AttemptId \<times> instant) list"

definition meanwhile :: "drops \<Rightarrow> pool_run \<Rightarrow> pool_run" where
  "meanwhile ds r = fold drop_lease ds r"

abbreviation unready :: "string \<Rightarrow> PoolState \<Rightarrow> PoolState" where
  "unready reason s \<equiv> s\<lparr>ps_backend := None, ps_ready := False, ps_unready_reason := Some reason,
     ps_slots_total := 0, ps_slots_free := 0, ps_probes := []\<rparr>"

section \<open>Terminating the child\<close>

definition unready_reason :: "(string \<times> bool) list \<Rightarrow> string" where
  "unready_reason probes =
     (let missing = map fst (filter (\<lambda>(_, passed). \<not> passed) probes) in
      if missing = [] then ''native inference child is not ready''
      else ''native inference child failed probes: '' @ concat (hd missing # map (\<lambda>m. '', '' @ m) (tl missing)))"

definition internal_error :: "string \<Rightarrow> BackendError" where
  "internal_error message = \<lparr>be_kind = FailureKind.Internal, be_message = message, be_retry_hint = False\<rparr>"

definition crashed :: "string \<Rightarrow> bool \<Rightarrow> BackendError" where
  "crashed message hint = \<lparr>be_kind = FailureKind.BackendCrashed, be_message = message, be_retry_hint = hint\<rparr>"

definition mark_unready :: "string \<Rightarrow> pool_run \<Rightarrow> pool_run" where
  "mark_unready reason r =
     notify (on_state (\<lambda>s. unready reason (s\<lparr>ps_process := None, ps_busy := [], ps_termination_pending := False\<rparr>)) r)"

definition restore :: "ManagedProcess \<Rightarrow> bool \<Rightarrow> pool_run \<Rightarrow> pool_run" where
  "restore process interrupted r =
     notify (on_state (\<lambda>s. s\<lparr>ps_process := Some process, ps_termination_pending := True, ps_backend := None, ps_ready := False,
       ps_unready_reason := (if interrupted then Some ''native inference child tree cleanup interrupted; verification pending''
                             else ps_unready_reason s),
       ps_slots_total := 0, ps_slots_free := 0, ps_probes := []\<rparr>) r)"

record terminate_input =
  te_drops :: drops
  te_result :: "(string + unit) option"

definition terminate_managed_process ::
  "ManagedProcess \<Rightarrow> string \<Rightarrow> terminate_input \<Rightarrow> pool_run \<Rightarrow> bool option \<times> pool_run" where
  "terminate_managed_process process reason inp r =
     (let r1 = meanwhile (te_drops inp) r in
      case te_result inp of
        None \<Rightarrow> (None, restore process True r1)
      | Some (Ok _) \<Rightarrow>
          (Some True, mark_unready reason (on_state (\<lambda>s. s\<lparr>ps_termination_pending := False\<rparr>)
             (r1\<lparr>pr_trees := remove1 (pi_pid (mp_identity process)) (pr_trees r1)\<rparr>)))
      | Some (Err e) \<Rightarrow>
          (Some False, restore process False
             (on_state (\<lambda>s. unready (''native inference child tree cleanup failed: '' @ e) (s\<lparr>ps_termination_pending := True\<rparr>)) r1)))"

section \<open>Starting the child\<close>

datatype probe_outcome = Answered BackendCapabilities | ProbeFailed BackendError | ProbeTimedOut

record probe_round =
  rd_drops :: drops
  rd_outcome :: probe_outcome
  rd_at :: instant

record start_input =
  si_token :: string
  si_build_error :: "string option"
  si_executable :: "string + path"
  si_spawn_drops :: drops
  si_spawn :: "(string + u32) option"
  si_identity_drops :: drops
  si_identity :: "(identity_codec \<times> string option \<times> host) option"
  si_began :: instant
  si_rounds :: "probe_round list"
  si_debug :: "duration \<Rightarrow> string"

definition PROCESS_IDENTITY_FILE :: string where
  "PROCESS_IDENTITY_FILE = ''process-identity.json''"

definition identity_path :: "PoolEntry \<Rightarrow> path" where
  "identity_path entry = pc_state_dir (pe_config entry) @ ''/'' @ PROCESS_IDENTITY_FILE"

text \<open>The spawned child belongs to the Pool before anything else is done with it.\<close>

definition own_child :: "PoolEntry \<Rightarrow> path \<Rightarrow> u32 \<Rightarrow> pool_run \<Rightarrow> pool_run" where
  "own_child entry executable pid r =
     notify (on_state (\<lambda>s. s\<lparr>ps_process := Some (spawned_process pid executable (identity_path entry)),
         ps_termination_pending := True,
         ps_unready_reason := Some ''native inference child readiness probe pending''\<rparr>)
       (r\<lparr>pr_trees := pid # pr_trees r\<rparr>))"

definition start_infer_child ::
  "PoolEntry \<Rightarrow> path \<Rightarrow> start_input \<Rightarrow> pool_run \<Rightarrow> (BackendError + unit) option \<times> pool_run" where
  "start_infer_child entry executable inp r =
     (let r1 = meanwhile (si_spawn_drops inp) r in
      case si_spawn inp of
        None \<Rightarrow> (None, r1)
      | Some (Err e) \<Rightarrow> (Some (Err (crashed e True)), r1)
      | Some (Ok pid) \<Rightarrow>
          let r2 = meanwhile (si_identity_drops inp) (own_child entry executable pid r1)
          in case si_identity inp of
               None \<Rightarrow> (None, r2)
             | Some (J, failure, h) \<Rightarrow>
                 (case fst (record_identity_file J pid executable (identity_path entry) failure h) of
                    Err e \<Rightarrow> (Some (Err (crashed e True)), notify (on_state (\<lambda>s. s\<lparr>ps_unready_reason := Some e\<rparr>) r2))
                  | Ok identity \<Rightarrow>
                      (Some (Ok ()), on_state (\<lambda>s. s\<lparr>ps_process := map_option (set_identity identity) (ps_process s)\<rparr>) r2)))"

definition all_passed :: "BackendCapabilities \<Rightarrow> bool" where
  "all_passed caps \<longleftrightarrow> list_all snd (bc_probes caps)"

definition probe_done :: "string \<Rightarrow> BackendCapabilities \<Rightarrow> instant \<Rightarrow> pool_run \<Rightarrow> (BackendError + unit) option \<times> pool_run" where
  "probe_done backend caps now r =
     (let ready = all_passed caps in
      (Some (Ok ()), notify (on_state (\<lambda>s. s\<lparr>ps_restart_requested := False, ps_termination_pending := False,
         ps_backend := Some backend, ps_ready := ready,
         ps_unready_reason := (if ready then None else Some (unready_reason (bc_probes caps))),
         ps_slots_total := of_bool ready, ps_slots_free := of_bool ready, ps_busy := [],
         ps_accelerator := bc_accelerator caps, ps_accelerator_version := bc_accelerator_version caps,
         ps_backend_version := bc_version caps, ps_probes := bc_probes caps, ps_last_activity := now\<rparr>) r)))"

definition probe_error :: "BackendError \<Rightarrow> pool_run \<Rightarrow> (BackendError + unit) option \<times> pool_run" where
  "probe_error e r = (Some (Err e), notify (on_state (\<lambda>s. s\<lparr>ps_unready_reason := Some (be_message e)\<rparr>) r))"

text \<open>The list of rounds ends where the task is dropped.\<close>

fun probe_rounds ::
  "string \<Rightarrow> string \<Rightarrow> instant \<Rightarrow> BackendError option \<Rightarrow> probe_round list \<Rightarrow> pool_run \<Rightarrow>
   (BackendError + unit) option \<times> pool_run" where
  "probe_rounds backend timeout_text ready_by last_error [] r = (None, r)"
| "probe_rounds backend timeout_text ready_by last_error (rd # rounds) r =
     (let r1 = meanwhile (rd_drops rd) r in
      case rd_outcome rd of
        Answered caps \<Rightarrow>
          if all_passed caps \<or> rd_at rd \<ge> ready_by then probe_done backend caps (rd_at rd) r1
          else probe_rounds backend timeout_text ready_by last_error rounds r1
      | ProbeFailed e \<Rightarrow>
          if rd_at rd \<ge> ready_by then probe_error (case last_error of Some l \<Rightarrow> l | None \<Rightarrow> e) r1
          else probe_rounds backend timeout_text ready_by (Some e) rounds r1
      | ProbeTimedOut \<Rightarrow> probe_error (crashed (''native inference readiness exceeded '' @ timeout_text) True) r1)"

definition probe_pool_process :: "PoolEntry \<Rightarrow> start_input \<Rightarrow> pool_run \<Rightarrow> (BackendError + unit) option \<times> pool_run" where
  "probe_pool_process entry inp r =
     (let timeout = pc_startup_timeout (pe_config entry) in
      probe_rounds (si_token inp) (si_debug inp timeout) (si_began inp + timeout) None (si_rounds inp) r)"

definition begin_start :: "pool_run \<Rightarrow> pool_run" where
  "begin_start r = notify (on_state (\<lambda>s. unready ''native inference child startup pending''
     (s\<lparr>ps_restart_requested := True, ps_termination_pending := False\<rparr>)) r)"

definition start_pool_process :: "PoolEntry \<Rightarrow> start_input \<Rightarrow> pool_run \<Rightarrow> (BackendError + unit) option \<times> pool_run" where
  "start_pool_process entry inp r =
     (let r1 = begin_start r in
      case si_build_error inp of
        Some e \<Rightarrow> (Some (Err (crashed e True)), r1)
      | None \<Rightarrow>
          (case si_executable inp of
             Err e \<Rightarrow> (Some (Err (crashed (''resolving current executable: '' @ e) False)), r1)
           | Ok executable \<Rightarrow>
               (case start_infer_child entry executable inp r1 of
                  (Some (Ok _), r2) \<Rightarrow> probe_pool_process entry inp r2
                | (outcome, r2) \<Rightarrow> (outcome, r2))))"

section \<open>Operations of a Pool\<close>

record PoolAdvertisementData =
  pad_pool_key :: string
  pad_accelerator :: string
  pad_backend_version :: string
  pad_ready :: bool
  pad_unready_reason :: "string option"
  pad_slots_total :: u32
  pad_slots_busy :: "AttemptId list"
  pad_models :: "(ContentHash \<times> ModelManifest) list"
  pad_image_loras :: "ContentHash list"
  pad_shape_limits :: WorkerShapeLimits

definition advertisement :: "PoolEntry \<Rightarrow> pool_run \<Rightarrow> PoolAdvertisementData" where
  "advertisement entry r =
     (let s = pr_state r in
      \<lparr>pad_pool_key = pc_key (pe_config entry), pad_accelerator = ps_accelerator s, pad_backend_version = ps_backend_version s,
       pad_ready = ps_ready s, pad_unready_reason = ps_unready_reason s, pad_slots_total = ps_slots_total s,
       pad_slots_busy = ps_busy s, pad_models = map (\<lambda>m. (cm_manifest_hash m, cm_manifest m)) (pe_models entry),
       pad_image_loras = sort (map fst (pe_image_loras entry)), pad_shape_limits = pc_shape (pe_config entry)\<rparr>)"

record acquire_input =
  ai_files :: files
  ai_terminate :: terminate_input
  ai_start :: start_input
  ai_at :: instant

text \<open>The part of \<^verbatim>\<open>ensure_runtime_and_acquire_slot\<close> that replaces a child that is not ready.\<close>

definition begin_recovery :: "pool_run \<Rightarrow> pool_run" where
  "begin_recovery r = notify (on_state (\<lambda>s. unready ''native inference child recovery pending''
     (s\<lparr>ps_restart_requested := True, ps_termination_pending := (ps_process s \<noteq> None), ps_process := None\<rparr>)) r)"

definition stop_old_child :: "terminate_input \<Rightarrow> pool_run \<Rightarrow> bool option \<times> pool_run" where
  "stop_old_child inp r =
     (case ps_process (pr_state r) of
        None \<Rightarrow> (Some True, begin_recovery r)
      | Some process \<Rightarrow>
          terminate_managed_process process ''native inference child terminated for recovery'' inp (begin_recovery r))"

definition recover_runtime :: "PoolEntry \<Rightarrow> acquire_input \<Rightarrow> pool_run \<Rightarrow> (BackendError + unit) option \<times> pool_run" where
  "recover_runtime entry inp r =
     (case stop_old_child (ai_terminate inp) r of
        (None, r1) \<Rightarrow> (None, r1)
      | (Some False, r1) \<Rightarrow>
          (Some (Err (crashed (case ps_unready_reason (pr_state r1) of Some m \<Rightarrow> m | None \<Rightarrow> ''native child tree cleanup failed'') True)), r1)
      | (Some True, r1) \<Rightarrow>
          (case start_pool_process entry (ai_start inp) r1 of
             (Some (Ok _), r2) \<Rightarrow>
               if \<not> ps_ready (pr_state r2)
               then (Some (Err (crashed (case ps_unready_reason (pr_state r2) of Some m \<Rightarrow> m | None \<Rightarrow> ''native pool failed to become ready'') True)), r2)
               else (Some (Ok ()), r2)
           | (outcome, r2) \<Rightarrow> (outcome, r2)))"

definition take_slot :: "string \<Rightarrow> AttemptId \<Rightarrow> instant \<Rightarrow> pool_run \<Rightarrow> (BackendError + unit) option \<times> pool_run" where
  "take_slot key attempt now r =
     (case try_acquire attempt now (pr_state r) of
        (False, _) \<Rightarrow>
          (Some (Err \<lparr>be_kind = FailureKind.Internal,
             be_message = ''pool `'' @ key @ ''` has no free execution slot'', be_retry_hint = True\<rparr>), r)
      | (True, s) \<Rightarrow> (Some (Ok ()), notify (r\<lparr>pr_state := s\<rparr>)))"

definition ensure_runtime_and_acquire_slot ::
  "text_libs \<Rightarrow> PoolEntry \<Rightarrow> ContentHash \<Rightarrow> AttemptId \<Rightarrow> acquire_input \<Rightarrow> pool_run \<Rightarrow>
   (BackendError + unit) option \<times> pool_run" where
  "ensure_runtime_and_acquire_slot L entry version attempt inp r =
     (let key = pc_key (pe_config entry);
          missing = (\<lambda>message. (Some (Err \<lparr>be_kind = FailureKind.ModelUnavailable, be_message = message, be_retry_hint = False\<rparr>), r)) in
      case find (\<lambda>m. cm_manifest_hash m = version) (pe_models entry) of
        None \<Rightarrow> missing (''model '' @ print_hash L version @ '' is not registered on pool `'' @ key @ ''`'')
      | Some model \<Rightarrow>
          (case verify_assets (ai_files inp) model of
             Err e \<Rightarrow> missing (''model '' @ print_hash L version @ '' changed since advertisement: '' @ e)
           | Ok _ \<Rightarrow>
               let running = (ps_process (pr_state r) \<noteq> None \<and> ps_ready (pr_state r)) in
               if \<not> running \<and> ps_busy (pr_state r) \<noteq> []
               then (Some (Err (crashed (''pool `'' @ key @ ''` still owns an active attempt during recovery'') True)), r)
               else case (if running then (Some (Ok ()), r) else recover_runtime entry inp r) of
                      (Some (Ok _), r1) \<Rightarrow> take_slot key attempt (ai_at inp) r1
                    | (outcome, r1) \<Rightarrow> (outcome, r1)))"

definition IDLE_UNLOAD_AFTER :: duration where
  "IDLE_UNLOAD_AFTER = from_mins 5"

record idle_input =
  ii_drops :: drops
  ii_released :: "bool option"
  ii_terminate :: terminate_input

definition release_idle :: "instant \<Rightarrow> idle_input \<Rightarrow> pool_run \<Rightarrow> pool_run" where
  "release_idle now inp r =
     (let s = pr_state r in
      if \<not> (ps_process s \<noteq> None \<and> ps_busy s = [] \<and> now - ps_last_activity s \<ge> IDLE_UNLOAD_AFTER) then r
      else
        case (case ps_backend s of None \<Rightarrow> (Some False, r) | Some _ \<Rightarrow> (ii_released inp, meanwhile (ii_drops inp) r)) of
          (None, r1) \<Rightarrow> r1
        | (Some True, r1) \<Rightarrow> on_state (\<lambda>s. s\<lparr>ps_last_activity := now\<rparr>) r1
        | (Some False, r1) \<Rightarrow>
            let r2 = notify (on_state (\<lambda>s. unready ''idle: native inference child unloading''
                       (s\<lparr>ps_termination_pending := True, ps_process := None\<rparr>)) r1)
            in case ps_process (pr_state r1) of
                 None \<Rightarrow> r2
               | Some process \<Rightarrow>
                   snd (terminate_managed_process process ''idle: native inference child unloaded'' (ii_terminate inp) r2))"

definition force_reclaim :: "AttemptId \<Rightarrow> terminate_input \<Rightarrow> pool_run \<Rightarrow> pool_run" where
  "force_reclaim attempt inp r =
     (if attempt \<notin> set (ps_busy (pr_state r)) then r
      else case ps_process (pr_state r) of
             None \<Rightarrow> r
           | Some process \<Rightarrow>
               snd (terminate_managed_process process ''native inference child force-terminated'' inp
                 (notify (on_state (\<lambda>s. unready ''native inference child force-terminating''
                    (s\<lparr>ps_restart_requested := True, ps_termination_pending := True, ps_process := None\<rparr>)) r))))"

definition shutdown :: "terminate_input \<Rightarrow> pool_run \<Rightarrow> pool_run" where
  "shutdown inp r =
     (let process = ps_process (pr_state r);
          r1 = on_state (\<lambda>s. s\<lparr>ps_restart_requested := False, ps_termination_pending := False, ps_process := None\<rparr>) r
      in case process of
           None \<Rightarrow> mark_unready ''worker shutting down'' r1
         | Some p \<Rightarrow>
             (let r2 = meanwhile (te_drops inp) r1 in
              case te_result inp of
                None \<Rightarrow> r2
              | Some (Ok _) \<Rightarrow> mark_unready ''worker shutting down'' (r2\<lparr>pr_trees := remove1 (pi_pid (mp_identity p)) (pr_trees r2)\<rparr>)
              | Some (Err _) \<Rightarrow> mark_unready ''worker shutting down'' r2))"

record liveness_input =
  li_exited :: "string option"
  li_terminate :: terminate_input
  li_start :: start_input

text \<open>A failed restart leaves its message and a notification.\<close>

definition restart_child :: "PoolEntry \<Rightarrow> start_input \<Rightarrow> pool_run \<Rightarrow> pool_run" where
  "restart_child entry inp r =
     (case start_pool_process entry inp r of
        (Some (Err e), r1) \<Rightarrow> notify (on_state (\<lambda>s. s\<lparr>ps_unready_reason := Some (be_message e)\<rparr>) r1)
      | (_, r1) \<Rightarrow> r1)"

text \<open>An iteration of \<^verbatim>\<open>check_process_liveness\<close>: an exit of the child is noted, then the process tree that
  awaits its end is terminated, and a requested restart follows a verified cleanup.\<close>

definition observe_exit :: "string option \<Rightarrow> pool_run \<Rightarrow> pool_run" where
  "observe_exit exited r =
     (case (ps_process (pr_state r), exited) of
        (Some _, Some status) \<Rightarrow>
          notify (on_state (\<lambda>s. unready (''native inference child exited; verifying process tree cleanup: '' @ status)
            (s\<lparr>ps_restart_requested := True, ps_termination_pending := True\<rparr>)) r)
      | _ \<Rightarrow> r)"

definition settle_child :: "PoolEntry \<Rightarrow> liveness_input \<Rightarrow> pool_run \<Rightarrow> pool_run" where
  "settle_child entry inp r =
     (let s = pr_state r in
      case ps_process s of
        Some process \<Rightarrow>
          if ps_termination_pending s
          then (case terminate_managed_process process ''native inference child tree terminated'' (li_terminate inp)
                       (on_state (\<lambda>s. s\<lparr>ps_process := None\<rparr>) r) of
                  (Some True, r1) \<Rightarrow>
                    if ps_restart_requested (pr_state r1) then restart_child entry (li_start inp) r1 else r1
                | (_, r1) \<Rightarrow> r1)
          else r
      | None \<Rightarrow> if ps_restart_requested s then restart_child entry (li_start inp) r else r)"

definition check_process_liveness :: "PoolEntry \<Rightarrow> liveness_input \<Rightarrow> pool_run \<Rightarrow> pool_run" where
  "check_process_liveness entry inp r = settle_child entry inp (observe_exit (li_exited inp) r)"

record refresh_input =
  ri_drops :: drops
  ri_probe :: "(BackendError + BackendCapabilities) option"

definition probe_changes :: "BackendCapabilities \<Rightarrow> PoolState \<Rightarrow> bool" where
  "probe_changes observed s \<longleftrightarrow>
     ps_ready s \<noteq> all_passed observed \<or> ps_backend_version s \<noteq> bc_version observed \<or>
     ps_accelerator s \<noteq> bc_accelerator observed \<or> ps_accelerator_version s \<noteq> bc_accelerator_version observed \<or>
     ps_probes s \<noteq> bc_probes observed"

definition install_probe :: "BackendCapabilities \<Rightarrow> PoolState \<Rightarrow> PoolState" where
  "install_probe observed s =
     (let ready = all_passed observed in
      s\<lparr>ps_ready := ready, ps_unready_reason := (if ready then None else Some (unready_reason (bc_probes observed))),
        ps_backend_version := bc_version observed, ps_accelerator := bc_accelerator observed,
        ps_accelerator_version := bc_accelerator_version observed, ps_probes := bc_probes observed,
        ps_slots_total := of_bool ready, ps_slots_free := of_bool (ready \<and> ps_busy s = [])\<rparr>)"

definition refresh_capabilities :: "refresh_input \<Rightarrow> pool_run \<Rightarrow> pool_run" where
  "refresh_capabilities inp r =
     (if ps_process (pr_state r) = None \<or> ps_backend (pr_state r) = None then r
      else
        let r1 = meanwhile (ri_drops inp) r in
        case ri_probe inp of
          None \<Rightarrow> r1
        | Some (Err e) \<Rightarrow>
            if ps_ready (pr_state r1)
            then notify (on_state (\<lambda>s. s\<lparr>ps_ready := False, ps_slots_total := 0, ps_slots_free := 0,
                   ps_unready_reason := Some (be_message e)\<rparr>) r1)
            else r1
        | Some (Ok observed) \<Rightarrow>
            if probe_changes observed (pr_state r1) then notify (on_state (install_probe observed) r1)
            else on_state (install_probe observed) r1)"

section \<open>Bringing the Pools up\<close>

record boot_input =
  bi_codec :: identity_codec
  bi_evolves :: "nat \<Rightarrow> process_table \<Rightarrow> process_table"
  bi_polls :: nat
  bi_host :: host
  bi_scan :: scan
  bi_start :: start_input
  bi_now :: instant

text \<open>One round of the loop of \<^verbatim>\<open>PoolSupervisor::start\<close>; no result when the task is dropped meanwhile.\<close>

definition start_pool ::
  "'c sha_libs \<Rightarrow> model_libs \<Rightarrow> scan_env \<Rightarrow> PoolConfig \<Rightarrow> boot_input \<Rightarrow> (string + PoolEntry \<times> pool_run) option" where
  "start_pool H L F pool inp =
     (let initial = not_yet_started (bi_now inp) in
      case fst (kill_stale (bi_codec inp) (pc_state_dir pool @ ''/'' @ PROCESS_IDENTITY_FILE) (bi_evolves inp) (bi_polls inp) (bi_host inp)) of
        Err _ \<Rightarrow> Some (Err (''checking pool `'' @ pc_key pool @ ''` for a stale managed process''))
      | Ok ownership \<Rightarrow>
          (case fst (scan_models H L F pool (bi_scan inp)) of
             Err reason \<Rightarrow>
               Some (Ok (\<lparr>pe_config = pool, pe_models = [], pe_image_loras = []\<rparr>,
                 \<lparr>pr_state = initial\<lparr>ps_unready_reason := Some reason\<rparr>, pr_trees = [], pr_changes = 0\<rparr>))
           | Ok (models, image_loras) \<Rightarrow>
               (let entry = \<lparr>pe_config = pool, pe_models = models, pe_image_loras = image_loras\<rparr> in
                case start_pool_process entry (bi_start inp) \<lparr>pr_state = initial, pr_trees = [], pr_changes = 0\<rparr> of
                  (None, _) \<Rightarrow> None
                | (Some (Ok _), r) \<Rightarrow> Some (Ok (entry, r))
                | (Some (Err e), r) \<Rightarrow> Some (Ok (entry, on_state (\<lambda>s. s\<lparr>ps_unready_reason := Some (be_message e)\<rparr>) r)))))"

fun start_pools ::
  "'c sha_libs \<Rightarrow> model_libs \<Rightarrow> scan_env \<Rightarrow> (PoolConfig \<times> boot_input) list \<Rightarrow> (string \<rightharpoonup> PoolEntry \<times> pool_run) \<Rightarrow>
   (string + (string \<rightharpoonup> PoolEntry \<times> pool_run)) option" where
  "start_pools H L F [] pools = Some (Ok pools)"
| "start_pools H L F ((pool, inp) # rest) pools =
     (case start_pool H L F pool inp of
        None \<Rightarrow> None
      | Some (Err e) \<Rightarrow> Some (Err e)
      | Some (Ok started) \<Rightarrow> start_pools H L F rest (pools(pc_key pool \<mapsto> started)))"

definition PoolSupervisor_start ::
  "'c sha_libs \<Rightarrow> model_libs \<Rightarrow> scan_env \<Rightarrow> bool \<Rightarrow> (PoolConfig \<times> boot_input) list \<Rightarrow>
   (string + (string \<rightharpoonup> PoolEntry \<times> pool_run)) option" where
  "PoolSupervisor_start H L F config_resolves pools =
     (if \<not> config_resolves then Some (Err ''resolving worker config path'') else start_pools H L F pools (\<lambda>_. None))"

section \<open>A supervised Pool\<close>

text \<open>The operations of the Worker on a running Pool, in any order; a lease is dropped at any time.\<close>

inductive pool_step :: "text_libs \<Rightarrow> PoolEntry \<Rightarrow> pool_run \<Rightarrow> pool_run \<Rightarrow> bool" for T entry where
  acquire: "pool_step T entry r (snd (ensure_runtime_and_acquire_slot T entry version attempt inp r))"
| drop: "pool_step T entry r (drop_lease d r)"
| idle: "pool_step T entry r (release_idle now idle_inp r)"
| reclaim: "pool_step T entry r (force_reclaim attempt terminate_inp r)"
| liveness: "pool_step T entry r (check_process_liveness entry liveness_inp r)"
| refresh: "pool_step T entry r (refresh_capabilities refresh_inp r)"

inductive supervised :: "'c sha_libs \<Rightarrow> model_libs \<Rightarrow> scan_env \<Rightarrow> text_libs \<Rightarrow> PoolEntry \<Rightarrow> pool_run \<Rightarrow> bool"
  for H L F T entry where
  started: "start_pool H L F pool inp = Some (Ok (entry, r)) \<Longrightarrow> supervised H L F T entry r"
| stepped: "supervised H L F T entry r \<Longrightarrow> pool_step T entry r r' \<Longrightarrow> supervised H L F T entry r'"

inductive_cases pool_stepE: "pool_step T entry r r'"

end
