(* ===== verification/Worker_Pool_Safety.thy ===== *)
theory Worker_Pool_Safety
  imports Worker_Pool
begin

text \<open>
  What holds of a supervised Device Pool: the slot invariant over all operations and all
  aborts, the exclusive slot, the replacement of a lost child, the notification of every advertised change, and
  what an idle unload leads to.
\<close>

section \<open>The slot invariant\<close>

definition tree_pids :: "PoolState \<Rightarrow> u32 list" where
  "tree_pids s = (case ps_process s of None \<Rightarrow> [] | Some p \<Rightarrow> [pi_pid (mp_identity p)])"

definition slots_ok :: "PoolState \<Rightarrow> bool" where
  "slots_ok s \<longleftrightarrow>
     (ps_ready s \<longleftrightarrow> ps_unready_reason s = None) \<and>
     (ps_ready s \<longrightarrow> ps_backend s \<noteq> None) \<and>
     (ps_backend s \<noteq> None \<longrightarrow> ps_process s \<noteq> None \<and> \<not> ps_termination_pending s \<and> \<not> ps_restart_requested s) \<and>
     ps_slots_total s = of_bool (ps_ready s) \<and>
     ps_slots_free s = of_bool (ps_ready s \<and> ps_busy s = []) \<and>
     length (ps_busy s) \<le> 1"

definition pool_ok :: "pool_run \<Rightarrow> bool" where
  "pool_ok r \<longleftrightarrow> slots_ok (pr_state r) \<and> pr_trees r = tree_pids (pr_state r)"

lemmas pool_ok_defs = pool_ok_def slots_ok_def tree_pids_def

lemma release_ok: "slots_ok s \<Longrightarrow> slots_ok (release attempt now s)"
  by (cases "ps_busy s") (auto simp: slots_ok_def release_def Let_def)

lemma release_frame [simp]:
  "ps_process (release attempt now s) = ps_process s" "ps_backend (release attempt now s) = ps_backend s"
  "ps_ready (release attempt now s) = ps_ready s" "ps_unready_reason (release attempt now s) = ps_unready_reason s"
  "ps_restart_requested (release attempt now s) = ps_restart_requested s"
  "ps_termination_pending (release attempt now s) = ps_termination_pending s"
  "ps_slots_total (release attempt now s) = ps_slots_total s" "ps_probes (release attempt now s) = ps_probes s"
  "ps_busy (release attempt now s) = filter (\<lambda>i. i \<noteq> attempt) (ps_busy s)"
  by (simp_all add: release_def Let_def)

lemma run_frame [simp]:
  "pr_state (on_state f r) = f (pr_state r)" "pr_trees (on_state f r) = pr_trees r"
  "pr_changes (on_state f r) = pr_changes r" "pr_state (notify r) = pr_state r" "pr_trees (notify r) = pr_trees r"
  "pr_changes (notify r) = Suc (pr_changes r)"
  by (simp_all add: on_state_def notify_def)

lemma drop_lease_frame [simp]:
  "pr_state (drop_lease d r) = release (fst d) (snd d) (pr_state r)" "pr_trees (drop_lease d r) = pr_trees r"
  by (simp_all add: drop_lease_def split: prod.splits)

lemma drop_lease_ok: "pool_ok r \<Longrightarrow> pool_ok (drop_lease d r)"
  by (simp add: pool_ok_def release_ok tree_pids_def)

lemma meanwhile_frame [simp]:
  "ps_process (pr_state (meanwhile ds r)) = ps_process (pr_state r)"
  "ps_backend (pr_state (meanwhile ds r)) = ps_backend (pr_state r)"
  "ps_ready (pr_state (meanwhile ds r)) = ps_ready (pr_state r)"
  "ps_unready_reason (pr_state (meanwhile ds r)) = ps_unready_reason (pr_state r)"
  "ps_restart_requested (pr_state (meanwhile ds r)) = ps_restart_requested (pr_state r)"
  "ps_termination_pending (pr_state (meanwhile ds r)) = ps_termination_pending (pr_state r)"
  "ps_probes (pr_state (meanwhile ds r)) = ps_probes (pr_state r)" "pr_trees (meanwhile ds r) = pr_trees r"
  by (induction ds arbitrary: r) (simp_all add: meanwhile_def)

lemma meanwhile_busy: "length (ps_busy (pr_state (meanwhile ds r))) \<le> length (ps_busy (pr_state r))"
proof (induction ds arbitrary: r)
  case (Cons d ds)
  have "length (ps_busy (pr_state (meanwhile ds (drop_lease d r)))) \<le> length (ps_busy (pr_state r))"
    by (rule order_trans [OF Cons]) simp
  then show ?case by (simp add: meanwhile_def)
qed (simp add: meanwhile_def)

lemma meanwhile_ok: "pool_ok r \<Longrightarrow> pool_ok (meanwhile ds r)"
  by (induction ds arbitrary: r) (simp_all add: meanwhile_def drop_lease_ok)

lemma terminate_ok:
  assumes "length (ps_busy (pr_state r)) \<le> 1" "pr_trees r = [pi_pid (mp_identity process)]"
  shows "pool_ok (snd (terminate_managed_process process reason inp r))"
  using assms meanwhile_busy [of "te_drops inp" r]
  by (auto simp: terminate_managed_process_def pool_ok_defs restore_def mark_unready_def Let_def
      split: option.splits sum.splits)

lemma terminate_done:
  assumes "terminate_managed_process process reason inp r = (Some True, r1)"
  shows "ps_process (pr_state r1) = None" "ps_restart_requested (pr_state r1) = ps_restart_requested (pr_state r)"
    "ps_busy (pr_state r1) = []"
  using assms by (auto simp: terminate_managed_process_def mark_unready_def Let_def split: option.splits sum.splits)

lemma recorded_pid:
  "fst (record_identity_file J pid executable file failure h) = Ok identity \<Longrightarrow> pi_pid identity = pid"
  by (auto simp: record_identity_file_def Let_def split: sum.splits option.splits io_error.splits prod.splits)

lemma own_child_ok:
  "pool_ok r \<Longrightarrow> ps_process (pr_state r) = None \<Longrightarrow> pool_ok (own_child entry executable pid r)"
  by (auto simp: own_child_def pool_ok_defs spawned_process_def)

lemma unready_message_ok:
  "pool_ok r \<Longrightarrow> \<not> ps_ready (pr_state r) \<Longrightarrow> pool_ok (notify (on_state (\<lambda>s. s\<lparr>ps_unready_reason := Some m\<rparr>) r))"
  by (simp add: pool_ok_defs)

lemma start_infer_child_ok:
  assumes "pool_ok r" "ps_process (pr_state r) = None"
  shows "pool_ok (snd (start_infer_child entry executable inp r)) \<and>
    \<not> ps_ready (pr_state (snd (start_infer_child entry executable inp r))) \<and>
    (fst (start_infer_child entry executable inp r) = Some (Ok ()) \<longrightarrow>
       ps_process (pr_state (snd (start_infer_child entry executable inp r))) \<noteq> None)"
proof -
  let ?r1 = "meanwhile (si_spawn_drops inp) r"
  let ?r2 = "\<lambda>pid. meanwhile (si_identity_drops inp) (own_child entry executable pid ?r1)"
  have r1: "pool_ok ?r1" "ps_process (pr_state ?r1) = None" using assms by (simp_all add: meanwhile_ok)
  then have unready: "\<not> ps_ready (pr_state ?r1)" by (auto simp: pool_ok_defs)
  have r2: "pool_ok (?r2 pid)" "\<not> ps_ready (pr_state (?r2 pid))"
    "ps_process (pr_state (?r2 pid)) = Some (spawned_process pid executable (identity_path entry))" for pid
    using own_child_ok [OF r1, of entry executable pid] unready by (simp_all add: meanwhile_ok own_child_def)
  have named: "pool_ok (on_state (\<lambda>s. s\<lparr>ps_process := map_option (set_identity identity) (ps_process s)\<rparr>) (?r2 pid))"
    if "pi_pid identity = pid" for identity pid
    using r2 [of pid] that by (simp add: pool_ok_defs set_identity_def spawned_process_def)
  show ?thesis using r1 unready r2 named unready_message_ok [OF r2(1,2)]
    by (auto simp: start_infer_child_def Let_def split: option.splits sum.splits dest: recorded_pid)
qed

lemma probe_done_ok:
  "pool_ok r \<Longrightarrow> ps_process (pr_state r) \<noteq> None \<Longrightarrow> pool_ok (snd (probe_done backend caps now r))"
  by (auto simp: probe_done_def pool_ok_defs Let_def)

lemma probe_rounds_ok:
  "pool_ok r \<Longrightarrow> ps_process (pr_state r) \<noteq> None \<Longrightarrow> \<not> ps_ready (pr_state r) \<Longrightarrow>
   pool_ok (snd (probe_rounds backend timeout_text ready_by last_error rounds r))"
proof (induction rounds arbitrary: r last_error)
  case (Cons rd rounds)
  let ?r = "meanwhile (rd_drops rd) r"
  have r: "pool_ok ?r" "ps_process (pr_state ?r) \<noteq> None" "\<not> ps_ready (pr_state ?r)"
    using Cons.prems by (simp_all add: meanwhile_ok)
  then show ?case using Cons.IH [OF r] probe_done_ok [OF r(1,2)] unready_message_ok [OF r(1,3)]
    by (simp add: Let_def probe_error_def split: probe_outcome.split)
qed simp

lemma probe_rounds_failed:
  "\<not> ps_ready (pr_state r) \<Longrightarrow> probe_rounds backend timeout_text ready_by last_error rounds r = (Some (Err e), r1) \<Longrightarrow>
   \<not> ps_ready (pr_state r1)"
proof (induction rounds arbitrary: r last_error)
  case (Cons rd rounds)
  have "\<not> ps_ready (pr_state (meanwhile (rd_drops rd) r))" using Cons.prems(1) by simp
  from Cons.IH [OF this] Cons.prems show ?case
    by (auto simp: Let_def probe_error_def probe_done_def split: probe_outcome.splits if_splits)
qed simp

lemma start_pool_process_ok:
  assumes "pool_ok r" "ps_process (pr_state r) = None"
  shows "pool_ok (snd (start_pool_process entry inp r)) \<and>
    (start_pool_process entry inp r = (Some (Err e), r2) \<longrightarrow> \<not> ps_ready (pr_state r2))"
proof -
  have r1: "pool_ok (begin_start r)" "ps_process (pr_state (begin_start r)) = None" "\<not> ps_ready (pr_state (begin_start r))"
    using assms by (simp_all add: begin_start_def pool_ok_defs)
  have child: ?thesis if "si_build_error inp = None" "si_executable inp = Ok executable" for executable
    using that start_infer_child_ok [OF r1(1,2), of entry executable inp]
    by (auto simp: start_pool_process_def probe_pool_process_def Let_def probe_rounds_ok
        split: option.splits sum.splits prod.splits dest: probe_rounds_failed)
  then show ?thesis using r1
    by (cases "si_build_error inp"; cases "si_executable inp")
       (auto simp: start_pool_process_def Let_def)
qed

lemmas start_pool_process_okD = start_pool_process_ok [THEN conjunct1] start_pool_process_ok [THEN conjunct2, rule_format]

lemma stop_old_child_ok:
  assumes "pool_ok r"
  shows "pool_ok (snd (stop_old_child inp r)) \<and>
    (fst (stop_old_child inp r) = Some True \<longrightarrow> ps_process (pr_state (snd (stop_old_child inp r))) = None)"
proof (cases "ps_process (pr_state r)")
  case None
  then show ?thesis using assms by (simp add: stop_old_child_def begin_recovery_def pool_ok_defs)
next
  case (Some process)
  have "pool_ok (snd (terminate_managed_process process reason inp (begin_recovery r)))" for reason
    using assms Some by (intro terminate_ok) (simp_all add: begin_recovery_def pool_ok_defs)
  then show ?thesis using Some terminate_done(1) [of process _ inp "begin_recovery r"] by (simp add: stop_old_child_def prod_eq_iff)
qed

lemma recover_runtime_snd:
  "snd (recover_runtime entry inp r) =
     (if fst (stop_old_child (ai_terminate inp) r) = Some True
      then snd (start_pool_process entry (ai_start inp) (snd (stop_old_child (ai_terminate inp) r)))
      else snd (stop_old_child (ai_terminate inp) r))"
  by (simp add: recover_runtime_def split: option.split sum.split prod.split bool.split)

lemma recover_runtime_ok: "pool_ok r \<Longrightarrow> pool_ok (snd (recover_runtime entry inp r))"
  using stop_old_child_ok [of r "ai_terminate inp"] start_pool_process_okD(1) by (simp add: recover_runtime_snd)

lemma take_slot_ok: "pool_ok r \<Longrightarrow> pool_ok (snd (take_slot key attempt now r))"
  by (auto simp: take_slot_def try_acquire_def pool_ok_defs)

lemma acquire_ok: "pool_ok r \<Longrightarrow> pool_ok (snd (ensure_runtime_and_acquire_slot T entry version attempt inp r))"
  using recover_runtime_ok [of r entry inp] take_slot_ok
  by (auto simp: ensure_runtime_and_acquire_slot_def Let_def split: option.splits sum.splits prod.splits)

lemma retire_ok:
  assumes "pool_ok r" "ps_process (pr_state r) = Some process" "pr_trees r1 = pr_trees r"
    "length (ps_busy (pr_state r1)) \<le> length (ps_busy (pr_state r))"
  shows "pool_ok (snd (terminate_managed_process process reason inp r1))"
  using assms by (intro terminate_ok) (simp_all add: pool_ok_defs)

lemma release_idle_ok:
  assumes "pool_ok r"
  shows "pool_ok (release_idle now inp r)"
proof -
  let ?r1 = "meanwhile (ii_drops inp) r"
  have r1: "pool_ok ?r1" using assms by (rule meanwhile_ok)
  have kept: "pool_ok (on_state (\<lambda>s. s\<lparr>ps_last_activity := now\<rparr>) r')" if "pool_ok r'" for r'
    using that by (simp add: pool_ok_defs)
  have "pool_ok (snd (terminate_managed_process process reason (ii_terminate inp)
      (notify (on_state (\<lambda>s. unready m (s\<lparr>ps_termination_pending := True, ps_process := None\<rparr>)) r'))))"
    if "pool_ok r'" "ps_process (pr_state r') = Some process" for process reason m r'
    using that by (intro retire_ok [OF that]) simp_all
  then show ?thesis using assms r1 kept [OF r1]
    by (auto simp: release_idle_def Let_def split: option.splits prod.splits bool.splits)
qed

lemma force_reclaim_ok:
  assumes "pool_ok r"
  shows "pool_ok (force_reclaim attempt inp r)"
proof (cases "ps_process (pr_state r)")
  case (Some process)
  have "pool_ok (snd (terminate_managed_process process reason inp
      (notify (on_state (\<lambda>s. unready m (s\<lparr>ps_restart_requested := True, ps_termination_pending := True, ps_process := None\<rparr>)) r))))"
    for reason m by (intro retire_ok [OF assms Some]) simp_all
  then show ?thesis using assms Some by (simp add: force_reclaim_def)
qed (simp add: force_reclaim_def assms)

lemma restart_child_ok:
  assumes "pool_ok r" "ps_process (pr_state r) = None"
  shows "pool_ok (restart_child entry inp r)"
  using start_pool_process_okD [OF assms, of entry inp] unready_message_ok
  by (auto simp: restart_child_def split: prod.splits option.splits sum.splits)

lemma settle_child_ok:
  assumes "pool_ok r"
  shows "pool_ok (settle_child entry inp r)"
proof (cases "ps_process (pr_state r)")
  case (Some process)
  have "pool_ok (snd (terminate_managed_process process reason (li_terminate inp) (on_state (\<lambda>s. s\<lparr>ps_process := None\<rparr>) r)))" for reason
    by (intro retire_ok [OF assms Some]) simp_all
  then show ?thesis using assms Some restart_child_ok terminate_done(1) unfolding settle_child_def Let_def
    by (auto split: prod.split option.split bool.split) (metis snd_conv)+
qed (simp add: settle_child_def assms restart_child_ok)

lemma liveness_ok: "pool_ok r \<Longrightarrow> pool_ok (check_process_liveness entry inp r)"
  unfolding check_process_liveness_def
  by (rule settle_child_ok) (auto simp: observe_exit_def pool_ok_defs split: option.split)

lemma install_probe_ok: "pool_ok r \<Longrightarrow> ps_backend (pr_state r) \<noteq> None \<Longrightarrow> pool_ok (on_state (install_probe observed) r)"
  by (auto simp: install_probe_def Let_def pool_ok_defs)

lemma notify_ok [simp]: "pool_ok (notify r) = pool_ok r"
  by (simp add: pool_ok_def)

lemma refresh_ok:
  assumes "pool_ok r"
  shows "pool_ok (refresh_capabilities inp r)"
proof -
  let ?r = "meanwhile (ri_drops inp) r"
  have r: "pool_ok ?r" using assms by (rule meanwhile_ok)
  then have "pool_ok (on_state (\<lambda>s. s\<lparr>ps_ready := False, ps_slots_total := 0, ps_slots_free := 0, ps_unready_reason := Some m\<rparr>) ?r)" for m
    by (simp add: pool_ok_defs)
  then show ?thesis using assms r install_probe_ok [OF r]
    by (simp add: refresh_capabilities_def Let_def split: option.split sum.split)
qed

lemma pool_step_ok: "pool_step T entry r r' \<Longrightarrow> pool_ok r \<Longrightarrow> pool_ok r'"
  by (induction rule: pool_step.induct)
     (simp_all add: acquire_ok drop_lease_ok release_idle_ok force_reclaim_ok liveness_ok refresh_ok)

lemma not_yet_started_ok: "pool_ok \<lparr>pr_state = (not_yet_started now)\<lparr>ps_unready_reason := Some m\<rparr>, pr_trees = [], pr_changes = n\<rparr>"
  "pool_ok \<lparr>pr_state = not_yet_started now, pr_trees = [], pr_changes = n\<rparr>"
  by (simp_all add: not_yet_started_def pool_ok_defs)

lemma start_pool_cases:
  assumes "start_pool H L F pool inp = Some (Ok (entry, r))"
  obtains reason where "r = \<lparr>pr_state = (not_yet_started (bi_now inp))\<lparr>ps_unready_reason := Some reason\<rparr>, pr_trees = [], pr_changes = 0\<rparr>"
  | "start_pool_process entry (bi_start inp) \<lparr>pr_state = not_yet_started (bi_now inp), pr_trees = [], pr_changes = 0\<rparr> = (Some (Ok ()), r)"
  | e r1 where
    "start_pool_process entry (bi_start inp) \<lparr>pr_state = not_yet_started (bi_now inp), pr_trees = [], pr_changes = 0\<rparr> = (Some (Err e), r1)"
    "r = on_state (\<lambda>s. s\<lparr>ps_unready_reason := Some (be_message e)\<rparr>) r1"
proof (cases "fst (scan_models H L F pool (bi_scan inp))")
  case (Inl e)
  then show ?thesis using assms that(1) by (auto simp: start_pool_def Let_def split: sum.splits)
next
  case (Inr found)
  let ?e = "\<lparr>pe_config = pool, pe_models = fst found, pe_image_loras = snd found\<rparr>"
  let ?r = "\<lparr>pr_state = not_yet_started (bi_now inp), pr_trees = [], pr_changes = 0\<rparr>"
  obtain out r1 where out: "start_pool_process ?e (bi_start inp) ?r = (out, r1)" by fastforce
  then have "entry = ?e \<and> (out = Some (Ok ()) \<and> r = r1 \<or>
      (\<exists>e. out = Some (Err e) \<and> r = on_state (\<lambda>s. s\<lparr>ps_unready_reason := Some (be_message e)\<rparr>) r1))"
    using assms Inr by (cases found) (auto simp: start_pool_def Let_def split: sum.splits option.splits)
  then show ?thesis using out that(2,3) by blast
qed

lemma start_pool_ok:
  assumes "start_pool H L F pool inp = Some (Ok (entry, r))"
  shows "pool_ok r"
proof -
  have "ps_process (pr_state \<lparr>pr_state = not_yet_started (bi_now inp), pr_trees = [], pr_changes = 0\<rparr>) = None"
    by (simp add: not_yet_started_def)
  note ran = start_pool_process_okD [OF not_yet_started_ok(2) this, of entry "bi_start inp"]
  from assms show ?thesis
  proof (cases rule: start_pool_cases)
    case (3 e r1)
    then have "pool_ok r1" "\<not> ps_ready (pr_state r1)" using ran by auto
    then show ?thesis using 3(2) by (simp add: pool_ok_defs)
  qed (use ran not_yet_started_ok in auto)
qed

lemma supervised_ok: "supervised H L F T entry r \<Longrightarrow> pool_ok r"
  by (induction rule: supervised.induct) (auto dest: start_pool_ok pool_step_ok)

section \<open>A child that starts\<close>

fun answers_in_time :: "instant \<Rightarrow> probe_round list \<Rightarrow> bool" where
  "answers_in_time ready_by [] = False"
| "answers_in_time ready_by (rd # rounds) =
     (case rd_outcome rd of
        Answered caps \<Rightarrow> all_passed caps \<or> rd_at rd < ready_by \<and> answers_in_time ready_by rounds
      | ProbeFailed e \<Rightarrow> rd_at rd < ready_by \<and> answers_in_time ready_by rounds
      | ProbeTimedOut \<Rightarrow> False)"

definition starts :: "PoolEntry \<Rightarrow> start_input \<Rightarrow> u32 \<Rightarrow> bool" where
  "starts entry inp pid \<longleftrightarrow>
     si_build_error inp = None \<and> si_spawn inp = Some (Ok pid) \<and>
     answers_in_time (si_began inp + pc_startup_timeout (pe_config entry)) (si_rounds inp) \<and>
     (case (si_executable inp, si_identity inp) of
        (Ok executable, Some (J, failure, h)) \<Rightarrow>
          (case fst (record_identity_file J pid executable (identity_path entry) failure h) of Ok _ \<Rightarrow> True | Err _ \<Rightarrow> False)
      | _ \<Rightarrow> False)"

abbreviation serving :: "pool_run \<Rightarrow> bool" where
  "serving r \<equiv> ps_ready (pr_state r) \<and> ps_slots_free (pr_state r) = 1 \<and> ps_busy (pr_state r) = []"

lemma probe_rounds_answered:
  "answers_in_time ready_by rounds \<Longrightarrow>
   fst (probe_rounds backend timeout_text ready_by last_error rounds r) = Some (Ok ()) \<and>
   serving (snd (probe_rounds backend timeout_text ready_by last_error rounds r)) \<and>
   ps_process (pr_state (snd (probe_rounds backend timeout_text ready_by last_error rounds r))) = ps_process (pr_state r)"
  by (induction rounds arbitrary: r last_error)
     (auto simp: Let_def probe_done_def split: probe_outcome.splits)

lemma start_pool_process_starts:
  assumes "starts entry inp pid"
  shows "fst (start_pool_process entry inp r) = Some (Ok ()) \<and> serving (snd (start_pool_process entry inp r)) \<and>
    tree_pids (pr_state (snd (start_pool_process entry inp r))) = [pid]"
proof -
  from assms obtain executable J failure h identity where
    inp: "si_build_error inp = None" "si_spawn inp = Some (Ok pid)" "si_executable inp = Ok executable"
      "si_identity inp = Some (J, failure, h)"
    and identity: "fst (record_identity_file J pid executable (identity_path entry) failure h) = Ok identity"
    and answers: "answers_in_time (si_began inp + pc_startup_timeout (pe_config entry)) (si_rounds inp)"
    by (auto simp: starts_def split: sum.splits option.splits) (metis sum.exhaust)
  show ?thesis using inp identity recorded_pid [OF identity] probe_rounds_answered [OF answers]
    by (simp add: start_pool_process_def start_infer_child_def probe_pool_process_def own_child_def Let_def tree_pids_def
        set_identity_def)
qed

definition example_start :: start_input where
  "example_start = \<lparr>si_token = ''t'', si_build_error = None, si_executable = Ok ''/gpq'', si_spawn_drops = [],
     si_spawn = Some (Ok 42), si_identity_drops = [], si_identity = Some (example_codec, None, example_host), si_began = 0,
     si_rounds = [\<lparr>rd_drops = [], rd_outcome = Answered \<lparr>bc_version = ''1'', bc_accelerator = ''cuda0'', bc_accelerator_version = ''x'',
        bc_probes = [(''native_inference'', True)]\<rparr>, rd_at = 1\<rparr>],
     si_debug = (\<lambda>_. ''60s'')\<rparr>"

definition example_boot :: boot_input where
  "example_boot = \<lparr>bi_codec = example_codec, bi_evolves = example_exits, bi_polls = 100,
     bi_host = example_host\<lparr>ho_files := (\<lambda>_. Err NotFound)\<rparr>, bi_scan = example_scan, bi_start = example_start, bi_now = 0\<rparr>"

definition example_texts :: text_libs where
  "example_texts = \<lparr>hex_encode = (\<lambda>_. []), hex_decode = (\<lambda>_. None), uuid_print = (\<lambda>_. []), uuid_parse = (\<lambda>_. None)\<rparr>"

lemma example_starts: "starts entry example_start 42"
  by (simp add: starts_def example_start_def all_passed_def record_identity_file_def write_identity_file_def start_marker_def
      ps_def example_trimmed example_host_def example_child_def example_codec_def)

lemma example_started:
  obtains m r where "supervised example_hasher example_libs example_files T \<lparr>pe_config = example_pool_config, pe_models = [m], pe_image_loras = []\<rparr> r"
    "serving r" "pr_trees r = [42]" "verify_assets (se_files example_files 9) m = Ok ()"
proof -
  from example_scanned obtain m s' where
    m: "scan_models example_hasher example_libs example_files example_pool_config example_scan = (Ok ([m], []), s')"
    "verify_assets (se_files example_files 9) m = Ok ()" .
  let ?e = "\<lparr>pe_config = example_pool_config, pe_models = [m], pe_image_loras = []\<rparr>"
  let ?start = "start_pool_process ?e example_start \<lparr>pr_state = not_yet_started 0, pr_trees = [], pr_changes = 0\<rparr>"
  have ran: "fst ?start = Some (Ok ())" "serving (snd ?start)" "tree_pids (pr_state (snd ?start)) = [42]"
    using start_pool_process_starts [OF example_starts] by blast+
  have none: "fst (kill_stale example_codec f example_exits n (example_host\<lparr>ho_files := (\<lambda>_. Err NotFound)\<rparr>)) = Ok Gone" for f n
    by (simp add: kill_stale_def read_identity_file_def)
  obtain r where r: "?start = (Some (Ok ()), r)" using ran(1) by (metis prod.collapse)
  then have "start_pool example_hasher example_libs example_files example_pool_config example_boot = Some (Ok (?e, r))"
    using m(1) none by (simp add: start_pool_def example_boot_def Let_def)
  then have "supervised example_hasher example_libs example_files T ?e r" by (rule started)
  then show ?thesis using that ran m(2) r supervised_ok [of example_hasher example_libs example_files T ?e r] by (auto simp: pool_ok_def)
qed

section \<open>Upkeep and notifications\<close>

text \<open>What the Worker does to a Pool on its own, without a Lease: \<^verbatim>\<open>maintain_pools\<close> in
  \<^verbatim>\<open>session.rs\<close>, and the end of earlier Attempts.\<close>

datatype upkeep =
    CheckLiveness liveness_input
  | RefreshCapabilities refresh_input
  | ReleaseIdle instant idle_input
  | DropLease AttemptId instant

definition keep_up :: "PoolEntry \<Rightarrow> upkeep \<Rightarrow> pool_run \<Rightarrow> pool_run" where
  "keep_up entry u r =
     (case u of
        CheckLiveness inp \<Rightarrow> check_process_liveness entry inp r
      | RefreshCapabilities inp \<Rightarrow> refresh_capabilities inp r
      | ReleaseIdle now inp \<Rightarrow> release_idle now inp r
      | DropLease attempt now \<Rightarrow> drop_lease (attempt, now) r)"

definition stranded :: "pool_run \<Rightarrow> bool" where
  "stranded r \<longleftrightarrow> ps_process (pr_state r) = None \<and> \<not> ps_restart_requested (pr_state r) \<and> \<not> ps_ready (pr_state r) \<and>
     ps_slots_total (pr_state r) = 0 \<and> ps_busy (pr_state r) = []"

lemma keep_up_stranded: "stranded r \<Longrightarrow> stranded (keep_up entry u r)"
  by (cases u) (simp_all add: stranded_def keep_up_def check_process_liveness_def observe_exit_def settle_child_def
      refresh_capabilities_def release_idle_def Let_def)

lemma fold_keep_up_stranded: "stranded r \<Longrightarrow> stranded (fold (keep_up entry) us r)"
  by (induction us arbitrary: r) (simp_all add: keep_up_stranded)

lemma idle_unload_stranded:
  assumes "pool_ok r" "ps_ready (pr_state r)" "ps_busy (pr_state r) = []" "now - ps_last_activity (pr_state r) \<ge> IDLE_UNLOAD_AFTER"
    "ii_released inp = Some False" "te_result (ii_terminate inp) = Some (Ok ())"
  shows "stranded (release_idle now inp r)"
  using assms
  by (auto simp: release_idle_def pool_ok_defs stranded_def Let_def terminate_managed_process_def mark_unready_def)

text \<open>An operation that leaves the number of notifications alone leaves the advertisement alone.\<close>

definition told :: "PoolEntry \<Rightarrow> pool_run \<Rightarrow> pool_run \<Rightarrow> bool" where
  "told entry r r' \<longleftrightarrow> pr_changes r \<le> pr_changes r' \<and>
     (pr_changes r' = pr_changes r \<longrightarrow> advertisement entry r' = advertisement entry r)"

lemma told_refl [simp]: "told entry r r"
  by (simp add: told_def)

lemma told_trans: "told entry r r1 \<Longrightarrow> told entry r1 r2 \<Longrightarrow> told entry r r2"
  by (auto simp: told_def)

lemma told_more: "pr_changes r < pr_changes r' \<Longrightarrow> told entry r r'"
  by (simp add: told_def)

lemma told_meanwhile: "told entry r (meanwhile ds r)"
proof (induction ds arbitrary: r)
  case (Cons d ds)
  have "told entry r (drop_lease d r)" by (rule told_more) (simp add: drop_lease_def split: prod.split)
  then show ?case using Cons [of "drop_lease d r"] told_trans by (simp add: meanwhile_def)
qed (simp add: meanwhile_def)

lemma meanwhile_changes: "pr_changes r \<le> pr_changes (meanwhile ds r)"
  using told_meanwhile [of undefined r ds] by (simp add: told_def)

lemma terminate_tells: "pr_changes r < pr_changes (snd (terminate_managed_process process reason inp r))"
  using meanwhile_changes [of r "te_drops inp"]
  by (auto simp: terminate_managed_process_def restore_def mark_unready_def Let_def split: option.splits sum.splits)

lemma start_infer_child_counts: "pr_changes r \<le> pr_changes (snd (start_infer_child entry executable inp r))"
proof -
  let ?r1 = "meanwhile (si_spawn_drops inp) r"
  let ?r2 = "\<lambda>pid. meanwhile (si_identity_drops inp) (own_child entry executable pid ?r1)"
  have r1: "pr_changes r \<le> pr_changes ?r1" by (rule meanwhile_changes)
  have "pr_changes r \<le> pr_changes (?r2 pid)" for pid
    using r1 meanwhile_changes [of "own_child entry executable pid ?r1" "si_identity_drops inp"] by (simp add: own_child_def)
  then show ?thesis using r1
    by (auto simp: start_infer_child_def Let_def le_SucI split: option.splits sum.splits)
qed

lemma probe_rounds_count: "pr_changes r \<le> pr_changes (snd (probe_rounds backend timeout_text ready_by last_error rounds r))"
proof (induction rounds arbitrary: r last_error)
  case (Cons rd rounds)
  have "pr_changes r \<le> pr_changes (meanwhile (rd_drops rd) r)" by (rule meanwhile_changes)
  then show ?case using Cons [of "meanwhile (rd_drops rd) r"] order_trans
    by (fastforce simp: Let_def probe_done_def probe_error_def split: probe_outcome.split)
qed simp

lemma start_tells: "pr_changes r < pr_changes (snd (start_pool_process entry inp r))"
proof -
  have r1: "pr_changes r < pr_changes (begin_start r)" by (simp add: begin_start_def)
  have child: "pr_changes r < pr_changes r2" if "start_infer_child entry executable inp (begin_start r) = (out, r2)" for executable out r2
    using order_less_le_trans [OF r1 start_infer_child_counts] that by (metis snd_conv)
  have "pr_changes r < pr_changes (snd (probe_pool_process entry inp r2))" if "pr_changes r < pr_changes r2" for r2
    using that probe_rounds_count by (metis order_less_le_trans probe_pool_process_def)
  then show ?thesis using r1 child
    by (simp add: start_pool_process_def Let_def split: option.split sum.split prod.split)
qed

text \<open>The reason of an unready Pool with a backend names its failed probes.\<close>

definition reason_ok :: "PoolState \<Rightarrow> bool" where
  "reason_ok s \<longleftrightarrow> (ps_ready s \<longrightarrow> list_all snd (ps_probes s)) \<and>
     (ps_backend s \<noteq> None \<and> \<not> list_all snd (ps_probes s) \<longrightarrow> ps_unready_reason s = Some (unready_reason (ps_probes s)))"

abbreviation idle_backend :: "pool_run \<Rightarrow> bool" where
  "idle_backend r \<equiv> ps_backend (pr_state r) = None \<and> \<not> ps_ready (pr_state r)"

lemma idle_backend_reason: "idle_backend r \<Longrightarrow> reason_ok (pr_state r)"
  by (simp add: reason_ok_def)

lemma meanwhile_reason: "reason_ok (pr_state r) \<Longrightarrow> reason_ok (pr_state (meanwhile ds r))"
  by (simp add: reason_ok_def)

lemma terminate_idle: "idle_backend (snd (terminate_managed_process process reason inp r))"
  by (simp add: terminate_managed_process_def restore_def mark_unready_def Let_def split: option.split sum.split)

lemma start_infer_child_idle: "idle_backend r \<Longrightarrow> idle_backend (snd (start_infer_child entry executable inp r))"
  by (simp add: start_infer_child_def own_child_def Let_def split: option.split sum.split)

lemma probe_rounds_reason:
  "idle_backend r \<Longrightarrow> reason_ok (pr_state (snd (probe_rounds backend timeout_text ready_by last_error rounds r))) \<and>
   (fst (probe_rounds backend timeout_text ready_by last_error rounds r) \<noteq> Some (Ok ()) \<longrightarrow>
      idle_backend (snd (probe_rounds backend timeout_text ready_by last_error rounds r)))"
proof (induction rounds arbitrary: r last_error)
  case (Cons rd rounds)
  have "idle_backend (meanwhile (rd_drops rd) r)" using Cons.prems by simp
  note ih = Cons.IH [OF this] and here = this
  have "reason_ok (pr_state (snd (probe_done backend caps now r')))" "fst (probe_done backend caps now r') = Some (Ok ())" for caps now r'
    by (simp_all add: probe_done_def reason_ok_def all_passed_def Let_def)
  moreover have "reason_ok (pr_state (snd (probe_error e (meanwhile (rd_drops rd) r))))"
    "idle_backend (snd (probe_error e (meanwhile (rd_drops rd) r)))" for e
    using here by (simp_all add: probe_error_def reason_ok_def)
  ultimately show ?case using ih by (simp add: Let_def split: probe_outcome.split)
qed (simp add: reason_ok_def)

lemma start_reason:
  "reason_ok (pr_state (snd (start_pool_process entry inp r))) \<and>
   (fst (start_pool_process entry inp r) \<noteq> Some (Ok ()) \<longrightarrow> idle_backend (snd (start_pool_process entry inp r)))"
proof -
  have r1: "idle_backend (begin_start r)" by (simp add: begin_start_def)
  have probed: "reason_ok (pr_state (snd (probe_pool_process entry inp r2))) \<and>
      (fst (probe_pool_process entry inp r2) \<noteq> Some (Ok ()) \<longrightarrow> idle_backend (snd (probe_pool_process entry inp r2)))"
    if "idle_backend r2" for r2 using probe_rounds_reason [OF that] by (simp add: probe_pool_process_def Let_def)
  have "idle_backend r2" if "start_infer_child entry executable inp (begin_start r) = (out, r2)" for executable out r2
    using start_infer_child_idle [OF r1, of entry executable inp] that by simp
  then show ?thesis using r1 probed idle_backend_reason
    by (simp add: start_pool_process_def Let_def split: option.split sum.split prod.split)
qed

lemma stop_old_child_idle: "idle_backend (snd (stop_old_child inp r))"
  by (simp add: stop_old_child_def begin_recovery_def terminate_idle split: option.split)

lemma stop_old_child_tells: "pr_changes r < pr_changes (snd (stop_old_child inp r))"
  using terminate_tells [of "begin_recovery r"]
  by (auto simp: stop_old_child_def begin_recovery_def dest: Suc_lessD split: option.split)

lemma recover_reason: "reason_ok (pr_state (snd (recover_runtime entry inp r)))"
  using idle_backend_reason [OF stop_old_child_idle] start_reason by (simp add: recover_runtime_snd)

lemma recover_tells: "pr_changes r < pr_changes (snd (recover_runtime entry inp r))"
  using stop_old_child_tells [of r "ai_terminate inp"] start_tells by (auto simp: recover_runtime_snd intro: less_trans)

lemma take_slot_told: "told entry r (snd (take_slot key attempt now r))"
  and take_slot_reason: "reason_ok (pr_state r) \<Longrightarrow> reason_ok (pr_state (snd (take_slot key attempt now r)))"
  by (auto simp: take_slot_def try_acquire_def reason_ok_def told_def)

lemma acquire_told:
  assumes "reason_ok (pr_state r)"
  shows "reason_ok (pr_state (snd (ensure_runtime_and_acquire_slot T entry version attempt inp r))) \<and>
    told entry r (snd (ensure_runtime_and_acquire_slot T entry version attempt inp r))"
proof -
  have "told entry r r1" "reason_ok (pr_state r1)" if "recover_runtime entry inp r = (out, r1)" for out r1
    using that recover_tells [of r entry inp] recover_reason [of entry inp r] told_more by auto
  then show ?thesis using assms take_slot_told take_slot_reason told_trans
    by (auto simp: ensure_runtime_and_acquire_slot_def Let_def split: option.split sum.split prod.split)
qed

lemma idle_told:
  assumes "reason_ok (pr_state r)"
  shows "reason_ok (pr_state (release_idle now inp r)) \<and> told entry r (release_idle now inp r)"
proof -
  have r1: "told entry r (meanwhile (ii_drops inp) r)" "reason_ok (pr_state (meanwhile (ii_drops inp) r))"
    using assms told_meanwhile meanwhile_reason by blast+
  have kept: "told entry r (on_state (\<lambda>s. s\<lparr>ps_last_activity := now\<rparr>) (meanwhile (ii_drops inp) r))"
    using r1(1) by (simp add: told_def advertisement_def Let_def)
  have unloaded: "told entry r (snd (terminate_managed_process p m t (notify (on_state f r'))))"
    if "told entry r r'" for p m t f r'
    using terminate_tells [of "notify (on_state f r')" p m t] that by (auto simp: told_def)
  have cleared: "told entry r (notify (on_state f r'))" if "told entry r r'" for f r' using that by (simp add: told_def)
  show ?thesis using assms r1 kept unloaded [OF r1(1)] unloaded [OF told_refl] cleared terminate_idle idle_backend_reason
    by (auto simp: release_idle_def Let_def reason_ok_def split: option.splits prod.splits bool.splits)
qed

lemma reclaim_told:
  assumes "reason_ok (pr_state r)"
  shows "reason_ok (pr_state (force_reclaim attempt inp r)) \<and> told entry r (force_reclaim attempt inp r)"
proof -
  have "told entry r (snd (terminate_managed_process p m inp (notify (on_state f r))))" for p m f
    using terminate_tells [of "notify (on_state f r)" p m inp] by (intro told_more) simp
  then show ?thesis using assms terminate_idle idle_backend_reason by (simp add: force_reclaim_def split: option.split)
qed

lemma restart_told: "reason_ok (pr_state (restart_child entry inp r)) \<and> told entry r (restart_child entry inp r)"
  using start_reason [of entry inp r] start_tells [of r entry inp]
  by (auto simp: restart_child_def reason_ok_def told_def split: prod.splits option.splits sum.splits)

lemma settle_told:
  assumes "reason_ok (pr_state r)"
  shows "reason_ok (pr_state (settle_child entry inp r)) \<and> told entry r (settle_child entry inp r)"
proof -
  have "told entry r r1" "reason_ok (pr_state r1)"
    if "terminate_managed_process p m (li_terminate inp) (on_state f r) = (out, r1)" for p m f out r1
    using that terminate_tells [of "on_state f r" p m "li_terminate inp"] terminate_idle [of p m "li_terminate inp" "on_state f r"]
      told_more idle_backend_reason by auto
  then show ?thesis using assms restart_told told_trans
    by (simp add: settle_child_def Let_def split: option.split prod.split bool.split) blast
qed

lemma liveness_told:
  assumes "reason_ok (pr_state r)"
  shows "reason_ok (pr_state (check_process_liveness entry inp r)) \<and> told entry r (check_process_liveness entry inp r)"
proof -
  have "told entry r (observe_exit e r)" "reason_ok (pr_state (observe_exit e r))" for e
    using assms by (auto simp: observe_exit_def reason_ok_def told_def split: option.split)
  then show ?thesis using settle_told told_trans unfolding check_process_liveness_def by blast
qed

lemma refresh_told:
  assumes "reason_ok (pr_state r)" "pool_ok r"
  shows "reason_ok (pr_state (refresh_capabilities inp r)) \<and> told entry r (refresh_capabilities inp r)"
proof -
  let ?r = "meanwhile (ri_drops inp) r"
  have r: "told entry r ?r" "reason_ok (pr_state ?r)" "pool_ok ?r"
    using assms told_meanwhile meanwhile_reason meanwhile_ok by blast+
  have quiet: "advertisement entry (on_state (install_probe observed) ?r) = advertisement entry ?r"
    if "\<not> probe_changes observed (pr_state ?r)" "ps_backend (pr_state ?r) \<noteq> None" for observed
    using that r(2,3)
    by (cases "ps_ready (pr_state ?r)")
       (auto simp: probe_changes_def install_probe_def advertisement_def all_passed_def Let_def reason_ok_def pool_ok_defs)
  have "reason_ok (pr_state (on_state (install_probe observed) ?r))" for observed
    by (simp add: install_probe_def all_passed_def reason_ok_def Let_def)
  then have "reason_ok (pr_state (refresh_capabilities inp r))"
    using assms(1) r(2) by (auto simp: refresh_capabilities_def Let_def reason_ok_def split: option.split sum.split)
  moreover have "told entry ?r (refresh_capabilities inp r)"
    if "ps_process (pr_state r) \<noteq> None" "ps_backend (pr_state r) \<noteq> None"
    using that quiet by (auto simp: refresh_capabilities_def Let_def told_def split: option.split sum.split)
  ultimately show ?thesis using r(1) told_trans
    by (cases "ps_process (pr_state r) = None \<or> ps_backend (pr_state r) = None") (auto simp: refresh_capabilities_def)
qed

lemma step_told:
  "pool_step T entry r r' \<Longrightarrow> pool_ok r \<Longrightarrow> reason_ok (pr_state r) \<Longrightarrow> reason_ok (pr_state r') \<and> told entry r r'"
proof (induction rule: pool_step.induct)
  case (drop r d)
  then show ?case using told_meanwhile [of entry r "[d]"] meanwhile_reason [of r "[d]"] by (simp add: meanwhile_def)
qed (simp_all add: acquire_told idle_told reclaim_told liveness_told refresh_told)

lemma start_pool_reason:
  assumes "start_pool H L F pool inp = Some (Ok (entry, r))"
  shows "reason_ok (pr_state r)"
proof -
  note ran = start_reason [of entry "bi_start inp" "\<lparr>pr_state = not_yet_started (bi_now inp), pr_trees = [], pr_changes = 0\<rparr>"]
  from assms show ?thesis
  proof (cases rule: start_pool_cases)
    case 1
    then show ?thesis by (simp add: not_yet_started_def reason_ok_def)
  next
    case 2
    then show ?thesis using ran by simp
  next
    case 3
    then show ?thesis using ran by (simp add: reason_ok_def)
  qed
qed

lemma supervised_reason: "supervised H L F T entry r \<Longrightarrow> reason_ok (pr_state r)"
  by (induction rule: supervised.induct) (auto dest: start_pool_reason step_told supervised_ok)

section \<open>Properties\<close>

text \<open>
  C0: A supervised Device Pool keeps its shape whatever the order of acquisitions, lease drops,
  idle unloads, reclaims, liveness checks and probes, and wherever the tasks that run them are
  aborted: it advertises one slot exactly when it is ready and none otherwise; it has a reason exactly when it is
  not ready; the free count says whether its one slot is unused; at most one Attempt holds
  the slot; a ready Pool has a backend and a child that nobody waits to terminate or restart; and
  the host runs at most one process tree for it, the one that the Pool holds, so that no
  child is ever orphaned.
\<close>

theorem pool_slot_invariant:
  assumes "supervised H L F T entry r"
  shows "pad_slots_total (advertisement entry r) = of_bool (pad_ready (advertisement entry r)) \<and>
    (pad_ready (advertisement entry r) \<longleftrightarrow> pad_unready_reason (advertisement entry r) = None) \<and>
    ps_slots_free (pr_state r) = of_bool (ps_ready (pr_state r) \<and> ps_busy (pr_state r) = []) \<and>
    length (pad_slots_busy (advertisement entry r)) \<le> 1 \<and>
    (ps_ready (pr_state r) \<longrightarrow> ps_backend (pr_state r) \<noteq> None \<and> ps_process (pr_state r) \<noteq> None \<and>
       \<not> ps_termination_pending (pr_state r) \<and> \<not> ps_restart_requested (pr_state r)) \<and>
    pr_trees r = (case ps_process (pr_state r) of None \<Rightarrow> [] | Some p \<Rightarrow> [pi_pid (mp_identity p)])"
  using supervised_ok [OF assms] by (auto simp: pool_ok_defs advertisement_def Let_def)

theorem pool_slot_invariant_witness:
  "\<exists>m r. ps_ready (pr_state r) \<and> pr_trees r = [42] \<and>
     pad_slots_total (advertisement \<lparr>pe_config = example_pool_config, pe_models = [m], pe_image_loras = []\<rparr> r) = 1"
proof -
  obtain m r where r: "supervised example_hasher example_libs example_files example_texts
      \<lparr>pe_config = example_pool_config, pe_models = [m], pe_image_loras = []\<rparr> r" "serving r" "pr_trees r = [42]"
    by (rule example_started)
  then show ?thesis using pool_slot_invariant [OF r(1)] by (intro exI [of _ m] exI [of _ r]) (simp add: advertisement_def Let_def)
qed

text \<open>
  C0: The execution slot is exclusive. A ready, unused Pool hands its slot to the first
  Attempt that asks for a registered model whose files are unchanged, without touching the child;
  while an Attempt holds the slot no other acquisition succeeds; and the slot returns
  when that Attempt's lease is dropped, while a lease of another Attempt that is dropped late changes neither the holder nor the
  free count.
\<close>

theorem slot_exclusive:
  assumes "supervised H L F T entry r"
  shows "(find (\<lambda>m. cm_manifest_hash m = version) (pe_models entry) = Some model \<longrightarrow>
      verify_assets (ai_files inp) model = Ok () \<longrightarrow> ps_ready (pr_state r) \<longrightarrow> ps_busy (pr_state r) = [] \<longrightarrow>
      fst (ensure_runtime_and_acquire_slot T entry version attempt inp r) = Some (Ok ()) \<and>
      ps_busy (pr_state (snd (ensure_runtime_and_acquire_slot T entry version attempt inp r))) = [attempt] \<and>
      pr_trees (snd (ensure_runtime_and_acquire_slot T entry version attempt inp r)) = pr_trees r) \<and>
    (ps_busy (pr_state r) = [holder] \<longrightarrow>
      fst (ensure_runtime_and_acquire_slot T entry version attempt inp r) \<noteq> Some (Ok ()) \<and>
      snd (ensure_runtime_and_acquire_slot T entry version attempt inp r) = r \<and>
      ps_busy (pr_state (drop_lease (holder, now) r)) = [] \<and>
      ps_slots_free (pr_state (drop_lease (holder, now) r)) = ps_slots_total (pr_state r) \<and>
      (attempt \<noteq> holder \<longrightarrow> ps_busy (pr_state (drop_lease (attempt, now) r)) = [holder] \<and>
         ps_slots_free (pr_state (drop_lease (attempt, now) r)) = ps_slots_free (pr_state r)))"
proof -
  have ok: "pool_ok r" using assms by (rule supervised_ok)
  then have taken: "try_acquire a t (pr_state r) = (False, pr_state r)" if "ps_busy (pr_state r) = [holder]" for a t
    using that by (simp add: try_acquire_def pool_ok_defs)
  have "fst (ensure_runtime_and_acquire_slot T entry version attempt inp r) \<noteq> Some (Ok ()) \<and>
      snd (ensure_runtime_and_acquire_slot T entry version attempt inp r) = r" if "ps_busy (pr_state r) = [holder]"
    using that taken [OF that]
    by (auto simp: ensure_runtime_and_acquire_slot_def take_slot_def Let_def split: option.splits sum.splits)
  moreover have "ps_slots_free (pr_state (drop_lease (holder, now) r)) = ps_slots_total (pr_state r)"
    if "ps_busy (pr_state r) = [holder]" using that ok by (simp add: release_def Let_def pool_ok_defs)
  ultimately show ?thesis using ok
    by (auto simp: ensure_runtime_and_acquire_slot_def take_slot_def Let_def try_acquire_def release_def pool_ok_defs)
qed

theorem slot_exclusive_witness:
  "\<exists>m r. serving r \<and> (let entry = \<lparr>pe_config = example_pool_config, pe_models = [m], pe_image_loras = []\<rparr>;
     inp = \<lparr>ai_files = se_files example_files 9, ai_terminate = \<lparr>te_drops = [], te_result = None\<rparr>, ai_start = example_start, ai_at = 5\<rparr>;
     out = ensure_runtime_and_acquire_slot example_texts entry (cm_manifest_hash m) 7 inp r
     in fst out = Some (Ok ()) \<and> ps_busy (pr_state (snd out)) = [7])"
proof -
  obtain m r where r: "supervised example_hasher example_libs example_files example_texts
      \<lparr>pe_config = example_pool_config, pe_models = [m], pe_image_loras = []\<rparr> r" "serving r"
      "verify_assets (se_files example_files 9) m = Ok ()"
    by (rule example_started)
  show ?thesis
    using slot_exclusive [OF r(1), of "cm_manifest_hash m" m
        "\<lparr>ai_files = se_files example_files 9, ai_terminate = \<lparr>te_drops = [], te_result = None\<rparr>, ai_start = example_start, ai_at = 5\<rparr>"
        7] r(2,3)
    by (intro exI [of _ m] exI [of _ r]) (simp add: Let_def)
qed

text \<open>
  C0: A child that died is replaced. When the liveness check finds that the child of a
  supervised Pool has exited, or finds a tree whose cleanup or replacement is outstanding, and the
  tree can be terminated and a new child starts and passes its probes in time, then the Pool is ready with a free slot
  at the end of that one check, no Attempt holds the slot, and the new child is the only process tree the host
  has for the Pool.
\<close>

theorem lost_child_replaced:
  assumes "supervised H L F T entry r" "starts entry (li_start inp) pid" "te_result (li_terminate inp) = Some (Ok ())"
    and "(ps_process (pr_state r) \<noteq> None \<and> li_exited inp \<noteq> None) \<or>
      (ps_restart_requested (pr_state r) \<and> (ps_process (pr_state r) = None \<or> ps_termination_pending (pr_state r)))"
  shows "ps_ready (pr_state (check_process_liveness entry inp r)) \<and>
    ps_slots_free (pr_state (check_process_liveness entry inp r)) = 1 \<and>
    ps_busy (pr_state (check_process_liveness entry inp r)) = [] \<and>
    pr_trees (check_process_liveness entry inp r) = [pid]"
proof -
  let ?r1 = "observe_exit (li_exited inp) r"
  have due: "ps_restart_requested (pr_state ?r1)" "ps_process (pr_state ?r1) = None \<or> ps_termination_pending (pr_state ?r1)"
    using assms(4) by (auto simp: observe_exit_def split: option.splits)
  have restarted: "serving (restart_child entry (li_start inp) r') \<and> tree_pids (pr_state (restart_child entry (li_start inp) r')) = [pid]" for r'
    using start_pool_process_starts [OF assms(2), of r'] by (auto simp: restart_child_def split: prod.splits)
  have "\<exists>r'. check_process_liveness entry inp r = restart_child entry (li_start inp) r'"
    using due assms(3)
    by (auto simp: check_process_liveness_def settle_child_def Let_def terminate_managed_process_def mark_unready_def
        split: option.split)
  then have "serving (check_process_liveness entry inp r)" "tree_pids (pr_state (check_process_liveness entry inp r)) = [pid]"
    using restarted by auto
  then show ?thesis using liveness_ok [OF supervised_ok [OF assms(1)], of entry inp] by (simp add: pool_ok_def)
qed

theorem lost_child_replaced_witness:
  "\<exists>m r. pr_trees (check_process_liveness \<lparr>pe_config = example_pool_config, pe_models = [m], pe_image_loras = []\<rparr>
      \<lparr>li_exited = Some ''signal 9'', li_terminate = \<lparr>te_drops = [], te_result = Some (Ok ())\<rparr>, li_start = example_start\<rparr> r) = [42]"
proof -
  obtain m r where r: "supervised example_hasher example_libs example_files example_texts
      \<lparr>pe_config = example_pool_config, pe_models = [m], pe_image_loras = []\<rparr> r" "serving r" "pr_trees r = [42]"
    by (rule example_started)
  have "ps_process (pr_state r) \<noteq> None"
    using supervised_ok [OF r(1)] r(3) by (auto simp: pool_ok_defs)
  then show ?thesis using lost_child_replaced [OF r(1) , of
      "\<lparr>li_exited = Some ''signal 9'', li_terminate = \<lparr>te_drops = [], te_result = Some (Ok ())\<rparr>, li_start = example_start\<rparr>" 42]
    example_starts by (intro exI [of _ m] exI [of _ r]) simp
qed

text \<open>
  C0: The Worker's Session is told of everything it advertises. Whatever happens to a
  supervised Pool, either its advertisement is the same afterwards or its watchers were notified; no operation, and
  no abort of one, changes readiness, the reason, the slots, their holders or the accelerator
  silently.
\<close>

theorem advertised_changes_notified:
  assumes "supervised H L F T entry r" "pool_step T entry r r'"
  shows "advertisement entry r' = advertisement entry r \<or> pr_changes r < pr_changes r'"
  using step_told [OF assms(2) supervised_ok [OF assms(1)] supervised_reason [OF assms(1)]] by (auto simp: told_def)

theorem advertised_changes_notified_witness:
  "\<exists>m r. advertisement \<lparr>pe_config = example_pool_config, pe_models = [m], pe_image_loras = []\<rparr> (drop_lease (7, 3) r) =
       advertisement \<lparr>pe_config = example_pool_config, pe_models = [m], pe_image_loras = []\<rparr> r \<or>
     pr_changes r < pr_changes (drop_lease (7, 3) r)"
proof -
  obtain m r where r: "supervised example_hasher example_libs example_files example_texts
      \<lparr>pe_config = example_pool_config, pe_models = [m], pe_image_loras = []\<rparr> r"
    by (rule example_started)
  show ?thesis using advertised_changes_notified [OF r drop [of _ _ _ "(7, 3)"]] by blast
qed

text \<open>
  C0: An idle Pool that is unloaded stays away. When a ready Pool has been unused for five
  minutes, its backend cannot release its memory in place and its child is terminated instead, then no sequence of liveness
  checks, capability probes, idle checks and lease drops makes it ready again: it advertises no slot
  from then on, although an acquisition would start a new child and succeed.
\<close>

theorem idle_unload_strands:
  assumes "supervised H L F T entry r" "ps_ready (pr_state r)" "ps_busy (pr_state r) = []"
    and "now - ps_last_activity (pr_state r) \<ge> IDLE_UNLOAD_AFTER"
    and "ii_released inp = Some False" "te_result (ii_terminate inp) = Some (Ok ())"
  shows "\<not> pad_ready (advertisement entry (fold (keep_up entry) us (release_idle now inp r))) \<and>
    pad_slots_total (advertisement entry (fold (keep_up entry) us (release_idle now inp r))) = 0 \<and>
    (starts entry (ai_start ainp) pid \<and> find (\<lambda>m. cm_manifest_hash m = version) (pe_models entry) = Some model \<and>
       verify_assets (ai_files ainp) model = Ok () \<longrightarrow>
       fst (ensure_runtime_and_acquire_slot T entry version attempt ainp
         (fold (keep_up entry) us (release_idle now inp r))) = Some (Ok ()))"
proof -
  define r1 where "r1 = fold (keep_up entry) us (release_idle now inp r)"
  have r1: "stranded r1" unfolding r1_def
    by (rule fold_keep_up_stranded) (rule idle_unload_stranded [OF supervised_ok [OF assms(1)] assms(2-6)])
  have "fst (ensure_runtime_and_acquire_slot T entry version attempt ainp r1) = Some (Ok ())"
    if up: "starts entry (ai_start ainp) pid" and model: "find (\<lambda>m. cm_manifest_hash m = version) (pe_models entry) = Some model"
      "verify_assets (ai_files ainp) model = Ok ()"
  proof -
    obtain r2 where r2: "start_pool_process entry (ai_start ainp) (begin_recovery r1) = (Some (Ok ()), r2)" "serving r2"
      using start_pool_process_starts [OF up, of "begin_recovery r1"] by (metis prod.collapse)
    then have "recover_runtime entry ainp r1 = (Some (Ok ()), r2)"
      using r1 by (simp add: recover_runtime_def stop_old_child_def stranded_def)
    then show ?thesis using r1 model r2(2)
      by (simp add: ensure_runtime_and_acquire_slot_def stranded_def Let_def take_slot_def try_acquire_def)
  qed
  then show ?thesis using r1 by (auto simp: stranded_def advertisement_def Let_def simp flip: r1_def)
qed

theorem idle_unload_strands_witness:
  "\<exists>m r. ps_ready (pr_state r) \<and>
     (let entry = \<lparr>pe_config = example_pool_config, pe_models = [m], pe_image_loras = []\<rparr>;
          stop = \<lparr>te_drops = [], te_result = Some (Ok ())\<rparr>;
          r1 = release_idle (ps_last_activity (pr_state r) + IDLE_UNLOAD_AFTER)
                 \<lparr>ii_drops = [], ii_released = Some False, ii_terminate = stop\<rparr> r
      in \<not> pad_ready (advertisement entry
           (fold (keep_up entry) [CheckLiveness \<lparr>li_exited = None, li_terminate = stop, li_start = example_start\<rparr>] r1)))"
proof -
  obtain m r where r: "supervised example_hasher example_libs example_files example_texts
      \<lparr>pe_config = example_pool_config, pe_models = [m], pe_image_loras = []\<rparr> r" "serving r"
    by (rule example_started)
  show ?thesis
    using r(2) idle_unload_strands [where now = "ps_last_activity (pr_state r) + IDLE_UNLOAD_AFTER" and
        inp = "\<lparr>ii_drops = [], ii_released = Some False, ii_terminate = \<lparr>te_drops = [], te_result = Some (Ok ())\<rparr>\<rparr>" and
        us = "[CheckLiveness \<lparr>li_exited = None, li_terminate = \<lparr>te_drops = [], te_result = Some (Ok ())\<rparr>, li_start = example_start\<rparr>]",
        OF r(1)]
    by (intro exI [of _ m] exI [of _ r]) (simp add: Let_def)
qed

end
