(* ===== verification/Spec2Isabelle.thy ===== *)
theory Spec2Isabelle
  imports Queue_System Worker_Pool_Safety
begin

text \<open>
  A verification library for gpq, a GPU generation queue. A Remote coordinates: clients submit
  Generations, Workers hold Device Pools with Slots and execute Attempts of them, and every
  decision is a transaction of the Remote on a PostgreSQL database. The crates are under
  \<^verbatim>\<open>src/crates\<close>: \<^verbatim>\<open>gpq-domain\<close> holds the pure rules, \<^verbatim>\<open>gpq-remote\<close> the store and the services,
  \<^verbatim>\<open>gpq-worker\<close> the agent that runs the models, and \<^verbatim>\<open>src/proto\<close> the messages between them.

  \<^bold>\<open>Conventions.\<close> Identifiers are 128-bit words, \<^verbatim>\<open>u64\<close>, \<^verbatim>\<open>u32\<close> and \<^verbatim>\<open>u8\<close> values are words of that
  width, SQL integers and timestamps are \<^typ>\<open>int\<close>, durations are natural numbers of nanoseconds. A
  fallible operation returns a sum, \<^verbatim>\<open>Ok\<close> or \<^verbatim>\<open>Err\<close>. A table is a list of records in the order of
  insertion, and the database \<^verbatim>\<open>db\<close> a record of the tables. Code that is not in the repository
  (SHA-256, hex, base64, JSON, UUID text, the S3 client, interval conversion, the keyed hasher) is
  an argument of the definitions that use it; what is relied on is a named law, such as
  \<^verbatim>\<open>sha_laws\<close> or \<^verbatim>\<open>interval_law\<close>, and every property that assumes one has a witness. Fresh identifiers,
  clocks and random bytes are arguments. A handler that opens one transaction is one step; an
  error rolls it back, so the model returns the state before it.

  \<^bold>\<open>Domain\<close> (\<^verbatim>\<open>gpq-domain\<close>). \<^verbatim>\<open>Domain_State\<close>: the state enums, their transition functions and the
  retry policy (\<^verbatim>\<open>state.rs\<close>, \<^verbatim>\<open>failure.rs\<close>), with the lifecycles as instances of one locale.
  \<^verbatim>\<open>Domain_Hash\<close>: content hashes (\<^verbatim>\<open>hash.rs\<close>, \<^verbatim>\<open>id.rs\<close>). \<^verbatim>\<open>Domain_Model\<close>: manifests, sampling, request
  validation, timeouts, settings (\<^verbatim>\<open>version.rs\<close>, \<^verbatim>\<open>generation.rs\<close>, \<^verbatim>\<open>tenant.rs\<close>, \<^verbatim>\<open>artifact.rs\<close>).
  \<^verbatim>\<open>Domain_Capability\<close>: which Slot can run which request (\<^verbatim>\<open>capability.rs\<close>). \<^verbatim>\<open>Domain_Schedule\<close>: the
  scheduling order (\<^verbatim>\<open>schedule.rs\<close>). The lemmas show that the optimised or early-returning functions
  decide exactly the declarative specifications.

  \<^bold>\<open>Store\<close> (\<^verbatim>\<open>gpq-remote/src/db\<close>). \<^verbatim>\<open>Store\<close> has the rows and the SQL primitives, \<^verbatim>\<open>Store_Invariant\<close> the
  invariant of the tables, \<^verbatim>\<open>Store_Moves\<close> what any operation may do to rows, and the theories
  \<^verbatim>\<open>Db_Workers\<close>, \<^verbatim>\<open>Db_Generations\<close>, \<^verbatim>\<open>Db_Attempts\<close>, \<^verbatim>\<open>Db_Artifacts\<close>, \<^verbatim>\<open>Db_Events\<close>, \<^verbatim>\<open>Db_Tenants\<close> and
  \<^verbatim>\<open>Db_Catalog\<close> one definition per function of the file of that name, each proved to keep the
  invariant and to follow the lifecycles, with its exact effect on every branch.
  \<^verbatim>\<open>Store_Contract\<close> states this as a locale, \<^verbatim>\<open>tenant_op\<close>: what satisfies it preserves the invariant,
  leaves settled Generations settled and touches rows of one Tenant only.

  \<^bold>\<open>Services\<close> (\<^verbatim>\<open>gpq-remote/src\<close>). \<^verbatim>\<open>Registry\<close> (\<^verbatim>\<open>registry.rs\<close>) and \<^verbatim>\<open>Events\<close> (\<^verbatim>\<open>events.rs\<close>) are the shared
  memory of the process, \<^verbatim>\<open>Wire\<close> the messages, \<^verbatim>\<open>Remote\<close> the combined state (\<^verbatim>\<open>state.rs\<close>). \<^verbatim>\<open>Scheduler\<close>,
  \<^verbatim>\<open>Expiry\<close>, \<^verbatim>\<open>Session\<close>, \<^verbatim>\<open>Admission\<close>, \<^verbatim>\<open>Native\<close>, \<^verbatim>\<open>Native_Admin\<close>, \<^verbatim>\<open>Delivery\<close>, \<^verbatim>\<open>Worker_Transfer\<close> and
  \<^verbatim>\<open>Administration\<close> model \<^verbatim>\<open>scheduler.rs\<close>, \<^verbatim>\<open>expiry.rs\<close>, \<^verbatim>\<open>session.rs\<close>, \<^verbatim>\<open>admission.rs\<close>, \<^verbatim>\<open>native/\<close>,
  \<^verbatim>\<open>artifacts.rs\<close>, \<^verbatim>\<open>transfer.rs\<close>, and \<^verbatim>\<open>enrollment.rs\<close> with the administrative commands of \<^verbatim>\<open>cli.rs\<close>;
  every service is an instance of \<^verbatim>\<open>tenant_op\<close>. The theories with the suffix \<^verbatim>\<open>_Safety\<close> hold their
  properties: admission is exact and idempotent, an assignment is atomic, lapsed leases are
  settled, a revoked credential has no effect, recorded outputs belong to the Attempt that was
  leased, a watcher misses nothing, a download ends and its bytes are the recorded ones.
  \<^verbatim>\<open>Worker_Lease\<close> is the decoding of a lease on the Worker (\<^verbatim>\<open>gpq-worker/src/executor.rs\<close>), inverse
  to the Remote's encoding.

  \<^bold>\<open>The queue.\<close> \<^verbatim>\<open>Queue_System\<close> composes the services into a transition system whose steps are their
  calls with arbitrary arguments. In every reachable state the invariants hold; the results of
  Generations refine a write-once log; and the steps for other Tenants leave a Tenant's rows
  alone.

  \<^bold>\<open>Bounds and fuel.\<close> No definition uses fuel. The loops of the relay (\<^verbatim>\<open>request_worker_delivery\<close>,
  \<^verbatim>\<open>stream_rounds\<close>) and of the fetch (\<^verbatim>\<open>stream_remote_local\<close>) are functions with termination proofs from
  the code's own limits: the send retries, \<^verbatim>\<open>MAX_RESUME_ATTEMPTS\<close>, and the remaining size. What other
  tasks do while a relay waits is a parameter of the relay, constrained only where a property says
  so, and the end of the list of events it receives stands for the chunk timeout.

  \<^bold>\<open>Not modelled.\<close> Failures of the database connection and of commits, poisoned locks and memory
  exhaustion; the loops that wait for wakeups or timers around a pass of the scheduler or of the
  sweeps; configuration, routing, telemetry, migrations and the HTML console; the construction of
  the S3 client; the generated codecs of the protocol; the C++ inference bridge; and the Worker
  agent except for lease decoding: it drives processes, files and GPU libraries.
\<close>

end
